(* ===== verification/Prelude.thy ===== *)
theory Prelude
  imports Main "HOL-Library.AList" "HOL-Library.Multiset" "HOL-Library.Char_ord"
    "HOL-Library.List_Lexorder" "HOL-Library.Product_Lexorder"
begin

section \<open>Shared vocabulary of the development\<close>

text \<open>
  Types, Python idioms and generic lemmas that the component theories share.

  Encodings used throughout the library:
  \<^item> a Python \<^verbatim>\<open>str\<close> is a \<open>string\<close>; \<^verbatim>\<open>strip\<close>, \<^verbatim>\<open>lower\<close> and \<^verbatim>\<open>split\<close> are given for ASCII text;
  \<^item> a \<^verbatim>\<open>dict\<close> is an association list in insertion order, updated with \<open>AList.update\<close> (an
    existing key keeps its position, a new key goes to the end, as in Python) and \<open>AList.delete\<close>;
  \<^item> an instant (\<^verbatim>\<open>datetime\<close>, \<^verbatim>\<open>time.time()\<close>) is an \<open>int\<close>, in the unit the component names;
  \<^item> a raised exception is the left side of a sum, an absent value is \<open>None\<close>.
\<close>

named_theorems dict_simps \<open>lookups after dictionary updates\<close>
named_theorems inv_intros \<open>one preservation rule per operation\<close>

type_synonym ('k, 'v) dict = "('k \<times> 'v) list"

subsection \<open>Dictionaries\<close>

abbreviation dict_get :: "('k, 'v) dict \<Rightarrow> 'k \<Rightarrow> 'v option" where
  "dict_get d k \<equiv> map_of d k"

abbreviation dict_set :: "'k \<Rightarrow> 'v \<Rightarrow> ('k, 'v) dict \<Rightarrow> ('k, 'v) dict" where
  "dict_set k v d \<equiv> AList.update k v d"

abbreviation dict_del :: "'k \<Rightarrow> ('k, 'v) dict \<Rightarrow> ('k, 'v) dict" where
  "dict_del k d \<equiv> AList.delete k d"

abbreviation dict_ok :: "('k, 'v) dict \<Rightarrow> bool" where
  "dict_ok d \<equiv> distinct (map fst d)"

definition dict_setdefault :: "'k \<Rightarrow> 'v \<Rightarrow> ('k, 'v) dict \<Rightarrow> ('k, 'v) dict" where
  "dict_setdefault k v d = (if dict_get d k = None then dict_set k v d else d)"

definition dict_merge :: "('k, 'v) dict \<Rightarrow> ('k, 'v) dict \<Rightarrow> ('k, 'v) dict" where
  "dict_merge d e = fold (\<lambda>(k, v) acc. dict_set k v acc) e d"

lemma dict_get_set [dict_simps]:
  "dict_get (dict_set k v d) k' = (if k' = k then Some v else dict_get d k')"
  by (simp add: update_conv')

lemma dict_get_del [dict_simps]:
  "dict_get (dict_del k d) k' = (if k' = k then None else dict_get d k')"
  by (simp add: delete_conv')

lemma dict_ok_set [dict_simps, inv_intros]: "dict_ok d \<Longrightarrow> dict_ok (dict_set k v d)"
  by (rule distinct_update)

lemma dict_ok_del [dict_simps, inv_intros]: "dict_ok d \<Longrightarrow> dict_ok (dict_del k d)"
  by (rule distinct_delete)

lemma dict_set_entries:
  "\<forall>(k, v) \<in> set d. P k v \<Longrightarrow> P k' v' \<Longrightarrow> \<forall>(k, v) \<in> set (dict_set k' v' d). P k v"
  by (induction d) auto

lemma dict_get_setdefault [dict_simps]:
  "dict_get (dict_setdefault k v d) k' =
     (if k' = k then (case dict_get d k of None \<Rightarrow> Some v | Some w \<Rightarrow> Some w) else dict_get d k')"
  by (auto simp: dict_setdefault_def dict_get_set split: option.splits)

lemma update_new: "k \<notin> fst ` set d \<Longrightarrow> dict_set k v d = d @ [(k, v)]"
  by (induction d) auto

text \<open>\<^verbatim>\<open>{f(x): x for x in xs}\<close> over distinct keys keeps the list.\<close>

lemma fold_dict_set_distinct:
  "distinct (map f xs) \<Longrightarrow> fold (\<lambda>x d. dict_set (f x) x d) xs [] = map (\<lambda>x. (f x, x)) xs"
proof (induction xs rule: rev_induct)
  case Nil
  then show ?case by simp
next
  case (snoc x xs)
  then have "f x \<notin> fst ` set (map (\<lambda>x. (f x, x)) xs)" by (auto simp: image_image)
  with snoc show ?case by (simp add: update_new)
qed

lemma find_as_map_of: "List.find (\<lambda>x. f x = k) xs = map_of (map (\<lambda>x. (f x, x)) xs) k"
  by (induction xs) auto

subsection \<open>JSON-like values\<close>

text \<open>
  The values of a \<^verbatim>\<open>dict[str, Any]\<close>. A float is kept as the text that \<^verbatim>\<open>repr\<close> prints; nothing
  in the modelled code computes with it.
\<close>

datatype json =
    JNull
  | JBool bool
  | JInt int
  | JFloat string
  | JStr string
  | JList "json list"
  | JObj "(string \<times> json) list"

type_synonym json_obj = "(string, json) dict"

text \<open>The truth value of \<^verbatim>\<open>if value:\<close>\<close>

fun json_truthy :: "json \<Rightarrow> bool" where
  "json_truthy JNull = False"
| "json_truthy (JBool b) = b"
| "json_truthy (JInt i) = (i \<noteq> 0)"
| "json_truthy (JFloat s) = (s \<notin> {[], ''0.0'', ''-0.0''})"
| "json_truthy (JStr s) = (s \<noteq> [])"
| "json_truthy (JList vs) = (vs \<noteq> [])"
| "json_truthy (JObj kvs) = (kvs \<noteq> [])"

subsection \<open>Keyed stores\<close>

text \<open>
  The contract that the persistent stores of the program share: what is found after a write, and
  under which keys. The clients' lemmas are proved once here; each store provides an
  interpretation on its own operations.
\<close>

locale keyed_store =
  fixes find_key :: "'s \<Rightarrow> 'k \<Rightarrow> 'v option"
    and put_key :: "'k \<Rightarrow> 'v \<Rightarrow> 's \<Rightarrow> 's"
    and fits :: "'k \<Rightarrow> 'v \<Rightarrow> bool"
    and ok :: "'s \<Rightarrow> bool"
  assumes find_put: "ok s \<Longrightarrow> fits k v \<Longrightarrow>
      find_key (put_key k v s) k' = (if k' = k then Some v else find_key s k')"
    and put_ok: "ok s \<Longrightarrow> fits k v \<Longrightarrow> ok (put_key k v s)"
begin

lemma find_put_same: "ok s \<Longrightarrow> fits k v \<Longrightarrow> find_key (put_key k v s) k = Some v"
  by (simp add: find_put)

lemma find_put_other: "ok s \<Longrightarrow> fits k v \<Longrightarrow> k' \<noteq> k \<Longrightarrow> find_key (put_key k v s) k' = find_key s k'"
  by (simp add: find_put)

lemma put_twice: "ok s \<Longrightarrow> fits k v \<Longrightarrow> fits k w \<Longrightarrow>
    find_key (put_key k w (put_key k v s)) k' = find_key (put_key k w s) k'"
  by (simp add: find_put put_ok)

lemma put_commute:
  "ok s \<Longrightarrow> fits k v \<Longrightarrow> fits l w \<Longrightarrow> k \<noteq> l \<Longrightarrow>
   find_key (put_key k v (put_key l w s)) k' = find_key (put_key l w (put_key k v s)) k'"
  by (simp add: find_put put_ok)

lemma put_idem: "ok s \<Longrightarrow> fits k v \<Longrightarrow> find_key s k = Some v \<Longrightarrow> find_key (put_key k v s) = find_key s"
  by (rule ext) (simp add: find_put)

lemma find_fold_put:
  "ok s \<Longrightarrow> \<forall>(k, v) \<in> set kvs. fits k v \<Longrightarrow>
   find_key (fold (\<lambda>(k, v). put_key k v) kvs s) k' =
     (case map_of (rev kvs) k' of Some v \<Rightarrow> Some v | None \<Rightarrow> find_key s k')"
  by (induction kvs arbitrary: s) (auto simp: find_put put_ok map_add_def split: option.splits)

end

interpretation dict: keyed_store "map_of" "AList.update" "\<lambda>_ _. True" "\<lambda>_. True"
  by unfold_locales (simp_all add: dict_get_set)

lemma dict_get_merge [dict_simps]:
  "dict_get (dict_merge d e) k =
     (case map_of (rev e) k of Some v \<Rightarrow> Some v | None \<Rightarrow> dict_get d k)"
  unfolding dict_merge_def by (rule dict.find_fold_put) auto

lemma dict_ok_merge [inv_intros]: "dict_ok d \<Longrightarrow> dict_ok (dict_merge d e)"
  unfolding dict_merge_def
  by (induction e arbitrary: d) (auto intro: distinct_update)

text \<open>
  A token that can be used once: a successful use needs the token unspent and spends it, and no step
  of the surrounding system makes it usable again.
\<close>

locale one_shot =
  fixes claim :: "'a \<Rightarrow> 's \<Rightarrow> 's \<times> 'r option"
    and spent :: "'s \<Rightarrow> bool"
    and step :: "'s \<Rightarrow> 's \<Rightarrow> bool"
    and good :: "'s \<Rightarrow> bool"
  assumes claim_spends: "good s \<Longrightarrow> claim a s = (t, Some r) \<Longrightarrow> spent t"
    and spent_blocks: "good s \<Longrightarrow> spent s \<Longrightarrow> snd (claim a s) = None"
    and claim_good: "good s \<Longrightarrow> good (fst (claim a s))"
    and step_spent: "good s \<Longrightarrow> spent s \<Longrightarrow> step s t \<Longrightarrow> spent t"
    and step_good: "good s \<Longrightarrow> step s t \<Longrightarrow> good t"
begin

lemma steps_spent: "step\<^sup>*\<^sup>* s t \<Longrightarrow> good s \<Longrightarrow> spent s \<Longrightarrow> good t \<and> spent t"
  by (induction rule: rtranclp_induct) (auto intro: step_spent step_good)

lemma at_most_once:
  assumes "good s" and "claim a s = (t, Some r)" and "step\<^sup>*\<^sup>* t u"
  shows "snd (claim b u) = None"
proof -
  from assms(1,2) have "good t" "spent t"
    using claim_good [of s a] claim_spends by auto
  with steps_spent [OF assms(3)] show ?thesis by (blast intro: spent_blocks)
qed

end

subsection \<open>Transition systems\<close>

text \<open>
  A component that runs interleaved with others is a step relation. The contract of a safety
  invariant, and the two ways the components use it: along the reflexive transitive closure, and
  along a recorded trace.
\<close>

locale safe_system =
  fixes start :: "'s \<Rightarrow> bool"
    and step :: "'s \<Rightarrow> 's \<Rightarrow> bool"
    and inv :: "'s \<Rightarrow> bool"
  assumes start_inv: "start s \<Longrightarrow> inv s"
    and step_inv: "inv s \<Longrightarrow> step s t \<Longrightarrow> inv t"
begin

lemma steps_inv: "step\<^sup>*\<^sup>* s t \<Longrightarrow> inv s \<Longrightarrow> inv t"
  by (induction rule: rtranclp_induct) (auto intro: step_inv)

lemma reachable_inv: "start s \<Longrightarrow> step\<^sup>*\<^sup>* s t \<Longrightarrow> inv t"
  by (blast intro: steps_inv start_inv)

lemma trace_inv: "inv s \<Longrightarrow> successively step (s # ts) \<Longrightarrow> t \<in> set ts \<Longrightarrow> inv t"
  by (induction ts arbitrary: s) (auto intro: step_inv)

end

lemma three_steps: "r a b \<Longrightarrow> r b c \<Longrightarrow> r c d \<Longrightarrow> r\<^sup>*\<^sup>* a d"
  by (meson converse_rtranclp_into_rtranclp rtranclp.rtrancl_refl)

subsection \<open>Lists of identified records\<close>

text \<open>
  A \<^verbatim>\<open>for\<close> loop that changes the first element satisfying a test and stops, and the suffix
  \<^verbatim>\<open>xs[-n:]\<close>.
\<close>

fun update_first :: "('a \<Rightarrow> bool) \<Rightarrow> ('a \<Rightarrow> 'a) \<Rightarrow> 'a list \<Rightarrow> 'a list" where
  "update_first P f [] = []"
| "update_first P f (x # xs) = (if P x then f x # xs else x # update_first P f xs)"

definition last_n :: "nat \<Rightarrow> 'a list \<Rightarrow> 'a list" where
  "last_n n xs = (if n = 0 then xs else drop (length xs - n) xs)"

lemma length_update_first [simp]: "length (update_first P f xs) = length xs"
  by (induction xs) auto

lemma map_update_first_key:
  "(\<And>x. P x \<Longrightarrow> g (f x) = g x) \<Longrightarrow> map g (update_first P f xs) = map g xs"
  by (induction xs) auto

lemma update_first_none: "\<forall>x \<in> set xs. \<not> P x \<Longrightarrow> update_first P f xs = xs"
  by (induction xs) auto

lemma find_update_first:
  "(\<And>x. P x \<Longrightarrow> P (f x)) \<Longrightarrow> List.find P (update_first P f xs) = map_option f (List.find P xs)"
  by (induction xs) auto

lemma find_update_first_other:
  "(\<And>x. P x \<Longrightarrow> \<not> Q x) \<Longrightarrow> (\<And>x. P x \<Longrightarrow> \<not> Q (f x)) \<Longrightarrow>
   List.find Q (update_first P f xs) = List.find Q xs"
  by (induction xs) auto

lemma set_update_first:
  "x \<in> set (update_first P f xs) \<Longrightarrow> x \<in> set xs \<or> (\<exists>y \<in> set xs. P y \<and> x = f y)"
  by (induction xs) (auto split: if_splits)

lemma find_SomeD: "List.find P xs = Some x \<Longrightarrow> P x \<and> x \<in> set xs"
  by (induction xs) (auto split: if_splits)

lemma find_NoneD: "List.find P xs = None \<Longrightarrow> x \<in> set xs \<Longrightarrow> \<not> P x"
  by (induction xs) (auto split: if_splits)

lemma find_append:
  "List.find P (xs @ ys) = (case List.find P xs of None \<Rightarrow> List.find P ys | Some x \<Rightarrow> Some x)"
  by (induction xs) auto

lemma find_unique:
  "distinct (map g xs) \<Longrightarrow> x \<in> set xs \<Longrightarrow> g x = k \<Longrightarrow> List.find (\<lambda>y. g y = k) xs = Some x"
  by (induction xs) auto

lemma find_distinct_iff:
  assumes "distinct (map g xs)"
  shows "List.find (\<lambda>y. g y = k) xs = Some x \<longleftrightarrow> x \<in> set xs \<and> g x = k"
proof
  assume "List.find (\<lambda>y. g y = k) xs = Some x"
  then show "x \<in> set xs \<and> g x = k" by (auto dest: find_SomeD)
next
  assume "x \<in> set xs \<and> g x = k"
  then show "List.find (\<lambda>y. g y = k) xs = Some x" by (auto intro: find_unique [OF assms])
qed

lemma distinct_map_sort_key: "distinct (map g (sort_key h xs)) = distinct (map g xs)"
  by (metis mset_map mset_sort mset_eq_imp_distinct_iff)

lemma find_sort_key:
  assumes "distinct (map g xs)"
  shows "List.find (\<lambda>y. g y = k) (sort_key h xs) = List.find (\<lambda>y. g y = k) xs"
proof (cases "List.find (\<lambda>y. g y = k) xs")
  case None
  then have "List.find (\<lambda>y. g y = k) (sort_key h xs) = None" by (simp add: find_None_iff)
  with None show ?thesis by simp
next
  case (Some x)
  have "distinct (map g (sort_key h xs))" using assms by (simp add: distinct_map_sort_key)
  moreover from Some have "x \<in> set (sort_key h xs)" "g x = k" by (auto dest: find_SomeD)
  ultimately have "List.find (\<lambda>y. g y = k) (sort_key h xs) = Some x" by (rule find_unique)
  with Some show ?thesis by simp
qed

lemma length_last_n: "0 < n \<Longrightarrow> length (last_n n xs) \<le> n"
  by (simp add: last_n_def)

lemma set_last_n: "set (last_n n xs) \<subseteq> set xs"
  by (auto simp: last_n_def dest: in_set_dropD)

lemma last_n_snoc: "0 < n \<Longrightarrow> last_n n (xs @ [x]) \<noteq> [] \<and> last (last_n n (xs @ [x])) = x"
  by (auto simp: last_n_def)

subsection \<open>ASCII string operations\<close>

definition py_space :: "char \<Rightarrow> bool" where
  "py_space c = (of_char c \<in> {9, 10, 11, 12, 13, 28, 29, 30, 31, 32 :: nat})"

definition py_strip :: "string \<Rightarrow> string" where
  "py_strip s = rev (dropWhile py_space (rev (dropWhile py_space s)))"

definition ascii_lower :: "char \<Rightarrow> char" where
  "ascii_lower c = (if 65 \<le> (of_char c :: nat) \<and> (of_char c :: nat) \<le> 90
     then char_of ((of_char c :: nat) + 32) else c)"

definition py_lower :: "string \<Rightarrow> string" where
  "py_lower s = map ascii_lower s"

definition py_in :: "string \<Rightarrow> string \<Rightarrow> bool" where
  "py_in needle text = (needle = [] \<or> (\<exists>i \<in> set [0..<length text]. take (length needle) (drop i text) = needle))"

fun py_split_aux :: "string \<Rightarrow> string \<Rightarrow> string list" where
  "py_split_aux [] acc = (if acc = [] then [] else [rev acc])"
| "py_split_aux (c # cs) acc =
     (if py_space c then (if acc = [] then py_split_aux cs [] else rev acc # py_split_aux cs [])
      else py_split_aux cs (c # acc))"

definition py_split :: "string \<Rightarrow> string list" where
  "py_split s = py_split_aux s []"

text \<open>How the evaluation of examples computes these: on the bits of a character, and by walking along the text.\<close>

lemma ascii_lower_bits [code]:
  "ascii_lower (Char b0 b1 b2 b3 b4 b5 b6 b7) =
     (if \<not> b7 \<and> b6 \<and> \<not> b5 \<and> (b0 \<or> b1 \<or> b2 \<or> b3 \<or> b4) \<and> \<not> (b4 \<and> b3 \<and> (b2 \<or> b1 \<and> b0))
      then Char b0 b1 b2 b3 b4 True b6 b7 else Char b0 b1 b2 b3 b4 b5 b6 b7)"
  by (cases b0; cases b1; cases b2; cases b3; cases b4; cases b5; cases b6; cases b7; simp add: ascii_lower_def; code_simp)

lemma py_space_bits [code]:
  "py_space (Char b0 b1 b2 b3 b4 b5 b6 b7) =
     (\<not> b7 \<and> \<not> b6 \<and> (if b5 then \<not> b4 \<and> \<not> b3 \<and> \<not> b2 \<and> \<not> b1 \<and> \<not> b0
        else b3 \<and> (if b4 then b2 else \<not> (b2 \<and> b1) \<and> (b0 \<or> b1 \<or> b2))))"
  by (cases b0; cases b1; cases b2; cases b3; cases b4; cases b5; cases b6; cases b7; simp add: py_space_def)

fun begins_with :: "string \<Rightarrow> string \<Rightarrow> bool" where
  "begins_with [] t = True"
| "begins_with (c # p) [] = False"
| "begins_with (c # p) (d # t) = (if c = d then begins_with p t else False)"

lemma begins_with_iff: "begins_with p t \<longleftrightarrow> take (length p) t = p"
  by (induction p t rule: begins_with.induct) auto

lemma py_in_walk [code]:
  "py_in p [] = (p = [])"
  "py_in p (c # t) = (if begins_with p (c # t) then True else py_in p t)"
proof -
  have shift: "(\<exists>i \<in> set [0..<length (c # t)]. take (length p) (drop i (c # t)) = p) \<longleftrightarrow>
      take (length p) (c # t) = p \<or> (\<exists>i \<in> set [0..<length t]. take (length p) (drop i t) = p)"
    by (simp add: upt_conv_Cons image_Suc_atLeastLessThan [symmetric] del: upt_Suc image_Suc_atLeastLessThan)
  show "py_in p [] = (p = [])" by (simp add: py_in_def)
  show "py_in p (c # t) = (if begins_with p (c # t) then True else py_in p t)"
    unfolding py_in_def shift begins_with_iff by auto
qed

text \<open>Python's \<^verbatim>\<open>x or default\<close> on strings, and on optional strings.\<close>

definition str_or :: "string \<Rightarrow> string \<Rightarrow> string" where
  "str_or s d = (if s = [] then d else s)"

definition opt_or :: "string option \<Rightarrow> string \<Rightarrow> string" where
  "opt_or x d = (case x of Some s \<Rightarrow> str_or s d | None \<Rightarrow> d)"

definition truthy :: "string option \<Rightarrow> bool" where
  "truthy x = (case x of Some s \<Rightarrow> s \<noteq> [] | None \<Rightarrow> False)"

lemma truthy_Some [simp]: "truthy (Some s) = (s \<noteq> [])" and truthy_None [simp]: "\<not> truthy None"
  by (simp_all add: truthy_def)

lemma py_strip_idem_nil [simp]: "py_strip [] = []"
  by (simp add: py_strip_def)

lemma py_lower_nil [simp]: "py_lower [] = []"
  by (simp add: py_lower_def)

lemma length_py_strip: "length (py_strip s) \<le> length s"
  by (simp add: py_strip_def) (metis length_dropWhile_le length_rev order_trans)

lemma split_aux_nonempty: "w \<in> set (py_split_aux s acc) \<Longrightarrow> w \<noteq> []"
  by (induction s acc rule: py_split_aux.induct) (auto split: if_splits)

lemma split_nonempty: "w \<in> set (py_split s) \<Longrightarrow> w \<noteq> []"
  unfolding py_split_def by (rule split_aux_nonempty)

end
