(* ===== verification/Bus.thy ===== *)
theory Bus
  imports Prelude "HOL-Library.Sublist"
begin

section \<open>The message bus\<close>

text \<open>
  \<^verbatim>\<open>OriginAgent/bus/queue.py\<close> and \<^verbatim>\<open>OriginAgent/bus/events.py\<close>: three bounded queues between the
  channels and the agent. A publisher that finds its queue full suspends with a timeout, then
  spills to the persistence sink, then drops; an internal message is dropped at once. A consumer
  that finds the user queue empty races two getters.

  A coroutine is split at its \<^verbatim>\<open>await\<close>: one definition runs up to the suspension, one per way it
  resumes. Interleaving with other tasks is the order of the steps of \<open>bus_step\<close>. A subscriber
  or the sink is the predicate that says whether its callback returns (\<open>True\<close>) or raises.
\<close>

record InboundMessage =
  in_channel :: string
  in_sender_id :: string
  in_chat_id :: string
  in_content :: string
  in_timestamp :: int
  in_media :: "string list"
  in_metadata :: json_obj
  in_session_key_override :: "string option"
  in_episode_id :: "string option"
  is_internal :: bool

record OutboundMessage =
  out_channel :: string
  out_chat_id :: string
  out_content :: string
  reply_to :: "string option"
  out_media :: "string list"
  out_metadata :: json_obj
  out_buttons :: "string list list"

definition session_key :: "InboundMessage \<Rightarrow> string" where
  "session_key m = opt_or (in_session_key_override m) (in_channel m @ '':'' @ in_chat_id m)"

record MessageBusSubscriber =
  on_inbound :: "InboundMessage \<Rightarrow> bool"
  on_outbound :: "OutboundMessage \<Rightarrow> bool"

record PersistedMessageSink =
  persist_inbound :: "InboundMessage \<Rightarrow> bool"
  persist_outbound :: "OutboundMessage \<Rightarrow> bool"

record MessageBus =
  inbound :: "InboundMessage list"
  inbound_internal :: "InboundMessage list"
  outbound :: "OutboundMessage list"
  maxsize :: int
  subscribers :: "MessageBusSubscriber list"
  persistence :: "PersistedMessageSink option"
  published_inbound :: nat
  published_outbound :: nat
  dropped_inbound :: nat
  dropped_outbound :: nat
  dropped_inbound_internal :: nat
  persisted_inbound :: nat
  persisted_outbound :: nat
  subscriber_failures_inbound :: nat
  subscriber_failures_outbound :: nat
  persist_failures_inbound :: nat
  persist_failures_outbound :: nat

definition new_bus :: "int \<Rightarrow> PersistedMessageSink option \<Rightarrow> MessageBus" where
  "new_bus n sink = \<lparr>inbound = [], inbound_internal = [], outbound = [], maxsize = n,
     subscribers = [], persistence = sink, published_inbound = 0, published_outbound = 0,
     dropped_inbound = 0, dropped_outbound = 0, dropped_inbound_internal = 0,
     persisted_inbound = 0, persisted_outbound = 0, subscriber_failures_inbound = 0,
     subscriber_failures_outbound = 0, persist_failures_inbound = 0,
     persist_failures_outbound = 0\<rparr>"

definition subscribe :: "MessageBusSubscriber \<Rightarrow> MessageBus \<Rightarrow> MessageBus" where
  "subscribe sub b = b\<lparr>subscribers := subscribers b @ [sub]\<rparr>"

text \<open>\<^verbatim>\<open>asyncio.Queue.full\<close>: a maximum of zero or less means unbounded.\<close>

definition queue_full :: "int \<Rightarrow> 'a list \<Rightarrow> bool" where
  "queue_full n q = (0 < n \<and> n \<le> int (length q))"

definition put_nowait :: "int \<Rightarrow> 'a \<Rightarrow> 'a list \<Rightarrow> 'a list option" where
  "put_nowait n x q = (if queue_full n q then None else Some (q @ [x]))"

text \<open>How a publish coroutine stands after a step: returned, or suspended in \<^verbatim>\<open>put\<close>.\<close>

datatype publish_state = Returned bool | Suspended

subsection \<open>Inbound\<close>

definition notify_inbound :: "InboundMessage \<Rightarrow> MessageBus \<Rightarrow> MessageBus" where
  "notify_inbound m b = b\<lparr>published_inbound := published_inbound b + 1,
     subscriber_failures_inbound := subscriber_failures_inbound b
       + length (filter (\<lambda>s. \<not> on_inbound s m) (subscribers b))\<rparr>"

definition publish_inbound :: "InboundMessage \<Rightarrow> MessageBus \<Rightarrow> MessageBus \<times> publish_state" where
  "publish_inbound m b0 =
     (let b = notify_inbound m b0 in
      if is_internal m then
        (case put_nowait (maxsize b) m (inbound_internal b) of
           Some q \<Rightarrow> (b\<lparr>inbound_internal := q\<rparr>, Returned True)
         | None \<Rightarrow> (b\<lparr>dropped_inbound_internal := dropped_inbound_internal b + 1\<rparr>, Returned False))
      else
        (case put_nowait (maxsize b) m (inbound b) of
           Some q \<Rightarrow> (b\<lparr>inbound := q\<rparr>, Returned True)
         | None \<Rightarrow> (b, Suspended)))"

text \<open>The suspended \<^verbatim>\<open>put\<close> is woken: it stores the message if there is room, else waits on.\<close>

definition publish_inbound_wake :: "InboundMessage \<Rightarrow> MessageBus \<Rightarrow> MessageBus \<times> publish_state" where
  "publish_inbound_wake m b =
     (case put_nowait (maxsize b) m (inbound b) of
        Some q \<Rightarrow> (b\<lparr>inbound := q\<rparr>, Returned True)
      | None \<Rightarrow> (b, Suspended))"

text \<open>The timeout fires: phase 3 and the last resort.\<close>

definition publish_inbound_timeout :: "InboundMessage \<Rightarrow> MessageBus \<Rightarrow> MessageBus \<times> bool" where
  "publish_inbound_timeout m b =
     (case persistence b of
        Some sink \<Rightarrow>
          (if persist_inbound sink m then (b\<lparr>persisted_inbound := persisted_inbound b + 1\<rparr>, True)
           else (b\<lparr>persist_failures_inbound := persist_failures_inbound b + 1,
                   dropped_inbound := dropped_inbound b + 1\<rparr>, False))
      | None \<Rightarrow> (b\<lparr>dropped_inbound := dropped_inbound b + 1\<rparr>, False))"

text \<open>
  \<^verbatim>\<open>consume_inbound\<close>: the non-blocking drain of the user queue; \<open>None\<close> when the two getter tasks
  are started instead.
\<close>

definition consume_inbound :: "MessageBus \<Rightarrow> MessageBus \<times> InboundMessage option" where
  "consume_inbound b =
     (case inbound b of
        m # q \<Rightarrow> (b\<lparr>inbound := q\<rparr>, Some m)
      | [] \<Rightarrow> (b, None))"

text \<open>
  The race of the two getters. \<open>user_done\<close> and \<open>internal_done\<close> say which task is done when \<^verbatim>\<open>asyncio.wait\<close>
  returns, or, with \<open>cancelled\<close>, when the consumer is cancelled in it (the dispatcher waits for one second
  only): then both tasks are cancelled and nothing is returned. A task that is done has taken the head of its
  queue; cancelling it has no effect, and cancelling one that is not done leaves its queue alone. \<open>None\<close> when
  the outcome is impossible: a task done on an empty queue, or no task done without a cancellation.
\<close>

definition consume_inbound_race ::
    "bool \<Rightarrow> bool \<Rightarrow> bool \<Rightarrow> MessageBus \<Rightarrow> (MessageBus \<times> InboundMessage option) option" where
  "consume_inbound_race user_done internal_done cancelled b =
     (if (user_done \<and> inbound b = []) \<or> (internal_done \<and> inbound_internal b = [])
         \<or> (\<not> cancelled \<and> \<not> user_done \<and> \<not> internal_done) then None
      else
        let b1 = (if user_done then b\<lparr>inbound := tl (inbound b)\<rparr> else b);
            b2 = (if internal_done then b1\<lparr>inbound_internal := tl (inbound_internal b)\<rparr> else b1)
        in Some (b2, if cancelled then None
                     else if user_done then Some (hd (inbound b)) else Some (hd (inbound_internal b))))"

text \<open>What the getters have taken.\<close>

definition race_taken :: "bool \<Rightarrow> bool \<Rightarrow> MessageBus \<Rightarrow> InboundMessage list" where
  "race_taken user_done internal_done b =
     (if user_done then [hd (inbound b)] else []) @ (if internal_done then [hd (inbound_internal b)] else [])"

subsection \<open>Outbound\<close>

definition publish_outbound :: "OutboundMessage \<Rightarrow> MessageBus \<Rightarrow> MessageBus \<times> publish_state" where
  "publish_outbound m b0 =
     (let b = b0\<lparr>published_outbound := published_outbound b0 + 1,
                 subscriber_failures_outbound := subscriber_failures_outbound b0
                   + length (filter (\<lambda>s. \<not> on_outbound s m) (subscribers b0))\<rparr> in
      case put_nowait (maxsize b) m (outbound b) of
        Some q \<Rightarrow> (b\<lparr>outbound := q\<rparr>, Returned True)
      | None \<Rightarrow> (b, Suspended))"

definition publish_outbound_wake :: "OutboundMessage \<Rightarrow> MessageBus \<Rightarrow> MessageBus \<times> publish_state" where
  "publish_outbound_wake m b =
     (case put_nowait (maxsize b) m (outbound b) of
        Some q \<Rightarrow> (b\<lparr>outbound := q\<rparr>, Returned True)
      | None \<Rightarrow> (b, Suspended))"

definition publish_outbound_timeout :: "OutboundMessage \<Rightarrow> MessageBus \<Rightarrow> MessageBus \<times> bool" where
  "publish_outbound_timeout m b =
     (case persistence b of
        Some sink \<Rightarrow>
          (if persist_outbound sink m then (b\<lparr>persisted_outbound := persisted_outbound b + 1\<rparr>, True)
           else (b\<lparr>persist_failures_outbound := persist_failures_outbound b + 1,
                   dropped_outbound := dropped_outbound b + 1\<rparr>, False))
      | None \<Rightarrow> (b\<lparr>dropped_outbound := dropped_outbound b + 1\<rparr>, False))"

definition consume_outbound :: "MessageBus \<Rightarrow> MessageBus \<times> OutboundMessage option" where
  "consume_outbound b =
     (case outbound b of
        m # q \<Rightarrow> (b\<lparr>outbound := q\<rparr>, Some m)
      | [] \<Rightarrow> (b, None))"

definition inbound_size :: "MessageBus \<Rightarrow> nat" where
  "inbound_size b = length (inbound b) + length (inbound_internal b)"

definition outbound_size :: "MessageBus \<Rightarrow> nat" where
  "outbound_size b = length (outbound b)"

text \<open>
  \<^verbatim>\<open>stats\<close>, in the order of the dictionary, without the two time values
  (\<^verbatim>\<open>overflow_timeout\<close>, \<^verbatim>\<open>uptime_s\<close>).
\<close>

definition stats :: "MessageBus \<Rightarrow> (string, int) dict" where
  "stats b =
     [(''published_inbound'', int (published_inbound b)),
      (''published_outbound'', int (published_outbound b)),
      (''dropped_inbound'', int (dropped_inbound b)),
      (''dropped_inbound_internal'', int (dropped_inbound_internal b)),
      (''dropped_outbound'', int (dropped_outbound b)),
      (''persisted_inbound'', int (persisted_inbound b)),
      (''persisted_outbound'', int (persisted_outbound b)),
      (''inbound_subscriber_failures'', int (subscriber_failures_inbound b)),
      (''inbound_persist_failures'', int (persist_failures_inbound b)),
      (''outbound_subscriber_failures'', int (subscriber_failures_outbound b)),
      (''outbound_persist_failures'', int (persist_failures_outbound b)),
      (''inbound_queue_depth'', int (length (inbound b))),
      (''inbound_queue_max'', maxsize b),
      (''inbound_internal_queue_depth'', int (length (inbound_internal b))),
      (''inbound_internal_queue_max'', maxsize b),
      (''outbound_queue_depth'', int (length (outbound b))),
      (''outbound_queue_max'', maxsize b)]"

subsection \<open>Interleaved runs\<close>

text \<open>
  The world of the bus: the bus itself, the suspended publishers, and the history of every
  message, by what became of it. The history is not state of the program; it is what the
  conservation theorem is about. \<open>taken_in\<close> is what the getters took, in order; \<open>raced_away\<close> holds the
  messages among them that no consumer was given, and \<open>aborted_in\<close> and \<open>aborted_out\<close> those whose publisher was
  cancelled while it waited for room.
\<close>

record bus_world =
  the_bus :: MessageBus
  waiting_in :: "InboundMessage multiset"
  sent_in :: "InboundMessage multiset"
  accepted_user :: "InboundMessage list"
  got_in :: "InboundMessage list"
  taken_in :: "InboundMessage list"
  spilled_in :: "InboundMessage multiset"
  refused_in :: "InboundMessage multiset"
  raced_away :: "InboundMessage multiset"
  aborted_in :: "InboundMessage multiset"
  waiting_out :: "OutboundMessage multiset"
  accepted_out :: "OutboundMessage list"
  sent_out :: "OutboundMessage multiset"
  got_out :: "OutboundMessage list"
  spilled_out :: "OutboundMessage multiset"
  refused_out :: "OutboundMessage multiset"
  aborted_out :: "OutboundMessage multiset"

definition new_world :: "MessageBus \<Rightarrow> bus_world" where
  "new_world b = \<lparr>the_bus = b, waiting_in = {#}, sent_in = {#}, accepted_user = [], got_in = [], taken_in = [],
     spilled_in = {#}, refused_in = {#}, raced_away = {#}, aborted_in = {#}, waiting_out = {#}, accepted_out = [],
     sent_out = {#}, got_out = [], spilled_out = {#}, refused_out = {#}, aborted_out = {#}\<rparr>"

definition log_accept :: "InboundMessage \<Rightarrow> bus_world \<Rightarrow> bus_world" where
  "log_accept m w = (if is_internal m then w else w\<lparr>accepted_user := accepted_user w @ [m]\<rparr>)"

inductive bus_step :: "bus_world \<Rightarrow> bus_world \<Rightarrow> bool" where
  subscribe: "bus_step w (w\<lparr>the_bus := subscribe sub (the_bus w)\<rparr>)"
| in_accept: "publish_inbound m (the_bus w) = (b, Returned True) \<Longrightarrow>
    bus_step w (log_accept m (w\<lparr>the_bus := b, sent_in := add_mset m (sent_in w)\<rparr>))"
| in_refuse: "publish_inbound m (the_bus w) = (b, Returned False) \<Longrightarrow>
    bus_step w (w\<lparr>the_bus := b, sent_in := add_mset m (sent_in w),
      refused_in := add_mset m (refused_in w)\<rparr>)"
| in_suspend: "publish_inbound m (the_bus w) = (b, Suspended) \<Longrightarrow>
    bus_step w (w\<lparr>the_bus := b, sent_in := add_mset m (sent_in w),
      waiting_in := add_mset m (waiting_in w)\<rparr>)"
| in_wake: "m \<in># waiting_in w \<Longrightarrow> publish_inbound_wake m (the_bus w) = (b, Returned True) \<Longrightarrow>
    bus_step w (log_accept m (w\<lparr>the_bus := b, waiting_in := waiting_in w - {#m#}\<rparr>))"
| in_spill: "m \<in># waiting_in w \<Longrightarrow> publish_inbound_timeout m (the_bus w) = (b, True) \<Longrightarrow>
    bus_step w (w\<lparr>the_bus := b, waiting_in := waiting_in w - {#m#},
      spilled_in := add_mset m (spilled_in w)\<rparr>)"
| in_drop: "m \<in># waiting_in w \<Longrightarrow> publish_inbound_timeout m (the_bus w) = (b, False) \<Longrightarrow>
    bus_step w (w\<lparr>the_bus := b, waiting_in := waiting_in w - {#m#},
      refused_in := add_mset m (refused_in w)\<rparr>)"
| in_abort: "m \<in># waiting_in w \<Longrightarrow>
    bus_step w (w\<lparr>waiting_in := waiting_in w - {#m#}, aborted_in := add_mset m (aborted_in w)\<rparr>)"
| in_take: "consume_inbound (the_bus w) = (b, Some m) \<Longrightarrow>
    bus_step w (w\<lparr>the_bus := b, got_in := got_in w @ [m], taken_in := taken_in w @ [m]\<rparr>)"
| in_race: "consume_inbound_race ud idn False (the_bus w) = Some (b, Some m) \<Longrightarrow>
    bus_step w (w\<lparr>the_bus := b, got_in := got_in w @ [m], taken_in := taken_in w @ race_taken ud idn (the_bus w),
      raced_away := raced_away w + (mset (race_taken ud idn (the_bus w)) - {#m#})\<rparr>)"
| in_cancel: "consume_inbound_race ud idn True (the_bus w) = Some (b, None) \<Longrightarrow>
    bus_step w (w\<lparr>the_bus := b, taken_in := taken_in w @ race_taken ud idn (the_bus w),
      raced_away := raced_away w + mset (race_taken ud idn (the_bus w))\<rparr>)"
| out_accept: "publish_outbound o' (the_bus w) = (b, Returned True) \<Longrightarrow>
    bus_step w (w\<lparr>the_bus := b, sent_out := add_mset o' (sent_out w),
      accepted_out := accepted_out w @ [o']\<rparr>)"
| out_suspend: "publish_outbound o' (the_bus w) = (b, Suspended) \<Longrightarrow>
    bus_step w (w\<lparr>the_bus := b, sent_out := add_mset o' (sent_out w),
      waiting_out := add_mset o' (waiting_out w)\<rparr>)"
| out_wake: "o' \<in># waiting_out w \<Longrightarrow> publish_outbound_wake o' (the_bus w) = (b, Returned True) \<Longrightarrow>
    bus_step w (w\<lparr>the_bus := b, waiting_out := waiting_out w - {#o'#},
      accepted_out := accepted_out w @ [o']\<rparr>)"
| out_spill: "o' \<in># waiting_out w \<Longrightarrow> publish_outbound_timeout o' (the_bus w) = (b, True) \<Longrightarrow>
    bus_step w (w\<lparr>the_bus := b, waiting_out := waiting_out w - {#o'#},
      spilled_out := add_mset o' (spilled_out w)\<rparr>)"
| out_drop: "o' \<in># waiting_out w \<Longrightarrow> publish_outbound_timeout o' (the_bus w) = (b, False) \<Longrightarrow>
    bus_step w (w\<lparr>the_bus := b, waiting_out := waiting_out w - {#o'#},
      refused_out := add_mset o' (refused_out w)\<rparr>)"
| out_abort: "o' \<in># waiting_out w \<Longrightarrow>
    bus_step w (w\<lparr>waiting_out := waiting_out w - {#o'#}, aborted_out := add_mset o' (aborted_out w)\<rparr>)"
| out_take: "consume_outbound (the_bus w) = (b, Some o') \<Longrightarrow>
    bus_step w (w\<lparr>the_bus := b, got_out := got_out w @ [o']\<rparr>)"

definition within_capacity :: "MessageBus \<Rightarrow> bool" where
  "within_capacity b \<longleftrightarrow> (0 < maxsize b \<longrightarrow> int (length (inbound b)) \<le> maxsize b
     \<and> int (length (inbound_internal b)) \<le> maxsize b \<and> int (length (outbound b)) \<le> maxsize b)"

definition lanes_ok :: "bus_world \<Rightarrow> bool" where
  "lanes_ok w \<longleftrightarrow> (\<forall>m \<in> set (inbound (the_bus w)). \<not> is_internal m)
     \<and> (\<forall>m \<in> set (inbound_internal (the_bus w)). is_internal m)
     \<and> (\<forall>m \<in># waiting_in w. \<not> is_internal m) \<and> (\<forall>m \<in># spilled_in w. \<not> is_internal m)"

definition inbound_conserved :: "bus_world \<Rightarrow> bool" where
  "inbound_conserved w \<longleftrightarrow>
     sent_in w = mset (got_in w) + mset (inbound (the_bus w)) + mset (inbound_internal (the_bus w))
       + waiting_in w + spilled_in w + refused_in w + raced_away w + aborted_in w"

definition outbound_conserved :: "bus_world \<Rightarrow> bool" where
  "outbound_conserved w \<longleftrightarrow>
     sent_out w = mset (got_out w) + mset (outbound (the_bus w)) + waiting_out w
       + spilled_out w + refused_out w + aborted_out w"

definition fifo_ok :: "bus_world \<Rightarrow> bool" where
  "fifo_ok w \<longleftrightarrow>
     accepted_user w = filter (\<lambda>m. \<not> is_internal m) (taken_in w) @ inbound (the_bus w)
     \<and> subseq (got_in w) (taken_in w) \<and> mset (taken_in w) = mset (got_in w) + raced_away w
     \<and> accepted_out w = got_out w @ outbound (the_bus w)"

definition counters_ok :: "bus_world \<Rightarrow> bool" where
  "counters_ok w \<longleftrightarrow> (let b = the_bus w in
     published_inbound b = size (sent_in w) \<and> published_outbound b = size (sent_out w)
     \<and> persisted_inbound b = size (spilled_in w) \<and> persisted_outbound b = size (spilled_out w)
     \<and> dropped_inbound b + dropped_inbound_internal b = size (refused_in w)
     \<and> dropped_outbound b = size (refused_out w))"

lemmas bus_op_defs = Bus.subscribe_def publish_inbound_def publish_inbound_wake_def
  publish_inbound_timeout_def consume_inbound_def consume_inbound_race_def race_taken_def publish_outbound_def
  publish_outbound_wake_def publish_outbound_timeout_def consume_outbound_def notify_inbound_def
  put_nowait_def queue_full_def log_accept_def Let_def

lemmas bus_splits = if_splits option.splits list.splits publish_state.splits

lemma step_within_capacity [inv_intros]:
  "bus_step w w' \<Longrightarrow> within_capacity (the_bus w) \<Longrightarrow> within_capacity (the_bus w')"
  by (cases rule: bus_step.cases, assumption)
    (auto simp: within_capacity_def bus_op_defs split: bus_splits)

lemma step_lanes_ok [inv_intros]: "bus_step w w' \<Longrightarrow> lanes_ok w \<Longrightarrow> lanes_ok w'"
  by (cases rule: bus_step.cases, assumption)
    (auto simp: lanes_ok_def bus_op_defs neq_Nil_conv dest: in_diffD split: bus_splits)

lemma race_effect:
  assumes "consume_inbound_race ud idn c b = Some (b', x)"
  obtains us vs where "inbound b = us @ inbound b'" "inbound_internal b = vs @ inbound_internal b'"
    "race_taken ud idn b = us @ vs" "outbound b' = outbound b" "\<And>m. x = Some m \<Longrightarrow> m \<in> set (us @ vs)"
proof -
  let ?us = "if ud then [hd (inbound b)] else []" and ?vs = "if idn then [hd (inbound_internal b)] else []"
  show thesis
    by (rule that [of ?us ?vs])
      (use assms in \<open>auto simp: consume_inbound_race_def race_taken_def Let_def neq_Nil_conv split: if_splits\<close>)
qed

lemma step_inbound_conserved [inv_intros]:
  assumes "bus_step w w'" and "inbound_conserved w"
  shows "inbound_conserved w'"
  using assms(1)
proof (cases rule: bus_step.cases)
  case (in_race ud idn b m)
  from race_effect [OF in_race(2)] obtain us vs where r: "inbound (the_bus w) = us @ inbound b"
    "inbound_internal (the_bus w) = vs @ inbound_internal b" "race_taken ud idn (the_bus w) = us @ vs" "m \<in> set (us @ vs)" by blast
  have "add_mset m (mset (us @ vs) - {#m#}) = mset (us @ vs)" using r(4) by simp
  with r assms(2) show ?thesis unfolding in_race(1) by (simp add: inbound_conserved_def)
next
  case (in_cancel ud idn b)
  from race_effect [OF in_cancel(2)] obtain us vs where "inbound (the_bus w) = us @ inbound b"
    "inbound_internal (the_bus w) = vs @ inbound_internal b" "race_taken ud idn (the_bus w) = us @ vs" by blast
  with assms(2) show ?thesis unfolding in_cancel(1) by (simp add: inbound_conserved_def)
qed (use assms(2) in \<open>auto simp: inbound_conserved_def bus_op_defs neq_Nil_conv split: bus_splits\<close>)

lemma step_outbound_conserved [inv_intros]:
  "bus_step w w' \<Longrightarrow> outbound_conserved w \<Longrightarrow> outbound_conserved w'"
  by (cases rule: bus_step.cases, assumption)
    (auto simp: outbound_conserved_def bus_op_defs split: bus_splits)

lemma step_fifo_ok [inv_intros]:
  assumes "bus_step w w'" and "lanes_ok w" and "fifo_ok w"
  shows "fifo_ok w'"
  using assms(1)
proof (cases rule: bus_step.cases)
  case (in_race ud idn b m)
  from race_effect [OF in_race(2)] obtain us vs where r: "inbound (the_bus w) = us @ inbound b"
    "inbound_internal (the_bus w) = vs @ inbound_internal b" "race_taken ud idn (the_bus w) = us @ vs"
    "outbound b = outbound (the_bus w)" "m \<in> set (us @ vs)" by blast
  have lanes: "filter (\<lambda>m. \<not> is_internal m) us = us" "filter (\<lambda>m. \<not> is_internal m) vs = []"
    using assms(2) r(1,2) by (auto simp: lanes_ok_def filter_id_conv filter_empty_conv)
  have "add_mset m (mset (us @ vs) - {#m#}) = mset (us @ vs)" using r(5) by simp
  moreover have "subseq (got_in w @ [m]) (taken_in w @ us @ vs)"
    using assms(3) r(5) by (intro list_emb_append_mono) (auto simp: fifo_ok_def subseq_singleton_left)
  ultimately show ?thesis using r lanes assms(3) unfolding in_race(1) by (simp add: fifo_ok_def)
next
  case (in_cancel ud idn b)
  from race_effect [OF in_cancel(2)] obtain us vs where r: "inbound (the_bus w) = us @ inbound b"
    "inbound_internal (the_bus w) = vs @ inbound_internal b" "race_taken ud idn (the_bus w) = us @ vs"
    "outbound b = outbound (the_bus w)" by blast
  have lanes: "filter (\<lambda>m. \<not> is_internal m) us = us" "filter (\<lambda>m. \<not> is_internal m) vs = []"
    using assms(2) r(1,2) by (auto simp: lanes_ok_def filter_id_conv filter_empty_conv)
  have "subseq (got_in w) (taken_in w @ us @ vs)"
    using assms(3) list_emb_append2 [of "(=)" "got_in w" "taken_in w"] by (auto simp: fifo_ok_def intro: subseq_order.trans)
  with r lanes assms(3) show ?thesis unfolding in_cancel(1) by (simp add: fifo_ok_def)
qed (use assms(2,3) in \<open>auto simp: lanes_ok_def fifo_ok_def bus_op_defs neq_Nil_conv intro: list_emb_append_mono split: bus_splits\<close>)

lemma step_counters_ok [inv_intros]: "bus_step w w' \<Longrightarrow> counters_ok w \<Longrightarrow> counters_ok w'"
  by (cases rule: bus_step.cases, assumption)
    (auto simp: counters_ok_def bus_op_defs split: bus_splits)

definition bus_inv :: "bus_world \<Rightarrow> bool" where
  "bus_inv w \<longleftrightarrow> within_capacity (the_bus w) \<and> lanes_ok w \<and> inbound_conserved w
     \<and> outbound_conserved w \<and> fifo_ok w \<and> counters_ok w"

definition fresh_world :: "bus_world \<Rightarrow> bool" where
  "fresh_world w \<longleftrightarrow> (\<exists>n sink. w = new_world (new_bus n sink))"

interpretation bus: safe_system fresh_world bus_step bus_inv
proof unfold_locales
  fix w assume "fresh_world w"
  then show "bus_inv w"
    by (auto simp: fresh_world_def new_world_def new_bus_def bus_inv_def within_capacity_def
      lanes_ok_def inbound_conserved_def outbound_conserved_def fifo_ok_def counters_ok_def)
next
  fix w w' assume "bus_inv w" "bus_step w w'"
  then show "bus_inv w'"
    by (auto simp: bus_inv_def intro: inv_intros)
qed

lemma fresh_new [intro]: "fresh_world (new_world (new_bus n sink))"
  by (auto simp: fresh_world_def)

lemmas reached_bus_inv = bus.reachable_inv [OF fresh_new]

subsection \<open>Properties\<close>

text \<open>
  C30. No message disappears from the account. Whatever the interleaving of publishers, timeouts, consumers
  and cancellations, every message ever published (in either direction) is exactly once in one of: handed to
  a consumer, queued, held by a suspended publisher, persisted by the sink, dropped and counted as dropped,
  given up by a publisher cancelled while it waited, or taken by a getter whose consumer was given another
  message or was cancelled; the last two kinds are on no counter of the bus.
\<close>

theorem bus_conservation:
  assumes "bus_step\<^sup>*\<^sup>* (new_world (new_bus n sink)) w"
  shows "sent_in w = mset (got_in w) + mset (inbound (the_bus w)) + mset (inbound_internal (the_bus w))
       + waiting_in w + spilled_in w + refused_in w + raced_away w + aborted_in w
    \<and> sent_out w = mset (got_out w) + mset (outbound (the_bus w)) + waiting_out w
       + spilled_out w + refused_out w + aborted_out w
    \<and> dropped_inbound (the_bus w) + dropped_inbound_internal (the_bus w) = size (refused_in w)
    \<and> dropped_outbound (the_bus w) = size (refused_out w)"
  using reached_bus_inv [OF assms]
  by (simp add: bus_inv_def inbound_conserved_def outbound_conserved_def counters_ok_def Let_def)

definition sample_in :: "string \<Rightarrow> bool \<Rightarrow> InboundMessage" where
  "sample_in txt internal = \<lparr>in_channel = ''cli'', in_sender_id = ''u'', in_chat_id = ''c'',
     in_content = txt, in_timestamp = 0, in_media = [], in_metadata = [],
     in_session_key_override = None, in_episode_id = None, is_internal = internal\<rparr>"

text \<open>A run with one slot: a user message is queued, a second one waits, times out and is dropped.\<close>

lemma overflow_run:
  "\<exists>w. bus_step\<^sup>*\<^sup>* (new_world (new_bus 1 None)) w
     \<and> inbound (the_bus w) = [sample_in ''a'' False] \<and> refused_in w = {#sample_in ''b'' False#}
     \<and> accepted_user w = [sample_in ''a'' False] \<and> dropped_inbound (the_bus w) = 1"
proof -
  let ?w0 = "new_world (new_bus 1 None)"
  let ?a = "sample_in ''a'' False" and ?b = "sample_in ''b'' False"
  let ?b1 = "fst (publish_inbound ?a (the_bus ?w0))"
  let ?w1 = "log_accept ?a (?w0\<lparr>the_bus := ?b1, sent_in := add_mset ?a (sent_in ?w0)\<rparr>)"
  let ?b2 = "fst (publish_inbound ?b (the_bus ?w1))"
  let ?w2 = "?w1\<lparr>the_bus := ?b2, sent_in := add_mset ?b (sent_in ?w1),
    waiting_in := add_mset ?b (waiting_in ?w1)\<rparr>"
  let ?b3 = "fst (publish_inbound_timeout ?b (the_bus ?w2))"
  let ?w3 = "?w2\<lparr>the_bus := ?b3, waiting_in := waiting_in ?w2 - {#?b#},
    refused_in := add_mset ?b (refused_in ?w2)\<rparr>"
  note defs = new_world_def new_bus_def bus_op_defs sample_in_def
  have s1: "bus_step ?w0 ?w1" by (rule bus_step.in_accept) (simp add: defs)
  have s2: "bus_step ?w1 ?w2" by (rule bus_step.in_suspend) (simp add: defs)
  have s3: "bus_step ?w2 ?w3" by (rule bus_step.in_drop) (simp_all add: defs)
  have "bus_step\<^sup>*\<^sup>* ?w0 ?w3"
    using s1 s2 s3 by (rule three_steps)
  moreover have "inbound (the_bus ?w3) = [?a] \<and> refused_in ?w3 = {#?b#}
      \<and> accepted_user ?w3 = [?a] \<and> dropped_inbound (the_bus ?w3) = 1"
    by (simp add: defs)
  ultimately show ?thesis by blast
qed

theorem bus_conservation_witness:
  "\<exists>w. bus_step\<^sup>*\<^sup>* (new_world (new_bus 1 None)) w \<and> refused_in w = {#sample_in ''b'' False#}
     \<and> dropped_inbound (the_bus w) + dropped_inbound_internal (the_bus w) = size (refused_in w)"
  using overflow_run bus_conservation by (metis (no_types))

text \<open>
  Order and capacity: in every reachable state the user messages taken so far, followed by those still
  queued, are the accepted user messages in the order of acceptance, what the consumers were given is a
  subsequence of what was taken, and likewise for outbound messages, of which none is lost once queued; and
  no queue of a bus with a positive maximum exceeds it.
\<close>

theorem bus_fifo_within_capacity:
  assumes "bus_step\<^sup>*\<^sup>* (new_world (new_bus n sink)) w"
  shows "accepted_user w = filter (\<lambda>m. \<not> is_internal m) (taken_in w) @ inbound (the_bus w)
    \<and> subseq (got_in w) (taken_in w)
    \<and> accepted_out w = got_out w @ outbound (the_bus w)
    \<and> within_capacity (the_bus w)"
  using reached_bus_inv [OF assms] by (simp add: bus_inv_def fifo_ok_def)

theorem bus_fifo_within_capacity_witness:
  "\<exists>w. bus_step\<^sup>*\<^sup>* (new_world (new_bus 1 None)) w
     \<and> filter (\<lambda>m. \<not> is_internal m) (taken_in w) @ inbound (the_bus w) = [sample_in ''a'' False]
     \<and> within_capacity (the_bus w)"
  using overflow_run bus_fifo_within_capacity by metis

text \<open>
  The consume race loses messages: when both getters are done, the consumer is given the user message, and
  the internal message that the other getter has already taken is in neither queue any more; and when the
  consumer is cancelled, whatever a getter has taken is gone, a user message included. With exactly one
  getter done and no cancellation, nothing but the returned message leaves the bus.
\<close>

theorem consume_race_outcome:
  assumes "inbound b = u # us" and "inbound_internal b = i # is"
  shows "consume_inbound_race True True False b = Some (b\<lparr>inbound := us, inbound_internal := is\<rparr>, Some u)
    \<and> consume_inbound_race True False False b = Some (b\<lparr>inbound := us\<rparr>, Some u)
    \<and> consume_inbound_race False True False b = Some (b\<lparr>inbound_internal := is\<rparr>, Some i)
    \<and> consume_inbound_race True False True b = Some (b\<lparr>inbound := us\<rparr>, None)
    \<and> consume_inbound_race False False True b = Some (b, None)"
  using assms by (simp add: consume_inbound_race_def)

theorem consume_race_outcome_witness:
  "(let b = (new_bus 5 None)\<lparr>inbound := [sample_in ''u'' False],
                             inbound_internal := [sample_in ''i'' True]\<rparr>
    in consume_inbound_race True True False b
         = Some (b\<lparr>inbound := [], inbound_internal := []\<rparr>, Some (sample_in ''u'' False)))"
  using consume_race_outcome [of "(new_bus 5 None)\<lparr>inbound := [sample_in ''u'' False],
      inbound_internal := [sample_in ''i'' True]\<rparr>" "sample_in ''u'' False" "[]"
      "sample_in ''i'' True" "[]"]
  by (simp add: Let_def)

text \<open>
  The overflow ladder of a user message, decided in full: it is stored at once iff the queue has
  room, otherwise the publisher suspends (a user message is never refused on the fast path); an
  internal message never suspends the publisher and never touches the user queue or the sink; and
  after the timeout the result is \<open>True\<close> exactly when a sink is configured and its call returns.
\<close>

theorem publish_inbound_ladder:
  "snd (publish_inbound m b) =
     (if is_internal m
      then Returned (\<not> queue_full (maxsize b) (inbound_internal b))
      else if queue_full (maxsize b) (inbound b) then Suspended else Returned True)
   \<and> inbound (fst (publish_inbound m b)) =
       inbound b @ (if is_internal m \<or> queue_full (maxsize b) (inbound b) then [] else [m])
   \<and> persisted_inbound (fst (publish_inbound m b)) = persisted_inbound b
   \<and> snd (publish_inbound_timeout m b) =
       (case persistence b of None \<Rightarrow> False | Some sink \<Rightarrow> persist_inbound sink m)
   \<and> dropped_inbound (fst (publish_inbound_timeout m b)) =
       dropped_inbound b + (if snd (publish_inbound_timeout m b) then 0 else 1)"
  by (simp add: publish_inbound_def publish_inbound_timeout_def notify_inbound_def put_nowait_def
      Let_def split: option.splits)

end
