(* ===== verification/Safety.thy ===== *)
theory Safety
  imports Prelude
begin

section \<open>Safety gates and permissions\<close>

text \<open>
  \<^verbatim>\<open>OriginAgent/agent/action_safety.py\<close> and \<^verbatim>\<open>OriginAgent/agent/permissions.py\<close>: the requests and
  decisions that guard an action, the composition of safety gates, and the default permission
  resolver. Triggers, risks and decisions stay strings, since the code compares them as strings and
  meets unknown ones.
\<close>

definition VALID_TRIGGERS :: "string list" where
  "VALID_TRIGGERS = [''user_initiated'', ''scheduled'', ''system'', ''subagent'', ''automation'']"

definition VALID_RISKS :: "string list" where
  "VALID_RISKS = [''low'', ''medium'', ''high'']"

record ActionRequest =
  req_action :: string
  req_scope :: string
  req_trigger :: string
  req_risk :: string
  req_requested_by :: "string option"
  req_requires_presence_empty :: bool
  req_uses_facts :: "string list"

record ActionDecision =
  decision :: string
  reason :: string
  supporting_facts :: "string list"
  pending_facts :: "string list"
  presence_status :: string

definition mk_decision :: "string \<Rightarrow> string \<Rightarrow> ActionDecision" where
  "mk_decision d r = \<lparr>decision = d, reason = r, supporting_facts = [], pending_facts = [],
     presence_status = ''unknown''\<rparr>"

type_synonym SafetyGate = "ActionRequest \<Rightarrow> ActionDecision"

text \<open>The loop of \<^verbatim>\<open>CompositeSafetyGate.evaluate\<close>, with \<open>final\<close> as its accumulator.\<close>

fun composite_loop :: "SafetyGate list \<Rightarrow> ActionRequest \<Rightarrow> ActionDecision \<Rightarrow> ActionDecision" where
  "composite_loop [] req final = final"
| "composite_loop (g # gs) req final =
     (let d = g req in if decision d \<noteq> ''allow'' then d else composite_loop gs req d)"

definition composite_evaluate :: "SafetyGate list \<Rightarrow> SafetyGate" where
  "composite_evaluate gates req =
     composite_loop gates req (mk_decision ''allow'' ''safety checks passed'')"

definition default_gate_evaluate :: SafetyGate where
  "default_gate_evaluate req =
     (if req_trigger req \<notin> set VALID_TRIGGERS then mk_decision ''deny'' ''invalid trigger''
      else if req_risk req \<notin> set VALID_RISKS then mk_decision ''deny'' ''invalid risk''
      else mk_decision ''allow'' ''safety checks passed'')"

lemma composite_loop_allow:
  "decision (composite_loop gs req f) = ''allow''
     \<longleftrightarrow> (\<forall>g \<in> set gs. decision (g req) = ''allow'') \<and> (gs = [] \<longrightarrow> decision f = ''allow'')"
  by (induction gs req f rule: composite_loop.induct) (auto simp: Let_def)

lemma composite_loop_block:
  "\<forall>g \<in> set gs. decision (g req) = ''allow'' \<Longrightarrow> decision (g req) \<noteq> ''allow'' \<Longrightarrow>
   composite_loop (gs @ g # hs) req f = g req"
  by (induction gs arbitrary: f) (auto simp: Let_def)

subsection \<open>Permissions\<close>

datatype value_error = ValueError string

definition VALID_PERMISSION_ACTIONS :: "string list" where
  "VALID_PERMISSION_ACTIONS =
     [''execute_action'', ''confirm_action'', ''create_rule'', ''manage_presence'', ''manage_facts'']"

definition VALID_PERMISSION_DECISIONS :: "string list" where
  "VALID_PERMISSION_DECISIONS = [''allow'', ''deny'', ''ask_admin'']"

record PermissionRequest =
  perm_actor_id :: "string option"
  perm_action :: string
  perm_scope :: string
  perm_risk :: string
  perm_trigger :: string
  perm_permission :: string
  perm_attributes :: "(string, string) dict"

definition normalize_actor_id :: "string option \<Rightarrow> string option" where
  "normalize_actor_id a =
     (case a of None \<Rightarrow> None
      | Some s \<Rightarrow> (let n = py_strip s in if n = [] then None else Some n))"

definition normalize_permission :: "string option \<Rightarrow> value_error + string" where
  "normalize_permission p =
     (let n = py_lower (py_strip (opt_or p [])) in
      if n \<notin> set VALID_PERMISSION_ACTIONS then Inl (ValueError ''invalid permission action'')
      else Inr n)"

definition normalize_perm_decision :: "string option \<Rightarrow> value_error + string" where
  "normalize_perm_decision d =
     (let n = py_lower (py_strip (opt_or d [])) in
      if n \<notin> set VALID_PERMISSION_DECISIONS then Inl (ValueError ''invalid permission decision'')
      else Inr n)"

definition normalize_attribute_value :: "string option \<Rightarrow> string" where
  "normalize_attribute_value v = py_lower (py_strip (opt_or v []))"

definition normalize_attributes :: "(string, string) dict \<Rightarrow> (string, string) dict" where
  "normalize_attributes attrs =
     fold (\<lambda>(k, v) acc.
       let k' = py_lower (py_strip k); v' = py_lower (py_strip v)
       in if k' \<noteq> [] \<and> v' \<noteq> [] then dict_set k' v' acc else acc) attrs []"

text \<open>\<^verbatim>\<open>PermissionRequest(...)\<close> with its \<^verbatim>\<open>__post_init__\<close>; the checks run in the source's order.\<close>

definition mk_permission_request ::
    "string option \<Rightarrow> string \<Rightarrow> string \<Rightarrow> string \<Rightarrow> string \<Rightarrow> string \<Rightarrow> (string, string) dict
     \<Rightarrow> string option \<Rightarrow> value_error + PermissionRequest" where
  "mk_permission_request actor act scp rsk trig perm attrs dev_domain =
     (case normalize_permission (Some perm) of Inl e \<Rightarrow> Inl e
      | Inr perm' \<Rightarrow>
        let risk' = py_lower (py_strip (str_or rsk ''low''));
            trigger' = py_lower (py_strip trig)
        in if risk' \<notin> set VALID_RISKS then Inl (ValueError ''invalid risk'')
           else if trigger' \<notin> set VALID_TRIGGERS then Inl (ValueError ''invalid trigger'')
           else
             let a0 = normalize_attributes attrs;
                 a1 = (case dev_domain of None \<Rightarrow> a0
                       | Some d \<Rightarrow> dict_setdefault ''device_domain'' (normalize_attribute_value (Some d)) a0)
             in Inr \<lparr>perm_actor_id = normalize_actor_id actor, perm_action = py_strip act,
                     perm_scope = py_strip scp, perm_risk = risk', perm_trigger = trigger',
                     perm_permission = perm', perm_attributes = a1\<rparr>)"

definition perm_device_domain :: "PermissionRequest \<Rightarrow> string" where
  "perm_device_domain r =
     (case dict_get (perm_attributes r) ''device_domain'' of None \<Rightarrow> ''general'' | Some d \<Rightarrow> d)"

definition perm_attribute :: "PermissionRequest \<Rightarrow> string \<Rightarrow> string option \<Rightarrow> string option" where
  "perm_attribute r name dflt =
     (let n = py_lower (py_strip name) in
      if n = [] then dflt
      else (case dict_get (perm_attributes r) n of None \<Rightarrow> dflt | Some v \<Rightarrow> Some v))"

record PermissionDecision =
  perm_decision :: string
  perm_reason :: string
  perm_actor_role :: string

definition mk_permission_decision ::
    "string \<Rightarrow> string \<Rightarrow> string \<Rightarrow> value_error + PermissionDecision" where
  "mk_permission_decision d r role =
     (case normalize_perm_decision (Some d) of Inl e \<Rightarrow> Inl e
      | Inr d' \<Rightarrow> Inr \<lparr>perm_decision = d', perm_reason = r,
                     perm_actor_role = str_or (normalize_attribute_value (Some role)) ''unknown''\<rparr>)"

type_synonym resolver = "PermissionRequest \<Rightarrow> value_error + PermissionDecision"

definition resolver_evaluate :: resolver where
  "resolver_evaluate r =
     (if perm_permission r \<in> {''manage_presence'', ''manage_facts'', ''create_rule''} then
        mk_permission_decision ''ask_admin''
          (perm_permission r @ '' requires explicit administrator approval'') ''unknown''
      else if perm_permission r \<in> {''confirm_action'', ''execute_action''} then
        (if perm_risk r = ''high'' then
           mk_permission_decision ''ask_admin''
             ''high-risk actions require explicit administrator approval'' ''unknown''
         else mk_permission_decision ''allow''
             ''default resolver allows low/medium risk actions'' ''unknown'')
      else mk_permission_decision ''deny'' (''unsupported permission: '' @ perm_permission r) ''unknown'')"

lemmas perm_defs = mk_permission_decision_def normalize_perm_decision_def VALID_PERMISSION_DECISIONS_def
  opt_or_def str_or_def

lemma lower_decisions [simp]:
  "py_lower (py_strip ''ask_admin'') = ''ask_admin''"
  "py_lower (py_strip ''allow'') = ''allow''"
  "py_lower (py_strip ''deny'') = ''deny''"
  "py_lower (py_strip ''unknown'') = ''unknown''"
  by (simp_all add: py_lower_def py_strip_def py_space_def ascii_lower_def)

lemma mk_permission_decision_simps [simp]:
  "mk_permission_decision ''ask_admin'' r ''unknown''
     = Inr \<lparr>perm_decision = ''ask_admin'', perm_reason = r, perm_actor_role = ''unknown''\<rparr>"
  "mk_permission_decision ''allow'' r ''unknown''
     = Inr \<lparr>perm_decision = ''allow'', perm_reason = r, perm_actor_role = ''unknown''\<rparr>"
  "mk_permission_decision ''deny'' r ''unknown''
     = Inr \<lparr>perm_decision = ''deny'', perm_reason = r, perm_actor_role = ''unknown''\<rparr>"
  by (simp_all add: perm_defs normalize_attribute_value_def)

lemma composite_loop_find:
  "composite_loop gs req f =
     (case List.find (\<lambda>g. decision (g req) \<noteq> ''allow'') gs of
        Some g \<Rightarrow> g req | None \<Rightarrow> (if gs = [] then f else last gs req))"
  by (induction gs arbitrary: f) (auto simp: Let_def split: option.splits)

lemma normalize_permission_Inr:
  "normalize_permission p = Inr q \<Longrightarrow> q \<in> set VALID_PERMISSION_ACTIONS"
  by (auto simp: normalize_permission_def Let_def split: if_splits)

lemma mk_permission_request_wf:
  assumes "mk_permission_request actor act scp rsk trig perm attrs dd = Inr r"
  shows "perm_risk r \<in> set VALID_RISKS" "perm_trigger r \<in> set VALID_TRIGGERS"
    "perm_permission r \<in> set VALID_PERMISSION_ACTIONS"
  using assms
  by (auto simp: mk_permission_request_def Let_def split: sum.splits if_splits
      dest: normalize_permission_Inr)

lemma normalize_attributes_wf:
  "dict_ok (normalize_attributes attrs) \<and> (\<forall>(k, v) \<in> set (normalize_attributes attrs). k \<noteq> [] \<and> v \<noteq> [])"
  unfolding normalize_attributes_def
proof (rule fold_invariant [where Q = "\<lambda>_. True"])
  fix kv :: "string \<times> string" and acc :: "(string, string) dict"
  assume acc: "dict_ok acc \<and> (\<forall>(k, v) \<in> set acc. k \<noteq> [] \<and> v \<noteq> [])"
  obtain k v where kv: "kv = (k, v)" by (cases kv)
  show "dict_ok ((case kv of (k, v) \<Rightarrow> \<lambda>acc. let k' = py_lower (py_strip k); v' = py_lower (py_strip v)
          in if k' \<noteq> [] \<and> v' \<noteq> [] then dict_set k' v' acc else acc) acc)
      \<and> (\<forall>(k, v) \<in> set ((case kv of (k, v) \<Rightarrow> \<lambda>acc. let k' = py_lower (py_strip k); v' = py_lower (py_strip v)
          in if k' \<noteq> [] \<and> v' \<noteq> [] then dict_set k' v' acc else acc) acc). k \<noteq> [] \<and> v \<noteq> [])"
    using acc dict_set_entries [of acc "\<lambda>k v. k \<noteq> [] \<and> v \<noteq> []" "py_lower (py_strip k)" "py_lower (py_strip v)"]
    by (simp add: kv Let_def distinct_update)
qed simp_all

subsection \<open>Properties\<close>

text \<open>
  The composite gate fails closed: its answer is the answer of the first gate that does not allow
  the request, whatever the later gates say, and the answer of the last gate when all allow.
\<close>

theorem composite_gate_first_refusal:
  "composite_evaluate gates req =
     (case List.find (\<lambda>g. decision (g req) \<noteq> ''allow'') gates of
        Some g \<Rightarrow> g req
      | None \<Rightarrow> (if gates = [] then mk_decision ''allow'' ''safety checks passed'' else last gates req))"
  unfolding composite_evaluate_def by (rule composite_loop_find)

text \<open>
  The default resolver decides every request that can be built, never raising, and it allows
  exactly the confirm and execute permissions at low or medium risk: nothing of high risk and no
  management permission is allowed without an administrator.
\<close>

theorem default_resolver_decides:
  assumes "mk_permission_request actor act scp rsk trig perm attrs dd = Inr r"
  shows "\<exists>d. resolver_evaluate r = Inr d
     \<and> perm_decision d = (if perm_permission r \<in> {''confirm_action'', ''execute_action''}
            \<and> perm_risk r \<in> {''low'', ''medium''} then ''allow'' else ''ask_admin'')"
  using mk_permission_request_wf [OF assms]
  by (auto simp: resolver_evaluate_def VALID_RISKS_def VALID_PERMISSION_ACTIONS_def)

theorem default_resolver_decides_witness:
  "\<exists>r d. mk_permission_request (Some '' bob '') ''light.on'' ''home'' '' HIGH'' ''system''
         ''execute_action'' [] None = Inr r
     \<and> resolver_evaluate r = Inr d \<and> perm_decision d = ''ask_admin''"
proof -
  let ?r = "\<lparr>perm_actor_id = Some ''bob'', perm_action = ''light.on'', perm_scope = ''home'',
    perm_risk = ''high'', perm_trigger = ''system'', perm_permission = ''execute_action'',
    perm_attributes = []\<rparr>"
  have r: "mk_permission_request (Some '' bob '') ''light.on'' ''home'' '' HIGH'' ''system''
      ''execute_action'' [] None = Inr ?r"
    by code_simp
  from default_resolver_decides [OF r] obtain d
    where "resolver_evaluate ?r = Inr d" "perm_decision d = ''ask_admin''" by auto
  with r show ?thesis by blast
qed

end
