(* ===== verification/Reply.thy ===== *)
theory Reply
  imports Prelude
begin

section \<open>Classifying the reply to a confirmation\<close>

text \<open>
  \<^verbatim>\<open>_classify_reply\<close>, \<^verbatim>\<open>classify_confirmation_reply_with_ttl\<close> and their phrase tables in
  \<^verbatim>\<open>OriginAgent/agent/confirmation.py\<close>. A reply is a list of Unicode code points. What Python's
  \<^verbatim>\<open>str\<close> methods and regular expressions take from the Unicode database for code points from 128 on
  (white space, word characters, case folding) is the record \<open>unicode\<close>, a parameter; ASCII is
  built in.
\<close>

type_synonym utext = "int list"

record unicode =
  u_space :: "int \<Rightarrow> bool"
  u_word :: "int \<Rightarrow> bool"
  u_fold :: "int \<Rightarrow> int list"

definition ascii :: "string \<Rightarrow> utext" where
  "ascii s = map of_char s"

definition is_space :: "unicode \<Rightarrow> int \<Rightarrow> bool" where
  "is_space U c = (if c < 128 then c \<in> {9, 10, 11, 12, 13, 28, 29, 30, 31, 32} else u_space U c)"

definition is_digit :: "int \<Rightarrow> bool" where
  "is_digit c = (48 \<le> c \<and> c \<le> 57)"

definition is_word :: "unicode \<Rightarrow> int \<Rightarrow> bool" where
  "is_word U c = (if c < 128
     then is_digit c \<or> (65 \<le> c \<and> c \<le> 90) \<or> (97 \<le> c \<and> c \<le> 122) \<or> c = 95
     else u_word U c)"

definition casefold :: "unicode \<Rightarrow> utext \<Rightarrow> utext" where
  "casefold U s = concat (map (\<lambda>c. if c < 128 then [if 65 \<le> c \<and> c \<le> 90 then c + 32 else c]
     else u_fold U c) s)"

definition strip_text :: "unicode \<Rightarrow> utext \<Rightarrow> utext" where
  "strip_text U s = rev (dropWhile (is_space U) (rev (dropWhile (is_space U) s)))"

text \<open>\<^verbatim>\<open>re.sub(r"\s+", " ", s)\<close>; the flag says that the previous code point was white space.\<close>

fun collapse_spaces :: "unicode \<Rightarrow> bool \<Rightarrow> utext \<Rightarrow> utext" where
  "collapse_spaces U b [] = []"
| "collapse_spaces U b (c # cs) =
     (if is_space U c then (if b then collapse_spaces U True cs else 32 # collapse_spaces U True cs)
      else c # collapse_spaces U False cs)"

definition normalize_reply :: "unicode \<Rightarrow> utext \<Rightarrow> utext" where
  "normalize_reply U reply = collapse_spaces U False (casefold U (strip_text U reply))"

fun is_prefix :: "utext \<Rightarrow> utext \<Rightarrow> bool" where
  "is_prefix [] s = True"
| "is_prefix (p # ps) [] = False"
| "is_prefix (p # ps) (c # cs) = (p = c \<and> is_prefix ps cs)"

fun contains :: "utext \<Rightarrow> utext \<Rightarrow> bool" where
  "contains p [] = (p = [])"
| "contains p (c # cs) = (is_prefix p (c # cs) \<or> contains p cs)"

definition contains_any :: "utext list \<Rightarrow> utext \<Rightarrow> bool" where
  "contains_any ps s = list_ex (\<lambda>p. contains p s) ps"

text \<open>
  \<^verbatim>\<open>re.search(rf"\b{phrase}\b", text)\<close>: \<open>prev\<close> tells whether the code point before the position is a
  word character. A boundary lies where exactly one side is a word character.
\<close>

definition head_word :: "unicode \<Rightarrow> utext \<Rightarrow> bool" where
  "head_word U s = (case s of [] \<Rightarrow> False | c # _ \<Rightarrow> is_word U c)"

definition bounded_at :: "unicode \<Rightarrow> bool \<Rightarrow> utext \<Rightarrow> utext \<Rightarrow> bool" where
  "bounded_at U prev p s =
     (is_prefix p s \<and> prev \<noteq> head_word U s
      \<and> (if p = [] then prev else is_word U (last p)) \<noteq> head_word U (drop (length p) s))"

fun search_bounded :: "unicode \<Rightarrow> bool \<Rightarrow> utext \<Rightarrow> utext \<Rightarrow> bool" where
  "search_bounded U prev p [] = bounded_at U prev p []"
| "search_bounded U prev p (c # cs) =
     (bounded_at U prev p (c # cs) \<or> search_bounded U (is_word U c) p cs)"

definition contains_boundary_phrase :: "unicode \<Rightarrow> utext \<Rightarrow> utext list \<Rightarrow> bool" where
  "contains_boundary_phrase U text phrases = list_ex (\<lambda>p. search_bounded U False p text) phrases"

subsection \<open>The phrase tables\<close>

definition CONFIRM_ONCE_EXACT_PHRASES :: "utext list" where
  "CONFIRM_ONCE_EXACT_PHRASES =
     [[26159], [21487, 20197], [32487, 32493], [30830, 35748], [23601, 36825, 27425],
      [21482, 26159, 36825, 27425], ascii ''yes'', ascii ''continue'',
      ascii ''just this time'', [22909], [22909, 30340], [34892], [34892, 21543],
      [25209, 20934], [21516, 24847], [27809, 38382, 39064], [21487, 20197, 30340],
      [21435, 21543], [20934, 20102], [25480, 26435], [21999], [21999, 21999], ascii ''ok'',
      ascii ''approve'', ascii ''authorized'', ascii ''you decide'']"

definition CONFIRM_ONCE_BOUNDARY_PHRASES :: "utext list" where
  "CONFIRM_ONCE_BOUNDARY_PHRASES =
     [ascii ''yes'', ascii ''continue'', ascii ''just this time'', ascii ''ok'',
      ascii ''approve'', ascii ''yes, go ahead'', ascii ''go ahead'']"

definition REJECT_EXACT_PHRASES :: "utext list" where
  "REJECT_EXACT_PHRASES =
     [[19981], [19981, 21487, 20197], [19981, 26159], [21462, 28040], [19981, 35201],
      [21035, 25191, 34892], ascii ''no'', ascii ''cancel'', [19981, 34892], [21035],
      [31639, 20102], [20808, 19981, 35201], [19981, 25209, 20934], [19981, 21516, 24847],
      [25298, 32477], [20808, 21035], ascii ''stop'', ascii ''reject'', ascii ''denied'']"

definition REJECT_BOUNDARY_PHRASES :: "utext list" where
  "REJECT_BOUNDARY_PHRASES =
     [ascii ''no'', ascii ''cancel'', ascii ''stop'', ascii ''reject'', ascii ''denied'']"

definition PERSISTENT_PHRASES :: "utext list" where
  "PERSISTENT_PHRASES =
     [[20197, 21518, 37117, 36825, 26679], [35774, 20026, 35268, 21017],
      [20197, 21518, 19981, 29992, 38382], ascii ''always'', ascii ''remember this'',
      [27704, 20037], [27704, 36828], ascii ''permanent'']"

definition CONFIRM_KEYWORDS :: "utext list" where
  "CONFIRM_KEYWORDS =
     [[22909], [34892], [21487, 20197], [25209, 20934], [21516, 24847], [25480, 26435],
      [20934, 20102], [27809, 38382, 39064], [21435, 21543], ascii ''ok'', ascii ''approve'',
      ascii ''yes'']"

definition REJECT_KEYWORDS :: "utext list" where
  "REJECT_KEYWORDS =
     [[19981], [21035], [21462, 28040], [25298, 32477], [31639, 20102], ascii ''stop'',
      ascii ''no'', ascii ''cancel'', ascii ''reject'']"
subsection \<open>Classification\<close>

datatype reply_class = Confirmed | Rejected | Persistent | Unclear

definition contains_confirmation_keyword :: "utext \<Rightarrow> bool" where
  "contains_confirmation_keyword text = contains_any CONFIRM_KEYWORDS text"

definition contains_rejection_keyword :: "utext \<Rightarrow> bool" where
  "contains_rejection_keyword text = contains_any REJECT_KEYWORDS text"

definition classify_normalized :: "unicode \<Rightarrow> utext \<Rightarrow> reply_class" where
  "classify_normalized U n =
     (if n = [] then Unclear
      else if contains_any PERSISTENT_PHRASES n then Persistent
      else if n \<in> set REJECT_EXACT_PHRASES then Rejected
      else if n \<in> set CONFIRM_ONCE_EXACT_PHRASES then Confirmed
      else if contains_boundary_phrase U n REJECT_BOUNDARY_PHRASES then Rejected
      else if contains_boundary_phrase U n CONFIRM_ONCE_BOUNDARY_PHRASES then Confirmed
      else if contains_confirmation_keyword n \<and> \<not> contains_rejection_keyword n then Confirmed
      else Unclear)"

definition classify_reply :: "unicode \<Rightarrow> utext \<Rightarrow> reply_class" where
  "classify_reply U reply = classify_normalized U (normalize_reply U reply)"

text \<open>
  The TTL pattern: a maximal run of digits, optional white space, then the first unit alternative
  that is a prefix of the rest; the match is the leftmost one. Each alternative is listed with the
  number of seconds that the unit table of the function gives it.
\<close>

definition ttl_units :: "(utext \<times> int) list" where
  "ttl_units =
     [([22825], 24 * 3600), ([26085], 24 * 3600), (ascii ''days'', 24 * 3600),
      (ascii ''day'', 24 * 3600), ([23567, 26102], 3600), (ascii ''hours'', 3600),
      (ascii ''hour'', 3600), (ascii ''hrs'', 3600), (ascii ''hr'', 3600), (ascii ''h'', 3600),
      ([20998, 38047], 60), (ascii ''minutes'', 60), (ascii ''minute'', 60), (ascii ''min'', 60),
      (ascii ''m'', 60), ([31186], 1), (ascii ''seconds'', 1), (ascii ''second'', 1),
      (ascii ''sec'', 1), (ascii ''s'', 1)]"

definition digits_value :: "utext \<Rightarrow> int" where
  "digits_value ds = foldl (\<lambda>v d. 10 * v + (d - 48)) 0 ds"

definition ttl_at :: "unicode \<Rightarrow> utext \<Rightarrow> int option" where
  "ttl_at U s =
     (let ds = takeWhile is_digit s; rest = dropWhile (is_space U) (dropWhile is_digit s) in
      if ds = [] then None
      else (case List.find (\<lambda>(u, _). is_prefix u rest) ttl_units of
              None \<Rightarrow> None | Some (_, secs) \<Rightarrow> Some (digits_value ds * secs)))"

fun search_ttl :: "unicode \<Rightarrow> utext \<Rightarrow> int option" where
  "search_ttl U [] = None"
| "search_ttl U (c # cs) = (case ttl_at U (c # cs) of Some n \<Rightarrow> Some n | None \<Rightarrow> search_ttl U cs)"

definition classify_reply_with_ttl :: "unicode \<Rightarrow> utext \<Rightarrow> reply_class \<times> int option" where
  "classify_reply_with_ttl U reply =
     (let d = classify_reply U reply in
      if d \<noteq> Persistent then (d, None) else (Persistent, search_ttl U (normalize_reply U reply)))"

lemmas phrase_defs = CONFIRM_ONCE_EXACT_PHRASES_def CONFIRM_ONCE_BOUNDARY_PHRASES_def
  REJECT_EXACT_PHRASES_def REJECT_BOUNDARY_PHRASES_def PERSISTENT_PHRASES_def CONFIRM_KEYWORDS_def
  REJECT_KEYWORDS_def

text \<open>A Unicode table that treats every code point from 128 on as a letter without case.\<close>

definition letters_only :: unicode where
  "letters_only = \<lparr>u_space = (\<lambda>_. False), u_word = (\<lambda>_. True), u_fold = (\<lambda>c. [c])\<rparr>"

lemma is_prefix_append: "is_prefix p (p @ ys)"
  by (induction p) auto

lemma contains_prefix: "is_prefix p s \<Longrightarrow> contains p s"
  by (cases s; cases p) auto

lemma contains_append: "contains p (xs @ p @ ys)"
  by (induction xs) (auto intro: contains_prefix is_prefix_append)

lemma foldl_digits_mono:
  "\<forall>d \<in> set ds. is_digit d \<Longrightarrow> 0 \<le> v \<Longrightarrow> 0 \<le> foldl (\<lambda>v d. 10 * v + (d - 48)) v ds"
  by (induction ds arbitrary: v) (auto simp: is_digit_def)

lemma ttl_at_nonneg: "ttl_at U s = Some n \<Longrightarrow> 0 \<le> n"
proof -
  assume "ttl_at U s = Some n"
  then obtain u secs where n: "n = digits_value (takeWhile is_digit s) * secs"
    and "(u, secs) \<in> set ttl_units"
    by (auto simp: ttl_at_def Let_def split: if_splits option.splits dest!: find_SomeD)
  moreover have "0 \<le> digits_value (takeWhile is_digit s)"
    unfolding digits_value_def by (rule foldl_digits_mono) (auto dest: set_takeWhileD)
  ultimately show ?thesis by (auto simp: ttl_units_def)
qed

lemma search_ttl_nonneg: "search_ttl U s = Some n \<Longrightarrow> 0 \<le> n"
  by (induction s) (auto split: option.splits dest: ttl_at_nonneg)

subsection \<open>Properties\<close>

text \<open>
  A standing approval is read out of every reply whose normal form contains one of the standing
  phrases, before any refusal is looked for: a refusal that mentions such a phrase grants it, as
  the reply "no, not always" shows.
\<close>

theorem persistent_phrase_wins:
  assumes "normalize_reply U reply = xs @ p @ ys" and "p \<in> set PERSISTENT_PHRASES"
  shows "classify_reply U reply = Persistent"
proof -
  have "p \<noteq> []" using assms(2) by (auto simp: phrase_defs ascii_def)
  moreover have "contains_any PERSISTENT_PHRASES (xs @ p @ ys)"
    using assms(2) contains_append [of p xs ys] by (auto simp: contains_any_def list_ex_iff)
  ultimately show ?thesis using assms(1) by (simp add: classify_reply_def classify_normalized_def)
qed

theorem persistent_phrase_wins_witness:
  "classify_reply letters_only (ascii ''No, not always'') = Persistent"
proof (rule persistent_phrase_wins)
  show "normalize_reply letters_only (ascii ''No, not always'') = ascii ''no, not '' @ ascii ''always'' @ []"
    by code_simp
  show "ascii ''always'' \<in> set PERSISTENT_PHRASES" by (simp add: phrase_defs)
qed

text \<open>
  A single confirmation is never read out of a reply that contains a whole-word refusal: when
  the classifier answers \<open>Confirmed\<close>, the normal form is one of the listed confirmations or has no
  refusing word between word boundaries, and it contains no standing phrase.
\<close>

theorem confirmed_reply_has_no_refusal:
  assumes "classify_reply U reply = Confirmed"
  shows "(normalize_reply U reply \<in> set CONFIRM_ONCE_EXACT_PHRASES
       \<or> \<not> contains_boundary_phrase U (normalize_reply U reply) REJECT_BOUNDARY_PHRASES)
     \<and> \<not> contains_any PERSISTENT_PHRASES (normalize_reply U reply)
     \<and> normalize_reply U reply \<notin> set REJECT_EXACT_PHRASES"
  using assms by (auto simp: classify_reply_def classify_normalized_def split: if_splits)

text \<open>The substring fallback confirms more than it should: "joke" contains "ok".\<close>

lemma joke_confirms: "classify_reply letters_only (ascii ''is this a joke?'') = Confirmed"
  by code_simp

theorem confirmed_reply_has_no_refusal_witness:
  "classify_reply letters_only (ascii ''is this a joke?'') = Confirmed
   \<and> \<not> contains_any PERSISTENT_PHRASES (normalize_reply letters_only (ascii ''is this a joke?''))"
  using joke_confirms confirmed_reply_has_no_refusal [OF joke_confirms] by blast

text \<open>
  A time to live is read only out of a standing approval, and it is never negative.
\<close>

theorem reply_ttl_only_when_persistent:
  assumes "classify_reply_with_ttl U reply = (d, Some n)"
  shows "d = Persistent \<and> classify_reply U reply = Persistent \<and> 0 \<le> n"
  using assms search_ttl_nonneg
  by (auto simp: classify_reply_with_ttl_def Let_def split: if_splits)

theorem reply_ttl_only_when_persistent_witness:
  "classify_reply_with_ttl letters_only (ascii ''Always, for 3 days'') = (Persistent, Some 259200)
   \<and> (0::int) \<le> 259200"
proof -
  have "classify_reply_with_ttl letters_only (ascii ''Always, for 3 days'') = (Persistent, Some 259200)"
    by code_simp
  with reply_ttl_only_when_persistent [OF this] show ?thesis by simp
qed

end
