(* ===== verification/Payload.thy ===== *)
theory Payload
  imports Prelude
begin

section \<open>Sanitised payloads and metadata\<close>

text \<open>
  \<^verbatim>\<open>OriginAgent/agent/action_privacy.py\<close> and the payload functions of
  \<^verbatim>\<open>OriginAgent/agent/confirmation.py\<close> and \<^verbatim>\<open>OriginAgent/agent/action_runtime.py\<close>: which keys may be
  kept, how a nested value is cleaned and how it becomes text. The two files hold the same code
  twice (\<^verbatim>\<open>_sanitize_action_payload_snapshot\<close> and \<^verbatim>\<open>sanitize_action_payload\<close>); so does this theory, once
  for both.

  The substitutions of \<^verbatim>\<open>_sanitize_text\<close> (eight regular expressions that replace secrets by
  markers) are the parameter \<open>redact\<close>; the truncation after them is modelled.
\<close>

subsection \<open>Decimal numbers\<close>

definition digit_char :: "nat \<Rightarrow> char" where
  "digit_char d = char_of (48 + d)"

fun show_nat :: "nat \<Rightarrow> string" where
  "show_nat n = (if n < 10 then [digit_char n] else show_nat (n div 10) @ [digit_char (n mod 10)])"

declare show_nat.simps [simp del]

definition show_int :: "int \<Rightarrow> string" where
  "show_int i = (if i < 0 then ''-'' @ show_nat (nat (- i)) else show_nat (nat i))"

definition is_digit_char :: "char \<Rightarrow> bool" where
  "is_digit_char c = (48 \<le> (of_char c :: nat) \<and> (of_char c :: nat) \<le> 57)"

text \<open>Python's \<^verbatim>\<open>int(text)\<close> on a decimal numeral; underscores between digits are left out.\<close>

definition parse_digits :: "string \<Rightarrow> int option" where
  "parse_digits s = (if s \<noteq> [] \<and> list_all is_digit_char s
     then Some (foldl (\<lambda>v c. 10 * v + (of_char c - 48)) 0 s) else None)"

definition parse_int :: "string \<Rightarrow> int option" where
  "parse_int text =
     (case py_strip text of
        [] \<Rightarrow> None
      | c # cs \<Rightarrow> (if c = CHR ''-'' then map_option uminus (parse_digits cs)
                  else if c = CHR ''+'' then parse_digits cs else parse_digits (c # cs)))"

lemma digit_char_code: "d < 10 \<Longrightarrow> (of_char (digit_char d) :: nat) = 48 + d"
  by (simp add: digit_char_def of_char_of)

lemma digit_char_int: "d < 10 \<Longrightarrow> (of_char (digit_char d) :: int) = 48 + int d"
  using digit_char_code [of d] by (metis of_nat_add of_nat_numeral of_nat_of_char)

lemma digit_char_is_digit: "d < 10 \<Longrightarrow> is_digit_char (digit_char d)"
  by (simp add: is_digit_char_def digit_char_code)

lemma parse_show_nat:
  "show_nat n \<noteq> [] \<and> list_all is_digit_char (show_nat n)
   \<and> foldl (\<lambda>v c. 10 * v + (of_char c - 48)) 0 (show_nat n) = int n"
proof (induction n rule: show_nat.induct)
  case (1 n)
  show ?case
  proof (cases "n < 10")
    case True
    then show ?thesis
      by (simp add: show_nat.simps [of n] digit_char_is_digit digit_char_int)
  next
    case False
    with "1.IH" show ?thesis
      by (simp add: show_nat.simps [of n] digit_char_is_digit digit_char_int zdiv_int zmod_int)
  qed
qed

lemma digit_not_space: "is_digit_char c \<Longrightarrow> \<not> py_space c \<and> c \<noteq> CHR ''-'' \<and> c \<noteq> CHR ''+''"
  by (auto simp: is_digit_char_def py_space_def)

lemma strip_no_space: "s \<noteq> [] \<Longrightarrow> \<not> py_space (hd s) \<Longrightarrow> \<not> py_space (last s) \<Longrightarrow> py_strip s = s"
  by (simp add: py_strip_def dropWhile_eq_self_iff [THEN iffD2] hd_rev)

lemma parse_show_int_nat: "parse_int (show_nat n) = Some (int n)"
proof -
  obtain c cs where s: "show_nat n = c # cs" using parse_show_nat [of n] by (cases "show_nat n") auto
  have d: "list_all is_digit_char (show_nat n)" using parse_show_nat by blast
  then have "is_digit_char (last (show_nat n))" using parse_show_nat [of n]
    by (metis last_in_set list.pred_set)
  then have "py_strip (show_nat n) = show_nat n"
    using s d by (intro strip_no_space) (auto dest: digit_not_space)
  moreover have "\<not> (c = CHR ''-'' \<or> c = CHR ''+'')"
    using d s digit_not_space by auto
  moreover have "parse_digits (show_nat n) = Some (int n)"
    using parse_show_nat [of n] by (simp add: parse_digits_def)
  ultimately show ?thesis using s by (simp add: parse_int_def)
qed

lemma parse_show_int: "0 \<le> i \<Longrightarrow> parse_int (show_int i) = Some i"
  by (simp add: show_int_def parse_show_int_nat)

subsection \<open>Keys and text\<close>

definition FORBIDDEN_METADATA_KEYS :: "string list" where
  "FORBIDDEN_METADATA_KEYS =
     [''mac'', ''ip'', ''ssid'', ''bssid'', ''image'', ''photo'', ''face_embedding'',
      ''voice_embedding'', ''raw_audio'', ''raw_video'', ''access_log'', ''door_log'',
      ''device_fingerprint'']"

definition ACTION_FORBIDDEN_PAYLOAD_KEYS :: "string list" where
  "ACTION_FORBIDDEN_PAYLOAD_KEYS = FORBIDDEN_METADATA_KEYS @
     [''access_token'', ''api_key'', ''apikey'', ''authorization'', ''bearer'', ''password'',
      ''private_key'', ''secret'', ''token'']"

definition truncate_text :: "string \<Rightarrow> int \<Rightarrow> string" where
  "truncate_text text n =
     (if n \<le> 0 \<or> int (length text) \<le> n then text
      else take (nat n) text @ [CHR 0x0A] @ ''... (truncated)'')"

definition sanitize_text :: "(string \<Rightarrow> string) \<Rightarrow> string \<Rightarrow> nat \<Rightarrow> string" where
  "sanitize_text redact text limit = take limit (truncate_text (redact text) (int limit))"

definition REASON_MAX_CHARS :: nat where "REASON_MAX_CHARS = 2000"
definition PROMPT_MAX_CHARS :: nat where "PROMPT_MAX_CHARS = 1000"

subsection \<open>JSON text\<close>

definition hex_char :: "nat \<Rightarrow> char" where
  "hex_char d = (if d < 10 then char_of (48 + d) else char_of (87 + d))"

definition escape_char :: "char \<Rightarrow> string" where
  "escape_char c =
     (let n = (of_char c :: nat) in
      if n = 34 then [CHR 0x5C, CHR 0x22]
      else if n = 92 then [CHR 0x5C, CHR 0x5C]
      else if n = 10 then [CHR 0x5C] @ ''n''
      else if n = 13 then [CHR 0x5C] @ ''r''
      else if n = 9 then [CHR 0x5C] @ ''t''
      else if n = 8 then [CHR 0x5C] @ ''b''
      else if n = 12 then [CHR 0x5C] @ ''f''
      else if n < 32 then [CHR 0x5C] @ ''u00'' @ [hex_char (n div 16), hex_char (n mod 16)]
      else [c])"

definition json_quote :: "string \<Rightarrow> string" where
  "json_quote s = [CHR 0x22] @ concat (map escape_char s) @ [CHR 0x22]"

fun join_with :: "string \<Rightarrow> string list \<Rightarrow> string" where
  "join_with sep [] = []"
| "join_with sep [x] = x"
| "join_with sep (x # y # xs) = x @ sep @ join_with sep (y # xs)"

text \<open>\<^verbatim>\<open>json.dumps(value, ensure_ascii=False, sort_keys=True, separators=(",", ":"))\<close>\<close>

fun json_dumps :: "json \<Rightarrow> string"
  and dumps_items :: "(string \<times> json) list \<Rightarrow> (string \<times> string) list"
  and dumps_values :: "json list \<Rightarrow> string list" where
  "json_dumps JNull = ''null''"
| "json_dumps (JBool b) = (if b then ''true'' else ''false'')"
| "json_dumps (JInt i) = show_int i"
| "json_dumps (JFloat s) = s"
| "json_dumps (JStr s) = json_quote s"
| "json_dumps (JList vs) = ''['' @ join_with '','' (dumps_values vs) @ '']''"
| "json_dumps (JObj kvs) = ''{'' @ join_with '',''
     (map (\<lambda>(k, t). json_quote k @ '':'' @ t) (sort_key fst (dumps_items kvs))) @ ''}''"
| "dumps_items [] = []"
| "dumps_items ((k, v) # r) = (k, json_dumps v) # dumps_items r"
| "dumps_values [] = []"
| "dumps_values (v # vs) = json_dumps v # dumps_values vs"

text \<open>\<^verbatim>\<open>str(value)\<close>, with \<^verbatim>\<open>repr\<close> below a list or a dictionary.\<close>

definition repr_char :: "char \<Rightarrow> char \<Rightarrow> string" where
  "repr_char q c =
     (let n = (of_char c :: nat) in
      if c = q \<or> n = 92 then [CHR 0x5C, c]
      else if n = 10 then [CHR 0x5C] @ ''n''
      else if n = 13 then [CHR 0x5C] @ ''r''
      else if n = 9 then [CHR 0x5C] @ ''t''
      else if n < 32 \<or> n = 127 then [CHR 0x5C] @ ''x'' @ [hex_char (n div 16), hex_char (n mod 16)]
      else [c])"

definition repr_str :: "string \<Rightarrow> string" where
  "repr_str s =
     (let q = (if CHR 0x27 \<in> set s \<and> CHR 0x22 \<notin> set s then CHR 0x22 else CHR 0x27) in
      [q] @ concat (map (repr_char q) s) @ [q])"

fun py_repr :: "json \<Rightarrow> string"
  and repr_items :: "(string \<times> json) list \<Rightarrow> string list"
  and repr_values :: "json list \<Rightarrow> string list" where
  "py_repr JNull = ''None''"
| "py_repr (JBool b) = (if b then ''True'' else ''False'')"
| "py_repr (JInt i) = show_int i"
| "py_repr (JFloat s) = s"
| "py_repr (JStr s) = repr_str s"
| "py_repr (JList vs) = ''['' @ join_with '', '' (repr_values vs) @ '']''"
| "py_repr (JObj kvs) = ''{'' @ join_with '', '' (repr_items kvs) @ ''}''"
| "repr_items [] = []"
| "repr_items ((k, v) # r) = (repr_str k @ '': '' @ py_repr v) # repr_items r"
| "repr_values [] = []"
| "repr_values (v # vs) = py_repr v # repr_values vs"

definition py_str :: "json \<Rightarrow> string" where
  "py_str v = (case v of JStr s \<Rightarrow> s | _ \<Rightarrow> py_repr v)"

text \<open>\<^verbatim>\<open>str(d.get(k) or dflt)\<close>\<close>

definition str_field :: "string \<Rightarrow> string \<Rightarrow> json_obj \<Rightarrow> string" where
  "str_field k dflt d = (case dict_get d k of Some j \<Rightarrow> if json_truthy j then py_str j else dflt | None \<Rightarrow> dflt)"

definition truthy_field :: "string \<Rightarrow> json_obj \<Rightarrow> bool" where
  "truthy_field k d = (case dict_get d k of Some j \<Rightarrow> json_truthy j | None \<Rightarrow> False)"

subsection \<open>Payloads\<close>

definition stringify_payload_value :: "json \<Rightarrow> string" where
  "stringify_payload_value v =
     (case v of JStr s \<Rightarrow> s | JBool b \<Rightarrow> (if b then ''True'' else ''False'')
      | JInt i \<Rightarrow> show_int i | JFloat s \<Rightarrow> s | _ \<Rightarrow> json_dumps v)"

definition kept_key :: "string \<Rightarrow> bool" where
  "kept_key k = (py_strip k \<noteq> [] \<and> py_lower (py_strip k) \<notin> set ACTION_FORBIDDEN_PAYLOAD_KEYS)"

fun sanitize_payload_value :: "(string \<Rightarrow> string) \<Rightarrow> json \<Rightarrow> json"
  and sanitize_payload_items ::
    "(string \<Rightarrow> string) \<Rightarrow> (string \<times> json) list \<Rightarrow> json_obj \<Rightarrow> json_obj"
  and sanitize_payload_list :: "(string \<Rightarrow> string) \<Rightarrow> json list \<Rightarrow> json list" where
  "sanitize_payload_value R (JObj kvs) = JObj (sanitize_payload_items R kvs [])"
| "sanitize_payload_value R (JList vs) = JList (sanitize_payload_list R vs)"
| "sanitize_payload_value R (JStr s) = JStr (sanitize_text R s REASON_MAX_CHARS)"
| "sanitize_payload_value R v = v"
| "sanitize_payload_items R [] acc = acc"
| "sanitize_payload_items R ((k, v) # r) acc =
     (if \<not> kept_key k \<or> v = JNull then sanitize_payload_items R r acc
      else sanitize_payload_items R r (dict_set (py_strip k) (sanitize_payload_value R v) acc))"
| "sanitize_payload_list R [] = []"
| "sanitize_payload_list R (v # vs) =
     (if v = JNull then sanitize_payload_list R vs
      else sanitize_payload_value R v # sanitize_payload_list R vs)"

fun sanitize_payload_loop ::
    "(string \<Rightarrow> string) \<Rightarrow> json_obj \<Rightarrow> (string, string) dict \<Rightarrow> (string, string) dict" where
  "sanitize_payload_loop R [] acc = acc"
| "sanitize_payload_loop R ((k, v) # r) acc =
     (if \<not> kept_key k \<or> v = JNull then sanitize_payload_loop R r acc
      else sanitize_payload_loop R r
        (dict_set (py_strip k)
          (sanitize_text R (stringify_payload_value (sanitize_payload_value R v)) REASON_MAX_CHARS) acc))"

definition sanitize_action_payload :: "(string \<Rightarrow> string) \<Rightarrow> json_obj \<Rightarrow> (string, string) dict" where
  "sanitize_action_payload R payload = sanitize_payload_loop R payload []"

text \<open>A payload that is already text, as it is stored in a confirmation.\<close>

definition json_of_strings :: "(string, string) dict \<Rightarrow> json_obj" where
  "json_of_strings d = map (\<lambda>(k, v). (k, JStr v)) d"

subsection \<open>Metadata\<close>

fun sanitize_metadata_loop :: "json_obj \<Rightarrow> (string, string) dict \<Rightarrow> (string, string) dict" where
  "sanitize_metadata_loop [] acc = acc"
| "sanitize_metadata_loop ((k, v) # r) acc =
     (let nk = py_strip k in
      if nk = [] \<or> py_lower nk \<in> set FORBIDDEN_METADATA_KEYS \<or> v = JNull then sanitize_metadata_loop r acc
      else
        let text = py_strip (py_str v) in
        sanitize_metadata_loop r (if text = [] then acc else dict_set nk text acc))"

definition sanitize_metadata :: "json_obj \<Rightarrow> (string, string) dict" where
  "sanitize_metadata md = sanitize_metadata_loop md []"

definition sanitize_confirmation_metadata :: "(string \<Rightarrow> string) \<Rightarrow> json_obj \<Rightarrow> (string, string) dict" where
  "sanitize_confirmation_metadata R md =
     map (\<lambda>(k, v). (k, sanitize_text R v REASON_MAX_CHARS)) (sanitize_metadata md)"

subsection \<open>What sanitising guarantees\<close>

text \<open>
  A key that survives is stripped, not empty and not forbidden in any letter case, and a value that
  survives is bounded. \<open>clean_json\<close> says it of a nested value at every depth.
\<close>

definition clean_key :: "string \<Rightarrow> bool" where
  "clean_key k = (k \<noteq> [] \<and> py_lower k \<notin> set ACTION_FORBIDDEN_PAYLOAD_KEYS)"

fun clean_json :: "json \<Rightarrow> bool"
  and clean_items :: "(string \<times> json) list \<Rightarrow> bool"
  and clean_list :: "json list \<Rightarrow> bool" where
  "clean_json (JObj kvs) = clean_items kvs"
| "clean_json (JList vs) = clean_list vs"
| "clean_json (JStr s) = (length s \<le> REASON_MAX_CHARS)"
| "clean_json JNull = True"
| "clean_json (JBool b) = True"
| "clean_json (JInt i) = True"
| "clean_json (JFloat s) = True"
| "clean_items [] = True"
| "clean_items ((k, v) # r) = (clean_key k \<and> v \<noteq> JNull \<and> clean_json v \<and> clean_items r)"
| "clean_list [] = True"
| "clean_list (v # vs) = (v \<noteq> JNull \<and> clean_json v \<and> clean_list vs)"

lemma length_sanitize_text: "length (sanitize_text R s n) \<le> n"
  by (simp add: sanitize_text_def)

lemma kept_key_clean: "kept_key k \<Longrightarrow> clean_key (py_strip k)"
  by (simp add: kept_key_def clean_key_def)

lemma clean_items_set: "clean_items d \<Longrightarrow> clean_key k \<Longrightarrow> v \<noteq> JNull \<Longrightarrow> clean_json v \<Longrightarrow>
    clean_items (dict_set k v d)"
  by (induction d) auto

lemma sanitize_value_not_null: "v \<noteq> JNull \<Longrightarrow> sanitize_payload_value R v \<noteq> JNull"
  by (cases v) auto

lemma sanitize_payload_value_clean:
  "clean_json (sanitize_payload_value R v)"
  "clean_items acc \<Longrightarrow> clean_items (sanitize_payload_items R kvs acc)"
  "clean_list (sanitize_payload_list R vs)"
proof (induction R v and R kvs acc and R vs
    rule: sanitize_payload_value_sanitize_payload_items_sanitize_payload_list.induct)
qed (auto simp: length_sanitize_text clean_items_set kept_key_clean sanitize_value_not_null)

lemma sanitize_payload_loop_bounds:
  assumes "\<forall>(k, v) \<in> set acc. clean_key k \<and> length v \<le> REASON_MAX_CHARS" and "dict_ok acc"
  shows "(\<forall>(k, v) \<in> set (sanitize_payload_loop R d acc). clean_key k \<and> length v \<le> REASON_MAX_CHARS)
    \<and> dict_ok (sanitize_payload_loop R d acc)"
  using assms
proof (induction R d acc rule: sanitize_payload_loop.induct)
  case (2 R k v r acc)
  show ?case
  proof (cases "\<not> kept_key k \<or> v = JNull")
    case True
    with 2 show ?thesis by simp
  next
    case False
    let ?v = "sanitize_text R (stringify_payload_value (sanitize_payload_value R v)) REASON_MAX_CHARS"
    have "\<forall>(k, v) \<in> set (dict_set (py_strip k) ?v acc). clean_key k \<and> length v \<le> REASON_MAX_CHARS"
      using False by (intro dict_set_entries [OF "2.prems"(1)])
        (auto simp: kept_key_clean length_sanitize_text)
    with "2.IH"(2) [OF False] False show ?thesis
      by (simp add: distinct_update [OF "2.prems"(2)])
  qed
qed auto

lemma sanitize_action_payload_entries:
  assumes "(k, v) \<in> set (sanitize_action_payload R payload)"
  shows "clean_key k" "length v \<le> REASON_MAX_CHARS"
  using sanitize_payload_loop_bounds [of "[]" R payload] assms
  by (auto simp: sanitize_action_payload_def)

subsection \<open>Properties\<close>

text \<open>
  Nothing forbidden leaves the sanitiser, at any depth: every value it passes on has, in every
  nested object, only stripped non-empty keys outside the forbidden list in any letter case, no
  null and no string above the limit; and the flat payload has the same keys rule, distinct keys and
  bounded text.
\<close>

theorem payload_sanitised:
  "clean_json (sanitize_payload_value R v)
   \<and> dict_ok (sanitize_action_payload R payload)
   \<and> (\<forall>k. k \<in> fst ` set (sanitize_action_payload R payload) \<longrightarrow> clean_key k)
   \<and> (\<forall>t. t \<in> snd ` set (sanitize_action_payload R payload) \<longrightarrow> length t \<le> REASON_MAX_CHARS)"
  using sanitize_payload_value_clean(1) sanitize_payload_loop_bounds [of "[]" R payload]
    sanitize_action_payload_entries
  by (fastforce simp: sanitize_action_payload_def)

theorem payload_sanitised_witness:
  "sanitize_action_payload id
      [('' API_Key '', JStr ''s''), ('' room '', JObj [(''Token'', JInt 1), (''n'', JInt 2)])]
     = [(''room'', [CHR 0x7B, CHR 0x22] @ ''n'' @ [CHR 0x22] @ '':2'' @ [CHR 0x7D])]
   \<and> clean_json (sanitize_payload_value id (JObj [(''Token'', JInt 1), (''n'', JInt 2)]))"
proof -
  have "sanitize_action_payload id
      [('' API_Key '', JStr ''s''), ('' room '', JObj [(''Token'', JInt 1), (''n'', JInt 2)])]
     = [(''room'', [CHR 0x7B, CHR 0x22] @ ''n'' @ [CHR 0x22] @ '':2'' @ [CHR 0x7D])]"
    by code_simp
  with payload_sanitised [of id "JObj [(''Token'', JInt 1), (''n'', JInt 2)]" "[]"]
  show ?thesis by blast
qed

end
