(* ===== verification/Confirmation.thy ===== *)
theory Confirmation
  imports Safety Payload Reply
begin

section \<open>Confirmations\<close>

text \<open>
  \<^verbatim>\<open>OriginAgent/agent/confirmation.py\<close>: the pending-confirmation store and the manager that creates,
  resolves, expires, claims and retries confirmations.

  The store is the list of the records on disk in file order; every write sorts it. A record that
  passed \<^verbatim>\<open>__post_init__\<close> reads back unchanged, so the JSON file and its cache are not part of the
  state. Instants are microseconds; the ISO texts of UTC instants that the code compares as strings
  compare as the instants do. New identifiers (\<^verbatim>\<open>uuid4\<close>) and the current time are arguments. An
  operation runs under the store's file lock, so it is one atomic step.
\<close>

datatype conf_kind = ActionConfirmation | FactConfirmation | NotifyOnly | ToolApproval

datatype conf_status =
  Pending | Notified | ConfirmedOnce | ConfirmedPersistent | RejectedStatus | ExpiredStatus
  | Cancelled | Deferred

datatype result_decision = RConfirmed | RRejected | RPersistent | RExpired | RCancelled | RUnclear

definition kind_text :: "conf_kind \<Rightarrow> string" where
  "kind_text k = (case k of ActionConfirmation \<Rightarrow> ''action_confirmation''
     | FactConfirmation \<Rightarrow> ''fact_confirmation'' | NotifyOnly \<Rightarrow> ''notify_only''
     | ToolApproval \<Rightarrow> ''tool_approval'')"

definition status_text :: "conf_status \<Rightarrow> string" where
  "status_text s = (case s of Pending \<Rightarrow> ''pending'' | Notified \<Rightarrow> ''notified''
     | ConfirmedOnce \<Rightarrow> ''confirmed_once'' | ConfirmedPersistent \<Rightarrow> ''confirmed_persistent''
     | RejectedStatus \<Rightarrow> ''rejected'' | ExpiredStatus \<Rightarrow> ''expired'' | Cancelled \<Rightarrow> ''cancelled''
     | Deferred \<Rightarrow> ''deferred'')"

definition normalize_kind :: "string \<Rightarrow> value_error + conf_kind" where
  "normalize_kind k =
     (case List.find (\<lambda>x. kind_text x = py_lower (py_strip k))
             [ActionConfirmation, FactConfirmation, NotifyOnly, ToolApproval] of
        Some x \<Rightarrow> Inr x | None \<Rightarrow> Inl (ValueError ''invalid confirmation kind''))"

definition normalize_status :: "string \<Rightarrow> value_error + conf_status" where
  "normalize_status s =
     (case List.find (\<lambda>x. status_text x = py_lower (py_strip s))
             [Pending, Notified, ConfirmedOnce, ConfirmedPersistent, RejectedStatus, ExpiredStatus,
              Cancelled, Deferred] of
        Some x \<Rightarrow> Inr x | None \<Rightarrow> Inl (ValueError ''invalid confirmation status''))"

record ConfirmationRequest =
  cf_id :: string
  cf_kind :: conf_kind
  cf_status :: conf_status
  cf_prompt :: string
  cf_action :: "string option"
  cf_scope :: "string option"
  cf_trigger :: "string option"
  cf_risk :: "string option"
  cf_requested_by :: "string option"
  cf_decision_reason :: string
  cf_presence_status :: string
  cf_related_fact_ids :: "string list"
  cf_created_at :: int
  cf_expires_at :: int
  cf_requires_presence_empty :: bool
  cf_uses_facts :: "string list"
  cf_action_payload :: "(string, string) dict"
  cf_idempotency_key :: "string option"
  cf_consumed_at :: "int option"
  cf_metadata :: "(string, string) dict"
  cf_owner_id :: "string option"

record ConfirmationResult =
  cr_id :: string
  cr_decision :: result_decision
  cr_reason :: string
  cr_applies_once :: bool

record ConfirmationConfig =
  notify_ttl_seconds :: int
  confirm_ttl_by_risk :: "(string, int) dict"
  tool_approval_cron_ttl_seconds :: int

definition default_confirmation_config :: ConfirmationConfig where
  "default_confirmation_config = \<lparr>notify_ttl_seconds = 24 * 60 * 60,
     confirm_ttl_by_risk = [(''low'', 10 * 60), (''medium'', 5 * 60), (''high'', 2 * 60)],
     tool_approval_cron_ttl_seconds = 3600\<rparr>"

definition optional_str :: "string option \<Rightarrow> string option" where
  "optional_str v = (case v of None \<Rightarrow> None
     | Some s \<Rightarrow> (let t = py_strip s in if t = [] then None else Some t))"

definition normalize_string_list :: "string list \<Rightarrow> string list" where
  "normalize_string_list xs = sort (remdups (filter (\<lambda>s. s \<noteq> []) (map py_strip xs)))"

text \<open>\<^verbatim>\<open>ConfirmationRequest.__post_init__\<close> on the fields that it changes.\<close>

definition post_init :: "(string \<Rightarrow> string) \<Rightarrow> ConfirmationRequest \<Rightarrow> ConfirmationRequest" where
  "post_init R c = c\<lparr>
     cf_prompt := sanitize_text R (cf_prompt c) PROMPT_MAX_CHARS,
     cf_decision_reason := sanitize_text R (cf_decision_reason c) REASON_MAX_CHARS,
     cf_presence_status := str_or (cf_presence_status c) ''unknown'',
     cf_related_fact_ids := normalize_string_list (cf_related_fact_ids c),
     cf_uses_facts := normalize_string_list (cf_uses_facts c),
     cf_action_payload := sanitize_action_payload R (json_of_strings (cf_action_payload c)),
     cf_idempotency_key := optional_str (cf_idempotency_key c),
     cf_metadata := sanitize_confirmation_metadata R (json_of_strings (cf_metadata c)),
     cf_owner_id := optional_str (cf_owner_id c)\<rparr>"

text \<open>
  The file is only ever seen through \<^verbatim>\<open>from_dict\<close>, so the store of the model holds what reading back gives.
  Reading back a record that has been read back before is taken to change nothing: that holds of the strips
  and sorts, and of redacting and cutting a text that is redacted and cut.
\<close>

definition read_back :: "(string \<Rightarrow> string) \<Rightarrow> ConfirmationRequest \<Rightarrow> ConfirmationRequest" where
  "read_back R c = post_init R (c
     \<lparr>cf_action := optional_str (cf_action c), cf_scope := optional_str (cf_scope c),
      cf_trigger := optional_str (cf_trigger c), cf_risk := optional_str (cf_risk c),
      cf_requested_by := optional_str (cf_requested_by c)\<rparr>)"

lemma read_back_simps [simp]:
  "cf_id (read_back R c) = cf_id c" "cf_kind (read_back R c) = cf_kind c" "cf_status (read_back R c) = cf_status c"
  "cf_created_at (read_back R c) = cf_created_at c" "cf_expires_at (read_back R c) = cf_expires_at c"
  "cf_consumed_at (read_back R c) = cf_consumed_at c"
  by (simp_all add: read_back_def post_init_def)

definition is_expired :: "ConfirmationRequest \<Rightarrow> int \<Rightarrow> bool" where
  "is_expired c now = (cf_expires_at c \<le> now)"

definition ttl_for :: "conf_kind \<Rightarrow> string option \<Rightarrow> ConfirmationConfig \<Rightarrow> string option \<Rightarrow> int" where
  "ttl_for k rsk cfg trig =
     (if k = ToolApproval \<and> trig = Some ''scheduled'' then
        1000000 * max 60 (tool_approval_cron_ttl_seconds cfg)
      else if k = NotifyOnly then 1000000 * max 0 (notify_ttl_seconds cfg)
      else
        let ttl_map = fold (\<lambda>(key, v) acc. dict_set (py_lower (py_strip key)) (1000000 * max 0 v) acc)
              (confirm_ttl_by_risk cfg) [];
            low = (case dict_get ttl_map ''low'' of Some t \<Rightarrow> t | None \<Rightarrow> 1000000 * (10 * 60))
        in (case dict_get ttl_map (py_lower (py_strip (opt_or rsk ''low''))) of
              Some t \<Rightarrow> t | None \<Rightarrow> low))"

subsection \<open>The store\<close>

type_synonym conf_store = "ConfirmationRequest list"

definition write_all :: "conf_store \<Rightarrow> conf_store" where
  "write_all cs = sort_key (\<lambda>c. (cf_created_at c, cf_id c)) cs"

definition has_id :: "string \<Rightarrow> ConfirmationRequest \<Rightarrow> bool" where
  "has_id cid c = (cf_id c = cid)"

definition upsert :: "ConfirmationRequest \<Rightarrow> conf_store \<Rightarrow> conf_store" where
  "upsert c cs = write_all
     (if List.find (has_id (cf_id c)) cs \<noteq> None then update_first (has_id (cf_id c)) (\<lambda>_. c) cs
      else cs @ [c])"

definition store_get :: "conf_store \<Rightarrow> string \<Rightarrow> ConfirmationRequest option" where
  "store_get cs cid = List.find (has_id cid) cs"

definition mark_expired :: "ConfirmationRequest \<Rightarrow> ConfirmationRequest" where
  "mark_expired c = c\<lparr>cf_status := ExpiredStatus\<rparr>"

definition store_claim_consumption ::
    "string \<Rightarrow> int \<Rightarrow> conf_kind list \<Rightarrow> conf_store \<Rightarrow> conf_store \<times> ConfirmationRequest option" where
  "store_claim_consumption cid now kinds cs =
     (case List.find (has_id cid) cs of
        None \<Rightarrow> (cs, None)
      | Some c \<Rightarrow>
          (if is_expired c now then (write_all (update_first (has_id cid) mark_expired cs), None)
           else if cf_kind c \<notin> set kinds \<or> cf_status c \<noteq> ConfirmedOnce \<or> cf_consumed_at c \<noteq> None
           then (cs, None)
           else (write_all (update_first (has_id cid) (\<lambda>c. c\<lparr>cf_consumed_at := Some now\<rparr>) cs),
                 Some (c\<lparr>cf_consumed_at := Some now\<rparr>))))"

definition store_expire_if_needed ::
    "string \<Rightarrow> int \<Rightarrow> conf_store \<Rightarrow> conf_store \<times> ConfirmationRequest option" where
  "store_expire_if_needed cid now cs =
     (case List.find (has_id cid) cs of
        None \<Rightarrow> (cs, None)
      | Some c \<Rightarrow>
          (if is_expired c now
           then (write_all (update_first (has_id cid) mark_expired cs), Some (mark_expired c))
           else (cs, Some c)))"

subsection \<open>The manager\<close>

text \<open>An event handed to the audit logger; the logger only appends.\<close>

record ConfAuditEvent =
  ev_id :: string
  ev_decision :: string
  ev_reason :: string
  ev_now :: int
  ev_actor_id :: "string option"
  ev_action :: "string option"
  ev_scope :: "string option"
  ev_risk :: "string option"
  ev_trigger :: "string option"
  ev_metadata :: json_obj

record ConfirmationManager =
  cm_store :: conf_store
  cm_config :: ConfirmationConfig
  cm_redact :: "string \<Rightarrow> string"
  cm_prompt :: "ActionRequest \<Rightarrow> ActionDecision \<Rightarrow> conf_kind \<Rightarrow> string"
  cm_audit :: "ConfAuditEvent list"

definition confirmation_audit_event ::
    "ConfirmationRequest \<Rightarrow> string \<Rightarrow> string \<Rightarrow> int \<Rightarrow> json_obj \<Rightarrow> ConfAuditEvent" where
  "confirmation_audit_event c d r now md =
     \<lparr>ev_id = cf_id c, ev_decision = d, ev_reason = r, ev_now = now,
      ev_actor_id = cf_requested_by c, ev_action = cf_action c, ev_scope = cf_scope c,
      ev_risk = cf_risk c, ev_trigger = cf_trigger c,
      ev_metadata = dict_merge
        [(''confirmation_status'', JStr (status_text (cf_status c))),
         (''confirmation_kind'', JStr (kind_text (cf_kind c))),
         (''expires_at'', JInt (cf_expires_at c)),
         (''consumed'', JBool (cf_consumed_at c \<noteq> None))] md\<rparr>"

definition log_confirmation :: "ConfAuditEvent \<Rightarrow> ConfirmationManager \<Rightarrow> ConfirmationManager" where
  "log_confirmation e m = m\<lparr>cm_audit := cm_audit m @ [e]\<rparr>"

definition human_action :: "ActionRequest \<Rightarrow> string" where
  "human_action r =
     (if req_scope r \<noteq> [] then [CHR 0x27] @ req_action r @ [CHR 0x27] @ '' ('' @ req_scope r @ '')''
      else [CHR 0x27] @ req_action r @ [CHR 0x27])"

definition default_prompt ::
    "(string \<Rightarrow> string) \<Rightarrow> ActionRequest \<Rightarrow> ActionDecision \<Rightarrow> conf_kind \<Rightarrow> string" where
  "default_prompt R req dec k =
     (let act = human_action req in sanitize_text R
       (if k = NotifyOnly then ''I will notify you about '' @ act @ ''.''
        else if req_requires_presence_empty req \<and> presence_status dec \<noteq> ''empty'' then
          ''This action requires confirming the space is empty, but that is not established. Continue with ''
            @ act @ '' just this once?''
        else if presence_status dec = ''unknown'' then
          ''Occupancy is unknown, so '' @ act @ '' will not run automatically. Continue now?''
        else if py_in ''fact'' (py_lower (reason dec)) \<or> pending_facts dec \<noteq> [] then
          act @ '' depends on an unconfirmed fact. Continue just this once or cancel?''
        else ''Continue with '' @ act @ '' just this once?'') PROMPT_MAX_CHARS)"

definition created_event :: "ConfirmationRequest \<Rightarrow> string \<Rightarrow> int \<Rightarrow> ConfAuditEvent" where
  "created_event c d now = confirmation_audit_event c d (cf_decision_reason c) now []"

definition create_from_action_decision ::
    "string \<Rightarrow> int \<Rightarrow> ActionRequest \<Rightarrow> ActionDecision \<Rightarrow> (string, string) dict \<Rightarrow> (string, string) dict
     \<Rightarrow> string option \<Rightarrow> ConfirmationManager \<Rightarrow> ConfirmationManager \<times> ConfirmationRequest option" where
  "create_from_action_decision new_id now req dec md payload ikey m =
     (if decision dec \<in> {''allow'', ''deny''} then (m, None)
      else if decision dec \<noteq> ''ask_confirmation'' \<and> decision dec \<noteq> ''notify_only'' then (m, None)
      else
        let R = cm_redact m;
            k = (if decision dec = ''ask_confirmation'' then ActionConfirmation else NotifyOnly);
            st = (if decision dec = ''ask_confirmation'' then Pending else Notified);
            c = post_init R
              \<lparr>cf_id = new_id, cf_kind = k, cf_status = st, cf_prompt = cm_prompt m req dec k,
               cf_action = Some (req_action req), cf_scope = Some (req_scope req),
               cf_trigger = Some (req_trigger req), cf_risk = Some (req_risk req),
               cf_requested_by = req_requested_by req, cf_decision_reason = reason dec,
               cf_presence_status = presence_status dec,
               cf_related_fact_ids = pending_facts dec @ supporting_facts dec,
               cf_created_at = now,
               cf_expires_at = now + ttl_for k (Some (req_risk req)) (cm_config m) None,
               cf_requires_presence_empty = req_requires_presence_empty req,
               cf_uses_facts = req_uses_facts req,
               cf_action_payload = sanitize_action_payload R (json_of_strings payload),
               cf_idempotency_key = ikey, cf_consumed_at = None,
               cf_metadata = sanitize_confirmation_metadata R (json_of_strings md),
               cf_owner_id = None\<rparr>;
            m1 = m\<lparr>cm_store := upsert (read_back R c) (cm_store m)\<rparr>
        in (log_confirmation
              (created_event c (if k = NotifyOnly then ''notified'' else ''created'') now) m1, Some c))"

definition same_pending_approval :: "string \<Rightarrow> int \<Rightarrow> ConfirmationRequest \<Rightarrow> bool" where
  "same_pending_approval key now c =
     (cf_kind c = ToolApproval \<and> cf_status c = Pending \<and> \<not> is_expired c now
      \<and> cf_idempotency_key c = Some key)"

definition create_tool_approval ::
    "string \<Rightarrow> int \<Rightarrow> string \<Rightarrow> string \<Rightarrow> string \<Rightarrow> string option \<Rightarrow> string option \<Rightarrow> string option
     \<Rightarrow> string option \<Rightarrow> string option \<Rightarrow> (string, string) dict \<Rightarrow> (string, string) dict
     \<Rightarrow> string option \<Rightarrow> string option \<Rightarrow> ConfirmationManager
     \<Rightarrow> ConfirmationManager \<times> ConfirmationRequest" where
  "create_tool_approval new_id now tool prmpt rsn requested trig rsk scp session md payload ikey owner m =
     (let R = cm_redact m;
          existing = (if truthy ikey
            then List.find (same_pending_approval (opt_or ikey []) now) (cm_store m) else None)
      in case existing of
           Some c \<Rightarrow> (m, c)
         | None \<Rightarrow>
           let md1 = (if truthy session then dict_setdefault ''session_key'' (opt_or session []) md else md);
               md2 = dict_setdefault ''tool_name'' tool md1;
               md3 = (if trig = Some ''scheduled''
                      then dict_setdefault ''deferred_for_user'' ''true'' md2 else md2);
               c = post_init R
                 \<lparr>cf_id = new_id, cf_kind = ToolApproval, cf_status = Pending,
                  cf_prompt = sanitize_text R prmpt PROMPT_MAX_CHARS,
                  cf_action = Some (''tool:'' @ tool), cf_scope = optional_str scp,
                  cf_trigger = optional_str trig,
                  cf_risk = (case optional_str rsk of None \<Rightarrow> Some ''high'' | Some r \<Rightarrow> Some r),
                  cf_requested_by = optional_str requested,
                  cf_decision_reason = sanitize_text R rsn REASON_MAX_CHARS,
                  cf_presence_status = ''unknown'', cf_related_fact_ids = [],
                  cf_created_at = now,
                  cf_expires_at = now + ttl_for ToolApproval rsk (cm_config m) trig,
                  cf_requires_presence_empty = False, cf_uses_facts = [],
                  cf_action_payload = sanitize_action_payload R (json_of_strings payload),
                  cf_idempotency_key = optional_str ikey, cf_consumed_at = None,
                  cf_metadata = sanitize_confirmation_metadata R (json_of_strings md3),
                  cf_owner_id = optional_str owner\<rparr>;
               m1 = m\<lparr>cm_store := upsert (read_back R c) (cm_store m)\<rparr>
           in (log_confirmation (created_event c ''created'' now) m1, c))"

definition mk_result :: "string \<Rightarrow> result_decision \<Rightarrow> string \<Rightarrow> bool \<Rightarrow> ConfirmationResult" where
  "mk_result cid d r once = \<lparr>cr_id = cid, cr_decision = d, cr_reason = r, cr_applies_once = once\<rparr>"

text \<open>Set the status of the target, write the store and log, as the branches of the reply do.\<close>

definition settle ::
    "ConfirmationRequest \<Rightarrow> conf_status \<Rightarrow> string \<Rightarrow> string \<Rightarrow> int \<Rightarrow> ConfirmationManager \<Rightarrow> ConfirmationManager" where
  "settle c st d r now m =
     log_confirmation (confirmation_audit_event (c\<lparr>cf_status := st\<rparr>) d r now [])
       (m\<lparr>cm_store := write_all (update_first (has_id (cf_id c)) (\<lambda>c. c\<lparr>cf_status := st\<rparr>) (cm_store m))\<rparr>)"

definition owner_mismatch :: "ConfirmationRequest \<Rightarrow> string option \<Rightarrow> bool" where
  "owner_mismatch c caller = (cf_owner_id c \<noteq> None \<and> caller \<noteq> None \<and> caller \<noteq> cf_owner_id c)"

definition owner_mismatch_reason :: "string option \<Rightarrow> string option \<Rightarrow> string" where
  "owner_mismatch_reason caller owner = ''caller_actor_id='' @ repr_str (opt_or caller [])
     @ '' does not match confirmation owner_id='' @ repr_str (opt_or owner [])"

text \<open>\<^verbatim>\<open>ConfirmationResult.__post_init__\<close> cleans the reason, and the audit event takes the cleaned one.\<close>

definition san :: "ConfirmationManager \<Rightarrow> string \<Rightarrow> string" where
  "san m r = sanitize_text (cm_redact m) r REASON_MAX_CHARS"

definition resolve_user_reply ::
    "unicode \<Rightarrow> string \<Rightarrow> utext \<Rightarrow> int \<Rightarrow> string option \<Rightarrow> ConfirmationManager
     \<Rightarrow> ConfirmationManager \<times> ConfirmationResult" where
  "resolve_user_reply U cid reply now caller m =
     (case List.find (has_id cid) (cm_store m) of
        None \<Rightarrow>
          (log_confirmation
             \<lparr>ev_id = cid, ev_decision = ''unclear_reply'', ev_reason = san m ''confirmation not found'',
              ev_now = now, ev_actor_id = None, ev_action = None, ev_scope = None, ev_risk = None,
              ev_trigger = None, ev_metadata = [(''confirmation_status'', JStr ''missing'')]\<rparr> m,
           mk_result cid RUnclear (san m ''confirmation not found'') True)
      | Some c \<Rightarrow>
          if is_expired c now then
            (settle c ExpiredStatus ''expired'' (san m ''confirmation expired'') now m,
             mk_result (cf_id c) RExpired (san m ''confirmation expired'') True)
          else if cf_kind c = NotifyOnly then
            (log_confirmation
               (confirmation_audit_event c ''rejected'' (san m ''notification is not executable'') now []) m,
             mk_result (cf_id c) RRejected (san m ''notification is not executable'') True)
          else if cf_status c \<noteq> Pending then
            (let r = san m (''confirmation is '' @ status_text (cf_status c)) in
             (log_confirmation (confirmation_audit_event c ''unclear_reply'' r now []) m,
              mk_result (cf_id c) RUnclear r True))
          else if owner_mismatch c caller then
            (let r = san m (owner_mismatch_reason caller (cf_owner_id c)) in
             (log_confirmation
                (confirmation_audit_event c ''approval_denied_owner_mismatch'' r now
                   [(''denial_reason'', JStr ''approval_denied_owner_mismatch''),
                    (''caller_actor_id'', JStr (opt_or caller [])),
                    (''confirmation_owner_id'', JStr (opt_or (cf_owner_id c) []))]) m,
              mk_result (cf_id c) RRejected r True))
          else
            (case classify_reply U reply of
               Confirmed \<Rightarrow>
                 (settle c ConfirmedOnce ''confirmed_once'' (san m ''confirmed once'') now m,
                  mk_result (cf_id c) RConfirmed (san m ''confirmed once'') True)
             | Rejected \<Rightarrow>
                 (settle c RejectedStatus ''rejected'' (san m ''user rejected'') now m,
                  mk_result (cf_id c) RRejected (san m ''user rejected'') True)
             | Persistent \<Rightarrow>
                 (settle c ConfirmedPersistent ''confirmed_persistent''
                    (san m ''user granted persistent approval'') now m,
                  mk_result (cf_id c) RPersistent (san m ''user granted persistent approval'') False)
             | Unclear \<Rightarrow>
                 (log_confirmation
                    (confirmation_audit_event c ''unclear_reply'' (san m ''reply was unclear'') now []) m,
                  mk_result (cf_id c) RUnclear (san m ''reply was unclear'') True)))"

definition expirable :: "int \<Rightarrow> ConfirmationRequest \<Rightarrow> bool" where
  "expirable now c = (cf_status c \<in> {Pending, Notified} \<and> is_expired c now)"

definition expire_old :: "int \<Rightarrow> ConfirmationManager \<Rightarrow> ConfirmationManager \<times> nat" where
  "expire_old now m =
     (let due = filter (expirable now) (cm_store m);
          st = map (\<lambda>c. if expirable now c then mark_expired c else c) (cm_store m)
      in (m\<lparr>cm_store := (if due \<noteq> [] then write_all st else cm_store m),
            cm_audit := cm_audit m @ map (\<lambda>c. confirmation_audit_event (mark_expired c) ''expired''
                                              ''confirmation expired'' now []) due\<rparr>,
          length due))"

definition claim_consumption ::
    "string \<Rightarrow> int \<Rightarrow> conf_kind list \<Rightarrow> ConfirmationManager
     \<Rightarrow> ConfirmationManager \<times> ConfirmationRequest option" where
  "claim_consumption cid now kinds m =
     (let (st, r) = store_claim_consumption cid now kinds (cm_store m); m1 = m\<lparr>cm_store := st\<rparr> in
      case r of
        None \<Rightarrow> (m1, None)
      | Some c \<Rightarrow> (log_confirmation (confirmation_audit_event c ''consumed'' ''confirmation consumed'' now []) m1,
                   Some c))"

definition expire_confirmation_if_needed ::
    "string \<Rightarrow> int \<Rightarrow> ConfirmationManager \<Rightarrow> ConfirmationManager \<times> ConfirmationRequest option" where
  "expire_confirmation_if_needed cid now m =
     (let before = store_get (cm_store m) cid;
          (st, r) = store_expire_if_needed cid now (cm_store m);
          m1 = m\<lparr>cm_store := st\<rparr> in
      case (r, before) of
        (Some c, Some b) \<Rightarrow>
          (if cf_status c = ExpiredStatus \<and> cf_status b \<noteq> ExpiredStatus
           then (log_confirmation (confirmation_audit_event c ''expired'' ''confirmation expired'' now []) m1, r)
           else (m1, r))
      | _ \<Rightarrow> (m1, r))"

definition md_get :: "ConfirmationRequest \<Rightarrow> string \<Rightarrow> string option" where
  "md_get c k = dict_get (cf_metadata c) k"

definition retry_root :: "ConfirmationRequest \<Rightarrow> string" where
  "retry_root c = str_or (py_strip
     (opt_or (md_get c ''retry_root_confirmation_id'')
        (opt_or (md_get c ''retried_from_confirmation_id'') (cf_id c)))) (cf_id c)"

definition retry_count_of :: "ConfirmationRequest \<Rightarrow> int option" where
  "retry_count_of c = parse_int (opt_or (md_get c ''retry_count'') ''0'')"

definition retry_allowed :: "ConfirmationRequest \<Rightarrow> bool" where
  "retry_allowed c \<longleftrightarrow> cf_kind c \<in> {ActionConfirmation, ToolApproval}
     \<and> cf_kind c \<notin> {NotifyOnly, FactConfirmation} \<and> cf_status c \<notin> {RejectedStatus, Cancelled}
     \<and> cf_status c = ExpiredStatus \<and> cf_consumed_at c = None
     \<and> truthy (cf_action c) \<and> cf_prompt c \<noteq> [] \<and> cf_decision_reason c \<noteq> []"

definition retried_request ::
    "(string \<Rightarrow> string) \<Rightarrow> ConfirmationConfig \<Rightarrow> string \<Rightarrow> string option \<Rightarrow> int \<Rightarrow> int
     \<Rightarrow> ConfirmationRequest \<Rightarrow> ConfirmationRequest" where
  "retried_request R cfg new_id requested n now c =
     post_init R
       \<lparr>cf_id = new_id, cf_kind = cf_kind c, cf_status = Pending, cf_prompt = cf_prompt c,
        cf_action = cf_action c, cf_scope = cf_scope c, cf_trigger = cf_trigger c,
        cf_risk = cf_risk c,
        cf_requested_by = (case optional_str requested of None \<Rightarrow> cf_requested_by c | Some r \<Rightarrow> Some r),
        cf_decision_reason = cf_decision_reason c, cf_presence_status = cf_presence_status c,
        cf_related_fact_ids = cf_related_fact_ids c, cf_created_at = now,
        cf_expires_at = now + ttl_for (cf_kind c) (cf_risk c) cfg None,
        cf_requires_presence_empty = cf_requires_presence_empty c, cf_uses_facts = cf_uses_facts c,
        cf_action_payload = cf_action_payload c, cf_idempotency_key = None, cf_consumed_at = None,
        cf_metadata = dict_set ''retry_count'' (show_int n)
          (dict_set ''retry_root_confirmation_id'' (retry_root c)
            (dict_set ''retried_from_confirmation_id'' (cf_id c) (cf_metadata c))),
        cf_owner_id = None\<rparr>"

definition retry_confirmation ::
    "string \<Rightarrow> string \<Rightarrow> string option \<Rightarrow> int \<Rightarrow> ConfirmationManager
     \<Rightarrow> ConfirmationManager \<times> (value_error + ConfirmationRequest)" where
  "retry_confirmation new_id cid requested now m =
     (case List.find (has_id cid) (cm_store m) of
        None \<Rightarrow> (m, Inl (ValueError ''confirmation_not_found''))
      | Some c \<Rightarrow>
          if \<not> retry_allowed c then (m, Inl (ValueError ''retry_not_allowed''))
          else (case retry_count_of c of
                  None \<Rightarrow> (m, Inl (ValueError ''invalid literal for int()''))
                | Some n \<Rightarrow>
                    if n + 1 > 3 then (m, Inl (ValueError ''retry_limit_reached''))
                    else
                      let r = retried_request (cm_redact m) (cm_config m) new_id requested (n + 1) now c
                      in (log_confirmation
                            (confirmation_audit_event r ''retried'' ''confirmation retried'' now
                               [(''retried_from_confirmation_id'', JStr cid),
                                (''retry_root_confirmation_id'', JStr (retry_root c)),
                                (''retry_count'', JInt (n + 1))])
                            (m\<lparr>cm_store := write_all (cm_store m @ [read_back (cm_redact m) r])\<rparr>), Inr r)))"

subsection \<open>Listings\<close>

definition list_action_confirmations :: "int \<Rightarrow> ConfirmationManager \<Rightarrow> ConfirmationRequest list" where
  "list_action_confirmations now m =
     filter (\<lambda>c. cf_kind c = ActionConfirmation \<and> cf_status c = Pending \<and> \<not> is_expired c now) (cm_store m)"

definition list_notifications :: "int \<Rightarrow> ConfirmationManager \<Rightarrow> ConfirmationRequest list" where
  "list_notifications now m =
     filter (\<lambda>c. cf_kind c = NotifyOnly \<and> cf_status c = Notified \<and> \<not> is_expired c now) (cm_store m)"

definition session_matches :: "string option \<Rightarrow> ConfirmationRequest \<Rightarrow> bool" where
  "session_matches session c = (truthy session \<longrightarrow> md_get c ''session_key'' = session)"

definition list_tool_approvals ::
    "string option \<Rightarrow> bool \<Rightarrow> int \<Rightarrow> ConfirmationManager
     \<Rightarrow> ConfirmationManager \<times> ConfirmationRequest list" where
  "list_tool_approvals session include_non_pending now m =
     (let m1 = (if include_non_pending then m else fst (expire_old now m)) in
      (m1, write_all (filter (\<lambda>c. cf_kind c = ToolApproval \<and> session_matches session c
             \<and> (include_non_pending \<or> (cf_status c = Pending \<and> \<not> is_expired c now))) (cm_store m1))))"

definition latest_pending_tool_approval ::
    "string \<Rightarrow> int \<Rightarrow> ConfirmationManager \<Rightarrow> ConfirmationManager \<times> ConfirmationRequest option" where
  "latest_pending_tool_approval session now m =
     (let (m1, xs) = list_tool_approvals (Some session) False now m in
      (m1, if xs = [] then None else Some (last xs)))"

definition list_pending_for_owner ::
    "string option \<Rightarrow> int \<Rightarrow> ConfirmationManager \<Rightarrow> ConfirmationManager \<times> ConfirmationRequest list" where
  "list_pending_for_owner owner now m =
     (let m1 = fst (expire_old now m) in
      (m1, write_all (filter (\<lambda>c. cf_kind c = ToolApproval \<and> cf_status c = Pending
             \<and> \<not> is_expired c now \<and> cf_owner_id c = owner) (cm_store m1))))"

definition list_deferred_tool_approvals ::
    "string option \<Rightarrow> int \<Rightarrow> ConfirmationManager \<Rightarrow> ConfirmationRequest list" where
  "list_deferred_tool_approvals session now m =
     write_all (filter (\<lambda>c. cf_kind c = ToolApproval \<and> cf_status c = Pending
       \<and> md_get c ''deferred_for_user'' = Some ''true'' \<and> \<not> is_expired c now
       \<and> session_matches session c) (cm_store m))"

subsection \<open>Well-formed stores\<close>

definition conf_ok :: "conf_store \<Rightarrow> bool" where
  "conf_ok cs = distinct (map cf_id cs)"

text \<open>
  What every operation guarantees of the store before (\<open>cs\<close>) and after (\<open>ds\<close>): no record
  disappears, and a consumption mark is never taken back or changed.
\<close>

definition keeps_marks :: "conf_store \<Rightarrow> conf_store \<Rightarrow> bool" where
  "keeps_marks cs ds \<longleftrightarrow> (\<forall>c \<in> set cs. \<exists>d \<in> set ds. cf_id d = cf_id c
     \<and> (cf_consumed_at c \<noteq> None \<longrightarrow> cf_consumed_at d = cf_consumed_at c))"

lemma has_id_eta: "has_id cid = (\<lambda>c. cf_id c = cid)"
  by (rule ext) (simp add: has_id_def)

lemma has_id_iff [simp]: "has_id cid c = (cf_id c = cid)"
  by (simp add: has_id_def)

lemma set_write_all [simp]: "set (write_all cs) = set cs"
  by (simp add: write_all_def)

lemma conf_ok_write_all [simp]: "conf_ok (write_all cs) = conf_ok cs"
  by (simp add: conf_ok_def write_all_def distinct_map_sort_key)

lemma get_write_all [simp]: "conf_ok cs \<Longrightarrow> store_get (write_all cs) cid = store_get cs cid"
  unfolding store_get_def has_id_eta conf_ok_def write_all_def by (rule find_sort_key)

lemma get_iff: "conf_ok cs \<Longrightarrow> store_get cs cid = Some c \<longleftrightarrow> c \<in> set cs \<and> cf_id c = cid"
  unfolding store_get_def has_id_eta conf_ok_def by (rule find_distinct_iff)

lemma get_id: "store_get cs cid = Some c \<Longrightarrow> cf_id c = cid \<and> c \<in> set cs"
  by (auto simp: store_get_def dest: find_SomeD)

lemma post_init_id [simp]:
  "cf_id (post_init R c) = cf_id c" "cf_consumed_at (post_init R c) = cf_consumed_at c"
  "cf_status (post_init R c) = cf_status c" "cf_kind (post_init R c) = cf_kind c"
  "cf_expires_at (post_init R c) = cf_expires_at c"
  by (simp_all add: post_init_def)

lemma mark_expired_simps [simp]:
  "cf_id (mark_expired c) = cf_id c" "cf_consumed_at (mark_expired c) = cf_consumed_at c"
  "cf_status (mark_expired c) = ExpiredStatus" "cf_kind (mark_expired c) = cf_kind c"
  "cf_owner_id (mark_expired c) = cf_owner_id c"
  by (simp_all add: mark_expired_def)

lemma conf_ok_update_first: "(\<And>c. cf_id (f c) = cf_id c) \<Longrightarrow> conf_ok (update_first P f cs) = conf_ok cs"
  by (simp add: conf_ok_def map_update_first_key)

lemma conf_ok_map: "(\<And>c. cf_id (f c) = cf_id c) \<Longrightarrow> conf_ok (map f cs) = conf_ok cs"
  by (simp add: conf_ok_def comp_def)

lemma get_update_first:
  "(\<And>c. cf_id (f c) = cf_id c) \<Longrightarrow>
   store_get (update_first (has_id cid) f cs) k =
     (if k = cid then map_option f (store_get cs k) else store_get cs k)"
  by (induction cs) (auto simp: store_get_def)

lemma keeps_refl [simp]: "keeps_marks cs cs"
  by (auto simp: keeps_marks_def)

lemma keeps_write_all [simp]: "keeps_marks cs (write_all ds) = keeps_marks cs ds"
  by (simp add: keeps_marks_def)

lemma keeps_append [simp]: "keeps_marks cs (cs @ ds)"
  by (auto simp: keeps_marks_def)

lemma keeps_map:
  "(\<And>c. cf_id (f c) = cf_id c \<and> cf_consumed_at (f c) = cf_consumed_at c) \<Longrightarrow> keeps_marks cs (map f cs)"
  by (auto simp: keeps_marks_def)

lemma keeps_update_first:
  assumes "\<And>c. cf_id (f c) = cf_id c"
    and "\<And>c. c \<in> set cs \<Longrightarrow> P c \<Longrightarrow> cf_consumed_at c = None \<or> cf_consumed_at (f c) = cf_consumed_at c"
  shows "keeps_marks cs (update_first P f cs)"
  using assms(2)
proof (induction cs)
  case (Cons c cs)
  then have "keeps_marks cs (update_first P f cs)" by simp
  with Cons.prems [of c] show ?case
    by (force simp: keeps_marks_def assms(1))
qed simp

lemma conf_ok_fresh: "conf_ok cs \<Longrightarrow> cf_id c \<notin> cf_id ` set cs \<Longrightarrow> conf_ok (cs @ [c])"
  by (auto simp: conf_ok_def)

lemma upsert_fresh: "cf_id c \<notin> cf_id ` set cs \<Longrightarrow> upsert c cs = write_all (cs @ [c])"
  by (auto simp: upsert_def find_None_iff image_iff dest!: find_SomeD)

lemma find_has_id_None: "List.find (has_id cid) cs = None \<longleftrightarrow> cid \<notin> cf_id ` set cs"
  by (auto simp: find_None_iff)

lemma map_id_replace [simp]: "map cf_id (update_first (has_id (cf_id c)) (\<lambda>_. c) cs) = map cf_id cs"
  by (induction cs) auto

lemma conf_ok_upsert: "conf_ok cs \<Longrightarrow> conf_ok (upsert c cs)"
  by (cases "List.find (has_id (cf_id c)) cs = None")
    (simp_all add: upsert_def find_has_id_None conf_ok_fresh, simp add: conf_ok_def)

lemma get_append: "store_get (cs @ [c]) k =
    (case store_get cs k of None \<Rightarrow> if cf_id c = k then Some c else None | Some d \<Rightarrow> Some d)"
  by (auto simp: store_get_def find_append split: option.splits)

lemma get_upsert:
  assumes "conf_ok cs"
  shows "store_get (upsert c cs) k = (if k = cf_id c then Some c else store_get cs k)"
proof (cases "List.find (has_id (cf_id c)) cs = None")
  case True
  then have "conf_ok (cs @ [c])" using assms by (simp add: conf_ok_fresh find_has_id_None)
  moreover have "store_get cs (cf_id c) = None" using True by (simp add: store_get_def)
  ultimately show ?thesis
    using True by (auto simp: upsert_def get_append split: option.splits)
next
  case False
  have "conf_ok (update_first (has_id (cf_id c)) (\<lambda>_. c) cs)"
    using assms by (simp add: conf_ok_def)
  moreover have "store_get (update_first (has_id (cf_id c)) (\<lambda>_. c) cs) k =
      (if k = cf_id c then Some c else store_get cs k)"
    using False by (induction cs) (auto simp: store_get_def)
  ultimately show ?thesis using False by (simp add: upsert_def)
qed

interpretation confirmations:
  keyed_store store_get "\<lambda>_. upsert" "\<lambda>k c. cf_id c = k" conf_ok
  by unfold_locales (auto simp: get_upsert conf_ok_upsert)

subsection \<open>Runs of the manager\<close>

text \<open>
  Any operation may be called at any time, by any caller. The identifiers drawn for new records are
  not in use (\<^verbatim>\<open>uuid4\<close>).
\<close>

definition fresh_id :: "string \<Rightarrow> ConfirmationManager \<Rightarrow> bool" where
  "fresh_id i m = (i \<notin> cf_id ` set (cm_store m))"

inductive conf_step :: "ConfirmationManager \<Rightarrow> ConfirmationManager \<Rightarrow> bool" where
  create: "fresh_id i m \<Longrightarrow>
     conf_step m (fst (create_from_action_decision i now req dec md payload ikey m))"
| approval: "fresh_id i m \<Longrightarrow>
     conf_step m (fst (create_tool_approval i now tool prmpt rsn who trig rsk scp session md payload ikey owner m))"
| reply: "conf_step m (fst (resolve_user_reply U cid txt now caller m))"
| sweep: "conf_step m (fst (expire_old now m))"
| consume: "conf_step m (fst (claim_consumption cid now kinds m))"
| expire_one: "conf_step m (fst (expire_confirmation_if_needed cid now m))"
| retry: "fresh_id i m \<Longrightarrow> conf_step m (fst (retry_confirmation i cid who now m))"

lemma log_confirmation_store [simp]: "cm_store (log_confirmation e m) = cm_store m"
  by (simp add: log_confirmation_def)

lemma settle_store: "cm_store (settle c st d r now m) =
    write_all (update_first (has_id (cf_id c)) (\<lambda>c. c\<lparr>cf_status := st\<rparr>) (cm_store m))"
  by (simp add: settle_def)

text \<open>Each operation either leaves the store, changes the first record of an identifier, or adds one.\<close>

definition adds_one :: "string \<Rightarrow> conf_store \<Rightarrow> conf_store \<Rightarrow> bool" where
  "adds_one i cs ds \<longleftrightarrow> ds = cs \<or> (\<exists>c. cf_id c = i \<and> ds = write_all (cs @ [c]))"

lemma adds_one_refl [simp]: "adds_one i cs cs"
  by (simp add: adds_one_def)

lemma adds_one_new: "cf_id c = i \<Longrightarrow> adds_one i cs (write_all (cs @ [c]))"
  by (auto simp: adds_one_def)

lemma adds_one_upsert: "i \<notin> cf_id ` set cs \<Longrightarrow> cf_id c = i \<Longrightarrow> adds_one i cs (upsert c cs)"
  by (simp add: upsert_fresh adds_one_new)

lemma create_store:
  "fresh_id i m \<Longrightarrow> adds_one i (cm_store m)
     (cm_store (fst (create_from_action_decision i now req dec md payload ikey m)))"
  by (simp add: create_from_action_decision_def Let_def fresh_id_def adds_one_upsert)

lemma approval_store:
  "fresh_id i m \<Longrightarrow> adds_one i (cm_store m)
     (cm_store (fst (create_tool_approval i now tool p rsn who trig rsk scp session md payload ikey owner m)))"
  by (simp add: create_tool_approval_def Let_def fresh_id_def adds_one_upsert split: option.splits)

lemma retry_store:
  "adds_one i (cm_store m) (cm_store (fst (retry_confirmation i cid who now m)))"
  by (simp add: retry_confirmation_def retried_request_def Let_def adds_one_new split: option.splits)

definition reply_transition ::
    "unicode \<Rightarrow> utext \<Rightarrow> int \<Rightarrow> string option \<Rightarrow> ConfirmationRequest \<Rightarrow> conf_status option" where
  "reply_transition U txt now caller c =
     (if is_expired c now then Some ExpiredStatus
      else if cf_kind c = NotifyOnly \<or> cf_status c \<noteq> Pending \<or> owner_mismatch c caller then None
      else (case classify_reply U txt of
              Confirmed \<Rightarrow> Some ConfirmedOnce | Rejected \<Rightarrow> Some RejectedStatus
            | Persistent \<Rightarrow> Some ConfirmedPersistent | Unclear \<Rightarrow> None))"

definition apply_status :: "conf_status option \<Rightarrow> ConfirmationRequest \<Rightarrow> ConfirmationRequest" where
  "apply_status x c = (case x of None \<Rightarrow> c | Some st \<Rightarrow> c\<lparr>cf_status := st\<rparr>)"

lemma reply_store:
  "cm_store (fst (resolve_user_reply U cid txt now caller m)) =
     (case store_get (cm_store m) cid of None \<Rightarrow> cm_store m
      | Some c \<Rightarrow> (case reply_transition U txt now caller c of None \<Rightarrow> cm_store m
          | Some st \<Rightarrow> write_all (update_first (has_id (cf_id c)) (\<lambda>c. c\<lparr>cf_status := st\<rparr>) (cm_store m))))"
  by (simp add: resolve_user_reply_def store_get_def reply_transition_def settle_store Let_def
      split: option.splits reply_class.splits)

lemma sweep_store:
  "cm_store (fst (expire_old now m)) =
     (let st = map (\<lambda>c. if expirable now c then mark_expired c else c) (cm_store m) in
      if filter (expirable now) (cm_store m) \<noteq> [] then write_all st else cm_store m)"
  by (simp add: expire_old_def Let_def)

lemma consume_store:
  "cm_store (fst (claim_consumption cid now kinds m)) = fst (store_claim_consumption cid now kinds (cm_store m))"
  "snd (claim_consumption cid now kinds m) = snd (store_claim_consumption cid now kinds (cm_store m))"
  by (simp_all add: claim_consumption_def split_beta Let_def split: option.splits)

lemma expire_one_store:
  "cm_store (fst (expire_confirmation_if_needed cid now m)) = fst (store_expire_if_needed cid now (cm_store m))"
  "snd (expire_confirmation_if_needed cid now m) = snd (store_expire_if_needed cid now (cm_store m))"
  by (simp_all add: expire_confirmation_if_needed_def split_beta Let_def split: option.splits)

lemmas op_stores = create_store approval_store retry_store reply_store sweep_store consume_store
  expire_one_store

definition good_change :: "conf_store \<Rightarrow> conf_store \<Rightarrow> bool" where
  "good_change cs ds \<longleftrightarrow> conf_ok ds \<and> keeps_marks cs ds"

lemma good_same [intro]: "conf_ok cs \<Longrightarrow> good_change cs cs"
  by (simp add: good_change_def)

lemma good_append [intro]: "conf_ok cs \<Longrightarrow> cf_id c \<notin> cf_id ` set cs \<Longrightarrow> good_change cs (write_all (cs @ [c]))"
  by (simp add: good_change_def conf_ok_fresh)

lemma good_adds_one: "conf_ok cs \<Longrightarrow> i \<notin> cf_id ` set cs \<Longrightarrow> adds_one i cs ds \<Longrightarrow> good_change cs ds"
  by (auto simp: adds_one_def)

lemma good_update:
  assumes "conf_ok cs" "\<And>c. cf_id (f c) = cf_id c"
    and "\<And>c. c \<in> set cs \<Longrightarrow> cf_id c = cid \<Longrightarrow> cf_consumed_at c = None \<or> cf_consumed_at (f c) = cf_consumed_at c"
  shows "good_change cs (write_all (update_first (has_id cid) f cs))"
  unfolding good_change_def keeps_write_all conf_ok_write_all
proof
  show "conf_ok (update_first (has_id cid) f cs)" using assms by (simp add: conf_ok_update_first)
  show "keeps_marks cs (update_first (has_id cid) f cs)"
    using assms(3) by (intro keeps_update_first assms(2)) simp
qed

lemma step_good_change:
  assumes "conf_step m m'" and ok: "conf_ok (cm_store m)"
  shows "good_change (cm_store m) (cm_store m')"
  using assms(1)
proof cases
  case (create i now req dec md payload ikey)
  then show ?thesis using create_store [OF create(2)] ok by (auto simp: fresh_id_def intro: good_adds_one)
next
  case (approval i now tool prmpt rsn who trig rsk scp session md payload ikey owner)
  then show ?thesis using approval_store [OF approval(2)] ok by (auto simp: fresh_id_def intro: good_adds_one)
next
  case (reply U cid rtext now caller)
  then show ?thesis using ok
    by (auto simp: reply_store intro!: good_update split: option.splits)
next
  case (sweep now)
  then show ?thesis using ok
    by (auto simp: sweep_store Let_def good_change_def conf_ok_map intro!: keeps_map)
next
  case (consume cid now kinds)
  have "c \<in> set (cm_store m) \<Longrightarrow> cf_id c = cid \<Longrightarrow> List.find (has_id cid) (cm_store m) = Some d \<Longrightarrow> c = d" for c d
    using get_iff [OF ok] by (metis option.inject store_get_def)
  then show ?thesis using ok consume
    by (auto simp: consume_store store_claim_consumption_def intro!: good_update split: option.splits)
next
  case (expire_one cid now)
  then show ?thesis using ok
    by (auto simp: expire_one_store store_expire_if_needed_def intro!: good_update split: option.splits)
next
  case (retry i cid who now)
  then show ?thesis using retry_store [of i m cid who now] ok by (auto simp: fresh_id_def intro: good_adds_one)
qed

definition conf_spent :: "string \<Rightarrow> ConfirmationManager \<Rightarrow> bool" where
  "conf_spent cid m = (\<exists>c \<in> set (cm_store m). cf_id c = cid \<and> cf_consumed_at c \<noteq> None)"

lemma claim_iff:
  assumes "conf_ok cs"
  shows "snd (store_claim_consumption cid now kinds cs) = Some r \<longleftrightarrow>
    (\<exists>c. store_get cs cid = Some c \<and> \<not> is_expired c now \<and> cf_kind c \<in> set kinds
       \<and> cf_status c = ConfirmedOnce \<and> cf_consumed_at c = None \<and> r = c\<lparr>cf_consumed_at := Some now\<rparr>)"
  by (auto simp: store_claim_consumption_def store_get_def split: option.splits)

lemma claim_store:
  assumes "conf_ok cs" and "snd (store_claim_consumption cid now kinds cs) = Some r"
  shows "store_get (fst (store_claim_consumption cid now kinds cs)) k =
    (if k = cid then Some r else store_get cs k)"
proof -
  from assms(2) obtain c where c: "store_get cs cid = Some c" "r = c\<lparr>cf_consumed_at := Some now\<rparr>"
    and st: "fst (store_claim_consumption cid now kinds cs)
      = write_all (update_first (has_id cid) (\<lambda>c. c\<lparr>cf_consumed_at := Some now\<rparr>) cs)"
    by (auto simp: store_claim_consumption_def store_get_def split: option.splits if_splits)
  show ?thesis
    using assms(1) c by (simp add: st conf_ok_update_first get_update_first)
qed

lemma claim_spent_none:
  assumes "conf_ok cs" and "\<exists>c \<in> set cs. cf_id c = cid \<and> cf_consumed_at c \<noteq> None"
  shows "snd (store_claim_consumption cid now kinds cs) = None"
proof (rule ccontr)
  assume "snd (store_claim_consumption cid now kinds cs) \<noteq> None"
  then obtain c where c: "store_get cs cid = Some c" "cf_consumed_at c = None"
    using claim_iff [OF assms(1)] by fastforce
  from assms(2) obtain d where "store_get cs cid = Some d" "cf_consumed_at d \<noteq> None"
    using get_iff [OF assms(1)] by blast
  with c show False by simp
qed

interpretation claims: one_shot "\<lambda>(now, kinds). claim_consumption cid now kinds" "conf_spent cid"
    conf_step "\<lambda>m. conf_ok (cm_store m)" for cid
proof unfold_locales
  fix a :: "int \<times> conf_kind list" and s t :: ConfirmationManager and r
  obtain now kinds where a: "a = (now, kinds)" by (cases a)
  assume ok: "conf_ok (cm_store s)"
  show "conf_ok (cm_store (fst ((case a of (now, kinds) \<Rightarrow> claim_consumption cid now kinds) s)))"
    using step_good_change [OF conf_step.consume ok] by (simp add: a good_change_def)
  { assume "(case a of (now, kinds) \<Rightarrow> claim_consumption cid now kinds) s = (t, Some r)"
    then have "snd (claim_consumption cid now kinds s) = Some r" "t = fst (claim_consumption cid now kinds s)"
      by (simp_all add: a)
    then have r: "snd (store_claim_consumption cid now kinds (cm_store s)) = Some r"
      and t: "cm_store t = fst (store_claim_consumption cid now kinds (cm_store s))"
      by (simp_all add: consume_store)
    have "store_get (cm_store t) cid = Some r" using claim_store [OF ok r] by (simp add: t)
    moreover have "cf_consumed_at r \<noteq> None" using r claim_iff [OF ok] by auto
    ultimately show "conf_spent cid t" by (auto simp: conf_spent_def dest: get_id) }
  { assume "conf_spent cid s"
    then show "snd ((case a of (now, kinds) \<Rightarrow> claim_consumption cid now kinds) s) = None"
      using ok claim_spent_none by (simp add: a consume_store conf_spent_def) }
next
  fix s t :: ConfirmationManager assume ok: "conf_ok (cm_store s)" and st: "conf_step s t"
  note g = step_good_change [OF st ok]
  show "conf_ok (cm_store t)" using g by (simp add: good_change_def)
  assume "conf_spent cid s"
  then show "conf_spent cid t" using g
    by (fastforce simp: conf_spent_def good_change_def keeps_marks_def)
qed

subsection \<open>Properties\<close>

text \<open>
  C35. A confirmation is consumed at most once. After a successful claim, no run of any operations of
  the manager - replies, sweeps, retries, new requests, other claims, at any times - leads to a state
  where the same identifier can be claimed again, whatever kinds the claim asks for.
\<close>

theorem confirmation_consumed_once:
  assumes "conf_ok (cm_store m)"
    and "claim_consumption cid now kinds m = (m1, Some c)"
    and "conf_step\<^sup>*\<^sup>* m1 m2"
  shows "snd (claim_consumption cid now' kinds' m2) = None"
  using claims.at_most_once [of m cid "(now, kinds)" m1 c m2 "(now', kinds')"] assms by simp

definition sample_conf :: "string \<Rightarrow> conf_kind \<Rightarrow> conf_status \<Rightarrow> string option \<Rightarrow> ConfirmationRequest" where
  "sample_conf i k st owner = \<lparr>cf_id = i, cf_kind = k, cf_status = st, cf_prompt = ''go?'',
     cf_action = Some ''light.on'', cf_scope = Some ''home'', cf_trigger = Some ''system'',
     cf_risk = Some ''low'', cf_requested_by = None, cf_decision_reason = ''why'',
     cf_presence_status = ''unknown'', cf_related_fact_ids = [], cf_created_at = 0,
     cf_expires_at = 100, cf_requires_presence_empty = False, cf_uses_facts = [],
     cf_action_payload = [], cf_idempotency_key = None, cf_consumed_at = None, cf_metadata = [],
     cf_owner_id = owner\<rparr>"

definition sample_manager :: "conf_store \<Rightarrow> ConfirmationManager" where
  "sample_manager cs = \<lparr>cm_store = cs, cm_config = default_confirmation_config, cm_redact = id,
     cm_prompt = default_prompt id, cm_audit = []\<rparr>"

theorem confirmation_consumed_once_witness:
  "\<exists>m1 c. claim_consumption ''c1'' 10 [ActionConfirmation]
        (sample_manager [sample_conf ''c1'' ActionConfirmation ConfirmedOnce None]) = (m1, Some c)
     \<and> snd (claim_consumption ''c1'' 11 [ActionConfirmation] (fst (expire_old 50 m1))) = None"
proof -
  let ?m = "sample_manager [sample_conf ''c1'' ActionConfirmation ConfirmedOnce None]"
  let ?r = "claim_consumption ''c1'' 10 [ActionConfirmation] ?m"
  have ok: "conf_ok (cm_store ?m)" by (simp add: sample_manager_def conf_ok_def)
  have "snd ?r = Some ((sample_conf ''c1'' ActionConfirmation ConfirmedOnce None)\<lparr>cf_consumed_at := Some 10\<rparr>)"
    by (simp add: consume_store store_claim_consumption_def sample_manager_def sample_conf_def is_expired_def)
  then obtain m1 c where r: "?r = (m1, Some c)" by (metis prod.collapse)
  have "conf_step\<^sup>*\<^sup>* m1 (fst (expire_old 50 m1))" by (rule r_into_rtranclp) (rule conf_step.sweep)
  from confirmation_consumed_once [OF ok r this] r show ?thesis by blast
qed

text \<open>
  A claim succeeds exactly for an unexpired, unconsumed record of an admitted kind that a user
  confirmed once; it then marks that record and changes no other, and a failing claim leaves every
  consumption mark as it was.
\<close>

theorem claim_characterised:
  assumes "conf_ok (cm_store m)"
  shows "(snd (claim_consumption cid now kinds m) = Some r) =
      (\<exists>c. store_get (cm_store m) cid = Some c \<and> \<not> is_expired c now \<and> cf_kind c \<in> set kinds
         \<and> cf_status c = ConfirmedOnce \<and> cf_consumed_at c = None \<and> r = c\<lparr>cf_consumed_at := Some now\<rparr>)
    \<and> (snd (claim_consumption cid now kinds m) = Some r \<longrightarrow>
        store_get (cm_store (fst (claim_consumption cid now kinds m))) k =
          (if k = cid then Some r else store_get (cm_store m) k))"
  using assms by (auto simp: consume_store claim_iff claim_store)

theorem claim_characterised_witness:
  "snd (claim_consumption ''c1'' 10 [ActionConfirmation]
      (sample_manager [sample_conf ''c1'' ActionConfirmation Pending None])) = None
   \<and> snd (claim_consumption ''c1'' 10 [ActionConfirmation]
      (sample_manager [sample_conf ''c1'' ActionConfirmation ConfirmedOnce None]))
      = Some ((sample_conf ''c1'' ActionConfirmation ConfirmedOnce None)\<lparr>cf_consumed_at := Some 10\<rparr>)"
proof -
  have ok: "conf_ok (cm_store (sample_manager [sample_conf ''c1'' ActionConfirmation st None]))" for st
    by (simp add: sample_manager_def conf_ok_def)
  show ?thesis
    by (rule conjI, rule ccontr, use claim_characterised [OF ok [of Pending]] in
        \<open>auto simp: sample_manager_def sample_conf_def store_get_def\<close>,
        use claim_characterised [OF ok [of ConfirmedOnce]] in
        \<open>auto simp: sample_manager_def sample_conf_def store_get_def is_expired_def\<close>)
qed

text \<open>
  The decision table of a reply, as the abstract specification that \<open>resolve_user_reply\<close> implements.
\<close>

definition reply_verdict ::
    "unicode \<Rightarrow> utext \<Rightarrow> int \<Rightarrow> string option \<Rightarrow> ConfirmationRequest option \<Rightarrow> result_decision" where
  "reply_verdict U txt now caller x =
     (case x of None \<Rightarrow> RUnclear
      | Some c \<Rightarrow>
          if is_expired c now then RExpired
          else if cf_kind c = NotifyOnly then RRejected
          else if cf_status c \<noteq> Pending then RUnclear
          else if owner_mismatch c caller then RRejected
          else (case classify_reply U txt of Confirmed \<Rightarrow> RConfirmed | Rejected \<Rightarrow> RRejected
                  | Persistent \<Rightarrow> RPersistent | Unclear \<Rightarrow> RUnclear))"

lemma reply_verdict_result:
  "cr_decision (snd (resolve_user_reply U cid txt now caller m))
     = reply_verdict U txt now caller (store_get (cm_store m) cid)"
  by (simp add: resolve_user_reply_def reply_verdict_def store_get_def mk_result_def Let_def
      split: option.splits reply_class.splits)

lemma reply_lookup:
  assumes "conf_ok (cm_store m)"
  shows "store_get (cm_store (fst (resolve_user_reply U cid txt now caller m))) k =
    (if k = cid then map_option (\<lambda>c. apply_status (reply_transition U txt now caller c) c)
                       (store_get (cm_store m) cid)
     else store_get (cm_store m) k)"
proof (cases "store_get (cm_store m) cid")
  case None
  then show ?thesis by (simp add: reply_store)
next
  case (Some c)
  then have "cf_id c = cid" by (auto dest: get_id)
  with Some assms show ?thesis
    by (simp add: reply_store apply_status_def conf_ok_update_first get_update_first split: option.splits)
qed

text \<open>
  The reply handler implements its decision table: the answer is the verdict of the table for the
  stored record, that record and no other changes, and its status changes exactly as the table's
  transition says.
\<close>

theorem resolve_reply_refines_table:
  assumes "conf_ok (cm_store m)"
  shows "cr_decision (snd (resolve_user_reply U cid rtext now caller m))
      = reply_verdict U rtext now caller (store_get (cm_store m) cid)
    \<and> store_get (cm_store (fst (resolve_user_reply U cid rtext now caller m))) k =
      (if k = cid then map_option (\<lambda>c. apply_status (reply_transition U rtext now caller c) c)
                         (store_get (cm_store m) cid)
       else store_get (cm_store m) k)"
  using reply_verdict_result reply_lookup [OF assms] by simp

theorem resolve_reply_refines_table_witness:
  "cr_decision (snd (resolve_user_reply letters_only ''c1'' (ascii ''yes'') 10 None
      (sample_manager [sample_conf ''c1'' ActionConfirmation Pending None]))) = RConfirmed"
proof -
  have ok: "conf_ok (cm_store (sample_manager [sample_conf ''c1'' ActionConfirmation Pending None]))"
    by (simp add: sample_manager_def conf_ok_def)
  have "classify_reply letters_only (ascii ''yes'') = Confirmed" by code_simp
  with resolve_reply_refines_table [OF ok, of letters_only "''c1''" "ascii ''yes''" 10 None "''c1''"]
  show ?thesis
    by (simp add: reply_verdict_def store_get_def sample_manager_def sample_conf_def is_expired_def
        owner_mismatch_def)
qed

text \<open>
  A caller that identifies itself cannot approve another owner's request: no reply of such a
  caller is read as a confirmation, single or standing, and the request keeps its status unless
  it has expired.
\<close>

theorem owner_protected:
  assumes "conf_ok (cm_store m)" and "store_get (cm_store m) cid = Some c"
    and "cf_owner_id c = Some owner" and "caller \<noteq> owner"
  shows "cr_decision (snd (resolve_user_reply U cid rtext now (Some caller) m)) \<notin> {RConfirmed, RPersistent}
    \<and> store_get (cm_store (fst (resolve_user_reply U cid rtext now (Some caller) m))) cid
        = Some (if is_expired c now then mark_expired c else c)"
proof -
  have mm: "owner_mismatch c (Some caller)" using assms(3,4) by (simp add: owner_mismatch_def)
  show ?thesis
    using assms(2) mm
    by (simp add: reply_verdict_result reply_lookup [OF assms(1)] reply_verdict_def
        reply_transition_def apply_status_def mark_expired_def)
qed

theorem owner_protected_witness:
  "cr_decision (snd (resolve_user_reply letters_only ''c1'' (ascii ''yes'') 10 (Some ''eve'')
      (sample_manager [sample_conf ''c1'' ToolApproval Pending (Some ''ann'')]))) \<notin> {RConfirmed, RPersistent}"
proof -
  let ?m = "sample_manager [sample_conf ''c1'' ToolApproval Pending (Some ''ann'')]"
  have "conf_ok (cm_store ?m)" "store_get (cm_store ?m) ''c1'' = Some (sample_conf ''c1'' ToolApproval Pending (Some ''ann''))"
    by (simp_all add: sample_manager_def conf_ok_def store_get_def sample_conf_def)
  from owner_protected [OF this, of "''ann''" "''eve''" letters_only "ascii ''yes''" 10]
  show ?thesis by (simp add: sample_conf_def)
qed

lemma retry_lookup:
  assumes "store_get (cm_store m) cid = Some c" and "retry_allowed c"
    and "retry_count_of c = Some n" and "n < 3"
  shows "snd (retry_confirmation i cid who now m)
    = Inr (retried_request (cm_redact m) (cm_config m) i who (n + 1) now c)"
  using assms by (simp add: retry_confirmation_def store_get_def Let_def)

lemma retried_request_owner: "cf_owner_id (retried_request R cfg i who n now c) = None"
  by (simp add: retried_request_def post_init_def optional_str_def)

lemma retried_request_status: "cf_status (retried_request R cfg i who n now c) = Pending"
  by (simp add: retried_request_def post_init_def)

lemma retried_by:
  assumes "retry_confirmation i cid who now m = (m', Inr r)"
  obtains n c where "r = retried_request (cm_redact m) (cm_config m) i who n now c"
  using assms by (auto simp: retry_confirmation_def Let_def split: option.splits if_splits)

text \<open>
  Retrying loses the owner: the request that a retry creates belongs to nobody, so every caller
  passes its ownership check, whoever owned the request that expired.
\<close>

theorem retry_loses_owner:
  assumes "retry_confirmation i cid who now m = (m', Inr r)"
  shows "cf_owner_id r = None \<and> \<not> owner_mismatch r caller \<and> cf_status r = Pending"
  using assms
  by (auto elim!: retried_by simp: retried_request_owner retried_request_status owner_mismatch_def)

definition expired_owned :: ConfirmationRequest where
  "expired_owned = (sample_conf ''c1'' ToolApproval ExpiredStatus (Some ''ann''))"

theorem retry_loses_owner_witness:
  "\<exists>m' r. retry_confirmation ''c2'' ''c1'' (Some ''eve'') 200 (sample_manager [expired_owned]) = (m', Inr r)
     \<and> cf_owner_id expired_owned = Some ''ann'' \<and> \<not> owner_mismatch r (Some ''eve'')"
proof -
  have "store_get (cm_store (sample_manager [expired_owned])) ''c1'' = Some expired_owned"
    by (simp add: store_get_def sample_manager_def expired_owned_def sample_conf_def)
  moreover have "retry_allowed expired_owned"
    by (simp add: retry_allowed_def expired_owned_def sample_conf_def)
  moreover have "retry_count_of expired_owned = Some 0"
    unfolding retry_count_of_def md_get_def expired_owned_def sample_conf_def by code_simp
  ultimately obtain m' r
    where r: "retry_confirmation ''c2'' ''c1'' (Some ''eve'') 200 (sample_manager [expired_owned]) = (m', Inr r)"
    using retry_lookup [of "sample_manager [expired_owned]" "''c1''" expired_owned 0 "''c2''" "Some ''eve''" 200]
    by (metis prod.collapse zero_less_numeral)
  from retry_loses_owner [OF r, of "Some ''eve''"] r show ?thesis
    by (auto simp: expired_owned_def sample_conf_def)
qed

text \<open>
  A rejection does not last: once the time to live of a rejected, unconsumed request has passed,
  looking it up for execution turns its status into expired, and the request that the user rejected
  can then be retried like one that was never answered.
\<close>

theorem rejected_becomes_retryable:
  assumes "conf_ok (cm_store m)" and "store_get (cm_store m) cid = Some c"
    and "cf_status c = RejectedStatus" and "is_expired c now"
    and "retry_allowed (mark_expired c)" and "retry_count_of c = Some n" and "n < 3"
  shows "snd (retry_confirmation i cid who now m) = Inl (ValueError ''retry_not_allowed'')
    \<and> (\<exists>r. snd (retry_confirmation i cid who now (fst (expire_confirmation_if_needed cid now m))) = Inr r
         \<and> cf_action r = cf_action c \<and> cf_status r = Pending)"
proof -
  have id: "cf_id c = cid" using assms(2) by (auto dest: get_id)
  have no: "\<not> retry_allowed c" using assms(3) by (simp add: retry_allowed_def)
  let ?m = "fst (expire_confirmation_if_needed cid now m)"
  have "store_get (cm_store ?m) cid = Some (mark_expired c)"
    using assms(1,2,4) by (simp add: expire_one_store store_expire_if_needed_def
      conf_ok_update_first get_update_first flip: store_get_def)
  moreover have "retry_count_of (mark_expired c) = Some n"
    using assms(6) by (simp add: retry_count_of_def md_get_def mark_expired_def)
  ultimately have "snd (retry_confirmation i cid who now ?m)
      = Inr (retried_request (cm_redact ?m) (cm_config ?m) i who (n + 1) now (mark_expired c))"
    using assms(5,7) by (intro retry_lookup)
  then show ?thesis using assms(2) no
    by (simp add: retry_confirmation_def store_get_def retried_request_def post_init_def mark_expired_def)
qed

lemma sample_conf_action: "cf_action (sample_conf cid kind st who) = Some ''light.on''"
  by (simp add: sample_conf_def)

theorem rejected_becomes_retryable_witness:
  "\<exists>r. snd (retry_confirmation ''c2'' ''c1'' None 200 (fst (expire_confirmation_if_needed ''c1'' 200
        (sample_manager [sample_conf ''c1'' ActionConfirmation RejectedStatus None])))) = Inr r
     \<and> cf_action r = Some ''light.on''"
proof -
  let ?c = "sample_conf ''c1'' ActionConfirmation RejectedStatus None"
  let ?m = "sample_manager [?c]"
  have a: "conf_ok (cm_store ?m)" "store_get (cm_store ?m) ''c1'' = Some ?c"
    "cf_status ?c = RejectedStatus" "is_expired ?c 200" "retry_allowed (mark_expired ?c)"
    by (simp_all add: sample_manager_def conf_ok_def store_get_def sample_conf_def is_expired_def
        retry_allowed_def mark_expired_def)
  have b: "retry_count_of ?c = Some 0"
    unfolding retry_count_of_def md_get_def sample_conf_def by code_simp
  show ?thesis
    using rejected_becomes_retryable [OF a b, of "''c2''" None] sample_conf_action by auto
qed

lemma sweep_all: "c \<in> set (cm_store (fst (expire_old now m))) \<Longrightarrow> \<not> expirable now c"
  by (auto simp: sweep_store Let_def expirable_def filter_empty_conv split: if_splits)

lemma pending_list_set:
  "set (snd (list_pending_for_owner owner now m)) =
     {c \<in> set (cm_store (fst (expire_old now m))). cf_kind c = ToolApproval \<and> cf_status c = Pending
        \<and> \<not> is_expired c now \<and> cf_owner_id c = owner}"
  by (simp add: list_pending_for_owner_def Let_def)

lemma sweep_image_pending:
  "{c \<in> (\<lambda>c. if expirable now c then mark_expired c else c) ` S. cf_kind c = ToolApproval \<and> cf_status c = Pending
        \<and> \<not> is_expired c now \<and> cf_owner_id c = owner}
   = {c \<in> S. cf_kind c = ToolApproval \<and> cf_status c = Pending
        \<and> \<not> is_expired c now \<and> cf_owner_id c = owner}" (is "?L = ?R")
proof
  show "?L \<subseteq> ?R" by (fastforce split: if_splits)
  show "?R \<subseteq> ?L" by (force simp: expirable_def image_iff)
qed

text \<open>
  The sweep is exact: its count is the number of open records past their time, afterwards no
  record is open past its time, every other record is as before; and the pending list for an owner
  holds exactly that owner's open, unexpired approvals of the swept store, in order of creation.
\<close>

theorem sweep_exact:
  assumes "conf_ok (cm_store m)"
  shows "snd (expire_old now m) = card {c \<in> set (cm_store m). expirable now c}
    \<and> (\<forall>k. store_get (cm_store (fst (expire_old now m))) k =
          map_option (\<lambda>c. if expirable now c then mark_expired c else c) (store_get (cm_store m) k))
    \<and> set (snd (list_pending_for_owner owner now m)) =
        {c \<in> set (cm_store m). cf_kind c = ToolApproval \<and> cf_status c = Pending
           \<and> \<not> is_expired c now \<and> cf_owner_id c = owner}
    \<and> sorted (map (\<lambda>c. (cf_created_at c, cf_id c)) (snd (list_pending_for_owner owner now m)))"
proof (intro conjI allI)
  let ?f = "\<lambda>c. if expirable now c then mark_expired c else c"
  have dist: "distinct (cm_store m)" using assms by (simp add: conf_ok_def distinct_map)
  show "snd (expire_old now m) = card {c \<in> set (cm_store m). expirable now c}"
    using distinct_card [of "filter (expirable now) (cm_store m)"] dist
    by (simp add: expire_old_def Let_def)
  have map_get: "store_get (map ?f cs) k = map_option ?f (store_get cs k)" for cs k
    by (induction cs) (auto simp: store_get_def)
  have same: "filter (expirable now) (cm_store m) = [] \<Longrightarrow> map ?f (cm_store m) = cm_store m"
    by (simp add: filter_empty_conv map_idI)
  have ok: "conf_ok (map ?f (cm_store m))" using assms by (simp add: conf_ok_map)
  show "store_get (cm_store (fst (expire_old now m))) k = map_option ?f (store_get (cm_store m) k)" for k
    using ok same map_get [of "cm_store m" k] by (auto simp: sweep_store Let_def)
  have set_after: "set (cm_store (fst (expire_old now m))) = ?f ` set (cm_store m)"
  proof (cases "filter (expirable now) (cm_store m) = []")
    case True
    then have "set (cm_store m) = ?f ` set (cm_store m)" using same by (metis set_map)
    with True show ?thesis by (simp only: sweep_store Let_def) simp
  next
    case False
    then show ?thesis by (simp only: sweep_store Let_def if_True simp_thms) simp
  qed
  show "set (snd (list_pending_for_owner owner now m)) =
        {c \<in> set (cm_store m). cf_kind c = ToolApproval \<and> cf_status c = Pending
           \<and> \<not> is_expired c now \<and> cf_owner_id c = owner}"
    unfolding pending_list_set set_after by (rule sweep_image_pending)
  show "sorted (map (\<lambda>c. (cf_created_at c, cf_id c)) (snd (list_pending_for_owner owner now m)))"
    by (simp add: list_pending_for_owner_def Let_def write_all_def)
qed

lemma sample_conf_expirable:
  "expirable now (sample_conf cid kind st who) = (st \<in> {Pending, Notified} \<and> 100 \<le> now)"
  by (simp add: expirable_def sample_conf_def is_expired_def)

theorem sweep_exact_witness:
  "snd (expire_old 200 (sample_manager [sample_conf ''c1'' ToolApproval Pending None,
       sample_conf ''c2'' ToolApproval RejectedStatus None])) = 1"
proof -
  let ?a = "sample_conf ''c1'' ToolApproval Pending None"
  let ?b = "sample_conf ''c2'' ToolApproval RejectedStatus None"
  have ok: "conf_ok (cm_store (sample_manager [?a, ?b]))"
    by (simp add: sample_manager_def conf_ok_def sample_conf_def)
  have opened: "expirable 200 ?a" "\<not> expirable 200 ?b" by (simp_all add: sample_conf_expirable)
  have "{c \<in> set (cm_store (sample_manager [a, b])). expirable 200 c} = {a}"
    if "expirable 200 a" "\<not> expirable 200 b" for a b
    using that by (auto simp: sample_manager_def)
  from this [OF opened] show ?thesis using sweep_exact [OF ok, of 200 None] by simp
qed

end
