(* ===== verification/Grants.thy ===== *)
theory Grants
  imports Confirmation
begin

text \<open>
  Capabilities of delegated and scheduled work: the snapshots of \<^verbatim>\<open>security/capabilities.py\<close> and the
  grants of \<^verbatim>\<open>security/grants.py\<close>. Instants are microseconds since the epoch. A stored expiry text
  is the instant it parses to, or a text that does not parse. The store is the list of grants of
  its file; the file lock, the cache over the file and the JSON text of the file are left out.
\<close>

section \<open>Capability snapshots\<close>

record CapabilitySnapshot =
  cs_version :: int
  cs_source :: string
  cs_trigger :: string
  cs_exec :: bool
  cs_read :: bool
  cs_write :: bool
  cs_cross :: bool
  cs_cron :: bool
  cs_spawn :: bool
  cs_domains :: "string list"
  cs_scopes :: "string list"

definition user_turn :: CapabilitySnapshot where
  "user_turn = \<lparr>cs_version = 1, cs_source = ''user_turn'', cs_trigger = ''user_initiated'',
     cs_exec = True, cs_read = True, cs_write = True, cs_cross = False, cs_cron = True, cs_spawn = True,
     cs_domains = [''lighting''], cs_scopes = [''read'']\<rparr>"

definition scheduled_default :: CapabilitySnapshot where
  "scheduled_default = \<lparr>cs_version = 1, cs_source = ''cron'', cs_trigger = ''scheduled'',
     cs_exec = False, cs_read = False, cs_write = False, cs_cross = False, cs_cron = False,
     cs_spawn = False, cs_domains = [], cs_scopes = [''read'']\<rparr>"

definition automation_lighting :: CapabilitySnapshot where
  "automation_lighting = \<lparr>cs_version = 1, cs_source = ''automation'', cs_trigger = ''automation'',
     cs_exec = False, cs_read = False, cs_write = False, cs_cross = False, cs_cron = False,
     cs_spawn = False, cs_domains = [''lighting''], cs_scopes = [''read'']\<rparr>"

definition system_default :: CapabilitySnapshot where
  "system_default = \<lparr>cs_version = 1, cs_source = ''system'', cs_trigger = ''system'',
     cs_exec = False, cs_read = False, cs_write = False, cs_cross = False, cs_cron = False,
     cs_spawn = False, cs_domains = [], cs_scopes = [''read'']\<rparr>"

definition derive_subagent :: "CapabilitySnapshot \<Rightarrow> CapabilitySnapshot" where
  "derive_subagent s =
     \<lparr>cs_version = cs_version s, cs_source = ''subagent'',
      cs_trigger = (if cs_trigger s \<noteq> ''scheduled'' then ''subagent'' else ''scheduled''),
      cs_exec = False, cs_read = cs_read s, cs_write = False, cs_cross = False, cs_cron = False,
      cs_spawn = False, cs_domains = [], cs_scopes = filter (\<lambda>x. x = ''read'') (cs_scopes s)\<rparr>"

definition intersect_capability_snapshots ::
    "CapabilitySnapshot \<Rightarrow> CapabilitySnapshot \<Rightarrow> string option \<Rightarrow> string option \<Rightarrow> CapabilitySnapshot" where
  "intersect_capability_snapshots l r source trigger =
     \<lparr>cs_version = cs_version l, cs_source = opt_or source (cs_source l),
      cs_trigger = opt_or trigger (cs_trigger l),
      cs_exec = (cs_exec l \<and> cs_exec r), cs_read = (cs_read l \<and> cs_read r),
      cs_write = (cs_write l \<and> cs_write r), cs_cross = (cs_cross l \<and> cs_cross r),
      cs_cron = (cs_cron l \<and> cs_cron r), cs_spawn = (cs_spawn l \<and> cs_spawn r),
      cs_domains = sorted_list_of_set (set (cs_domains l) \<inter> set (cs_domains r)),
      cs_scopes = sorted_list_of_set (set (cs_scopes l) \<inter> set (cs_scopes r))\<rparr>"

subsection \<open>The stored form of a snapshot\<close>

definition get_bool :: "json_obj \<Rightarrow> string \<Rightarrow> bool" where
  "get_bool d k = (case dict_get d k of None \<Rightarrow> False | Some j \<Rightarrow> json_truthy j)"

text \<open>
  \<^verbatim>\<open>data.get(k) or default\<close> for a field annotated as a string, and \<^verbatim>\<open>tuple(data.get(k) or ())\<close>
  for one annotated as a tuple of strings: \<open>None\<close> when the stored value is outside the annotated
  type (Python raises, or carries the untyped value along).
\<close>

definition get_str :: "json_obj \<Rightarrow> string \<Rightarrow> string \<Rightarrow> string option" where
  "get_str d k def = (case dict_get d k of None \<Rightarrow> Some def
     | Some j \<Rightarrow> if \<not> json_truthy j then Some def else (case j of JStr s \<Rightarrow> Some s | _ \<Rightarrow> None))"

definition str_of_json :: "json \<Rightarrow> string option" where
  "str_of_json j = (case j of JStr s \<Rightarrow> Some s | _ \<Rightarrow> None)"

definition str_items :: "json \<Rightarrow> string list option" where
  "str_items j = (case j of
       JList xs \<Rightarrow> those (map str_of_json xs)
     | JStr s \<Rightarrow> Some (map (\<lambda>c. [c]) s)
     | JObj kvs \<Rightarrow> Some (map fst kvs)
     | _ \<Rightarrow> None)"

definition get_tuple :: "json_obj \<Rightarrow> string \<Rightarrow> string list option" where
  "get_tuple d k = (case dict_get d k of None \<Rightarrow> Some []
     | Some j \<Rightarrow> if \<not> json_truthy j then Some [] else str_items j)"

definition get_version :: "json_obj \<Rightarrow> int option" where
  "get_version d = (case dict_get d ''version'' of None \<Rightarrow> Some 1
     | Some j \<Rightarrow> if \<not> json_truthy j then Some 1
         else (case j of JInt n \<Rightarrow> Some n | JBool b \<Rightarrow> Some 1 | JStr s \<Rightarrow> parse_int s
               | JFloat s \<Rightarrow> parse_int (takeWhile (\<lambda>c. c \<noteq> CHR ''.'') s) | _ \<Rightarrow> None))"

definition snapshot_to_dict :: "CapabilitySnapshot \<Rightarrow> json_obj" where
  "snapshot_to_dict s =
     [(''version'', JInt (cs_version s)), (''source'', JStr (cs_source s)),
      (''trigger'', JStr (cs_trigger s)), (''can_exec'', JBool (cs_exec s)),
      (''can_read_files'', JBool (cs_read s)), (''can_write_files'', JBool (cs_write s)),
      (''can_send_cross_target'', JBool (cs_cross s)), (''can_create_cron'', JBool (cs_cron s)),
      (''can_spawn'', JBool (cs_spawn s)),
      (''allowed_device_domains'', JList (map JStr (cs_domains s))),
      (''allowed_mcp_scopes'', JList (map JStr (cs_scopes s)))]"

definition snapshot_from_dict :: "json_obj \<Rightarrow> CapabilitySnapshot option" where
  "snapshot_from_dict d =
     (if d = [] then Some scheduled_default
      else case get_version d of None \<Rightarrow> None
       | Some v \<Rightarrow>
          if v \<noteq> 1 then Some scheduled_default
          else (case (get_str d ''source'' ''cron'', get_str d ''trigger'' ''scheduled'',
                      get_tuple d ''allowed_device_domains'', get_tuple d ''allowed_mcp_scopes'') of
                  (Some src, Some trg, Some doms, Some scps) \<Rightarrow>
                    Some \<lparr>cs_version = v, cs_source = src, cs_trigger = trg,
                          cs_exec = get_bool d ''can_exec'', cs_read = get_bool d ''can_read_files'',
                          cs_write = get_bool d ''can_write_files'',
                          cs_cross = get_bool d ''can_send_cross_target'',
                          cs_cron = get_bool d ''can_create_cron'', cs_spawn = get_bool d ''can_spawn'',
                          cs_domains = doms, cs_scopes = scps\<rparr>
                | _ \<Rightarrow> None))"

section \<open>Grants\<close>

datatype stamp = At int | Garbled string

datatype grant_error = OverflowError | GrantTypeError | PolicyDenied string

record CapabilityGrant =
  gr_id :: string
  gr_created_by :: string
  gr_created_at :: int
  gr_expires_at :: "stamp option"
  gr_revoked_at :: "int option"
  gr_source :: string
  gr_exec :: bool
  gr_read :: bool
  gr_write :: bool
  gr_cross :: bool
  gr_cron :: bool
  gr_spawn :: bool
  gr_domains :: "string list"
  gr_scopes :: "string list"
  gr_confirmation_id :: "string option"
  gr_session_key :: "string option"
  gr_tool_name :: "string option"
  gr_purpose :: "string option"
  gr_metadata :: json_obj

definition grant_is_expired :: "CapabilityGrant \<Rightarrow> int \<Rightarrow> bool" where
  "grant_is_expired g now = (case gr_expires_at g of None \<Rightarrow> False
     | Some (Garbled s) \<Rightarrow> s \<noteq> ''''
     | Some (At t) \<Rightarrow> t \<le> now)"

definition grant_is_revoked :: "CapabilityGrant \<Rightarrow> bool" where
  "grant_is_revoked g = (gr_revoked_at g \<noteq> None)"

definition grant_is_active :: "CapabilityGrant \<Rightarrow> int \<Rightarrow> bool" where
  "grant_is_active g now = (\<not> grant_is_revoked g \<and> \<not> grant_is_expired g now)"

definition grant_to_snapshot_for :: "string \<Rightarrow> string \<Rightarrow> CapabilityGrant \<Rightarrow> CapabilitySnapshot" where
  "grant_to_snapshot_for source trigger g =
     \<lparr>cs_version = 1, cs_source = source, cs_trigger = trigger, cs_exec = gr_exec g,
      cs_read = gr_read g, cs_write = gr_write g, cs_cross = gr_cross g, cs_cron = gr_cron g,
      cs_spawn = gr_spawn g, cs_domains = gr_domains g, cs_scopes = gr_scopes g\<rparr>"

definition grant_to_snapshot :: "CapabilityGrant \<Rightarrow> string \<Rightarrow> CapabilitySnapshot" where
  "grant_to_snapshot g trigger = grant_to_snapshot_for ''cron'' trigger g"

definition grant_to_subagent_snapshot :: "CapabilityGrant \<Rightarrow> CapabilitySnapshot" where
  "grant_to_subagent_snapshot g = grant_to_snapshot_for ''subagent'' ''subagent'' g"

subsection \<open>The store\<close>

type_synonym grant_store = "CapabilityGrant list"

definition list_all_grants :: "grant_store \<Rightarrow> CapabilityGrant list" where
  "list_all_grants gs = filter (\<lambda>g. gr_id g \<noteq> '''') gs"

definition grant_dict :: "CapabilityGrant list \<Rightarrow> (string, CapabilityGrant) dict" where
  "grant_dict gs = fold (\<lambda>g d. dict_set (gr_id g) g d) gs []"

definition grant_put :: "CapabilityGrant \<Rightarrow> grant_store \<Rightarrow> grant_store" where
  "grant_put g gs = map snd (dict_set (gr_id g) g (grant_dict (list_all_grants gs)))"

definition grant_get :: "grant_store \<Rightarrow> string \<Rightarrow> CapabilityGrant option" where
  "grant_get gs gid = List.find (\<lambda>g. gr_id g = gid) (list_all_grants gs)"

definition grant_revoke :: "string \<Rightarrow> int \<Rightarrow> grant_store \<Rightarrow> grant_store \<times> bool" where
  "grant_revoke gid at gs =
     (let l = list_all_grants gs in
      if \<exists>g \<in> set l. gr_id g = gid
      then (map (\<lambda>g. if gr_id g = gid then g\<lparr>gr_revoked_at := Some at\<rparr> else g) l, True)
      else (gs, False))"

definition list_active :: "int \<Rightarrow> grant_store \<Rightarrow> CapabilityGrant list" where
  "list_active now gs = filter (\<lambda>g. grant_is_active g now) (list_all_grants gs)"

definition list_active_for_session ::
    "string \<Rightarrow> string option \<Rightarrow> int \<Rightarrow> grant_store \<Rightarrow> CapabilityGrant list" where
  "list_active_for_session session tool now gs =
     (let items = filter (\<lambda>g. grant_is_active g now \<and> gr_session_key g = Some session) (list_all_grants gs)
      in if tool \<noteq> None then filter (\<lambda>g. gr_tool_name g = tool) items else items)"

definition newest :: "CapabilityGrant list \<Rightarrow> CapabilityGrant option" where
  "newest items = (if items = [] then None
     else Some (last (sort_key (\<lambda>g. (gr_created_at g, gr_id g)) items)))"

definition latest_active_for_session ::
    "string \<Rightarrow> string option \<Rightarrow> int \<Rightarrow> grant_store \<Rightarrow> CapabilityGrant option" where
  "latest_active_for_session session tool now gs = newest (list_active_for_session session tool now gs)"

definition latest_active_for_confirmation ::
    "string \<Rightarrow> int \<Rightarrow> grant_store \<Rightarrow> CapabilityGrant option" where
  "latest_active_for_confirmation cid now gs =
     newest (filter (\<lambda>g. grant_is_active g now \<and> gr_confirmation_id g = Some cid) (list_all_grants gs))"

subsection \<open>Redeeming and issuing\<close>

definition snapshot_for_cron_payload ::
    "string option \<Rightarrow> int \<Rightarrow> grant_store \<Rightarrow> grant_error + CapabilitySnapshot" where
  "snapshot_for_cron_payload payload_grant now gs =
     (if \<not> truthy payload_grant then Inr scheduled_default
      else case grant_get gs (the payload_grant) of
          None \<Rightarrow> Inl (PolicyDenied ''capability_grant_missing'')
        | Some g \<Rightarrow>
            if grant_is_revoked g then Inl (PolicyDenied ''capability_grant_revoked'')
            else if grant_is_expired g now then Inl (PolicyDenied ''capability_grant_expired'')
            else Inr (grant_to_snapshot g ''scheduled''))"

definition MICROS :: int where "MICROS = 1000000"

definition TOOL_APPROVAL_GRANT_TTL :: int where "TOOL_APPROVAL_GRANT_TTL = 600 * MICROS"

definition DEFAULT_PERSISTENT_TTL :: int where "DEFAULT_PERSISTENT_TTL = 604800 * MICROS"

definition HIGH_RISK_TOOLS_NO_PERSISTENT :: "string list" where
  "HIGH_RISK_TOOLS_NO_PERSISTENT = [''exec'', ''cron'', ''spawn'']"

text \<open>
  The largest \<^verbatim>\<open>timedelta\<close> (999999999 days and a day less a microsecond) and the last instant of
  year 9999, beyond which the arithmetic of \<^verbatim>\<open>datetime\<close> raises \<^verbatim>\<open>OverflowError\<close>.
\<close>

definition TIMEDELTA_MAX :: int where "TIMEDELTA_MAX = 1000000000 * 86400 * MICROS - 1"
definition DATETIME_MAX :: int where "DATETIME_MAX = 253402300800 * MICROS - 1"

text \<open>
  \<^verbatim>\<open>json.loads\<close> is the argument \<open>loads\<close>; a text it refuses is \<open>None\<close>.
\<close>

definition parse_grant_flags :: "(string \<Rightarrow> json option) \<Rightarrow> ConfirmationRequest \<Rightarrow> json_obj" where
  "parse_grant_flags loads c =
     (case dict_get (cf_action_payload c) ''grant_flags'' of
        None \<Rightarrow> []
      | Some raw \<Rightarrow> if py_strip raw = '''' then []
          else (case loads raw of Some (JObj kvs) \<Rightarrow> kvs | _ \<Rightarrow> []))"

definition requested_ttl :: "int option \<Rightarrow> (string, string) dict \<Rightarrow> int option" where
  "requested_ttl ttl md = (case ttl of Some t \<Rightarrow> Some t
     | None \<Rightarrow> (case dict_get md ''ttl_seconds'' of None \<Rightarrow> None
         | Some s \<Rightarrow> if s = '''' then None else parse_int s))"

definition wants_persistent :: "bool \<Rightarrow> (string, string) dict \<Rightarrow> bool" where
  "wants_persistent flag md =
     (flag \<or> (case dict_get md ''persistent'' of None \<Rightarrow> False | Some s \<Rightarrow> py_lower s = ''true''))"

definition tool_of_md :: "(string, string) dict \<Rightarrow> string" where
  "tool_of_md md = opt_or (dict_get md ''tool_name'') ''''"

definition effective_ttl :: "bool \<Rightarrow> int option \<Rightarrow> (string, string) dict \<Rightarrow> int" where
  "effective_ttl flag ttl md =
     (if wants_persistent flag md \<and> tool_of_md md \<in> set HIGH_RISK_TOOLS_NO_PERSISTENT
      then TOOL_APPROVAL_GRANT_TTL
      else if wants_persistent flag md
      then (case requested_ttl ttl md of
              Some t \<Rightarrow> if 0 < t then max 1 t * MICROS else DEFAULT_PERSISTENT_TTL
            | None \<Rightarrow> DEFAULT_PERSISTENT_TTL)
      else TOOL_APPROVAL_GRANT_TTL)"

definition approval_metadata :: "bool \<Rightarrow> (string, string) dict \<Rightarrow> (string, string) dict" where
  "approval_metadata flag md =
     (if wants_persistent flag md \<and> tool_of_md md \<in> set HIGH_RISK_TOOLS_NO_PERSISTENT
      then dict_set ''persistent_downgraded'' ''true'' (dict_del ''persistent'' md)
      else if wants_persistent flag md then dict_set ''persistent'' ''true'' md
      else md)"

definition grant_creator :: "string option \<Rightarrow> ConfirmationRequest \<Rightarrow> string" where
  "grant_creator who c = opt_or who (opt_or (cf_requested_by c) ''user_confirmation'')"

definition issue_tool_approval_grant ::
    "(string \<Rightarrow> json option) \<Rightarrow> string \<Rightarrow> ConfirmationRequest \<Rightarrow> string option \<Rightarrow> int \<Rightarrow> int option
     \<Rightarrow> bool \<Rightarrow> grant_store \<Rightarrow> grant_error + grant_store \<times> CapabilityGrant" where
  "issue_tool_approval_grant loads new_id c approved_by now ttl persistent gs =
     (case latest_active_for_confirmation (cf_id c) now gs of
        Some g \<Rightarrow> Inr (gs, g)
      | None \<Rightarrow>
          let flags = parse_grant_flags loads c;
              md0 = dict_set ''confirmation_kind'' (kind_text (cf_kind c)) (cf_metadata c);
              ttl_us = effective_ttl persistent ttl md0;
              md = approval_metadata persistent md0
          in if TIMEDELTA_MAX < ttl_us \<or> DATETIME_MAX < now + ttl_us then Inl OverflowError
             else case (get_tuple flags ''allowed_device_domains'', get_tuple flags ''allowed_mcp_scopes'') of
                (Some doms, Some scps) \<Rightarrow>
                  let g = \<lparr>gr_id = ''grant_'' @ new_id, gr_created_by = grant_creator approved_by c,
                           gr_created_at = now, gr_expires_at = Some (At (now + ttl_us)),
                           gr_revoked_at = None, gr_source = ''user_confirmation'',
                           gr_exec = get_bool flags ''can_exec'', gr_read = get_bool flags ''can_read_files'',
                           gr_write = get_bool flags ''can_write_files'',
                           gr_cross = get_bool flags ''can_send_cross_target'',
                           gr_cron = get_bool flags ''can_create_cron'',
                           gr_spawn = get_bool flags ''can_spawn'', gr_domains = doms, gr_scopes = scps,
                           gr_confirmation_id = Some (cf_id c), gr_session_key = dict_get md ''session_key'',
                           gr_tool_name = dict_get md ''tool_name'',
                           gr_purpose = Some (''tool_approval:'' @
                             opt_or (dict_get md ''tool_name'') (opt_or (cf_action c) ''unknown'')),
                           gr_metadata = dict_merge (json_of_strings md) flags\<rparr>
                  in Inr (grant_put g gs, g)
              | _ \<Rightarrow> Inl GrantTypeError)"

definition issue_override ::
    "string \<Rightarrow> ConfirmationRequest \<Rightarrow> string \<Rightarrow> string \<Rightarrow> string \<Rightarrow> string option \<Rightarrow> int \<Rightarrow> grant_store
     \<Rightarrow> grant_error + grant_store \<times> CapabilityGrant" where
  "issue_override new_id c action_kind target digest approved_by now gs =
     (if DATETIME_MAX < now + TOOL_APPROVAL_GRANT_TTL then Inl OverflowError
      else let md = dict_set ''reason_digest'' (py_strip digest)
                 (dict_set ''target_id'' (py_strip target)
                   (dict_set ''action_kind'' (py_strip action_kind) (cf_metadata c)));
               g = \<lparr>gr_id = ''grant_'' @ new_id, gr_created_by = grant_creator approved_by c,
                    gr_created_at = now, gr_expires_at = Some (At (now + TOOL_APPROVAL_GRANT_TTL)),
                    gr_revoked_at = None, gr_source = ''user_confirmation'', gr_exec = False,
                    gr_read = False, gr_write = False, gr_cross = False, gr_cron = False,
                    gr_spawn = False, gr_domains = [], gr_scopes = [],
                    gr_confirmation_id = Some (cf_id c), gr_session_key = dict_get md ''session_key'',
                    gr_tool_name = Some ''originagent_evolution_control'',
                    gr_purpose = Some ''evolution_override'', gr_metadata = json_of_strings md\<rparr>
           in Inr (grant_put g gs, g))"

definition issue_evolution_override_grant ::
    "string \<Rightarrow> ConfirmationRequest \<Rightarrow> string \<Rightarrow> string \<Rightarrow> string \<Rightarrow> string option \<Rightarrow> int \<Rightarrow> grant_store
     \<Rightarrow> grant_error + grant_store \<times> CapabilityGrant" where
  "issue_evolution_override_grant new_id c action_kind target digest approved_by now gs =
     (case latest_active_for_confirmation (cf_id c) now gs of
        Some g \<Rightarrow> if gr_purpose g = Some ''evolution_override'' then Inr (gs, g) else
          issue_override new_id c action_kind target digest approved_by now gs
      | None \<Rightarrow> issue_override new_id c action_kind target digest approved_by now gs)"

section \<open>Least privilege\<close>

definition snap_le :: "CapabilitySnapshot \<Rightarrow> CapabilitySnapshot \<Rightarrow> bool" where
  "snap_le a b =
     ((cs_exec a \<longrightarrow> cs_exec b) \<and> (cs_read a \<longrightarrow> cs_read b) \<and> (cs_write a \<longrightarrow> cs_write b)
      \<and> (cs_cross a \<longrightarrow> cs_cross b) \<and> (cs_cron a \<longrightarrow> cs_cron b) \<and> (cs_spawn a \<longrightarrow> cs_spawn b)
      \<and> set (cs_domains a) \<subseteq> set (cs_domains b) \<and> set (cs_scopes a) \<subseteq> set (cs_scopes b))"

lemma snap_le_refl [simp, intro]: "snap_le a a"
  by (simp add: snap_le_def)

lemma imp_chain: "P \<longrightarrow> Q \<Longrightarrow> Q \<longrightarrow> R \<Longrightarrow> P \<longrightarrow> R"
  by simp

lemma snap_le_trans: "snap_le a b \<Longrightarrow> snap_le b c \<Longrightarrow> snap_le a c"
  unfolding snap_le_def by (elim conjE, intro conjI) (erule (1) imp_chain subset_trans)+

lemma derive_le: "snap_le (derive_subagent s) s"
  by (simp add: snap_le_def derive_subagent_def subset_eq)

lemma le_intersect_iff:
  "snap_le c (intersect_capability_snapshots a b src trg) = (snap_le c a \<and> snap_le c b)"
  unfolding snap_le_def intersect_capability_snapshots_def
  by (simp add: imp_conjR conj_ac)

lemma intersect_le:
  "snap_le (intersect_capability_snapshots a b src trg) a"
  "snap_le (intersect_capability_snapshots a b src trg) b"
  using le_intersect_iff [of "intersect_capability_snapshots a b src trg" a b src trg] by simp_all

lemma intersect_lists:
  "sorted (cs_domains (intersect_capability_snapshots a b src trg))"
  "distinct (cs_domains (intersect_capability_snapshots a b src trg))"
  "sorted (cs_scopes (intersect_capability_snapshots a b src trg))"
  "distinct (cs_scopes (intersect_capability_snapshots a b src trg))"
  by (simp_all add: intersect_capability_snapshots_def)

text \<open>
  One act of delegation: a subagent's snapshot is derived, or the snapshot is intersected with any
  other one (on either side).
\<close>

inductive delegates :: "CapabilitySnapshot \<Rightarrow> CapabilitySnapshot \<Rightarrow> bool" where
  derive: "delegates s (derive_subagent s)"
| narrow: "delegates s (intersect_capability_snapshots s t src trg)"
| narrow_right: "delegates s (intersect_capability_snapshots t s src trg)"

lemma delegates_le: "delegates s t \<Longrightarrow> snap_le t s"
  by (induction rule: delegates.induct) (rule derive_le, rule intersect_le, rule intersect_le)

interpretation delegation: safe_system "\<lambda>s. s = root" delegates "\<lambda>t. snap_le t root"
  for root
  by unfold_locales (auto intro: snap_le_trans delegates_le)

text \<open>
  C36. Delegation never escalates: whatever chain of subagent derivations and intersections leads
  from one snapshot to another, the later one has no power, device domain or tool scope that the
  first did not have; and one derivation is enough to lose execution, writing, cross-target
  messages, scheduling and spawning for good.
\<close>

theorem delegation_never_escalates:
  assumes "delegates\<^sup>*\<^sup>* root s" and "delegates\<^sup>*\<^sup>* (derive_subagent s) t"
  shows "snap_le s root \<and> snap_le t s
    \<and> \<not> cs_exec t \<and> \<not> cs_write t \<and> \<not> cs_cross t \<and> \<not> cs_cron t \<and> \<not> cs_spawn t
    \<and> cs_domains t = [] \<and> set (cs_scopes t) \<subseteq> {''read''}"
proof -
  have "snap_le s root" using assms(1) by (rule delegation.reachable_inv [OF refl])
  moreover have t: "snap_le t (derive_subagent s)"
    using assms(2) by (rule delegation.reachable_inv [OF refl])
  moreover from t have "snap_le t s" by (rule snap_le_trans [OF _ derive_le])
  ultimately show ?thesis by (auto simp: snap_le_def derive_subagent_def)
qed

theorem delegation_never_escalates_witness:
  "\<not> cs_spawn (intersect_capability_snapshots (derive_subagent user_turn) automation_lighting None None)"
  using delegation_never_escalates
    [of user_turn user_turn "intersect_capability_snapshots (derive_subagent user_turn) automation_lighting None None"]
  by (auto intro: delegates.intros)

text \<open>
  The intersection is the greatest lower bound: a snapshot is below the intersection exactly
  when it is below both, so the order of the two sides does not matter for what may be done, and
  the lists of the intersection are sorted and free of duplicates.
\<close>

theorem intersection_is_meet:
  "snap_le c (intersect_capability_snapshots a b src trg) = (snap_le c a \<and> snap_le c b)
   \<and> snap_le (intersect_capability_snapshots a b src trg) (intersect_capability_snapshots b a src' trg')
   \<and> sorted (cs_domains (intersect_capability_snapshots a b src trg))
   \<and> distinct (cs_domains (intersect_capability_snapshots a b src trg))
   \<and> sorted (cs_scopes (intersect_capability_snapshots a b src trg))
   \<and> distinct (cs_scopes (intersect_capability_snapshots a b src trg))"
  by (simp add: le_intersect_iff intersect_le intersect_lists)

subsection \<open>The stored form\<close>

lemma those_map_Some: "those (map (\<lambda>x. Some (f x)) xs) = Some (map f xs)"
  by (induction xs) auto

lemma str_items_strings: "str_items (JList (map JStr xs)) = Some xs"
  using those_map_Some [of "\<lambda>x. x" xs] by (simp add: str_items_def comp_def str_of_json_def)

text \<open>
  A snapshot survives its round trip through the job file, and reading fails safe: an absent
  snapshot or one of another version is read as the scheduled default, which may do nothing but
  call read-only tools.
\<close>

theorem snapshot_round_trip:
  assumes "cs_source s \<noteq> ''''" and "cs_trigger s \<noteq> ''''"
  shows "snapshot_from_dict (snapshot_to_dict s) =
      Some (if cs_version s \<in> {0, 1} then s\<lparr>cs_version := 1\<rparr> else scheduled_default)
    \<and> snapshot_from_dict [] = Some scheduled_default"
proof -
  have tup: "get_tuple (snapshot_to_dict s) ''allowed_device_domains'' = Some (cs_domains s)"
    "get_tuple (snapshot_to_dict s) ''allowed_mcp_scopes'' = Some (cs_scopes s)"
    by (simp_all add: get_tuple_def snapshot_to_dict_def str_items_strings)
  have str: "get_str (snapshot_to_dict s) ''source'' ''cron'' = Some (cs_source s)"
    "get_str (snapshot_to_dict s) ''trigger'' ''scheduled'' = Some (cs_trigger s)"
    using assms by (simp_all add: get_str_def snapshot_to_dict_def)
  have ver: "get_version (snapshot_to_dict s) = Some (if cs_version s = 0 then 1 else cs_version s)"
    by (simp add: get_version_def snapshot_to_dict_def)
  have bools: "get_bool (snapshot_to_dict s) ''can_exec'' = cs_exec s"
    "get_bool (snapshot_to_dict s) ''can_read_files'' = cs_read s"
    "get_bool (snapshot_to_dict s) ''can_write_files'' = cs_write s"
    "get_bool (snapshot_to_dict s) ''can_send_cross_target'' = cs_cross s"
    "get_bool (snapshot_to_dict s) ''can_create_cron'' = cs_cron s"
    "get_bool (snapshot_to_dict s) ''can_spawn'' = cs_spawn s"
    by (simp_all add: get_bool_def snapshot_to_dict_def)
  have "snapshot_to_dict s \<noteq> []" by (simp add: snapshot_to_dict_def)
  then show ?thesis by (auto simp: snapshot_from_dict_def tup str ver bools)
qed

theorem snapshot_round_trip_witness:
  "snapshot_from_dict (snapshot_to_dict user_turn) = Some user_turn"
  using snapshot_round_trip [of user_turn] by (simp add: user_turn_def)

section \<open>The grant store\<close>

definition grants_ok :: "grant_store \<Rightarrow> bool" where
  "grants_ok gs = distinct (map gr_id (list_all_grants gs))"

definition keyed_by_id :: "(string, CapabilityGrant) dict \<Rightarrow> bool" where
  "keyed_by_id d = (dict_ok d \<and> (\<forall>(k, g) \<in> set d. k = gr_id g \<and> gr_id g \<noteq> ''''))"

lemma grant_dict_map: "distinct (map gr_id gs) \<Longrightarrow> grant_dict gs = map (\<lambda>g. (gr_id g, g)) gs"
  unfolding grant_dict_def by (rule fold_dict_set_distinct)

lemma find_values:
  "\<forall>(k, g) \<in> set d. k = f g \<Longrightarrow> List.find (\<lambda>g. f g = k') (map snd d) = map_of d k'"
  by (induction d) auto

lemma find_map_keep:
  "(\<And>x. f (h x) = f x) \<Longrightarrow> List.find (\<lambda>g. f g = k) (map h xs) = map_option h (List.find (\<lambda>g. f g = k) xs)"
  by (induction xs) auto

lemma list_all_values: "keyed_by_id d \<Longrightarrow> list_all_grants (map snd d) = map snd d"
  by (auto simp: list_all_grants_def keyed_by_id_def filter_id_conv)

lemma ids_values: "keyed_by_id d \<Longrightarrow> map gr_id (map snd d) = map fst d"
  by (auto simp: keyed_by_id_def)

lemma stored_dict:
  "grants_ok gs \<Longrightarrow> keyed_by_id (grant_dict (list_all_grants gs))"
  by (auto simp: grants_ok_def grant_dict_map keyed_by_id_def list_all_grants_def comp_def)

lemma keyed_set: "keyed_by_id d \<Longrightarrow> gr_id g \<noteq> '''' \<Longrightarrow> keyed_by_id (dict_set (gr_id g) g d)"
  unfolding keyed_by_id_def
  by (intro conjI distinct_update dict_set_entries) simp_all

lemma get_of_dict: "grants_ok gs \<Longrightarrow> grant_get gs k = dict_get (grant_dict (list_all_grants gs)) k"
  by (simp add: grant_get_def grants_ok_def grant_dict_map find_as_map_of)

lemma get_put:
  assumes "grants_ok gs" and "gr_id g \<noteq> ''''"
  shows "grant_get (grant_put g gs) k = (if k = gr_id g then Some g else grant_get gs k)"
    and "grants_ok (grant_put g gs)"
proof -
  let ?d = "dict_set (gr_id g) g (grant_dict (list_all_grants gs))"
  have d: "keyed_by_id ?d" using assms by (intro keyed_set stored_dict)
  have "grant_get (grant_put g gs) k = List.find (\<lambda>g. gr_id g = k) (map snd ?d)"
    using list_all_values [OF d] by (simp only: grant_get_def grant_put_def)
  also have "\<dots> = dict_get ?d k"
    using d by (intro find_values) (auto simp: keyed_by_id_def)
  finally show "grant_get (grant_put g gs) k = (if k = gr_id g then Some g else grant_get gs k)"
    by (simp add: dict_get_set get_of_dict [OF assms(1)])
  show "grants_ok (grant_put g gs)"
    using d list_all_values [OF d] ids_values [OF d]
    by (simp only: grants_ok_def grant_put_def) (simp add: keyed_by_id_def)
qed

interpretation grants: keyed_store grant_get "\<lambda>k g. grant_put g"
    "\<lambda>k g. gr_id g = k \<and> k \<noteq> ''''" grants_ok
  by unfold_locales (auto simp: get_put)

lemma put_fresh:
  assumes "grants_ok gs" and "grant_get gs (gr_id g) = None" and "gr_id g \<noteq> ''''"
  shows "list_all_grants (grant_put g gs) = list_all_grants gs @ [g]"
proof -
  have d: "keyed_by_id (dict_set (gr_id g) g (grant_dict (list_all_grants gs)))"
    using assms by (intro keyed_set stored_dict)
  have "gr_id g \<notin> fst ` set (grant_dict (list_all_grants gs))"
    using assms(1,2) by (simp add: get_of_dict map_of_eq_None_iff)
  then show ?thesis
    using assms(1) list_all_values [OF d]
    by (simp add: grant_put_def update_new) (simp add: grants_ok_def grant_dict_map comp_def)
qed

lemma list_all_idem [simp]: "list_all_grants (list_all_grants gs) = list_all_grants gs"
  by (simp add: list_all_grants_def)

lemma revoke_list:
  "list_all_grants (fst (grant_revoke gid at gs)) =
     map (\<lambda>g. if gr_id g = gid then g\<lparr>gr_revoked_at := Some at\<rparr> else g) (list_all_grants gs)"
proof (cases "\<exists>g \<in> set (list_all_grants gs). gr_id g = gid")
  case True
  then show ?thesis
    by (auto simp: grant_revoke_def Let_def) (auto simp: list_all_grants_def filter_id_conv)
next
  case False
  then have "map (\<lambda>g. if gr_id g = gid then g\<lparr>gr_revoked_at := Some at\<rparr> else g) (list_all_grants gs)
      = list_all_grants gs" by (intro map_idI) auto
  with False show ?thesis by (auto simp: grant_revoke_def Let_def)
qed

lemma revoke_get:
  "grant_get (fst (grant_revoke gid at gs)) k =
     map_option (\<lambda>g. if gr_id g = gid then g\<lparr>gr_revoked_at := Some at\<rparr> else g) (grant_get gs k)"
  unfolding grant_get_def revoke_list by (rule find_map_keep) simp

lemma revoke_ok: "grants_ok gs \<Longrightarrow> grants_ok (fst (grant_revoke gid at gs))"
  unfolding grants_ok_def revoke_list by (simp add: comp_def if_distrib cong: if_cong)

definition sample_grant :: "string \<Rightarrow> CapabilityGrant" where
  "sample_grant i = \<lparr>gr_id = i, gr_created_by = ''user'', gr_created_at = 0, gr_expires_at = Some (At 10),
     gr_revoked_at = None, gr_source = ''user_confirmation'', gr_exec = False, gr_read = True,
     gr_write = False, gr_cross = False, gr_cron = False, gr_spawn = False, gr_domains = [],
     gr_scopes = [''read''], gr_confirmation_id = None, gr_session_key = None, gr_tool_name = None,
     gr_purpose = None, gr_metadata = []\<rparr>"

subsection \<open>What the store promises its users\<close>

text \<open>
  The operations other components run on the store: issuing a grant under an id that is not in use
  (the code draws it at random) and revoking one.
\<close>

inductive grant_step :: "grant_store \<Rightarrow> grant_store \<Rightarrow> bool" where
  issue: "grant_get gs (gr_id g) = None \<Longrightarrow> gr_id g \<noteq> [] \<Longrightarrow> grant_step gs (grant_put g gs)"
| revoke: "grant_step gs (fst (grant_revoke gid at gs))"

definition dead_grant :: "string \<Rightarrow> grant_store \<Rightarrow> bool" where
  "dead_grant gid gs = (grants_ok gs \<and> (\<exists>g. grant_get gs gid = Some g \<and> grant_is_revoked g))"

lemma revoke_dead: "grant_is_revoked g \<Longrightarrow> grant_is_revoked (g\<lparr>gr_revoked_at := Some at\<rparr>)"
  by (simp add: grant_is_revoked_def)

lemma dead_step: "dead_grant gid gs \<Longrightarrow> grant_step gs gs' \<Longrightarrow> dead_grant gid gs'"
  by (auto simp: dead_grant_def get_put revoke_get revoke_ok grant_is_revoked_def elim!: grant_step.cases)

interpretation dead_grants: safe_system "dead_grant gid" grant_step "dead_grant gid" for gid
  by unfold_locales (auto intro: dead_step)

text \<open>
  Redeeming a grant for a scheduled job succeeds exactly for a stored grant that is neither
  revoked nor expired, and gives the job that grant's powers and no others; a job without a grant
  gets the scheduled default; the three refusals are told apart by their policy rule.
\<close>

theorem cron_redeem_characterised:
  "(snapshot_for_cron_payload gid now gs = Inr s) =
     (if truthy gid then (\<exists>g. grant_get gs (the gid) = Some g \<and> grant_is_active g now
          \<and> s = grant_to_snapshot g ''scheduled'')
      else s = scheduled_default)
   \<and> (snapshot_for_cron_payload (Some k) now gs = Inl (PolicyDenied ''capability_grant_missing'')) =
       (k \<noteq> [] \<and> grant_get gs k = None)
   \<and> (snapshot_for_cron_payload (Some k) now gs = Inl (PolicyDenied ''capability_grant_revoked'')) =
       (k \<noteq> [] \<and> (\<exists>g. grant_get gs k = Some g \<and> grant_is_revoked g))"
  by (auto simp: snapshot_for_cron_payload_def grant_is_active_def split: option.splits)

text \<open>
  Revocation is final: once a stored grant has been revoked, no later issue or revocation makes
  it redeemable again, at any time.
\<close>

theorem revoked_stays_denied:
  assumes "grants_ok gs" and "grant_revoke gid at gs = (gs1, True)" and "grant_step\<^sup>*\<^sup>* gs1 gs2"
  shows "snapshot_for_cron_payload (Some gid) now gs2 = Inl (PolicyDenied ''capability_grant_revoked'')
    \<and> gid \<notin> gr_id ` set (list_active now gs2)"
proof -
  from assms(2) have gs1: "gs1 = fst (grant_revoke gid at gs)" and
    here: "\<exists>g \<in> set (list_all_grants gs). gr_id g = gid"
    by (auto simp: grant_revoke_def Let_def split: if_splits)
  then obtain g where g: "g \<in> set (list_all_grants gs)" "gr_id g = gid" by blast
  from find_unique [OF assms(1) [unfolded grants_ok_def] this] g(2)
  have "grant_get gs gid = Some g" and "gr_id g = gid" by (simp_all add: grant_get_def)
  then have "dead_grant gid gs1"
    using assms(1) by (simp add: dead_grant_def gs1 revoke_get revoke_ok grant_is_revoked_def)
  then have dead: "dead_grant gid gs2" using assms(3) by (rule dead_grants.reachable_inv)
  have gid: "gid \<noteq> []" using here by (auto simp: list_all_grants_def)
  obtain h where h: "grant_get gs2 gid = Some h" "grant_is_revoked h" and ok: "grants_ok gs2"
    using dead by (auto simp: dead_grant_def)
  have "x = h" if "x \<in> set (list_all_grants gs2)" "gr_id x = gid" for x
    using find_unique [of gr_id "list_all_grants gs2" x gid] that h ok
    by (simp add: grant_get_def grants_ok_def)
  then have "gid \<notin> gr_id ` set (list_active now gs2)"
    using h(2) by (auto simp: list_active_def grant_is_active_def)
  with h gid show ?thesis by (simp add: snapshot_for_cron_payload_def)
qed

theorem revoked_stays_denied_witness:
  "snapshot_for_cron_payload (Some ''g1'') 5
     (fst (grant_revoke ''g1'' 3 [sample_grant ''g1''])) = Inl (PolicyDenied ''capability_grant_revoked'')"
proof -
  have "grants_ok [sample_grant ''g1'']"
    by (simp add: grants_ok_def list_all_grants_def)
  moreover have "grant_revoke ''g1'' 3 [sample_grant ''g1''] =
      (fst (grant_revoke ''g1'' 3 [sample_grant ''g1'']), True)"
    by (simp add: grant_revoke_def list_all_grants_def sample_grant_def)
  ultimately show ?thesis
    using revoked_stays_denied [OF _ _ rtranclp.rtrancl_refl] by blast
qed

lemma effective_ttl_pos: "0 < effective_ttl flag ttl md"
  by (auto simp: effective_ttl_def TOOL_APPROVAL_GRANT_TTL_def DEFAULT_PERSISTENT_TTL_def MICROS_def
      split: option.splits)

lemma effective_ttl_short:
  "\<not> wants_persistent flag md \<or> tool_of_md md \<in> set HIGH_RISK_TOOLS_NO_PERSISTENT
   \<Longrightarrow> effective_ttl flag ttl md = TOOL_APPROVAL_GRANT_TTL"
  by (auto simp: effective_ttl_def)

lemma kind_key [simp]: "wants_persistent flag (dict_set ''confirmation_kind'' v md) = wants_persistent flag md"
  "tool_of_md (dict_set ''confirmation_kind'' v md) = tool_of_md md"
  by (simp_all add: wants_persistent_def tool_of_md_def dict_get_set)

lemma newest_single [simp]: "newest [g] = Some g" and newest_nil [simp]: "newest [] = None"
  by (simp_all add: newest_def)

lemma newest_in: "newest xs = Some g \<Longrightarrow> g \<in> set xs"
  by (auto simp: newest_def split: if_splits) (metis last_in_set length_0_conv length_sort set_sort)

lemma newest_None: "newest xs = None \<longleftrightarrow> xs = []"
  by (simp add: newest_def)

lemma issued_grant:
  assumes "issue_tool_approval_grant loads i c who now ttl p gs = Inr (gs', g)"
    and "latest_active_for_confirmation (cf_id c) now gs = None"
  shows "gs' = grant_put g gs" and "gr_id g = ''grant_'' @ i" and "gr_revoked_at g = None"
    and "gr_created_at g = now" and "gr_confirmation_id g = Some (cf_id c)"
    and "gr_expires_at g = Some (At (now + effective_ttl p ttl (dict_set ''confirmation_kind'' (kind_text (cf_kind c)) (cf_metadata c))))"
  using assms by (auto simp: issue_tool_approval_grant_def Let_def split: option.splits if_splits)

text \<open>
  An approval grants for a bounded time: a grant newly issued from a confirmation is stored,
  active at once and bound to that confirmation; for the tools that run code, schedule work or
  spawn agents it lives ten minutes whatever was asked for, and so it does for every tool
  unless a standing approval was given; issuing again while it is active returns the same grant
  and leaves the store alone.
\<close>

theorem approval_grant_bounded:
  assumes "grants_ok gs" and "grant_get gs (''grant_'' @ i) = None"
    and "latest_active_for_confirmation (cf_id c) now gs = None"
    and "issue_tool_approval_grant loads i c who now ttl p gs = Inr (gs', g)"
  shows "grant_get gs' (gr_id g) = Some g \<and> grant_is_active g now
    \<and> ((\<not> wants_persistent p (cf_metadata c)
         \<or> tool_of_md (cf_metadata c) \<in> set HIGH_RISK_TOOLS_NO_PERSISTENT)
       \<longrightarrow> gr_expires_at g = Some (At (now + TOOL_APPROVAL_GRANT_TTL)))
    \<and> issue_tool_approval_grant loads j c who' now ttl' p' gs' = Inr (gs', g)"
proof -
  note g = issued_grant [OF assms(4,3)]
  have "gr_id g \<noteq> []" using g(2) by simp
  then have put: "grant_get gs' (gr_id g) = Some g"
    and list: "list_all_grants gs' = list_all_grants gs @ [g]"
    using assms(1,2) g(1,2) by (simp_all add: get_put put_fresh)
  have active: "grant_is_active g now"
    using g(3,6) effective_ttl_pos [of p ttl]
    by (simp add: grant_is_active_def grant_is_revoked_def grant_is_expired_def not_le)
  have "filter (\<lambda>g. grant_is_active g now \<and> gr_confirmation_id g = Some (cf_id c)) (list_all_grants gs) = []"
    using assms(3) by (simp only: latest_active_for_confirmation_def newest_None)
  then have "latest_active_for_confirmation (cf_id c) now gs' = Some g"
    using active g(5) by (simp add: latest_active_for_confirmation_def list)
  then have again: "issue_tool_approval_grant loads j c who' now ttl' p' gs' = Inr (gs', g)"
    by (simp add: issue_tool_approval_grant_def)
  show ?thesis using put active again g(6) by (simp add: effective_ttl_short)
qed

text \<open>An oversized time to live is an uncaught overflow, not a refusal.\<close>

lemma huge_ttl_overflows:
  assumes "latest_active_for_confirmation (cf_id c) now gs = None"
    and "wants_persistent p (cf_metadata c)"
    and "tool_of_md (cf_metadata c) \<notin> set HIGH_RISK_TOOLS_NO_PERSISTENT"
    and "TIMEDELTA_MAX < t * MICROS"
  shows "issue_tool_approval_grant loads i c who now (Some t) p gs = Inl OverflowError"
proof -
  have "0 < t" using assms(4) by (simp add: TIMEDELTA_MAX_def MICROS_def)
  then show ?thesis
    using assms by (simp add: issue_tool_approval_grant_def effective_ttl_def requested_ttl_def)
qed

theorem approval_grant_bounded_witness:
  "\<exists>gs' g. issue_tool_approval_grant (\<lambda>s. None) ''7'' (sample_conf ''c1'' ToolApproval ConfirmedOnce None)
       None 0 None True [] = Inr (gs', g) \<and> grant_get gs' (gr_id g) = Some g"
proof -
  let ?c = "sample_conf ''c1'' ToolApproval ConfirmedOnce None"
  let ?r = "issue_tool_approval_grant (\<lambda>s. None) ''7'' ?c None 0 None True []"
  have none: "latest_active_for_confirmation (cf_id ?c) 0 [] = None"
    by (simp add: latest_active_for_confirmation_def list_all_grants_def)
  have "\<exists>gs' g. ?r = Inr (gs', g)"
    using none by (simp add: issue_tool_approval_grant_def Let_def parse_grant_flags_def get_tuple_def
        latest_active_for_confirmation_def list_all_grants_def sample_conf_def effective_ttl_def wants_persistent_def tool_of_md_def requested_ttl_def
        HIGH_RISK_TOOLS_NO_PERSISTENT_def opt_or_def DEFAULT_PERSISTENT_TTL_def
        TIMEDELTA_MAX_def DATETIME_MAX_def MICROS_def)
  then obtain gs' g where r: "?r = Inr (gs', g)" by blast
  have "grants_ok []" "grant_get [] (''grant_'' @ ''7'') = None"
    by (simp_all add: grants_ok_def list_all_grants_def grant_get_def)
  from approval_grant_bounded [OF this none r] r show ?thesis by blast
qed

end
