(* ===== verification/ActionRuntime.thy ===== *)
theory ActionRuntime
  imports Confirmation
begin

text \<open>
  \<^verbatim>\<open>OriginAgent/agent/action_runtime.py\<close>: the one boundary through which an action reaches a
  backend. \<open>submit\<close> takes an intent through idempotency, simulation, safety gate and permission;
  \<open>resume_confirmed\<close> runs a confirmed one. The executor's collaborators (gate, resolver, simulation
  hook, resume check, backend) are arguments of each call, collected in \<open>ActionEnv\<close>, so that
  they may answer differently from call to call; an exception they raise is the left side of a
  sum. Every call of the backend is kept in \<open>ex_calls\<close>. The audit log is left out.
\<close>

section \<open>Intents, results and the executor's state\<close>

record ActionIntent =
  ai_action :: string
  ai_scope :: string
  ai_trigger :: string
  ai_risk :: string
  ai_requested_by :: "string option"
  ai_requires_presence_empty :: bool
  ai_uses_facts :: "string list"
  ai_payload :: json_obj
  ai_idempotency_key :: "string option"
  ai_session_ref :: "string option"
  ai_world_ref :: "string option"
  ai_facts_ref :: "string list"
  ai_origin :: "string option"
  ai_proposal_digest :: "string option"
  ai_trace_id :: "string option"
  ai_duration_ms :: int
  ai_requires_parallel :: bool

definition to_request :: "ActionIntent \<Rightarrow> ActionRequest" where
  "to_request i = \<lparr>req_action = ai_action i, req_scope = ai_scope i, req_trigger = ai_trigger i,
     req_risk = ai_risk i, req_requested_by = ai_requested_by i,
     req_requires_presence_empty = ai_requires_presence_empty i, req_uses_facts = ai_uses_facts i\<rparr>"

definition sanitized :: "(string \<Rightarrow> string) \<Rightarrow> ActionIntent \<Rightarrow> ActionIntent" where
  "sanitized R i = i\<lparr>ai_payload := json_of_strings (sanitize_action_payload R (ai_payload i))\<rparr>"

record ActionExecutionResult =
  rs_status :: string
  rs_action_id :: string
  rs_reason :: string
  rs_confirmation_id :: "string option"
  rs_decision :: "ActionDecision option"
  rs_backend_result :: "(string, string) dict"
  rs_backend_called :: bool
  rs_permission_status :: "string option"
  rs_real :: bool
  rs_backend_kind :: "string option"
  rs_domain :: "string option"
  rs_sim_status :: "string option"
  rs_sim_trace_id :: "string option"
  rs_sim_risk :: "string option"
  rs_sim_uncertainty :: "string option"

definition mk_exec_result :: "string \<Rightarrow> string \<Rightarrow> string \<Rightarrow> ActionExecutionResult" where
  "mk_exec_result st aid rsn = \<lparr>rs_status = st, rs_action_id = aid, rs_reason = rsn,
     rs_confirmation_id = None, rs_decision = None, rs_backend_result = [], rs_backend_called = False,
     rs_permission_status = None, rs_real = False, rs_backend_kind = None, rs_domain = None,
     rs_sim_status = None, rs_sim_trace_id = None, rs_sim_risk = None, rs_sim_uncertainty = None\<rparr>"

record ActionExecutionRecord =
  rc_action_id :: string
  rc_intent :: ActionIntent
  rc_gate_decision :: string
  rc_status :: string
  rc_created_at :: int
  rc_executed_at :: "int option"
  rc_confirmation_id :: "string option"

record SimulationPrecheck =
  sp_decision :: string
  sp_reason :: string
  sp_prompt_suffix :: "string option"
  sp_trace_id :: string
  sp_status :: string
  sp_risk :: string
  sp_uncertainty :: string

record EpicMotorCommand =
  mc_action_id :: string
  mc_intent :: ActionIntent
  mc_decision :: ActionDecision
  mc_enqueued_at :: int
  mc_ready_at :: int
  mc_duration_ms :: int
  mc_requires_parallel :: bool

record SafeActionExecutor =
  ex_conf :: ConfirmationManager
  ex_keys :: "string set"
  ex_key_file :: "string list"
  ex_records :: "ActionExecutionRecord list"
  ex_queue :: "EpicMotorCommand list option"
  ex_calls :: "ActionIntent list"
  ex_feedback :: "(ActionIntent \<times> ActionExecutionResult) list"

text \<open>
  \<open>env_simulation\<close> is \<open>None\<close> without a hook; a hook that raises answers \<open>None\<close>, since the code
  logs the exception and goes on. \<open>env_create_raises\<close> is the text of an exception raised while a
  confirmation is created. \<open>env_resume_check\<close> is \<open>None\<close> when no resume check is installed.
\<close>

record ActionEnv =
  env_gate :: SafetyGate
  env_resolver :: resolver
  env_backend :: "ActionIntent \<Rightarrow> string + json"
  env_simulation :: "(ActionIntent \<Rightarrow> SimulationPrecheck option) option"
  env_resume_check :: "(ActionIntent \<Rightarrow> ConfirmationRequest \<Rightarrow> int \<Rightarrow> string + ActionDecision option) option"
  env_create_raises :: "string option"

abbreviation ex_redact :: "SafeActionExecutor \<Rightarrow> string \<Rightarrow> string" where
  "ex_redact x \<equiv> cm_redact (ex_conf x)"

section \<open>Idempotency keys\<close>

text \<open>
  \<^verbatim>\<open>SuccessfulActionKeyStore\<close>: the file is the list of its lines' keys (a line that does not parse to
  a key is an empty one). \<open>restart\<close> is a new executor over the same files; its motor queue, if
  it has one, is new too, so what was queued in memory is gone.
\<close>

definition MAX_LOADED :: nat where "MAX_LOADED = 10000"

definition load_keys :: "string list \<Rightarrow> string set" where
  "load_keys file = set (filter (\<lambda>k. k \<noteq> []) (last_n MAX_LOADED file))"

definition restart :: "SafeActionExecutor \<Rightarrow> SafeActionExecutor" where
  "restart x = x\<lparr>ex_keys := load_keys (ex_key_file x), ex_records := [],
     ex_queue := map_option (\<lambda>q. []) (ex_queue x)\<rparr>"

definition already_executed :: "string option \<Rightarrow> SafeActionExecutor \<Rightarrow> bool" where
  "already_executed key x = (case key of None \<Rightarrow> False | Some k \<Rightarrow> k \<noteq> [] \<and> k \<in> ex_keys x)"

definition succeeded :: "ActionExecutionResult \<Rightarrow> bool" where
  "succeeded r = (rs_status r \<in> {''executed'', ''dry_run''})"

definition remember_key ::
    "ActionIntent \<Rightarrow> ActionExecutionResult \<Rightarrow> SafeActionExecutor \<Rightarrow> SafeActionExecutor" where
  "remember_key i r x =
     (case ai_idempotency_key i of
        Some k \<Rightarrow>
          if k \<noteq> [] \<and> succeeded r \<and> k \<notin> ex_keys x
          then x\<lparr>ex_keys := insert k (ex_keys x), ex_key_file := ex_key_file x @ [k]\<rparr> else x
      | None \<Rightarrow> x)"

section \<open>Records, permissions and simulation\<close>

definition record_action ::
    "string \<Rightarrow> ActionIntent \<Rightarrow> ActionDecision \<Rightarrow> ActionExecutionResult \<Rightarrow> int
     \<Rightarrow> SafeActionExecutor \<Rightarrow> SafeActionExecutor" where
  "record_action aid i dec r now x = x\<lparr>ex_records := ex_records x @
     [\<lparr>rc_action_id = aid, rc_intent = i, rc_gate_decision = decision dec, rc_status = rs_status r,
       rc_created_at = now, rc_executed_at = (if succeeded r then Some now else None),
       rc_confirmation_id = rs_confirmation_id r\<rparr>]\<rparr>"

definition record_without_decision ::
    "string \<Rightarrow> ActionIntent \<Rightarrow> ActionExecutionResult \<Rightarrow> int \<Rightarrow> string
     \<Rightarrow> SafeActionExecutor \<Rightarrow> SafeActionExecutor" where
  "record_without_decision aid i r now gate x = x\<lparr>ex_records := ex_records x @
     [\<lparr>rc_action_id = aid, rc_intent = i, rc_gate_decision = gate, rc_status = rs_status r,
       rc_created_at = now, rc_executed_at = None, rc_confirmation_id = rs_confirmation_id r\<rparr>]\<rparr>"

definition payload_str :: "ActionIntent \<Rightarrow> string \<Rightarrow> string option" where
  "payload_str i k = (case dict_get (ai_payload i) k of Some (JStr s) \<Rightarrow> Some s | _ \<Rightarrow> None)"

definition payload_truthy :: "ActionIntent \<Rightarrow> string \<Rightarrow> bool" where
  "payload_truthy i k = (case dict_get (ai_payload i) k of None \<Rightarrow> False | Some j \<Rightarrow>
     j \<notin> {JNull, JBool False, JInt 0, JFloat ''0.0'', JFloat ''-0.0'', JStr [], JList [], JObj []})"

definition permission_attributes :: "ActionIntent \<Rightarrow> (string, string) dict" where
  "permission_attributes i =
     (let d = (case payload_str i ''domain'' of
                 Some s \<Rightarrow> if py_strip s \<noteq> [] then py_lower (py_strip s) else ''general''
               | None \<Rightarrow> ''general'');
          a = (if d \<noteq> [] \<and> d \<noteq> ''general'' then dict_set ''device_domain'' d [] else [])
      in if payload_truthy i ''device_id'' then dict_set ''device_id_present'' ''true'' a else a)"

definition evaluate_permission :: "ActionEnv \<Rightarrow> ActionIntent \<Rightarrow> string \<Rightarrow> value_error + PermissionDecision" where
  "evaluate_permission env i perm =
     (case mk_permission_request (ai_requested_by i) (ai_action i) (ai_scope i) (ai_risk i)
             (ai_trigger i) perm (permission_attributes i) None of
        Inl e \<Rightarrow> Inl e
      | Inr req \<Rightarrow> env_resolver env req)"

definition permission_result ::
    "string \<Rightarrow> ActionDecision \<Rightarrow> PermissionDecision \<Rightarrow> string option \<Rightarrow> ActionExecutionResult" where
  "permission_result aid dec p cid =
     (mk_exec_result (if perm_decision p = ''ask_admin'' then ''ask_admin'' else ''denied'') aid (perm_reason p))
       \<lparr>rs_confirmation_id := cid, rs_decision := Some dec, rs_permission_status := Some (perm_decision p)\<rparr>"

definition run_precheck :: "ActionEnv \<Rightarrow> ActionIntent \<Rightarrow> SimulationPrecheck option" where
  "run_precheck env i = (case env_simulation env of None \<Rightarrow> None | Some f \<Rightarrow> f i)"

definition merge_reason :: "string \<Rightarrow> SimulationPrecheck \<Rightarrow> string" where
  "merge_reason base p =
     (let suffix = opt_or (sp_prompt_suffix p) (sp_reason p) in
      if suffix = [] then base
      else if base \<noteq> [] \<and> py_in suffix base then base
      else if base = [] then suffix
      else base @ ''; '' @ suffix)"

definition attach_simulation ::
    "SimulationPrecheck option \<Rightarrow> ActionExecutionResult \<Rightarrow> ActionExecutionResult" where
  "attach_simulation sp r = (case sp of None \<Rightarrow> r | Some p \<Rightarrow>
     r\<lparr>rs_sim_status := Some (sp_status p), rs_sim_trace_id := Some (sp_trace_id p),
       rs_sim_risk := Some (sp_risk p), rs_sim_uncertainty := Some (sp_uncertainty p)\<rparr>)"

definition simulation_feedback ::
    "ActionEnv \<Rightarrow> ActionIntent \<Rightarrow> ActionExecutionResult \<Rightarrow> SafeActionExecutor \<Rightarrow> SafeActionExecutor" where
  "simulation_feedback env i r x =
     (if env_simulation env = None \<or> \<not> truthy (ai_trace_id i) then x
      else x\<lparr>ex_feedback := ex_feedback x @ [(i, r)]\<rparr>)"

section \<open>Running the backend\<close>

definition is_dry_run_result :: "json \<Rightarrow> bool" where
  "is_dry_run_result r = (case r of
     JObj kvs \<Rightarrow> (case dict_get kvs ''dry_run'' of
         Some (JBool b) \<Rightarrow> b
       | Some (JStr s) \<Rightarrow> py_lower (py_strip s) \<in> {''true'', ''1'', ''yes''}
       | Some (JInt n) \<Rightarrow> n \<noteq> 0
       | Some (JFloat s) \<Rightarrow> s \<noteq> ''0.0'' \<and> s \<noteq> ''-0.0''
       | _ \<Rightarrow> False)
   | _ \<Rightarrow> False)"

definition nonblank :: "string option \<Rightarrow> string option" where
  "nonblank s = (case s of None \<Rightarrow> None | Some t \<Rightarrow> if py_strip t = [] then None else Some (py_strip t))"

definition json_str_field :: "json \<Rightarrow> string \<Rightarrow> string option" where
  "json_str_field j k = (case j of JObj kvs \<Rightarrow> (case dict_get kvs k of Some (JStr s) \<Rightarrow> Some s | _ \<Rightarrow> None)
     | _ \<Rightarrow> None)"

definition sanitize_backend_result :: "(string \<Rightarrow> string) \<Rightarrow> json \<Rightarrow> (string, string) dict" where
  "sanitize_backend_result R j = (case j of JObj kvs \<Rightarrow> sanitize_action_payload R kvs | _ \<Rightarrow> [])"

definition execute_allowed ::
    "ActionEnv \<Rightarrow> string \<Rightarrow> ActionIntent \<Rightarrow> ActionDecision \<Rightarrow> SafeActionExecutor
     \<Rightarrow> SafeActionExecutor \<times> ActionExecutionResult" where
  "execute_allowed env aid i dec x =
     (let x1 = x\<lparr>ex_calls := ex_calls x @ [i]\<rparr> in
      case env_backend env i of
        Inl exc \<Rightarrow>
          (x1, (mk_exec_result ''failed'' aid (sanitize_text (ex_redact x) exc REASON_MAX_CHARS))
                 \<lparr>rs_decision := Some dec, rs_backend_called := True\<rparr>)
      | Inr raw \<Rightarrow>
          let dry = is_dry_run_result raw in
          (x1, (mk_exec_result (if dry then ''dry_run'' else ''executed'') aid (reason dec))
                 \<lparr>rs_decision := Some dec,
                  rs_backend_result := sanitize_backend_result (ex_redact x) raw,
                  rs_backend_called := True, rs_real := \<not> dry,
                  rs_backend_kind := (case nonblank (json_str_field raw ''backend'') of
                      Some k \<Rightarrow> Some k | None \<Rightarrow> if dry then Some ''dry_run'' else None),
                  rs_domain := nonblank (payload_str i ''domain'')\<rparr>))"

definition enqueue_motor_command ::
    "string \<Rightarrow> ActionIntent \<Rightarrow> ActionDecision \<Rightarrow> int \<Rightarrow> EpicMotorCommand list
     \<Rightarrow> SafeActionExecutor \<Rightarrow> SafeActionExecutor \<times> ActionExecutionResult" where
  "enqueue_motor_command aid i dec now q x =
     (x\<lparr>ex_queue := Some (q @ [\<lparr>mc_action_id = aid, mc_intent = i, mc_decision = dec, mc_enqueued_at = now,
          mc_ready_at = now, mc_duration_ms = ai_duration_ms i,
          mc_requires_parallel = ai_requires_parallel i\<rparr>])\<rparr>,
      (mk_exec_result ''queued'' aid ''queued for motor processor dispatch'')\<lparr>rs_decision := Some dec\<rparr>)"

section \<open>Submitting an intent\<close>

type_synonym exec_outcome = "SafeActionExecutor \<times> (value_error + ActionExecutionResult)"

definition settle_result ::
    "ActionEnv \<Rightarrow> string \<Rightarrow> ActionIntent \<Rightarrow> ActionDecision \<Rightarrow> SimulationPrecheck option \<Rightarrow> int
     \<Rightarrow> ActionExecutionResult \<Rightarrow> SafeActionExecutor \<Rightarrow> exec_outcome" where
  "settle_result env aid i dec sp now r x =
     (let r' = attach_simulation sp r
      in (simulation_feedback env i r' (record_action aid i dec r' now x), Inr r'))"

definition continuity_metadata :: "ActionIntent \<Rightarrow> (string, string) dict" where
  "continuity_metadata i =
     (let put = (\<lambda>k v d. if truthy v then dict_set k (opt_or v []) d else d);
          facts = filter (\<lambda>s. s \<noteq> []) (map py_strip (ai_facts_ref i));
          d1 = put ''arc_session'' (ai_session_ref i) [];
          d2 = put ''arc_world'' (ai_world_ref i) d1;
          d3 = (if ai_facts_ref i \<noteq> [] then dict_set ''arc_facts'' (join_with '','' facts) d2 else d2);
          d4 = put ''arc_origin'' (ai_origin i) d3
      in put ''arc_digest'' (ai_proposal_digest i) d4)"

definition payload_strings :: "ActionIntent \<Rightarrow> (string, string) dict" where
  "payload_strings i = map (\<lambda>(k, j). (k, case j of JStr s \<Rightarrow> s | _ \<Rightarrow> py_str j)) (ai_payload i)"

definition submit_confirm ::
    "ActionEnv \<Rightarrow> string \<Rightarrow> string \<Rightarrow> ActionIntent \<Rightarrow> ActionDecision \<Rightarrow> SimulationPrecheck option \<Rightarrow> int
     \<Rightarrow> SafeActionExecutor \<Rightarrow> exec_outcome" where
  "submit_confirm env new_id aid i dec sp now x =
     (case evaluate_permission env i ''confirm_action'' of
        Inl e \<Rightarrow> (x, Inl e)
      | Inr p \<Rightarrow>
          if perm_decision p \<noteq> ''allow'' then
            let r = permission_result aid dec p None in (record_action aid i dec r now x, Inr r)
          else case env_create_raises env of
            Some exc \<Rightarrow> settle_result env aid i dec sp now
               ((mk_exec_result ''failed'' aid (sanitize_text (ex_redact x) exc REASON_MAX_CHARS))
                  \<lparr>rs_decision := Some dec\<rparr>) x
          | None \<Rightarrow>
              let (m, created) = create_from_action_decision new_id now (to_request i) dec
                    (continuity_metadata i) (payload_strings i) (ai_idempotency_key i) (ex_conf x);
                  x1 = x\<lparr>ex_conf := m\<rparr>
              in case created of
                  None \<Rightarrow> settle_result env aid i dec sp now
                    ((mk_exec_result ''failed'' aid ''confirmation creation failed'')\<lparr>rs_decision := Some dec\<rparr>) x1
                | Some c \<Rightarrow> settle_result env aid i dec sp now
                    ((mk_exec_result ''pending_confirmation'' aid (reason dec))
                      \<lparr>rs_confirmation_id := Some (cf_id c), rs_decision := Some dec,
                       rs_permission_status := Some (perm_decision p)\<rparr>) x1)"

definition submit_allowed ::
    "ActionEnv \<Rightarrow> string \<Rightarrow> ActionIntent \<Rightarrow> ActionDecision \<Rightarrow> SimulationPrecheck option \<Rightarrow> int
     \<Rightarrow> SafeActionExecutor \<Rightarrow> exec_outcome" where
  "submit_allowed env aid i dec sp now x =
     (case evaluate_permission env i ''execute_action'' of
        Inl e \<Rightarrow> (x, Inl e)
      | Inr p \<Rightarrow>
          if perm_decision p \<noteq> ''allow'' then
            let r = permission_result aid dec p None in (record_action aid i dec r now x, Inr r)
          else case ex_queue x of
            Some q \<Rightarrow>
              let (x1, r) = enqueue_motor_command aid i dec now q x
              in settle_result env aid i dec sp now (r\<lparr>rs_permission_status := Some (perm_decision p)\<rparr>) x1
          | None \<Rightarrow>
              let (x1, r0) = execute_allowed env aid i dec x;
                  r = attach_simulation sp (r0\<lparr>rs_permission_status := Some (perm_decision p)\<rparr>);
                  x2 = remember_key i r (record_action aid i dec r now x1)
              in (simulation_feedback env i r x2, Inr r))"

definition asks_confirmation :: "SimulationPrecheck option \<Rightarrow> bool" where
  "asks_confirmation sp = (case sp of None \<Rightarrow> False | Some p \<Rightarrow> sp_decision p = ''ask_confirmation'')"

definition submit_gated ::
    "ActionEnv \<Rightarrow> string \<Rightarrow> string \<Rightarrow> ActionIntent \<Rightarrow> SimulationPrecheck option \<Rightarrow> int
     \<Rightarrow> SafeActionExecutor \<Rightarrow> exec_outcome" where
  "submit_gated env new_id aid i sp now x =
     (let dec = env_gate env (to_request i) in
      if decision dec = ''allow'' then
        (if asks_confirmation sp then
           submit_confirm env new_id aid i
             (dec\<lparr>decision := ''ask_confirmation'', reason := merge_reason (reason dec) (the sp)\<rparr>) sp now x
         else submit_allowed env aid i dec sp now x)
      else if decision dec = ''ask_confirmation'' then submit_confirm env new_id aid i dec sp now x
      else if decision dec = ''deny'' then
        settle_result env aid i dec sp now
          ((mk_exec_result ''denied'' aid (reason dec))\<lparr>rs_decision := Some dec\<rparr>) x
      else settle_result env aid i dec sp now
          ((mk_exec_result ''failed'' aid (''unsupported action decision: '' @ decision dec))
             \<lparr>rs_decision := Some dec\<rparr>) x)"

definition with_trace :: "SimulationPrecheck option \<Rightarrow> ActionIntent \<Rightarrow> ActionIntent" where
  "with_trace sp i = (case sp of None \<Rightarrow> i | Some p \<Rightarrow> i\<lparr>ai_trace_id := Some (sp_trace_id p)\<rparr>)"

definition submit ::
    "ActionEnv \<Rightarrow> string \<Rightarrow> string \<Rightarrow> int \<Rightarrow> ActionIntent \<Rightarrow> SafeActionExecutor \<Rightarrow> exec_outcome" where
  "submit env new_id aid now intent x =
     (let i0 = sanitized (ex_redact x) intent in
      if already_executed (ai_idempotency_key i0) x then
        let r = mk_exec_result ''already_executed'' aid ''idempotency key already executed''
        in (record_without_decision aid i0 r now ''idempotent_replay'' x, Inr r)
      else
        let sp = run_precheck env i0;
            i = with_trace sp i0
        in case sp of
             Some p \<Rightarrow>
               if sp_decision p = ''blocked_by_simulation'' then
                 let r = attach_simulation sp (mk_exec_result ''denied'' aid (sp_reason p))
                 in (simulation_feedback env i r
                       (record_without_decision aid i r now ''blocked_by_simulation'' x), Inr r)
               else submit_gated env new_id aid i sp now x
           | None \<Rightarrow> submit_gated env new_id aid i sp now x)"

section \<open>Resuming a confirmed action\<close>

text \<open>\<^verbatim>\<open>str.split\<close> on one character.\<close>

fun split_on :: "char \<Rightarrow> string \<Rightarrow> string list" where
  "split_on c [] = [[]]"
| "split_on c (x # xs) =
     (if x = c then [] # split_on c xs
      else (case split_on c xs of [] \<Rightarrow> [[x]] | w # ws \<Rightarrow> (x # w) # ws))"

definition md_text :: "ConfirmationRequest \<Rightarrow> string \<Rightarrow> string option" where
  "md_text c k = nonblank (dict_get (cf_metadata c) k)"

definition intent_from_confirmation ::
    "(string \<Rightarrow> string) \<Rightarrow> ConfirmationRequest \<Rightarrow> ActionIntent option" where
  "intent_from_confirmation R c =
     (if \<not> (truthy (cf_action c) \<and> truthy (cf_scope c) \<and> truthy (cf_trigger c) \<and> truthy (cf_risk c))
      then None
      else Some \<lparr>ai_action = the (cf_action c), ai_scope = the (cf_scope c),
        ai_trigger = the (cf_trigger c), ai_risk = the (cf_risk c), ai_requested_by = cf_requested_by c,
        ai_requires_presence_empty = cf_requires_presence_empty c, ai_uses_facts = cf_uses_facts c,
        ai_payload = json_of_strings (sanitize_action_payload R (json_of_strings (cf_action_payload c))),
        ai_idempotency_key = cf_idempotency_key c, ai_session_ref = md_text c ''arc_session'',
        ai_world_ref = md_text c ''arc_world'',
        ai_facts_ref = filter (\<lambda>s. s \<noteq> []) (map py_strip
          (split_on CHR '','' (opt_or (dict_get (cf_metadata c) ''arc_facts'') []))),
        ai_origin = md_text c ''arc_origin'', ai_proposal_digest = md_text c ''arc_digest'',
        ai_trace_id = None, ai_duration_ms = 0, ai_requires_parallel = False\<rparr>)"

definition empty_action_intent :: ActionIntent where
  "empty_action_intent = \<lparr>ai_action = ''unknown'', ai_scope = ''unknown'', ai_trigger = ''system'',
     ai_risk = ''low'', ai_requested_by = None, ai_requires_presence_empty = False, ai_uses_facts = [],
     ai_payload = [], ai_idempotency_key = None, ai_session_ref = None, ai_world_ref = None,
     ai_facts_ref = [], ai_origin = None, ai_proposal_digest = None, ai_trace_id = None,
     ai_duration_ms = 0, ai_requires_parallel = False\<rparr>"

definition resume_terminal ::
    "string \<Rightarrow> string \<Rightarrow> string \<Rightarrow> int \<Rightarrow> string option \<Rightarrow> ActionIntent option
     \<Rightarrow> SafeActionExecutor \<Rightarrow> exec_outcome" where
  "resume_terminal aid st rsn now cid i x =
     (let r = (mk_exec_result st aid (sanitize_text (ex_redact x) rsn REASON_MAX_CHARS))
                \<lparr>rs_confirmation_id := cid\<rparr>
      in (record_without_decision aid (case i of None \<Rightarrow> empty_action_intent | Some j \<Rightarrow> j)
            r now ''resume_precheck'' x, Inr r))"

definition resume_decided ::
    "string \<Rightarrow> string \<Rightarrow> string \<Rightarrow> ActionIntent \<Rightarrow> ActionDecision \<Rightarrow> string \<Rightarrow> int
     \<Rightarrow> SafeActionExecutor \<Rightarrow> exec_outcome" where
  "resume_decided st aid rsn i dec cid now x =
     (let r = (mk_exec_result st aid rsn)\<lparr>rs_confirmation_id := Some cid, rs_decision := Some dec\<rparr>
      in (record_action aid i dec r now x, Inr r))"

text \<open>From the claim on: the one place of a resumption that reaches the backend.\<close>

definition resume_claim ::
    "ActionEnv \<Rightarrow> string \<Rightarrow> string \<Rightarrow> ActionIntent \<Rightarrow> ActionDecision \<Rightarrow> PermissionDecision \<Rightarrow> int
     \<Rightarrow> SafeActionExecutor \<Rightarrow> exec_outcome" where
  "resume_claim env aid cid i dec p now x =
     (let (m, claimed) = claim_consumption cid now [ActionConfirmation] (ex_conf x);
          x1 = x\<lparr>ex_conf := m\<rparr>
      in case claimed of
           None \<Rightarrow> resume_decided ''already_executed'' aid ''confirmation could not be consumed'' i dec cid now x1
         | Some c \<Rightarrow>
             let (x2, r0) = execute_allowed env aid i dec x1;
                 r = r0\<lparr>rs_confirmation_id := Some cid, rs_permission_status := Some (perm_decision p)\<rparr>
             in (remember_key i r (record_action aid i dec r now x2), Inr r))"

definition resume_permitted ::
    "ActionEnv \<Rightarrow> string \<Rightarrow> string \<Rightarrow> ActionIntent \<Rightarrow> ActionDecision \<Rightarrow> int
     \<Rightarrow> SafeActionExecutor \<Rightarrow> exec_outcome" where
  "resume_permitted env aid cid i dec now x =
     (case evaluate_permission env i ''confirm_action'' of
        Inl e \<Rightarrow> (x, Inl e)
      | Inr p \<Rightarrow>
          if perm_decision p \<noteq> ''allow'' then
            let r = permission_result aid dec p (Some cid) in (record_action aid i dec r now x, Inr r)
          else case evaluate_permission env i ''execute_action'' of
              Inl e \<Rightarrow> (x, Inl e)
            | Inr q \<Rightarrow>
                if perm_decision q \<noteq> ''allow'' then
                  let r = permission_result aid dec q (Some cid) in (record_action aid i dec r now x, Inr r)
                else resume_claim env aid cid i dec q now x)"

definition resume_gated ::
    "ActionEnv \<Rightarrow> string \<Rightarrow> string \<Rightarrow> ActionIntent \<Rightarrow> ActionDecision \<Rightarrow> int
     \<Rightarrow> SafeActionExecutor \<Rightarrow> exec_outcome" where
  "resume_gated env aid cid i dec now x =
     (if decision dec = ''ask_confirmation'' then
        resume_decided ''pending_confirmation_still_required'' aid (reason dec) i dec cid now x
      else if decision dec = ''deny'' then resume_decided ''denied'' aid (reason dec) i dec cid now x
      else if decision dec \<noteq> ''allow'' then
        resume_decided ''failed'' aid (''unsupported action decision: '' @ decision dec) i dec cid now x
      else resume_permitted env aid cid i dec now x)"

definition resume_intent ::
    "ActionEnv \<Rightarrow> string \<Rightarrow> string \<Rightarrow> ConfirmationRequest \<Rightarrow> int \<Rightarrow> SafeActionExecutor \<Rightarrow> exec_outcome" where
  "resume_intent env aid cid c now x =
     (case intent_from_confirmation (ex_redact x) c of
        None \<Rightarrow> resume_terminal aid ''failed'' ''confirmation action snapshot is incomplete'' now (Some cid) None x
      | Some i \<Rightarrow>
          if already_executed (ai_idempotency_key i) x then
            resume_terminal aid ''already_executed'' ''idempotency key already executed'' now (Some cid) (Some i) x
          else case env_resume_check env of
              None \<Rightarrow> resume_gated env aid cid i (env_gate env (to_request i)) now x
            | Some f \<Rightarrow> (case f i c now of
                  Inl exc \<Rightarrow> resume_terminal aid ''failed'' (''confirmation resume precheck failed: '' @ exc)
                               now (Some cid) (Some i) x
                | Inr None \<Rightarrow> resume_gated env aid cid i (env_gate env (to_request i)) now x
                | Inr (Some d) \<Rightarrow> resume_gated env aid cid i d now x))"

definition resume_settled ::
    "ActionEnv \<Rightarrow> string \<Rightarrow> string \<Rightarrow> ConfirmationRequest \<Rightarrow> int \<Rightarrow> SafeActionExecutor \<Rightarrow> exec_outcome" where
  "resume_settled env aid cid c now x =
     (if cf_status c \<noteq> ConfirmedOnce then
        resume_terminal aid ''denied'' (''confirmation is '' @ status_text (cf_status c)) now (Some cid) None x
      else if cf_consumed_at c \<noteq> None then
        resume_terminal aid ''already_executed'' ''confirmation already consumed'' now (Some cid) None x
      else resume_intent env aid cid c now x)"

definition resume_reply ::
    "ActionEnv \<Rightarrow> unicode \<Rightarrow> string \<Rightarrow> string \<Rightarrow> utext \<Rightarrow> int \<Rightarrow> SafeActionExecutor \<Rightarrow> exec_outcome" where
  "resume_reply env U aid cid reply now x =
     (let (m, rr) = resolve_user_reply U cid reply now None (ex_conf x);
          x1 = x\<lparr>ex_conf := m\<rparr>
      in if cr_decision rr \<noteq> RConfirmed then
           resume_terminal aid (if cr_decision rr = RUnclear then ''pending_confirmation'' else ''denied'')
             (cr_reason rr) now (Some cid) None x1
         else case store_get (cm_store m) cid of
             None \<Rightarrow> resume_terminal aid ''failed'' ''confirmation disappeared after confirmation'' now (Some cid) None x1
           | Some c \<Rightarrow> resume_settled env aid cid c now x1)"

definition resume_confirmed ::
    "ActionEnv \<Rightarrow> unicode \<Rightarrow> string \<Rightarrow> string \<Rightarrow> utext \<Rightarrow> int \<Rightarrow> SafeActionExecutor \<Rightarrow> exec_outcome" where
  "resume_confirmed env U aid cid reply now x =
     (let (m, found) = expire_confirmation_if_needed cid now (ex_conf x);
          x1 = x\<lparr>ex_conf := m\<rparr>
      in case found of
           None \<Rightarrow> resume_terminal aid ''denied'' ''confirmation not found'' now None None x1
         | Some c \<Rightarrow>
             if cf_status c = ExpiredStatus then
               resume_terminal aid ''denied'' ''confirmation expired'' now (Some cid) None x1
             else if cf_kind c = NotifyOnly then
               resume_terminal aid ''denied'' ''notification is not executable'' now (Some cid) None x1
             else if cf_kind c \<noteq> ActionConfirmation then
               resume_terminal aid ''denied'' ''confirmation is not an action confirmation'' now (Some cid) None x1
             else if cf_consumed_at c \<noteq> None then
               resume_terminal aid ''already_executed'' ''confirmation already consumed'' now (Some cid) None x1
             else if cf_status c = Pending then resume_reply env U aid cid reply now x1
             else resume_settled env aid cid c now x1)"

section \<open>What each operation may change\<close>

lemma with_trace_fields [simp]:
  "ai_idempotency_key (with_trace sp i) = ai_idempotency_key i"
  "ai_payload (with_trace sp i) = ai_payload i" "ai_action (with_trace sp i) = ai_action i"
  "ai_scope (with_trace sp i) = ai_scope i" "ai_risk (with_trace sp i) = ai_risk i"
  "ai_trigger (with_trace sp i) = ai_trigger i"
  "ai_requested_by (with_trace sp i) = ai_requested_by i"
  "ai_requires_presence_empty (with_trace sp i) = ai_requires_presence_empty i"
  "ai_uses_facts (with_trace sp i) = ai_uses_facts i"
  by (cases sp; simp add: with_trace_def)+

lemma with_trace_simps [simp]:
  "to_request (with_trace sp i) = to_request i"
  "permission_attributes (with_trace sp i) = permission_attributes i"
  "evaluate_permission env (with_trace sp i) perm = evaluate_permission env i perm"
  by (simp_all add: to_request_def evaluate_permission_def permission_attributes_def
      payload_str_def payload_truthy_def)

lemma record_action_simps [simp]:
  "ex_calls (record_action aid i dec r now x) = ex_calls x"
  "ex_conf (record_action aid i dec r now x) = ex_conf x"
  "ex_keys (record_action aid i dec r now x) = ex_keys x"
  "ex_key_file (record_action aid i dec r now x) = ex_key_file x"
  "ex_queue (record_action aid i dec r now x) = ex_queue x"
  by (simp_all add: record_action_def)

lemma record_without_decision_simps [simp]:
  "ex_calls (record_without_decision aid i r now g x) = ex_calls x"
  "ex_conf (record_without_decision aid i r now g x) = ex_conf x"
  "ex_keys (record_without_decision aid i r now g x) = ex_keys x"
  "ex_key_file (record_without_decision aid i r now g x) = ex_key_file x"
  "ex_queue (record_without_decision aid i r now g x) = ex_queue x"
  by (simp_all add: record_without_decision_def)

lemma simulation_feedback_simps [simp]:
  "ex_calls (simulation_feedback env i r x) = ex_calls x"
  "ex_conf (simulation_feedback env i r x) = ex_conf x"
  "ex_keys (simulation_feedback env i r x) = ex_keys x"
  "ex_key_file (simulation_feedback env i r x) = ex_key_file x"
  "ex_queue (simulation_feedback env i r x) = ex_queue x"
  "ex_records (simulation_feedback env i r x) = ex_records x"
  by (simp_all add: simulation_feedback_def)

lemma remember_key_simps [simp]:
  "ex_calls (remember_key i r x) = ex_calls x" "ex_conf (remember_key i r x) = ex_conf x"
  "ex_queue (remember_key i r x) = ex_queue x" "ex_records (remember_key i r x) = ex_records x"
  by (auto simp: remember_key_def split: option.splits)

lemma settle_result_simps [simp]:
  "ex_calls (fst (settle_result env aid i dec sp now r x)) = ex_calls x"
  "ex_conf (fst (settle_result env aid i dec sp now r x)) = ex_conf x"
  "ex_keys (fst (settle_result env aid i dec sp now r x)) = ex_keys x"
  "ex_key_file (fst (settle_result env aid i dec sp now r x)) = ex_key_file x"
  by (simp_all add: settle_result_def Let_def)

lemma resume_terminal_simps [simp]:
  "ex_calls (fst (resume_terminal aid st rsn now cid i x)) = ex_calls x"
  "ex_conf (fst (resume_terminal aid st rsn now cid i x)) = ex_conf x"
  "ex_keys (fst (resume_terminal aid st rsn now cid i x)) = ex_keys x"
  "ex_key_file (fst (resume_terminal aid st rsn now cid i x)) = ex_key_file x"
  by (simp_all add: resume_terminal_def Let_def)

lemma resume_decided_simps [simp]:
  "ex_calls (fst (resume_decided st aid rsn i dec cid now x)) = ex_calls x"
  "ex_conf (fst (resume_decided st aid rsn i dec cid now x)) = ex_conf x"
  "ex_keys (fst (resume_decided st aid rsn i dec cid now x)) = ex_keys x"
  "ex_key_file (fst (resume_decided st aid rsn i dec cid now x)) = ex_key_file x"
  by (simp_all add: resume_decided_def Let_def)

lemma execute_allowed_simps [simp]:
  "ex_calls (fst (execute_allowed env aid i dec x)) = ex_calls x @ [i]"
  "ex_conf (fst (execute_allowed env aid i dec x)) = ex_conf x"
  "ex_keys (fst (execute_allowed env aid i dec x)) = ex_keys x"
  "ex_key_file (fst (execute_allowed env aid i dec x)) = ex_key_file x"
  "ex_queue (fst (execute_allowed env aid i dec x)) = ex_queue x"
  by (simp_all add: execute_allowed_def Let_def split: sum.splits)

lemma enqueue_motor_simps [simp]:
  "ex_calls (fst (enqueue_motor_command aid i dec now q x)) = ex_calls x"
  "ex_conf (fst (enqueue_motor_command aid i dec now q x)) = ex_conf x"
  "ex_keys (fst (enqueue_motor_command aid i dec now q x)) = ex_keys x"
  "ex_key_file (fst (enqueue_motor_command aid i dec now q x)) = ex_key_file x"
  by (simp_all add: enqueue_motor_command_def)

lemma submit_confirm_calls: "ex_calls (fst (submit_confirm env n aid i dec sp now x)) = ex_calls x"
  by (simp add: submit_confirm_def Let_def split: sum.splits option.splits prod.splits)

lemma submit_allowed_calls:
  "ex_calls (fst (submit_allowed env aid i dec sp now x)) =
     (case evaluate_permission env i ''execute_action'' of Inl e \<Rightarrow> ex_calls x
      | Inr p \<Rightarrow> if perm_decision p = ''allow'' \<and> ex_queue x = None then ex_calls x @ [i] else ex_calls x)"
proof -
  obtain x1 r0 where e: "execute_allowed env aid i dec x = (x1, r0)" by (cases "execute_allowed env aid i dec x")
  then have "ex_calls x1 = ex_calls x @ [i]" by (metis execute_allowed_simps(1) fst_conv)
  then show ?thesis
    by (auto simp: submit_allowed_def Let_def e enqueue_motor_command_def split: sum.splits option.splits)
qed

lemma submit_allowed_conf: "ex_conf (fst (submit_allowed env aid i dec sp now x)) = ex_conf x"
proof -
  obtain x1 r0 where e: "execute_allowed env aid i dec x = (x1, r0)" by (cases "execute_allowed env aid i dec x")
  then have "ex_conf x1 = ex_conf x" by (metis execute_allowed_simps(2) fst_conv)
  then show ?thesis
    by (auto simp: submit_allowed_def Let_def e enqueue_motor_command_def split: sum.splits option.splits)
qed

text \<open>The exact condition under which a submission reaches the backend.\<close>

definition cleared :: "ActionEnv \<Rightarrow> ActionIntent \<Rightarrow> SafeActionExecutor \<Rightarrow> bool" where
  "cleared env i x =
     (\<not> already_executed (ai_idempotency_key i) x
      \<and> (case run_precheck env i of None \<Rightarrow> True
         | Some p \<Rightarrow> sp_decision p \<notin> {''blocked_by_simulation'', ''ask_confirmation''})
      \<and> decision (env_gate env (to_request i)) = ''allow''
      \<and> (case evaluate_permission env i ''execute_action'' of Inl e \<Rightarrow> False
         | Inr p \<Rightarrow> perm_decision p = ''allow''))"

lemma submit_gated_calls:
  "ex_calls (fst (submit_gated env n aid i sp now x)) =
     (if decision (env_gate env (to_request i)) = ''allow'' \<and> \<not> asks_confirmation sp
      then ex_calls (fst (submit_allowed env aid i (env_gate env (to_request i)) sp now x)) else ex_calls x)"
  by (simp add: submit_gated_def Let_def submit_confirm_calls)

lemma submit_calls:
  "ex_calls (fst (submit env n aid now intent x)) =
     (let i = sanitized (ex_redact x) intent in
      if cleared env i x \<and> ex_queue x = None then ex_calls x @ [with_trace (run_precheck env i) i]
      else ex_calls x)"
  by (auto simp: submit_def Let_def cleared_def submit_gated_calls submit_allowed_calls asks_confirmation_def
      split: option.splits sum.splits)

text \<open>
  C5. Nothing reaches the backend uncleared: a submission calls the backend exactly when its
  idempotency key is new, the simulation neither blocks nor asks, the gate and the permission
  resolver both allow it and no motor queue takes it over; then it calls it once, with the
  sanitised intent, and no confirmation changes.
\<close>

theorem submit_runs_only_cleared:
  "ex_calls (fst (submit env n aid now intent x)) =
     (let i = sanitized (ex_redact x) intent in
      if cleared env i x \<and> ex_queue x = None then ex_calls x @ [with_trace (run_precheck env i) i]
      else ex_calls x)
   \<and> (let i = sanitized (ex_redact x) intent in
      cleared env i x \<longrightarrow> ex_conf (fst (submit env n aid now intent x)) = ex_conf x)"
  by (rule conjI, rule submit_calls)
    (auto simp: submit_def Let_def cleared_def submit_gated_def submit_allowed_conf asks_confirmation_def
      split: option.splits)

definition sample_env :: ActionEnv where
  "sample_env = \<lparr>env_gate = composite_evaluate [default_gate_evaluate], env_resolver = resolver_evaluate,
     env_backend = (\<lambda>i. Inr (JObj [(''dry_run'', JBool True)])), env_simulation = None,
     env_resume_check = None, env_create_raises = None\<rparr>"

definition sample_intent :: ActionIntent where
  "sample_intent = empty_action_intent\<lparr>ai_action := ''light.on'', ai_scope := ''home'',
     ai_idempotency_key := Some ''k1''\<rparr>"

definition sample_executor :: "ConfirmationRequest list \<Rightarrow> EpicMotorCommand list option \<Rightarrow> SafeActionExecutor" where
  "sample_executor cs q = \<lparr>ex_conf = sample_manager cs, ex_keys = {}, ex_key_file = [], ex_records = [],
     ex_queue = q, ex_calls = [], ex_feedback = []\<rparr>"

lemma sample_intent_sanitized: "sanitized R sample_intent = sample_intent"
  by (simp add: sanitized_def sample_intent_def empty_action_intent_def sanitize_action_payload_def
      json_of_strings_def)

lemma sample_permission:
  "perm \<in> {''execute_action'', ''confirm_action''} \<Longrightarrow>
   evaluate_permission sample_env sample_intent perm =
     Inr \<lparr>perm_decision = ''allow'', perm_reason = ''default resolver allows low/medium risk actions'',
          perm_actor_role = ''unknown''\<rparr>"
  by (elim insertE emptyE; hypsubst; code_simp)

lemma sample_gate: "decision (env_gate sample_env (to_request sample_intent)) = ''allow''"
  by code_simp

lemma sample_cleared: "cleared sample_env sample_intent (sample_executor cs q)"
proof -
  have "run_precheck sample_env i = None" for i by (simp add: run_precheck_def sample_env_def)
  moreover have "ex_keys (sample_executor cs q) = {}" by (simp add: sample_executor_def)
  ultimately show ?thesis
    using sample_gate by (simp add: cleared_def sample_permission already_executed_def split: option.splits)
qed

theorem submit_runs_only_cleared_witness:
  "ex_calls (fst (submit sample_env ''1'' ''a1'' 0 sample_intent (sample_executor [] None))) = [sample_intent]
   \<and> ex_conf (fst (submit sample_env ''1'' ''a1'' 0 sample_intent (sample_executor [] None))) = sample_manager []"
  using submit_runs_only_cleared [of sample_env "''1''" "''a1''" 0 sample_intent "sample_executor [] None"]
    sample_cleared [of "[]" None]
  by (simp add: Let_def sample_intent_sanitized run_precheck_def with_trace_def)
    (simp add: sample_executor_def sample_env_def)

section \<open>What a resumption may run\<close>

definition permits :: "ActionEnv \<Rightarrow> ActionIntent \<Rightarrow> string \<Rightarrow> bool" where
  "permits env i perm =
     (case evaluate_permission env i perm of Inl e \<Rightarrow> False | Inr p \<Rightarrow> perm_decision p = ''allow'')"

definition resume_allows :: "ActionEnv \<Rightarrow> ActionIntent \<Rightarrow> ConfirmationRequest \<Rightarrow> int \<Rightarrow> bool" where
  "resume_allows env i c now =
     (case env_resume_check env of
        None \<Rightarrow> decision (env_gate env (to_request i)) = ''allow''
      | Some f \<Rightarrow> (case f i c now of Inl e \<Rightarrow> False
          | Inr None \<Rightarrow> decision (env_gate env (to_request i)) = ''allow''
          | Inr (Some d) \<Rightarrow> decision d = ''allow''))"

definition resume_cleared ::
    "ActionEnv \<Rightarrow> ActionIntent \<Rightarrow> ConfirmationRequest \<Rightarrow> int \<Rightarrow> SafeActionExecutor \<Rightarrow> bool" where
  "resume_cleared env i c now x =
     (\<not> already_executed (ai_idempotency_key i) x \<and> resume_allows env i c now
      \<and> permits env i ''confirm_action'' \<and> permits env i ''execute_action'')"

lemma resume_claim_calls:
  "ex_calls (fst (resume_claim env aid cid i dec p now x)) =
     (if snd (claim_consumption cid now [ActionConfirmation] (ex_conf x)) = None then ex_calls x
      else ex_calls x @ [i])"
proof -
  obtain m c where k: "claim_consumption cid now [ActionConfirmation] (ex_conf x) = (m, c)" by fastforce
  obtain x2 r where e: "execute_allowed env aid i dec (x\<lparr>ex_conf := m\<rparr>) = (x2, r)" by fastforce
  then have "ex_calls x2 = ex_calls x @ [i]" by (metis execute_allowed_simps(1) fst_conv
        SafeActionExecutor.select_convs(6) SafeActionExecutor.surjective SafeActionExecutor.update_convs(1))
  then show ?thesis by (simp add: resume_claim_def Let_def k e split: option.splits)
qed

lemma resume_claim_conf:
  "ex_conf (fst (resume_claim env aid cid i dec p now x))
     = fst (claim_consumption cid now [ActionConfirmation] (ex_conf x))"
proof -
  obtain m c where k: "claim_consumption cid now [ActionConfirmation] (ex_conf x) = (m, c)" by fastforce
  obtain x2 r where e: "execute_allowed env aid i dec (x\<lparr>ex_conf := m\<rparr>) = (x2, r)" by fastforce
  then have "ex_conf x2 = m" by (metis execute_allowed_simps(2) fst_conv
        SafeActionExecutor.select_convs(1) SafeActionExecutor.surjective SafeActionExecutor.update_convs(1))
  then show ?thesis by (simp add: resume_claim_def Let_def k e split: option.splits)
qed

lemma resume_permitted_calls:
  "ex_calls (fst (resume_permitted env aid cid i dec now x)) =
     (if permits env i ''confirm_action'' \<and> permits env i ''execute_action''
         \<and> snd (claim_consumption cid now [ActionConfirmation] (ex_conf x)) \<noteq> None
      then ex_calls x @ [i] else ex_calls x)"
  by (simp add: resume_permitted_def permits_def Let_def resume_claim_calls split: sum.splits)

lemma resume_gated_calls:
  "ex_calls (fst (resume_gated env aid cid i dec now x)) =
     (if decision dec = ''allow'' then ex_calls (fst (resume_permitted env aid cid i dec now x))
      else ex_calls x)"
  by (simp add: resume_gated_def)

lemma resume_intent_calls:
  "ex_calls (fst (resume_intent env aid cid c now x)) =
     (case intent_from_confirmation (ex_redact x) c of None \<Rightarrow> ex_calls x
      | Some i \<Rightarrow> if resume_cleared env i c now x
            \<and> snd (claim_consumption cid now [ActionConfirmation] (ex_conf x)) \<noteq> None
          then ex_calls x @ [i] else ex_calls x)"
  by (auto simp: resume_intent_def resume_cleared_def resume_allows_def resume_gated_calls
      resume_permitted_calls split: option.splits sum.splits)

lemma resume_settled_calls:
  "ex_calls (fst (resume_settled env aid cid c now x)) =
     (if cf_status c = ConfirmedOnce \<and> cf_consumed_at c = None
      then ex_calls (fst (resume_intent env aid cid c now x)) else ex_calls x)"
  by (simp add: resume_settled_def)

text \<open>Which parts of the manager the confirmation operations of a resumption leave alone.\<close>

lemma redact_kept [simp]:
  "cm_redact (log_confirmation e m) = cm_redact m"
  "cm_redact (settle c st d r now m) = cm_redact m"
  "cm_redact (fst (expire_confirmation_if_needed cid now m)) = cm_redact m"
  "cm_redact (fst (resolve_user_reply U cid txt now caller m)) = cm_redact m"
  by (auto simp: log_confirmation_def settle_def expire_confirmation_if_needed_def resolve_user_reply_def
      Let_def split_beta split: option.splits reply_class.splits)

lemma intent_from_status:
  "intent_from_confirmation R (c\<lparr>cf_status := st\<rparr>) = intent_from_confirmation R c"
  by (simp add: intent_from_confirmation_def md_text_def)

lemma already_executed_conf [simp]: "already_executed k (x\<lparr>ex_conf := m\<rparr>) = already_executed k x"
  by (simp add: already_executed_def split: option.splits)

lemma resume_cleared_conf [simp]: "resume_cleared env i c now (x\<lparr>ex_conf := m\<rparr>) = resume_cleared env i c now x"
  by (simp add: resume_cleared_def)

text \<open>The record that a resumption finds confirmed, if it does: already, or by the reply.\<close>

definition confirmed_record ::
    "unicode \<Rightarrow> utext \<Rightarrow> int \<Rightarrow> ConfirmationRequest \<Rightarrow> ConfirmationRequest option" where
  "confirmed_record U reply now c =
     (if is_expired c now \<or> cf_kind c \<noteq> ActionConfirmation \<or> cf_consumed_at c \<noteq> None then None
      else if cf_status c = ConfirmedOnce then Some c
      else if cf_status c = Pending \<and> classify_reply U reply = Confirmed
        then Some (c\<lparr>cf_status := ConfirmedOnce\<rparr>)
      else None)"

lemma expire_found:
  "snd (store_expire_if_needed cid now cs) =
     map_option (\<lambda>c. if is_expired c now then mark_expired c else c) (store_get cs cid)"
  "\<not> is_expired c now \<Longrightarrow> store_get cs cid = Some c \<Longrightarrow> fst (store_expire_if_needed cid now cs) = cs"
  by (auto simp: store_expire_if_needed_def store_get_def split: option.splits)

lemma reply_confirms:
  assumes "conf_ok (cm_store m)" and "store_get (cm_store m) cid = Some c"
    and "cf_kind c = ActionConfirmation" and "cf_status c = Pending" and "\<not> is_expired c now"
  shows "(cr_decision (snd (resolve_user_reply U cid reply now None m)) = RConfirmed)
      = (classify_reply U reply = Confirmed)"
    and "classify_reply U reply = Confirmed \<Longrightarrow>
      store_get (cm_store (fst (resolve_user_reply U cid reply now None m))) cid
        = Some (c\<lparr>cf_status := ConfirmedOnce\<rparr>)"
  using assms
  by (simp_all add: reply_verdict_result reply_verdict_def owner_mismatch_def reply_lookup
      reply_transition_def apply_status_def split: reply_class.splits)

lemma claim_confirmed:
  assumes "conf_ok (cm_store m)" and "store_get (cm_store m) cid = Some c" and "\<not> is_expired c now"
    and "cf_kind c = ActionConfirmation" and "cf_status c = ConfirmedOnce" and "cf_consumed_at c = None"
  shows "snd (claim_consumption cid now [ActionConfirmation] m) \<noteq> None"
  using assms claim_iff [OF assms(1), of cid now "[ActionConfirmation]"] by (auto simp: consume_store)

lemma resume_settled_run:
  assumes "conf_ok (cm_store (ex_conf x))" and "store_get (cm_store (ex_conf x)) cid = Some c"
    and "\<not> is_expired c now" and "cf_kind c = ActionConfirmation" and "cf_status c = ConfirmedOnce"
    and "cf_consumed_at c = None"
  shows "ex_calls (fst (resume_settled env aid cid c now x)) =
    (case intent_from_confirmation (ex_redact x) c of None \<Rightarrow> ex_calls x
     | Some i \<Rightarrow> if resume_cleared env i c now x then ex_calls x @ [i] else ex_calls x)"
  using claim_confirmed [OF assms] assms(5,6)
  by (auto simp: resume_settled_calls resume_intent_calls split: option.splits)

lemma resume_reply_run:
  assumes ok: "conf_ok (cm_store (ex_conf x))" and c: "store_get (cm_store (ex_conf x)) cid = Some c"
    and live: "\<not> is_expired c now" and k: "cf_kind c = ActionConfirmation" and p: "cf_status c = Pending"
    and fresh: "cf_consumed_at c = None"
  shows "ex_calls (fst (resume_reply env U aid cid reply now x)) =
    (if classify_reply U reply = Confirmed then
       (case intent_from_confirmation (ex_redact x) c of None \<Rightarrow> ex_calls x
        | Some i \<Rightarrow> if resume_cleared env i (c\<lparr>cf_status := ConfirmedOnce\<rparr>) now x
                    then ex_calls x @ [i] else ex_calls x)
     else ex_calls x)"
proof -
  obtain m rr where r: "resolve_user_reply U cid reply now None (ex_conf x) = (m, rr)" by fastforce
  note [simp] = r
  have dec: "(cr_decision rr = RConfirmed) = (classify_reply U reply = Confirmed)"
    using reply_confirms(1) [OF ok c k p live, of U reply] by simp
  have red: "cm_redact m = ex_redact x" using redact_kept(4) [of U cid reply now None "ex_conf x"] by simp
  have ok': "conf_ok (cm_store m)"
    using step_good_change [OF conf_step.reply ok, of U cid reply now None] by (simp add: good_change_def)
  show ?thesis
  proof (cases "classify_reply U reply = Confirmed")
    case False
    then show ?thesis using dec by (simp add: resume_reply_def)
  next
    case True
    then have g: "store_get (cm_store m) cid = Some (c\<lparr>cf_status := ConfirmedOnce\<rparr>)"
      using reply_confirms(2) [OF ok c k p live, of U reply] by simp
    have "\<not> is_expired (c\<lparr>cf_status := ConfirmedOnce\<rparr>) now" using live by (simp add: is_expired_def)
    then show ?thesis
      using True dec g k fresh ok' red
        resume_settled_run [of "x\<lparr>ex_conf := m\<rparr>" cid "c\<lparr>cf_status := ConfirmedOnce\<rparr>" now env aid]
      by (simp add: resume_reply_def intent_from_status split: option.splits)
  qed
qed

lemma resume_calls_characterised:
  assumes ok: "conf_ok (cm_store (ex_conf x))"
  shows "ex_calls (fst (resume_confirmed env U aid cid reply now x)) =
    (case store_get (cm_store (ex_conf x)) cid of None \<Rightarrow> ex_calls x
     | Some c \<Rightarrow> (case confirmed_record U reply now c of None \<Rightarrow> ex_calls x
        | Some d \<Rightarrow> (case intent_from_confirmation (ex_redact x) d of None \<Rightarrow> ex_calls x
           | Some i \<Rightarrow> if resume_cleared env i d now x then ex_calls x @ [i] else ex_calls x)))"
proof -
  obtain m found where e: "expire_confirmation_if_needed cid now (ex_conf x) = (m, found)" by fastforce
  have found: "found = map_option (\<lambda>c. if is_expired c now then mark_expired c else c)
      (store_get (cm_store (ex_conf x)) cid)"
    and m: "cm_store m = fst (store_expire_if_needed cid now (cm_store (ex_conf x)))"
    using expire_one_store [of cid now "ex_conf x"] e by (simp_all add: expire_found)
  have red: "cm_redact m = ex_redact x" using redact_kept(3) [of cid now "ex_conf x"] e by simp
  show ?thesis
  proof (cases "store_get (cm_store (ex_conf x)) cid")
    case None
    then show ?thesis using found e by (simp add: resume_confirmed_def)
  next
    case (Some c)
    show ?thesis
    proof (cases "is_expired c now \<or> cf_kind c \<noteq> ActionConfirmation \<or> cf_consumed_at c \<noteq> None")
      case True
      then show ?thesis using found e Some
        by (auto simp: resume_confirmed_def confirmed_record_def Let_def)
    next
      case False
      then have st: "cm_store m = cm_store (ex_conf x)" using m expire_found(2) [OF _ Some, of now] by simp
      let ?x = "x\<lparr>ex_conf := m\<rparr>"
      have run: "ex_calls (fst (resume_confirmed env U aid cid reply now x)) =
          ex_calls (fst (if cf_status c = ExpiredStatus then resume_terminal aid ''denied'' ''confirmation expired'' now (Some cid) None ?x
            else if cf_status c = Pending then resume_reply env U aid cid reply now ?x
            else resume_settled env aid cid c now ?x))"
        using False found e Some by (simp add: resume_confirmed_def)
      have get: "store_get (cm_store (ex_conf ?x)) cid = Some c" and okx: "conf_ok (cm_store (ex_conf ?x))"
        and redx: "ex_redact ?x = ex_redact x" and callsx: "ex_calls ?x = ex_calls x"
        using st Some ok red by simp_all
      have live: "\<not> is_expired c now" "cf_kind c = ActionConfirmation" "cf_consumed_at c = None"
        using False by simp_all
      have reply: ?thesis if p: "cf_status c = Pending"
        using resume_reply_run [OF okx get live(1,2) p live(3), of env U aid reply] p live
        by (simp only: run redx callsx resume_cleared_conf Some option.case confirmed_record_def)
          (simp add: intent_from_status)
      have settled: ?thesis if p: "cf_status c = ConfirmedOnce"
        using resume_settled_run [OF okx get live(1,2) p live(3), of env aid] p live
        by (simp only: run redx callsx resume_cleared_conf Some option.case confirmed_record_def)
          simp
      have "cf_status c \<noteq> Pending \<Longrightarrow> cf_status c \<noteq> ConfirmedOnce \<Longrightarrow> ?thesis"
        using live by (simp only: run Some option.case confirmed_record_def)
          (simp add: resume_settled_calls)
      with reply settled show ?thesis by blast
    qed
  qed
qed

text \<open>
  C2. A resumption runs exactly what was confirmed: it calls the backend if and only if the stored
  request is an unexpired, unconsumed action confirmation that was confirmed before or is confirmed
  by this very reply, its snapshot is complete, its idempotency key is new, and gate (or resume
  check) and both permissions still allow it; then it calls it once, with the stored action.
\<close>

theorem resume_runs_only_confirmed:
  assumes ok: "conf_ok (cm_store (ex_conf x))"
  shows "ex_calls (fst (resume_confirmed env U aid cid reply now x)) =
    (case store_get (cm_store (ex_conf x)) cid of None \<Rightarrow> ex_calls x
     | Some c \<Rightarrow> (case confirmed_record U reply now c of None \<Rightarrow> ex_calls x
        | Some d \<Rightarrow> (case intent_from_confirmation (ex_redact x) d of None \<Rightarrow> ex_calls x
           | Some i \<Rightarrow> if resume_cleared env i d now x then ex_calls x @ [i] else ex_calls x)))"
  by (rule resume_calls_characterised [OF ok])

definition sample_resume_intent :: ActionIntent where
  "sample_resume_intent = empty_action_intent\<lparr>ai_action := ''light.on'', ai_scope := ''home''\<rparr>"

lemma sample_conf_intent:
  "intent_from_confirmation R (sample_conf cid kind st who) = Some sample_resume_intent"
  by (simp add: intent_from_confirmation_def sample_conf_def sample_resume_intent_def empty_action_intent_def
      json_of_strings_def sanitize_action_payload_def md_text_def nonblank_def opt_or_def)

lemma sample_resume_allows: "resume_allows sample_env sample_resume_intent c now"
  unfolding resume_allows_def by (simp add: sample_env_def) code_simp

lemma sample_resume_permits:
  "permits sample_env sample_resume_intent ''confirm_action''"
  "permits sample_env sample_resume_intent ''execute_action''"
  by code_simp+

lemma sample_resume_cleared:
  "resume_cleared sample_env sample_resume_intent c now (sample_executor cs q)"
  by (simp add: resume_cleared_def sample_resume_allows sample_resume_permits already_executed_def
      sample_executor_def split: option.splits)

lemma sample_yes: "classify_reply letters_only (ascii ''yes'') = Confirmed"
  by code_simp

lemma sample_store:
  "store_get (cm_store (ex_conf (sample_executor [sample_conf ''c1'' k st who] q))) ''c1''
     = Some (sample_conf ''c1'' k st who)"
  "conf_ok (cm_store (ex_conf (sample_executor [sample_conf ''c1'' k st who] q)))"
  by (simp_all add: sample_executor_def sample_manager_def store_get_def conf_ok_def sample_conf_def)

lemma sample_confirmed_record:
  "confirmed_record letters_only (ascii ''yes'') 10 (sample_conf ''c1'' ActionConfirmation Pending None)
     = Some (sample_conf ''c1'' ActionConfirmation ConfirmedOnce None)"
  by (simp add: confirmed_record_def sample_yes) (simp add: sample_conf_def is_expired_def)

lemma sample_resume_runs:
  "ex_calls (fst (resume_confirmed sample_env letters_only ''a1'' ''c1'' (ascii ''yes'') 10
      (sample_executor [sample_conf ''c1'' ActionConfirmation Pending None] None))) = [sample_resume_intent]"
  using resume_calls_characterised [OF sample_store(2), of sample_env letters_only "''a1''" "''c1''"
      "ascii ''yes''" 10 ActionConfirmation Pending None None]
  by (simp add: sample_store sample_confirmed_record sample_conf_intent sample_resume_cleared)
    (simp add: sample_executor_def)

theorem resume_runs_only_confirmed_witness:
  "ex_calls (fst (resume_confirmed sample_env letters_only ''a1'' ''c1'' (ascii ''yes'') 10
      (sample_executor [sample_conf ''c1'' ActionConfirmation Pending None] None))) = [sample_resume_intent]"
  using resume_runs_only_confirmed [OF sample_store(2), of sample_env letters_only "''a1''" "''c1''"
      "ascii ''yes''" 10 ActionConfirmation Pending None None]
  by (simp add: sample_store sample_confirmed_record sample_conf_intent sample_resume_cleared)
    (simp add: sample_executor_def)

subsection \<open>How the confirmations move\<close>

definition runs_spent :: "string \<Rightarrow> SafeActionExecutor \<Rightarrow> SafeActionExecutor \<Rightarrow> bool" where
  "runs_spent cid x y = (ex_calls y = ex_calls x \<or> conf_spent cid (ex_conf y))"

definition conf_moves :: "SafeActionExecutor \<Rightarrow> SafeActionExecutor \<Rightarrow> bool" where
  "conf_moves x y = conf_step\<^sup>*\<^sup>* (ex_conf x) (ex_conf y)"

lemma conf_moves_refl [simp]: "ex_conf y = ex_conf x \<Longrightarrow> conf_moves x y"
  by (simp add: conf_moves_def)

lemma conf_moves_trans: "conf_step (ex_conf x) m \<Longrightarrow> conf_moves (x\<lparr>ex_conf := m\<rparr>) y \<Longrightarrow> conf_moves x y"
  by (simp add: conf_moves_def converse_rtranclp_into_rtranclp)

lemma runs_spent_conf [simp]: "runs_spent cid (x\<lparr>ex_conf := m\<rparr>) y = runs_spent cid x y"
  by (simp add: runs_spent_def)

lemma runs_spent_same: "ex_calls y = ex_calls x \<Longrightarrow> runs_spent cid x y"
  by (simp add: runs_spent_def)

lemma resume_claim_moves:
  assumes "conf_ok (cm_store (ex_conf x))"
  shows "runs_spent cid x (fst (resume_claim env aid cid i dec p now x))"
    and "conf_moves x (fst (resume_claim env aid cid i dec p now x))"
proof -
  show "runs_spent cid x (fst (resume_claim env aid cid i dec p now x))"
  proof (cases "snd (claim_consumption cid now [ActionConfirmation] (ex_conf x))")
    case None
    then show ?thesis by (simp add: runs_spent_def resume_claim_calls)
  next
    case (Some c)
    then have "claim_consumption cid now [ActionConfirmation] (ex_conf x)
        = (fst (claim_consumption cid now [ActionConfirmation] (ex_conf x)), Some c)" by (metis prod.collapse)
    then show ?thesis
      using claims.claim_spends [of "ex_conf x" cid "(now, [ActionConfirmation])"] assms
      by (simp add: runs_spent_def resume_claim_conf)
  qed
  show "conf_moves x (fst (resume_claim env aid cid i dec p now x))"
    unfolding conf_moves_def resume_claim_conf by (rule r_into_rtranclp) (rule conf_step.consume)
qed

lemma resume_settled_moves:
  assumes "conf_ok (cm_store (ex_conf x))"
  shows "runs_spent cid x (fst (resume_settled env aid cid c now x))"
    and "conf_moves x (fst (resume_settled env aid cid c now x))"
proof -
  have perm: "runs_spent cid x (fst (resume_permitted env aid cid i dec now x))
      \<and> conf_moves x (fst (resume_permitted env aid cid i dec now x))" for i dec
    using resume_claim_moves [OF assms] by (simp add: resume_permitted_def Let_def runs_spent_same split: sum.splits)
  have gated: "runs_spent cid x (fst (resume_gated env aid cid i dec now x))
      \<and> conf_moves x (fst (resume_gated env aid cid i dec now x))" for i dec
    using perm by (simp add: resume_gated_def runs_spent_same)
  have "runs_spent cid x (fst (resume_intent env aid cid c now x))
      \<and> conf_moves x (fst (resume_intent env aid cid c now x))"
    using gated by (simp add: resume_intent_def runs_spent_same split: option.splits sum.splits)
  then show "runs_spent cid x (fst (resume_settled env aid cid c now x))"
    and "conf_moves x (fst (resume_settled env aid cid c now x))"
    by (simp_all add: resume_settled_def runs_spent_same)
qed

lemma resume_reply_moves:
  assumes ok: "conf_ok (cm_store (ex_conf x))"
  shows "runs_spent cid x (fst (resume_reply env U aid cid reply now x))
    \<and> conf_moves x (fst (resume_reply env U aid cid reply now x))"
proof -
  obtain m rr where r: "resolve_user_reply U cid reply now None (ex_conf x) = (m, rr)" by fastforce
  then have st: "conf_step (ex_conf x) m" using conf_step.reply by (metis fst_conv)
  then have ok': "conf_ok (cm_store (ex_conf (x\<lparr>ex_conf := m\<rparr>)))"
    using step_good_change [OF st ok] by (simp add: good_change_def)
  have here: "conf_moves x (fst (resume_terminal aid s rs now k i (x\<lparr>ex_conf := m\<rparr>)))" for s rs k i
    by (rule conf_moves_trans [OF st]) simp
  show ?thesis
    using resume_settled_moves [OF ok'] conf_moves_trans [OF st] here
    by (simp add: resume_reply_def r Let_def runs_spent_same split: option.splits)
qed

lemma resume_confirmed_moves:
  assumes ok: "conf_ok (cm_store (ex_conf x))"
  shows "runs_spent cid x (fst (resume_confirmed env U aid cid reply now x))
    \<and> conf_moves x (fst (resume_confirmed env U aid cid reply now x))"
proof -
  obtain m found where r: "expire_confirmation_if_needed cid now (ex_conf x) = (m, found)" by fastforce
  then have st: "conf_step (ex_conf x) m" using conf_step.expire_one by (metis fst_conv)
  then have ok': "conf_ok (cm_store (ex_conf (x\<lparr>ex_conf := m\<rparr>)))"
    using step_good_change [OF st ok] by (simp add: good_change_def)
  have here: "conf_moves x (fst (resume_terminal aid s rs now k i (x\<lparr>ex_conf := m\<rparr>)))" for s rs k i
    by (rule conf_moves_trans [OF st]) simp
  show ?thesis
    using resume_settled_moves [OF ok'] resume_reply_moves [OF ok'] conf_moves_trans [OF st] here
    by (simp add: resume_confirmed_def r Let_def runs_spent_same split: option.splits)
qed

lemma submit_moves:
  assumes "fresh_id n (ex_conf x)"
  shows "conf_moves x (fst (submit env n aid now intent x))"
proof -
  have confirm: "conf_moves x (fst (submit_confirm env n aid i dec sp now x))" for i dec sp
    using conf_step.create [OF assms]
    by (auto simp: submit_confirm_def Let_def conf_moves_def split_beta split: sum.splits option.splits)
  have "conf_moves x (fst (submit_gated env n aid i sp now x))" for i sp
    using confirm by (simp add: submit_gated_def Let_def submit_allowed_conf)
  then show ?thesis by (simp add: submit_def Let_def split: option.splits)
qed

end
