(* ===== verification/Motor.thy ===== *)
theory Motor
  imports ActionRuntime "HOL-Library.Sublist"
begin

text \<open>
  \<^verbatim>\<open>OriginAgent/agent/epic_motor.py\<close>: the queue of permitted commands and the processor that
  dispatches them on a beat, and the runs of the whole executor: submissions, resumptions, other
  work on the confirmations, beats of the motor and restarts, in any order. A beat hands its
  commands to worker threads at once; the model dispatches them in queue order, which fixes the
  order of the backend calls but neither which calls are made nor which keys are remembered.
\<close>

section \<open>The queue\<close>

definition motor_enqueue :: "EpicMotorCommand \<Rightarrow> EpicMotorCommand list \<Rightarrow> EpicMotorCommand list" where
  "motor_enqueue c q = q @ [c]"

text \<open>
  The scan of \<open>dequeue_ready\<close>: \<open>n\<close> commands are taken so far, \<open>seen\<close> says that one of them was not
  parallel. The result is the commands taken and the commands left, both in queue order.
\<close>

fun dequeue_scan ::
    "int \<Rightarrow> int \<Rightarrow> int \<Rightarrow> bool \<Rightarrow> EpicMotorCommand list \<Rightarrow> EpicMotorCommand list \<times> EpicMotorCommand list" where
  "dequeue_scan now limit n seen [] = ([], [])"
| "dequeue_scan now limit n seen (c # cs) =
     (if limit \<le> n then ([], c # cs)
      else if now < mc_ready_at c then
        (let (r, l) = dequeue_scan now limit n seen cs in (r, c # l))
      else if \<not> mc_requires_parallel c \<and> seen then
        (let (r, l) = dequeue_scan now limit n seen cs in (r, c # l))
      else
        (let (r, l) = dequeue_scan now limit (n + 1) (seen \<or> \<not> mc_requires_parallel c) cs in (c # r, l)))"

definition dequeue_ready ::
    "int \<Rightarrow> int \<Rightarrow> EpicMotorCommand list \<Rightarrow> EpicMotorCommand list \<times> EpicMotorCommand list" where
  "dequeue_ready now limit q = (if limit \<le> 0 then ([], q) else dequeue_scan now limit 0 False q)"

section \<open>The processor\<close>

definition dispatch ::
    "ActionEnv \<Rightarrow> EpicMotorCommand \<Rightarrow> SafeActionExecutor \<Rightarrow> SafeActionExecutor \<times> ActionExecutionResult" where
  "dispatch env c x =
     (let (x1, r) = execute_allowed env (mc_action_id c) (mc_intent c) (mc_decision c) x
      in (remember_key (mc_intent c) r x1, r))"

fun dispatch_all ::
    "ActionEnv \<Rightarrow> EpicMotorCommand list \<Rightarrow> SafeActionExecutor
     \<Rightarrow> SafeActionExecutor \<times> ActionExecutionResult list" where
  "dispatch_all env [] x = (x, [])"
| "dispatch_all env (c # cs) x =
     (let (x1, r) = dispatch env c x; (x2, rs) = dispatch_all env cs x1 in (x2, r # rs))"

definition tick ::
    "ActionEnv \<Rightarrow> int \<Rightarrow> int \<Rightarrow> SafeActionExecutor \<Rightarrow> SafeActionExecutor \<times> ActionExecutionResult list" where
  "tick env limit now x =
     (case ex_queue x of
        None \<Rightarrow> (x, [])
      | Some q \<Rightarrow>
          let (ready, left) = dequeue_ready now limit q; x1 = x\<lparr>ex_queue := Some left\<rparr>
          in if ready = [] then (x1, []) else dispatch_all env ready x1)"

text \<open>\<^verbatim>\<open>run_forever\<close> for as many beats as \<^verbatim>\<open>is_running()\<close> allows, at the given times.\<close>

fun run_beats :: "ActionEnv \<Rightarrow> int \<Rightarrow> int list \<Rightarrow> SafeActionExecutor \<Rightarrow> SafeActionExecutor" where
  "run_beats env limit [] x = x"
| "run_beats env limit (now # ts) x = run_beats env limit ts (fst (tick env limit now x))"

section \<open>What a beat takes and leaves\<close>

lemma scan_partition:
  "dequeue_scan now limit n seen q = (r, l) \<Longrightarrow> mset q = mset r + mset l \<and> subseq r q \<and> subseq l q"
  by (induction now limit n seen q arbitrary: r l rule: dequeue_scan.induct)
    (auto simp: Let_def split: if_splits prod.splits)

lemma scan_bounds:
  "dequeue_scan now limit n seen q = (r, l) \<Longrightarrow>
     (\<forall>c \<in> set r. mc_ready_at c \<le> now) \<and> (n \<le> limit \<longrightarrow> n + int (length r) \<le> limit)
     \<and> length (filter (\<lambda>c. \<not> mc_requires_parallel c) r) \<le> (if seen then 0 else 1)"
  by (induction now limit n seen q arbitrary: r l rule: dequeue_scan.induct)
    (fastforce simp: Let_def split: if_splits prod.splits)+

lemma scan_maximal:
  "dequeue_scan now limit n seen q = (r, l) \<Longrightarrow> n + int (length r) < limit \<Longrightarrow> c \<in> set l \<Longrightarrow>
     now < mc_ready_at c
     \<or> \<not> mc_requires_parallel c \<and> (seen \<or> (\<exists>d \<in> set r. \<not> mc_requires_parallel d))"
  by (induction now limit n seen q arbitrary: r l rule: dequeue_scan.induct)
    (fastforce simp: Let_def split: if_splits prod.splits)+

lemma scan_first:
  "dequeue_scan now limit 0 False (c # q) = (r, l) \<Longrightarrow> 0 < limit \<Longrightarrow> mc_ready_at c \<le> now \<Longrightarrow>
     \<exists>r'. r = c # r'"
  by (auto simp: Let_def split: prod.splits)

text \<open>
  A beat takes the right commands: it takes and leaves every queued command exactly once and
  both in queue order, takes only commands that are due, at most the limit of them and at most
  one that is not parallel; a command that is left although there was room is not due yet or
  is a further one that is not parallel; and a due command at the head is always taken.
\<close>

theorem dequeue_ready_correct:
  assumes "dequeue_ready now limit q = (r, l)" and "0 < limit"
  shows "mset q = mset r + mset l \<and> subseq r q \<and> subseq l q
    \<and> (\<forall>c \<in> set r. mc_ready_at c \<le> now) \<and> int (length r) \<le> limit
    \<and> length (filter (\<lambda>c. \<not> mc_requires_parallel c) r) \<le> 1
    \<and> (\<forall>c \<in> set l. int (length r) < limit \<longrightarrow>
         now < mc_ready_at c \<or> \<not> mc_requires_parallel c \<and> (\<exists>d \<in> set r. \<not> mc_requires_parallel d))
    \<and> (q \<noteq> [] \<longrightarrow> mc_ready_at (hd q) \<le> now \<longrightarrow> r \<noteq> [] \<and> hd r = hd q)"
proof -
  have s: "dequeue_scan now limit 0 False q = (r, l)" using assms by (simp add: dequeue_ready_def)
  have head: "q \<noteq> [] \<longrightarrow> mc_ready_at (hd q) \<le> now \<longrightarrow> r \<noteq> [] \<and> hd r = hd q"
  proof (cases q)
    case (Cons c q')
    then show ?thesis using scan_first [of now limit c q' r l] s assms(2) by auto
  qed simp
  have left: "\<forall>c \<in> set l. int (length r) < limit \<longrightarrow>
         now < mc_ready_at c \<or> \<not> mc_requires_parallel c \<and> (\<exists>d \<in> set r. \<not> mc_requires_parallel d)"
    using scan_maximal [OF s] by auto
  show ?thesis using scan_partition [OF s] scan_bounds [OF s] assms(2) head left by auto
qed

lemma dequeue_facts:
  assumes "dequeue_ready now limit q = (r, l)" and "0 < limit"
  shows "mset q = mset r + mset l" and "q \<noteq> [] \<Longrightarrow> mc_ready_at (hd q) \<le> now \<Longrightarrow> r \<noteq> []"
proof -
  have s: "dequeue_scan now limit 0 False q = (r, l)" using assms by (simp add: dequeue_ready_def)
  show "mset q = mset r + mset l" using scan_partition [OF s] by simp
  show "q \<noteq> [] \<Longrightarrow> mc_ready_at (hd q) \<le> now \<Longrightarrow> r \<noteq> []"
    using s assms(2) by (cases q) (auto split: prod.splits)
qed

definition sample_command :: "string \<Rightarrow> bool \<Rightarrow> int \<Rightarrow> EpicMotorCommand" where
  "sample_command aid par ready = \<lparr>mc_action_id = aid, mc_intent = sample_intent,
     mc_decision = mk_decision ''allow'' ''ok'', mc_enqueued_at = 0, mc_ready_at = ready,
     mc_duration_ms = 0, mc_requires_parallel = par\<rparr>"

text \<open>
  A command that is not parallel shares its beat with parallel ones, although the comment on
  \<^verbatim>\<open>requires_parallel\<close> says that it must own the beat.
\<close>

lemma exclusive_command_shares_beat:
  "dequeue_ready 5 4 [sample_command ''a'' False 0, sample_command ''b'' True 0]
     = ([sample_command ''a'' False 0, sample_command ''b'' True 0], [])"
  by (simp add: dequeue_ready_def sample_command_def)

theorem dequeue_ready_correct_witness:
  "int (length (fst (dequeue_ready 5 1 [sample_command ''a'' False 0, sample_command ''b'' True 9]))) \<le> 1
   \<and> hd (fst (dequeue_ready 5 1 [sample_command ''a'' False 0, sample_command ''b'' True 9]))
       = sample_command ''a'' False 0"
  using dequeue_ready_correct [of 5 1 "[sample_command ''a'' False 0, sample_command ''b'' True 9]"
      "fst (dequeue_ready 5 1 [sample_command ''a'' False 0, sample_command ''b'' True 9])"
      "snd (dequeue_ready 5 1 [sample_command ''a'' False 0, sample_command ''b'' True 9])"]
  by (simp add: sample_command_def)

section \<open>Dispatching\<close>

lemma dispatch_simps [simp]:
  "ex_calls (fst (dispatch env c x)) = ex_calls x @ [mc_intent c]"
  "ex_conf (fst (dispatch env c x)) = ex_conf x"
  "ex_queue (fst (dispatch env c x)) = ex_queue x"
  by (simp_all add: dispatch_def split_beta)

lemma dispatch_all_simps [simp]:
  "ex_calls (fst (dispatch_all env cs x)) = ex_calls x @ map mc_intent cs"
  "ex_conf (fst (dispatch_all env cs x)) = ex_conf x"
  "ex_queue (fst (dispatch_all env cs x)) = ex_queue x"
  "length (snd (dispatch_all env cs x)) = length cs"
  by (induction cs arbitrary: x) (simp_all add: Let_def split_beta)

lemma tick_simps:
  "ex_conf (fst (tick env limit now x)) = ex_conf x"
  "ex_queue x = Some q \<Longrightarrow> ex_queue (fst (tick env limit now x)) = Some (snd (dequeue_ready now limit q))"
  "ex_queue x = Some q \<Longrightarrow>
     ex_calls (fst (tick env limit now x)) = ex_calls x @ map mc_intent (fst (dequeue_ready now limit q))"
  by (auto simp: tick_def Let_def split_beta split: option.splits)

lemma beat_progress:
  assumes "ex_queue x = Some (c # q)" and "\<forall>d \<in> set (c # q). mc_ready_at d \<le> now" and "0 < limit"
  shows "\<exists>l. ex_queue (fst (tick env limit now x)) = Some l \<and> length l < length (c # q)
    \<and> set l \<subseteq> set (c # q)
    \<and> mset (ex_calls (fst (tick env limit now x))) + mset (map mc_intent l)
        = mset (ex_calls x) + mset (map mc_intent (c # q))"
proof -
  obtain r l where d: "dequeue_ready now limit (c # q) = (r, l)" by fastforce
  note f = dequeue_facts [OF d assms(3)]
  have "r \<noteq> []" using f(2) assms(2) by simp
  then have "length l < length (c # q)" using arg_cong [OF f(1), of size] by (cases r) auto
  moreover have "set l \<subseteq> set (c # q)" using arg_cong [OF f(1), of set_mset] by auto
  moreover have "mset (map mc_intent (c # q)) = mset (map mc_intent r) + mset (map mc_intent l)"
    using f(1) by (metis image_mset_union mset_map)
  ultimately show ?thesis using tick_simps(2,3) [OF assms(1), of env limit now] d by simp
qed

text \<open>
  C38. No command is lost or run twice by the motor: when everything queued is due, at most as many
  beats as there are commands empty the queue, and the backend calls made on the way are exactly
  the queued intents, each once.
\<close>

theorem motor_drains:
  assumes "ex_queue x = Some q" and "\<forall>c \<in> set q. mc_ready_at c \<le> now" and "0 < limit"
  shows "\<exists>k \<le> length q. ex_queue (run_beats env limit (replicate k now) x) = Some []
    \<and> mset (ex_calls (run_beats env limit (replicate k now) x))
        = mset (ex_calls x) + mset (map mc_intent q)"
  using assms
proof (induction "length q" arbitrary: q x rule: less_induct)
  case less
  show ?case
  proof (cases q)
    case Nil
    then show ?thesis using less.prems(1) by (intro exI [of _ 0]) simp
  next
    case (Cons c q')
    let ?y = "fst (tick env limit now x)"
    obtain l where l: "ex_queue ?y = Some l" "length l < length q" "set l \<subseteq> set q"
        "mset (ex_calls ?y) + mset (map mc_intent l) = mset (ex_calls x) + mset (map mc_intent q)"
      using beat_progress [of x c q' now limit env] less.prems Cons by auto
    have "\<forall>c \<in> set l. mc_ready_at c \<le> now" using l(3) less.prems(2) by blast
    from less.hyps [OF l(2,1) this less.prems(3)] obtain k where
      k: "k \<le> length l" "ex_queue (run_beats env limit (replicate k now) ?y) = Some []"
        "mset (ex_calls (run_beats env limit (replicate k now) ?y)) = mset (ex_calls ?y) + mset (map mc_intent l)"
      by blast
    have "run_beats env limit (replicate (Suc k) now) x = run_beats env limit (replicate k now) ?y" by simp
    with k l(2,4) show ?thesis by (intro exI [of _ "Suc k"]) auto
  qed
qed

theorem motor_drains_witness:
  "\<exists>k \<le> 1. ex_queue (run_beats sample_env 4 (replicate k 5)
      (sample_executor [] (Some [sample_command ''a'' False 0]))) = Some []"
  using motor_drains [of "sample_executor [] (Some [sample_command ''a'' False 0])"
      "[sample_command ''a'' False 0]" 5 4 sample_env]
  by (auto simp: sample_executor_def sample_command_def)

section \<open>Runs of the executor\<close>

text \<open>
  One step of the executor among its users. A restart is a step while the file of idempotency keys
  still fits into the number of lines that are loaded.
\<close>

inductive exec_step :: "SafeActionExecutor \<Rightarrow> SafeActionExecutor \<Rightarrow> bool" where
  submit: "fresh_id n (ex_conf x) \<Longrightarrow> exec_step x (fst (submit env n aid now intent x))"
| resume: "exec_step x (fst (resume_confirmed env U aid cid reply now x))"
| manager: "conf_step (ex_conf x) m \<Longrightarrow> exec_step x (x\<lparr>ex_conf := m\<rparr>)"
| beat: "exec_step x (fst (tick env limit now x))"
| reboot: "length (ex_key_file x) \<le> MAX_LOADED \<Longrightarrow> exec_step x (restart x)"

lemma exec_step_conf:
  assumes "exec_step x y" and "conf_ok (cm_store (ex_conf x))"
  shows "conf_step\<^sup>*\<^sup>* (ex_conf x) (ex_conf y)"
  using assms
proof (induction rule: exec_step.induct)
  case (submit n x env aid now intent)
  then show ?case using submit_moves by (simp add: conf_moves_def)
next
  case (resume x env U aid cid reply now)
  then show ?case using resume_confirmed_moves by (simp add: conf_moves_def)
qed (simp_all add: tick_simps restart_def r_into_rtranclp)

lemma conf_steps_ok: "conf_step\<^sup>*\<^sup>* m n \<Longrightarrow> conf_ok (cm_store m) \<Longrightarrow> conf_ok (cm_store n)"
  by (induction rule: rtranclp_induct) (auto simp: good_change_def dest: step_good_change)

definition spent_state :: "string \<Rightarrow> SafeActionExecutor \<Rightarrow> bool" where
  "spent_state cid x = (conf_ok (cm_store (ex_conf x)) \<and> conf_spent cid (ex_conf x))"

interpretation spent: safe_system "spent_state cid" exec_step "spent_state cid" for cid
proof unfold_locales
  fix x y assume "spent_state cid x" and "exec_step x y"
  then show "spent_state cid y"
    using claims.steps_spent [OF exec_step_conf] by (auto simp: spent_state_def)
qed

lemma spent_resume:
  assumes "spent_state cid x"
  shows "ex_calls (fst (resume_confirmed env U aid cid reply now x)) = ex_calls x"
proof -
  from assms have ok: "conf_ok (cm_store (ex_conf x))" by (simp add: spent_state_def)
  from assms obtain c where "c \<in> set (cm_store (ex_conf x))" "cf_id c = cid" "cf_consumed_at c \<noteq> None"
    by (auto simp: spent_state_def conf_spent_def)
  then have "store_get (cm_store (ex_conf x)) cid = Some c" using get_iff [OF ok] by blast
  then show ?thesis using \<open>cf_consumed_at c \<noteq> None\<close>
    by (simp add: resume_calls_characterised [OF ok] confirmed_record_def)
qed

text \<open>
  C1. A confirmation runs its action at most once. After a resumption that reached the backend, no
  run of submissions, resumptions, replies, retries, sweeps, beats of the motor and restarts makes
  a further resumption of the same confirmation reach it, whatever the reply and the time.
\<close>

theorem confirmation_executes_once:
  assumes ok: "conf_ok (cm_store (ex_conf x))"
    and run: "ex_calls (fst (resume_confirmed env U aid cid reply now x)) \<noteq> ex_calls x"
    and steps: "exec_step\<^sup>*\<^sup>* (fst (resume_confirmed env U aid cid reply now x)) y"
  shows "ex_calls (fst (resume_confirmed env' U' aid' cid reply' now' y)) = ex_calls y"
proof -
  let ?x1 = "fst (resume_confirmed env U aid cid reply now x)"
  have "runs_spent cid x ?x1" and "conf_moves x ?x1" using resume_confirmed_moves [OF ok] by auto
  then have "spent_state cid ?x1"
    using run conf_steps_ok ok by (auto simp: spent_state_def runs_spent_def conf_moves_def)
  then show ?thesis using steps by (intro spent_resume) (rule spent.reachable_inv)
qed

theorem confirmation_executes_once_witness:
  "ex_calls (fst (resume_confirmed sample_env letters_only ''a2'' ''c1'' (ascii ''yes'') 11
      (fst (resume_confirmed sample_env letters_only ''a1'' ''c1'' (ascii ''yes'') 10
        (sample_executor [sample_conf ''c1'' ActionConfirmation Pending None] None))))) = [sample_resume_intent]"
proof -
  let ?x = "sample_executor [sample_conf ''c1'' ActionConfirmation Pending None] None"
  let ?y = "fst (resume_confirmed sample_env letters_only ''a1'' ''c1'' (ascii ''yes'') 10 ?x)"
  have run: "ex_calls ?y = [sample_resume_intent]" by (rule sample_resume_runs)
  then have "ex_calls ?y \<noteq> ex_calls ?x" by (simp add: sample_executor_def)
  from confirmation_executes_once [OF sample_store(2) this rtranclp.rtrancl_refl] run show ?thesis by simp
qed

subsection \<open>Idempotency keys\<close>

definition remembered :: "string \<Rightarrow> SafeActionExecutor \<Rightarrow> bool" where
  "remembered k x = (k \<noteq> [] \<and> k \<in> ex_keys x \<and> k \<in> set (ex_key_file x))"

lemma remember_key_grows: "remembered k x \<Longrightarrow> remembered k (remember_key i r x)"
  by (auto simp: remembered_def remember_key_def split: option.splits)

lemma remembered_same:
  "ex_keys y = ex_keys x \<Longrightarrow> ex_key_file y = ex_key_file x \<Longrightarrow> remembered k y = remembered k x"
  by (simp add: remembered_def)

lemma remembered_simps [simp]:
  "remembered k (record_action aid i dec r now x) = remembered k x"
  "remembered k (record_without_decision aid i r now g x) = remembered k x"
  "remembered k (simulation_feedback env i r x) = remembered k x"
  "remembered k (fst (settle_result env aid i dec sp now r x)) = remembered k x"
  "remembered k (fst (resume_terminal aid st rsn now cid j x)) = remembered k x"
  "remembered k (fst (resume_decided st aid rsn i dec cid' now x)) = remembered k x"
  "remembered k (fst (execute_allowed env aid i dec x)) = remembered k x"
  "remembered k (fst (enqueue_motor_command aid i dec now q x)) = remembered k x"
  "remembered k (x\<lparr>ex_conf := m\<rparr>) = remembered k x"
  "remembered k (x\<lparr>ex_queue := qo\<rparr>) = remembered k x"
  by (simp_all add: remembered_def)

lemma remembered_submit:
  assumes "remembered k x" shows "remembered k (fst (submit env n aid now intent x))"
proof -
  have confirm: "remembered k (fst (submit_confirm env n aid i dec sp now x))" for i dec sp
    using assms by (simp add: submit_confirm_def Let_def split_beta split: sum.splits option.splits)
  have "remembered k (fst (submit_allowed env aid i dec sp now x))" for i dec sp
    using assms by (simp add: submit_allowed_def Let_def split_beta remember_key_grows
        split: sum.splits option.splits)
  then have "remembered k (fst (submit_gated env n aid i sp now x))" for i sp
    using assms confirm by (simp add: submit_gated_def Let_def)
  then show ?thesis using assms by (simp add: submit_def Let_def split: option.splits)
qed

lemma remembered_resume:
  assumes "remembered k x" shows "remembered k (fst (resume_confirmed env U aid cid reply now x))"
proof -
  have "remembered k (fst (resume_claim env aid cid i dec p now y))" if "remembered k y" for i dec p y
    using that by (simp add: resume_claim_def Let_def split_beta remember_key_grows split: option.splits)
  then have "remembered k (fst (resume_gated env aid cid i dec now y))" if "remembered k y" for i dec y
    using that by (simp add: resume_gated_def resume_permitted_def Let_def split: sum.splits)
  then have settled: "remembered k (fst (resume_settled env aid cid c now y))" if "remembered k y" for c y
    using that by (simp add: resume_settled_def resume_intent_def split: option.splits sum.splits)
  have "remembered k (fst (resume_reply env U aid cid reply now y))" if "remembered k y" for y
    using that settled by (simp add: resume_reply_def Let_def split_beta split: option.splits)
  then show ?thesis using assms settled
    by (simp add: resume_confirmed_def Let_def split_beta split: option.splits)
qed

lemma remembered_dispatch_all:
  "remembered k x \<Longrightarrow> remembered k (fst (dispatch_all env cs x))"
  by (induction cs arbitrary: x) (simp_all add: Let_def split_beta dispatch_def remember_key_grows)

lemma remembered_tick: "remembered k x \<Longrightarrow> remembered k (fst (tick env limit now x))"
  by (simp add: tick_def Let_def split_beta remembered_dispatch_all split: option.splits)

lemma remembered_restart:
  "length (ex_key_file x) \<le> MAX_LOADED \<Longrightarrow> remembered k x \<Longrightarrow> remembered k (restart x)"
  by (simp add: remembered_def restart_def load_keys_def last_n_def MAX_LOADED_def)

interpretation remembering: safe_system "remembered k" exec_step "remembered k" for k
  by unfold_locales
    (auto elim!: exec_step.cases intro: remembered_submit remembered_resume remembered_tick remembered_restart)

lemma sanitized_key [simp]: "ai_idempotency_key (sanitized R i) = ai_idempotency_key i"
  by (simp add: sanitized_def)

lemma attach_status [simp]: "succeeded (attach_simulation sp r) = succeeded r"
  by (simp add: succeeded_def attach_simulation_def split: option.splits)

lemma settle_result_snd [simp]: "snd (settle_result env aid i dec sp now r x) = Inr (attach_simulation sp r)"
  by (simp add: settle_result_def Let_def)

lemma failing_results [simp]:
  "st \<notin> {''executed'', ''dry_run''} \<Longrightarrow> \<not> succeeded (mk_exec_result st aid rsn)"
  "\<not> succeeded (permission_result aid dec p cid)"
  "succeeded (r\<lparr>rs_confirmation_id := a\<rparr>) = succeeded r"
  "succeeded (r\<lparr>rs_decision := b\<rparr>) = succeeded r"
  "succeeded (r\<lparr>rs_permission_status := c\<rparr>) = succeeded r"
  by (simp_all add: succeeded_def mk_exec_result_def permission_result_def)

lemma confirm_fails: "snd (submit_confirm env n aid i dec sp now x) = Inr r \<Longrightarrow> \<not> succeeded r"
  by (auto simp: submit_confirm_def Let_def split_beta split: sum.splits option.splits if_splits)

lemma confirm_fails_pair: "submit_confirm env n aid i dec sp now x = (y, Inr r) \<Longrightarrow> \<not> succeeded r"
  using confirm_fails [of env n aid i dec sp now x r] by simp

lemma remember_key_new:
  "ai_idempotency_key i = Some k \<Longrightarrow> k \<noteq> [] \<Longrightarrow> succeeded r \<Longrightarrow> k \<notin> ex_keys x \<Longrightarrow>
   remembered k (remember_key i r x)"
  by (simp add: remember_key_def remembered_def)

lemma allowed_remembers:
  assumes "submit_allowed env aid i dec sp now x = (y, Inr r)" and "succeeded r"
    and "ai_idempotency_key i = Some k" and "k \<noteq> []" and "k \<notin> ex_keys x"
  shows "remembered k y"
proof -
  obtain x1 r0 where e: "execute_allowed env aid i dec x = (x1, r0)" by fastforce
  then have "ex_keys x1 = ex_keys x" by (metis execute_allowed_simps(3) fst_conv)
  with assms show ?thesis
    by (auto simp: submit_allowed_def Let_def e enqueue_motor_command_def settle_result_def
        intro!: remember_key_new split: sum.splits option.splits if_splits)
qed

lemma submit_remembers:
  assumes "submit env n aid now intent x = (y, Inr r)" and "succeeded r"
    and "ai_idempotency_key intent = Some k" and "k \<noteq> []"
  shows "remembered k y"
proof -
  let ?i0 = "sanitized (ex_redact x) intent"
  let ?sp = "run_precheck env ?i0"
  have new: "k \<notin> ex_keys x"
  proof
    assume "k \<in> ex_keys x"
    then have "already_executed (ai_idempotency_key ?i0) x" using assms(3,4) by (simp add: already_executed_def)
    then show False using assms(1,2) by (auto simp: submit_def Let_def)
  qed
  then have fresh: "\<not> already_executed (ai_idempotency_key ?i0) x"
    using assms(3) by (simp add: already_executed_def)
  have go: "submit_gated env n aid (with_trace ?sp ?i0) ?sp now x = (y, Inr r)"
    using assms(1,2) fresh by (auto simp: submit_def Let_def split: option.splits if_splits)
  have "submit_allowed env aid (with_trace ?sp ?i0) (env_gate env (to_request ?i0)) ?sp now x = (y, Inr r)"
    using go assms(2)
    by (auto dest: confirm_fails_pair simp: submit_gated_def Let_def settle_result_def split: if_splits)
  from allowed_remembers [OF this assms(2) _ assms(4) new] show ?thesis using assms(3) by simp
qed

text \<open>
  A key that ran does not run again. Once a submission under an idempotency key has executed,
  then after any run of the executor, restarts included, a submission under the same key is
  answered \<open>already_executed\<close> and calls neither the backend nor the motor.
\<close>

theorem executed_key_never_reruns:
  assumes "submit env n aid now intent x = (y, Inr r)" and "succeeded r"
    and "ai_idempotency_key intent = Some k" and "k \<noteq> []" and "exec_step\<^sup>*\<^sup>* y z"
    and "ai_idempotency_key intent' = Some k"
  shows "\<exists>z' r'. submit env' n' aid' now' intent' z = (z', Inr r') \<and> rs_status r' = ''already_executed''
    \<and> ex_calls z' = ex_calls z \<and> ex_queue z' = ex_queue z \<and> ex_conf z' = ex_conf z"
proof -
  have "remembered k z"
    using remembering.reachable_inv [OF submit_remembers [OF assms(1-4)] assms(5)] .
  then have "already_executed (ai_idempotency_key (sanitized (ex_redact z) intent')) z"
    using assms(6) by (simp add: already_executed_def remembered_def)
  then show ?thesis by (simp add: submit_def Let_def mk_exec_result_def)
qed

lemma sample_submit_runs:
  "\<exists>y r. submit sample_env ''1'' ''a1'' 0 sample_intent (sample_executor [] None) = (y, Inr r) \<and> succeeded r"
proof -
  let ?x = "sample_executor [] None"
  have c: "cleared sample_env sample_intent ?x" by (rule sample_cleared)
  have pre: "run_precheck sample_env i = None" for i by (simp add: run_precheck_def sample_env_def)
  obtain x1 r0 where e: "execute_allowed sample_env ''a1'' sample_intent
      (env_gate sample_env (to_request sample_intent)) ?x = (x1, r0)" by fastforce
  then have "succeeded r0"
    by (auto simp: execute_allowed_def sample_env_def is_dry_run_result_def succeeded_def mk_exec_result_def)
  moreover have "ex_queue ?x = None" by (simp add: sample_executor_def)
  ultimately show ?thesis
    using c e sample_gate
    by (simp add: submit_def sample_intent_sanitized Let_def pre with_trace_def submit_gated_def
        asks_confirmation_def submit_allowed_def sample_permission cleared_def)
qed

theorem executed_key_never_reruns_witness:
  "\<exists>y r z' r'. submit sample_env ''1'' ''a1'' 0 sample_intent (sample_executor [] None) = (y, Inr r)
     \<and> submit sample_env ''2'' ''a2'' 9 sample_intent y = (z', Inr r')
     \<and> rs_status r' = ''already_executed'' \<and> ex_calls z' = ex_calls y"
proof -
  obtain y r where s: "submit sample_env ''1'' ''a1'' 0 sample_intent (sample_executor [] None) = (y, Inr r)"
    "succeeded r" using sample_submit_runs by blast
  have k: "ai_idempotency_key sample_intent = Some ''k1''" by (simp add: sample_intent_def)
  from executed_key_never_reruns [OF s k _ rtranclp.rtrancl_refl k] s(1) show ?thesis by blast
qed

text \<open>
  The motor defeats the idempotency check: a cleared submission to a motor queue remembers its
  key only when it is dispatched and the dispatch does not look at the keys, so two submissions
  under one key before the next beats make the backend run the same intent twice.
\<close>

theorem queued_duplicates_run_twice:
  assumes "cleared env (sanitized (ex_redact x) intent) x" and "env_simulation env = None"
    and "ex_queue x = Some []" and "now \<le> beat" and "0 < limit" and "\<not> ai_requires_parallel intent"
  shows "ex_calls (run_beats env limit [beat, beat]
      (fst (submit env n' aid' now intent (fst (submit env n aid now intent x)))))
    = ex_calls x @ [sanitized (ex_redact x) intent, sanitized (ex_redact x) intent]"
proof -
  let ?i = "sanitized (ex_redact x) intent"
  have queued: "\<exists>c. ex_queue y' = Some (q @ [c]) \<and> mc_intent c = ?i \<and> mc_ready_at c = now
        \<and> \<not> mc_requires_parallel c \<and> ex_calls y' = ex_calls y \<and> ex_redact y' = ex_redact y \<and> ex_keys y' = ex_keys y"
    if "cleared env ?i y" "ex_queue y = Some q" "ex_redact y = ex_redact x"
      "y' = fst (submit env m a now intent y)" for y q m a y'
    using that assms(2,6)
    by (auto simp: submit_def Let_def cleared_def run_precheck_def with_trace_def submit_gated_def
        asks_confirmation_def submit_allowed_def enqueue_motor_command_def settle_result_def
        sanitized_def split: sum.splits)
  let ?y = "fst (submit env n aid now intent x)"
  obtain c where c: "ex_queue ?y = Some [c]" "mc_intent c = ?i" "mc_ready_at c = now"
    "\<not> mc_requires_parallel c" "ex_calls ?y = ex_calls x" "ex_redact ?y = ex_redact x" "ex_keys ?y = ex_keys x"
    using queued [OF assms(1,3) refl refl, of n aid] by auto
  have clr: "cleared env ?i ?y"
    using assms(1) c(7) by (simp add: cleared_def already_executed_def split: option.splits)
  let ?z = "fst (submit env n' aid' now intent ?y)"
  obtain d where d: "ex_queue ?z = Some [c, d]" "mc_intent d = ?i" "mc_ready_at d = now"
    "\<not> mc_requires_parallel d" "ex_calls ?z = ex_calls x"
    using queued [OF clr c(1,6) refl, of n' aid'] c(5) by auto
  have one: "dequeue_ready beat limit [c, d] = ([c], [d])" "dequeue_ready beat limit [d] = ([d], [])"
    using assms(4,5) c(3,4) d(3,4) by (auto simp: dequeue_ready_def)
  let ?t = "fst (tick env limit beat ?z)"
  have "ex_queue ?t = Some [d]" "ex_calls ?t = ex_calls x @ [?i]"
    using tick_simps(2,3) [OF d(1), of env limit beat] one(1) c(2) d(5) by simp_all
  then show ?thesis using tick_simps(3) [of ?t "[d]" env limit beat] one(2) d(2) by simp
qed

theorem queued_duplicates_run_twice_witness:
  "ex_calls (run_beats sample_env 4 [5, 5]
      (fst (submit sample_env ''2'' ''a2'' 0 sample_intent
        (fst (submit sample_env ''1'' ''a1'' 0 sample_intent (sample_executor [] (Some [])))))))
    = [sample_intent, sample_intent]"
proof -
  have "cleared sample_env (sanitized (ex_redact (sample_executor [] (Some []))) sample_intent)
      (sample_executor [] (Some []))"
    by (simp only: sample_intent_sanitized sample_cleared)
  moreover have "env_simulation sample_env = None" by (simp add: sample_env_def)
  moreover have "ex_queue (sample_executor [] (Some [])) = Some []" "ex_calls (sample_executor [] (Some [])) = []"
    by (simp_all add: sample_executor_def)
  moreover have "\<not> ai_requires_parallel sample_intent"
    by (simp add: sample_intent_def empty_action_intent_def)
  ultimately show ?thesis
    using queued_duplicates_run_twice [of sample_env "sample_executor [] (Some [])" sample_intent 0 5 4]
    by (simp only: sample_intent_sanitized append_Nil) simp
qed

end
