(* ===== verification/Cron.thy ===== *)
theory Cron
  imports Grants "HOL-Library.Monad_Syntax"
begin

text \<open>
  \<^verbatim>\<open>OriginAgent/cron/service.py\<close> and \<^verbatim>\<open>cron/types.py\<close>: the scheduled jobs, the file they live in, the
  log of actions that instances which are not running leave for the running one, and the timer.
  Times are milliseconds; every reading of the clock is an argument. \<^verbatim>\<open>croniter\<close> and the
  time-zone data are the arguments \<open>ce_next_cron\<close> and \<open>ce_zone_ok\<close>, the job callback is \<open>ce_on_job\<close>.
  The code changes job objects in place: \<open>cr_gen\<close> counts the reloads of the store, so that
  a change to an object of a store that has been reloaded since is lost, as in Python.
\<close>

section \<open>Jobs\<close>

record CronSchedule =
  sc_kind :: string
  sc_at_ms :: "int option"
  sc_every_ms :: "int option"
  sc_expr :: "string option"
  sc_tz :: "string option"

record CronPayload =
  pl_kind :: string
  pl_message :: string
  pl_deliver :: bool
  pl_channel :: "string option"
  pl_to :: "string option"
  pl_channel_meta :: json_obj
  pl_session_key :: "string option"
  pl_capability_snapshot :: json_obj
  pl_grant_id :: "string option"

record CronRunRecord =
  rr_run_at_ms :: int
  rr_status :: string
  rr_duration_ms :: int
  rr_error :: "string option"

record CronJobState =
  st_next_run :: "int option"
  st_last_run :: "int option"
  st_last_status :: "string option"
  st_last_error :: "string option"
  st_history :: "CronRunRecord list"

record CronJob =
  cj_id :: string
  cj_name :: string
  cj_enabled :: bool
  cj_schedule :: CronSchedule
  cj_payload :: CronPayload
  cj_state :: CronJobState
  cj_created_at :: int
  cj_updated_at :: int
  cj_delete_after_run :: bool

definition MAX_RUN_HISTORY :: nat where "MAX_RUN_HISTORY = 20"

definition new_state :: "int option \<Rightarrow> CronJobState" where
  "new_state next_run = \<lparr>st_next_run = next_run, st_last_run = None, st_last_status = None,
     st_last_error = None, st_history = []\<rparr>"

definition set_next :: "int option \<Rightarrow> CronJob \<Rightarrow> CronJob" where
  "set_next t j = j\<lparr>cj_state := (cj_state j)\<lparr>st_next_run := t\<rparr>\<rparr>"

abbreviation next_run_of :: "CronJob \<Rightarrow> int option" where
  "next_run_of j \<equiv> st_next_run (cj_state j)"

section \<open>The service\<close>

datatype store_file = NoFile | CorruptFile | StoredJobs int "CronJob list"

datatype cron_action = ActDel "string option" | ActPut CronJob | ActBad

record CronService =
  cr_disk :: store_file
  cr_backups :: nat
  cr_actions :: "cron_action list option"
  cr_store :: "(int \<times> CronJob list) option"
  cr_gen :: nat
  cr_running :: bool
  cr_timer_active :: bool
  cr_timer :: "int option"
  cr_max_sleep :: int
  cr_runs :: "string list"
  cr_interrupt :: bool

record CronEnv =
  ce_next_cron :: "string \<Rightarrow> string option \<Rightarrow> int \<Rightarrow> int option"
  ce_zone_ok :: "string \<Rightarrow> bool"
  ce_on_job :: "(CronJob \<Rightarrow> CronService \<Rightarrow> CronService \<times> string option \<times> bool) option"

definition compute_next_run :: "CronEnv \<Rightarrow> CronSchedule \<Rightarrow> int \<Rightarrow> int option" where
  "compute_next_run E s now =
     (if sc_kind s = ''at'' then
        (case sc_at_ms s of Some t \<Rightarrow> if t \<noteq> 0 \<and> now < t then Some t else None | None \<Rightarrow> None)
      else if sc_kind s = ''every'' then
        (case sc_every_ms s of Some p \<Rightarrow> if 0 < p then Some (now + p) else None | None \<Rightarrow> None)
      else if sc_kind s = ''cron'' \<and> truthy (sc_expr s) then
        ce_next_cron E (the (sc_expr s)) (if truthy (sc_tz s) then sc_tz s else None) now
      else None)"

definition validate_schedule :: "CronEnv \<Rightarrow> CronSchedule \<Rightarrow> value_error option" where
  "validate_schedule E s =
     (if truthy (sc_tz s) \<and> sc_kind s \<noteq> ''cron'' then Some (ValueError ''tz can only be used with cron schedules'')
      else if sc_kind s = ''cron'' \<and> truthy (sc_tz s) \<and> \<not> ce_zone_ok E (the (sc_tz s))
      then Some (ValueError (''unknown timezone '' @ [CHR 0x27] @ the (sc_tz s) @ [CHR 0x27])) else None)"

definition save_store :: "CronService \<Rightarrow> CronService" where
  "save_store s = (case cr_store s of None \<Rightarrow> s | Some (v, js) \<Rightarrow> s\<lparr>cr_disk := StoredJobs v js\<rparr>)"

definition set_jobs :: "(CronJob list \<Rightarrow> CronJob list) \<Rightarrow> CronService \<Rightarrow> CronService" where
  "set_jobs f s = s\<lparr>cr_store := map_option (\<lambda>(v, js). (v, f js)) (cr_store s)\<rparr>"

definition store_jobs :: "CronService \<Rightarrow> CronJob list" where
  "store_jobs s = (case cr_store s of None \<Rightarrow> [] | Some (v, js) \<Rightarrow> js)"

definition job_dict :: "CronJob list \<Rightarrow> (string, CronJob) dict" where
  "job_dict js = fold (\<lambda>j d. dict_set (cj_id j) j d) js []"

fun merge_line :: "cron_action \<Rightarrow> (string, CronJob) dict \<times> bool \<Rightarrow> (string, CronJob) dict \<times> bool" where
  "merge_line (ActDel None) (d, ch) = (d, True)"
| "merge_line (ActDel (Some i)) (d, ch) =
     (if i = [] then (d, True) else if dict_get d i = None then (d, ch) else (dict_del i d, True))"
| "merge_line (ActPut j) (d, ch) = (dict_set (cj_id j) j d, True)"
| "merge_line ActBad (d, ch) = (d, ch)"

definition merge_lines :: "cron_action list \<Rightarrow> CronJob list \<Rightarrow> CronJob list \<times> bool" where
  "merge_lines acts js = (let (d, ch) = fold merge_line acts (job_dict js, False) in (map snd d, ch))"

definition merge_action :: "CronService \<Rightarrow> CronService" where
  "merge_action s =
     (case cr_actions s of None \<Rightarrow> s
      | Some acts \<Rightarrow>
          let (js, ch) = merge_lines acts (store_jobs s); s1 = set_jobs (\<lambda>_. js) s
          in if cr_running s \<and> ch then save_store (s1\<lparr>cr_actions := Some []\<rparr>) else s1)"

text \<open>\<open>load_store\<close> leaves in \<open>cr_store\<close> what the code's \<^verbatim>\<open>_load_store\<close> returns.\<close>

definition load_store :: "CronService \<Rightarrow> CronService" where
  "load_store s =
     (if cr_timer_active s \<and> cr_store s \<noteq> None then s
      else case cr_disk s of
          CorruptFile \<Rightarrow> s\<lparr>cr_disk := NoFile, cr_backups := cr_backups s + 1\<rparr>
        | NoFile \<Rightarrow> merge_action (s\<lparr>cr_store := Some (1, []), cr_gen := cr_gen s + 1\<rparr>)
        | StoredJobs v js \<Rightarrow> merge_action (s\<lparr>cr_store := Some (v, js), cr_gen := cr_gen s + 1\<rparr>))"

section \<open>The timer\<close>

definition next_wake :: "CronService \<Rightarrow> int option" where
  "next_wake s =
     (let ts = List.map_filter (\<lambda>j. if cj_enabled j then
                 (case next_run_of j of Some t \<Rightarrow> if t \<noteq> 0 then Some t else None | None \<Rightarrow> None) else None)
               (store_jobs s)
      in if ts = [] then None else Some (Min (set ts)))"

text \<open>
  Re-arming cancels the timer task. When that is the beat in progress, a cancellation is pending for it
  (\<open>cr_interrupt\<close>), which is delivered at its next suspension; a task that still sleeps is replaced.
\<close>

definition cancel_timer :: "CronService \<Rightarrow> CronService" where
  "cancel_timer s = (if cr_timer_active s then s\<lparr>cr_interrupt := True\<rparr> else s)"

definition arm_timer :: "int \<Rightarrow> CronService \<Rightarrow> CronService" where
  "arm_timer now s =
     (let s1 = cancel_timer s in
      if \<not> cr_running s then s1\<lparr>cr_timer := None\<rparr>
      else s1\<lparr>cr_timer := Some (case next_wake s of None \<Rightarrow> cr_max_sleep s
               | Some w \<Rightarrow> min (cr_max_sleep s) (max 0 (w - now)))\<rparr>)"

definition recompute_next_runs :: "CronEnv \<Rightarrow> int \<Rightarrow> CronService \<Rightarrow> CronService" where
  "recompute_next_runs E now s =
     set_jobs (map (\<lambda>j. if cj_enabled j then set_next (compute_next_run E (cj_schedule j) now) j else j)) s"

definition cron_start :: "CronEnv \<Rightarrow> int \<Rightarrow> CronService \<Rightarrow> CronService \<times> bool" where
  "cron_start E now s =
     (let s1 = load_store (s\<lparr>cr_running := True\<rparr>)
      in if cr_store s1 = None then (s1\<lparr>cr_running := False\<rparr>, False)
         else (arm_timer now (save_store (recompute_next_runs E now s1)), True))"

definition cron_stop :: "CronService \<Rightarrow> CronService" where
  "cron_stop s = (cancel_timer s)\<lparr>cr_running := False, cr_timer := None\<rparr>"

definition due :: "int \<Rightarrow> CronJob \<Rightarrow> bool" where
  "due now j = (cj_enabled j \<and> (case next_run_of j of None \<Rightarrow> False | Some t \<Rightarrow> t \<noteq> 0 \<and> t \<le> now))"

text \<open>The clock while a job runs: its start, its end and the moment its next run is computed.\<close>

record run_clock =
  rk_start :: int
  rk_end :: int
  rk_after :: int

definition ran :: "run_clock \<Rightarrow> string option \<Rightarrow> CronJob \<Rightarrow> CronJob" where
  "ran k err j =
     j\<lparr>cj_updated_at := rk_end k,
       cj_state := (cj_state j)
         \<lparr>st_last_status := Some (if err = None then ''ok'' else ''error''), st_last_error := err,
          st_last_run := Some (rk_start k),
          st_history := last_n MAX_RUN_HISTORY (st_history (cj_state j) @
            [\<lparr>rr_run_at_ms = rk_start k, rr_status = (if err = None then ''ok'' else ''error''),
              rr_duration_ms = rk_end k - rk_start k, rr_error = err\<rparr>])\<rparr>\<rparr>"

definition rescheduled :: "CronEnv \<Rightarrow> run_clock \<Rightarrow> CronJob \<Rightarrow> CronJob" where
  "rescheduled E k j =
     (if sc_kind (cj_schedule j) = ''at'' then set_next None (j\<lparr>cj_enabled := False\<rparr>)
      else set_next (compute_next_run E (cj_schedule j) (rk_after k)) j)"

definition current :: "nat \<Rightarrow> CronJob \<Rightarrow> CronService \<Rightarrow> CronJob" where
  "current g j s =
     (if cr_gen s = g then (case List.find (\<lambda>x. cj_id x = cj_id j) (store_jobs s) of Some x \<Rightarrow> x | None \<Rightarrow> j)
      else j)"

definition write_back :: "nat \<Rightarrow> CronJob \<Rightarrow> CronService \<Rightarrow> CronService" where
  "write_back g j s =
     (if cr_gen s = g then set_jobs (map (\<lambda>x. if cj_id x = cj_id j then j else x)) s else s)"

text \<open>
  The callback gives the service as it leaves it, the text of the exception it raised, if any, and whether it
  suspends after its last change of the service; there a pending cancellation of the beat raises
  \<^verbatim>\<open>CancelledError\<close>, which no handler catches: the outcome is \<open>Interrupted\<close>. A job run by hand is not part
  of the beat.
\<close>

datatype job_outcome = Ended "string option" | Interrupted

definition call_job :: "CronEnv \<Rightarrow> bool \<Rightarrow> CronJob \<Rightarrow> CronService \<Rightarrow> CronService \<times> job_outcome" where
  "call_job E beat j s =
     (case ce_on_job E of
        None \<Rightarrow> (s, Ended None)
      | Some f \<Rightarrow> (case f j (s\<lparr>cr_runs := cr_runs s @ [cj_id j]\<rparr>) of
          (s1, err, suspends) \<Rightarrow>
            if beat \<and> suspends \<and> cr_interrupt s1 then (s1\<lparr>cr_interrupt := False\<rparr>, Interrupted)
            else (s1, Ended err)))"

text \<open>The second part of the result says that the job was not interrupted.\<close>

definition execute_job ::
    "CronEnv \<Rightarrow> bool \<Rightarrow> run_clock \<Rightarrow> nat \<Rightarrow> CronJob \<Rightarrow> CronService \<Rightarrow> CronService \<times> bool" where
  "execute_job E beat k g j s =
     (case call_job E beat (current g j s) s of
        (s1, Interrupted) \<Rightarrow> (s1, False)
      | (s1, Ended err) \<Rightarrow>
          let j1 = ran k err (current g j s1)
          in (if cj_delete_after_run j1 then set_jobs (filter (\<lambda>x. cj_id x \<noteq> cj_id j1)) s1
              else write_back g (rescheduled E k j1) s1, True))"

fun execute_jobs ::
    "CronEnv \<Rightarrow> (string \<Rightarrow> run_clock) \<Rightarrow> nat \<Rightarrow> CronJob list \<Rightarrow> CronService \<Rightarrow> CronService \<times> bool" where
  "execute_jobs E clk g [] s = (s, True)"
| "execute_jobs E clk g (j # js) s =
     (case execute_job E True (clk (cj_id j)) g j s of
        (s1, True) \<Rightarrow> execute_jobs E clk g js s1
      | (s1, False) \<Rightarrow> (s1, False))"

definition on_timer :: "CronEnv \<Rightarrow> (string \<Rightarrow> run_clock) \<Rightarrow> int \<Rightarrow> int \<Rightarrow> CronService \<Rightarrow> CronService" where
  "on_timer E clk now later s =
     (let s1 = load_store s in
      if cr_store s1 = None then arm_timer later s1
      else
        let s2 = s1\<lparr>cr_timer_active := True, cr_interrupt := False\<rparr>
        in (case execute_jobs E clk (cr_gen s2) (filter (due now) (store_jobs s2)) s2 of
              (s3, True) \<Rightarrow> arm_timer later ((save_store s3)\<lparr>cr_timer_active := False\<rparr>)
            | (s3, False) \<Rightarrow> s3\<lparr>cr_timer_active := False\<rparr>))"

section \<open>Public operations\<close>

text \<open>
  A store that is missing after the load makes the code raise \<^verbatim>\<open>AttributeError\<close>: the result \<open>None\<close>.
\<close>

definition list_jobs :: "bool \<Rightarrow> CronService \<Rightarrow> CronService \<times> CronJob list option" where
  "list_jobs include_disabled s =
     (let s1 = load_store s in
      (s1, case cr_store s1 of None \<Rightarrow> None
           | Some (v, js) \<Rightarrow> Some (sort_key (\<lambda>j. case next_run_of j of
               Some t \<Rightarrow> if t \<noteq> 0 then (0, t) else (1, 0) | None \<Rightarrow> (1::int, 0))
             (if include_disabled then js else filter cj_enabled js))))"

definition append_action :: "cron_action \<Rightarrow> CronService \<Rightarrow> CronService" where
  "append_action a s = s\<lparr>cr_actions := Some ((case cr_actions s of None \<Rightarrow> [] | Some l \<Rightarrow> l) @ [a])\<rparr>"

text \<open>The two ways of making a change last: the running instance saves, another leaves a line.\<close>

definition commit :: "int \<Rightarrow> cron_action \<Rightarrow> CronService \<Rightarrow> CronService" where
  "commit now a s = (if cr_running s then arm_timer now (save_store s) else append_action a s)"

definition new_job :: "CronEnv \<Rightarrow> string \<Rightarrow> string \<Rightarrow> CronSchedule \<Rightarrow> CronPayload \<Rightarrow> bool \<Rightarrow> int \<Rightarrow> CronJob" where
  "new_job E i name sch pl del now =
     \<lparr>cj_id = i, cj_name = name, cj_enabled = True, cj_schedule = sch, cj_payload = pl,
      cj_state = new_state (compute_next_run E sch now), cj_created_at = now, cj_updated_at = now,
      cj_delete_after_run = del\<rparr>"

definition add_job ::
    "CronEnv \<Rightarrow> string \<Rightarrow> int \<Rightarrow> string \<Rightarrow> CronSchedule \<Rightarrow> CronPayload \<Rightarrow> bool \<Rightarrow> CronService
     \<Rightarrow> CronService \<times> (value_error + CronJob) option" where
  "add_job E i now name sch pl del s =
     (case validate_schedule E sch of
        Some e \<Rightarrow> (s, Some (Inl e))
      | None \<Rightarrow>
          let j = new_job E i name sch (pl\<lparr>pl_kind := ''agent_turn''\<rparr>) del now
          in if cr_running s then
               (let s1 = load_store s
                in if cr_store s1 = None then (s1, None)
                   else (arm_timer now (save_store (set_jobs (\<lambda>js. js @ [j]) s1)), Some (Inr j)))
             else (append_action (ActPut j) s, Some (Inr j)))"

definition register_system_job ::
    "CronEnv \<Rightarrow> int \<Rightarrow> CronJob \<Rightarrow> CronService \<Rightarrow> CronService \<times> CronJob option" where
  "register_system_job E now j0 s =
     (let s1 = load_store s;
          j = j0\<lparr>cj_state := new_state (compute_next_run E (cj_schedule j0) now), cj_created_at := now,
                 cj_updated_at := now\<rparr>
      in if cr_store s1 = None then (s1, None)
         else (arm_timer now (save_store
                 (set_jobs (\<lambda>js. filter (\<lambda>x. cj_id x \<noteq> cj_id j) js @ [j]) s1)), Some j))"

datatype removal = Removed | Protected | NotFound

abbreviation find_job :: "string \<Rightarrow> CronService \<Rightarrow> CronJob option" where
  "find_job i s \<equiv> List.find (\<lambda>j. cj_id j = i) (store_jobs s)"

definition remove_job :: "string \<Rightarrow> int \<Rightarrow> CronService \<Rightarrow> CronService \<times> removal option" where
  "remove_job i now s =
     (let s1 = load_store s in
      if cr_store s1 = None then (s1, None)
      else case find_job i s1 of
          None \<Rightarrow> (s1, Some NotFound)
        | Some j \<Rightarrow>
            if pl_kind (cj_payload j) = ''system_event'' then (s1, Some Protected)
            else (commit now (ActDel (Some i)) (set_jobs (filter (\<lambda>x. cj_id x \<noteq> i)) s1), Some Removed))"

definition change_job :: "string \<Rightarrow> (CronJob \<Rightarrow> CronJob) \<Rightarrow> CronService \<Rightarrow> CronService" where
  "change_job i f s = set_jobs (update_first (\<lambda>j. cj_id j = i) f) s"

definition enabled_job :: "CronEnv \<Rightarrow> bool \<Rightarrow> int \<Rightarrow> CronJob \<Rightarrow> CronJob" where
  "enabled_job E en now j =
     set_next (if en then compute_next_run E (cj_schedule j) now else None)
       (j\<lparr>cj_enabled := en, cj_updated_at := now\<rparr>)"

definition enable_job ::
    "CronEnv \<Rightarrow> string \<Rightarrow> bool \<Rightarrow> int \<Rightarrow> CronService \<Rightarrow> CronService \<times> CronJob option option" where
  "enable_job E i en now s =
     (let s1 = load_store s in
      if cr_store s1 = None then (s1, None)
      else case find_job i s1 of
          None \<Rightarrow> (s1, Some None)
        | Some j \<Rightarrow>
            let j1 = enabled_job E en now j
            in (commit now (ActPut j1) (change_job i (enabled_job E en now) s1), Some (Some j1)))"

text \<open>\<open>update_job\<close>'s optional arguments: \<open>None\<close> leaves a field, as the sentinel does.\<close>

record job_update =
  ju_name :: "string option"
  ju_schedule :: "CronSchedule option"
  ju_message :: "string option"
  ju_deliver :: "bool option"
  ju_channel :: "string option option"
  ju_to :: "string option option"
  ju_delete :: "bool option"

definition given :: "'a option \<Rightarrow> 'a \<Rightarrow> 'a" where
  "given x y = (case x of None \<Rightarrow> y | Some z \<Rightarrow> z)"

definition updated_job :: "CronEnv \<Rightarrow> job_update \<Rightarrow> int \<Rightarrow> CronJob \<Rightarrow> CronJob" where
  "updated_job E u now j =
     (let j1 = j\<lparr>cj_schedule := given (ju_schedule u) (cj_schedule j),
                 cj_name := given (ju_name u) (cj_name j),
                 cj_payload := (cj_payload j)
                   \<lparr>pl_message := given (ju_message u) (pl_message (cj_payload j)),
                    pl_deliver := given (ju_deliver u) (pl_deliver (cj_payload j)),
                    pl_channel := given (ju_channel u) (pl_channel (cj_payload j)),
                    pl_to := given (ju_to u) (pl_to (cj_payload j))\<rparr>,
                 cj_delete_after_run := given (ju_delete u) (cj_delete_after_run j),
                 cj_updated_at := now\<rparr>
      in if cj_enabled j1 then set_next (compute_next_run E (cj_schedule j1) now) j1 else j1)"

datatype job_update_result = UpdateRaises value_error | UpdateNotFound | UpdateProtected | Updated CronJob

definition update_job ::
    "CronEnv \<Rightarrow> string \<Rightarrow> job_update \<Rightarrow> int \<Rightarrow> CronService \<Rightarrow> CronService \<times> job_update_result option" where
  "update_job E i u now s =
     (let s1 = load_store s in
      if cr_store s1 = None then (s1, None)
      else case find_job i s1 of
          None \<Rightarrow> (s1, Some UpdateNotFound)
        | Some j \<Rightarrow>
            if pl_kind (cj_payload j) = ''system_event'' then (s1, Some UpdateProtected)
            else case (case ju_schedule u of None \<Rightarrow> None | Some sch \<Rightarrow> validate_schedule E sch) of
                Some e \<Rightarrow> (s1, Some (UpdateRaises e))
              | None \<Rightarrow>
                  let j1 = updated_job E u now j
                  in (commit now (ActPut j1) (change_job i (updated_job E u now) s1), Some (Updated j1)))"

definition run_job ::
    "CronEnv \<Rightarrow> run_clock \<Rightarrow> string \<Rightarrow> bool \<Rightarrow> int \<Rightarrow> CronService \<Rightarrow> CronService \<times> bool option" where
  "run_job E k i force now s =
     (let was = cr_running s;
          s1 = load_store (s\<lparr>cr_running := True\<rparr>);
          back = (\<lambda>t. let t1 = t\<lparr>cr_running := was\<rparr> in if was then arm_timer now t1 else t1)
      in if cr_store s1 = None then (back s1, None)
         else case find_job i s1 of
             None \<Rightarrow> (back s1, Some False)
           | Some j \<Rightarrow>
               if \<not> force \<and> \<not> cj_enabled j then (back s1, Some False)
               else (back (save_store (fst (execute_job E False k (cr_gen s1) j s1))), Some True))"

definition get_job :: "string \<Rightarrow> CronService \<Rightarrow> CronService \<times> CronJob option option" where
  "get_job i s = (let s1 = load_store s in
     (s1, if cr_store s1 = None then None else Some (find_job i s1)))"

section \<open>The job file\<close>

definition opt_int :: "int option \<Rightarrow> json" where
  "opt_int x = (case x of None \<Rightarrow> JNull | Some n \<Rightarrow> JInt n)"

definition opt_str :: "string option \<Rightarrow> json" where
  "opt_str x = (case x of None \<Rightarrow> JNull | Some n \<Rightarrow> JStr n)"

definition run_to_json :: "CronRunRecord \<Rightarrow> json" where
  "run_to_json r = JObj [(''runAtMs'', JInt (rr_run_at_ms r)), (''status'', JStr (rr_status r)),
     (''durationMs'', JInt (rr_duration_ms r)), (''error'', opt_str (rr_error r))]"

definition schedule_to_json :: "CronSchedule \<Rightarrow> json" where
  "schedule_to_json c = JObj [(''kind'', JStr (sc_kind c)), (''atMs'', opt_int (sc_at_ms c)),
     (''everyMs'', opt_int (sc_every_ms c)), (''expr'', opt_str (sc_expr c)), (''tz'', opt_str (sc_tz c))]"

definition payload_to_json :: "CronPayload \<Rightarrow> json" where
  "payload_to_json p = JObj [(''kind'', JStr (pl_kind p)), (''message'', JStr (pl_message p)),
     (''deliver'', JBool (pl_deliver p)), (''channel'', opt_str (pl_channel p)), (''to'', opt_str (pl_to p)),
     (''channelMeta'', JObj (pl_channel_meta p)), (''sessionKey'', opt_str (pl_session_key p)),
     (''capabilitySnapshot'', JObj (pl_capability_snapshot p)), (''grantId'', opt_str (pl_grant_id p))]"

definition state_to_json :: "CronJobState \<Rightarrow> json" where
  "state_to_json t = JObj [(''nextRunAtMs'', opt_int (st_next_run t)), (''lastRunAtMs'', opt_int (st_last_run t)),
     (''lastStatus'', opt_str (st_last_status t)), (''lastError'', opt_str (st_last_error t)),
     (''runHistory'', JList (map run_to_json (st_history t)))]"

definition job_to_json :: "CronJob \<Rightarrow> json" where
  "job_to_json j = JObj [(''id'', JStr (cj_id j)), (''name'', JStr (cj_name j)),
     (''enabled'', JBool (cj_enabled j)), (''schedule'', schedule_to_json (cj_schedule j)),
     (''payload'', payload_to_json (cj_payload j)), (''state'', state_to_json (cj_state j)),
     (''createdAtMs'', JInt (cj_created_at j)), (''updatedAtMs'', JInt (cj_updated_at j)),
     (''deleteAfterRun'', JBool (cj_delete_after_run j))]"

text \<open>
  Reading. A field that is missing and required, or of another type than the annotated one, makes the
  whole file corrupt (\<open>None\<close>); \<^verbatim>\<open>a or b or {}\<close> takes the first value that is not falsy.
\<close>

definition req_str :: "json_obj \<Rightarrow> string \<Rightarrow> string option" where
  "req_str d k = (case dict_get d k of Some (JStr s) \<Rightarrow> Some s | _ \<Rightarrow> None)"

definition req_int :: "json_obj \<Rightarrow> string \<Rightarrow> int option" where
  "req_int d k = (case dict_get d k of Some (JInt n) \<Rightarrow> Some n | _ \<Rightarrow> None)"

definition dflt_str :: "json_obj \<Rightarrow> string \<Rightarrow> string \<Rightarrow> string option" where
  "dflt_str d k v = (case dict_get d k of None \<Rightarrow> Some v | Some (JStr s) \<Rightarrow> Some s | _ \<Rightarrow> None)"

definition dflt_int :: "json_obj \<Rightarrow> string \<Rightarrow> int \<Rightarrow> int option" where
  "dflt_int d k v = (case dict_get d k of None \<Rightarrow> Some v | Some (JInt n) \<Rightarrow> Some n | _ \<Rightarrow> None)"

definition dflt_bool :: "json_obj \<Rightarrow> string \<Rightarrow> bool \<Rightarrow> bool option" where
  "dflt_bool d k v = (case dict_get d k of None \<Rightarrow> Some v | Some (JBool b) \<Rightarrow> Some b | _ \<Rightarrow> None)"

definition get_opt_int :: "json_obj \<Rightarrow> string \<Rightarrow> int option option" where
  "get_opt_int d k = (case dict_get d k of None \<Rightarrow> Some None | Some JNull \<Rightarrow> Some None
     | Some (JInt n) \<Rightarrow> Some (Some n) | _ \<Rightarrow> None)"

definition get_opt_str :: "json_obj \<Rightarrow> string \<Rightarrow> string option option" where
  "get_opt_str d k = (case dict_get d k of None \<Rightarrow> Some None | Some JNull \<Rightarrow> Some None
     | Some (JStr n) \<Rightarrow> Some (Some n) | _ \<Rightarrow> None)"

definition req_obj :: "json_obj \<Rightarrow> string \<Rightarrow> json_obj option" where
  "req_obj d k = (case dict_get d k of Some (JObj o') \<Rightarrow> Some o' | _ \<Rightarrow> None)"

definition dflt_obj :: "json_obj \<Rightarrow> string \<Rightarrow> json_obj option" where
  "dflt_obj d k = (case dict_get d k of None \<Rightarrow> Some [] | Some (JObj o') \<Rightarrow> Some o' | _ \<Rightarrow> None)"

definition either_key :: "json_obj \<Rightarrow> string \<Rightarrow> string \<Rightarrow> json option" where
  "either_key d k k' = (case dict_get d k of
      Some j \<Rightarrow> if json_truthy j then Some j else dict_get d k' | None \<Rightarrow> dict_get d k')"

definition either_obj :: "json_obj \<Rightarrow> string \<Rightarrow> string \<Rightarrow> json_obj option" where
  "either_obj d k k' = (case either_key d k k' of
      Some j \<Rightarrow> if json_truthy j then (case j of JObj o' \<Rightarrow> Some o' | _ \<Rightarrow> None) else Some []
    | None \<Rightarrow> Some [])"

definition either_str :: "json_obj \<Rightarrow> string \<Rightarrow> string \<Rightarrow> string option option" where
  "either_str d k k' = (case either_key d k k' of None \<Rightarrow> Some None | Some JNull \<Rightarrow> Some None
      | Some (JStr s) \<Rightarrow> Some (Some s) | _ \<Rightarrow> None)"

definition run_from_json :: "json \<Rightarrow> CronRunRecord option" where
  "run_from_json j = (case j of JObj d \<Rightarrow> do {
       t \<leftarrow> req_int d ''runAtMs''; st \<leftarrow> req_str d ''status''; ms \<leftarrow> dflt_int d ''durationMs'' 0;
       e \<leftarrow> get_opt_str d ''error'';
       Some \<lparr>rr_run_at_ms = t, rr_status = st, rr_duration_ms = ms, rr_error = e\<rparr> }
     | _ \<Rightarrow> None)"

definition schedule_from_json :: "json_obj \<Rightarrow> CronSchedule option" where
  "schedule_from_json d = do {
     k \<leftarrow> req_str d ''kind''; at \<leftarrow> get_opt_int d ''atMs''; ev \<leftarrow> get_opt_int d ''everyMs'';
     ex \<leftarrow> get_opt_str d ''expr''; tz \<leftarrow> get_opt_str d ''tz'';
     Some \<lparr>sc_kind = k, sc_at_ms = at, sc_every_ms = ev, sc_expr = ex, sc_tz = tz\<rparr> }"

definition payload_from_json :: "json_obj \<Rightarrow> CronPayload option" where
  "payload_from_json d = do {
     k \<leftarrow> dflt_str d ''kind'' ''agent_turn''; m \<leftarrow> dflt_str d ''message'' []; dl \<leftarrow> dflt_bool d ''deliver'' False;
     ch \<leftarrow> get_opt_str d ''channel''; t \<leftarrow> get_opt_str d ''to'';
     cm \<leftarrow> either_obj d ''channelMeta'' ''channel_meta'';
     sk \<leftarrow> either_str d ''sessionKey'' ''session_key'';
     cs \<leftarrow> either_obj d ''capabilitySnapshot'' ''capability_snapshot'';
     g \<leftarrow> either_str d ''grantId'' ''grant_id'';
     Some \<lparr>pl_kind = k, pl_message = m, pl_deliver = dl, pl_channel = ch, pl_to = t, pl_channel_meta = cm,
           pl_session_key = sk, pl_capability_snapshot = cs, pl_grant_id = g\<rparr> }"

definition history_of :: "json_obj \<Rightarrow> CronRunRecord list option" where
  "history_of d = (case dict_get d ''runHistory'' of None \<Rightarrow> Some []
     | Some (JList rs) \<Rightarrow> those (map run_from_json rs) | _ \<Rightarrow> None)"

definition state_from_json :: "json_obj \<Rightarrow> CronJobState option" where
  "state_from_json d = do {
     n \<leftarrow> get_opt_int d ''nextRunAtMs''; l \<leftarrow> get_opt_int d ''lastRunAtMs'';
     st \<leftarrow> get_opt_str d ''lastStatus''; e \<leftarrow> get_opt_str d ''lastError''; h \<leftarrow> history_of d;
     Some \<lparr>st_next_run = n, st_last_run = l, st_last_status = st, st_last_error = e, st_history = h\<rparr> }"

definition job_from_json :: "json \<Rightarrow> CronJob option" where
  "job_from_json j = (case j of JObj d \<Rightarrow> do {
       i \<leftarrow> req_str d ''id''; n \<leftarrow> req_str d ''name''; en \<leftarrow> dflt_bool d ''enabled'' True;
       sd \<leftarrow> req_obj d ''schedule''; sc \<leftarrow> schedule_from_json sd;
       pd \<leftarrow> req_obj d ''payload''; pl \<leftarrow> payload_from_json pd;
       td \<leftarrow> dflt_obj d ''state''; st \<leftarrow> state_from_json td;
       c \<leftarrow> dflt_int d ''createdAtMs'' 0; u \<leftarrow> dflt_int d ''updatedAtMs'' 0;
       del \<leftarrow> dflt_bool d ''deleteAfterRun'' False;
       Some \<lparr>cj_id = i, cj_name = n, cj_enabled = en, cj_schedule = sc, cj_payload = pl, cj_state = st,
             cj_created_at = c, cj_updated_at = u, cj_delete_after_run = del\<rparr> }
     | _ \<Rightarrow> None)"

definition jobs_to_json :: "int \<Rightarrow> CronJob list \<Rightarrow> json" where
  "jobs_to_json v js = JObj [(''version'', JInt v), (''jobs'', JList (map job_to_json js))]"

definition jobs_from_json :: "json \<Rightarrow> (CronJob list \<times> int) option" where
  "jobs_from_json j = (case j of JObj d \<Rightarrow> do {
       v \<leftarrow> dflt_int d ''version'' 1;
       js \<leftarrow> (case dict_get d ''jobs'' of None \<Rightarrow> Some [] | Some (JList l) \<Rightarrow> those (map job_from_json l) | _ \<Rightarrow> None);
       Some (js, v) }
     | _ \<Rightarrow> None)"

text \<open>What the file cannot tell apart: an empty session key or grant and none.\<close>

definition fileable :: "CronJob \<Rightarrow> bool" where
  "fileable j = (pl_session_key (cj_payload j) \<noteq> Some [] \<and> pl_grant_id (cj_payload j) \<noteq> Some [])"

lemma those_map_inverse: "(\<And>x. x \<in> set xs \<Longrightarrow> f (g x) = Some x) \<Longrightarrow> those (map f (map g xs)) = Some xs"
  by (induction xs) auto

lemma get_opt_int_out: "dict_get d k = Some (opt_int x) \<Longrightarrow> get_opt_int d k = Some x"
  by (cases x) (simp_all add: get_opt_int_def opt_int_def)

lemma get_opt_str_out: "dict_get d k = Some (opt_str x) \<Longrightarrow> get_opt_str d k = Some x"
  by (cases x) (simp_all add: get_opt_str_def opt_str_def)

lemma either_obj_out: "dict_get d k = Some (JObj x) \<Longrightarrow> dict_get d k' = None \<Longrightarrow> either_obj d k k' = Some x"
  by (simp add: either_obj_def either_key_def)

lemma either_str_out:
  "dict_get d k = Some (opt_str x) \<Longrightarrow> dict_get d k' = None \<Longrightarrow> x \<noteq> Some [] \<Longrightarrow> either_str d k k' = Some x"
  by (cases x) (simp_all add: either_str_def either_key_def opt_str_def)

lemma run_inverse: "run_from_json (run_to_json r) = Some r"
  by (simp add: run_from_json_def run_to_json_def req_int_def req_str_def dflt_int_def get_opt_str_out)

lemma schedule_inverse: "schedule_to_json c = JObj d \<Longrightarrow> schedule_from_json d = Some c"
  by (auto simp: schedule_to_json_def schedule_from_json_def req_str_def get_opt_int_out get_opt_str_out)

lemma payload_inverse:
  "payload_to_json p = JObj d \<Longrightarrow> pl_session_key p \<noteq> Some [] \<Longrightarrow> pl_grant_id p \<noteq> Some [] \<Longrightarrow>
   payload_from_json d = Some p"
  by (auto simp: payload_to_json_def payload_from_json_def dflt_str_def dflt_bool_def get_opt_str_out
      either_obj_out either_str_out)

lemma state_inverse: "state_to_json t = JObj d \<Longrightarrow> state_from_json d = Some t"
  using those_map_inverse [of "st_history t" run_from_json run_to_json]
  by (auto simp: state_to_json_def state_from_json_def get_opt_int_out get_opt_str_out history_of_def
      run_inverse)

lemma job_inverse:
  assumes "fileable j" shows "job_from_json (job_to_json j) = Some j"
proof -
  obtain sd where sd: "schedule_to_json (cj_schedule j) = JObj sd" by (simp add: schedule_to_json_def)
  obtain pd where pd: "payload_to_json (cj_payload j) = JObj pd" by (simp add: payload_to_json_def)
  obtain td where td: "state_to_json (cj_state j) = JObj td" by (simp add: state_to_json_def)
  have "schedule_from_json sd = Some (cj_schedule j)" "payload_from_json pd = Some (cj_payload j)"
    "state_from_json td = Some (cj_state j)"
    using assms schedule_inverse [OF sd] payload_inverse [OF pd] state_inverse [OF td]
    by (simp_all add: fileable_def)
  then show ?thesis
    by (simp add: job_from_json_def job_to_json_def sd pd td req_str_def req_obj_def dflt_obj_def
        dflt_bool_def dflt_int_def)
qed

text \<open>
  The job file is faithful: a list of jobs that is saved and loaded again comes back unchanged,
  with all schedules, payloads, states and run histories, and with the version of the file.
\<close>

theorem job_file_round_trip:
  assumes "\<forall>j \<in> set js. fileable j"
  shows "jobs_from_json (jobs_to_json v js) = Some (js, v)"
  using assms those_map_inverse [of js job_from_json job_to_json]
  by (simp add: jobs_from_json_def jobs_to_json_def dflt_int_def job_inverse)

definition sample_job :: "string \<Rightarrow> string \<Rightarrow> CronJob" where
  "sample_job i kind = \<lparr>cj_id = i, cj_name = ''n'', cj_enabled = True,
     cj_schedule = \<lparr>sc_kind = kind, sc_at_ms = Some 50, sc_every_ms = Some 10, sc_expr = None, sc_tz = None\<rparr>,
     cj_payload = \<lparr>pl_kind = ''agent_turn'', pl_message = ''m'', pl_deliver = False, pl_channel = None,
       pl_to = None, pl_channel_meta = [], pl_session_key = None, pl_capability_snapshot = [],
       pl_grant_id = None\<rparr>,
     cj_state = new_state (Some 50), cj_created_at = 0, cj_updated_at = 0, cj_delete_after_run = False\<rparr>"

definition sample_service :: "store_file \<Rightarrow> bool \<Rightarrow> CronService" where
  "sample_service disk running = \<lparr>cr_disk = disk, cr_backups = 0, cr_actions = None, cr_store = None, cr_gen = 0,
     cr_running = running, cr_timer_active = False, cr_timer = None, cr_max_sleep = 300000, cr_runs = [], cr_interrupt = False\<rparr>"

definition quiet_env :: CronEnv where
  "quiet_env = \<lparr>ce_next_cron = (\<lambda>_ _ _. None), ce_zone_ok = (\<lambda>_. True),
     ce_on_job = Some (\<lambda>j s. (s, None, True))\<rparr>"

theorem job_file_round_trip_witness:
  "jobs_from_json (jobs_to_json 1 [sample_job ''a'' ''at'']) = Some ([sample_job ''a'' ''at''], 1)"
  by (rule job_file_round_trip) (simp add: fileable_def sample_job_def)

section \<open>What a beat of the timer does\<close>

definition finished :: "CronEnv \<Rightarrow> (string \<Rightarrow> run_clock) \<Rightarrow> (CronJob \<Rightarrow> string option) \<Rightarrow> CronJob \<Rightarrow> CronJob" where
  "finished E clk res j = rescheduled E (clk (cj_id j)) (ran (clk (cj_id j)) (res j) j)"

lemma job_fields [simp]:
  "cj_id (ran k e j) = cj_id j" "cj_delete_after_run (ran k e j) = cj_delete_after_run j"
  "cj_id (set_next t j) = cj_id j" "cj_schedule (ran k e j) = cj_schedule j"
  "cj_id (rescheduled E k j) = cj_id j" "cj_id (finished E clk res j) = cj_id j"
  "cj_enabled (set_next t j) = cj_enabled j" "next_run_of (set_next t j) = t"
  by (simp_all add: ran_def set_next_def rescheduled_def finished_def)

lemma execute_quiet:
  assumes "ce_on_job E = Some (\<lambda>j s. (s, res j, susp j))" and "cr_gen s = g" and "cr_store s = Some (v, js)"
    and "distinct (map cj_id js)" and "j \<in> set js" and "\<not> cr_interrupt s"
  shows "execute_job E True (clk (cj_id j)) g j s =
    (s\<lparr>cr_runs := cr_runs s @ [cj_id j],
      cr_store := Some (v, if cj_delete_after_run j then filter (\<lambda>x. cj_id x \<noteq> cj_id j) js
                           else map (\<lambda>x. if cj_id x = cj_id j then finished E clk res x else x) js)\<rparr>, True)"
proof -
  have find: "List.find (\<lambda>x. cj_id x = cj_id j) js = Some j" using assms(4,5) by (simp add: find_unique)
  have same: "map (\<lambda>x. if cj_id x = cj_id j then finished E clk res j else x) js
      = map (\<lambda>x. if cj_id x = cj_id j then finished E clk res x else x) js"
    using assms(4,5) by (auto simp: distinct_map inj_on_def)
  have fin: "rescheduled E (clk (cj_id j)) (ran (clk (cj_id j)) (res j) j) = finished E clk res j"
    by (simp add: finished_def)
  show ?thesis
    using assms(1-3,6)
    by (simp add: execute_job_def Let_def call_job_def current_def store_jobs_def find write_back_def set_jobs_def
        fin same cong: if_cong)
qed

definition after_beat ::
    "CronEnv \<Rightarrow> (string \<Rightarrow> run_clock) \<Rightarrow> (CronJob \<Rightarrow> string option) \<Rightarrow> string set \<Rightarrow> CronJob list \<Rightarrow> CronJob list" where
  "after_beat E clk res ids js =
     map (\<lambda>x. if cj_id x \<in> ids then finished E clk res x else x)
       (filter (\<lambda>x. \<not> (cj_id x \<in> ids \<and> cj_delete_after_run x)) js)"

lemma after_beat_empty [simp]: "after_beat E clk res {} js = js"
  by (simp add: after_beat_def)

lemma after_beat_step:
  assumes "i \<notin> ids" and "\<forall>x \<in> set js. cj_id x = i \<longrightarrow> cj_delete_after_run x = del"
  shows "after_beat E clk res ids (if del then filter (\<lambda>x. cj_id x \<noteq> i) js
      else map (\<lambda>x. if cj_id x = i then finished E clk res x else x) js) = after_beat E clk res (insert i ids) js"
  using assms by (induction js) (auto simp: after_beat_def)

lemma execute_jobs_quiet:
  assumes "ce_on_job E = Some (\<lambda>j s. (s, res j, susp j))"
  shows "cr_gen s = g \<Longrightarrow> cr_store s = Some (v, js) \<Longrightarrow> distinct (map cj_id js) \<Longrightarrow>
    distinct (map cj_id ds) \<Longrightarrow> set ds \<subseteq> set js \<Longrightarrow> \<not> cr_interrupt s \<Longrightarrow>
    execute_jobs E clk g ds s =
      (s\<lparr>cr_runs := cr_runs s @ map cj_id ds, cr_store := Some (v, after_beat E clk res (cj_id ` set ds) js)\<rparr>, True)"
proof (induction ds arbitrary: s js)
  case Nil
  then show ?case by simp
next
  case (Cons j ds)
  let ?js = "if cj_delete_after_run j then filter (\<lambda>x. cj_id x \<noteq> cj_id j) js
      else map (\<lambda>x. if cj_id x = cj_id j then finished E clk res x else x) js"
  have step: "execute_job E True (clk (cj_id j)) g j s =
      (s\<lparr>cr_runs := cr_runs s @ [cj_id j], cr_store := Some (v, ?js)\<rparr>, True)"
    using execute_quiet [OF assms Cons.prems(1-3)] Cons.prems(5,6) by simp
  have new: "cj_id j \<notin> cj_id ` set ds" using Cons.prems(4) by auto
  have ids: "distinct (map cj_id ?js)"
    using Cons.prems(3) by (simp add: distinct_map_filter comp_def if_distrib cong: if_cong)
  have sub: "set ds \<subseteq> set ?js"
  proof
    fix x assume x: "x \<in> set ds"
    then have "cj_id x \<in> cj_id ` set ds" by (rule imageI)
    with x have "x \<in> set js" "cj_id x \<noteq> cj_id j" using Cons.prems(5) new by (auto simp del: image_eqI)
    then show "x \<in> set ?js" by (auto simp: image_iff)
  qed
  have one: "\<forall>x \<in> set js. cj_id x = cj_id j \<longrightarrow> cj_delete_after_run x = cj_delete_after_run j"
    using Cons.prems(3,5) by (auto simp: distinct_map inj_on_def)
  have "execute_jobs E clk g (j # ds) s =
      execute_jobs E clk g ds (s\<lparr>cr_runs := cr_runs s @ [cj_id j], cr_store := Some (v, ?js)\<rparr>)"
    by (simp only: execute_jobs.simps step prod.case bool.case)
  also have "\<dots> = (s\<lparr>cr_runs := cr_runs s @ map cj_id (j # ds),
      cr_store := Some (v, after_beat E clk res (cj_id ` set ds) ?js)\<rparr>, True)"
    using Cons.IH [of "s\<lparr>cr_runs := cr_runs s @ [cj_id j], cr_store := Some (v, ?js)\<rparr>" ?js]
      Cons.prems(1,4,6) ids sub by simp
  finally show ?case using after_beat_step [OF new one, of E clk res] by simp
qed

lemma arm_timer_fields [simp]:
  "cr_runs (arm_timer t s) = cr_runs s" "cr_disk (arm_timer t s) = cr_disk s"
  "cr_store (arm_timer t s) = cr_store s" "cr_actions (arm_timer t s) = cr_actions s"
  "cr_running (arm_timer t s) = cr_running s" "cr_timer_active (arm_timer t s) = cr_timer_active s"
  by (simp_all add: arm_timer_def cancel_timer_def Let_def)

lemma finished_not_due:
  "sc_kind (cj_schedule j) = ''at'' \<Longrightarrow> \<not> due t (finished E clk res j)"
  "sc_kind (cj_schedule j) = ''every'' \<Longrightarrow> due t (finished E clk res j) \<Longrightarrow>
     \<exists>p. sc_every_ms (cj_schedule j) = Some p \<and> 0 < p \<and> rk_after (clk (cj_id j)) + p \<le> t"
  by (auto simp: finished_def due_def rescheduled_def compute_next_run_def split: option.splits if_splits)

lemma due_ids:
  assumes "distinct (map cj_id js)"
  shows "after_beat E clk res (cj_id ` set (filter P js)) js =
     map (\<lambda>x. if P x then finished E clk res x else x) (filter (\<lambda>x. \<not> (P x \<and> cj_delete_after_run x)) js)"
proof -
  define ids where "ids = cj_id ` set (filter P js)"
  have mem: "cj_id x \<in> ids \<longleftrightarrow> P x" if "x \<in> set js" for x
    using that assms by (auto simp: ids_def distinct_map inj_on_def)
  have "after_beat E clk res ids xs =
      map (\<lambda>x. if P x then finished E clk res x else x) (filter (\<lambda>x. \<not> (P x \<and> cj_delete_after_run x)) xs)"
    if "set xs \<subseteq> set js" for xs
    using that by (induction xs) (simp_all add: after_beat_def mem)
  then show ?thesis by (simp add: ids_def)
qed

text \<open>
  C37. While the jobs themselves leave the service alone and their identifiers are distinct, a beat of the timer
  runs exactly the jobs that are due, each once and in the order of the store, and saves the outcome: a job
  that is not due is untouched, a job to be deleted is gone, every other one has its run recorded and its next
  run set. A one-time job can never be due again, and a job of kind \<^verbatim>\<open>every\<close> not before its interval after the
  run has passed; the next time of a cron expression is the library's. What a change during the beat does is
  \<open>rearming_interrupts_beat\<close>.
\<close>

theorem timer_runs_exactly_due:
  assumes "ce_on_job E = Some (\<lambda>j s. (s, res j, susp j))" and "cr_store (load_store s) = Some (v, js)"
    and "distinct (map cj_id js)"
  shows "cr_runs (on_timer E clk now later s) = cr_runs (load_store s) @ map cj_id (filter (due now) js)
    \<and> cr_disk (on_timer E clk now later s) = StoredJobs v
        (map (\<lambda>j. if due now j then finished E clk res j else j)
          (filter (\<lambda>j. \<not> (due now j \<and> cj_delete_after_run j)) js))
    \<and> (sc_kind (cj_schedule j) = ''at'' \<longrightarrow> \<not> due t (finished E clk res j))
    \<and> (sc_kind (cj_schedule j) = ''every'' \<and> due t (finished E clk res j) \<longrightarrow>
         (\<exists>p. sc_every_ms (cj_schedule j) = Some p \<and> 0 < p \<and> rk_after (clk (cj_id j)) + p \<le> t))"
proof -
  let ?s = "(load_store s)\<lparr>cr_timer_active := True, cr_interrupt := False\<rparr>"
  have dd: "distinct (map cj_id (filter (due now) js))" using assms(3) by (rule distinct_map_filter)
  have run: "execute_jobs E clk (cr_gen ?s) (filter (due now) js) ?s =
      (?s\<lparr>cr_runs := cr_runs ?s @ map cj_id (filter (due now) js),
        cr_store := Some (v, after_beat E clk res (cj_id ` set (filter (due now) js)) js)\<rparr>, True)"
    using assms(2) by (intro execute_jobs_quiet [OF assms(1) refl _ assms(3) dd]) simp_all
  have jobs: "store_jobs ?s = js" using assms(2) by (simp add: store_jobs_def)
  have beat: "on_timer E clk now later s = arm_timer later ((save_store
      (?s\<lparr>cr_runs := cr_runs ?s @ map cj_id (filter (due now) js),
        cr_store := Some (v, after_beat E clk res (cj_id ` set (filter (due now) js)) js)\<rparr>))\<lparr>cr_timer_active := False\<rparr>)"
    using run jobs assms(2) unfolding on_timer_def by (simp only: Let_def prod.case bool.case) simp
  show ?thesis using finished_not_due [of j t E clk res]
    by (simp add: beat save_store_def due_ids [OF assms(3)] del: set_filter)
qed

theorem timer_runs_exactly_due_witness:
  "cr_runs (on_timer quiet_env (\<lambda>_. \<lparr>rk_start = 60, rk_end = 61, rk_after = 61\<rparr>) 60 62
      (sample_service (StoredJobs 1 [sample_job ''a'' ''at'', (sample_job ''b'' ''every'')\<lparr>cj_enabled := False\<rparr>]) True))
    = [''a'']"
proof -
  let ?js = "[sample_job ''a'' ''at'', (sample_job ''b'' ''every'')\<lparr>cj_enabled := False\<rparr>]"
  let ?s = "sample_service (StoredJobs 1 ?js) True"
  have env: "ce_on_job quiet_env = Some (\<lambda>j s. (s, (\<lambda>_. None) j, (\<lambda>_. True) j))" by (simp add: quiet_env_def)
  have store: "cr_store (load_store ?s) = Some (1, ?js)" and runs: "cr_runs (load_store ?s) = []"
    by (simp_all add: load_store_def sample_service_def merge_action_def)
  have ids: "distinct (map cj_id ?js)" by (simp add: sample_job_def)
  have "due 60 (sample_job ''a'' ''at'')" "\<not> due 60 ((sample_job ''b'' ''every'')\<lparr>cj_enabled := False\<rparr>)"
    "cj_id (sample_job ''a'' ''at'') = ''a''"
    by (simp_all add: due_def sample_job_def new_state_def)
  with timer_runs_exactly_due [OF env store ids] runs show ?thesis by simp
qed

text \<open>
  A change of the jobs during a beat stops it: whoever adds, removes or updates a job re-arms the timer, which
  cancels the beat in progress at its next suspension. The job that was running has run but its outcome is
  lost, it stays due, the other due jobs are not run, and the beat saves nothing.
\<close>

lemma rearming_interrupts_beat:
  assumes "ce_on_job E = Some (\<lambda>j s. (arm_timer later s, err, True))" and "cr_store (load_store s) = Some (v, js)"
    and "filter (due now) js = j # rest"
  shows "cr_runs (on_timer E clk now later' s) = cr_runs (load_store s) @ [cj_id (current (cr_gen (load_store s)) j (load_store s))]
    \<and> cr_disk (on_timer E clk now later' s) = cr_disk (load_store s)
    \<and> store_jobs (on_timer E clk now later' s) = js"
proof -
  have cur: "current g j (t\<lparr>cr_timer_active := a, cr_interrupt := b\<rparr>) = current g j t" for g t a b
    by (simp add: current_def store_jobs_def)
  have jobs: "store_jobs ((load_store s)\<lparr>cr_timer_active := True, cr_interrupt := False\<rparr>) = js" "store_jobs (load_store s) = js"
    using assms(2) by (simp_all add: store_jobs_def)
  have armed: "store_jobs (arm_timer t x) = store_jobs x" for t x
    by (simp add: store_jobs_def)
  show ?thesis
    using assms by (simp add: on_timer_def Let_def jobs execute_job_def call_job_def cur)
      (simp add: arm_timer_def cancel_timer_def Let_def store_jobs_def)
qed

text \<open>The timer wakes in time: never later than the first run of an enabled job, and never past the bound.\<close>

lemma min_wake:
  assumes "j \<in> set (store_jobs s)" and "cj_enabled j" and "next_run_of j = Some t" and "t \<noteq> 0"
  shows "\<exists>w \<le> t. next_wake s = Some w"
proof -
  let ?ts = "List.map_filter (\<lambda>j. if cj_enabled j then
                 (case next_run_of j of Some t \<Rightarrow> if t \<noteq> 0 then Some t else None | None \<Rightarrow> None) else None)
               (store_jobs s)"
  have "t \<in> set ?ts" using assms by (force simp: List.map_filter_def)
  then have "?ts \<noteq> []" "Min (set ?ts) \<le> t" by auto
  then show ?thesis by (simp add: next_wake_def Let_def)
qed

section \<open>Corrupt files\<close>

text \<open>
  A corrupt job file is survived once. The first read after the corruption keeps serving the
  jobs in memory, but it has moved the file away, so the second read finds no file and serves an
  empty list; and a service that refuses to start on a corrupt file starts with no jobs the next
  time, and saves that.
\<close>

theorem corrupt_file_survived_once:
  assumes "cr_disk s = CorruptFile" and "\<not> cr_timer_active s" and "cr_actions s = None"
  shows "store_jobs (load_store s) = store_jobs s
    \<and> store_jobs (load_store (load_store s)) = []
    \<and> snd (list_jobs True (fst (list_jobs True s))) = Some []
    \<and> (cr_store s = None \<longrightarrow> \<not> snd (cron_start E now s)
        \<and> cr_backups (fst (cron_start E now s)) = cr_backups s + 1
        \<and> snd (cron_start E now' (fst (cron_start E now s)))
        \<and> cr_disk (fst (cron_start E now' (fst (cron_start E now s)))) = StoredJobs 1 [])"
proof -
  have first: "load_store s = s\<lparr>cr_disk := NoFile, cr_backups := cr_backups s + 1\<rparr>"
    using assms by (simp add: load_store_def)
  have second: "load_store (load_store s) = s\<lparr>cr_disk := NoFile, cr_backups := cr_backups s + 1,
      cr_store := Some (1, []), cr_gen := cr_gen s + 1\<rparr>"
    using assms by (simp add: first) (simp add: load_store_def merge_action_def)
  have starts: "cr_store s = None \<longrightarrow> \<not> snd (cron_start E now s)
        \<and> cr_backups (fst (cron_start E now s)) = cr_backups s + 1
        \<and> snd (cron_start E now' (fst (cron_start E now s)))
        \<and> cr_disk (fst (cron_start E now' (fst (cron_start E now s)))) = StoredJobs 1 []"
    using assms
    by (simp add: cron_start_def load_store_def merge_action_def Let_def recompute_next_runs_def
        set_jobs_def save_store_def)
  show ?thesis using second starts
    by (simp add: first store_jobs_def list_jobs_def Let_def)
qed

theorem corrupt_file_survived_once_witness:
  "let s = (sample_service CorruptFile True)\<lparr>cr_store := Some (1, [sample_job ''a'' ''every''])\<rparr>
   in store_jobs (load_store s) = [sample_job ''a'' ''every''] \<and> store_jobs (load_store (load_store s)) = []"
  using corrupt_file_survived_once
    [of "(sample_service CorruptFile True)\<lparr>cr_store := Some (1, [sample_job ''a'' ''every''])\<rparr>"]
  by (simp add: Let_def sample_service_def) (simp add: store_jobs_def)

section \<open>Running a job by hand\<close>

text \<open>
  A job run by hand loses its outcome when the job itself looks at the list of jobs. If the
  callback leaves the service alone, a one-time job is disabled and the file says so; if it makes
  the service reload its file, the file keeps the job as it was, enabled and still due at its
  time, although the job has run.
\<close>

theorem run_job_loses_outcome_on_reload:
  assumes "ce_on_job E = Some (\<lambda>j s. (s, None, True))" and "ce_on_job E' = Some (\<lambda>j s. (load_store s, None, True))"
    and "cr_disk s = StoredJobs v js" and "cr_actions s = None" and "\<not> cr_timer_active s"
    and "distinct (map cj_id js)" and "j \<in> set js" and "cj_enabled j" and "\<not> cj_delete_after_run j"
    and "sc_kind (cj_schedule j) = ''at''"
  shows "cr_disk (fst (run_job E k (cj_id j) force now s)) =
      StoredJobs v (map (\<lambda>x. if cj_id x = cj_id j then rescheduled E k (ran k None j) else x) js)
    \<and> \<not> cj_enabled (rescheduled E k (ran k None j))
    \<and> cr_disk (fst (run_job E' k (cj_id j) force now s)) = StoredJobs v js
    \<and> cr_runs (fst (run_job E' k (cj_id j) force now s)) = cr_runs s @ [cj_id j]"
proof -
  have load: "load_store t = t\<lparr>cr_store := Some (v, js), cr_gen := cr_gen t + 1\<rparr>"
    if "cr_disk t = StoredJobs v js" "cr_actions t = None" "\<not> cr_timer_active t" for t
    using that by (simp add: load_store_def merge_action_def)
  have find: "List.find (\<lambda>x. cj_id x = cj_id j) js = Some j" using assms(6,7) by (simp add: find_unique)
  have quiet: "cr_disk (fst (run_job E k (cj_id j) force now s)) =
      StoredJobs v (map (\<lambda>x. if cj_id x = cj_id j then rescheduled E k (ran k None j) else x) js)"
    using assms(1,3,4,5,8,9)
    by (simp add: run_job_def Let_def load store_jobs_def find execute_job_def call_job_def current_def
        write_back_def set_jobs_def save_store_def)
  have noisy: "cr_disk (fst (run_job E' k (cj_id j) force now s)) = StoredJobs v js"
    "cr_runs (fst (run_job E' k (cj_id j) force now s)) = cr_runs s @ [cj_id j]"
    using assms(2-5,8,9)
    by (simp_all add: run_job_def Let_def load store_jobs_def find execute_job_def call_job_def current_def
        write_back_def set_jobs_def save_store_def)
  have "\<not> cj_enabled (rescheduled E k (ran k None j))"
    using assms(10) by (simp add: rescheduled_def)
  with quiet noisy show ?thesis by simp
qed

theorem run_job_loses_outcome_on_reload_witness:
  "cr_disk (fst (run_job (quiet_env\<lparr>ce_on_job := Some (\<lambda>j s. (load_store s, None, True))\<rparr>)
      \<lparr>rk_start = 5, rk_end = 6, rk_after = 6\<rparr> ''a'' True 7
      (sample_service (StoredJobs 1 [sample_job ''a'' ''at'']) True))) = StoredJobs 1 [sample_job ''a'' ''at'']"
  using run_job_loses_outcome_on_reload [of quiet_env "quiet_env\<lparr>ce_on_job := Some (\<lambda>j s. (load_store s, None, True))\<rparr>"
      "sample_service (StoredJobs 1 [sample_job ''a'' ''at'']) True" 1 "[sample_job ''a'' ''at'']"
      "sample_job ''a'' ''at''" "\<lparr>rk_start = 5, rk_end = 6, rk_after = 6\<rparr>" True 7]
  by (simp add: quiet_env_def sample_service_def sample_job_def)

section \<open>Changes by instances that are not running\<close>

text \<open>
  What an instance sees: the jobs after a load. The abstract operations work on that list; the
  running instance implements them by saving the file, any other by a line in the action log.
\<close>

definition view :: "CronService \<Rightarrow> CronJob list" where
  "view s = store_jobs (load_store s)"

definition file_jobs :: "CronService \<Rightarrow> CronJob list" where
  "file_jobs s = (case cr_disk s of StoredJobs v js \<Rightarrow> js | _ \<Rightarrow> [])"

definition pending :: "CronService \<Rightarrow> cron_action list" where
  "pending s = (case cr_actions s of None \<Rightarrow> [] | Some l \<Rightarrow> l)"

text \<open>A service at rest: no beat in progress, a readable file of distinct jobs, and, when it runs, no
  action left to merge.\<close>

definition at_rest :: "CronService \<Rightarrow> bool" where
  "at_rest s = (\<not> cr_timer_active s \<and> cr_disk s \<noteq> CorruptFile \<and> distinct (map cj_id (file_jobs s))
     \<and> (cr_running s \<longrightarrow> pending s = []))"

definition keyed_jobs :: "(string, CronJob) dict \<Rightarrow> bool" where
  "keyed_jobs d = (dict_ok d \<and> (\<forall>(k, j) \<in> set d. k = cj_id j))"

lemma keyed_jobs_dict: "distinct (map cj_id js) \<Longrightarrow> job_dict js = map (\<lambda>j. (cj_id j, j)) js"
  unfolding job_dict_def by (rule fold_dict_set_distinct)

lemma keyed_job_dict: "distinct (map cj_id js) \<Longrightarrow> keyed_jobs (job_dict js)"
  by (auto simp: keyed_jobs_dict keyed_jobs_def comp_def)

lemma keyed_merge_line: "keyed_jobs (fst dc) \<Longrightarrow> keyed_jobs (fst (merge_line a dc))"
proof (cases dc, cases a)
  fix d c j assume "keyed_jobs (fst dc)" "dc = (d, c)" "a = ActPut j"
  then show ?thesis
    using dict_set_entries [of d "\<lambda>k j. k = cj_id j" "cj_id j" j] by (simp add: keyed_jobs_def distinct_update)
next
  fix d c i assume "keyed_jobs (fst dc)" "dc = (d, c)" "a = ActDel i"
  then show ?thesis
    by (cases i) (auto simp: keyed_jobs_def AList.delete_eq intro: distinct_map_filter)
qed auto

lemma keyed_merge_lines: "keyed_jobs (fst dc) \<Longrightarrow> keyed_jobs (fst (fold merge_line acts dc))"
  by (induction acts arbitrary: dc) (simp_all add: keyed_merge_line)

lemma keyed_keys: "keyed_jobs d \<Longrightarrow> map fst d = map cj_id (map snd d)"
  by (auto simp: keyed_jobs_def)

lemma put_new: "keyed_jobs d \<Longrightarrow> cj_id j \<notin> cj_id ` set (map snd d) \<Longrightarrow>
    map snd (dict_set (cj_id j) j d) = map snd d @ [j]"
proof -
  assume k: "keyed_jobs d" and "cj_id j \<notin> cj_id ` set (map snd d)"
  then have "cj_id j \<notin> fst ` set d" using keyed_keys [OF k] by (metis list.set_map)
  then show ?thesis by (simp add: update_new)
qed

lemma put_known: "\<forall>(k, x) \<in> set d. k = cj_id x \<Longrightarrow> dict_ok d \<Longrightarrow> cj_id j \<in> fst ` set d \<Longrightarrow>
    map snd (dict_set (cj_id j) j d) = map (\<lambda>x. if cj_id x = cj_id j then j else x) (map snd d)"
proof (induction d)
  case (Cons e d)
  obtain k x where e: "e = (k, x)" by (cases e)
  show ?case
  proof (cases "k = cj_id j")
    case True
    have "\<forall>y \<in> set d. cj_id (snd y) \<noteq> cj_id j" using Cons.prems True e by force
    then have "map (\<lambda>y. if cj_id y = cj_id j then j else y) (map snd d) = map snd d" by simp
    then show ?thesis using Cons.prems True e by simp
  next
    case False
    then show ?thesis using Cons e by auto
  qed
qed simp

lemma del_known: "\<forall>(k, x) \<in> set d. k = cj_id x \<Longrightarrow>
    map snd (dict_del i d) = filter (\<lambda>x. cj_id x \<noteq> i) (map snd d)"
  by (induction d) (auto simp: AList.delete_eq)

lemma update_first_distinct:
  "distinct (map cj_id js) \<Longrightarrow>
   update_first (\<lambda>x. cj_id x = i) f js = map (\<lambda>x. if cj_id x = i then f x else x) js"
proof (induction js)
  case (Cons x js)
  show ?case
  proof (cases "cj_id x = i")
    case True
    then have "\<forall>y \<in> set js. cj_id y \<noteq> i" using Cons.prems by (auto simp: image_iff)
    then have "map (\<lambda>x. if cj_id x = i then f x else x) js = js" by (simp add: map_idI)
    with True show ?thesis by simp
  qed (use Cons in simp)
qed simp

lemma merge_line_flag: "fst (merge_line a (d, c)) = fst (merge_line a (d, c'))"
proof (cases a)
  case (ActDel i)
  then show ?thesis by (cases i) simp_all
qed simp_all

lemma view_offline:
  assumes "at_rest s" and "\<not> cr_running s"
  shows "view s = fst (merge_lines (pending s) (file_jobs s))"
    and "cr_store (load_store s) \<noteq> None" and "cr_disk (load_store s) = cr_disk s"
    and "cr_actions (load_store s) = cr_actions s" and "\<not> cr_running (load_store s)"
    and "\<not> cr_timer_active (load_store s)"
proof -
  have none: "fst (merge_lines [] js) = js" if "distinct (map cj_id js)" for js
    using that by (simp add: merge_lines_def keyed_jobs_dict comp_def)
  show "view s = fst (merge_lines (pending s) (file_jobs s))"
    using assms none
    by (auto simp: at_rest_def view_def load_store_def merge_action_def Let_def split_beta set_jobs_def
        store_jobs_def pending_def file_jobs_def split: store_file.splits option.splits)
  show "cr_store (load_store s) \<noteq> None" "cr_disk (load_store s) = cr_disk s"
    "cr_actions (load_store s) = cr_actions s" "\<not> cr_running (load_store s)"
    "\<not> cr_timer_active (load_store s)"
    using assms
    by (auto simp: at_rest_def load_store_def merge_action_def Let_def split_beta set_jobs_def
        split: store_file.splits option.splits)
qed

lemma view_running:
  assumes "at_rest s" and "cr_running s"
  shows "view s = file_jobs s" and "cr_store (load_store s) = Some (case cr_disk s of StoredJobs v js \<Rightarrow> (v, js) | _ \<Rightarrow> (1, []))"
    and "pending (load_store s) = []" and "cr_running (load_store s)" and "\<not> cr_timer_active (load_store s)"
proof -
  have none: "merge_lines [] js = (js, False)" if "distinct (map cj_id js)" for js
    using that by (simp add: merge_lines_def keyed_jobs_dict comp_def)
  show "view s = file_jobs s" "pending (load_store s) = []" "cr_running (load_store s)" "\<not> cr_timer_active (load_store s)"
    "cr_store (load_store s) = Some (case cr_disk s of StoredJobs v js \<Rightarrow> (v, js) | _ \<Rightarrow> (1, []))"
    using assms
    by (auto simp: at_rest_def view_def load_store_def merge_action_def Let_def split_beta set_jobs_def
        store_jobs_def pending_def file_jobs_def none split: store_file.splits option.splits)
qed

lemma keyed_view:
  assumes "at_rest s" and "\<not> cr_running s"
  shows "\<exists>d. keyed_jobs d \<and> view s = map snd d
    \<and> (\<forall>a. fst (merge_lines (pending s @ [a]) (file_jobs s)) = map snd (fst (merge_line a (d, True))))"
proof -
  let ?dc = "fold merge_line (pending s) (job_dict (file_jobs s), False)"
  have k: "keyed_jobs (fst ?dc)"
    using assms(1) by (intro keyed_merge_lines) (simp add: at_rest_def keyed_job_dict)
  have "fst (merge_line a ?dc) = fst (merge_line a (fst ?dc, True))" for a
    using merge_line_flag [of a "fst ?dc" "snd ?dc" True] by simp
  then show ?thesis
    using k view_offline(1) [OF assms] by (intro exI [of _ "fst ?dc"]) (simp add: merge_lines_def split_beta)
qed

lemma commit_running: "cr_running s \<Longrightarrow> commit now a s = arm_timer now (save_store s)"
  and commit_offline: "\<not> cr_running s \<Longrightarrow> commit now a s = append_action a s"
  by (simp_all add: commit_def)

lemma saved_view:
  assumes "cr_running s" and "pending s = []" and "\<not> cr_timer_active s" and "cr_store s = Some (v, js)"
    and "distinct (map cj_id js)"
  shows "view (arm_timer now (save_store s)) = js" and "at_rest (arm_timer now (save_store s))"
proof -
  have rest: "at_rest (arm_timer now (save_store s))"
    using assms by (simp add: at_rest_def save_store_def file_jobs_def pending_def)
  then show "at_rest (arm_timer now (save_store s))" .
  have "cr_running (arm_timer now (save_store s))" using assms(1,4) by (simp add: save_store_def)
  from view_running(1) [OF rest this] assms(4) show "view (arm_timer now (save_store s)) = js"
    by (simp add: file_jobs_def save_store_def)
qed

lemma logged_view:
  assumes "at_rest s" and "\<not> cr_running s"
    and same: "cr_disk t = cr_disk s" "cr_actions t = cr_actions s" "\<not> cr_running t" "\<not> cr_timer_active t"
  shows "\<exists>d. keyed_jobs d \<and> view s = map snd d \<and> at_rest (append_action a t)
    \<and> view (append_action a t) = map snd (fst (merge_line a (d, True)))"
proof -
  obtain d where d: "keyed_jobs d" "view s = map snd d"
      "\<And>a. fst (merge_lines (pending s @ [a]) (file_jobs s)) = map snd (fst (merge_line a (d, True)))"
    using keyed_view [OF assms(1,2)] by blast
  have rest: "at_rest (append_action a t)"
    using assms by (simp add: at_rest_def append_action_def file_jobs_def)
  moreover have "\<not> cr_running (append_action a t)" using same(3) by (simp add: append_action_def)
  moreover have "pending (append_action a t) = pending s @ [a]" "file_jobs (append_action a t) = file_jobs s"
    using same by (simp_all add: append_action_def pending_def file_jobs_def)
  ultimately have "view (append_action a t) = map snd (fst (merge_line a (d, True)))"
    using view_offline(1) [of "append_action a t"] d(3) by simp
  with d rest show ?thesis by blast
qed

lemma view_distinct: "at_rest s \<Longrightarrow> distinct (map cj_id (view s))"
proof (cases "cr_running s")
  case True
  assume "at_rest s"
  with True show ?thesis by (simp add: view_running(1) at_rest_def)
next
  case False
  assume "at_rest s"
  with False obtain d where "keyed_jobs d" "view s = map snd d" using keyed_view by blast
  then show ?thesis by (metis keyed_keys keyed_jobs_def)
qed

lemma add_refines:
  assumes "at_rest s" and "validate_schedule E sch = None" and "i \<notin> cj_id ` set (view s)"
  shows "view (fst (add_job E i now name sch pl del s))
      = view s @ [new_job E i name sch (pl\<lparr>pl_kind := ''agent_turn''\<rparr>) del now]
    \<and> at_rest (fst (add_job E i now name sch pl del s))"
proof -
  let ?j = "new_job E i name sch (pl\<lparr>pl_kind := ''agent_turn''\<rparr>) del now"
  have id: "cj_id ?j = i" by (simp add: new_job_def)
  show ?thesis
  proof (cases "cr_running s")
    case True
    note r = view_running [OF assms(1) True]
    obtain v where st: "cr_store (load_store s) = Some (v, view s)"
      using r(1,2) by (auto simp: file_jobs_def split: store_file.splits)
    let ?t = "set_jobs (\<lambda>js. js @ [?j]) (load_store s)"
    have t: "cr_running ?t" "pending ?t = []" "\<not> cr_timer_active ?t" "cr_store ?t = Some (v, view s @ [?j])"
      using r(3-5) st by (simp_all add: set_jobs_def pending_def)
    have "distinct (map cj_id (view s @ [?j]))" using view_distinct [OF assms(1)] assms(3) id by auto
    from saved_view [OF t this, of now] True show ?thesis
      using assms(2) st by (simp add: add_job_def Let_def)
  next
    case False
    have rest: "\<not> cr_timer_active s" using assms(1) by (simp add: at_rest_def)
    obtain d where d: "keyed_jobs d" "view s = map snd d" "at_rest (append_action (ActPut ?j) s)"
      "view (append_action (ActPut ?j) s) = map snd (fst (merge_line (ActPut ?j) (d, True)))"
      using logged_view [OF assms(1) False refl refl False rest, of "ActPut ?j"] by blast
    then show ?thesis
      using put_new [OF d(1), of ?j] assms(2,3) id False by (simp add: add_job_def Let_def)
  qed
qed

lemma remove_refines:
  assumes "at_rest s" and "j \<in> set (view s)" and "pl_kind (cj_payload j) \<noteq> ''system_event''"
    and "cj_id j \<noteq> []"
  shows "view (fst (remove_job (cj_id j) now s)) = filter (\<lambda>x. cj_id x \<noteq> cj_id j) (view s)
    \<and> at_rest (fst (remove_job (cj_id j) now s)) \<and> snd (remove_job (cj_id j) now s) = Some Removed"
proof -
  have find: "find_job (cj_id j) (load_store s) = Some j"
    using view_distinct [OF assms(1)] assms(2) by (simp add: find_unique view_def)
  show ?thesis
  proof (cases "cr_running s")
    case True
    note r = view_running [OF assms(1) True]
    obtain v where st: "cr_store (load_store s) = Some (v, view s)"
      using r(1,2) by (auto simp: file_jobs_def split: store_file.splits)
    let ?t = "set_jobs (filter (\<lambda>x. cj_id x \<noteq> cj_id j)) (load_store s)"
    have t: "cr_running ?t" "pending ?t = []" "\<not> cr_timer_active ?t"
      "cr_store ?t = Some (v, filter (\<lambda>x. cj_id x \<noteq> cj_id j) (view s))"
      using r(3-5) st by (simp_all add: set_jobs_def pending_def)
    have "distinct (map cj_id (filter (\<lambda>x. cj_id x \<noteq> cj_id j) (view s)))"
      using view_distinct [OF assms(1)] by (rule distinct_map_filter)
    from saved_view [OF t this, of now] show ?thesis
      using st find assms(3) t(1) by (simp add: remove_job_def Let_def commit_running)
  next
    case False
    note l = view_offline [OF assms(1) False]
    let ?t = "set_jobs (filter (\<lambda>x. cj_id x \<noteq> cj_id j)) (load_store s)"
    have t: "cr_disk ?t = cr_disk s" "cr_actions ?t = cr_actions s" "\<not> cr_running ?t" "\<not> cr_timer_active ?t"
      using l(3-6) by (simp_all add: set_jobs_def)
    obtain d where d: "keyed_jobs d" "view s = map snd d" "at_rest (append_action (ActDel (Some (cj_id j))) ?t)"
      "view (append_action (ActDel (Some (cj_id j))) ?t) = map snd (fst (merge_line (ActDel (Some (cj_id j))) (d, True)))"
      using logged_view [OF assms(1) False t] by blast
    have "cj_id j \<in> fst ` set d" using assms(2) d(1,2) by (force simp: keyed_jobs_def)
    then have "dict_get d (cj_id j) \<noteq> None" by (simp add: map_of_eq_None_iff)
    then have "view (append_action (ActDel (Some (cj_id j))) ?t) = filter (\<lambda>x. cj_id x \<noteq> cj_id j) (view s)"
      using d assms(4) del_known [of d "cj_id j"] by (auto simp: keyed_jobs_def)
    then show ?thesis
      using l(2) find assms(3) t(3) d(3) by (simp add: remove_job_def Let_def commit_offline del: not_None_eq)
  qed
qed

lemma change_refines:
  assumes "at_rest s" and "j \<in> set (view s)" and "\<And>x. cj_id (f x) = cj_id x"
  shows "view (commit now (ActPut (f j)) (change_job (cj_id j) f (load_store s)))
      = map (\<lambda>x. if cj_id x = cj_id j then f x else x) (view s)
    \<and> at_rest (commit now (ActPut (f j)) (change_job (cj_id j) f (load_store s)))"
proof -
  let ?js = "map (\<lambda>x. if cj_id x = cj_id j then f x else x) (view s)"
  have ids: "map cj_id ?js = map cj_id (view s)" using assms(3) by simp
  show ?thesis
  proof (cases "cr_running s")
    case True
    note r = view_running [OF assms(1) True]
    obtain v where st: "cr_store (load_store s) = Some (v, view s)"
      using r(1,2) by (auto simp: file_jobs_def split: store_file.splits)
    let ?t = "change_job (cj_id j) f (load_store s)"
    have t: "cr_running ?t" "pending ?t = []" "\<not> cr_timer_active ?t" "cr_store ?t = Some (v, ?js)"
      using r(3-5) st view_distinct [OF assms(1)]
      by (simp_all add: change_job_def set_jobs_def pending_def update_first_distinct)
    have "distinct (map cj_id ?js)" using view_distinct [OF assms(1)] by (simp only: ids)
    from saved_view [OF t this, of now] show ?thesis using t(1) by (simp add: commit_running)
  next
    case False
    note l = view_offline [OF assms(1) False]
    let ?t = "change_job (cj_id j) f (load_store s)"
    have t: "cr_disk ?t = cr_disk s" "cr_actions ?t = cr_actions s" "\<not> cr_running ?t" "\<not> cr_timer_active ?t"
      using l(3-6) by (simp_all add: change_job_def set_jobs_def)
    obtain d where d: "keyed_jobs d" "view s = map snd d" "at_rest (append_action (ActPut (f j)) ?t)"
      "view (append_action (ActPut (f j)) ?t) = map snd (fst (merge_line (ActPut (f j)) (d, True)))"
      using logged_view [OF assms(1) False t] by blast
    have "cj_id (f j) \<in> fst ` set d" using assms(2,3) d(1,2) by (force simp: keyed_jobs_def)
    then have "view (append_action (ActPut (f j)) ?t) = map (\<lambda>x. if cj_id x = cj_id j then f j else x) (view s)"
      using d put_known [of d "f j"] assms(3) by (simp add: keyed_jobs_def)
    also have "\<dots> = ?js"
      using view_distinct [OF assms(1)] assms(2) by (auto simp: distinct_map inj_on_def)
    finally show ?thesis using t(3) d(3) by (simp add: commit_offline)
  qed
qed

text \<open>
  An instance that is not running changes the jobs just as the running one does: whether the
  service saves its file or leaves a line for the running instance, what any instance then sees is
  the old list with the job added at the end, removed, or enabled or disabled in place.
\<close>

theorem changes_refine_job_list:
  assumes "at_rest s" and "validate_schedule E sch = None" and "i \<notin> cj_id ` set (view s)"
    and "j \<in> set (view s)" and "pl_kind (cj_payload j) \<noteq> ''system_event''" and "cj_id j \<noteq> []"
  shows "view (fst (add_job E i now name sch pl del s))
      = view s @ [new_job E i name sch (pl\<lparr>pl_kind := ''agent_turn''\<rparr>) del now]
    \<and> view (fst (remove_job (cj_id j) now s)) = filter (\<lambda>x. cj_id x \<noteq> cj_id j) (view s)
    \<and> view (fst (enable_job E (cj_id j) en now s))
      = map (\<lambda>x. if cj_id x = cj_id j then enabled_job E en now x else x) (view s)
    \<and> at_rest (fst (add_job E i now name sch pl del s)) \<and> at_rest (fst (remove_job (cj_id j) now s))
    \<and> at_rest (fst (enable_job E (cj_id j) en now s))"
proof -
  have find: "find_job (cj_id j) (load_store s) = Some j"
    using view_distinct [OF assms(1)] assms(4) by (simp add: find_unique view_def)
  have "cr_store (load_store s) \<noteq> None"
    using view_running(2) [OF assms(1)] view_offline(2) [OF assms(1)] by fastforce
  then have "fst (enable_job E (cj_id j) en now s) =
      commit now (ActPut (enabled_job E en now j)) (change_job (cj_id j) (enabled_job E en now) (load_store s))"
    using find by (simp add: enable_job_def Let_def del: not_None_eq)
  moreover have "cj_id (enabled_job E en now x) = cj_id x" for x by (simp add: enabled_job_def)
  ultimately show ?thesis
    using change_refines [OF assms(1,4), of "enabled_job E en now" now]
      add_refines [OF assms(1-3), of now name pl del] remove_refines [OF assms(1,4-6), of now] by simp
qed

theorem changes_refine_job_list_witness:
  "view (fst (remove_job ''a'' 5 (sample_service (StoredJobs 1 [sample_job ''a'' ''at'', sample_job ''b'' ''every'']) False)))
     = [sample_job ''b'' ''every'']"
proof -
  let ?s = "sample_service (StoredJobs 1 [sample_job ''a'' ''at'', sample_job ''b'' ''every'']) False"
  have v: "view ?s = [sample_job ''a'' ''at'', sample_job ''b'' ''every'']"
    by (simp add: view_def load_store_def sample_service_def merge_action_def store_jobs_def)
  have rest: "at_rest ?s" by (simp add: at_rest_def sample_service_def file_jobs_def sample_job_def)
  have ids: "cj_id (sample_job i k) = i" "pl_kind (cj_payload (sample_job i k)) = ''agent_turn''" for i k
    by (simp_all add: sample_job_def)
  have "validate_schedule quiet_env (cj_schedule (sample_job ''a'' ''at'')) = None"
    by (simp add: validate_schedule_def sample_job_def)
  from changes_refine_job_list [OF rest this, of "''c''" "sample_job ''a'' ''at''" 5] show ?thesis
    by (simp add: v ids)
qed

end
