(* ===== verification/Pairing.thy ===== *)
theory Pairing
  imports Prelude Safety
begin

text \<open>
  Who may talk to the assistant: the pairing codes and approved senders of
  \<^verbatim>\<open>OriginAgent/pairing/store.py\<close>, the tenant registry of \<^verbatim>\<open>identity/tenant.py\<close>, and the
  \<^verbatim>\<open>/pairing\<close> command that connects them. The state of the store is the content of its file; a code
  is drawn by the caller. Replies are a datatype, one constructor per text of the code.
\<close>

section \<open>Pairing codes\<close>

record PendingInfo =
  pi_channel :: string
  pi_sender_id :: string
  pi_created_at :: int
  pi_expires_at :: int

record PairingData =
  pd_approved :: "(string, string set) dict"
  pd_pending :: "(string, PendingInfo) dict"
  pd_hint_shown :: "(string, string set) dict"

definition empty_pairing :: PairingData where
  "empty_pairing = \<lparr>pd_approved = [], pd_pending = [], pd_hint_shown = []\<rparr>"

definition gc_pending :: "int \<Rightarrow> PairingData \<Rightarrow> PairingData" where
  "gc_pending now d = d\<lparr>pd_pending := filter (\<lambda>(c, i). \<not> pi_expires_at i < now) (pd_pending d)\<rparr>"

definition members :: "(string, string set) dict \<Rightarrow> string \<Rightarrow> string set" where
  "members m ch = (case dict_get m ch of None \<Rightarrow> {} | Some s \<Rightarrow> s)"

definition add_member :: "string \<Rightarrow> string \<Rightarrow> (string, string set) dict \<Rightarrow> (string, string set) dict" where
  "add_member ch s m = dict_set ch (insert s (members m ch)) m"

definition generate_code :: "string \<Rightarrow> int \<Rightarrow> string \<Rightarrow> string \<Rightarrow> int \<Rightarrow> PairingData \<Rightarrow> PairingData" where
  "generate_code code now ch s ttl d =
     (let d1 = gc_pending now d in
      d1\<lparr>pd_pending := dict_set code \<lparr>pi_channel = ch, pi_sender_id = s, pi_created_at = now,
           pi_expires_at = now + ttl\<rparr> (pd_pending d1)\<rparr>)"

definition approve_code :: "int \<Rightarrow> string \<Rightarrow> PairingData \<Rightarrow> PairingData \<times> (string \<times> string) option" where
  "approve_code now code d =
     (let d1 = gc_pending now d in
      case dict_get (pd_pending d1) code of
        None \<Rightarrow> (d, None)
      | Some i \<Rightarrow>
          (d1\<lparr>pd_pending := dict_del code (pd_pending d1),
              pd_approved := add_member (pi_channel i) (pi_sender_id i) (pd_approved d1)\<rparr>,
           Some (pi_channel i, pi_sender_id i)))"

definition deny_code :: "int \<Rightarrow> string \<Rightarrow> PairingData \<Rightarrow> PairingData \<times> bool" where
  "deny_code now code d =
     (let d1 = gc_pending now d in
      if dict_get (pd_pending d1) code \<noteq> None
      then (d1\<lparr>pd_pending := dict_del code (pd_pending d1)\<rparr>, True) else (d, False))"

definition is_approved :: "string \<Rightarrow> string \<Rightarrow> PairingData \<Rightarrow> bool" where
  "is_approved ch s d = (s \<in> members (pd_approved d) ch)"

definition list_pending :: "int \<Rightarrow> PairingData \<Rightarrow> (string \<times> PendingInfo) list" where
  "list_pending now d = pd_pending (gc_pending now d)"

definition pairing_revoke :: "string \<Rightarrow> string \<Rightarrow> PairingData \<Rightarrow> PairingData \<times> bool" where
  "pairing_revoke ch s d =
     (let users = members (pd_approved d) ch in
      if s \<in> users then
        (d\<lparr>pd_approved := (if users - {s} = {} then dict_del ch (pd_approved d)
                           else dict_set ch (users - {s}) (pd_approved d))\<rparr>, True)
      else (d, False))"

definition get_approved :: "string \<Rightarrow> PairingData \<Rightarrow> string list" where
  "get_approved ch d = sorted_list_of_set (members (pd_approved d) ch)"

definition is_hint_shown :: "string \<Rightarrow> string \<Rightarrow> PairingData \<Rightarrow> bool" where
  "is_hint_shown ch s d = (s \<in> members (pd_hint_shown d) ch)"

definition mark_hint_shown :: "string \<Rightarrow> string \<Rightarrow> PairingData \<Rightarrow> PairingData" where
  "mark_hint_shown ch s d = d\<lparr>pd_hint_shown := add_member ch s (pd_hint_shown d)\<rparr>"

section \<open>Tenants\<close>

record Binding =
  bd_channel :: string
  bd_sender_id :: string
  bd_label :: string

record TenantConfig =
  tc_id :: string
  tc_name :: string
  tc_bindings :: "Binding list"
  tc_bdi :: bool
  tc_claimable :: bool
  tc_permissions :: "(string, bool) dict"

record Tenant =
  tn_id :: string
  tn_name :: string
  tn_session_key :: string
  tn_workspace :: string
  tn_bdi :: bool
  tn_claimable :: bool
  tn_permissions :: "(string, bool) dict"
  tn_bindings :: "Binding list"

record TenantRegistry =
  tr_workspace :: string
  tr_tenants :: "(string, Tenant) dict"
  tr_by_sender :: "(string \<times> string, string) dict"
  tr_guest :: "Tenant option"
  tr_default_id :: string

record TenantsConfig =
  ts_tenants :: "TenantConfig list"
  ts_default_id :: string
  ts_guest_enabled :: bool

abbreviation binding_key :: "Binding \<Rightarrow> string \<times> string" where
  "binding_key b \<equiv> (bd_channel b, bd_sender_id b)"

definition default_label :: "string \<Rightarrow> string \<Rightarrow> string" where
  "default_label ch s = ch @ '':'' @ s"

definition tenant_of_config :: "string \<Rightarrow> TenantConfig \<Rightarrow> Tenant" where
  "tenant_of_config ws tc =
     \<lparr>tn_id = tc_id tc, tn_name = str_or (tc_name tc) (tc_id tc), tn_session_key = ''tenant:'' @ tc_id tc,
      tn_workspace = ws @ ''/tenants/'' @ tc_id tc, tn_bdi = tc_bdi tc, tn_claimable = tc_claimable tc,
      tn_permissions = tc_permissions tc,
      tn_bindings = map (\<lambda>b. b\<lparr>bd_label := str_or (bd_label b) (default_label (bd_channel b) (bd_sender_id b))\<rparr>)
        (tc_bindings tc)\<rparr>"

definition bind_all :: "Binding list \<Rightarrow> string \<Rightarrow> (string \<times> string, string) dict \<Rightarrow> (string \<times> string, string) dict" where
  "bind_all bs tid m = fold (\<lambda>b. dict_set (binding_key b) tid) bs m"

definition unbind_all :: "Binding list \<Rightarrow> (string \<times> string, string) dict \<Rightarrow> (string \<times> string, string) dict" where
  "unbind_all bs m = fold (\<lambda>b. dict_del (binding_key b)) bs m"

definition register_from_config :: "TenantConfig \<Rightarrow> TenantRegistry \<Rightarrow> TenantRegistry \<times> Tenant" where
  "register_from_config tc r =
     (let t = tenant_of_config (tr_workspace r) tc in
      (r\<lparr>tr_tenants := dict_set (tc_id tc) t (tr_tenants r),
         tr_by_sender := bind_all (tc_bindings tc) (tc_id tc) (tr_by_sender r)\<rparr>, t))"

definition guest_tenant :: "string \<Rightarrow> Tenant" where
  "guest_tenant ws = \<lparr>tn_id = ''guest'', tn_name = ''Guest'', tn_session_key = ''tenant:guest'',
     tn_workspace = ws @ ''/tenants/guest'', tn_bdi = False, tn_claimable = False, tn_permissions = [],
     tn_bindings = []\<rparr>"

definition new_registry :: "string \<Rightarrow> TenantsConfig option \<Rightarrow> TenantRegistry" where
  "new_registry ws cfg =
     (let r0 = \<lparr>tr_workspace = ws, tr_tenants = [], tr_by_sender = [], tr_guest = None, tr_default_id = []\<rparr> in
      case cfg of None \<Rightarrow> r0
      | Some c \<Rightarrow>
          let r1 = fold (\<lambda>tc r. fst (register_from_config tc r)) (ts_tenants c)
                     (r0\<lparr>tr_default_id := ts_default_id c\<rparr>)
          in if ts_guest_enabled c then r1\<lparr>tr_guest := Some (guest_tenant ws)\<rparr> else r1)"

definition bare_sender :: "string \<Rightarrow> string" where
  "bare_sender s = takeWhile (\<lambda>c. c \<noteq> CHR ''|'') s"

definition lookup_id :: "string \<Rightarrow> string \<Rightarrow> TenantRegistry \<Rightarrow> string option" where
  "lookup_id ch s r =
     (case dict_get (tr_by_sender r) (ch, s) of
        Some t \<Rightarrow> Some t
      | None \<Rightarrow> if CHR ''|'' \<in> set s then dict_get (tr_by_sender r) (ch, bare_sender s) else None)"

definition lookup_tenant :: "string \<Rightarrow> string \<Rightarrow> TenantRegistry \<Rightarrow> Tenant option" where
  "lookup_tenant ch s r =
     (case lookup_id ch s r of
        None \<Rightarrow> tr_guest r
      | Some i \<Rightarrow> if i = [] then tr_guest r
          else (case dict_get (tr_tenants r) i of Some t \<Rightarrow> Some t | None \<Rightarrow> tr_guest r))"

definition get_tenant :: "string \<Rightarrow> TenantRegistry \<Rightarrow> Tenant option" where
  "get_tenant i r = dict_get (tr_tenants r) i"

definition all_tenants :: "TenantRegistry \<Rightarrow> Tenant list" where
  "all_tenants r = map snd (tr_tenants r) @ (case tr_guest r of None \<Rightarrow> [] | Some g \<Rightarrow> [g])"

definition list_claimable_tenants :: "TenantRegistry \<Rightarrow> (string \<times> string) list" where
  "list_claimable_tenants r = map (\<lambda>t. (tn_id t, tn_name t)) (filter tn_claimable (map snd (tr_tenants r)))"

datatype registry_error = KeyError string | TenantValueError string

definition register_binding ::
    "string \<Rightarrow> string \<Rightarrow> string \<Rightarrow> TenantRegistry \<Rightarrow> registry_error + TenantRegistry" where
  "register_binding ch s i r =
     (case dict_get (tr_tenants r) i of
        None \<Rightarrow> Inl (KeyError i)
      | Some t \<Rightarrow> Inr (r\<lparr>tr_by_sender := dict_set (ch, s) i (tr_by_sender r),
           tr_tenants := dict_set i (t\<lparr>tn_bindings := tn_bindings t @
             [\<lparr>bd_channel = ch, bd_sender_id = s, bd_label = default_label ch s\<rparr>]\<rparr>) (tr_tenants r)\<rparr>))"

definition claim_pairing ::
    "string \<Rightarrow> string \<Rightarrow> string \<Rightarrow> TenantRegistry \<Rightarrow> registry_error + (TenantRegistry \<times> Tenant option)" where
  "claim_pairing ch s i r =
     (if dict_get (tr_tenants r) i = None then Inl (KeyError i)
      else (case register_binding ch s i r of
              Inl e \<Rightarrow> Inl e
            | Inr r1 \<Rightarrow> Inr (r1, dict_get (tr_tenants r1) i)))"

definition add_tenant :: "TenantConfig \<Rightarrow> TenantRegistry \<Rightarrow> registry_error + TenantRegistry" where
  "add_tenant tc r =
     (if dict_get (tr_tenants r) (tc_id tc) \<noteq> None then Inl (TenantValueError (tc_id tc))
      else Inr (fst (register_from_config tc r)))"

definition forget_tenant :: "Tenant \<Rightarrow> string \<Rightarrow> TenantRegistry \<Rightarrow> TenantRegistry" where
  "forget_tenant t i r = r\<lparr>tr_by_sender := unbind_all (tn_bindings t) (tr_by_sender r),
     tr_tenants := dict_del i (tr_tenants r)\<rparr>"

definition update_tenant :: "string \<Rightarrow> TenantConfig \<Rightarrow> TenantRegistry \<Rightarrow> registry_error + TenantRegistry" where
  "update_tenant i tc r =
     (case dict_get (tr_tenants r) i of
        None \<Rightarrow> Inl (KeyError i)
      | Some t \<Rightarrow> Inr (fst (register_from_config (tc\<lparr>tc_id := i\<rparr>) (forget_tenant t i r))))"

definition delete_tenant :: "string \<Rightarrow> TenantRegistry \<Rightarrow> registry_error + TenantRegistry" where
  "delete_tenant i r =
     (if i = ''guest'' then Inl (TenantValueError ''Cannot delete the guest tenant'')
      else case dict_get (tr_tenants r) i of
          None \<Rightarrow> Inl (KeyError i)
        | Some t \<Rightarrow> Inr (forget_tenant t i r))"

definition tenant_to_config :: "Tenant \<Rightarrow> TenantConfig" where
  "tenant_to_config t = \<lparr>tc_id = tn_id t, tc_name = tn_name t, tc_bindings = tn_bindings t,
     tc_bdi = tn_bdi t, tc_claimable = tn_claimable t, tc_permissions = tn_permissions t\<rparr>"

definition registry_to_config :: "TenantRegistry \<Rightarrow> TenantsConfig" where
  "registry_to_config r = \<lparr>ts_tenants = map (tenant_to_config \<circ> snd) (tr_tenants r),
     ts_default_id = tr_default_id r, ts_guest_enabled = (tr_guest r \<noteq> None)\<rparr>"

section \<open>The command\<close>

datatype pairing_reply =
    NoPending
  | PendingList "(string \<times> PendingInfo \<times> int option) list"
  | UsageApprove | InvalidCode string | ApprovedReply string string string
  | UsageDeny | DeniedReply string | NotFoundReply string
  | RevokedReply string string | NotApprovedEntry string string | UsageRevoke
  | UsageClaim | ClaimNeedsContext | AlreadyBound string | NotApproved string
  | UnknownTenant string | NotClaimable string | ClaimedReply string string
  | ClaimRaises registry_error
  | UnknownCommand

definition format_expiry :: "int \<Rightarrow> int \<Rightarrow> int option" where
  "format_expiry now expires_at = (if 0 < expires_at - now then Some (expires_at - now) else None)"

definition claim_command ::
    "string \<Rightarrow> string \<Rightarrow> string \<Rightarrow> PairingData \<Rightarrow> TenantRegistry \<Rightarrow> TenantRegistry \<times> pairing_reply" where
  "claim_command ch s i d r =
     (case (case lookup_tenant ch s r of Some t \<Rightarrow> if tn_id t \<noteq> ''guest'' then Some t else None | None \<Rightarrow> None) of
        Some t \<Rightarrow> (r, AlreadyBound (tn_id t))
      | None \<Rightarrow>
          if \<not> is_approved ch s d then (r, NotApproved ch)
          else case get_tenant i r of
              None \<Rightarrow> (r, UnknownTenant i)
            | Some t \<Rightarrow>
                if \<not> tn_claimable t then (r, NotClaimable i)
                else (case claim_pairing ch s i r of
                        Inl e \<Rightarrow> (r, ClaimRaises e)
                      | Inr (r1, _) \<Rightarrow> (r1, ClaimedReply i (tn_name t))))"

definition handle_pairing_command ::
    "int \<Rightarrow> string \<Rightarrow> string \<Rightarrow> string option \<Rightarrow> PairingData \<Rightarrow> TenantRegistry option
     \<Rightarrow> PairingData \<times> TenantRegistry option \<times> pairing_reply" where
  "handle_pairing_command now ch text sender d reg =
     (let parts = py_split text;
          sub = (case parts of [] \<Rightarrow> ''list'' | p # _ \<Rightarrow> p);
          arg = (case parts of _ # a # _ \<Rightarrow> Some a | _ \<Rightarrow> None)
      in if sub = ''list'' then
           (let l = list_pending now d in
            (d, reg, if l = [] then NoPending
                     else PendingList (map (\<lambda>(c, i). (c, i, format_expiry now (pi_expires_at i))) l)))
         else if sub = ''approve'' then
           (case arg of None \<Rightarrow> (d, reg, UsageApprove)
            | Some a \<Rightarrow> (case approve_code now a d of
                (d1, None) \<Rightarrow> (d1, reg, InvalidCode a)
              | (d1, Some (c, s)) \<Rightarrow> (d1, reg, ApprovedReply a s c)))
         else if sub = ''deny'' then
           (case arg of None \<Rightarrow> (d, reg, UsageDeny)
            | Some a \<Rightarrow> (case deny_code now a d of
                (d1, True) \<Rightarrow> (d1, reg, DeniedReply a) | (d1, False) \<Rightarrow> (d1, reg, NotFoundReply a)))
         else if sub = ''revoke'' then
           (case parts of
              [_, a] \<Rightarrow> (case pairing_revoke ch a d of
                  (d1, True) \<Rightarrow> (d1, reg, RevokedReply a ch) | (d1, False) \<Rightarrow> (d1, reg, NotApprovedEntry a ch))
            | [_, c, a] \<Rightarrow> (case pairing_revoke c a d of
                  (d1, True) \<Rightarrow> (d1, reg, RevokedReply a c) | (d1, False) \<Rightarrow> (d1, reg, NotApprovedEntry a c))
            | _ \<Rightarrow> (d, reg, UsageRevoke))
         else if sub = ''claim'' then
           (case arg of None \<Rightarrow> (d, reg, UsageClaim)
            | Some a \<Rightarrow> (case (sender, reg) of
                (Some s, Some r) \<Rightarrow> (let (r1, reply) = claim_command ch s a d r in (d, Some r1, reply))
              | _ \<Rightarrow> (d, reg, ClaimNeedsContext)))
         else (d, reg, UnknownCommand))"

section \<open>Facts about the store\<close>

lemma members_set [dict_simps]:
  "members (dict_set k v m) ch = (if ch = k then v else members m ch)"
  by (simp add: members_def dict_get_set)

lemma members_del [dict_simps]:
  "members (dict_del k m) ch = (if ch = k then {} else members m ch)"
  by (simp add: members_def dict_get_del)

lemma members_add [dict_simps]:
  "members (add_member k s m) ch = (if ch = k then insert s (members m k) else members m ch)"
  by (simp add: add_member_def members_set)

lemma gc_approved [simp]: "pd_approved (gc_pending now d) = pd_approved d"
  by (simp add: gc_pending_def)

lemma gc_keeps:
  "dict_ok (pd_pending d) \<Longrightarrow> dict_get (pd_pending (gc_pending now d)) c =
     (case dict_get (pd_pending d) c of None \<Rightarrow> None
      | Some i \<Rightarrow> if pi_expires_at i < now then None else Some i)"
proof (simp add: gc_pending_def, induction "pd_pending d" arbitrary: d)
  case Nil
  then show ?case by simp
next
  case (Cons e es)
  obtain c' i where e: "e = (c', i)" by (cases e)
  from Cons.hyps(1) [of "d\<lparr>pd_pending := es\<rparr>"] Cons.prems Cons.hyps(2) [symmetric]
  have "map_of (filter (\<lambda>(c, i). \<not> pi_expires_at i < now) es) c =
      (case map_of es c of None \<Rightarrow> None | Some i \<Rightarrow> if pi_expires_at i < now then None else Some i)"
    by simp
  moreover from Cons.prems Cons.hyps(2) [symmetric] e have "c' \<notin> fst ` set es" by simp
  then have "map_of es c' = None" by (simp add: map_of_eq_None_iff)
  ultimately show ?case using Cons.hyps(2) [symmetric] e by auto
qed

lemma gc_none: "dict_get (pd_pending d) c = None \<Longrightarrow> dict_get (pd_pending (gc_pending now d)) c = None"
  by (auto simp: gc_pending_def map_of_eq_None_iff)

lemma gc_ok: "dict_ok (pd_pending d) \<Longrightarrow> dict_ok (pd_pending (gc_pending now d))"
  by (simp add: gc_pending_def distinct_map_filter)

text \<open>
  Everything that changes the store, except drawing the code \<open>c\<close> again (a drawn code is 8 random
  letters or digits).
\<close>

inductive pairing_step :: "string \<Rightarrow> PairingData \<Rightarrow> PairingData \<Rightarrow> bool" for c where
  pair_generate: "code \<noteq> c \<Longrightarrow> pairing_step c d (generate_code code now ch s ttl d)"
| pair_approve: "pairing_step c d (fst (approve_code now code d))"
| pair_deny: "pairing_step c d (fst (deny_code now code d))"
| pair_revoke: "pairing_step c d (fst (pairing_revoke ch s d))"
| pair_hint: "pairing_step c d (mark_hint_shown ch s d)"

definition code_gone :: "string \<Rightarrow> PairingData \<Rightarrow> bool" where
  "code_gone c d = (dict_get (pd_pending d) c = None)"

lemma approve_cases:
  "approve_code now c d = (d1, Some (ch, s)) \<longleftrightarrow>
     (\<exists>i. dict_get (pd_pending (gc_pending now d)) c = Some i \<and> pi_channel i = ch \<and> pi_sender_id i = s \<and>
        d1 = (gc_pending now d)\<lparr>pd_pending := dict_del c (pd_pending (gc_pending now d)),
               pd_approved := add_member ch s (pd_approved d)\<rparr>)"
  by (auto simp: approve_code_def Let_def split: option.splits)

lemma pairing_step_gone: "pairing_step c d d' \<Longrightarrow> code_gone c d \<Longrightarrow> code_gone c d'"
  by (induction rule: pairing_step.induct)
     (auto simp: code_gone_def generate_code_def approve_code_def deny_code_def pairing_revoke_def
        mark_hint_shown_def Let_def dict_get_set dict_get_del gc_none split: option.splits)

interpretation pairing_code: one_shot "\<lambda>now. approve_code now c" "code_gone c" "pairing_step c" "\<lambda>_. True"
proof unfold_locales
  fix now s t r
  assume "approve_code now c s = (t, Some r)"
  then show "code_gone c t"
    by (cases r) (auto simp: approve_cases code_gone_def dict_get_del)
next
  fix now s
  assume "code_gone c s"
  then show "snd (approve_code now c s) = None"
    by (simp add: code_gone_def approve_code_def Let_def gc_none)
qed (auto intro: pairing_step_gone)

text \<open>
  An approved pairing code is used up: the approval needs a pending code that has not expired,
  it approves exactly the sender the code was drawn for, and no run of store operations that does not
  draw the same code again lets it be approved a second time.\<close>

theorem pairing_code_once:
  assumes "dict_ok (pd_pending d)" and "approve_code now c d = (d1, Some (ch, s))"
    and "(pairing_step c)\<^sup>*\<^sup>* d1 d2"
  shows "(\<exists>i. dict_get (pd_pending d) c = Some i \<and> now \<le> pi_expires_at i \<and> pi_channel i = ch \<and> pi_sender_id i = s) \<and>
    (\<forall>ch' s'. is_approved ch' s' d1 = (is_approved ch' s' d \<or> (ch', s') = (ch, s))) \<and>
    snd (approve_code now' c d2) = None"
proof (intro conjI)
  from assms(2) obtain i where i: "dict_get (pd_pending (gc_pending now d)) c = Some i"
      "pi_channel i = ch" "pi_sender_id i = s" and d1: "pd_approved d1 = add_member ch s (pd_approved d)"
    by (auto simp: approve_cases)
  from i gc_keeps [OF assms(1), of now c]
  show "\<exists>i. dict_get (pd_pending d) c = Some i \<and> now \<le> pi_expires_at i \<and> pi_channel i = ch \<and> pi_sender_id i = s"
    by (cases "dict_get (pd_pending d) c") (simp_all split: if_splits)
  from d1 show "\<forall>ch' s'. is_approved ch' s' d1 = (is_approved ch' s' d \<or> (ch', s') = (ch, s))"
    by (auto simp: is_approved_def members_add)
  show "snd (approve_code now' c d2) = None"
    by (rule pairing_code.at_most_once [OF TrueI assms(2,3)])
qed

definition example_pairing :: PairingData where
  "example_pairing = generate_code ''ABCD-EFGH'' 100 ''telegram'' ''42'' 600 empty_pairing"

theorem pairing_code_once_witness:
  "snd (approve_code 150 ''ABCD-EFGH'' (fst (pairing_revoke ''telegram'' ''42''
     (fst (approve_code 120 ''ABCD-EFGH'' example_pairing))))) = None"
proof -
  let ?d1 = "fst (approve_code 120 ''ABCD-EFGH'' example_pairing)"
  have "approve_code 120 ''ABCD-EFGH'' example_pairing = (?d1, Some (''telegram'', ''42''))"
    and "dict_ok (pd_pending example_pairing)"
    by (simp_all add: example_pairing_def generate_code_def empty_pairing_def approve_code_def gc_pending_def)
  moreover have "(pairing_step ''ABCD-EFGH'')\<^sup>*\<^sup>* ?d1 (fst (pairing_revoke ''telegram'' ''42'' ?d1))"
    by (rule r_into_rtranclp) (rule pair_revoke)
  ultimately show ?thesis using pairing_code_once by blast
qed

section \<open>Facts about the registry\<close>

text \<open>
  A registry is consistent when every tenant is stored under its own id and every sender entry points
  to a tenant that lists the binding.
\<close>

abbreviation binding_keys :: "Binding list \<Rightarrow> (string \<times> string) set" where
  "binding_keys bs \<equiv> binding_key ` set bs"

definition registry_ok :: "TenantRegistry \<Rightarrow> bool" where
  "registry_ok r = ((\<forall>i t. dict_get (tr_tenants r) i = Some t \<longrightarrow> tn_id t = i) \<and>
     (\<forall>k i. dict_get (tr_by_sender r) k = Some i \<longrightarrow>
        (\<exists>t. dict_get (tr_tenants r) i = Some t \<and> k \<in> binding_keys (tn_bindings t))) \<and>
     (\<forall>g. tr_guest r = Some g \<longrightarrow> tn_id g = ''guest''))"

lemma get_bind_all [dict_simps]:
  "dict_get (bind_all bs i m) k = (if k \<in> binding_keys bs then Some i else dict_get m k)"
  by (induction bs arbitrary: m) (auto simp: bind_all_def dict_get_set)

lemma get_unbind_all [dict_simps]:
  "dict_get (unbind_all bs m) k = (if k \<in> binding_keys bs then None else dict_get m k)"
  by (induction bs arbitrary: m) (auto simp: unbind_all_def dict_get_del)

lemma config_tenant [simp]:
  "tn_id (tenant_of_config ws tc) = tc_id tc" "tn_claimable (tenant_of_config ws tc) = tc_claimable tc"
  "binding_keys (tn_bindings (tenant_of_config ws tc)) = binding_keys (tc_bindings tc)"
  by (auto simp: tenant_of_config_def image_image)

lemma registered_fields [simp]:
  "dict_get (tr_tenants (fst (register_from_config tc r))) i =
     (if i = tc_id tc then Some (tenant_of_config (tr_workspace r) tc) else dict_get (tr_tenants r) i)"
  "dict_get (tr_by_sender (fst (register_from_config tc r))) k =
     (if k \<in> binding_keys (tc_bindings tc) then Some (tc_id tc) else dict_get (tr_by_sender r) k)"
  "tr_guest (fst (register_from_config tc r)) = tr_guest r"
  by (simp_all add: register_from_config_def Let_def dict_simps)

lemma forgotten_fields [simp]:
  "dict_get (tr_tenants (forget_tenant t i r)) j = (if j = i then None else dict_get (tr_tenants r) j)"
  "dict_get (tr_by_sender (forget_tenant t i r)) k =
     (if k \<in> binding_keys (tn_bindings t) then None else dict_get (tr_by_sender r) k)"
  "tr_guest (forget_tenant t i r) = tr_guest r"
  by (simp_all add: forget_tenant_def dict_simps)

text \<open>A tenant may be registered under an id that is not in use.\<close>

lemma registry_ok_register [inv_intros]:
  "registry_ok r \<Longrightarrow> dict_get (tr_tenants r) (tc_id tc) = None \<Longrightarrow> registry_ok (fst (register_from_config tc r))"
  unfolding registry_ok_def by (auto split: if_splits) (metis option.distinct(1))

lemma registry_ok_forget [inv_intros]:
  assumes ok: "registry_ok r" and t: "dict_get (tr_tenants r) i = Some t"
  shows "registry_ok (forget_tenant t i r)"
  unfolding registry_ok_def
proof (intro conjI allI impI)
  fix k j
  assume "dict_get (tr_by_sender (forget_tenant t i r)) k = Some j"
  then have k: "k \<notin> binding_keys (tn_bindings t)" "dict_get (tr_by_sender r) k = Some j"
    by (auto split: if_splits)
  with ok obtain u where u: "dict_get (tr_tenants r) j = Some u" "k \<in> binding_keys (tn_bindings u)"
    unfolding registry_ok_def by blast
  with k t have "j \<noteq> i" by auto
  with u show "\<exists>t'. dict_get (tr_tenants (forget_tenant t i r)) j = Some t' \<and> k \<in> binding_keys (tn_bindings t')"
    by simp
qed (use ok in \<open>auto simp: registry_ok_def split: if_splits\<close>)

lemma registry_ok_bind [inv_intros]:
  assumes ok: "registry_ok r" and b: "register_binding ch s i r = Inr r'"
  shows "registry_ok r'"
proof -
  from b obtain t where t: "dict_get (tr_tenants r) i = Some t" and r': "r' = r\<lparr>tr_by_sender := dict_set (ch, s) i (tr_by_sender r),
           tr_tenants := dict_set i (t\<lparr>tn_bindings := tn_bindings t @
             [\<lparr>bd_channel = ch, bd_sender_id = s, bd_label = default_label ch s\<rparr>]\<rparr>) (tr_tenants r)\<rparr>"
    by (auto simp: register_binding_def split: option.splits)
  show ?thesis
    unfolding registry_ok_def
  proof (intro conjI allI impI)
    fix k j
    assume k: "dict_get (tr_by_sender r') k = Some j"
    show "\<exists>u. dict_get (tr_tenants r') j = Some u \<and> k \<in> binding_keys (tn_bindings u)"
    proof (cases "k = (ch, s)")
      case True
      with k r' show ?thesis by (auto simp: dict_simps)
    next
      case False
      with k r' have "dict_get (tr_by_sender r) k = Some j" by (simp add: dict_simps)
      with ok obtain u where "dict_get (tr_tenants r) j = Some u" "k \<in> binding_keys (tn_bindings u)"
        unfolding registry_ok_def by blast
      with r' t show ?thesis by (auto simp: dict_simps)
    qed
  qed (use ok t r' in \<open>auto simp: registry_ok_def dict_simps split: if_splits\<close>)
qed

lemma claim_pairing_binds: "claim_pairing ch s i r = Inr (r', t) \<Longrightarrow> register_binding ch s i r = Inr r'"
  by (auto simp: claim_pairing_def split: if_splits sum.splits)

text \<open>What the runtime does to a registry: the admin surface and the claim command.\<close>

inductive registry_step :: "TenantRegistry \<Rightarrow> TenantRegistry \<Rightarrow> bool" where
  reg_add: "add_tenant tc r = Inr r' \<Longrightarrow> registry_step r r'"
| reg_update: "update_tenant i tc r = Inr r' \<Longrightarrow> registry_step r r'"
| reg_delete: "delete_tenant i r = Inr r' \<Longrightarrow> registry_step r r'"
| reg_claim: "registry_step r (fst (claim_command ch s i d r))"

lemma claim_result:
  "fst (claim_command ch s i d r) = r \<or> claim_pairing ch s i r = Inr (fst (claim_command ch s i d r), dict_get (tr_tenants (fst (claim_command ch s i d r))) i)"
  by (auto simp: claim_command_def claim_pairing_def split: option.splits sum.splits)

lemma registry_step_ok: "registry_step r r' \<Longrightarrow> registry_ok r \<Longrightarrow> registry_ok r'"
proof (induction rule: registry_step.induct)
  case (reg_add tc r r')
  then show ?case by (auto simp: add_tenant_def split: if_splits intro: inv_intros)
next
  case (reg_update i tc r r')
  then obtain t where t: "dict_get (tr_tenants r) i = Some t"
    and r': "r' = fst (register_from_config (tc\<lparr>tc_id := i\<rparr>) (forget_tenant t i r))"
    by (auto simp: update_tenant_def split: option.splits)
  have "registry_ok (forget_tenant t i r)" by (rule registry_ok_forget [OF reg_update(2) t])
  then show ?case unfolding r' by (rule registry_ok_register) simp
next
  case (reg_delete i r r')
  then show ?case by (auto simp: delete_tenant_def split: if_splits option.splits intro: inv_intros)
next
  case (reg_claim r ch s i d)
  then show ?case using claim_result [of ch s i d r] by (metis claim_pairing_binds registry_ok_bind)
qed

definition fresh_registry :: "TenantRegistry \<Rightarrow> bool" where
  "fresh_registry r = (\<exists>ws cfg. r = new_registry ws cfg \<and>
     (case cfg of None \<Rightarrow> True | Some c \<Rightarrow> distinct (map tc_id (ts_tenants c))))"

lemma registry_ok_fold:
  "registry_ok r \<Longrightarrow> distinct (map tc_id tcs) \<Longrightarrow> \<forall>tc \<in> set tcs. dict_get (tr_tenants r) (tc_id tc) = None \<Longrightarrow>
   registry_ok (fold (\<lambda>tc r. fst (register_from_config tc r)) tcs r)"
proof (induction tcs arbitrary: r)
  case Nil
  then show ?case by simp
next
  case (Cons a tcs)
  then have "registry_ok (fst (register_from_config a r))" by (auto intro: registry_ok_register)
  moreover from Cons.prems have "\<forall>tc \<in> set tcs. dict_get (tr_tenants (fst (register_from_config a r))) (tc_id tc) = None"
    by (auto simp: image_iff)
  ultimately show ?case using Cons by simp
qed

lemma registry_ok_fresh: "fresh_registry r \<Longrightarrow> registry_ok r"
proof -
  assume "fresh_registry r"
  then obtain ws cfg where r: "r = new_registry ws cfg"
    and d: "case cfg of None \<Rightarrow> True | Some c \<Rightarrow> distinct (map tc_id (ts_tenants c))"
    unfolding fresh_registry_def by blast
  show "registry_ok r"
  proof (cases cfg)
    case None
    then show ?thesis using r by (simp add: new_registry_def registry_ok_def)
  next
    case (Some c)
    let ?r0 = "\<lparr>tr_workspace = ws, tr_tenants = [], tr_by_sender = [], tr_guest = None, tr_default_id = ts_default_id c\<rparr>"
    let ?r1 = "fold (\<lambda>tc r. fst (register_from_config tc r)) (ts_tenants c) ?r0"
    have "registry_ok ?r1"
      using d Some by (intro registry_ok_fold) (simp_all add: registry_ok_def)
    then have "registry_ok (?r1\<lparr>tr_guest := Some (guest_tenant ws)\<rparr>)"
      by (auto simp: registry_ok_def guest_tenant_def)
    with \<open>registry_ok ?r1\<close> show ?thesis using r Some by (simp add: new_registry_def Let_def)
  qed
qed

interpretation registry: safe_system fresh_registry registry_step registry_ok
  by unfold_locales (auto intro: registry_ok_fresh registry_step_ok)

lemma bare_sender_plain: "CHR ''|'' \<notin> set s \<Longrightarrow> bare_sender s = s"
  unfolding bare_sender_def by (rule takeWhile_eq_all_conv [THEN iffD2]) auto

lemma lookup_listed:
  assumes ok: "registry_ok r" and l: "lookup_tenant ch s r = Some t" and ng: "tr_guest r \<noteq> Some t"
  shows "dict_get (tr_tenants r) (tn_id t) = Some t \<and>
    ((ch, s) \<in> binding_keys (tn_bindings t) \<or> (ch, bare_sender s) \<in> binding_keys (tn_bindings t))"
proof -
  from l ng obtain i where i: "lookup_id ch s r = Some i" "dict_get (tr_tenants r) i = Some t"
    unfolding lookup_tenant_def by (auto split: option.splits if_splits)
  with ok have id: "tn_id t = i" unfolding registry_ok_def by blast
  from i(1) have "dict_get (tr_by_sender r) (ch, s) = Some i \<or> dict_get (tr_by_sender r) (ch, bare_sender s) = Some i"
    unfolding lookup_id_def by (auto split: option.splits if_splits)
  moreover have "k \<in> binding_keys (tn_bindings t)" if "dict_get (tr_by_sender r) k = Some i" for k
  proof -
    from ok that obtain u where "dict_get (tr_tenants r) i = Some u" "k \<in> binding_keys (tn_bindings u)"
      unfolding registry_ok_def by blast
    with i(2) show ?thesis by simp
  qed
  ultimately show ?thesis using i(2) id by metis
qed

text \<open>
  C28. In a registry that was made from a configuration with distinct tenant ids (the schema does not check
  that they are), however tenants are added, updated, deleted and claimed at run time: a sender resolves to
  a tenant other than the guest, which answers for every unknown sender when guests are enabled, only when that
  tenant is registered under its id and lists a binding of this sender (by its full form or by the part
  before the bar) on this channel.
\<close>

theorem resolved_sender_is_listed:
  assumes "fresh_registry r0" and "registry_step\<^sup>*\<^sup>* r0 r"
    and "lookup_tenant ch s r = Some t" and "tr_guest r \<noteq> Some t"
  shows "get_tenant (tn_id t) r = Some t \<and>
    (\<exists>b. b \<in> set (tn_bindings t) \<and> bd_channel b = ch \<and> (bd_sender_id b = s \<or> bd_sender_id b = bare_sender s))"
proof -
  have "registry_ok r" by (rule registry.reachable_inv [OF assms(1,2)])
  from lookup_listed [OF this assms(3,4)] show ?thesis by (auto simp: get_tenant_def)
qed

definition example_tenants :: TenantsConfig where
  "example_tenants = \<lparr>ts_tenants = [\<lparr>tc_id = ''dad'', tc_name = [], tc_bindings = [], tc_bdi = True,
       tc_claimable = True, tc_permissions = [(''exec'', False)]\<rparr>],
     ts_default_id = [], ts_guest_enabled = True\<rparr>"

definition example_registry :: TenantRegistry where
  "example_registry = new_registry ''ws'' (Some example_tenants)"

definition approved_pairing :: PairingData where
  "approved_pairing = fst (approve_code 120 ''ABCD-EFGH'' example_pairing)"

definition claimed_registry :: TenantRegistry where
  "claimed_registry = fst (claim_command ''telegram'' ''42'' ''dad'' approved_pairing example_registry)"

lemma example_fresh: "fresh_registry example_registry"
  unfolding fresh_registry_def example_registry_def
  by (rule exI [of _ "''ws''"], rule exI [of _ "Some example_tenants"]) (simp add: example_tenants_def)

lemma claimed_reached: "registry_step\<^sup>*\<^sup>* example_registry claimed_registry"
  unfolding claimed_registry_def by (rule r_into_rtranclp) (rule reg_claim)

theorem resolved_sender_is_listed_witness:
  "\<exists>t b. lookup_tenant ''telegram'' ''42|jo'' claimed_registry = Some t \<and> tn_id t = ''dad'' \<and>
     b \<in> set (tn_bindings t) \<and> bd_sender_id b = ''42''"
proof -
  obtain t where t: "lookup_tenant ''telegram'' ''42|jo'' claimed_registry = Some t" and d: "tn_id t = ''dad''"
    and b: "bare_sender ''42|jo'' = ''42''" and n: "\<forall>b \<in> set (tn_bindings t). bd_sender_id b \<noteq> ''42|jo''"
  proof -
    have "case lookup_tenant ''telegram'' ''42|jo'' claimed_registry of None \<Rightarrow> False
        | Some t \<Rightarrow> tn_id t = ''dad'' \<and> list_all (\<lambda>b. bd_sender_id b \<noteq> ''42|jo'') (tn_bindings t)"
      by code_simp
    then show ?thesis using that by (auto simp: bare_sender_def list_all_iff split: option.splits)
  qed
  have "map_option tn_id (tr_guest claimed_registry) = Some ''guest''" by code_simp
  with d have "tr_guest claimed_registry \<noteq> Some t" by auto
  from resolved_sender_is_listed [OF example_fresh claimed_reached t this] t d b n show ?thesis by auto
qed

text \<open>
  Of two configured tenants with one id the second replaces the first, whose bindings stay in the index: the
  sender resolves to a tenant that lists no binding.
\<close>

lemma repeated_id_keeps_bindings:
  "let first = \<lparr>tc_id = ''dad'', tc_name = [], tc_bindings = [\<lparr>bd_channel = ''telegram'', bd_sender_id = ''42'', bd_label = []\<rparr>],
         tc_bdi = True, tc_claimable = False, tc_permissions = []\<rparr>;
       r = new_registry ''ws'' (Some \<lparr>ts_tenants = [first, first\<lparr>tc_bindings := []\<rparr>], ts_default_id = [], ts_guest_enabled = False\<rparr>)
   in map_option (\<lambda>t. (tn_id t, tn_bindings t)) (lookup_tenant ''telegram'' ''42'' r) = Some (''dad'', [])"
  by code_simp

section \<open>The claim command\<close>

definition unbound :: "string \<Rightarrow> string \<Rightarrow> TenantRegistry \<Rightarrow> bool" where
  "unbound ch s r = (case lookup_tenant ch s r of None \<Rightarrow> True | Some t \<Rightarrow> tn_id t = ''guest'')"

definition may_claim :: "string \<Rightarrow> string \<Rightarrow> string \<Rightarrow> PairingData \<Rightarrow> TenantRegistry \<Rightarrow> bool" where
  "may_claim ch s i d r = (unbound ch s r \<and> is_approved ch s d \<and>
     (case get_tenant i r of None \<Rightarrow> False | Some t \<Rightarrow> tn_claimable t))"

fun claimed_reply :: "pairing_reply \<Rightarrow> bool" where
  "claimed_reply (ClaimedReply _ _) = True"
| "claimed_reply _ = False"

lemma claim_refused: "\<not> may_claim ch s i d r \<Longrightarrow>
    fst (claim_command ch s i d r) = r \<and> \<not> claimed_reply (snd (claim_command ch s i d r))"
  unfolding may_claim_def unbound_def claim_command_def claim_pairing_def register_binding_def get_tenant_def
  by (auto split: option.splits if_splits)

lemma claim_accepted: "may_claim ch s i d r \<Longrightarrow>
    claimed_reply (snd (claim_command ch s i d r)) \<and> register_binding ch s i r = Inr (fst (claim_command ch s i d r))"
  unfolding may_claim_def unbound_def claim_command_def claim_pairing_def register_binding_def get_tenant_def
  by (auto split: option.splits if_splits)

lemma bound_senders: "register_binding ch s i r = Inr r' \<Longrightarrow>
    dict_get (tr_by_sender r') k = (if k = (ch, s) then Some i else dict_get (tr_by_sender r) k)"
  by (auto simp: register_binding_def dict_get_set split: option.splits)

lemma bound_tenants: "register_binding ch s i r = Inr r' \<Longrightarrow> dict_get (tr_tenants r') i \<noteq> None"
  by (auto simp: register_binding_def dict_get_set split: option.splits)

lemma lookup_after_bind:
  assumes ok: "registry_ok r" and b: "register_binding ch s i r = Inr r'" and i: "i \<noteq> []"
  shows "\<exists>t. lookup_tenant ch s r' = Some t \<and> tn_id t = i"
proof -
  from bound_tenants [OF b] obtain t where t: "dict_get (tr_tenants r') i = Some t" by auto
  with registry_ok_bind [OF ok b] have "tn_id t = i" unfolding registry_ok_def by blast
  moreover from t i bound_senders [OF b, of "(ch, s)"] have "lookup_tenant ch s r' = Some t"
    by (simp add: lookup_tenant_def lookup_id_def)
  ultimately show ?thesis by blast
qed

lemma bound_is_final:
  assumes "lookup_tenant ch s r = Some t" and "tn_id t \<noteq> ''guest''"
  shows "claim_command ch s j d r = (r, AlreadyBound (tn_id t))"
  using assms by (simp add: claim_command_def)

text \<open>
  C27. \<^verbatim>\<open>/pairing claim\<close> succeeds exactly for a sender that resolves to no tenant but the guest, was
  approved on this channel, and names a registered tenant that is open to claims. A refused claim
  changes nothing. An accepted one changes the resolution of this sender's entry only; from then on the
  sender resolves to the tenant and every further claim is answered with it, unchanged.\<close>

theorem claim_binds_approved_once:
  assumes "fresh_registry r0" and "registry_step\<^sup>*\<^sup>* r0 r" and "i \<noteq> []" and "i \<noteq> ''guest''"
    and "claim_command ch s i d r = (r', a)"
  shows "(claimed_reply a \<longleftrightarrow> may_claim ch s i d r) \<and>
    (\<not> claimed_reply a \<longrightarrow> r' = r) \<and>
    (claimed_reply a \<longrightarrow>
       (\<forall>k. dict_get (tr_by_sender r') k = (if k = (ch, s) then Some i else dict_get (tr_by_sender r) k)) \<and>
       (\<exists>t. lookup_tenant ch s r' = Some t \<and> tn_id t = i) \<and>
       (\<forall>j e. claim_command ch s j e r' = (r', AlreadyBound i)))"
proof -
  have ok: "registry_ok r" by (rule registry.reachable_inv [OF assms(1,2)])
  show ?thesis
  proof (cases "may_claim ch s i d r")
    case False
    with claim_refused [OF this] assms(5) show ?thesis by simp
  next
    case True
    then have a: "claimed_reply a" and b: "register_binding ch s i r = Inr r'"
      using claim_accepted [OF True] assms(5) by simp_all
    from lookup_after_bind [OF ok b assms(3)]
    obtain t where t: "lookup_tenant ch s r' = Some t" "tn_id t = i" by blast
    with assms(4) bound_is_final [of ch s r' t]
    have "\<forall>j e. claim_command ch s j e r' = (r', AlreadyBound i)" by simp
    with True a t bound_senders [OF b] show ?thesis by blast
  qed
qed

theorem claim_binds_approved_once_witness:
  "claim_command ''telegram'' ''42'' ''mom'' empty_pairing claimed_registry = (claimed_registry, AlreadyBound ''dad'')"
proof -
  have "claimed_reply (snd (claim_command ''telegram'' ''42'' ''dad'' approved_pairing example_registry))"
    by code_simp
  moreover have "claim_command ''telegram'' ''42'' ''dad'' approved_pairing example_registry =
      (claimed_registry, snd (claim_command ''telegram'' ''42'' ''dad'' approved_pairing example_registry))"
    by (simp add: claimed_registry_def)
  ultimately show ?thesis
    using claim_binds_approved_once [OF example_fresh rtranclp.rtrancl_refl, of "''dad''"] by simp
qed

text \<open>
  Replacing the configuration of a tenant leaves exactly the new bindings resolving to it, and
  deleting it leaves none: no old entry survives the change, under any id.\<close>

theorem update_and_delete_are_exact:
  assumes "fresh_registry r0" and "registry_step\<^sup>*\<^sup>* r0 r"
  shows "(\<forall>i tc r'. update_tenant i tc r = Inr r' \<longrightarrow>
        (\<forall>k. (dict_get (tr_by_sender r') k = Some i) = (k \<in> binding_keys (tc_bindings tc)))) \<and>
    (\<forall>i r'. delete_tenant i r = Inr r' \<longrightarrow>
        get_tenant i r' = None \<and> (\<forall>k. dict_get (tr_by_sender r') k \<noteq> Some i))"
proof -
  have ok: "registry_ok r" by (rule registry.reachable_inv [OF assms])
  have gone: "dict_get (tr_by_sender (forget_tenant t i r)) k \<noteq> Some i"
    if t: "dict_get (tr_tenants r) i = Some t" for t i k
  proof
    assume "dict_get (tr_by_sender (forget_tenant t i r)) k = Some i"
    with registry_ok_forget [OF ok t] have "dict_get (tr_tenants (forget_tenant t i r)) i \<noteq> None"
      unfolding registry_ok_def by blast
    then show False by simp
  qed
  show ?thesis
  proof (intro conjI allI impI)
    fix i tc r' k
    assume "update_tenant i tc r = Inr r'"
    then obtain t where t: "dict_get (tr_tenants r) i = Some t"
      and r': "r' = fst (register_from_config (tc\<lparr>tc_id := i\<rparr>) (forget_tenant t i r))"
      by (auto simp: update_tenant_def split: option.splits)
    from gone [OF t, of k] show "(dict_get (tr_by_sender r') k = Some i) = (k \<in> binding_keys (tc_bindings tc))"
      unfolding r' by (simp del: forgotten_fields(2))
  next
    fix i r' assume "delete_tenant i r = Inr r'"
    then show "get_tenant i r' = None"
      by (auto simp: delete_tenant_def get_tenant_def split: if_splits option.splits)
  next
    fix i r' k assume "delete_tenant i r = Inr r'"
    then obtain t where "dict_get (tr_tenants r) i = Some t" and "r' = forget_tenant t i r"
      by (auto simp: delete_tenant_def split: if_splits option.splits)
    with gone [of i t k] show "dict_get (tr_by_sender r') k \<noteq> Some i" by blast
  qed
qed

theorem update_and_delete_are_exact_witness:
  "(\<exists>r'. delete_tenant ''dad'' claimed_registry = Inr r' \<and> lookup_id ''telegram'' ''42'' r' = None)"
proof -
  have "case delete_tenant ''dad'' claimed_registry of Inl _ \<Rightarrow> False
      | Inr r' \<Rightarrow> lookup_id ''telegram'' ''42'' r' \<in> {None, Some ''dad''}" by code_simp
  then obtain r' where r': "delete_tenant ''dad'' claimed_registry = Inr r'"
    and l: "lookup_id ''telegram'' ''42'' r' \<in> {None, Some ''dad''}"
    by (auto split: sum.splits)
  from update_and_delete_are_exact [OF example_fresh claimed_reached] r'
  have "\<forall>k. dict_get (tr_by_sender r') k \<noteq> Some ''dad''" by blast
  then have "dict_get (tr_by_sender r') (''telegram'', ''42'') \<noteq> Some ''dad''" by blast
  then have "lookup_id ''telegram'' ''42'' r' \<noteq> Some ''dad''"
    by (cases "dict_get (tr_by_sender r') (''telegram'', ''42'')") (simp_all add: lookup_id_def)
  with l r' show ?thesis by blast
qed

text \<open>
  A binding that two tenants list belongs to the one registered last; deleting the other one takes it
  away from both.
\<close>

lemma shared_binding_lost:
  assumes "dict_get (tr_tenants r) i = Some t" and "i \<noteq> ''guest''"
    and "dict_get (tr_by_sender r) k = Some j" and "j \<noteq> i" and "k \<in> binding_keys (tn_bindings t)"
  shows "\<exists>r'. delete_tenant i r = Inr r' \<and> dict_get (tr_by_sender r') k = None \<and> get_tenant j r' = get_tenant j r"
  using assms by (simp add: delete_tenant_def get_tenant_def)

text \<open>
  A claim made under the full form of a sender id does not cover the same user under another name: the
  entry is stored with the name, and the part before the bar has no entry.
\<close>

lemma claimed_name_is_frozen:
  "register_binding ''telegram'' ''42|jo'' ''dad'' example_registry = Inr r' \<Longrightarrow>
   lookup_id ''telegram'' ''42|joe'' r' = None"
proof -
  have "case register_binding ''telegram'' ''42|jo'' ''dad'' example_registry of Inl _ \<Rightarrow> False
      | Inr r' \<Rightarrow> lookup_id ''telegram'' ''42|joe'' r' = None" by code_simp
  then show "register_binding ''telegram'' ''42|jo'' ''dad'' example_registry = Inr r' \<Longrightarrow> ?thesis" by simp
qed

end
