(* ===== verification/ContextBudget.thy ===== *)
theory ContextBudget
  imports Payload "HOL-Library.Sublist"
begin

text \<open>
  Fitting a prompt into the context window: \<^verbatim>\<open>OriginAgent/agent/context_budget.py\<close> with the
  helpers \<^verbatim>\<open>find_legal_message_start\<close> and \<^verbatim>\<open>estimate_message_tokens\<close> of \<^verbatim>\<open>utils/helpers.py\<close>.

  A message is the dictionary of the code. The tokenizer is a parameter \<open>enc\<close>: the number of tokens
  of a text, or \<open>None\<close> when the library raises. \<^verbatim>\<open>_clone_message\<close> is the identity on values.
  A \<^verbatim>\<open>tool_calls\<close> entry is absent, null or a list, as in the chat format.
\<close>

section \<open>Reading messages\<close>

type_synonym message = json_obj

definition role_is :: "string \<Rightarrow> message \<Rightarrow> bool" where
  "role_is r m = (dict_get m ''role'' = Some (JStr r))"

definition content_blocks :: "message \<Rightarrow> json list option" where
  "content_blocks m = (case dict_get m ''content'' of Some (JList bs) \<Rightarrow> Some bs | _ \<Rightarrow> None)"

definition set_content :: "json list \<Rightarrow> message \<Rightarrow> message" where
  "set_content bs m = dict_set ''content'' (JList bs) m"

definition block_meta :: "string \<Rightarrow> json \<Rightarrow> json option" where
  "block_meta field b = (case b of
       JObj kvs \<Rightarrow> (case dict_get kvs ''_meta'' of Some (JObj meta) \<Rightarrow> dict_get meta field | _ \<Rightarrow> None)
     | _ \<Rightarrow> None)"

definition str_or_empty :: "json option \<Rightarrow> string" where
  "str_or_empty v = (case v of Some j \<Rightarrow> if json_truthy j then py_str j else [] | None \<Rightarrow> [])"

definition block_kind :: "json \<Rightarrow> string" where
  "block_kind b = str_or_empty (block_meta ''kind'' b)"

definition block_source :: "json \<Rightarrow> string" where
  "block_source b = str_or_empty (block_meta ''source'' b)"

section \<open>Estimating tokens\<close>

text \<open>\<^verbatim>\<open>json.dumps(value, ensure_ascii=False)\<close>\<close>

fun dumps_plain :: "json \<Rightarrow> string"
  and dumps_plain_items :: "(string \<times> json) list \<Rightarrow> string list"
  and dumps_plain_values :: "json list \<Rightarrow> string list" where
  "dumps_plain JNull = ''null''"
| "dumps_plain (JBool b) = (if b then ''true'' else ''false'')"
| "dumps_plain (JInt i) = show_int i"
| "dumps_plain (JFloat s) = s"
| "dumps_plain (JStr s) = json_quote s"
| "dumps_plain (JList vs) = ''['' @ join_with '', '' (dumps_plain_values vs) @ '']''"
| "dumps_plain (JObj kvs) = ''{'' @ join_with '', '' (dumps_plain_items kvs) @ ''}''"
| "dumps_plain_items [] = []"
| "dumps_plain_items ((k, v) # r) = (json_quote k @ '': '' @ dumps_plain v) # dumps_plain_items r"
| "dumps_plain_values [] = []"
| "dumps_plain_values (v # vs) = dumps_plain v # dumps_plain_values vs"

text \<open>The text of one part; \<open>None\<close> when joining it raises, since a text block holds no text.\<close>

definition part_text :: "json \<Rightarrow> string list option" where
  "part_text p = (case p of
       JObj kvs \<Rightarrow>
         if dict_get kvs ''type'' = Some (JStr ''text'')
         then (case dict_get kvs ''text'' of
                 None \<Rightarrow> Some []
               | Some (JStr s) \<Rightarrow> Some (if s = [] then [] else [s])
               | Some j \<Rightarrow> if json_truthy j then None else Some [])
         else Some [dumps_plain p]
     | _ \<Rightarrow> Some [dumps_plain p])"

definition content_parts :: "message \<Rightarrow> string list option" where
  "content_parts m = (case dict_get m ''content'' of
       None \<Rightarrow> Some []
     | Some (JStr s) \<Rightarrow> Some [s]
     | Some (JList bs) \<Rightarrow> map_option concat (those (map part_text bs))
     | Some JNull \<Rightarrow> Some []
     | Some j \<Rightarrow> Some [dumps_plain j])"

definition text_field :: "string \<Rightarrow> message \<Rightarrow> string list" where
  "text_field k m = (case dict_get m k of Some (JStr s) \<Rightarrow> if s = [] then [] else [s] | _ \<Rightarrow> [])"

definition estimate_message_tokens :: "(string \<Rightarrow> nat option) \<Rightarrow> message \<Rightarrow> int option" where
  "estimate_message_tokens enc m =
     (case content_parts m of
        None \<Rightarrow> None
      | Some ps \<Rightarrow>
          let parts = ps @ text_field ''name'' m @ text_field ''tool_call_id'' m @
                (case dict_get m ''tool_calls'' of Some j \<Rightarrow> if json_truthy j then [dumps_plain j] else [] | None \<Rightarrow> []) @
                text_field ''reasoning_content'' m;
              payload = join_with [CHR 0x0A] parts
          in if payload = [] then Some 4
             else (case enc payload of
                     Some n \<Rightarrow> Some (max 4 (int n + 4))
                   | None \<Rightarrow> Some (max 4 (int (length payload) div 4 + 4))))"

section \<open>A legal start of the history\<close>

definition declared_ids :: "message \<Rightarrow> string list" where
  "declared_ids m = (case dict_get m ''tool_calls'' of
       Some (JList tcs) \<Rightarrow> concat (map (\<lambda>tc. case tc of
           JObj kvs \<Rightarrow> (case dict_get kvs ''id'' of Some j \<Rightarrow> if json_truthy j then [py_str j] else [] | None \<Rightarrow> [])
         | _ \<Rightarrow> []) tcs)
     | _ \<Rightarrow> [])"

definition answered_id :: "message \<Rightarrow> string option" where
  "answered_id m = (case dict_get m ''tool_call_id'' of
       Some j \<Rightarrow> if json_truthy j then Some (py_str j) else None | None \<Rightarrow> None)"

fun legal_start_loop :: "message list \<Rightarrow> nat \<Rightarrow> nat \<Rightarrow> string set \<Rightarrow> nat" where
  "legal_start_loop [] i start declared = start"
| "legal_start_loop (m # ms) i start declared =
     (if role_is ''assistant'' m then legal_start_loop ms (Suc i) start (declared \<union> set (declared_ids m))
      else if role_is ''tool'' m \<and> (case answered_id m of None \<Rightarrow> False | Some t \<Rightarrow> t \<notin> declared)
      then legal_start_loop ms (Suc i) (Suc i) {}
      else legal_start_loop ms (Suc i) start declared)"

definition find_legal_message_start :: "message list \<Rightarrow> nat" where
  "find_legal_message_start ms = legal_start_loop ms 0 0 {}"

section \<open>Trimming\<close>

record TrimmedBlock =
  tb_reason :: string
  tb_kind :: "json option"
  tb_source :: "json option"
  tb_type :: "json option"

record BudgetAudit =
  ba_reason :: string
  ba_budget :: int
  ba_initial :: int
  ba_initial_blocks :: nat
  ba_history :: nat
  ba_recent :: nat
  ba_retrieval :: nat
  ba_continuity :: nat
  ba_trimmed :: "TrimmedBlock list"
  ba_final :: int
  ba_final_blocks :: "nat option"

datatype budget_audit = NotApplied string "int option" | Applied BudgetAudit

definition trimmed_block :: "string \<Rightarrow> json \<Rightarrow> TrimmedBlock" where
  "trimmed_block reason b = \<lparr>tb_reason = reason, tb_kind = block_meta ''kind'' b,
     tb_source = block_meta ''source'' b,
     tb_type = (case b of JObj kvs \<Rightarrow> dict_get kvs ''type'' | _ \<Rightarrow> None)\<rparr>"

definition estimate_messages :: "(message \<Rightarrow> int) \<Rightarrow> message list \<Rightarrow> int" where
  "estimate_messages est ms = sum_list (map est ms)"

fun last_user_index :: "message list \<Rightarrow> nat option" where
  "last_user_index [] = None"
| "last_user_index (m # ms) =
     (case last_user_index ms of Some i \<Rightarrow> Some (Suc i)
      | None \<Rightarrow> if role_is ''user'' m then Some 0 else None)"

definition last_user_block_count :: "message list \<Rightarrow> nat" where
  "last_user_block_count ms = (case last_user_index ms of
       None \<Rightarrow> 0
     | Some i \<Rightarrow> (case content_blocks (ms ! i) of Some bs \<Rightarrow> length bs | None \<Rightarrow> 0))"

text \<open>The loop over the reversed history; \<open>kept\<close> is in the final order.\<close>

fun keep_recent :: "(message \<Rightarrow> int) \<Rightarrow> int \<Rightarrow> message list \<Rightarrow> int \<Rightarrow> message list \<Rightarrow> message list" where
  "keep_recent est limit [] used kept = kept"
| "keep_recent est limit (m # ms) used kept =
     (if kept \<noteq> [] \<and> used + est m > limit then kept
      else keep_recent est limit ms (used + est m) (m # kept))"

definition trim_history ::
    "(message \<Rightarrow> int) \<Rightarrow> message list \<Rightarrow> nat \<Rightarrow> int \<Rightarrow> message list \<times> nat" where
  "trim_history est ms cur budget =
     (let systems = filter (role_is ''system'') (take cur ms);
          history = filter (\<lambda>m. \<not> role_is ''system'' m) (take cur ms);
          trailing = drop (Suc cur) ms
      in if cur = 0 \<or> history = [] then (ms, 0)
         else let reserved = estimate_messages est (systems @ [ms ! cur] @ trailing);
                  kept0 = keep_recent est (max 0 (budget - reserved)) (rev history) 0 [];
                  kept = drop (find_legal_message_start kept0) kept0
              in (systems @ kept @ [ms ! cur] @ trailing, length history - length kept))"

fun drop_recent_history_blocks ::
    "(message \<Rightarrow> int) \<Rightarrow> int \<Rightarrow> message list \<Rightarrow> json list \<Rightarrow> json list \<times> TrimmedBlock list" where
  "drop_recent_history_blocks est budget ms [] = ([], [])"
| "drop_recent_history_blocks est budget ms (b # bs) =
     (let (kept, cut) = drop_recent_history_blocks est budget ms bs in
      if estimate_messages est ms \<le> budget then (b # kept, cut)
      else if block_source b = ''recent_history''
      then (kept, trimmed_block ''recent_history_trim'' b # cut)
      else (b # kept, cut))"

definition remove_nth :: "nat \<Rightarrow> 'a list \<Rightarrow> 'a list" where
  "remove_nth i xs = take i xs @ drop (Suc i) xs"

definition set_last_content :: "json list \<Rightarrow> message list \<Rightarrow> message list" where
  "set_last_content bs ms = ms[length ms - 1 := set_content bs (last ms)]"

text \<open>The loop that both reference trims share, over the indices that may go, last first.\<close>

fun drop_indexed ::
    "(message \<Rightarrow> int) \<Rightarrow> int \<Rightarrow> string \<Rightarrow> nat list \<Rightarrow> json list \<Rightarrow> message list
     \<Rightarrow> json list \<times> message list \<times> TrimmedBlock list" where
  "drop_indexed est budget reason [] kept ms = (kept, ms, [])"
| "drop_indexed est budget reason (i # is) kept ms =
     (if estimate_messages est ms \<le> budget then (kept, ms, [])
      else let kept1 = remove_nth i kept;
               (bs, ms1, cut) = drop_indexed est budget reason is kept1 (set_last_content kept1 ms)
           in (bs, ms1, trimmed_block reason (kept ! i) # cut))"

definition indices_of :: "('a \<Rightarrow> bool) \<Rightarrow> 'a list \<Rightarrow> nat list" where
  "indices_of P xs = filter (\<lambda>i. P (xs ! i)) [0..<length xs]"

definition is_retrieval :: "json \<Rightarrow> bool" where
  "is_retrieval b = (block_kind b = ''reference_context'' \<and>
     block_source b \<notin> {''recent_history'', ''user_profile'', ''archived_session_summary''})"

definition is_continuity :: "json \<Rightarrow> bool" where
  "is_continuity b = (block_kind b = ''reference_context'' \<and>
     block_source b \<in> {''user_profile'', ''archived_session_summary''})"

definition drop_retrieval_blocks ::
    "(message \<Rightarrow> int) \<Rightarrow> int \<Rightarrow> json list \<Rightarrow> message list \<Rightarrow> json list \<times> message list \<times> TrimmedBlock list" where
  "drop_retrieval_blocks est budget content ms =
     drop_indexed est budget ''retrieval_trim'' (rev (indices_of is_retrieval content)) content ms"

definition drop_continuity_reference_blocks ::
    "(message \<Rightarrow> int) \<Rightarrow> int \<Rightarrow> json list \<Rightarrow> message list \<Rightarrow> json list \<times> message list \<times> TrimmedBlock list" where
  "drop_continuity_reference_blocks est budget content ms =
     drop_indexed est budget ''continuity_reference_trim'' (rev (indices_of is_continuity content)) content ms"

definition set_content_at :: "nat \<Rightarrow> json list \<Rightarrow> message list \<Rightarrow> message list" where
  "set_content_at i bs ms = ms[i := set_content bs (ms ! i)]"

text \<open>One reference trim as the caller runs it: only when the prompt is still too large.\<close>

definition reference_trim where
  "reference_trim drop_blocks est budget cur content ms =
     (if estimate_messages est ms > budget then
        (let (bs, ms1, cut) = drop_blocks est budget content ms in (bs, set_content_at cur bs ms1, cut))
      else (content, ms, []))"

definition trim_blocks ::
    "(message \<Rightarrow> int) \<Rightarrow> int \<Rightarrow> nat \<Rightarrow> json list \<Rightarrow> message list
     \<Rightarrow> message list \<times> TrimmedBlock list \<times> TrimmedBlock list \<times> TrimmedBlock list" where
  "trim_blocks est budget cur content ms =
     (let (bs1, cut1) = drop_recent_history_blocks est budget ms content;
          ms1 = set_content_at cur bs1 ms;
          (bs2, ms2, cut2) = reference_trim drop_retrieval_blocks est budget cur bs1 ms1;
          (bs3, ms3, cut3) = reference_trim drop_continuity_reference_blocks est budget cur bs2 ms2
      in (ms3, cut1, cut2, cut3))"

definition budgeted :: "(message \<Rightarrow> int) \<Rightarrow> int \<Rightarrow> message list \<Rightarrow> message list \<times> BudgetAudit" where
  "budgeted est budget ms =
     (let initial = estimate_messages est ms;
          a0 = \<lparr>ba_reason = [], ba_budget = budget, ba_initial = initial,
                 ba_initial_blocks = last_user_block_count ms, ba_history = 0, ba_recent = 0, ba_retrieval = 0,
                 ba_continuity = 0, ba_trimmed = [], ba_final = initial, ba_final_blocks = None\<rparr>
      in if initial \<le> budget then (ms, a0\<lparr>ba_reason := ''within_budget''\<rparr>)
         else case last_user_index ms of
             None \<Rightarrow> (ms, a0\<lparr>ba_reason := ''no_user_message''\<rparr>)
           | Some cur \<Rightarrow>
               let (ms1, removed) = trim_history est ms cur budget; a1 = a0\<lparr>ba_history := removed\<rparr>
               in case last_user_index ms1 of
                   None \<Rightarrow> (ms1, a1\<lparr>ba_final := estimate_messages est ms1, ba_reason := ''history_trim_exhausted''\<rparr>)
                 | Some cur1 \<Rightarrow>
                     let (ms2, cut1, cut2, cut3) =
                           (case content_blocks (ms1 ! cur1) of
                              None \<Rightarrow> (ms1, [], [], [])
                            | Some content \<Rightarrow> trim_blocks est budget cur1 content ms1);
                         final = estimate_messages est ms2
                     in (ms2, a1\<lparr>ba_recent := length cut1, ba_retrieval := length cut2,
                           ba_continuity := length cut3, ba_trimmed := cut1 @ cut2 @ cut3, ba_final := final,
                           ba_final_blocks := Some (last_user_block_count ms2),
                           ba_reason := (if final < initial then ''trimmed'' else ''unchanged'')\<rparr>))"

text \<open>
  The public entry point. \<open>Inl\<close> is the \<^verbatim>\<open>TypeError\<close> of a text block that holds no text; it can only
  arise at the first estimate, since the trims only drop blocks and messages.
\<close>

definition token_count :: "(string \<Rightarrow> nat option) \<Rightarrow> message \<Rightarrow> int" where
  "token_count enc m = (case estimate_message_tokens enc m of Some n \<Rightarrow> n | None \<Rightarrow> 4)"

definition int_or_zero :: "int option \<Rightarrow> int" where
  "int_or_zero x = (case x of Some n \<Rightarrow> n | None \<Rightarrow> 0)"

definition apply_budget ::
    "(string \<Rightarrow> nat option) \<Rightarrow> int \<Rightarrow> message list \<Rightarrow> int option \<Rightarrow> int option
     \<Rightarrow> string + (message list \<times> budget_audit)" where
  "apply_budget enc safety ms ctx completion =
     (if ms = [] then Inr (ms, NotApplied ''empty'' None)
      else let budget = int_or_zero ctx - int_or_zero completion - max 0 safety in
        if budget \<le> 0 then Inr (ms, NotApplied ''no_budget'' (Some budget))
        else if list_ex (\<lambda>m. estimate_message_tokens enc m = None) ms then Inl ''TypeError''
        else let (out, a) = budgeted (token_count enc) budget ms in Inr (out, Applied a))"

section \<open>The legal start is the least one\<close>

definition tool_answered :: "string set \<Rightarrow> message \<Rightarrow> bool" where
  "tool_answered D m = (role_is ''tool'' m \<longrightarrow> (case answered_id m of None \<Rightarrow> True | Some t \<Rightarrow> t \<in> D))"

text \<open>Every tool answer follows an assistant message that declares its call.\<close>

fun calls_answered :: "string set \<Rightarrow> message list \<Rightarrow> bool" where
  "calls_answered D [] = True"
| "calls_answered D (m # ms) =
     (if role_is ''assistant'' m then calls_answered (D \<union> set (declared_ids m)) ms
      else tool_answered D m \<and> calls_answered D ms)"

lemma calls_answered_mono: "calls_answered D ms \<Longrightarrow> D \<subseteq> E \<Longrightarrow> calls_answered E ms"
proof (induction ms arbitrary: D E)
  case Nil
  then show ?case by simp
next
  case (Cons m ms)
  show ?case
  proof (cases "role_is ''assistant'' m")
    case True
    with Cons.prems Cons.IH [of "D \<union> set (declared_ids m)" "E \<union> set (declared_ids m)"] show ?thesis by auto
  next
    case False
    with Cons show ?thesis by (auto simp: tool_answered_def split: option.splits)
  qed
qed

lemma calls_answered_nth:
  "calls_answered D ms \<Longrightarrow> i < length ms \<Longrightarrow> role_is ''tool'' (ms ! i) \<Longrightarrow> answered_id (ms ! i) = Some t \<Longrightarrow>
   t \<in> D \<or> (\<exists>j < i. role_is ''assistant'' (ms ! j) \<and> t \<in> set (declared_ids (ms ! j)))"
proof (induction ms arbitrary: D i)
  case Nil
  then show ?case by simp
next
  case (Cons m ms)
  show ?case
  proof (cases i)
    case 0
    with Cons.prems show ?thesis by (auto simp: tool_answered_def role_is_def split: if_splits)
  next
    case (Suc i')
    let ?D = "if role_is ''assistant'' m then D \<union> set (declared_ids m) else D"
    have "calls_answered ?D ms" using Cons.prems(1) by (simp split: if_splits)
    with Cons.IH [of ?D i'] Cons.prems Suc
    have "t \<in> ?D \<or> (\<exists>j < i'. role_is ''assistant'' (ms ! j) \<and> t \<in> set (declared_ids (ms ! j)))" by simp
    then show ?thesis
    proof
      assume "t \<in> ?D"
      then show ?thesis using Suc by (cases "role_is ''assistant'' m") (auto intro: exI [of _ 0])
    next
      assume "\<exists>j < i'. role_is ''assistant'' (ms ! j) \<and> t \<in> set (declared_ids (ms ! j))"
      then obtain j where "j < i'" "role_is ''assistant'' (ms ! j)" "t \<in> set (declared_ids (ms ! j))" by blast
      then show ?thesis using Suc by (intro disjI2 exI [of _ "Suc j"]) simp
    qed
  qed
qed

lemma legal_loop_bounds:
  "start \<le> i \<Longrightarrow> legal_start_loop ms i start D = start \<or>
     i < legal_start_loop ms i start D \<and> legal_start_loop ms i start D \<le> i + length ms"
proof (induction ms arbitrary: i start D)
  case Nil
  then show ?case by simp
next
  case (Cons m ms)
  have IH: "legal_start_loop ms (Suc i) st E = st \<or>
      Suc i < legal_start_loop ms (Suc i) st E \<and> legal_start_loop ms (Suc i) st E \<le> Suc i + length ms"
    if "st \<le> Suc i" for st E
    using Cons.IH [OF that] .
  from IH [of start "D \<union> set (declared_ids m)"] IH [of start D] IH [of "Suc i" "{}"] Cons.prems
  show ?case by (auto simp: tool_answered_def)
qed

lemma legal_loop_answered:
  "start \<le> i \<Longrightarrow> k = legal_start_loop ms i start D \<Longrightarrow>
   (if k = start then calls_answered D ms else calls_answered {} (drop (k - i) ms))"
proof (induction ms arbitrary: i start D k)
  case Nil
  then show ?case by simp
next
  case (Cons m ms)
  consider (call) "role_is ''assistant'' m"
    | (orphan) "\<not> role_is ''assistant'' m" "\<not> tool_answered D m"
    | (plain) "\<not> role_is ''assistant'' m" "tool_answered D m" by blast
  then show ?case
  proof cases
    case call
    with Cons.prems Cons.IH [of start "Suc i" k "D \<union> set (declared_ids m)"]
      legal_loop_bounds [of start "Suc i" ms "D \<union> set (declared_ids m)"]
    show ?thesis by (auto simp: Suc_diff_Suc [symmetric] split: if_splits)
  next
    case orphan
    with Cons.prems have k: "k = legal_start_loop ms (Suc i) (Suc i) {}"
      by (auto simp: tool_answered_def split: option.splits)
    with Cons.prems Cons.IH [of "Suc i" "Suc i" k "{}"] legal_loop_bounds [of "Suc i" "Suc i" ms "{}"]
    show ?thesis by (auto simp: Suc_diff_Suc [symmetric] split: if_splits)
  next
    case plain
    with Cons.prems have k: "k = legal_start_loop ms (Suc i) start D"
      by (auto simp: tool_answered_def split: option.splits)
    with plain Cons.prems Cons.IH [of start "Suc i" k D] legal_loop_bounds [of start "Suc i" ms D]
    show ?thesis by (auto simp: Suc_diff_Suc [symmetric] split: if_splits)
  qed
qed

lemma legal_loop_least:
  "start \<le> i \<Longrightarrow> k = legal_start_loop ms i start D \<Longrightarrow> i < k \<Longrightarrow>
   \<not> calls_answered D ms \<and> (\<forall>j < k - i. \<not> calls_answered {} (drop j ms))"
proof (induction ms arbitrary: i start D k)
  case Nil
  then show ?case by simp
next
  case (Cons m ms)
  have shift: "\<forall>j < k - i. \<not> calls_answered {} (drop j (m # ms))"
    if "\<not> calls_answered {} (m # ms)" and "\<forall>j < k - Suc i. \<not> calls_answered {} (drop j ms)"
  proof (intro allI impI)
    fix j assume "j < k - i"
    with that show "\<not> calls_answered {} (drop j (m # ms))" by (cases j) auto
  qed
  consider (call) "role_is ''assistant'' m"
    | (orphan) "\<not> role_is ''assistant'' m" "\<not> tool_answered D m"
    | (plain) "\<not> role_is ''assistant'' m" "tool_answered D m" by blast
  then show ?case
  proof cases
    case call
    let ?E = "D \<union> set (declared_ids m)"
    have k: "k = legal_start_loop ms (Suc i) start ?E" using Cons.prems call by simp
    then have "Suc i < k" using legal_loop_bounds [of start "Suc i" ms ?E] Cons.prems by auto
    with Cons.IH [of start "Suc i" k ?E] k Cons.prems
    have rec: "\<not> calls_answered ?E ms" "\<forall>j < k - Suc i. \<not> calls_answered {} (drop j ms)" by simp_all
    from rec(1) calls_answered_mono [of "set (declared_ids m)" ms ?E]
    have "\<not> calls_answered {} (m # ms)" using call by auto
    with shift rec call show ?thesis by simp
  next
    case orphan
    with Cons.prems have k: "k = legal_start_loop ms (Suc i) (Suc i) {}"
      by (auto simp: tool_answered_def split: option.splits)
    have "\<forall>j < k - Suc i. \<not> calls_answered {} (drop j ms)"
      using Cons.IH [of "Suc i" "Suc i" k "{}"] k by (cases "Suc i < k") simp_all
    moreover have "\<not> calls_answered {} (m # ms)" using orphan by (auto simp: tool_answered_def split: option.splits)
    ultimately show ?thesis using shift orphan by simp
  next
    case plain
    with Cons.prems have k: "k = legal_start_loop ms (Suc i) start D"
      by (auto simp: tool_answered_def split: option.splits)
    then have "Suc i < k" using legal_loop_bounds [of start "Suc i" ms D] Cons.prems by auto
    with Cons.IH [of start "Suc i" k D] k Cons.prems
    have rec: "\<not> calls_answered D ms" "\<forall>j < k - Suc i. \<not> calls_answered {} (drop j ms)" by simp_all
    from rec(1) calls_answered_mono [of "{}" ms D] have "\<not> calls_answered {} (m # ms)" using plain by auto
    with shift rec plain show ?thesis by simp
  qed
qed

lemma legal_start_answered: "calls_answered {} (drop (find_legal_message_start ms) ms)"
  using legal_loop_answered [of 0 0 "find_legal_message_start ms" ms "{}"]
  by (auto simp: find_legal_message_start_def split: if_splits)

text \<open>
  \<^verbatim>\<open>find_legal_message_start\<close> returns the least index from which the messages are legal: every tool
  answer there follows an assistant message that declares its call, and no earlier start has this
  property.
\<close>

theorem legal_start_is_least:
  "find_legal_message_start ms \<le> length ms \<and>
   calls_answered {} (drop (find_legal_message_start ms) ms) \<and>
   (\<forall>j < find_legal_message_start ms. \<not> calls_answered {} (drop j ms))"
proof (intro conjI)
  show "find_legal_message_start ms \<le> length ms"
    using legal_loop_bounds [of 0 0 ms "{}"] by (auto simp: find_legal_message_start_def)
  show "calls_answered {} (drop (find_legal_message_start ms) ms)" by (rule legal_start_answered)
  show "\<forall>j < find_legal_message_start ms. \<not> calls_answered {} (drop j ms)"
    using legal_loop_least [of 0 0 "find_legal_message_start ms" ms "{}"]
    by (cases "find_legal_message_start ms = 0") (simp_all add: find_legal_message_start_def)
qed

definition call_message :: "string \<Rightarrow> message" where
  "call_message i = [(''role'', JStr ''assistant''), (''tool_calls'', JList [JObj [(''id'', JStr i)]])]"

definition answer_message :: "string \<Rightarrow> message" where
  "answer_message i = [(''role'', JStr ''tool''), (''tool_call_id'', JStr i), (''content'', JStr ''done'')]"

theorem legal_start_is_least_witness:
  "find_legal_message_start [call_message ''b'', answer_message ''a'', call_message ''c'', answer_message ''c''] = 2 \<and>
   \<not> calls_answered {} [answer_message ''a'', call_message ''c'', answer_message ''c'']"
proof -
  let ?ms = "[call_message ''b'', answer_message ''a'', call_message ''c'', answer_message ''c'']"
  have k: "find_legal_message_start ?ms = 2" by code_simp
  then have "1 < find_legal_message_start ?ms" by linarith
  with legal_start_is_least [of ?ms] have "\<not> calls_answered {} (drop 1 ?ms)" by blast
  then have "\<not> calls_answered {} [answer_message ''a'', call_message ''c'', answer_message ''c'']"
    by (simp del: calls_answered.simps)
  with k show ?thesis by blast
qed

section \<open>What trimming keeps\<close>

definition protected_block :: "json \<Rightarrow> bool" where
  "protected_block b = (block_source b \<noteq> ''recent_history'' \<and> block_kind b \<noteq> ''reference_context'')"

lemma protected_block_split:
  "protected_block b = (block_source b \<noteq> ''recent_history'' \<and> \<not> is_retrieval b \<and> \<not> is_continuity b)"
  by (auto simp: protected_block_def is_retrieval_def is_continuity_def)

text \<open>
  One stage of block dropping: nothing but blocks with \<open>P\<close> goes, and a prompt that stays too large has
  none of them left.
\<close>

definition stage :: "(json \<Rightarrow> bool) \<Rightarrow> bool \<Rightarrow> json list \<Rightarrow> json list \<Rightarrow> bool" where
  "stage P fits bs cs = (subseq cs bs \<and> filter (\<lambda>b. \<not> P b) cs = filter (\<lambda>b. \<not> P b) bs \<and>
     (fits \<or> list_all (\<lambda>b. \<not> P b) cs))"

lemma set_content_twice [simp]: "set_content bs (set_content cs m) = set_content bs m"
  by (simp add: set_content_def AList.update_last)

lemma set_content_same: "content_blocks m = Some bs \<Longrightarrow> set_content bs m = m"
proof -
  assume "content_blocks m = Some bs"
  then have "dict_get m ''content'' = Some (JList bs)"
    by (auto simp: content_blocks_def split: option.splits json.splits)
  then show ?thesis unfolding set_content_def by (induction m) auto
qed

lemma set_last_snoc [simp]: "set_last_content bs (ms @ [m]) = ms @ [set_content bs m]"
  by (simp add: set_last_content_def)

lemma set_at_snoc [simp]: "set_content_at (length ms) bs (ms @ [m]) = ms @ [set_content bs m]"
  by (simp add: set_content_at_def)

lemma set_subseq: "subseq xs ys \<Longrightarrow> x \<in> set xs \<Longrightarrow> x \<in> set ys"
  by (induction rule: list_emb.induct) auto

lemma drop_recent_result:
  "fst (drop_recent_history_blocks est budget ms bs) =
     (if estimate_messages est ms \<le> budget then bs
      else filter (\<lambda>b. block_source b \<noteq> ''recent_history'') bs)"
  by (induction bs) (auto simp: Let_def split: prod.splits)

lemma subseq_remove_nth: "subseq (remove_nth i xs) xs"
proof -
  have "subseq (take i xs @ drop (Suc i) xs) (take i xs @ drop i xs)"
  proof (rule list_emb_append_mono)
    show "subseq (take i xs) (take i xs)" by simp
    show "subseq (drop (Suc i) xs) (drop i xs)"
      by (cases "i < length xs") (auto simp: Cons_nth_drop_Suc [symmetric])
  qed
  then show ?thesis by (simp add: remove_nth_def)
qed

lemma filter_remove_nth: "i < length xs \<Longrightarrow> \<not> Q (xs ! i) \<Longrightarrow> filter Q (remove_nth i xs) = filter Q xs"
  by (simp add: remove_nth_def) (subst (3) id_take_nth_drop [of i xs], assumption, simp)

lemma drop_indexed_Cons:
  "fst (drop_indexed est budget reason (i # is) kept ms) =
     (if estimate_messages est ms \<le> budget then kept
      else fst (drop_indexed est budget reason is (remove_nth i kept) (set_last_content (remove_nth i kept) ms)))"
  "fst (snd (drop_indexed est budget reason (i # is) kept ms)) =
     (if estimate_messages est ms \<le> budget then ms
      else fst (snd (drop_indexed est budget reason is (remove_nth i kept) (set_last_content (remove_nth i kept) ms))))"
  by (simp_all add: Let_def case_prod_beta)

lemma drop_indexed_last:
  assumes "ms = base @ [set_content kept cur]"
  shows "fst (snd (drop_indexed est budget reason is kept ms)) =
    base @ [set_content (fst (drop_indexed est budget reason is kept ms)) cur]"
  using assms
proof (induction "is" arbitrary: kept ms)
  case Nil
  then show ?case by simp
next
  case (Cons i "is")
  from Cons.prems have "set_last_content (remove_nth i kept) ms = base @ [set_content (remove_nth i kept) cur]"
    by simp
  from Cons.IH [OF this] Cons.prems show ?case unfolding drop_indexed_Cons by simp
qed

text \<open>The indices left after the largest one was used still name exactly the droppable blocks.\<close>

lemma indices_after_remove:
  assumes "sorted_wrt (>) (i # is)" and "set (i # is) = {j. j < length kept \<and> P (kept ! j)}"
  shows "set is = {j. j < length (remove_nth i kept) \<and> P (remove_nth i kept ! j)}"
proof -
  have i: "i < length kept" and low: "\<forall>j \<in> set is. j < i" using assms by auto
  have len: "length (remove_nth i kept) = length kept - 1" using i by (simp add: remove_nth_def)
  have below: "remove_nth i kept ! j = kept ! j" if "j < i" for j
    using that i by (simp add: remove_nth_def nth_append)
  have above: "remove_nth i kept ! j = kept ! Suc j" if "i \<le> j" "j < length kept - 1" for j
    using that i by (simp add: remove_nth_def nth_append)
  have none: "\<not> P (kept ! Suc j)" if "i \<le> j" "j < length kept - 1" for j
  proof
    assume "P (kept ! Suc j)"
    with that(2) assms(2) have "Suc j \<in> set (i # is)" by simp
    with low that(1) show False by auto
  qed
  show ?thesis
  proof (rule set_eqI)
    fix j
    show "j \<in> set is \<longleftrightarrow> j \<in> {j. j < length (remove_nth i kept) \<and> P (remove_nth i kept ! j)}"
    proof (cases "j < i")
      case True
      then have "j \<in> set is \<longleftrightarrow> j \<in> set (i # is)" by simp
      also have "\<dots> \<longleftrightarrow> P (kept ! j)" unfolding assms(2) using True i by simp
      also have "\<dots> \<longleftrightarrow> j < length kept - 1 \<and> P (kept ! j)" using True i by auto
      finally show ?thesis using len below [OF True] by simp
    next
      case False
      then have "j \<notin> set is" using low by auto
      moreover have "\<not> (j < length kept - 1 \<and> P (remove_nth i kept ! j))"
        using False none [of j] above [of j] by auto
      ultimately show ?thesis by (simp add: len)
    qed
  qed
qed

lemma drop_indexed_stage:
  assumes "sorted_wrt (>) is" and "set is = {j. j < length kept \<and> P (kept ! j)}"
    and "ms = base @ [set_content kept cur]" and "cs = fst (drop_indexed est budget reason is kept ms)"
  shows "stage P (estimate_messages est (base @ [set_content cs cur]) \<le> budget) kept cs"
  using assms
proof (induction "is" arbitrary: kept ms)
  case Nil
  then show ?case by (auto simp: stage_def list_all_length)
next
  case (Cons i "is")
  let ?k = "remove_nth i kept"
  show ?case
  proof (cases "estimate_messages est ms \<le> budget")
    case True
    with Cons.prems show ?thesis by (simp add: stage_def)
  next
    case False
    have i: "i < length kept" "P (kept ! i)" using Cons.prems(2) by auto
    have "cs = fst (drop_indexed est budget reason is ?k (base @ [set_content ?k cur]))"
      using Cons.prems(3,4) False unfolding drop_indexed_Cons by simp
    with Cons.IH [OF _ indices_after_remove [OF Cons.prems(1,2)] refl] Cons.prems(1)
    have "stage P (estimate_messages est (base @ [set_content cs cur]) \<le> budget) ?k cs" by simp
    with i subseq_remove_nth [of i kept] filter_remove_nth [of i kept "\<lambda>b. \<not> P b"] show ?thesis
      unfolding stage_def by (metis subseq_order.trans)
  qed
qed

lemma indices_of_props:
  "sorted_wrt (>) (rev (indices_of P xs))" "set (rev (indices_of P xs)) = {j. j < length xs \<and> P (xs ! j)}"
  by (auto simp: indices_of_def sorted_wrt_rev intro: sorted_wrt_filter)

definition prompt :: "message list \<Rightarrow> json list \<Rightarrow> message \<Rightarrow> message list" where
  "prompt base bs cur = base @ [set_content bs cur]"

lemma prompt_simps [simp]:
  "set_content_at (length base) cs (prompt base bs cur) = prompt base cs cur"
  by (simp add: prompt_def)

text \<open>A reference trim whose blocks are dropped by the indices of \<open>P\<close>.\<close>

lemma reference_trim_stage:
  assumes "\<And>bs ms. drop_blocks est budget bs ms = drop_indexed est budget reason (rev (indices_of P bs)) bs ms"
  obtains cs cut where
    "reference_trim drop_blocks est budget (length base) bs (prompt base bs cur) = (cs, prompt base cs cur, cut)"
    "stage P (estimate_messages est (prompt base cs cur) \<le> budget) bs cs"
    "estimate_messages est (prompt base bs cur) \<le> budget \<longrightarrow> cs = bs"
proof (cases "estimate_messages est (prompt base bs cur) \<le> budget")
  case True
  then show ?thesis by (intro that [of bs "[]"]) (simp_all add: reference_trim_def stage_def)
next
  case False
  let ?r = "drop_indexed est budget reason (rev (indices_of P bs)) bs (prompt base bs cur)"
  have "fst (snd ?r) = prompt base (fst ?r) cur"
    unfolding prompt_def by (rule drop_indexed_last) simp
  moreover have "stage P (estimate_messages est (prompt base (fst ?r) cur) \<le> budget) bs (fst ?r)"
    unfolding prompt_def by (rule drop_indexed_stage [OF indices_of_props]) simp_all
  ultimately show ?thesis using False
    by (intro that [of "fst ?r" "snd (snd ?r)"])
       (simp_all add: reference_trim_def assms Let_def case_prod_beta)
qed

lemma trim_blocks_keeps:
  assumes r: "(out, cut1, cut2, cut3) = trim_blocks est budget (length base) bs (prompt base bs cur)"
  shows "\<exists>cs. out = prompt base cs cur \<and> stage (\<lambda>b. \<not> protected_block b) (estimate_messages est out \<le> budget) bs cs \<and>
    (estimate_messages est (prompt base bs cur) \<le> budget \<longrightarrow> cs = bs)"
proof -
  let ?est = "\<lambda>bs. estimate_messages est (prompt base bs cur)"
  let ?recent = "\<lambda>b. block_source b = ''recent_history''"
  define bs1 where "bs1 = fst (drop_recent_history_blocks est budget (prompt base bs cur) bs)"
  have bs1: "bs1 = (if ?est bs \<le> budget then bs else filter (\<lambda>b. \<not> ?recent b) bs)"
    by (simp add: bs1_def drop_recent_result)
  obtain bs2 c2 where t2: "reference_trim drop_retrieval_blocks est budget (length base) bs1 (prompt base bs1 cur)
        = (bs2, prompt base bs2 cur, c2)"
    and s2: "stage is_retrieval (?est bs2 \<le> budget) bs1 bs2" "?est bs1 \<le> budget \<longrightarrow> bs2 = bs1"
    by (rule reference_trim_stage [of drop_retrieval_blocks est budget "''retrieval_trim''" is_retrieval])
       (simp_all add: drop_retrieval_blocks_def)
  obtain bs3 c3 where t3: "reference_trim drop_continuity_reference_blocks est budget (length base) bs2 (prompt base bs2 cur)
        = (bs3, prompt base bs3 cur, c3)"
    and s3: "stage is_continuity (?est bs3 \<le> budget) bs2 bs3" "?est bs2 \<le> budget \<longrightarrow> bs3 = bs2"
    by (rule reference_trim_stage [of drop_continuity_reference_blocks est budget "''continuity_reference_trim''" is_continuity])
       (simp_all add: drop_continuity_reference_blocks_def)
  have out: "out = prompt base bs3 cur"
    using r t2 t3 by (simp add: trim_blocks_def Let_def case_prod_beta bs1_def [symmetric])
  have sub: "subseq bs3 bs"
  proof -
    have "subseq bs1 bs" by (simp add: bs1)
    moreover have "subseq bs2 bs1" "subseq bs3 bs2" using s2(1) s3(1) by (simp_all add: stage_def)
    ultimately show ?thesis by (blast intro: subseq_order.trans)
  qed
  have f1: "filter protected_block bs1 = filter protected_block bs"
    by (auto simp: bs1 protected_block_def intro: filter_cong)
  have cut: "filter protected_block (filter (\<lambda>b. \<not> P b) xs) = filter protected_block xs"
    if "\<And>b. protected_block b \<Longrightarrow> \<not> P b" for P xs
    using that by (auto intro: filter_cong)
  have f2: "filter protected_block bs2 = filter protected_block bs1"
    using s2(1) cut [of is_retrieval bs1] cut [of is_retrieval bs2] by (simp add: stage_def protected_block_split)
  have f3: "filter protected_block bs3 = filter protected_block bs2"
    using s3(1) cut [of is_continuity bs2] cut [of is_continuity bs3] by (simp add: stage_def protected_block_split)
  have last: "list_all protected_block bs3" if big: "\<not> ?est bs3 \<le> budget"
  proof -
    have "\<not> ?est bs2 \<le> budget" "\<not> ?est bs1 \<le> budget" "\<not> ?est bs \<le> budget"
      using big s2(2) s3(2) bs1 by (auto split: if_splits)
    moreover have "set bs3 \<subseteq> set bs2" "set bs2 \<subseteq> set bs1"
      using s2(1) s3(1) by (auto simp: stage_def dest: set_subseq)
    moreover have "\<forall>b \<in> set bs3. \<not> is_continuity b" "\<forall>b \<in> set bs2. \<not> is_retrieval b"
      using s2(1) s3(1) big calculation(1) by (simp_all add: stage_def list_all_iff)
    ultimately show ?thesis using bs1 by (auto simp: protected_block_split list_all_iff)
  qed
  have fits: "bs3 = bs" if "?est bs \<le> budget"
    using that s2(2) s3(2) bs1 by simp
  show ?thesis
  proof (intro exI [of _ bs3] conjI impI)
    show "stage (\<lambda>b. \<not> protected_block b) (estimate_messages est out \<le> budget) bs bs3"
    proof -
      have "?est bs3 \<le> budget \<or> list_all protected_block bs3" using last by blast
      then show ?thesis using sub f1 f2 f3 unfolding stage_def out by simp
    qed
  qed (use out fits in simp_all)
qed

lemma keep_recent_result:
  "(length kept \<le> 1 \<or> estimate_messages est kept \<le> limit) \<Longrightarrow> used = estimate_messages est kept \<Longrightarrow>
   \<exists>n. keep_recent est limit ms used kept = rev (take n ms) @ kept \<and>
     (length (keep_recent est limit ms used kept) \<le> 1 \<or>
      estimate_messages est (keep_recent est limit ms used kept) \<le> limit)"
proof (induction ms arbitrary: used kept)
  case Nil
  then show ?case by simp
next
  case (Cons m ms)
  show ?case
  proof (cases "kept \<noteq> [] \<and> used + est m > limit")
    case True
    with Cons.prems show ?thesis by (auto intro: exI [of _ 0])
  next
    case False
    then have "length (m # kept) \<le> 1 \<or> estimate_messages est (m # kept) \<le> limit"
      using Cons.prems by (auto simp: estimate_messages_def)
    from Cons.IH [OF this, of "used + est m"] Cons.prems(2) obtain n where
      "keep_recent est limit ms (used + est m) (m # kept) = rev (take n ms) @ m # kept"
      "length (keep_recent est limit ms (used + est m) (m # kept)) \<le> 1 \<or>
       estimate_messages est (keep_recent est limit ms (used + est m) (m # kept)) \<le> limit"
      by (auto simp: estimate_messages_def)
    with False show ?thesis by (intro exI [of _ "Suc n"]) auto
  qed
qed

lemma estimate_append [simp]:
  "estimate_messages est (xs @ ys) = estimate_messages est xs + estimate_messages est ys"
  by (simp add: estimate_messages_def)

lemma estimate_suffix:
  assumes "\<And>m. 0 \<le> est m"
  shows "estimate_messages est (drop n ms) \<le> estimate_messages est ms"
proof -
  have "0 \<le> estimate_messages est (take n ms)" unfolding estimate_messages_def
    by (rule sum_list_nonneg) (use assms in auto)
  moreover have "estimate_messages est ms = estimate_messages est (take n ms) + estimate_messages est (drop n ms)"
    by (metis append_take_drop_id estimate_append)
  ultimately show ?thesis by simp
qed

abbreviation systems_of :: "message list \<Rightarrow> message list" where
  "systems_of ms \<equiv> filter (role_is ''system'') ms"

abbreviation history_of :: "message list \<Rightarrow> message list" where
  "history_of ms \<equiv> filter (\<lambda>m. \<not> role_is ''system'' m) ms"

lemma no_history: "history_of ms = [] \<Longrightarrow> systems_of ms = ms"
  by (induction ms) (auto split: if_splits)

lemma trim_history_keeps:
  assumes pos: "\<And>m. 0 < est m"
  shows "\<exists>hist. fst (trim_history est (pre @ [cur]) (length pre) budget) = systems_of pre @ hist @ [cur] \<and>
    suffix hist (history_of pre) \<and> calls_answered {} hist \<and>
    (length hist \<le> 1 \<or> estimate_messages est (systems_of pre @ hist @ [cur]) \<le> budget)"
proof (cases "history_of pre = []")
  case True
  then show ?thesis by (intro exI [of _ "[]"]) (simp add: trim_history_def no_history)
next
  case False
  then have pre: "pre \<noteq> []" by auto
  define limit where "limit = max 0 (budget - estimate_messages est (systems_of pre @ [cur]))"
  define kept where "kept = keep_recent est limit (rev (history_of pre)) 0 []"
  define hist where "hist = drop (find_legal_message_start kept) kept"
  obtain n where n: "kept = rev (take n (rev (history_of pre)))"
    and small: "length kept \<le> 1 \<or> estimate_messages est kept \<le> limit"
    using keep_recent_result [of "[]" est limit 0 "rev (history_of pre)"]
    by (auto simp: kept_def estimate_messages_def)
  have "suffix kept (history_of pre)"
    unfolding n by (simp add: rev_take suffix_drop)
  then have suf: "suffix hist (history_of pre)"
    unfolding hist_def by (metis suffix_drop suffix_order.trans)
  have "length hist \<le> 1 \<or> estimate_messages est (systems_of pre @ hist @ [cur]) \<le> budget"
  proof (rule disjCI)
    assume big: "\<not> estimate_messages est (systems_of pre @ hist @ [cur]) \<le> budget"
    show "length hist \<le> 1"
    proof (rule ccontr)
      assume two: "\<not> length hist \<le> 1"
      then have "hist \<noteq> []" "\<not> length kept \<le> 1" by (auto simp: hist_def)
      then have "0 < estimate_messages est hist" "estimate_messages est kept \<le> limit"
        using small pos unfolding estimate_messages_def
        by (cases hist; force intro: add_pos_nonneg sum_list_nonneg less_imp_le)+
      moreover have "estimate_messages est hist \<le> estimate_messages est kept"
        unfolding hist_def by (rule estimate_suffix) (simp add: pos less_imp_le)
      ultimately show False using big unfolding limit_def by simp
    qed
  qed
  moreover have "fst (trim_history est (pre @ [cur]) (length pre) budget) = systems_of pre @ hist @ [cur]"
    using False pre by (simp add: trim_history_def Let_def hist_def kept_def limit_def del: estimate_append)
  moreover have "calls_answered {} hist" unfolding hist_def by (rule legal_start_answered)
  ultimately show ?thesis using suf by blast
qed

lemma last_user_snoc: "role_is ''user'' c \<Longrightarrow> last_user_index (xs @ [c]) = Some (length xs)"
  by (induction xs) auto

lemma content_of_set [simp]: "content_blocks (set_content cs m) = Some cs"
  by (simp add: content_blocks_def set_content_def dict_simps)

lemma token_count_pos: "0 < token_count enc m"
  by (auto simp: token_count_def estimate_message_tokens_def Let_def split: option.splits if_splits)

definition blocks_of :: "message \<Rightarrow> json list" where
  "blocks_of m = (case content_blocks m of None \<Rightarrow> [] | Some bs \<Rightarrow> bs)"

text \<open>The current message keeps all of itself but some of its droppable blocks.\<close>

definition essentials_kept :: "message \<Rightarrow> message \<Rightarrow> bool" where
  "essentials_kept cur cur' = (case content_blocks cur of
       None \<Rightarrow> cur' = cur
     | Some bs \<Rightarrow> cur' = set_content (blocks_of cur') cur \<and> subseq (blocks_of cur') bs \<and>
         filter protected_block (blocks_of cur') = filter protected_block bs)"

lemma trimmed_content:
  assumes "(if content_blocks cur = None then (base @ [cur], [], [], [])
      else trim_blocks est budget (length base) (blocks_of cur) (base @ [cur])) = (out, c1, c2, c3)"
  shows "\<exists>cur'. out = base @ [cur'] \<and> essentials_kept cur cur' \<and>
    (estimate_messages est (base @ [cur]) \<le> budget \<longrightarrow> cur' = cur) \<and>
    (estimate_messages est out \<le> budget \<or> list_all protected_block (blocks_of cur'))"
proof (cases "content_blocks cur")
  case None
  with assms show ?thesis by (simp add: essentials_kept_def blocks_of_def)
next
  case (Some bs)
  then have p: "base @ [cur] = prompt base bs cur" by (simp add: prompt_def set_content_same)
  from assms Some have "(out, c1, c2, c3) = trim_blocks est budget (length base) bs (prompt base bs cur)"
    by (simp add: blocks_of_def p)
  from trim_blocks_keeps [OF this] obtain cs where
    cs: "out = prompt base cs cur" "stage (\<lambda>b. \<not> protected_block b) (estimate_messages est out \<le> budget) bs cs"
      "estimate_messages est (base @ [cur]) \<le> budget \<longrightarrow> cs = bs" unfolding p by blast
  have "blocks_of (set_content cs cur) = cs" by (simp add: blocks_of_def)
  with cs Some set_content_same [OF Some] show ?thesis
    by (intro exI [of _ "set_content cs cur"]) (auto simp: prompt_def essentials_kept_def stage_def)
qed

definition trimmed_prompt ::
    "(message \<Rightarrow> int) \<Rightarrow> int \<Rightarrow> message list \<Rightarrow> message \<Rightarrow> message list \<Rightarrow> bool" where
  "trimmed_prompt est budget pre cur out =
     (\<exists>hist cur'. out = systems_of pre @ hist @ [cur'] \<and> suffix hist (history_of pre) \<and>
        calls_answered {} hist \<and> essentials_kept cur cur' \<and>
        (estimate_messages est out \<le> budget \<or> length hist \<le> 1 \<and> list_all protected_block (blocks_of cur')))"

lemma budgeted_trims:
  assumes u: "role_is ''user'' cur" and big: "\<not> estimate_messages est (pre @ [cur]) \<le> budget"
    and pos: "\<And>m. 0 < est m" and r: "budgeted est budget (pre @ [cur]) = (out, a)"
  shows "trimmed_prompt est budget pre cur out \<and> ba_budget a = budget"
proof -
  obtain ms1 removed where t: "trim_history est (pre @ [cur]) (length pre) budget = (ms1, removed)" by (rule prod.exhaust)
  obtain hist where h: "ms1 = systems_of pre @ hist @ [cur]" "suffix hist (history_of pre)"
      "calls_answered {} hist"
      "length hist \<le> 1 \<or> estimate_messages est (systems_of pre @ hist @ [cur]) \<le> budget"
    using trim_history_keeps [where est = est and pre = pre and cur = cur and budget = budget, OF pos] t by auto
  define base where "base = systems_of pre @ hist"
  have ms1: "ms1 = base @ [cur]" by (simp add: h base_def)
  have i1: "last_user_index ms1 = Some (length base)" unfolding ms1 by (rule last_user_snoc [OF u])
  obtain ms2 c1 c2 c3 where c: "(if content_blocks cur = None then (base @ [cur], [], [], [])
      else trim_blocks est budget (length base) (blocks_of cur) (base @ [cur])) = (ms2, c1, c2, c3)"
    by (metis prod_cases4)
  have c': "(case content_blocks (ms1 ! length base) of None \<Rightarrow> (ms1, [], [], [])
      | Some content \<Rightarrow> trim_blocks est budget (length base) content ms1) = (ms2, c1, c2, c3)"
    using c by (auto simp: ms1 blocks_of_def split: option.splits)
  have out: "ms2 = out" "ba_budget a = budget"
    using r big by (auto simp: budgeted_def Let_def last_user_snoc [OF u] t i1 c')
  from trimmed_content [OF c] obtain cur' where k: "out = base @ [cur']" "essentials_kept cur cur'"
      "estimate_messages est (base @ [cur]) \<le> budget \<longrightarrow> cur' = cur"
      "estimate_messages est out \<le> budget \<or> list_all protected_block (blocks_of cur')"
    using out by blast
  have "estimate_messages est out \<le> budget \<or> length hist \<le> 1 \<and> list_all protected_block (blocks_of cur')"
  proof (cases "estimate_messages est (base @ [cur]) \<le> budget")
    case True
    with k(1,3) show ?thesis by simp
  next
    case False
    with h(4) have "length hist \<le> 1" by (simp add: base_def)
    with k(4) show ?thesis by blast
  qed
  with k(1,2) h(2,3) out(2) show ?thesis unfolding trimmed_prompt_def base_def
    by (intro conjI exI [of _ hist] exI [of _ cur']) simp_all
qed

text \<open>
  C29. For a prompt that ends with the user's message: a prompt within the budget is returned as it is.
  Otherwise the result is the system messages, a legal suffix of the history and the user's message
  with every block that is neither recent history nor reference context, in order; and it is within the
  budget unless the history is down to one message and no droppable block is left.
\<close>

theorem trimming_keeps_the_essentials:
  assumes "role_is ''user'' cur"
    and "apply_budget enc safety (pre @ [cur]) ctx completion = Inr (out, Applied a)"
  shows "(estimate_messages (token_count enc) (pre @ [cur]) \<le> ba_budget a \<longrightarrow> out = pre @ [cur]) \<and>
    (estimate_messages (token_count enc) (pre @ [cur]) > ba_budget a \<longrightarrow>
       trimmed_prompt (token_count enc) (ba_budget a) pre cur out)"
proof -
  let ?est = "token_count enc"
  define budget where "budget = int_or_zero ctx - int_or_zero completion - max 0 safety"
  have r: "budgeted ?est budget (pre @ [cur]) = (out, a)"
    using assms(2) by (auto simp: apply_budget_def budget_def Let_def split: if_splits prod.splits)
  show ?thesis
  proof (cases "estimate_messages ?est (pre @ [cur]) \<le> budget")
    case True
    with r show ?thesis by (auto simp: budgeted_def Let_def)
  next
    case False
    from budgeted_trims [OF assms(1) this token_count_pos r] False show ?thesis by simp
  qed
qed

definition text_block :: "string \<Rightarrow> string \<Rightarrow> string \<Rightarrow> json" where
  "text_block kind source text = JObj [(''type'', JStr ''text''), (''text'', JStr text),
     (''_meta'', JObj [(''kind'', JStr kind), (''source'', JStr source)])]"

definition history_message :: message where
  "history_message = [(''role'', JStr ''user''), (''content'', JStr ''an earlier question'')]"

definition current_message :: message where
  "current_message = [(''role'', JStr ''user''), (''content'', JList
     [text_block ''reference_context'' ''user_profile'' ''profile'',
      text_block ''working_memory'' [] ''memory'', text_block ''user_text'' [] ''question''])]"

definition words :: "string \<Rightarrow> nat option" where
  "words t = Some (length t)"

theorem trimming_keeps_the_essentials_witness:
  "\<exists>out a. apply_budget words 0 ([history_message] @ [current_message]) (Some 45) None = Inr (out, Applied a) \<and>
     trimmed_prompt (token_count words) 45 [history_message] current_message out \<and> ba_reason a = ''trimmed''"
proof -
  let ?r = "apply_budget words 0 ([history_message] @ [current_message]) (Some 45) None"
  have u: "role_is ''user'' current_message" by code_simp
  have "case ?r of Inl _ \<Rightarrow> False | Inr (_, NotApplied _ _) \<Rightarrow> False
      | Inr (out, Applied a) \<Rightarrow> ba_budget a = 45 \<and> ba_reason a = ''trimmed''" by code_simp
  then obtain out a where r: "?r = Inr (out, Applied a)" and a: "ba_budget a = 45" "ba_reason a = ''trimmed''"
    by (auto split: sum.splits budget_audit.splits) (metis budget_audit.exhaust)
  have big: "estimate_messages (token_count words) ([history_message] @ [current_message]) > 45" by code_simp
  from trimming_keeps_the_essentials [OF u r] big r a show ?thesis by auto
qed

text \<open>
  The loops assume that the user's message is the last one: when another message follows, the first
  dropped reference block overwrites that message with the user's blocks.
\<close>

lemma trailing_message_overwritten:
  "estimate_messages est (ms @ [m]) > budget \<Longrightarrow> is_retrieval b \<Longrightarrow>
   fst (snd (drop_retrieval_blocks est budget [b] (ms @ [m]))) = ms @ [set_content [] m]"
  by (simp add: drop_retrieval_blocks_def indices_of_def remove_nth_def Let_def)

text \<open>Recent history goes all at once: the estimate inside the loop does not see the dropped blocks.\<close>

lemma recent_history_all_or_nothing:
  "estimate_messages est ms > budget \<Longrightarrow>
   \<forall>b \<in> set (fst (drop_recent_history_blocks est budget ms bs)). block_source b \<noteq> ''recent_history''"
  by (simp add: drop_recent_result)

end
