(* ===== verification/Canonical.thy ===== *)
theory Canonical
  imports Payload
begin

text \<open>
  The canonical text of a JSON value (\<^verbatim>\<open>canonical_dump\<close> of \<^verbatim>\<open>OriginAgent/evolution/ledger.py\<close>, the
  \<^verbatim>\<open>json.dumps\<close> with sorted keys of \<^verbatim>\<open>Payload\<close>) determines the value up to the order of its
  keys. The hash chain of the evolution ledger rests on this.
\<close>

section \<open>Values and their normal form\<close>

text \<open>
  The text of a float: what \<^verbatim>\<open>float.__repr__\<close> prints for a finite number has a point or an exponent.
  \<^verbatim>\<open>allow_nan=False\<close> refuses the others.
\<close>

definition num_char :: "char \<Rightarrow> bool" where
  "num_char c = (is_digit_char c \<or> c \<in> {CHR ''-'', CHR ''+'', CHR ''.'', CHR ''e''})"

definition float_text :: "string \<Rightarrow> bool" where
  "float_text s = (s \<noteq> [] \<and> list_all num_char s \<and> (CHR ''.'' \<in> set s \<or> CHR ''e'' \<in> set s))"

fun finite_json :: "json \<Rightarrow> bool"
  and finite_items :: "(string \<times> json) list \<Rightarrow> bool"
  and finite_values :: "json list \<Rightarrow> bool" where
  "finite_json (JFloat s) = float_text s"
| "finite_json (JList vs) = finite_values vs"
| "finite_json (JObj kvs) = finite_items kvs"
| "finite_json _ = True"
| "finite_items [] = True"
| "finite_items ((k, v) # r) = (finite_json v \<and> finite_items r)"
| "finite_values [] = True"
| "finite_values (v # vs) = (finite_json v \<and> finite_values vs)"

fun sort_keys :: "json \<Rightarrow> json"
  and sort_keys_items :: "(string \<times> json) list \<Rightarrow> (string \<times> json) list"
  and sort_keys_values :: "json list \<Rightarrow> json list" where
  "sort_keys (JList vs) = JList (sort_keys_values vs)"
| "sort_keys (JObj kvs) = JObj (sort_key fst (sort_keys_items kvs))"
| "sort_keys j = j"
| "sort_keys_items [] = []"
| "sort_keys_items ((k, v) # r) = (k, sort_keys v) # sort_keys_items r"
| "sort_keys_values [] = []"
| "sort_keys_values (v # vs) = sort_keys v # sort_keys_values vs"

lemma items_as_maps:
  "dumps_items kvs = map (apsnd json_dumps) kvs"
  "sort_keys_items kvs = map (apsnd sort_keys) kvs"
  "finite_items kvs = list_all (finite_json \<circ> snd) kvs"
  by (induction kvs) auto

lemma values_as_maps:
  "dumps_values vs = map json_dumps vs" "sort_keys_values vs = map sort_keys vs"
  "finite_values vs = list_all finite_json vs"
  by (induction vs) auto

lemma insort_map_snd:
  "insort_key fst (apsnd f x) (map (apsnd f) xs) = map (apsnd f) (insort_key fst x xs)"
  by (induction xs) auto

lemma sort_map_snd: "sort_key fst (map (apsnd f) xs) = map (apsnd f) (sort_key fst xs)"
  by (induction xs) (simp_all add: insort_map_snd)

section \<open>Tokens\<close>

subsection \<open>Strings\<close>

definition hex_value :: "char \<Rightarrow> nat" where
  "hex_value c = (let n = of_char c in if n < 58 then n - 48 else n - 87)"

definition unescape :: "string \<Rightarrow> char \<times> string" where
  "unescape s = (case s of
       c # cs \<Rightarrow>
         if c \<noteq> CHR 0x5C then (c, cs)
         else (case cs of
             d # ds \<Rightarrow>
               if d = CHR ''n'' then (CHR 0x0A, ds) else if d = CHR ''r'' then (CHR 0x0D, ds)
               else if d = CHR ''t'' then (CHR 0x09, ds) else if d = CHR ''b'' then (CHR 0x08, ds)
               else if d = CHR ''f'' then (CHR 0x0C, ds)
               else if d = CHR ''u'' then (char_of (16 * hex_value (ds ! 2) + hex_value (ds ! 3)), drop 4 ds)
               else (d, ds)
           | [] \<Rightarrow> (c, []))
     | [] \<Rightarrow> (CHR 0x00, []))"

lemma hex_value_char: "d < 16 \<Longrightarrow> hex_value (hex_char d) = d"
  by (simp add: hex_value_def hex_char_def Let_def of_char_of)

lemma char_code_eq: "(of_char c :: nat) = n \<Longrightarrow> c = char_of n"
  by auto

lemma named_codes:
  "char_of (34::nat) = CHR 0x22" "char_of (92::nat) = CHR 0x5C" "char_of (10::nat) = CHR 0x0A"
  "char_of (13::nat) = CHR 0x0D" "char_of (9::nat) = CHR 0x09" "char_of (8::nat) = CHR 0x08"
  "char_of (12::nat) = CHR 0x0C"
  by code_simp+

lemma unescape_escape: "unescape (escape_char c @ x) = (c, x)"
proof -
  define n :: nat where "n = of_char c"
  have c: "c = char_of n" by (simp add: n_def)
  consider (named) "n \<in> {34, 92, 10, 13, 9, 8, 12}" | (control) "n \<notin> {34, 92, 10, 13, 9, 8, 12}" "n < 32"
    | (plain) "n \<notin> {34, 92, 10, 13, 9, 8, 12}" "32 \<le> n" by fastforce
  then show ?thesis
  proof cases
    case named
    then have "c \<in> {CHR 0x22, CHR 0x5C, CHR 0x0A, CHR 0x0D, CHR 0x09, CHR 0x08, CHR 0x0C}"
      unfolding c by (auto simp: named_codes)
    then show ?thesis
      by (elim insertE emptyE) (simp_all add: escape_char_def unescape_def Let_def)
  next
    case control
    then have "hex_value (hex_char (n div 16)) = n div 16" "hex_value (hex_char (n mod 16)) = n mod 16"
      by (simp_all add: hex_value_char)
    then have "char_of (16 * hex_value (hex_char (n div 16)) + hex_value (hex_char (n mod 16))) = c"
      using c by simp
    with control show ?thesis unfolding escape_char_def n_def [symmetric]
      by (simp add: unescape_def Let_def)
  next
    case plain
    then have "c \<noteq> CHR 0x5C" by (auto simp: n_def)
    with plain show ?thesis unfolding escape_char_def n_def [symmetric]
      by (simp add: unescape_def Let_def)
  qed
qed

lemma escape_prefix: "escape_char c @ x = escape_char d @ y \<Longrightarrow> c = d \<and> x = y"
  by (metis unescape_escape prod.inject)

lemma escape_no_quote: "\<exists>h t. escape_char c = h # t \<and> h \<noteq> CHR 0x22"
proof (cases "c = CHR 0x22")
  case True
  then show ?thesis by (simp add: escape_char_def)
next
  case False
  then show ?thesis by (simp add: escape_char_def Let_def)
qed

lemma quoted_prefix:
  "concat (map escape_char s) @ CHR 0x22 # x = concat (map escape_char t) @ CHR 0x22 # y \<Longrightarrow> s = t \<and> x = y"
proof (induction s arbitrary: t)
  case Nil
  then show ?case using escape_no_quote by (cases t) (auto, metis append_Cons list.inject)
next
  case (Cons c s)
  show ?case
  proof (cases t)
    case Nil
    with Cons.prems escape_no_quote [of c] show ?thesis by auto
  next
    case (Cons d u)
    with Cons.prems escape_prefix [of c "concat (map escape_char s) @ CHR 0x22 # x" d]
      Cons.IH [of u] show ?thesis by simp
  qed
qed

lemma quote_prefix: "json_quote s @ x = json_quote t @ y \<Longrightarrow> s = t \<and> x = y"
  unfolding json_quote_def using quoted_prefix [of s x t y] by simp

subsection \<open>Numbers\<close>

lemma show_nat_inj: "show_nat m = show_nat n \<Longrightarrow> m = n"
  by (metis parse_show_nat of_nat_eq_iff)

lemma show_nat_digits: "list_all is_digit_char (show_nat n)" "show_nat n \<noteq> []"
  using parse_show_nat by blast+

lemma show_int_chars:
  "show_int i \<noteq> []" "list_all num_char (show_int i)" "CHR ''.'' \<notin> set (show_int i)" "CHR ''e'' \<notin> set (show_int i)"
  using show_nat_digits [of "nat i"] show_nat_digits [of "nat (- i)"]
  by (auto simp: show_int_def num_char_def list_all_iff is_digit_char_def)

lemma show_int_inj: "show_int i = show_int j \<Longrightarrow> i = j"
proof -
  have hd: "\<And>n. hd (show_nat n) \<noteq> CHR ''-''"
    using show_nat_digits by (metis digit_not_space hd_in_set list_all_iff)
  assume "show_int i = show_int j"
  then show "i = j"
    using hd [of "nat i"] hd [of "nat j"]
    by (auto simp: show_int_def split: if_splits dest!: show_nat_inj) (metis list.sel(1))+
qed

definition ends :: "string \<Rightarrow> bool" where
  "ends r = (case r of [] \<Rightarrow> True | c # _ \<Rightarrow> c \<in> {CHR '','', CHR '']'', CHR ''}''})"

lemma ends_not_num: "ends r \<Longrightarrow> takeWhile num_char r = []"
  by (auto simp: ends_def num_char_def is_digit_char_def split: list.splits)

lemma number_prefix:
  assumes "list_all num_char s" "list_all num_char t" "ends x" "ends y" "s @ x = t @ y"
  shows "s = t \<and> x = y"
proof -
  have "takeWhile num_char (s @ x) = s" "takeWhile num_char (t @ y) = t"
    using assms(1-4) by (simp_all add: list_all_iff ends_not_num)
  with assms(5) show ?thesis by auto
qed

subsection \<open>Sequences\<close>

text \<open>
  A separated sequence is read back element by element when every element is: \<open>e\<close> is the text of an
  element and \<open>q\<close> what it determines.
\<close>

definition tail_text :: "('a \<Rightarrow> string) \<Rightarrow> 'a list \<Rightarrow> string" where
  "tail_text e xs = concat (map (\<lambda>x. CHR '','' # e x) xs)"

lemma join_tail: "join_with '','' (map e (x # xs)) = e x @ tail_text e xs"
  by (induction xs arbitrary: x) (simp_all add: tail_text_def)

definition readable :: "('a \<Rightarrow> string) \<Rightarrow> ('a \<Rightarrow> 'b) \<Rightarrow> 'a set \<Rightarrow> 'a set \<Rightarrow> bool" where
  "readable e q A B = (\<forall>a \<in> A. \<forall>b \<in> B. \<forall>x y. ends x \<longrightarrow> ends y \<longrightarrow> e a @ x = e b @ y \<longrightarrow> q a = q b \<and> x = y)"

lemma ends_tail: "c \<in> {CHR '']'', CHR ''}''} \<Longrightarrow> ends (tail_text e xs @ c # r)"
  by (cases xs) (auto simp: tail_text_def ends_def)

lemma tail_prefix:
  assumes "c \<in> {CHR '']'', CHR ''}''}" and "readable e q A B"
  shows "set xs \<subseteq> A \<Longrightarrow> set ys \<subseteq> B \<Longrightarrow> tail_text e xs @ c # r = tail_text e ys @ c # r' \<Longrightarrow>
    map q xs = map q ys \<and> r = r'"
proof (induction xs arbitrary: ys)
  case Nil
  then show ?case using assms(1) by (cases ys) (auto simp: tail_text_def)
next
  case (Cons x xs)
  show ?case
  proof (cases ys)
    case Nil
    with Cons.prems assms(1) show ?thesis by (auto simp: tail_text_def)
  next
    case ys: (Cons y ys')
    with Cons.prems(3) have "e x @ (tail_text e xs @ c # r) = e y @ (tail_text e ys' @ c # r')"
      by (simp add: tail_text_def)
    with assms(2) Cons.prems(1,2) ys ends_tail [OF assms(1), of e xs r] ends_tail [OF assms(1), of e ys' r']
    have "q x = q y" "tail_text e xs @ c # r = tail_text e ys' @ c # r'"
      unfolding readable_def by (simp_all, blast+)
    with Cons.IH [of ys'] Cons.prems(1,2) ys show ?thesis by simp
  qed
qed

lemma join_prefix:
  assumes c: "c \<in> {CHR '']'', CHR ''}''}" and A: "readable e q A B" "\<And>a. a \<in> A \<union> B \<Longrightarrow> e a \<noteq> [] \<and> hd (e a) \<noteq> c"
    and s: "set xs \<subseteq> A" "set ys \<subseteq> B"
    and eq: "join_with '','' (map e xs) @ c # r = join_with '','' (map e ys) @ c # r'"
  shows "map q xs = map q ys \<and> r = r'"
proof (cases "xs = [] \<or> ys = []")
  case True
  have no: "join_with '','' (map e (a # as)) @ t \<noteq> c # u" if "a \<in> A \<union> B" for a as t u
    using A(2) [OF that] unfolding join_tail by (cases "e a") auto
  consider "xs = []" "ys = []" | y ys' where "xs = []" "ys = y # ys'" | x xs' where "xs = x # xs'" "ys = []"
    using True by (cases xs; cases ys) auto
  then show ?thesis
  proof cases
    case 1
    with eq show ?thesis by simp
  next
    case 2
    then have "join_with '','' (map e (y # ys')) @ c # r' = c # r" using eq by (simp del: list.map(2))
    with no [of y ys'] s 2 show ?thesis by simp
  next
    case 3
    then have "join_with '','' (map e (x # xs')) @ c # r = c # r'" using eq by (simp del: list.map(2))
    with no [of x xs'] s 3 show ?thesis by simp
  qed
next
  case False
  then obtain x xs' y ys' where xy: "xs = x # xs'" "ys = y # ys'" by (meson neq_Nil_conv)
  with eq have "e x @ (tail_text e xs' @ c # r) = e y @ (tail_text e ys' @ c # r')"
    by (simp only: join_tail append_assoc)
  with A(1) s xy ends_tail [OF c, of e xs' r] ends_tail [OF c, of e ys' r']
  have "q x = q y" "tail_text e xs' @ c # r = tail_text e ys' @ c # r'"
    unfolding readable_def by (simp_all, blast+)
  with tail_prefix [OF c A(1), of xs' ys' r r'] s xy show ?thesis by simp
qed

section \<open>The text determines the value\<close>

text \<open>The first character tells the kind of value.\<close>

fun value_class :: "json \<Rightarrow> nat" where
  "value_class JNull = 0"
| "value_class (JBool b) = (if b then 1 else 2)"
| "value_class (JInt i) = 3"
| "value_class (JFloat s) = 3"
| "value_class (JStr s) = 4"
| "value_class (JList vs) = 5"
| "value_class (JObj kvs) = 6"

definition char_class :: "char \<Rightarrow> nat" where
  "char_class c = (if c = CHR ''n'' then 0 else if c = CHR ''t'' then 1 else if c = CHR ''f'' then 2
     else if num_char c then 3 else if c = CHR 0x22 then 4 else if c = CHR ''['' then 5 else 6)"

lemma num_char_class: "num_char c \<Longrightarrow> char_class c = 3"
  by (auto simp: char_class_def num_char_def is_digit_char_def)

lemma dumps_class: "finite_json j \<Longrightarrow> json_dumps j \<noteq> [] \<and> char_class (hd (json_dumps j)) = value_class j"
proof (cases j)
  case (JInt i)
  have "num_char (hd (show_int i))" using show_int_chars by (metis hd_in_set list_all_iff)
  with JInt show ?thesis by (simp add: show_int_chars num_char_class)
next
  case (JFloat s)
  assume "finite_json j"
  with JFloat have "s \<noteq> []" "num_char (hd s)" by (auto simp: float_text_def list_all_iff)
  with JFloat show ?thesis by (simp add: num_char_class)
qed (auto simp: char_class_def json_quote_def num_char_def is_digit_char_def)

lemma class_not_close: "char_class c = value_class j \<Longrightarrow> value_class j \<noteq> 6 \<Longrightarrow> c \<notin> {CHR '']'', CHR ''}''}"
  by (auto simp: char_class_def num_char_def is_digit_char_def)

lemma dumps_not_close: "finite_json j \<Longrightarrow> json_dumps j \<noteq> [] \<and> hd (json_dumps j) \<notin> {CHR '']'', CHR ''}''}"
  using dumps_class [of j] class_not_close [of "hd (json_dumps j)" j]
  by (cases j) simp_all

lemma same_class:
  "finite_json j \<Longrightarrow> finite_json j' \<Longrightarrow> json_dumps j @ x = json_dumps j' @ y \<Longrightarrow> value_class j = value_class j'"
  using dumps_class [of j] dumps_class [of j'] by (metis hd_append2)

lemma obj_text:
  "json_dumps (JObj kvs) = ''{'' @ join_with '','' (map (\<lambda>(k, v). json_quote k @ '':'' @ json_dumps v) (sort_key fst kvs)) @ ''}''"
  proof -
  have "(\<lambda>(k, t). json_quote k @ '':'' @ t) \<circ> apsnd json_dumps = (\<lambda>(k, v). json_quote k @ '':'' @ json_dumps v)"
    by (auto simp: fun_eq_iff)
  then show ?thesis by (simp only: json_dumps.simps items_as_maps sort_map_snd map_map)
qed

lemma obj_sorted: "sort_keys (JObj kvs) = JObj (map (apsnd sort_keys) (sort_key fst kvs))"
  by (simp add: items_as_maps sort_map_snd)

lemma number_texts:
  assumes "value_class j = 3" "value_class j' = 3" "finite_json j" "finite_json j'" "ends x" "ends y"
    and "json_dumps j @ x = json_dumps j' @ y"
  shows "j = j' \<and> x = y"
proof -
  have num: "list_all num_char (json_dumps i)" if "value_class i = 3" "finite_json i" for i
    using that by (cases i) (auto simp: show_int_chars float_text_def split: if_splits)
  have "json_dumps j = json_dumps j' \<and> x = y"
    by (rule number_prefix [OF num [OF assms(1,3)] num [OF assms(2,4)] assms(5-7)])
  with assms(1-4) show ?thesis
    by (cases j; cases j')
       (auto simp: float_text_def show_int_chars split: if_splits dest: show_int_inj)
qed

lemma dumps_prefix:
  "finite_json j \<Longrightarrow> finite_json j' \<Longrightarrow> ends x \<Longrightarrow> ends y \<Longrightarrow> json_dumps j @ x = json_dumps j' @ y \<Longrightarrow>
   sort_keys j = sort_keys j' \<and> x = y"
proof (induction j arbitrary: j' x y)
  case (JInt i)
  from same_class [OF JInt.prems(1,2,5)] number_texts [of "JInt i" j' x y] JInt.prems show ?case by simp
next
  case (JFloat s)
  from same_class [OF JFloat.prems(1,2,5)] number_texts [of "JFloat s" j' x y] JFloat.prems show ?case by simp
next
  case (JStr s)
  from same_class [OF JStr.prems(1,2,5)] obtain t where "j' = JStr t" by (cases j') (auto split: if_splits)
  with JStr.prems(5) quote_prefix [of s x t y] show ?case by simp
next
  case (JList vs)
  from same_class [OF JList.prems(1,2,5)] obtain ws where j': "j' = JList ws" by (cases j') (auto split: if_splits)
  have fin: "finite_json v" if "v \<in> set vs \<union> set ws" for v
    using that JList.prems(1,2) j' by (auto simp: values_as_maps list_all_iff)
  have "readable json_dumps sort_keys (set vs) (set ws)"
    using JList.IH fin unfolding readable_def by blast
  moreover have "join_with '','' (map json_dumps vs) @ CHR '']'' # x = join_with '','' (map json_dumps ws) @ CHR '']'' # y"
    using JList.prems(5) j' by (simp add: values_as_maps)
  ultimately have "map sort_keys vs = map sort_keys ws \<and> x = y"
    using dumps_not_close [OF fin] by (intro join_prefix [where A = "set vs" and B = "set ws"]) auto
  then show ?case using j' by (simp add: values_as_maps)
next
  case (JObj kvs)
  from same_class [OF JObj.prems(1,2,5)] obtain lws where j': "j' = JObj lws" by (cases j') (auto split: if_splits)
  let ?e = "\<lambda>(k, v). json_quote k @ '':'' @ json_dumps v"
  have fin: "finite_json (snd kv)" if "kv \<in> set kvs \<union> set lws" for kv
    using that JObj.prems(1,2) j' by (auto simp: items_as_maps list_all_iff)
  have rd: "readable ?e (apsnd sort_keys) (set kvs) (set lws)"
    unfolding readable_def
  proof (intro ballI allI impI)
    fix a b u w
    assume ab: "a \<in> set kvs" "b \<in> set lws" "ends u" "ends w" "?e a @ u = ?e b @ w"
    from ab(5) have "fst a = fst b \<and> '':'' @ json_dumps (snd a) @ u = '':'' @ json_dumps (snd b) @ w"
      by (intro quote_prefix) (simp add: case_prod_beta)
    with JObj.IH [of a "snd a" "snd b" u w] ab fin [of a] fin [of b]
    show "apsnd sort_keys a = apsnd sort_keys b \<and> u = w"
      by (cases a; cases b) simp
  qed
  have eq: "join_with '','' (map ?e (sort_key fst kvs)) @ CHR ''}'' # x = join_with '','' (map ?e (sort_key fst lws)) @ CHR ''}'' # y"
    using JObj.prems(5) unfolding j' obj_text by simp
  have "map (apsnd sort_keys) (sort_key fst kvs) = map (apsnd sort_keys) (sort_key fst lws) \<and> x = y"
    by (rule join_prefix [OF _ rd _ _ _ eq]) (auto simp: json_quote_def)
  then show ?case unfolding j' obj_sorted by simp
next
  case JNull
  from same_class [OF JNull.prems(1,2,5)] JNull.prems(5) show ?case by (cases j') (auto split: if_splits)
next
  case (JBool b)
  from same_class [OF JBool.prems(1,2,5)] JBool.prems(5) show ?case by (cases j') (auto split: if_splits)
qed

text \<open>And the value with sorted keys has the same text.\<close>

lemma dumps_sorted: "json_dumps (sort_keys j) = json_dumps j"
proof (induction j)
  case (JList vs)
  then show ?case by (simp add: values_as_maps) (metis (no_types, lifting) comp_apply map_eq_conv)
next
  case (JObj kvs)
  have s: "sort_key fst (map (apsnd sort_keys) (sort_key fst kvs)) = map (apsnd sort_keys) (sort_key fst kvs)"
    by (simp add: sort_map_snd sort_key_id_if_sorted)
  have "map (\<lambda>(k, v). json_quote k @ '':'' @ json_dumps v) (map (apsnd sort_keys) (sort_key fst kvs)) =
      map (\<lambda>(k, v). json_quote k @ '':'' @ json_dumps v) (sort_key fst kvs)"
    using JObj by (auto simp: prod_set_defs)
  then show ?case unfolding obj_sorted obj_text s by (simp only:)
qed (auto simp: items_as_maps)

lemma same_text:
  assumes "finite_json j" and "finite_json j'"
  shows "json_dumps j = json_dumps j' \<longleftrightarrow> sort_keys j = sort_keys j'"
  using dumps_prefix [OF assms, of "[]" "[]"] dumps_sorted by (auto simp: ends_def) metis

end
