(* ===== verification/Ledger.thy ===== *)
theory Ledger
  imports Canonical
begin

text \<open>
  The append-only ledger of the self-evolution subsystem: \<^verbatim>\<open>OriginAgent/evolution/events.py\<close> and
  \<^verbatim>\<open>evolution/ledger.py\<close>. The file is the list of its lines as \<^verbatim>\<open>json.loads\<close> reads them; a missing
  file and an empty one behave alike. SHA-256 is the parameter \<open>H\<close> on the canonical text, signing
  and the signature check are parameters. The lock is left out: each operation runs inside it.
\<close>

section \<open>Events\<close>

record EvolutionEvent =
  event_id :: string
  event_type :: string
  created_at :: string
  schema_version :: string
  actor :: string
  actor_public_key :: string
  module_id :: string
  module_version :: string
  module_type :: string
  source_event_stream :: string
  source_event_id :: string
  artifact_digest :: string
  state_branch_id :: string
  capability_snapshot :: json_obj
  result :: json_obj
  previous_event_hash :: "string option"
  event_hash :: string
  signature :: string
  signature_scheme :: string

definition EVENT_SCHEMA_VERSION :: string where
  "EVENT_SCHEMA_VERSION = ''originagent.evolution.event.v1''"

definition SOURCE_EVENT_STREAMS :: "string list" where
  "SOURCE_EVENT_STREAMS = [''evolution'', ''skill_lifecycle'', ''domain_pack'']"

definition EVENT_TYPES :: "string list" where
  "EVENT_TYPES = [''module_proposed'', ''module_manifest_validated'', ''module_installed_staging'',
     ''module_failed'', ''module_permission_checked'', ''module_verified'', ''module_activated'',
     ''module_deprecated'', ''state_branch_created'', ''state_branch_merged'', ''state_branch_discarded'',
     ''module_rollback_started'', ''module_rollback_succeeded'', ''module_rollback_failed'',
     ''dirty_rollback'', ''teardown_started'', ''teardown_succeeded'', ''teardown_failed'',
     ''module_force_clean_requested'', ''module_force_clean_succeeded'', ''external_side_effect_abandoned'',
     ''telemetry_recorded'', ''memory_vault_exported'', ''memory_vault_imported'', ''score_committed'',
     ''score_revealed'', ''unmapped'']"

text \<open>\<^verbatim>\<open>__post_init__\<close>: the first refusal, or \<open>None\<close>.\<close>

definition event_error :: "EvolutionEvent \<Rightarrow> string option" where
  "event_error e =
     (if schema_version e \<noteq> EVENT_SCHEMA_VERSION then Some (''unsupported schema_version: '' @ schema_version e)
      else if event_id e = [] then Some ''event_id is required''
      else if event_type e \<notin> set EVENT_TYPES then Some (''unsupported event_type: '' @ event_type e)
      else if created_at e = [] then Some ''created_at is required''
      else if source_event_stream e \<notin> set SOURCE_EVENT_STREAMS
      then Some (''unsupported source_event_stream: '' @ source_event_stream e)
      else None)"

definition new_event ::
    "string \<Rightarrow> string \<Rightarrow> string \<Rightarrow> string \<Rightarrow> string \<Rightarrow> string \<Rightarrow> string \<Rightarrow> string \<Rightarrow> json_obj \<Rightarrow> EvolutionEvent" where
  "new_event eid now etype who mid mversion mtype digest res =
     \<lparr>event_id = eid, event_type = etype, created_at = now, schema_version = EVENT_SCHEMA_VERSION,
      actor = who, actor_public_key = [], module_id = mid, module_version = mversion, module_type = mtype,
      source_event_stream = ''evolution'', source_event_id = [], artifact_digest = digest,
      state_branch_id = [], capability_snapshot = [], result = res, previous_event_hash = None,
      event_hash = [], signature = [], signature_scheme = ''ed25519''\<rparr>"

definition opt_json :: "string option \<Rightarrow> json" where
  "opt_json x = (case x of None \<Rightarrow> JNull | Some s \<Rightarrow> JStr s)"

definition event_to_dict :: "EvolutionEvent \<Rightarrow> json_obj" where
  "event_to_dict e =
     [(''event_id'', JStr (event_id e)), (''event_type'', JStr (event_type e)),
      (''created_at'', JStr (created_at e)), (''schema_version'', JStr (schema_version e)),
      (''actor'', JStr (actor e)), (''actor_public_key'', JStr (actor_public_key e)),
      (''module_id'', JStr (module_id e)), (''module_version'', JStr (module_version e)),
      (''module_type'', JStr (module_type e)), (''source_event_stream'', JStr (source_event_stream e)),
      (''source_event_id'', JStr (source_event_id e)), (''artifact_digest'', JStr (artifact_digest e)),
      (''state_branch_id'', JStr (state_branch_id e)),
      (''capability_snapshot'', JObj (capability_snapshot e)), (''result'', JObj (result e)),
      (''previous_event_hash'', opt_json (previous_event_hash e)), (''event_hash'', JStr (event_hash e)),
      (''signature'', JStr (signature e)), (''signature_scheme'', JStr (signature_scheme e))]"

text \<open>Event types of the older streams.\<close>

definition SKILL_ACTION_MAP :: "(string, string option) dict" where
  "SKILL_ACTION_MAP = [(''verify'', Some ''module_verified''), (''activate'', Some ''module_activated''),
     (''reject'', Some ''module_failed''), (''deprecate'', Some ''module_deprecated''),
     (''always_on'', None), (''always_off'', None)]"

definition DOMAIN_PACK_ACTION_MAP :: "(string, string option) dict" where
  "DOMAIN_PACK_ACTION_MAP = [(''install'', Some ''module_installed_staging''), (''upgrade'', None),
     (''uninstall'', None), (''enable'', None), (''disable'', None), (''activate'', Some ''module_activated''),
     (''deactivate'', Some ''module_deprecated''), (''eval'', Some ''module_verified''), (''move_to_domain'', None)]"

definition text_of :: "string \<Rightarrow> json_obj \<Rightarrow> string" where
  "text_of k d = (case dict_get d k of Some (JStr s) \<Rightarrow> s | _ \<Rightarrow> [])"

definition normalize_event_type :: "string \<Rightarrow> json_obj \<Rightarrow> string option" where
  "normalize_event_type stream raw =
     (let source = py_strip stream; action = py_lower (py_strip (text_of ''action'' raw)) in
      if source = ''evolution'' then
        (let t = text_of ''event_type'' raw in if t \<in> set EVENT_TYPES then Some t else None)
      else if source = ''skill_lifecycle'' then Option.bind (dict_get SKILL_ACTION_MAP action) id
      else if source = ''domain_pack'' then Option.bind (dict_get DOMAIN_PACK_ACTION_MAP action) id
      else None)"

section \<open>Hashing\<close>

definition canonical_dump :: "json_obj \<Rightarrow> string option" where
  "canonical_dump d = (if finite_json (JObj d) then Some (json_dumps (JObj d)) else None)"

definition event_payload :: "json_obj \<Rightarrow> json_obj" where
  "event_payload e = dict_del ''signature'' (dict_del ''event_hash'' e)"

definition compute_event_hash :: "(string \<Rightarrow> string) \<Rightarrow> json_obj \<Rightarrow> string option" where
  "compute_event_hash H e = map_option H (canonical_dump (event_payload e))"

section \<open>The file\<close>

datatype ledger_line = BlankLine | ObjectLine json_obj | OtherValue json | CorruptLine

type_synonym ledger_file = "ledger_line list"

definition field :: "string \<Rightarrow> json_obj \<Rightarrow> json" where
  "field k e = (case dict_get e k of Some j \<Rightarrow> j | None \<Rightarrow> JNull)"

datatype ledger_error = AttributeError | DecodeError | HashMissing | DumpError | IntegrityError | TypeError | InvalidEvent string

definition last_event_hash :: "ledger_file \<Rightarrow> ledger_error + string option" where
  "last_event_hash f =
     (case rev (filter (\<lambda>l. l \<noteq> BlankLine) f) of
        [] \<Rightarrow> Inr None
      | CorruptLine # _ \<Rightarrow> Inl DecodeError
      | OtherValue _ # _ \<Rightarrow> Inl AttributeError
      | ObjectLine e # _ \<Rightarrow> (case field ''event_hash'' e of
            JStr h \<Rightarrow> if h = [] then Inl HashMissing else Inr (Some h) | _ \<Rightarrow> Inl HashMissing)
      | BlankLine # _ \<Rightarrow> Inr None)"

text \<open>What \<^verbatim>\<open>json.loads\<close> reads back from the canonical line.\<close>

definition written :: "json_obj \<Rightarrow> ledger_line" where
  "written e = (case sort_keys (JObj e) of JObj kvs \<Rightarrow> ObjectLine kvs | j \<Rightarrow> OtherValue j)"

text \<open>An identity is a public key with its signing function; \<open>None\<close> when events are not signed.\<close>

type_synonym identity = "(string \<times> (string \<Rightarrow> string)) option"

definition event_with_previous :: "identity \<Rightarrow> EvolutionEvent \<Rightarrow> string option \<Rightarrow> EvolutionEvent" where
  "event_with_previous idn e prev = e\<lparr>actor_public_key := (case idn of Some (pk, _) \<Rightarrow> pk | None \<Rightarrow> actor_public_key e),
     previous_event_hash := prev, event_hash := [], signature := []\<rparr>"

definition append_event ::
    "(string \<Rightarrow> string) \<Rightarrow> identity \<Rightarrow> EvolutionEvent \<Rightarrow> ledger_file \<Rightarrow> ledger_file \<times> (ledger_error + EvolutionEvent)" where
  "append_event H idn e f =
     (case last_event_hash f of
        Inl err \<Rightarrow> (f, Inl err)
      | Inr prev \<Rightarrow>
          let e1 = event_with_previous idn e prev in
          (case event_error e1 of
             Some msg \<Rightarrow> (f, Inl (InvalidEvent msg))
           | None \<Rightarrow>
               (case compute_event_hash H (event_to_dict e1) of
                  None \<Rightarrow> (f, Inl DumpError)
                | Some h \<Rightarrow>
                    let e2 = e1\<lparr>event_hash := h\<rparr>;
                        e3 = (case idn of Some (_, sign) \<Rightarrow> e2\<lparr>signature := sign h\<rparr> | None \<Rightarrow> e2)
                    in (f @ [written (event_to_dict e3)], Inr e3))))"

record LedgerVerificationResult =
  lv_ok :: bool
  lv_count :: nat
  lv_terminal :: "string option"
  lv_broken_index :: "nat option"
  lv_broken_line :: "nat option"
  lv_expected :: "string option"
  lv_actual :: "json option"
  lv_error :: string
  lv_unsigned :: nat
  lv_invalid :: nat

definition verified_ok :: "nat \<Rightarrow> string option \<Rightarrow> nat \<Rightarrow> nat \<Rightarrow> LedgerVerificationResult" where
  "verified_ok n t u i = \<lparr>lv_ok = True, lv_count = n, lv_terminal = t, lv_broken_index = None,
     lv_broken_line = None, lv_expected = None, lv_actual = None, lv_error = [], lv_unsigned = u, lv_invalid = i\<rparr>"

definition mismatch ::
    "nat \<Rightarrow> string option \<Rightarrow> nat \<Rightarrow> string option \<Rightarrow> json \<Rightarrow> string \<Rightarrow> nat \<Rightarrow> nat \<Rightarrow> LedgerVerificationResult" where
  "mismatch n t line expd act err u i = \<lparr>lv_ok = False, lv_count = n, lv_terminal = t,
     lv_broken_index = Some (n - 1), lv_broken_line = Some line, lv_expected = expd, lv_actual = Some act,
     lv_error = err, lv_unsigned = u, lv_invalid = i\<rparr>"

text \<open>The \<^verbatim>\<open>except\<close> clause; the text of the exception is left out.\<close>

definition unreadable :: "nat \<Rightarrow> string option \<Rightarrow> nat \<Rightarrow> nat \<Rightarrow> LedgerVerificationResult" where
  "unreadable n t u i = \<lparr>lv_ok = False, lv_count = n, lv_terminal = t, lv_broken_index = Some n,
     lv_broken_line = Some (n + 1), lv_expected = None, lv_actual = None, lv_error = ''exception'',
     lv_unsigned = u, lv_invalid = i\<rparr>"

fun verify_loop ::
    "(string \<Rightarrow> string) \<Rightarrow> (json_obj \<Rightarrow> bool) option \<Rightarrow> ledger_file \<Rightarrow> nat \<Rightarrow> string option \<Rightarrow> nat \<Rightarrow> nat \<Rightarrow> nat
     \<Rightarrow> ledger_error + LedgerVerificationResult" where
  "verify_loop H sig [] line prev n u i = Inr (verified_ok n prev u i)"
| "verify_loop H sig (BlankLine # r) line prev n u i = verify_loop H sig r (line + 1) prev n u i"
| "verify_loop H sig (CorruptLine # r) line prev n u i = Inr (unreadable (n + 1) prev u i)"
| "verify_loop H sig (OtherValue j # r) line prev n u i = Inl AttributeError"
| "verify_loop H sig (ObjectLine e # r) line prev n u i =
     (if field ''previous_event_hash'' e \<noteq> opt_json prev
      then Inr (mismatch (n + 1) prev line prev (field ''previous_event_hash'' e) ''previous_event_hash mismatch'' u i)
      else case compute_event_hash H e of
          None \<Rightarrow> Inr (unreadable (n + 1) prev u i)
        | Some h \<Rightarrow>
            if field ''event_hash'' e \<noteq> JStr h
            then Inr (mismatch (n + 1) prev line (Some h) (field ''event_hash'' e) ''event_hash mismatch'' u i)
            else
              let signed = json_truthy (field ''signature'' e);
                  u1 = (if sig \<noteq> None \<and> \<not> signed then u + 1 else u);
                  i1 = (case sig of Some good \<Rightarrow> if signed \<and> \<not> good e then i + 1 else i | None \<Rightarrow> i)
              in verify_loop H sig r (line + 1) (Some h) (n + 1) u1 i1)"

text \<open>\<open>sig\<close> is the signature check when \<^verbatim>\<open>verify_signatures\<close> is set.\<close>

definition verify_chain ::
    "(string \<Rightarrow> string) \<Rightarrow> (json_obj \<Rightarrow> bool) option \<Rightarrow> ledger_file \<Rightarrow> ledger_error + LedgerVerificationResult" where
  "verify_chain H sig f = verify_loop H sig f 1 None 0 0 0"

record LedgerStatus =
  st_ok :: bool
  st_count :: nat
  st_terminal :: "string option"
  st_rotate :: bool

definition LEDGER_ROTATION_EVENT_THRESHOLD :: nat where
  "LEDGER_ROTATION_EVENT_THRESHOLD = 10000"

definition ledger_status ::
    "(string \<Rightarrow> string) \<Rightarrow> (json_obj \<Rightarrow> bool) option \<Rightarrow> ledger_file \<Rightarrow> ledger_error + LedgerStatus" where
  "ledger_status H sig f = map_sum id (\<lambda>v. \<lparr>st_ok = lv_ok v, st_count = lv_count v, st_terminal = lv_terminal v,
     st_rotate = (lv_count v > LEDGER_ROTATION_EVENT_THRESHOLD)\<rparr>) (verify_chain H sig f)"

section \<open>What a verified file is\<close>

text \<open>
  The specification: only blank lines and objects; each object names the hash of the one before it and
  carries its own hash.
\<close>

fun records :: "ledger_file \<Rightarrow> json_obj list" where
  "records [] = []"
| "records (ObjectLine e # r) = e # records r"
| "records (_ # r) = records r"

fun readable_line :: "ledger_line \<Rightarrow> bool" where
  "readable_line BlankLine = True"
| "readable_line (ObjectLine e) = True"
| "readable_line _ = False"

fun linked :: "(string \<Rightarrow> string) \<Rightarrow> string option \<Rightarrow> json_obj list \<Rightarrow> bool" where
  "linked H prev [] = True"
| "linked H prev (e # es) = (field ''previous_event_hash'' e = opt_json prev \<and>
     (case compute_event_hash H e of None \<Rightarrow> False
      | Some h \<Rightarrow> field ''event_hash'' e = JStr h \<and> linked H (Some h) es))"

definition terminal_hash :: "(string \<Rightarrow> string) \<Rightarrow> string option \<Rightarrow> json_obj list \<Rightarrow> string option" where
  "terminal_hash H prev es = (if es = [] then prev else compute_event_hash H (last es))"

definition good_chain :: "(string \<Rightarrow> string) \<Rightarrow> ledger_file \<Rightarrow> bool" where
  "good_chain H f = (list_all readable_line f \<and> linked H None (records f))"

lemma records_append [simp]: "records (f @ g) = records f @ records g"
  by (induction f rule: records.induct) auto

lemma linked_append:
  "linked H prev (es @ [e]) \<longleftrightarrow> linked H prev es \<and>
     field ''previous_event_hash'' e = opt_json (terminal_hash H prev es) \<and>
     (\<exists>h. compute_event_hash H e = Some h \<and> field ''event_hash'' e = JStr h)"
proof (induction es arbitrary: prev)
  case Nil
  then show ?case by (auto simp: terminal_hash_def split: option.splits)
next
  case (Cons a es)
  have "terminal_hash H (Some h) es = terminal_hash H prev (a # es)" if "compute_event_hash H a = Some h" for h
    using that by (cases es) (auto simp: terminal_hash_def)
  then show ?case using Cons by (auto split: option.splits)
qed

definition is_ok :: "ledger_error + LedgerVerificationResult \<Rightarrow> bool" where
  "is_ok r = (case r of Inl _ \<Rightarrow> False | Inr v \<Rightarrow> lv_ok v)"

lemma verify_loop_ok:
  "is_ok (verify_loop H sig f line prev n u i) \<longleftrightarrow> list_all readable_line f \<and> linked H prev (records f)"
  by (induction H sig f line prev n u i rule: verify_loop.induct)
     (auto simp: is_ok_def verified_ok_def mismatch_def unreadable_def Let_def split: option.splits)

lemma verify_loop_result:
  "list_all readable_line f \<Longrightarrow> linked H prev (records f) \<Longrightarrow>
   \<exists>u' i'. verify_loop H sig f line prev n u i =
     Inr (verified_ok (n + length (records f)) (terminal_hash H prev (records f)) u' i')"
proof (induction H sig f line prev n u i rule: verify_loop.induct)
  case (5 H sig e r line prev n u i)
  then obtain h where h: "compute_event_hash H e = Some h" "field ''event_hash'' e = JStr h"
      "linked H (Some h) (records r)" "field ''previous_event_hash'' e = opt_json prev"
    by (auto split: option.splits)
  have t: "terminal_hash H (Some h) (records r) = terminal_hash H prev (e # records r)"
    using h(1) by (cases "records r") (auto simp: terminal_hash_def)
  from 5 h show ?case by (auto simp: t [symmetric] Let_def)
qed (auto simp: terminal_hash_def)

text \<open>
  Verification says ok exactly for the files in which every line is blank or an object, every object
  names the hash of the object before it (the first one none) and carries the hash of its own canonical
  payload. It then reports the number of objects and the last hash.
\<close>

theorem verify_chain_exact:
  "is_ok (verify_chain H sig f) = good_chain H f \<and>
   (good_chain H f \<longrightarrow> (\<exists>u i. verify_chain H sig f =
      Inr (verified_ok (length (records f)) (terminal_hash H None (records f)) u i)))"
  using verify_loop_ok [of H sig f] verify_loop_result [of f H None sig 1 0]
  by (auto simp: verify_chain_def good_chain_def)

section \<open>Appending\<close>

lemma map_of_insort: "map_of (insort_key fst x xs) = map_of (x # xs)"
  by (induction xs) (auto simp: fun_eq_iff)

lemma map_of_sort: "map_of (sort_key fst xs) = map_of xs"
proof (induction xs)
  case (Cons a xs)
  then show ?case by (cases a) (simp add: map_of_insort)
qed simp

lemma sorted_field:
  assumes "sort_keys (JObj e) = JObj e'"
  shows "dict_get e' k = map_option sort_keys (dict_get e k)"
proof -
  have e': "e' = sort_key fst (map (apsnd sort_keys) e)" using assms by (simp add: items_as_maps)
  have "map_of (map (apsnd sort_keys) e) k = map_option sort_keys (map_of e k)" by (induction e) auto
  then show ?thesis by (simp add: e' map_of_sort)
qed

lemma sort_keys_del:
  assumes "sort_keys (JObj e) = JObj e'"
  shows "sort_keys (JObj (dict_del k e)) = JObj (dict_del k e')"
proof -
  have "map (apsnd sort_keys) (dict_del k e) = dict_del k (map (apsnd sort_keys) e)"
    by (induction e) auto
  then show ?thesis using assms
    by (auto simp: items_as_maps AList.delete_eq filter_sort)
qed

lemma finite_sort_keys: "finite_json (sort_keys j) = finite_json j"
proof (induction j)
  case (JList vs)
  then show ?case by (auto simp: values_as_maps list_all_iff)
next
  case (JObj kvs)
  then show ?case by (force simp: items_as_maps list_all_iff)
qed auto

lemma written_object: "\<exists>e'. written e = ObjectLine e' \<and> sort_keys (JObj e) = JObj e'"
  by (simp add: written_def)

lemma compute_hash_sorted:
  assumes "sort_keys (JObj e) = JObj e'"
  shows "compute_event_hash H e' = compute_event_hash H e"
proof -
  have "sort_keys (JObj (event_payload e)) = JObj (event_payload e')"
    unfolding event_payload_def by (intro sort_keys_del assms)
  then have "json_dumps (JObj (event_payload e')) = json_dumps (JObj (event_payload e))"
    "finite_json (JObj (event_payload e')) = finite_json (JObj (event_payload e))"
    by (metis dumps_sorted, metis finite_sort_keys)
  then show ?thesis by (simp add: compute_event_hash_def canonical_dump_def)
qed

text \<open>
  The canonical text decides equality of records: two dumpable objects have the same canonical text
  exactly when they are equal up to the order of the keys at every depth; an object with a float that is
  not finite has none; and the record read back from a written line has the text and the hash of the
  record that was written.
\<close>

theorem canonical_dump_decides:
  "(\<forall>c. canonical_dump d = Some c \<longrightarrow>
      (canonical_dump e = Some c \<longleftrightarrow> finite_json (JObj e) \<and> sort_keys (JObj d) = sort_keys (JObj e))) \<and>
   (canonical_dump d = None \<longleftrightarrow> \<not> finite_json (JObj d)) \<and>
   (\<exists>d'. written d = ObjectLine d' \<and> canonical_dump d' = canonical_dump d \<and>
      compute_event_hash H d' = compute_event_hash H d)"
proof -
  obtain d' where d': "written d = ObjectLine d'" "sort_keys (JObj d) = JObj d'" using written_object by blast
  have "canonical_dump d' = canonical_dump d"
    using finite_sort_keys [of "JObj d"] dumps_sorted [of "JObj d"] by (simp only: canonical_dump_def d'(2))
  moreover have "compute_event_hash H d' = compute_event_hash H d" using d'(2) by (rule compute_hash_sorted)
  moreover have "canonical_dump e = Some c \<longleftrightarrow> finite_json (JObj e) \<and> sort_keys (JObj d) = sort_keys (JObj e)"
    if "canonical_dump d = Some c" for c
    using that same_text [of "JObj d" "JObj e"] by (auto simp: canonical_dump_def simp del: json_dumps.simps sort_keys.simps finite_json.simps split: if_splits)
  ultimately show ?thesis using d'(1) by (auto simp: canonical_dump_def simp del: json_dumps.simps sort_keys.simps finite_json.simps)
qed

theorem canonical_dump_decides_witness:
  "canonical_dump [(''b'', JInt 1), (''a'', JStr [CHR 0x22])] = canonical_dump [(''a'', JStr [CHR 0x22]), (''b'', JInt 1)]"
proof -
  let ?d = "[(''b'', JInt 1), (''a'', JStr [CHR 0x22])]" and ?e = "[(''a'', JStr [CHR 0x22]), (''b'', JInt 1)]"
  have "sort_keys (JObj ?d) = sort_keys (JObj ?e)" "finite_json (JObj ?d)" "finite_json (JObj ?e)" by code_simp+
  with canonical_dump_decides [of ?d ?e] show ?thesis by (metis not_None_eq)
qed

lemma readable_nonblank:
  "list_all readable_line f \<Longrightarrow> filter (\<lambda>l. l \<noteq> BlankLine) f = map ObjectLine (records f)"
  by (induction f rule: records.induct) auto

lemma linked_last:
  "linked H prev es \<Longrightarrow> es \<noteq> [] \<Longrightarrow>
   \<exists>h. compute_event_hash H (last es) = Some h \<and> field ''event_hash'' (last es) = JStr h"
  by (induction es rule: rev_induct) (auto simp: linked_append)

definition proper_hash :: "(string \<Rightarrow> string) \<Rightarrow> bool" where
  "proper_hash H = (\<forall>x. H x \<noteq> [])"

lemma hash_not_empty: "proper_hash H \<Longrightarrow> compute_event_hash H e = Some h \<Longrightarrow> h \<noteq> []"
  by (auto simp: compute_event_hash_def proper_hash_def)

lemma last_hash_good:
  assumes "proper_hash H" and "good_chain H f"
  shows "last_event_hash f = Inr (terminal_hash H None (records f))"
proof -
  from assms(2) have nb: "filter (\<lambda>l. l \<noteq> BlankLine) f = map ObjectLine (records f)"
    and l: "linked H None (records f)" by (simp_all add: good_chain_def readable_nonblank)
  show ?thesis
  proof (cases "records f" rule: rev_exhaust)
    case Nil
    then show ?thesis using nb by (simp add: last_event_hash_def terminal_hash_def)
  next
    case (snoc es e)
    with linked_last [OF l] obtain h where h: "compute_event_hash H e = Some h" "field ''event_hash'' e = JStr h"
      by auto
    with hash_not_empty [OF assms(1) h(1)] nb snoc show ?thesis
      by (simp add: last_event_hash_def terminal_hash_def)
  qed
qed

lemma error_with_previous: "event_error (event_with_previous idn e prev) = event_error e"
  by (simp add: event_error_def event_with_previous_def)

lemma finite_event: "finite_json (JObj (event_to_dict e)) =
    (finite_json (JObj (capability_snapshot e)) \<and> finite_json (JObj (result e)))"
  by (simp add: event_to_dict_def opt_json_def split: option.splits)

lemma payload_event:
  "event_payload (event_to_dict (e\<lparr>event_hash := h, signature := s\<rparr>)) = event_payload (event_to_dict e)"
  by (simp add: event_payload_def event_to_dict_def)

lemma finite_payload: "finite_json (JObj (event_payload (event_to_dict e))) = finite_json (JObj (event_to_dict e))"
  by (simp add: event_payload_def event_to_dict_def)

lemma hash_of_event:
  "compute_event_hash H (event_to_dict (e\<lparr>event_hash := h, signature := s\<rparr>)) = compute_event_hash H (event_to_dict e)"
  by (simp add: compute_event_hash_def payload_event)

text \<open>The event that an append writes after the file \<open>f\<close>, with signature \<open>s\<close>.\<close>

definition sealed :: "(string \<Rightarrow> string) \<Rightarrow> identity \<Rightarrow> EvolutionEvent \<Rightarrow> ledger_file \<Rightarrow> EvolutionEvent" where
  "sealed H idn e f =
     (let e1 = event_with_previous idn e (terminal_hash H None (records f));
          h = H (json_dumps (JObj (event_payload (event_to_dict e1))))
      in e1\<lparr>event_hash := h, signature := (case idn of Some (_, sign) \<Rightarrow> sign h | None \<Rightarrow> [])\<rparr>)"

definition appendable :: "EvolutionEvent \<Rightarrow> bool" where
  "appendable e = (event_error e = None \<and> finite_json (JObj (event_to_dict e)))"

lemma blank_signature:
  "(event_with_previous idn e p)\<lparr>event_hash := h, signature := []\<rparr> = (event_with_previous idn e p)\<lparr>event_hash := h\<rparr>"
  by (simp add: event_with_previous_def)

lemma append_event_good:
  assumes "proper_hash H" and "good_chain H f"
  shows "appendable e \<Longrightarrow> append_event H idn e f = (f @ [written (event_to_dict (sealed H idn e f))], Inr (sealed H idn e f))"
    and "\<not> appendable e \<Longrightarrow> fst (append_event H idn e f) = f \<and> (\<exists>err. snd (append_event H idn e f) = Inl err)"
proof -
  let ?e1 = "event_with_previous idn e (terminal_hash H None (records f))"
  have fin: "finite_json (JObj (event_payload (event_to_dict ?e1))) = finite_json (JObj (event_to_dict e))"
    by (simp only: finite_payload finite_event) (simp add: event_with_previous_def)
  have hash: "compute_event_hash H (event_to_dict ?e1) =
      (if finite_json (JObj (event_to_dict e)) then Some (H (json_dumps (JObj (event_payload (event_to_dict ?e1))))) else None)"
    by (simp only: compute_event_hash_def canonical_dump_def fin) simp
  show "append_event H idn e f = (f @ [written (event_to_dict (sealed H idn e f))], Inr (sealed H idn e f))" if "appendable e"
    using that
    by (simp add: append_event_def last_hash_good [OF assms] error_with_previous appendable_def hash
        del: finite_json.simps json_dumps.simps)
       (cases idn; simp add: sealed_def Let_def blank_signature case_prod_beta del: json_dumps.simps)
  show "fst (append_event H idn e f) = f \<and> (\<exists>err. snd (append_event H idn e f) = Inl err)" if "\<not> appendable e"
    using that
    by (auto simp: append_event_def last_hash_good [OF assms] error_with_previous appendable_def hash Let_def
        simp del: finite_json.simps json_dumps.simps split: option.splits)
qed

lemma sealed_links:
  assumes "appendable e" and "written (event_to_dict (sealed H idn e f)) = ObjectLine r"
  shows "field ''previous_event_hash'' r = opt_json (terminal_hash H None (records f))"
    and "compute_event_hash H r = Some (event_hash (sealed H idn e f))"
    and "field ''event_hash'' r = JStr (event_hash (sealed H idn e f))"
proof -
  let ?e1 = "event_with_previous idn e (terminal_hash H None (records f))"
  let ?s = "sealed H idn e f"
  have r: "sort_keys (JObj (event_to_dict ?s)) = JObj r" using assms(2) written_object [of "event_to_dict ?s"] by auto
  have g: "field k r = sort_keys (field k (event_to_dict ?s))" for k
    using sorted_field [OF r, of k] by (auto simp: field_def split: option.splits)
  have "previous_event_hash ?s = terminal_hash H None (records f)"
    by (simp add: sealed_def Let_def event_with_previous_def)
  moreover have "field ''previous_event_hash'' (event_to_dict ?s) = opt_json (previous_event_hash ?s)"
    by (simp add: field_def event_to_dict_def)
  ultimately show "field ''previous_event_hash'' r = opt_json (terminal_hash H None (records f))"
    unfolding g by (simp add: opt_json_def split: option.splits)
  have "field ''event_hash'' (event_to_dict ?s) = JStr (event_hash ?s)"
    by (simp add: field_def event_to_dict_def)
  then show "field ''event_hash'' r = JStr (event_hash ?s)" unfolding g by simp
  have "finite_json (JObj (event_payload (event_to_dict ?e1)))"
    using assms(1) by (simp only: finite_payload finite_event appendable_def) (simp add: event_with_previous_def)
  then have "compute_event_hash H (event_to_dict ?e1) = Some (H (json_dumps (JObj (event_payload (event_to_dict ?e1)))))"
    by (simp only: compute_event_hash_def canonical_dump_def) simp
  moreover have "compute_event_hash H (event_to_dict ?s) = compute_event_hash H (event_to_dict ?e1)"
    unfolding sealed_def Let_def by (rule hash_of_event)
  ultimately show "compute_event_hash H r = Some (event_hash ?s)"
    unfolding compute_hash_sorted [OF r] by (simp add: sealed_def Let_def)
qed

lemma append_good:
  assumes "proper_hash H" and "good_chain H f"
  shows "good_chain H (fst (append_event H idn e f))"
proof (cases "appendable e")
  case False
  with append_event_good(2) [OF assms False] assms show ?thesis by auto
next
  case True
  obtain r where r: "written (event_to_dict (sealed H idn e f)) = ObjectLine r" using written_object by blast
  from append_event_good(1) [OF assms True] r sealed_links [OF True r] assms(2)
  show ?thesis by (simp add: good_chain_def linked_append)
qed

text \<open>The record an append adds names the event's type, module and artifact.\<close>

lemma appended_record:
  assumes "proper_hash H" and "good_chain H f" and "appendable e"
  obtains r where "append_event H idn e f = (f @ [ObjectLine r], Inr (sealed H idn e f))"
    "field ''event_type'' r = JStr (event_type e)" "field ''artifact_digest'' r = JStr (artifact_digest e)"
    "field ''module_id'' r = JStr (module_id e)"
proof -
  let ?s = "sealed H idn e f"
  obtain r where w: "written (event_to_dict ?s) = ObjectLine r" and r: "sort_keys (JObj (event_to_dict ?s)) = JObj r"
    using written_object by blast
  have g: "field k r = sort_keys (field k (event_to_dict ?s))" for k
    using sorted_field [OF r, of k] by (auto simp: field_def split: option.splits)
  have "field ''event_type'' (event_to_dict ?s) = JStr (event_type e)"
    "field ''artifact_digest'' (event_to_dict ?s) = JStr (artifact_digest e)"
    "field ''module_id'' (event_to_dict ?s) = JStr (module_id e)"
    by (simp_all add: field_def event_to_dict_def sealed_def Let_def event_with_previous_def)
  then have "field ''event_type'' r = JStr (event_type e)" "field ''artifact_digest'' r = JStr (artifact_digest e)"
    "field ''module_id'' r = JStr (module_id e)"
    by (simp_all add: g)
  with append_event_good(1) [OF assms] w show thesis by (intro that) simp_all
qed

text \<open>Appending from an empty file, with any identities: the invariant of every ledger the program writes.\<close>

type_synonym hashed_ledger = "(string \<Rightarrow> string) \<times> ledger_file"

inductive ledger_step :: "hashed_ledger \<Rightarrow> hashed_ledger \<Rightarrow> bool" where
  ledger_append: "ledger_step (H, f) (H, fst (append_event H idn e f))"

inductive_cases ledger_step_elim: "ledger_step s t"

definition ledger_start :: "hashed_ledger \<Rightarrow> bool" where
  "ledger_start s = (proper_hash (fst s) \<and> snd s = [])"

definition ledger_inv :: "hashed_ledger \<Rightarrow> bool" where
  "ledger_inv s = (proper_hash (fst s) \<and> good_chain (fst s) (snd s))"

interpretation ledger: safe_system ledger_start ledger_step ledger_inv
proof unfold_locales
  fix s assume "ledger_start s"
  then show "ledger_inv s" by (simp add: ledger_start_def ledger_inv_def good_chain_def)
next
  fix s t assume "ledger_inv s" "ledger_step s t"
  then show "ledger_inv t" by (auto elim!: ledger_step_elim simp: ledger_inv_def intro: append_good)
qed

lemma ledger_steps_hash: "ledger_step\<^sup>*\<^sup>* s t \<Longrightarrow> fst t = fst s"
  by (induction rule: rtranclp_induct) (auto elim: ledger_step_elim)

text \<open>
  Every ledger that appends build from an empty file verifies. The next append writes one line and
  changes no other; it succeeds exactly for a valid event without non-finite floats; the event then
  names the last hash, its own hash is the new terminal hash, and nothing but the hashes, the signature
  and the key differ from the event handed in.
\<close>

theorem append_extends_chain:
  assumes "proper_hash H" and "ledger_step\<^sup>*\<^sup>* (H, []) (H, f)" and "append_event H idn e f = (f', r)"
  shows "is_ok (verify_chain H sig f') \<and>
    (\<not> appendable e \<longrightarrow> f' = f \<and> (\<exists>err. r = Inl err)) \<and>
    (appendable e \<longrightarrow> (\<exists>e' line. r = Inr e' \<and> f' = f @ [line] \<and> line = written (event_to_dict e') \<and>
       previous_event_hash e' = terminal_hash H None (records f) \<and>
       Some (event_hash e') = terminal_hash H None (records f') \<and>
       e' = e\<lparr>actor_public_key := actor_public_key e', previous_event_hash := previous_event_hash e',
              event_hash := event_hash e', signature := signature e'\<rparr>))"
proof -
  have "ledger_start (H, [])" using assms(1) by (simp add: ledger_start_def)
  from ledger.reachable_inv [OF this assms(2)] have good: "good_chain H f" by (simp add: ledger_inv_def)
  have f': "f' = fst (append_event H idn e f)" "r = snd (append_event H idn e f)" using assms(3) by simp_all
  have "is_ok (verify_chain H sig f')"
    using append_good [OF assms(1) good, of idn e] verify_loop_ok by (simp add: f' verify_chain_def good_chain_def)
  moreover have "f' = f \<and> (\<exists>err. r = Inl err)" if "\<not> appendable e"
    using append_event_good(2) [OF assms(1) good that] f' by simp
  moreover have "\<exists>e' line. r = Inr e' \<and> f' = f @ [line] \<and> line = written (event_to_dict e') \<and>
       previous_event_hash e' = terminal_hash H None (records f) \<and>
       Some (event_hash e') = terminal_hash H None (records f') \<and>
       e' = e\<lparr>actor_public_key := actor_public_key e', previous_event_hash := previous_event_hash e',
              event_hash := event_hash e', signature := signature e'\<rparr>" if a: "appendable e"
  proof -
    let ?e' = "sealed H idn e f"
    obtain l where l: "written (event_to_dict ?e') = ObjectLine l" using written_object by blast
    have r: "r = Inr ?e'" "f' = f @ [written (event_to_dict ?e')]"
      using append_event_good(1) [OF assms(1) good a] f' by simp_all
    have "terminal_hash H None (records f') = Some (event_hash ?e')"
      using sealed_links(2) [OF a l] by (simp add: r(2) l terminal_hash_def)
    moreover have "previous_event_hash ?e' = terminal_hash H None (records f)"
      by (simp add: sealed_def Let_def event_with_previous_def)
    moreover have "?e' = e\<lparr>actor_public_key := actor_public_key ?e', previous_event_hash := previous_event_hash ?e',
              event_hash := event_hash ?e', signature := signature ?e'\<rparr>"
      by (simp add: sealed_def Let_def event_with_previous_def)
    ultimately show ?thesis using r
      by (intro exI [of _ ?e'] exI [of _ "written (event_to_dict ?e')"] conjI) (assumption | rule refl | rule sym)+
  qed
  ultimately show ?thesis by blast
qed

definition toy_hash :: "string \<Rightarrow> string" where
  "toy_hash t = CHR ''#'' # t"

definition example_event :: EvolutionEvent where
  "example_event = new_event ''evolution_1'' ''2026-01-01'' ''module_proposed'' ''user'' ''m'' ''1'' ''skill'' ''d'' []"

lemma toy_proper: "proper_hash toy_hash"
  by (simp add: proper_hash_def toy_hash_def)

theorem append_extends_chain_witness:
  "is_ok (verify_chain toy_hash None (fst (append_event toy_hash None example_event []))) \<and>
   (\<exists>e'. snd (append_event toy_hash None example_event []) = Inr e' \<and> previous_event_hash e' = None)"
proof -
  have a: "appendable example_event" by code_simp
  obtain f' r where fr: "append_event toy_hash None example_event [] = (f', r)" by (rule prod.exhaust)
  from append_extends_chain [OF toy_proper rtranclp.rtrancl_refl fr, of None] a
  have "is_ok (verify_chain toy_hash None f')" "\<exists>e'. r = Inr e' \<and> previous_event_hash e' = terminal_hash toy_hash None (records [])"
    by blast+
  with fr show ?thesis by (simp add: terminal_hash_def)
qed

theorem verify_chain_exact_witness:
  "is_ok (verify_chain toy_hash None [BlankLine])"
proof -
  have "good_chain toy_hash [BlankLine]" by code_simp
  with verify_chain_exact [of toy_hash None "[BlankLine]"] show ?thesis by blast
qed

section \<open>Tampering\<close>













text \<open>
  Cutting records off the end is not detected by the chain itself, and a line that holds a value other
  than an object makes the verification raise instead of reporting a broken chain.
\<close>

lemma truncation_verifies: "is_ok (verify_chain H sig (f @ g)) \<Longrightarrow> is_ok (verify_chain H sig f)"
proof -
  have l: "linked H p (es @ ds) \<Longrightarrow> linked H p es" for p es ds
    by (induction es arbitrary: p) (auto split: option.splits)
  show "is_ok (verify_chain H sig (f @ g)) \<Longrightarrow> ?thesis"
    using l [of None "records f" "records g"] by (simp add: verify_chain_def verify_loop_ok)
qed

lemma non_object_line_raises: "verify_chain H sig (OtherValue j # f) = Inl AttributeError"
  by (simp add: verify_chain_def)

end
