(* ===== verification/SkillLifecycle.thy ===== *)
theory SkillLifecycle
  imports Payload "HOL-Library.Sublist"
begin

text \<open>
  The life cycle of workspace skills: \<^verbatim>\<open>OriginAgent/agent/skill_lifecycle.py\<close>. The store is the
  skill files, by name, and the events of the log, oldest first (blank and unreadable lines of the log
  are skipped by the code, so they are left out). A skill file is its front matter, as YAML reads it,
  and its body; writing it back and reading it again is the identity. \<open>clean\<close> is the redaction and
  truncation of texts (\<^verbatim>\<open>_clean\<close>), a parameter.
\<close>

section \<open>Skill files and records\<close>

record SkillFile =
  sk_frontmatter :: json_obj
  sk_body :: string

record SkillState =
  ss_lifecycle :: string
  ss_verification :: string
  ss_always :: bool
  ss_effective :: bool

record SkillEvent =
  se_event_id :: string
  se_skill_name :: string
  se_action :: string
  se_created_at :: string
  se_reason :: string
  se_actor :: string
  se_previous :: SkillState
  se_next :: SkillState

record SkillStore =
  sks_files :: "(string, SkillFile) dict"
  sks_events :: "SkillEvent list"

definition LEGACY_METADATA_KEY :: string where "LEGACY_METADATA_KEY = ''openclaw''"
definition ORIGINAGENT_METADATA_KEY :: string where "ORIGINAGENT_METADATA_KEY = ''OriginAgent''"

text \<open>A metadata entry that is JSON text is not modelled: YAML gives a mapping.\<close>

definition read_originagent_metadata :: "json option \<Rightarrow> json_obj" where
  "read_originagent_metadata raw =
     (case raw of
        Some (JObj d) \<Rightarrow>
          (case dict_get d ORIGINAGENT_METADATA_KEY of
             Some (JObj m) \<Rightarrow> m
           | _ \<Rightarrow> (case dict_get d LEGACY_METADATA_KEY of Some (JObj m) \<Rightarrow> m | _ \<Rightarrow> []))
      | _ \<Rightarrow> [])"

definition set_originagent_metadata :: "json option \<Rightarrow> json_obj \<Rightarrow> json_obj" where
  "set_originagent_metadata raw m =
     dict_set ORIGINAGENT_METADATA_KEY (JObj m) (case raw of Some (JObj d) \<Rightarrow> d | _ \<Rightarrow> [])"

definition metadata_originagent :: "json_obj \<Rightarrow> json_obj" where
  "metadata_originagent fm = read_originagent_metadata (dict_get fm ''metadata'')"

definition derive_status :: "string \<Rightarrow> json_obj \<Rightarrow> string \<times> string" where
  "derive_status source m =
     (let verification = str_field ''verification_status'' ''unknown'' m;
          lifecycle = str_field ''lifecycle_status'' [] m
      in if lifecycle \<noteq> [] then (lifecycle, verification)
         else if source \<noteq> ''workspace'' then (''active'', verification)
         else if dict_get m ''created_by'' = Some (JStr ''background_review'') \<and> verification = ''unverified''
         then (''proposed'', verification)
         else (''active'', verification))"

definition effective_always :: "string \<Rightarrow> string \<Rightarrow> string \<Rightarrow> bool \<Rightarrow> bool" where
  "effective_always source lifecycle verification always =
     (if \<not> always then False
      else if source \<noteq> ''workspace'' then True
      else if lifecycle \<in> {''proposed'', ''deprecated'', ''rejected''} then False
      else verification \<noteq> ''unverified'')"

text \<open>
  \<^verbatim>\<open>decorate_entry\<close>, its status part: the latest event overrides the file. A snapshot in an event
  always has its four fields.
\<close>

definition decorate_entry :: "string \<Rightarrow> SkillFile \<Rightarrow> SkillEvent option \<Rightarrow> SkillState" where
  "decorate_entry source sk latest =
     (let m = metadata_originagent (sk_frontmatter sk);
          (lifecycle0, verification0) = derive_status source m;
          lifecycle = (case latest of Some e \<Rightarrow> str_or (ss_lifecycle (se_next e)) lifecycle0 | None \<Rightarrow> lifecycle0);
          verification = (case latest of Some e \<Rightarrow> str_or (ss_verification (se_next e)) verification0 | None \<Rightarrow> verification0);
          always0 = (truthy_field ''always'' (sk_frontmatter sk) \<or> truthy_field ''always'' m);
          always = (case latest of Some e \<Rightarrow> ss_always (se_next e) | None \<Rightarrow> always0)
      in \<lparr>ss_lifecycle = lifecycle, ss_verification = verification, ss_always = always,
          ss_effective = effective_always source lifecycle verification always\<rparr>)"

definition latest_event :: "string \<Rightarrow> SkillEvent list \<Rightarrow> SkillEvent option" where
  "latest_event name es = List.find (\<lambda>e. se_skill_name e = name) (rev es)"

definition current_state :: "string \<Rightarrow> SkillStore \<Rightarrow> SkillState option" where
  "current_state name s =
     map_option (\<lambda>sk. decorate_entry ''workspace'' sk (if name = [] then None else latest_event name (sks_events s)))
       (dict_get (sks_files s) name)"

record SkillActions =
  can_verify :: bool
  can_activate :: bool
  can_deprecate :: bool
  can_reject :: bool
  can_toggle_always :: bool

definition action_capabilities :: "string \<Rightarrow> SkillState \<Rightarrow> SkillActions" where
  "action_capabilities source r =
     (if source \<noteq> ''workspace''
      then \<lparr>can_verify = False, can_activate = False, can_deprecate = False, can_reject = False, can_toggle_always = False\<rparr>
      else \<lparr>can_verify = (ss_lifecycle r = ''proposed'' \<and> ss_verification r \<noteq> ''verified''),
            can_activate = (ss_lifecycle r = ''proposed'' \<and> ss_verification r = ''verified''),
            can_deprecate = (ss_lifecycle r \<notin> {''deprecated'', ''rejected''}),
            can_reject = (ss_lifecycle r = ''proposed''),
            can_toggle_always = (ss_always r \<or> (ss_lifecycle r = ''active'' \<and> ss_verification r = ''verified''))\<rparr>)"

section \<open>Transitions\<close>

datatype skill_target =
    Refused string string
  | AlreadyThere string
  | GoTo string string string "bool option"

definition terminal_refusal :: "string \<Rightarrow> skill_target" where
  "terminal_refusal lifecycle = Refused ''terminal_status'' (''Skill is already '' @ lifecycle @ ''.'')"

definition target_state :: "SkillState \<Rightarrow> string \<Rightarrow> bool \<Rightarrow> skill_target" where
  "target_state r act enabled =
     (let lifecycle = ss_lifecycle r; verification = ss_verification r in
      if act = ''verify'' then
        (if lifecycle \<in> {''deprecated'', ''rejected''} then terminal_refusal lifecycle
         else if lifecycle \<noteq> ''proposed'' then Refused ''invalid_transition'' ''Only proposed skills can be verified.''
         else if verification = ''verified'' then AlreadyThere ''Skill is already verified.''
         else GoTo ''Skill verified.'' ''proposed'' ''verified'' None)
      else if act = ''activate'' then
        (if lifecycle = ''active'' \<and> verification = ''verified'' then AlreadyThere ''Skill is already active.''
         else if lifecycle \<in> {''deprecated'', ''rejected''} then terminal_refusal lifecycle
         else if lifecycle \<noteq> ''proposed'' \<or> verification \<noteq> ''verified''
         then Refused ''invalid_transition'' ''Only verified proposed skills can be activated.''
         else GoTo ''Skill activated.'' ''active'' ''verified'' None)
      else if act = ''reject'' then
        (if lifecycle = ''rejected'' then AlreadyThere ''Skill is already rejected.''
         else if lifecycle \<noteq> ''proposed'' then Refused ''invalid_transition'' ''Only proposed skills can be rejected.''
         else GoTo ''Skill rejected.'' ''rejected'' ''rejected'' None)
      else if act = ''deprecate'' then
        (if lifecycle = ''deprecated'' then AlreadyThere ''Skill is already deprecated.''
         else if lifecycle = ''rejected'' then Refused ''terminal_status'' ''Rejected skills cannot be deprecated.''
         else GoTo ''Skill deprecated.'' ''deprecated'' verification None)
      else if act = ''always'' then
        (if enabled then
           (if lifecycle \<noteq> ''active'' \<or> verification \<noteq> ''verified''
            then Refused ''invalid_transition'' ''Only active verified workspace skills can be always loaded.''
            else if ss_always r then AlreadyThere ''Skill is already always loaded.''
            else GoTo ''Skill always loading enabled.'' lifecycle verification (Some True))
         else if \<not> ss_always r then AlreadyThere ''Skill is already not always loaded.''
         else GoTo ''Skill always loading disabled.'' lifecycle verification (Some False))
      else Refused ''unknown_action'' ''Unknown skill lifecycle action.'')"

definition safe_skill_char :: "char \<Rightarrow> bool" where
  "safe_skill_char c = (is_digit_char c \<or> (97 \<le> (of_char c :: nat) \<and> (of_char c :: nat) \<le> 122))"

text \<open>\<^verbatim>\<open>^[a-z0-9][a-z0-9-]{0,63}$\<close> matched in full.\<close>

definition is_safe_skill_name :: "string \<Rightarrow> bool" where
  "is_safe_skill_name name =
     (case name of [] \<Rightarrow> False
      | c # cs \<Rightarrow> safe_skill_char c \<and> list_all (\<lambda>d. safe_skill_char d \<or> d = CHR ''-'') cs \<and> length cs \<le> 63)"

record SkillResult =
  sr_name :: string
  sr_status :: string
  sr_action :: string
  sr_ok :: bool
  sr_message :: string
  sr_skill :: "SkillState option"
  sr_event :: "SkillEvent option"
  sr_error :: string

definition skill_failure :: "string \<Rightarrow> string \<Rightarrow> string \<Rightarrow> string \<Rightarrow> SkillState option \<Rightarrow> string \<Rightarrow> SkillResult" where
  "skill_failure name status act msg st err = \<lparr>sr_name = name, sr_status = status, sr_action = act,
     sr_ok = False, sr_message = msg, sr_skill = st, sr_event = None, sr_error = err\<rparr>"

definition updated_metadata ::
    "(string \<Rightarrow> nat \<Rightarrow> string) \<Rightarrow> string \<Rightarrow> string \<Rightarrow> string \<Rightarrow> string \<Rightarrow> string \<Rightarrow> bool option \<Rightarrow> json_obj \<Rightarrow> json_obj" where
  "updated_metadata clean lifecycle verification who now eid always m =
     (let m1 = dict_merge m
          [(''proposal_status'', JStr (clean (str_field ''proposal_status'' ''unknown'' m) 128)),
           (''verification_status'', JStr verification), (''lifecycle_status'', JStr lifecycle),
           (''version'', JStr (clean (str_field ''version'' ''1'' m) 128)),
           (''supersedes_skill'', JStr (clean (str_field ''supersedes_skill'' [] m) 128)),
           (''reviewed_by'', JStr who), (''reviewed_at'', JStr now), (''last_lifecycle_event_id'', JStr eid)]
      in case always of None \<Rightarrow> m1 | Some b \<Rightarrow> dict_set ''always'' (JBool b) m1)"

definition updated_frontmatter :: "string \<Rightarrow> bool option \<Rightarrow> json_obj \<Rightarrow> json_obj \<Rightarrow> json_obj" where
  "updated_frontmatter name always m fm =
     (let fm1 = (case always of None \<Rightarrow> fm | Some b \<Rightarrow> dict_set ''always'' (JBool b) fm);
          fm2 = dict_setdefault ''description'' (JStr name) (dict_setdefault ''name'' (JStr name) fm1)
      in dict_set ''metadata'' (JObj (set_originagent_metadata (dict_get fm2 ''metadata'') m)) fm2)"

definition event_action :: "string \<Rightarrow> bool option \<Rightarrow> string" where
  "event_action act always = (if act \<noteq> ''always'' then act else if always = Some True then ''always_on'' else ''always_off'')"

definition transition ::
    "(string \<Rightarrow> nat \<Rightarrow> string) \<Rightarrow> string \<Rightarrow> string \<Rightarrow> string \<Rightarrow> string \<Rightarrow> string \<Rightarrow> string \<Rightarrow> bool \<Rightarrow> SkillStore
     \<Rightarrow> SkillStore \<times> SkillResult" where
  "transition clean eid now name0 act0 why who enabled s =
     (let name = py_strip name0; act = py_lower (py_strip act0) in
      if \<not> is_safe_skill_name name
      then (s, skill_failure name ''missing'' act ''Skill name is invalid.'' None ''invalid_skill_name'')
      else case dict_get (sks_files s) name of
          None \<Rightarrow> (s, skill_failure name ''missing'' act ''Workspace skill was not found.'' None ''not_found'')
        | Some sk \<Rightarrow>
            let cur = decorate_entry ''workspace'' sk (latest_event name (sks_events s));
                status = str_or (ss_lifecycle cur) ''unknown''
            in case target_state cur act enabled of
                Refused err msg \<Rightarrow> (s, skill_failure name status act msg (Some cur) err)
              | AlreadyThere msg \<Rightarrow> (s, \<lparr>sr_name = name, sr_status = status, sr_action = act, sr_ok = True,
                   sr_message = msg, sr_skill = Some cur, sr_event = None, sr_error = []\<rparr>)
              | GoTo msg lifecycle verification always \<Rightarrow>
                  let m = updated_metadata clean lifecycle verification (clean who 128) now eid always
                            (metadata_originagent (sk_frontmatter sk));
                      sk1 = sk\<lparr>sk_frontmatter := updated_frontmatter name always m (sk_frontmatter sk)\<rparr>;
                      e = \<lparr>se_event_id = eid, se_skill_name = name, se_action = event_action act always,
                           se_created_at = now, se_reason = clean why 1000, se_actor = clean who 128,
                           se_previous = cur, se_next = decorate_entry ''workspace'' sk1 None\<rparr>;
                      after = decorate_entry ''workspace'' sk1 (Some e)
                  in (s\<lparr>sks_files := dict_set name sk1 (sks_files s), sks_events := sks_events s @ [e]\<rparr>,
                      \<lparr>sr_name = name, sr_status = str_or (ss_lifecycle after) ''unknown'', sr_action = act,
                       sr_ok = True, sr_message = msg, sr_skill = Some after, sr_event = Some e, sr_error = []\<rparr>))"

section \<open>Facts about files\<close>

lemma metadata_written [simp]:
  "metadata_originagent (updated_frontmatter name always m fm) = m"
  by (simp add: metadata_originagent_def updated_frontmatter_def Let_def set_originagent_metadata_def
      read_originagent_metadata_def dict_simps)

lemma always_written:
  "dict_get (updated_frontmatter name always m fm) ''always'' =
     (case always of None \<Rightarrow> dict_get fm ''always'' | Some b \<Rightarrow> Some (JBool b))"
  by (simp add: updated_frontmatter_def Let_def dict_simps split: option.splits)

lemma updated_metadata_get:
  "dict_get (updated_metadata clean l v who now eid always m) ''lifecycle_status'' = Some (JStr l)"
  "dict_get (updated_metadata clean l v who now eid always m) ''verification_status'' = Some (JStr v)"
  "dict_get (updated_metadata clean l v who now eid always m) ''always'' =
     (case always of None \<Rightarrow> dict_get m ''always'' | Some b \<Rightarrow> Some (JBool b))"
  by (simp_all add: updated_metadata_def Let_def dict_simps split: option.splits)

definition file_always :: "SkillFile \<Rightarrow> bool" where
  "file_always sk = (truthy_field ''always'' (sk_frontmatter sk) \<or>
     truthy_field ''always'' (metadata_originagent (sk_frontmatter sk)))"

definition skill_state :: "string \<Rightarrow> string \<Rightarrow> bool \<Rightarrow> SkillState" where
  "skill_state l v a = \<lparr>ss_lifecycle = l, ss_verification = v, ss_always = a,
     ss_effective = effective_always ''workspace'' l v a\<rparr>"

lemma decorate_written:
  fixes name always clean who now eid sk l v
  defines "sk1 \<equiv> sk\<lparr>sk_frontmatter := updated_frontmatter name always
      (updated_metadata clean l v who now eid always (metadata_originagent (sk_frontmatter sk))) (sk_frontmatter sk)\<rparr>"
  assumes "l \<noteq> []" and "v \<noteq> []"
  shows "decorate_entry ''workspace'' sk1 None =
    skill_state l v (case always of None \<Rightarrow> file_always sk | Some b \<Rightarrow> b)"
proof -
  have "derive_status ''workspace'' (metadata_originagent (sk_frontmatter sk1)) = (l, v)"
    using assms(2,3) by (simp add: sk1_def derive_status_def str_field_def updated_metadata_get py_str_def)
  moreover have "truthy_field ''always'' (sk_frontmatter sk1) \<or> truthy_field ''always'' (metadata_originagent (sk_frontmatter sk1))
      \<longleftrightarrow> (case always of None \<Rightarrow> file_always sk | Some b \<Rightarrow> b)"
    by (auto simp: sk1_def truthy_field_def updated_metadata_get always_written file_always_def split: option.splits)
  ultimately show ?thesis by (simp add: decorate_entry_def skill_state_def Let_def)
qed

lemma decorate_latest:
  "ss_lifecycle (se_next e) \<noteq> [] \<Longrightarrow> ss_verification (se_next e) \<noteq> [] \<Longrightarrow>
   decorate_entry ''workspace'' sk (Some e) =
     skill_state (ss_lifecycle (se_next e)) (ss_verification (se_next e)) (ss_always (se_next e))"
  by (simp add: decorate_entry_def Let_def str_or_def skill_state_def split: prod.splits)

lemma show_int_nonempty: "show_int i \<noteq> []"
  using parse_show_nat by (simp add: show_int_def)

lemma py_str_nonempty: "json_truthy j \<Longrightarrow> py_str j \<noteq> []"
  by (cases j) (simp_all add: py_str_def show_int_nonempty)

lemma str_field_nonempty: "dflt \<noteq> [] \<Longrightarrow> str_field k dflt d \<noteq> []"
  by (auto simp: str_field_def py_str_nonempty split: option.splits)

lemma decorate_file:
  "decorate_entry ''workspace'' sk None =
     (case derive_status ''workspace'' (metadata_originagent (sk_frontmatter sk)) of
        (l, v) \<Rightarrow> skill_state l v (file_always sk))"
  by (simp add: decorate_entry_def Let_def skill_state_def file_always_def split: prod.splits)

lemma decorate_nonempty:
  "ss_lifecycle (decorate_entry ''workspace'' sk None) \<noteq> [] \<and> ss_verification (decorate_entry ''workspace'' sk None) \<noteq> []"
  by (simp add: decorate_file derive_status_def Let_def skill_state_def str_field_nonempty)

lemma decorate_always: "ss_always (decorate_entry ''workspace'' sk None) = file_always sk"
  by (simp add: decorate_file skill_state_def split: prod.splits)

lemma decorate_effective:
  "ss_effective (decorate_entry ''workspace'' sk None) = effective_always ''workspace''
     (ss_lifecycle (decorate_entry ''workspace'' sk None)) (ss_verification (decorate_entry ''workspace'' sk None))
     (ss_always (decorate_entry ''workspace'' sk None))"
  by (simp add: decorate_file skill_state_def split: prod.splits)

lemma skill_state_eta:
  "skill_state (ss_lifecycle (decorate_entry ''workspace'' sk None)) (ss_verification (decorate_entry ''workspace'' sk None))
     (ss_always (decorate_entry ''workspace'' sk None)) = decorate_entry ''workspace'' sk None"
  by (simp add: decorate_file skill_state_def split: prod.splits)

section \<open>The decision table\<close>

text \<open>The files and the log agree: the last event of a skill records the state of its file.\<close>

definition file_matches :: "SkillStore \<Rightarrow> bool" where
  "file_matches s = (\<forall>n sk e. dict_get (sks_files s) n = Some sk \<longrightarrow> latest_event n (sks_events s) = Some e \<longrightarrow>
     se_next e = decorate_entry ''workspace'' sk None)"

lemma decorate_matching:
  assumes "file_matches s" and "dict_get (sks_files s) n = Some sk"
  shows "decorate_entry ''workspace'' sk (latest_event n (sks_events s)) = decorate_entry ''workspace'' sk None"
proof (cases "latest_event n (sks_events s)")
  case (Some e)
  with assms have "se_next e = decorate_entry ''workspace'' sk None" by (auto simp: file_matches_def)
  with decorate_latest [of e sk] decorate_nonempty [of sk] Some show ?thesis by (simp add: skill_state_eta)
qed simp

lemma current_matching:
  "file_matches s \<Longrightarrow> current_state n s = map_option (\<lambda>sk. decorate_entry ''workspace'' sk None) (dict_get (sks_files s) n)"
  by (cases "dict_get (sks_files s) n") (auto simp: current_state_def decorate_matching)

lemma latest_snoc: "latest_event n (es @ [e]) = (if se_skill_name e = n then Some e else latest_event n es)"
  by (simp add: latest_event_def)

definition next_state :: "SkillState \<Rightarrow> string \<Rightarrow> bool \<Rightarrow> SkillState option" where
  "next_state r act enabled = (case target_state r act enabled of
       Refused _ _ \<Rightarrow> None
     | AlreadyThere _ \<Rightarrow> Some r
     | GoTo _ l v a \<Rightarrow> Some (skill_state l v (case a of None \<Rightarrow> ss_always r | Some b \<Rightarrow> b)))"

lemma target_nonempty:
  "target_state r act enabled = GoTo msg l v a \<Longrightarrow> ss_lifecycle r \<noteq> [] \<Longrightarrow> ss_verification r \<noteq> [] \<Longrightarrow> l \<noteq> [] \<and> v \<noteq> []"
  by (auto simp: target_state_def terminal_refusal_def Let_def split: if_splits)

text \<open>An accepted change of state, in full.\<close>

lemma transition_goto:
  assumes m: "file_matches s" and n: "py_strip name0 = n" "py_lower (py_strip act0) = act" and safe: "is_safe_skill_name n"
    and sk: "dict_get (sks_files s) n = Some sk"
    and t: "target_state (decorate_entry ''workspace'' sk None) act enabled = GoTo msg l v a"
    and r: "transition clean eid now name0 act0 why who enabled s = (s', res)"
  obtains sk1 e where "s' = s\<lparr>sks_files := dict_set n sk1 (sks_files s), sks_events := sks_events s @ [e]\<rparr>"
    and "sr_ok res" "sr_event res = Some e" "se_skill_name e = n" "se_action e = event_action act a"
    and "decorate_entry ''workspace'' sk1 None = skill_state l v (case a of None \<Rightarrow> file_always sk | Some b \<Rightarrow> b)"
    and "se_next e = decorate_entry ''workspace'' sk1 None"
proof -
  let ?sk1 = "sk\<lparr>sk_frontmatter := updated_frontmatter n a
      (updated_metadata clean l v (clean who 128) now eid a (metadata_originagent (sk_frontmatter sk))) (sk_frontmatter sk)\<rparr>"
  let ?e = "\<lparr>se_event_id = eid, se_skill_name = n, se_action = event_action act a,
     se_created_at = now, se_reason = clean why 1000, se_actor = clean who 128,
     se_previous = decorate_entry ''workspace'' sk None, se_next = decorate_entry ''workspace'' ?sk1 None\<rparr>"
  have lv: "l \<noteq> []" "v \<noteq> []" using target_nonempty [OF t] decorate_nonempty by simp_all
  show ?thesis
    by (rule that [of ?e ?sk1])
      (use r safe sk t decorate_matching [OF m sk] decorate_written [OF lv] in
        \<open>simp_all add: transition_def Let_def n, (auto)?\<close>)
qed

lemma transition_still:
  assumes m: "file_matches s" and n: "py_strip name0 = n" "py_lower (py_strip act0) = act"
    and no: "\<And>sk msg l v a. is_safe_skill_name n \<Longrightarrow> dict_get (sks_files s) n = Some sk \<Longrightarrow>
      target_state (decorate_entry ''workspace'' sk None) act enabled \<noteq> GoTo msg l v a"
    and r: "transition clean eid now name0 act0 why who enabled s = (s', res)"
  shows "s' = s \<and> sr_event res = None \<and> (sr_ok res \<longleftrightarrow> is_safe_skill_name n \<and>
    (\<exists>sk msg. dict_get (sks_files s) n = Some sk \<and>
       target_state (decorate_entry ''workspace'' sk None) act enabled = AlreadyThere msg))"
proof (cases "is_safe_skill_name n \<and> dict_get (sks_files s) n \<noteq> None")
  case False
  with r show ?thesis by (auto simp: transition_def Let_def n skill_failure_def split: if_splits)
next
  case True
  then obtain sk where sk: "dict_get (sks_files s) n = Some sk" by auto
  with True r no [of sk] decorate_matching [OF m sk] show ?thesis
    by (auto simp: transition_def Let_def n skill_failure_def split: skill_target.splits)
qed

text \<open>One step of the table, for every skill of the store.\<close>

lemma transition_table:
  assumes m: "file_matches s" and r: "transition clean eid now name0 act0 why who enabled s = (s', res)"
  shows "file_matches s' \<and>
    (sr_ok res \<longleftrightarrow> is_safe_skill_name (py_strip name0) \<and> (\<exists>c. current_state (py_strip name0) s = Some c \<and>
       next_state c (py_lower (py_strip act0)) enabled \<noteq> None)) \<and>
    (\<forall>n. current_state n s' = (if n = py_strip name0 \<and> sr_ok res
       then next_state (the (current_state n s)) (py_lower (py_strip act0)) enabled else current_state n s))"
proof -
  define n where "n = py_strip name0"
  define act where "act = py_lower (py_strip act0)"
  show ?thesis
  proof (cases "\<exists>sk msg l v a. is_safe_skill_name n \<and> dict_get (sks_files s) n = Some sk \<and>
      target_state (decorate_entry ''workspace'' sk None) act enabled = GoTo msg l v a")
    case True
    then obtain sk msg l v a where safe: "is_safe_skill_name n" and sk: "dict_get (sks_files s) n = Some sk"
      and t: "target_state (decorate_entry ''workspace'' sk None) act enabled = GoTo msg l v a" by blast
    from transition_goto [OF m n_def [symmetric] act_def [symmetric] safe sk t r]
    obtain sk1 e where s': "s' = s\<lparr>sks_files := dict_set n sk1 (sks_files s), sks_events := sks_events s @ [e]\<rparr>"
      and ok: "sr_ok res" and e: "se_skill_name e = n" "se_next e = decorate_entry ''workspace'' sk1 None"
      and d: "decorate_entry ''workspace'' sk1 None = skill_state l v (case a of None \<Rightarrow> file_always sk | Some b \<Rightarrow> b)"
      by metis
    have m': "file_matches s'" using m e unfolding file_matches_def s'
      by (auto simp: latest_snoc dict_simps split: if_splits)
    have "next_state (decorate_entry ''workspace'' sk None) act enabled = Some (decorate_entry ''workspace'' sk1 None)"
      by (simp add: next_state_def t d decorate_always split: option.splits)
    then show ?thesis using m' ok safe sk
      unfolding current_matching [OF m] current_matching [OF m'] n_def [symmetric] act_def [symmetric]
      by (auto simp: s' dict_simps)
  next
    case False
    with transition_still [OF m n_def [symmetric] act_def [symmetric] _ r]
    have s': "s' = s" and ok: "sr_ok res \<longleftrightarrow> is_safe_skill_name n \<and> (\<exists>sk msg. dict_get (sks_files s) n = Some sk \<and>
       target_state (decorate_entry ''workspace'' sk None) act enabled = AlreadyThere msg)" by blast+
    have cur: "current_state n s = map_option (\<lambda>sk. decorate_entry ''workspace'' sk None) (dict_get (sks_files s) n)"
      by (rule current_matching [OF m])
    have nx: "next_state c act enabled = (if \<exists>msg. target_state c act enabled = AlreadyThere msg then Some c else None)"
      if "is_safe_skill_name n" "current_state n s = Some c" for c
      using that False unfolding cur by (auto simp: next_state_def split: skill_target.splits)
    have ok2: "sr_ok res \<longleftrightarrow> is_safe_skill_name n \<and> (\<exists>c. current_state n s = Some c \<and> next_state c act enabled \<noteq> None)"
      unfolding ok using nx by (auto simp: cur split: if_splits)
    have "current_state n s = next_state (the (current_state n s)) act enabled" if "sr_ok res"
      using that nx unfolding ok2 by (auto split: if_splits)
    with ok2 m show ?thesis unfolding s' n_def [symmetric] act_def [symmetric] by auto
  qed
qed

definition plain_clean :: "string \<Rightarrow> nat \<Rightarrow> string" where
  "plain_clean text n = take n text"

definition proposed_store :: SkillStore where
  "proposed_store = \<lparr>sks_files = [(''greet'', \<lparr>sk_frontmatter = [(''metadata'', JObj [(''OriginAgent'', JObj
     [(''created_by'', JStr ''background_review''), (''verification_status'', JStr ''unverified'')])])],
     sk_body = ''hello''\<rparr>)], sks_events = []\<rparr>"

lemma no_events_match: "sks_events s = [] \<Longrightarrow> file_matches s"
  by (simp add: file_matches_def latest_event_def)

text \<open>
  A transition of a skill implements the decision table: it succeeds exactly for a well-named,
  existing skill whose current state the table lets take the action; then the state of this skill is
  the one the table gives, read from the file and from the log alike, and every other skill keeps its
  state. A refused transition changes no state. File and log keep agreeing.
\<close>

theorem transition_refines_table:
  assumes "file_matches s" and "transition clean eid now name0 act0 why who enabled s = (s', res)"
  shows "file_matches s' \<and>
    (sr_ok res \<longleftrightarrow> is_safe_skill_name (py_strip name0) \<and> (\<exists>c. current_state (py_strip name0) s = Some c \<and>
       next_state c (py_lower (py_strip act0)) enabled \<noteq> None)) \<and>
    (\<forall>n. current_state n s' = (if n = py_strip name0 \<and> sr_ok res
       then next_state (the (current_state n s)) (py_lower (py_strip act0)) enabled else current_state n s))"
  by (rule transition_table [OF assms])

theorem transition_refines_table_witness:
  "sr_ok (snd (transition plain_clean ''e1'' ''now'' '' greet '' ''VERIFY'' [] ''user'' False proposed_store))"
proof -
  have m: "file_matches proposed_store" by (rule no_events_match) (simp add: proposed_store_def)
  obtain s' res where r: "transition plain_clean ''e1'' ''now'' '' greet '' ''VERIFY'' [] ''user'' False proposed_store = (s', res)"
    by (rule prod.exhaust)
  have n: "py_strip '' greet '' = ''greet''" "py_lower (py_strip ''VERIFY'') = ''verify''" "is_safe_skill_name ''greet''"
    by code_simp+
  have "case current_state ''greet'' proposed_store of None \<Rightarrow> False
      | Some c \<Rightarrow> (case next_state c ''verify'' False of None \<Rightarrow> False | Some _ \<Rightarrow> True)" by code_simp
  then have "\<exists>c. current_state ''greet'' proposed_store = Some c \<and> next_state c ''verify'' False \<noteq> None"
    by (auto split: option.splits)
  with transition_refines_table [OF m r] n r show ?thesis by simp
qed

section \<open>Runs\<close>

inductive skill_step :: "SkillStore \<Rightarrow> SkillStore \<Rightarrow> bool" where
  skill_transition: "skill_step s (fst (transition clean eid now name act why who enabled s))"

definition actions_of :: "string \<Rightarrow> SkillStore \<Rightarrow> string list" where
  "actions_of n s = map se_action (filter (\<lambda>e. se_skill_name e = n) (sks_events s))"

definition skill_start :: "SkillStore \<Rightarrow> bool" where
  "skill_start s = (sks_events s = [] \<and>
     (\<forall>n c. current_state n s = Some c \<longrightarrow> ss_lifecycle c = ''proposed'' \<and> ss_verification c \<noteq> ''verified''))"

definition trail :: "string list \<Rightarrow> SkillState \<Rightarrow> bool" where
  "trail acts c = (ss_lifecycle c \<in> {''proposed'', ''active'', ''deprecated'', ''rejected''} \<and>
     ss_effective c = effective_always ''workspace'' (ss_lifecycle c) (ss_verification c) (ss_always c) \<and>
     (ss_verification c = ''verified'' \<longrightarrow> ''verify'' \<in> set acts) \<and>
     (ss_lifecycle c = ''active'' \<longrightarrow> ss_verification c = ''verified'' \<and> subseq [''verify'', ''activate''] acts))"

definition skill_inv :: "SkillStore \<Rightarrow> bool" where
  "skill_inv s = (file_matches s \<and> (\<forall>n c. current_state n s = Some c \<longrightarrow> trail (actions_of n s) c))"

lemma subseq_extend: "subseq xs ys \<Longrightarrow> subseq xs (ys @ zs)"
  using list_emb_append_mono [of "(=)" xs ys "[]" zs] by simp

lemma trail_extend: "trail acts c \<Longrightarrow> trail (acts @ bs) c"
  by (auto simp: trail_def subseq_extend)

lemma verify_then_activate: "''verify'' \<in> set acts \<Longrightarrow> subseq [''verify'', ''activate''] (acts @ [''activate''])"
  using list_emb_append_mono [of "(=)" "[''verify'']" acts "[''activate'']" "[''activate'']"]
  by (simp add: subseq_singleton_left)

lemma trail_goto:
  assumes c: "trail acts c" and t: "target_state c act enabled = GoTo msg l v a"
  shows "trail (acts @ [event_action act a]) (skill_state l v (case a of None \<Rightarrow> ss_always c | Some b \<Rightarrow> b))"
proof -
  consider (verify) "act = ''verify''" "l = ''proposed''" "v = ''verified''" "a = None"
    | (activate) "act = ''activate''" "l = ''active''" "v = ''verified''" "a = None" "ss_verification c = ''verified''"
    | (reject) "l = ''rejected''" "v = ''rejected''"
    | (deprecate) "l = ''deprecated''" "v = ss_verification c"
    | (always) "l = ss_lifecycle c" "v = ss_verification c"
    using t by (auto simp: target_state_def terminal_refusal_def Let_def split: if_splits)
  then show ?thesis
  proof cases
    case activate
    with c show ?thesis by (auto simp: trail_def skill_state_def event_action_def verify_then_activate)
  qed (use c in \<open>auto simp: trail_def skill_state_def event_action_def subseq_extend\<close>)
qed

lemma skill_step_inv:
  assumes "skill_inv s" and "skill_step s t"
  shows "skill_inv t"
  using assms(2,1)
proof (induction rule: skill_step.induct)
  case (skill_transition s clean eid now name act why who enabled)
  then have m: "file_matches s" and tr: "\<And>n c. current_state n s = Some c \<Longrightarrow> trail (actions_of n s) c"
    by (simp_all add: skill_inv_def)
  obtain t res where r: "transition clean eid now name act why who enabled s = (t, res)" by (rule prod.exhaust)
  have m': "file_matches t" using transition_table [OF m r] by blast
  show ?case
  proof (cases "\<exists>sk msg l v a. is_safe_skill_name (py_strip name) \<and> dict_get (sks_files s) (py_strip name) = Some sk \<and>
      target_state (decorate_entry ''workspace'' sk None) (py_lower (py_strip act)) enabled = GoTo msg l v a")
    case False
    with transition_still [OF m refl refl _ r] have "t = s" by blast
    with r skill_transition show ?thesis by simp
  next
    case True
    then obtain sk msg l v a where safe: "is_safe_skill_name (py_strip name)"
      and sk: "dict_get (sks_files s) (py_strip name) = Some sk"
      and g: "target_state (decorate_entry ''workspace'' sk None) (py_lower (py_strip act)) enabled = GoTo msg l v a" by blast
    from transition_goto [OF m refl refl safe sk g r]
    obtain sk1 e where t: "t = s\<lparr>sks_files := dict_set (py_strip name) sk1 (sks_files s), sks_events := sks_events s @ [e]\<rparr>"
      and e: "se_skill_name e = py_strip name" "se_action e = event_action (py_lower (py_strip act)) a"
      and d: "decorate_entry ''workspace'' sk1 None = skill_state l v (case a of None \<Rightarrow> file_always sk | Some b \<Rightarrow> b)"
      by metis
    have "trail (actions_of n t) c" if c: "current_state n t = Some c" for n c
    proof (cases "n = py_strip name")
      case True
      have "current_state n s = Some (decorate_entry ''workspace'' sk None)"
        using sk True by (simp add: current_matching [OF m])
      from trail_goto [OF tr [OF this] g]
      have "trail (actions_of n s @ [se_action e]) (decorate_entry ''workspace'' sk1 None)"
        by (simp add: d e decorate_always split: option.splits)
      moreover have "c = decorate_entry ''workspace'' sk1 None"
        using c True unfolding current_matching [OF m'] by (simp add: t dict_simps)
      ultimately show ?thesis using True e by (simp add: actions_of_def t)
    next
      case False
      with c have "current_state n s = Some c" unfolding current_matching [OF m] current_matching [OF m']
        by (simp add: t dict_simps)
      from tr [OF this] False e show ?thesis by (simp add: actions_of_def t)
    qed
    with m' r show ?thesis by (simp add: skill_inv_def)
  qed
qed

interpretation skills: safe_system skill_start skill_step skill_inv
proof unfold_locales
  fix s assume s: "skill_start s"
  then have m: "file_matches s" by (simp add: skill_start_def no_events_match)
  have "ss_effective c = effective_always ''workspace'' (ss_lifecycle c) (ss_verification c) (ss_always c)"
    if "current_state n s = Some c" for n c
    using that unfolding current_matching [OF m] by (auto simp: decorate_effective)
  with s m show "skill_inv s" by (auto simp: skill_start_def skill_inv_def trail_def)
qed (rule skill_step_inv)

text \<open>
  C34. Starting from proposed, unverified skills and an empty log, whatever transitions are asked for: a
  skill that is active is verified and its log holds a verification followed by an activation, and a
  skill that is loaded always is such a skill.
\<close>

theorem active_skill_was_reviewed:
  assumes "skill_start s" and "skill_step\<^sup>*\<^sup>* s t" and "current_state n t = Some c"
    and "ss_lifecycle c = ''active'' \<or> ss_effective c"
  shows "ss_lifecycle c = ''active'' \<and> ss_verification c = ''verified'' \<and>
    subseq [''verify'', ''activate''] (actions_of n t)"
proof -
  have "trail (actions_of n t) c"
    using skills.reachable_inv [OF assms(1,2)] assms(3) by (simp add: skill_inv_def)
  with assms(4) show ?thesis by (auto simp: trail_def effective_always_def split: if_splits)
qed

definition reviewed_store :: SkillStore where
  "reviewed_store = fst (transition plain_clean ''e2'' ''now'' ''greet'' ''activate'' [] ''user'' False
     (fst (transition plain_clean ''e1'' ''now'' ''greet'' ''verify'' [] ''user'' False proposed_store)))"

theorem active_skill_was_reviewed_witness:
  "subseq [''verify'', ''activate''] (actions_of ''greet'' reviewed_store)"
proof -
  have g: "case current_state ''greet'' proposed_store of None \<Rightarrow> False
      | Some c \<Rightarrow> ss_lifecycle c = ''proposed'' \<and> ss_verification c \<noteq> ''verified''" by code_simp
  have only: "n = ''greet''" if "current_state n proposed_store = Some c" for n c
    using that by (auto simp: current_state_def proposed_store_def split: if_splits)
  have s: "skill_start proposed_store"
    unfolding skill_start_def
  proof (intro conjI allI impI)
    show "sks_events proposed_store = []" by (simp add: proposed_store_def)
  next
    fix n c assume c: "current_state n proposed_store = Some c"
    with only [OF c] g show "ss_lifecycle c = ''proposed''" "ss_verification c \<noteq> ''verified''" by simp_all
  qed
  have steps: "skill_step\<^sup>*\<^sup>* proposed_store reviewed_store"
    unfolding reviewed_store_def
    by (rule rtranclp.rtrancl_into_rtrancl [OF r_into_rtranclp]) (rule skill_transition)+
  have "case current_state ''greet'' reviewed_store of None \<Rightarrow> False | Some c \<Rightarrow> ss_lifecycle c = ''active''" by code_simp
  then obtain c where "current_state ''greet'' reviewed_store = Some c" "ss_lifecycle c = ''active''"
    by (auto split: option.splits)
  with active_skill_was_reviewed [OF s steps] show ?thesis by blast
qed

section \<open>What a successful transition reaches\<close>

text \<open>Whatever the log says of earlier skills of the same name.\<close>

lemma safe_no_space: "is_safe_skill_name n \<Longrightarrow> c \<in> set n \<Longrightarrow> \<not> py_space c"
  by (cases n) (auto simp: is_safe_skill_name_def safe_skill_char_def is_digit_char_def py_space_def list_all_iff)

lemma safe_strip:
  assumes "is_safe_skill_name n"
  shows "py_strip n = n"
proof -
  have ne: "n \<noteq> []" using assms by (auto simp: is_safe_skill_name_def)
  then have "\<not> py_space (hd n)" "\<not> py_space (hd (rev n))"
    using safe_no_space [OF assms] by (simp_all add: hd_rev)
  then have "dropWhile py_space n = n" "dropWhile py_space (rev n) = rev n" by (simp_all add: dropWhile_eq_self_iff)
  then show ?thesis by (simp add: py_strip_def)
qed

lemma decorate_effective_any:
  "ss_effective (decorate_entry source sk l) = effective_always source (ss_lifecycle (decorate_entry source sk l))
     (ss_verification (decorate_entry source sk l)) (ss_always (decorate_entry source sk l))"
  by (simp add: decorate_entry_def Let_def split: prod.splits)

lemma decorate_nonempty_any:
  "ss_lifecycle (decorate_entry ''workspace'' sk l) \<noteq> [] \<and> ss_verification (decorate_entry ''workspace'' sk l) \<noteq> []"
proof (cases l)
  case None
  then show ?thesis using decorate_nonempty by simp
next
  case (Some e)
  have "ss_lifecycle (decorate_entry ''workspace'' sk (Some e)) =
      str_or (ss_lifecycle (se_next e)) (ss_lifecycle (decorate_entry ''workspace'' sk None))"
    "ss_verification (decorate_entry ''workspace'' sk (Some e)) =
      str_or (ss_verification (se_next e)) (ss_verification (decorate_entry ''workspace'' sk None))"
    by (simp_all add: decorate_entry_def Let_def split: prod.splits)
  then show ?thesis using decorate_nonempty Some by (simp add: str_or_def)
qed

lemma transition_reaches:
  assumes "transition clean eid now n act why who enabled s = (s', res)" and "sr_ok res"
    and "py_lower (py_strip act) = act"
  obtains c where "is_safe_skill_name (py_strip n)" "current_state (py_strip n) s' = Some c"
    "ss_effective c = effective_always ''workspace'' (ss_lifecycle c) (ss_verification c) (ss_always c)"
    "(\<exists>msg. target_state c act enabled = AlreadyThere msg) \<or>
     (\<exists>c0 msg a. target_state c0 act enabled = GoTo msg (ss_lifecycle c) (ss_verification c) a)"
proof -
  let ?n = "py_strip n"
  have safe: "is_safe_skill_name ?n"
    using assms(1,2) by (auto simp: transition_def Let_def skill_failure_def split: if_splits)
  then have ne: "?n \<noteq> []" by (auto simp: is_safe_skill_name_def)
  obtain sk where sk: "dict_get (sks_files s) ?n = Some sk"
    using assms safe by (cases "dict_get (sks_files s) ?n") (auto simp: transition_def Let_def skill_failure_def)
  let ?cur = "decorate_entry ''workspace'' sk (latest_event ?n (sks_events s))"
  show thesis
  proof (cases "target_state ?cur act enabled")
    case (Refused e m)
    with assms safe sk show thesis by (auto simp: transition_def Let_def skill_failure_def)
  next
    case (AlreadyThere m)
    with assms safe sk have "s' = s" by (simp add: transition_def Let_def)
    with safe ne sk AlreadyThere show thesis
      by (intro that [of ?cur] decorate_effective_any) (auto simp: current_state_def)
  next
    case (GoTo m l v a)
    let ?sk1 = "sk\<lparr>sk_frontmatter := updated_frontmatter ?n a
      (updated_metadata clean l v (clean who 128) now eid a (metadata_originagent (sk_frontmatter sk))) (sk_frontmatter sk)\<rparr>"
    let ?e = "\<lparr>se_event_id = eid, se_skill_name = ?n, se_action = event_action act a,
       se_created_at = now, se_reason = clean why 1000, se_actor = clean who 128,
       se_previous = ?cur, se_next = decorate_entry ''workspace'' ?sk1 None\<rparr>"
    have lv: "l \<noteq> []" "v \<noteq> []" using target_nonempty [OF GoTo] decorate_nonempty_any by simp_all
    have s': "s' = s\<lparr>sks_files := dict_set ?n ?sk1 (sks_files s), sks_events := sks_events s @ [?e]\<rparr>"
      using assms safe sk GoTo by (auto simp: transition_def Let_def)
    have d: "decorate_entry ''workspace'' ?sk1 None = skill_state l v (case a of None \<Rightarrow> file_always sk | Some b \<Rightarrow> b)"
      by (rule decorate_written [OF lv])
    let ?c = "decorate_entry ''workspace'' ?sk1 (Some ?e)"
    have c: "?c = skill_state l v (case a of None \<Rightarrow> file_always sk | Some b \<Rightarrow> b)"
      using decorate_latest [of ?e ?sk1] lv d by (simp add: skill_state_def)
    have cur: "current_state ?n s' = Some ?c"
      using ne by (simp add: current_state_def s' latest_snoc dict_simps)
    show thesis
    proof (rule that [OF safe cur])
      show "ss_effective ?c = effective_always ''workspace'' (ss_lifecycle ?c) (ss_verification ?c) (ss_always ?c)"
        unfolding c by (simp add: skill_state_def)
    next
      have "ss_lifecycle ?c = l" "ss_verification ?c = v" unfolding c by (simp_all add: skill_state_def)
      with GoTo show "(\<exists>msg. target_state ?c act enabled = AlreadyThere msg) \<or>
        (\<exists>c0 msg a. target_state c0 act enabled = GoTo msg (ss_lifecycle ?c) (ss_verification ?c) a)" by metis
    qed
  qed
qed

lemma activate_reaches:
  assumes "transition clean eid now n ''activate'' why who enabled s = (s', res)" and "sr_ok res"
  obtains c where "current_state (py_strip n) s' = Some c" "ss_lifecycle c = ''active''" "ss_verification c = ''verified''"
proof -
  have "py_lower (py_strip ''activate'') = ''activate''" by code_simp
  from transition_reaches [OF assms this] obtain c where c: "current_state (py_strip n) s' = Some c"
    "(\<exists>msg. target_state c ''activate'' enabled = AlreadyThere msg) \<or>
     (\<exists>c0 msg a. target_state c0 ''activate'' enabled = GoTo msg (ss_lifecycle c) (ss_verification c) a)" by metis
  from c(2) have "ss_lifecycle c = ''active'' \<and> ss_verification c = ''verified''"
    by (auto simp: target_state_def Let_def terminal_refusal_def split: if_splits)
  with c(1) show thesis by (intro that [of c]) simp_all
qed

lemma deprecate_reaches:
  assumes "transition clean eid now n ''deprecate'' why who enabled s = (s', res)" and "sr_ok res"
  obtains c where "current_state (py_strip n) s' = Some c" "ss_lifecycle c = ''deprecated''" "\<not> ss_effective c"
proof -
  have "py_lower (py_strip ''deprecate'') = ''deprecate''" by code_simp
  from transition_reaches [OF assms this] obtain c where c: "current_state (py_strip n) s' = Some c"
    "ss_effective c = effective_always ''workspace'' (ss_lifecycle c) (ss_verification c) (ss_always c)"
    "(\<exists>msg. target_state c ''deprecate'' enabled = AlreadyThere msg) \<or>
     (\<exists>c0 msg a. target_state c0 ''deprecate'' enabled = GoTo msg (ss_lifecycle c) (ss_verification c) a)" by metis
  from c(3) have l: "ss_lifecycle c = ''deprecated''"
    by (auto simp: target_state_def Let_def terminal_refusal_def split: if_splits)
  with c(2) have "\<not> ss_effective c" by (simp add: effective_always_def)
  with c(1) l show thesis by (intro that [of c]) simp_all
qed

end
