(* ===== verification/Fallback.thy ===== *)
theory Fallback
  imports Prelude
begin

text \<open>
  Failing over to other models: \<^verbatim>\<open>providers/fallback_provider.py\<close>. The providers are outside: a call
  of one of them shows some texts to the listener and then answers or raises, and what it does may
  depend on the calls made before it (parameter \<open>ask\<close>). Which presets the factory can build, the
  readings of the clock (microseconds) and the default model are parameters too. One request runs to
  its end before the next; requests that overlap at their awaits are not modelled.
\<close>

section \<open>Data\<close>

record LLMResponse =
  rs_content :: "string option"
  rs_finish_reason :: string
  rs_status_code :: "int option"
  rs_kind :: "string option"
  rs_type :: "string option"
  rs_code :: "string option"
  rs_should_retry :: "bool option"

record FallbackPreset =
  fp_model :: string
  fp_max_tokens :: int
  fp_temperature :: string
  fp_reasoning :: "string option"

record FallbackState =
  primary_failures :: nat
  primary_tripped_at :: "int option"

datatype target = Primary | Backup FallbackPreset

record ProviderCall =
  pc_target :: target
  pc_kwargs :: json_obj
  pc_deltas :: "string list"
  pc_outcome :: "string + LLMResponse"

type_synonym ask = "ProviderCall list \<Rightarrow> target \<Rightarrow> json_obj \<Rightarrow> string list \<times> (string + LLMResponse)"

definition PRIMARY_FAILURE_THRESHOLD :: nat where "PRIMARY_FAILURE_THRESHOLD = 3"
definition PRIMARY_COOLDOWN :: int where "PRIMARY_COOLDOWN = 60000000"

definition FALLBACK_ERROR_KINDS :: "string list" where
  "FALLBACK_ERROR_KINDS = [''timeout'', ''connection'', ''server_error'', ''rate_limit'', ''overloaded'']"

definition NON_FALLBACK_ERROR_KINDS :: "string list" where
  "NON_FALLBACK_ERROR_KINDS = [''authentication'', ''auth'', ''permission'', ''content_filter'', ''refusal'',
     ''context_length'', ''invalid_request'']"

definition FALLBACK_ERROR_TOKENS :: "string list" where
  "FALLBACK_ERROR_TOKENS = [''rate limit'', ''too_many_requests'', ''overloaded'', ''server error'',
     ''temporarily unavailable'', ''timeout'', ''timed out'', ''connection'', ''insufficient_quota'', ''quota'',
     ''billing_hard_limit'', ''insufficient_balance'', ''out of credits'']"

section \<open>Which errors fail over\<close>

definition mentions :: "string list \<Rightarrow> string list \<Rightarrow> bool" where
  "mentions tokens values = list_ex (\<lambda>v. list_ex (\<lambda>t. py_in t v) tokens) values"

definition should_fallback :: "LLMResponse \<Rightarrow> bool" where
  "should_fallback r =
     (let status = rs_status_code r;
          kind = py_lower (opt_or (rs_kind r) []);
          etype = py_lower (opt_or (rs_type r) []);
          code = py_lower (opt_or (rs_code r) []);
          txt = py_lower (opt_or (rs_content r) [])
      in if rs_should_retry r = Some False then False
         else if (case status of Some n \<Rightarrow> n \<in> {400, 401, 403, 404, 422} | None \<Rightarrow> False) then False
         else if kind \<in> set NON_FALLBACK_ERROR_KINDS then False
         else if mentions NON_FALLBACK_ERROR_KINDS [kind, etype, code] then False
         else if rs_should_retry r = Some True then True
         else if (case status of Some n \<Rightarrow> n \<in> {408, 409, 429} \<or> 500 \<le> n \<and> n \<le> 599 | None \<Rightarrow> False) then True
         else if kind \<in> set FALLBACK_ERROR_KINDS then True
         else mentions FALLBACK_ERROR_TOKENS [kind, etype, code, txt])"

section \<open>One request\<close>

definition primary_available :: "int \<Rightarrow> FallbackState \<Rightarrow> bool" where
  "primary_available now s = (case primary_tripped_at s of None \<Rightarrow> True | Some t \<Rightarrow> now - t \<ge> PRIMARY_COOLDOWN)"

definition call_provider :: "ask \<Rightarrow> target \<Rightarrow> json_obj \<Rightarrow> ProviderCall list \<Rightarrow> ProviderCall" where
  "call_provider ask t kw cs = (case ask cs t kw of (ds, r) \<Rightarrow>
     \<lparr>pc_target = t, pc_kwargs = kw, pc_deltas = ds, pc_outcome = r\<rparr>)"

definition has_streamed :: "bool \<Rightarrow> ProviderCall list \<Rightarrow> bool" where
  "has_streamed streaming cs = (streaming \<and> list_ex (\<lambda>c. list_ex (\<lambda>d. d \<noteq> []) (pc_deltas c)) cs)"

definition preset_kwargs :: "FallbackPreset \<Rightarrow> json_obj \<Rightarrow> json_obj" where
  "preset_kwargs p kw =
     (let kw1 = dict_set ''temperature'' (JFloat (fp_temperature p))
                  (dict_set ''max_tokens'' (JInt (fp_max_tokens p)) (dict_set ''model'' (JStr (fp_model p)) kw))
      in case fp_reasoning p of
          None \<Rightarrow> dict_del ''reasoning_effort'' kw1
        | Some e \<Rightarrow> dict_set ''reasoning_effort'' (JStr e) kw1)"

definition restored_kwargs :: "json_obj \<Rightarrow> json_obj \<Rightarrow> json_obj" where
  "restored_kwargs original kw =
     fold (\<lambda>n d. case dict_get original n of None \<Rightarrow> dict_del n d | Some v \<Rightarrow> dict_set n v d)
       [''model'', ''max_tokens'', ''temperature'', ''reasoning_effort''] kw"

fun try_presets ::
    "ask \<Rightarrow> (FallbackPreset \<Rightarrow> bool) \<Rightarrow> bool \<Rightarrow> FallbackPreset list \<Rightarrow> json_obj \<Rightarrow> ProviderCall list \<Rightarrow> LLMResponse option
     \<Rightarrow> ProviderCall list \<times> (string + LLMResponse option)" where
  "try_presets ask creatable streaming [] kw cs prev = (cs, Inr prev)"
| "try_presets ask creatable streaming (p # ps) kw cs prev =
     (if has_streamed streaming cs then (cs, Inr prev)
      else if \<not> creatable p then try_presets ask creatable streaming ps kw cs prev
      else
        let kw1 = preset_kwargs p kw;
            c = call_provider ask (Backup p) kw1 cs;
            kw2 = restored_kwargs kw kw1
        in case pc_outcome c of
            Inl e \<Rightarrow> (cs @ [c], Inl e)
          | Inr r \<Rightarrow>
              if rs_finish_reason r \<noteq> ''error'' then (cs @ [c], Inr (Some r))
              else try_presets ask creatable streaming ps kw2 (cs @ [c]) (Some r))"

definition no_answer :: "string \<Rightarrow> LLMResponse" where
  "no_answer model = \<lparr>rs_content = Some (''Primary model '' @ [CHR 0x27] @ model @ [CHR 0x27] @
       '' circuit open and no fallbacks available''), rs_finish_reason = ''error'', rs_status_code = None,
     rs_kind = None, rs_type = None, rs_code = None, rs_should_retry = None\<rparr>"

definition primary_model :: "string \<Rightarrow> json_obj \<Rightarrow> string" where
  "primary_model default_model kw = (case dict_get kw ''model'' of Some (JStr m) \<Rightarrow> str_or m default_model | _ \<Rightarrow> default_model)"

definition fall_back ::
    "ask \<Rightarrow> (FallbackPreset \<Rightarrow> bool) \<Rightarrow> bool \<Rightarrow> FallbackPreset list \<Rightarrow> string \<Rightarrow> json_obj \<Rightarrow> ProviderCall list \<Rightarrow> LLMResponse option
     \<Rightarrow> ProviderCall list \<times> (string + LLMResponse)" where
  "fall_back ask creatable streaming presets default_model kw cs prev =
     map_prod id (map_sum id (\<lambda>l. case l of Some r \<Rightarrow> r | None \<Rightarrow> no_answer (primary_model default_model kw)))
       (try_presets ask creatable streaming presets kw cs prev)"

definition try_with_fallback ::
    "ask \<Rightarrow> (FallbackPreset \<Rightarrow> bool) \<Rightarrow> bool \<Rightarrow> FallbackPreset list \<Rightarrow> string \<Rightarrow> int \<Rightarrow> int \<Rightarrow> json_obj \<Rightarrow> FallbackState
     \<Rightarrow> FallbackState \<times> ProviderCall list \<times> (string + LLMResponse)" where
  "try_with_fallback ask creatable streaming presets default_model now later kw s =
     (if primary_available now s then
        let c = call_provider ask Primary kw [] in
        case pc_outcome c of
          Inl e \<Rightarrow> (s, [c], Inl e)
        | Inr r \<Rightarrow>
            if rs_finish_reason r \<noteq> ''error''
            then (s\<lparr>primary_failures := 0, primary_tripped_at := None\<rparr>, [c], Inr r)
            else if has_streamed streaming [c] then (s, [c], Inr r)
            else if \<not> should_fallback r then (s, [c], Inr r)
            else
              let n = primary_failures s + 1;
                  s1 = s\<lparr>primary_failures := n,
                         primary_tripped_at := (if n \<ge> PRIMARY_FAILURE_THRESHOLD then Some later else primary_tripped_at s)\<rparr>
              in (s1, fall_back ask creatable streaming presets default_model kw [c] (Some r))
      else (s, fall_back ask creatable streaming presets default_model kw [] None))"

text \<open>\<^verbatim>\<open>chat\<close> and \<^verbatim>\<open>chat_stream\<close>, which differ in whether shown text stops the failing over.\<close>

definition chat ::
    "bool \<Rightarrow> ask \<Rightarrow> (FallbackPreset \<Rightarrow> bool) \<Rightarrow> FallbackPreset list \<Rightarrow> string \<Rightarrow> int \<Rightarrow> int \<Rightarrow> json_obj \<Rightarrow> FallbackState
     \<Rightarrow> FallbackState \<times> ProviderCall list \<times> (string + LLMResponse)" where
  "chat streaming ask creatable presets default_model now later kw s =
     (if presets = [] then let c = call_provider ask Primary kw [] in (s, [c], pc_outcome c)
      else try_with_fallback ask creatable streaming presets default_model now later kw s)"

definition fresh_provider :: FallbackState where
  "fresh_provider = \<lparr>primary_failures = 0, primary_tripped_at = None\<rparr>"

section \<open>What a request does\<close>

text \<open>
  The specification: the targets in order, each called with the request's own arguments and the model
  settings of its preset, until one does not pass on. An error passes on when nothing was shown yet
  and, for the first model, when it is of a kind that fails over.
\<close>

definition passes_on :: "bool \<Rightarrow> ProviderCall \<Rightarrow> bool" where
  "passes_on streaming c = (case pc_outcome c of Inl _ \<Rightarrow> False
     | Inr r \<Rightarrow> rs_finish_reason r = ''error'' \<and> \<not> has_streamed streaming [c] \<and>
         (pc_target c = Primary \<longrightarrow> should_fallback r))"

definition attempts :: "(FallbackPreset \<Rightarrow> bool) \<Rightarrow> FallbackPreset list \<Rightarrow> int \<Rightarrow> FallbackState \<Rightarrow> target list" where
  "attempts creatable presets now s =
     (if presets = [] \<or> primary_available now s then [Primary] else []) @ map Backup (filter creatable presets)"

definition kwargs_for :: "target \<Rightarrow> json_obj \<Rightarrow> json_obj" where
  "kwargs_for t kw = (case t of Primary \<Rightarrow> kw | Backup p \<Rightarrow> preset_kwargs p kw)"

fun first_answer :: "ask \<Rightarrow> bool \<Rightarrow> json_obj \<Rightarrow> ProviderCall list \<Rightarrow> target list \<Rightarrow> ProviderCall list \<Rightarrow> bool" where
  "first_answer ask streaming kw before [] cs = (cs = [])"
| "first_answer ask streaming kw before (t # ts) cs =
     (case cs of [] \<Rightarrow> False
      | c # r \<Rightarrow> c = call_provider ask t (pc_kwargs c) before \<and>
          dict_get (pc_kwargs c) = dict_get (kwargs_for t kw) \<and>
          (if passes_on streaming c then first_answer ask streaming kw (before @ [c]) ts r else r = []))"

lemma call_provider_simps [simp]:
  "pc_target (call_provider ask t kw cs) = t" "pc_kwargs (call_provider ask t kw cs) = kw"
  by (simp_all add: call_provider_def split: prod.splits)

lemma has_streamed_append [simp]:
  "has_streamed st (cs @ ds) \<longleftrightarrow> has_streamed st cs \<or> has_streamed st ds" "\<not> has_streamed st []"
  by (auto simp: has_streamed_def)

lemma preset_kwargs_get:
  "dict_get kw = dict_get kw' \<Longrightarrow> dict_get (preset_kwargs p kw) = dict_get (preset_kwargs p kw')"
  by (rule ext) (simp add: preset_kwargs_def Let_def dict_simps split: option.splits)

lemma fold_restore_get:
  "dict_get (fold (\<lambda>n d. case dict_get original n of None \<Rightarrow> dict_del n d | Some v \<Rightarrow> dict_set n v d) ns kw) k =
     (if k \<in> set ns then dict_get original k else dict_get kw k)"
proof (induction ns arbitrary: kw)
  case (Cons n ns)
  then show ?case by (cases "dict_get original n") (auto simp: dict_simps)
qed simp

lemma preset_kwargs_other:
  "k \<notin> {''model'', ''max_tokens'', ''temperature'', ''reasoning_effort''} \<Longrightarrow> dict_get (preset_kwargs p kw) k = dict_get kw k"
  by (cases "fp_reasoning p") (simp_all add: preset_kwargs_def Let_def dict_simps)

lemma restored_get: "dict_get (restored_kwargs kw (preset_kwargs p kw)) = dict_get kw"
  unfolding restored_kwargs_def fold_restore_get by (rule ext) (simp add: preset_kwargs_other)

lemma try_presets_streamed: "has_streamed st cs \<Longrightarrow> try_presets ask creatable st ps kw cs prev = (cs, Inr prev)"
  by (cases ps) simp_all

lemma try_presets_spec:
  assumes "\<not> has_streamed st cs" and "dict_get kw = dict_get kw0"
  shows "\<exists>new. fst (try_presets ask creatable st ps kw cs prev) = cs @ new \<and>
     first_answer ask st kw0 cs (map Backup (filter creatable ps)) new \<and>
     snd (try_presets ask creatable st ps kw cs prev) = (if new = [] then Inr prev else map_sum id Some (pc_outcome (last new)))"
  using assms
proof (induction ask creatable st ps kw cs prev rule: try_presets.induct)
  case (1 ask creatable st kw cs prev)
  then show ?case by simp
next
  case (2 ask creatable st p ps kw cs prev)
  show ?case
  proof (cases "creatable p")
    case False
    with 2(1) [OF 2(3) False 2(3,4)] 2(3) show ?thesis by (simp only: try_presets.simps if_False if_True not_False_eq_True filter.simps)
  next
    case True
    let ?kw1 = "preset_kwargs p kw"
    let ?c = "call_provider ask (Backup p) ?kw1 cs"
    have k: "dict_get ?kw1 = dict_get (kwargs_for (Backup p) kw0)"
      using preset_kwargs_get [OF 2(4)] by (simp add: kwargs_for_def)
    show ?thesis
    proof (cases "pc_outcome ?c")
      case (Inl e)
      then have "\<not> passes_on st ?c" by (simp add: passes_on_def)
      with Inl True 2(3) k show ?thesis by (intro exI [of _ "[?c]"]) (simp add: Let_def)
    next
      case (Inr r)
      show ?thesis
      proof (cases "passes_on st ?c")
        case True': True
        then have r: "rs_finish_reason r = ''error''" "\<not> has_streamed st [?c]" using Inr by (simp_all add: passes_on_def)
        have "dict_get (restored_kwargs kw ?kw1) = dict_get kw0" using 2(4) by (simp add: restored_get)
        from 2(2) [OF 2(3) _ refl refl refl Inr _ _ this] r 2(3) True obtain new where
          "fst (try_presets ask creatable st ps (restored_kwargs kw ?kw1) (cs @ [?c]) (Some r)) = (cs @ [?c]) @ new"
          "first_answer ask st kw0 (cs @ [?c]) (map Backup (filter creatable ps)) new"
          "snd (try_presets ask creatable st ps (restored_kwargs kw ?kw1) (cs @ [?c]) (Some r)) =
            (if new = [] then Inr (Some r) else map_sum id Some (pc_outcome (last new)))" by auto
        with Inr True True' 2(3) r k show ?thesis by (intro exI [of _ "?c # new"]) (simp add: Let_def)
      next
        case False
        then have "rs_finish_reason r \<noteq> ''error'' \<or> has_streamed st [?c]" using Inr by (auto simp: passes_on_def)
        with Inr True False 2(3) k try_presets_streamed [of st "cs @ [?c]"] show ?thesis
          by (intro exI [of _ "[?c]"]) (auto simp: Let_def)
      qed
    qed
  qed
qed

lemma fall_back_spec:
  assumes "\<not> has_streamed streaming cs"
  shows "\<exists>new. fst (fall_back ask creatable streaming presets dm kw cs prev) = cs @ new \<and>
      first_answer ask streaming kw cs (map Backup (filter creatable presets)) new \<and>
      snd (fall_back ask creatable streaming presets dm kw cs prev) =
        (if new = [] then Inr (case prev of Some r \<Rightarrow> r | None \<Rightarrow> no_answer (primary_model dm kw)) else pc_outcome (last new))"
proof -
  obtain new where n: "fst (try_presets ask creatable streaming presets kw cs prev) = cs @ new"
    "first_answer ask streaming kw cs (map Backup (filter creatable presets)) new"
    "snd (try_presets ask creatable streaming presets kw cs prev) =
       (if new = [] then Inr prev else map_sum id Some (pc_outcome (last new)))"
    using try_presets_spec [OF assms refl, of ask creatable presets kw prev] by blast
  then show ?thesis
    by (intro exI [of _ new]) (simp add: fall_back_def map_prod_def case_prod_beta sum.map_comp comp_def sum.map_ident)
qed

lemma chat_spec:
  assumes "chat streaming ask creatable presets dm now later kw s = (s', cs, out)"
  shows "first_answer ask streaming kw [] (attempts creatable presets now s) cs \<and>
     out = (if cs = [] then Inr (no_answer (primary_model dm kw)) else pc_outcome (last cs))"
proof (cases "presets = [] \<or> primary_available now s")
  case False
  with assms have e: "fall_back ask creatable streaming presets dm kw [] None = (cs, out)"
    by (simp add: chat_def try_with_fallback_def)
  with False fall_back_spec [of streaming "[]" ask creatable presets dm kw None] show ?thesis
    by (simp add: attempts_def)
next
  case True
  let ?c = "call_provider ask Primary kw []"
  let ?backs = "map Backup (filter creatable presets)"
  have a: "attempts creatable presets now s = Primary # ?backs" using True by (simp add: attempts_def)
  show ?thesis
  proof (cases "presets = [] \<or> \<not> passes_on streaming ?c")
    case stop: True
    then have "cs = [?c] \<and> out = pc_outcome ?c"
      using assms True by (auto simp: chat_def try_with_fallback_def passes_on_def Let_def split: sum.splits if_splits)
    with stop show ?thesis unfolding a by (auto simp: kwargs_for_def)
  next
    case False
    then obtain r where r: "pc_outcome ?c = Inr r" "rs_finish_reason r = ''error''" "\<not> has_streamed streaming [?c]"
        "should_fallback r" "presets \<noteq> []"
      by (auto simp: passes_on_def split: sum.splits)
    with assms True have "fall_back ask creatable streaming presets dm kw [?c] (Some r) = (cs, out)"
      by (simp add: chat_def try_with_fallback_def Let_def)
    with fall_back_spec [OF r(3), of ask creatable presets dm kw "Some r"] False r(1) show ?thesis
      unfolding a by (auto simp: kwargs_for_def)
  qed
qed

text \<open>
  C10. A request is answered by the first model that answers: the first model (unless its circuit is
  open) and then every preset the factory can build are called in order, each with the arguments of
  the request and its own model, token limit, temperature and reasoning effort, until one succeeds,
  raises, fails in a way that does not fail over, or has shown text. Its outcome is the outcome; when
  nothing could be called the answer says so.
\<close>

theorem fallback_first_answer:
  "case chat streaming ask creatable presets dm now later kw s of (s', cs, out) \<Rightarrow>
     first_answer ask streaming kw [] (attempts creatable presets now s) cs \<and>
     out = (if cs = [] then Inr (no_answer (primary_model dm kw)) else pc_outcome (last cs))"
  by (cases "chat streaming ask creatable presets dm now later kw s" rule: prod_cases3) (simp add: chat_spec)

lemma butlast_silent:
  "first_answer ask True kw before ts cs \<Longrightarrow> c \<in> set (butlast cs) \<Longrightarrow> d \<in> set (pc_deltas c) \<Longrightarrow> d = []"
  by (induction ask "True" kw before ts cs rule: first_answer.induct)
     (auto simp: passes_on_def has_streamed_def list_ex_iff split: list.splits if_splits sum.splits)

text \<open>
  The listener of a stream hears one model only: in the calls of a streamed request every call but
  the last shows no text, and what the last one answers or raises is the outcome of the request.
\<close>

theorem one_model_is_heard:
  "case chat True ask creatable presets dm now later kw s of (s', cs, out) \<Rightarrow>
     (\<exists>before c. cs = before @ [c] \<and> out = pc_outcome c \<and> concat (concat (map pc_deltas cs)) = concat (pc_deltas c)) \<or>
     cs = [] \<and> out = Inr (no_answer (primary_model dm kw))"
proof (cases "chat True ask creatable presets dm now later kw s" rule: prod_cases3)
  case (fields s' cs out)
  note spec = chat_spec [OF fields]
  show ?thesis
  proof (cases cs rule: rev_cases)
    case Nil
    with fields spec show ?thesis by simp
  next
    case (snoc before c)
    have "concat (concat (map pc_deltas before)) = []"
      using butlast_silent [of ask kw "[]" _ cs] spec snoc by (auto simp: concat_eq_Nil_conv)
    with fields spec snoc show ?thesis by simp
  qed
qed

section \<open>The circuit breaker\<close>

record Request =
  rq_ask :: ask
  rq_creatable :: "FallbackPreset \<Rightarrow> bool"
  rq_streaming :: bool
  rq_now :: int
  rq_later :: int
  rq_kwargs :: json_obj

definition serve_one :: "FallbackPreset list \<Rightarrow> string \<Rightarrow> Request \<Rightarrow> FallbackState \<Rightarrow> FallbackState \<times> ProviderCall list \<times> (string + LLMResponse)" where
  "serve_one presets dm q s = chat (rq_streaming q) (rq_ask q) (rq_creatable q) presets dm (rq_now q) (rq_later q) (rq_kwargs q) s"

fun serve :: "FallbackPreset list \<Rightarrow> string \<Rightarrow> Request list \<Rightarrow> FallbackState \<Rightarrow> FallbackState \<times> (Request \<times> ProviderCall list) list" where
  "serve presets dm [] s = (s, [])"
| "serve presets dm (q # qs) s = (case serve_one presets dm q s of (s1, cs, out) \<Rightarrow>
     map_prod id (\<lambda>l. (q, cs) # l) (serve presets dm qs s1))"

text \<open>
  What the breaker should count: a success of the first model, or a failure that fails over with its
  time; other outcomes are no news.
\<close>

definition primary_news :: "Request \<times> ProviderCall list \<Rightarrow> (bool \<times> int) list" where
  "primary_news x = (case x of (q, cs) \<Rightarrow>
     (case cs of
        c # _ \<Rightarrow> if pc_target c \<noteq> Primary then []
                else if passes_on (rq_streaming q) c then [(False, rq_later q)]
                else (case pc_outcome c of Inr r \<Rightarrow> if rs_finish_reason r \<noteq> ''error'' then [(True, rq_later q)] else []
                      | Inl _ \<Rightarrow> [])
      | [] \<Rightarrow> []))"

definition failures_in_a_row :: "(bool \<times> int) list \<Rightarrow> nat" where
  "failures_in_a_row news = length (takeWhile (Not \<circ> fst) (rev news))"

definition breaker_state :: "(bool \<times> int) list \<Rightarrow> FallbackState" where
  "breaker_state news = \<lparr>primary_failures = failures_in_a_row news,
     primary_tripped_at = (if failures_in_a_row news \<ge> 3 then Some (snd (last news)) else None)\<rparr>"

lemma breaker_failed:
  "breaker_state (news @ [(False, t)]) = \<lparr>primary_failures = primary_failures (breaker_state news) + 1,
     primary_tripped_at = (if primary_failures (breaker_state news) + 1 \<ge> 3 then Some t else None)\<rparr>"
  by (simp add: breaker_state_def failures_in_a_row_def)

lemma breaker_succeeded: "breaker_state (news @ [(True, t)]) = fresh_provider"
  by (simp add: breaker_state_def failures_in_a_row_def fresh_provider_def)

lemma serve_snoc:
  "serve presets dm (qs @ [q]) s =
     (case serve presets dm qs s of (s1, l) \<Rightarrow> case serve_one presets dm q s1 of (s2, cs, out) \<Rightarrow> (s2, l @ [(q, cs)]))"
  by (induction qs arbitrary: s) (auto split: prod.splits)

lemma chat_breaker:
  assumes "presets \<noteq> []" and "serve_one presets dm q (breaker_state news) = (s', cs, out)"
  shows "s' = breaker_state (news @ primary_news (q, cs))"
proof -
  let ?s = "breaker_state news"
  let ?c = "call_provider (rq_ask q) Primary (rq_kwargs q) []"
  show ?thesis
  proof (cases "primary_available (rq_now q) ?s")
    case False
    then have s: "s' = ?s" and f: "first_answer (rq_ask q) (rq_streaming q) (rq_kwargs q) []
        (map Backup (filter (rq_creatable q) presets)) cs"
      using assms chat_spec [OF assms(2) [unfolded serve_one_def]]
      by (auto simp: serve_one_def chat_def try_with_fallback_def attempts_def)
    have "primary_news (q, cs) = []"
    proof (cases "filter (rq_creatable q) presets")
      case Nil
      with f show ?thesis by (simp add: primary_news_def)
    next
      case (Cons p ps)
      with f obtain c r where "cs = c # r" "c = call_provider (rq_ask q) (Backup p) (pc_kwargs c) []"
        by (auto split: list.splits)
      then have "pc_target c = Backup p" by (metis call_provider_simps(1))
      with \<open>cs = c # r\<close> show ?thesis by (simp add: primary_news_def)
    qed
    with s show ?thesis by simp
  next
    case True
    show ?thesis
    proof (cases "passes_on (rq_streaming q) ?c")
      case False
      with assms True have "cs = [?c]" "s' = (case pc_outcome ?c of Inl _ \<Rightarrow> ?s
          | Inr r \<Rightarrow> if rs_finish_reason r \<noteq> ''error'' then fresh_provider else ?s)"
        by (auto simp: serve_one_def chat_def try_with_fallback_def passes_on_def fresh_provider_def Let_def
            split: sum.splits if_splits)
      with False show ?thesis
        by (auto simp: primary_news_def breaker_succeeded split: sum.splits)
    next
      case pass: True
      then obtain r where r: "pc_outcome ?c = Inr r" "rs_finish_reason r = ''error''"
          "\<not> has_streamed (rq_streaming q) [?c]" "should_fallback r"
        by (auto simp: passes_on_def split: sum.splits)
      with assms True have fb: "fall_back (rq_ask q) (rq_creatable q) (rq_streaming q) presets dm (rq_kwargs q) [?c] (Some r) = (cs, out)"
        and s': "s' = ?s\<lparr>primary_failures := primary_failures ?s + 1, primary_tripped_at :=
            (if primary_failures ?s + 1 \<ge> PRIMARY_FAILURE_THRESHOLD then Some (rq_later q) else primary_tripped_at ?s)\<rparr>"
        by (simp_all add: serve_one_def chat_def try_with_fallback_def Let_def)
      obtain new where "cs = ?c # new"
        using fall_back_spec [OF r(3), of "rq_ask q" "rq_creatable q" presets dm "rq_kwargs q" "Some r"] fb by auto
      then have "primary_news (q, cs) = [(False, rq_later q)]" using pass by (simp add: primary_news_def)
      moreover have "primary_tripped_at ?s = None" if "primary_failures ?s + 1 < 3"
        using that by (simp add: breaker_state_def)
      ultimately show ?thesis unfolding s'
        by (simp add: breaker_failed PRIMARY_FAILURE_THRESHOLD_def)
    qed
  qed
qed

lemma serve_breaker:
  assumes "presets \<noteq> []"
  shows "serve presets dm qs fresh_provider = (s, l) \<Longrightarrow> s = breaker_state (concat (map primary_news l))"
proof (induction qs arbitrary: s l rule: rev_induct)
  case Nil
  then show ?case by (simp add: breaker_state_def failures_in_a_row_def fresh_provider_def)
next
  case (snoc q qs)
  obtain s1 l1 where one: "serve presets dm qs fresh_provider = (s1, l1)" by (rule prod.exhaust)
  obtain s2 cs out where two: "serve_one presets dm q s1 = (s2, cs, out)" by (rule prod_cases3)
  from snoc.prems one two have "s = s2" "l = l1 @ [(q, cs)]" by (simp_all add: serve_snoc)
  with chat_breaker [OF assms, of dm q _ s2 cs out] snoc.IH [OF one] two show ?case by simp
qed

lemma first_answer_targets: "first_answer ask st kw before ts cs \<Longrightarrow> map pc_target cs = take (length cs) ts"
proof (induction ask st kw before ts cs rule: first_answer.induct)
  case (2 ask st kw before t ts cs)
  then obtain c r where c: "cs = c # r" "c = call_provider ask t (pc_kwargs c) before"
    "if passes_on st c then first_answer ask st kw (before @ [c]) ts r else r = []"
    by (auto split: list.splits)
  then have "pc_target c = t" by (metis call_provider_simps(1))
  with 2(1) [OF c(1)] c show ?case by (auto split: if_splits)
qed simp

text \<open>
  The circuit breaker counts right: after any requests its counter is the number of failures of the
  first model since its last success, it is open exactly from the third one in a row, with the time of
  the latest, and a request calls the first model exactly when the breaker is closed or 60 seconds have
  passed since that time - then first, and once.
\<close>

theorem circuit_breaker_counts:
  assumes "presets \<noteq> []" and "serve presets dm qs fresh_provider = (s, served)"
    and "serve_one presets dm q s = (s', cs, out)" and "news = concat (map primary_news served)"
  shows "primary_failures s = failures_in_a_row news \<and>
    primary_tripped_at s = (if failures_in_a_row news \<ge> 3 then Some (snd (last news)) else None) \<and>
    filter (\<lambda>c. pc_target c = Primary) cs = (if failures_in_a_row news \<ge> 3 \<and> rq_now q - snd (last news) < 60000000
      then [] else [hd cs])"
proof -
  have s: "s = breaker_state news" using serve_breaker [OF assms(1,2)] assms(4) by simp
  let ?ts = "attempts (rq_creatable q) presets (rq_now q) s"
  have f: "first_answer (rq_ask q) (rq_streaming q) (rq_kwargs q) [] ?ts cs"
    using chat_spec [OF assms(3) [unfolded serve_one_def]] by blast
  have backs: "filter (\<lambda>c. pc_target c = Primary) cs' = []" if "map pc_target cs' = take n (map Backup ps)" for cs' n ps
  proof -
    have "pc_target ` set cs' \<subseteq> Backup ` set ps"
      using that by (metis image_set set_take_subset)
    then show ?thesis by (auto simp: filter_empty_conv)
  qed
  have "filter (\<lambda>c. pc_target c = Primary) cs = (if primary_available (rq_now q) s then [hd cs] else [])"
  proof (cases "primary_available (rq_now q) s")
    case False
    with first_answer_targets [OF f] assms(1) backs show ?thesis by (simp add: attempts_def)
  next
    case True
    then have ts: "?ts = Primary # map Backup (filter (rq_creatable q) presets)" by (simp add: attempts_def)
    with f obtain c r where c: "cs = c # r" by (auto split: list.splits)
    with first_answer_targets [OF f] ts have "pc_target c = Primary"
      "map pc_target r = take (length r) (map Backup (filter (rq_creatable q) presets))" by simp_all
    with True c backs show ?thesis by simp
  qed
  then show ?thesis unfolding s
    by (simp add: breaker_state_def primary_available_def PRIMARY_COOLDOWN_def)
qed

definition failing_reply :: LLMResponse where
  "failing_reply = \<lparr>rs_content = None, rs_finish_reason = ''error'', rs_status_code = Some 503, rs_kind = None,
     rs_type = None, rs_code = None, rs_should_retry = None\<rparr>"

definition example_preset :: FallbackPreset where
  "example_preset = \<lparr>fp_model = ''small'', fp_max_tokens = 100, fp_temperature = ''0.1'', fp_reasoning = None\<rparr>"

definition example_request :: "int \<Rightarrow> Request" where
  "example_request t = \<lparr>rq_ask = (\<lambda>cs t kw. ([], Inr failing_reply)), rq_creatable = (\<lambda>p. True), rq_streaming = False,
     rq_now = t, rq_later = t, rq_kwargs = []\<rparr>"

theorem circuit_breaker_counts_witness:
  "case serve_one [example_preset] [] (example_request 4)
       (fst (serve [example_preset] [] [example_request 1, example_request 2, example_request 3] fresh_provider)) of
     (s', cs, out) \<Rightarrow> filter (\<lambda>c. pc_target c = Primary) cs = []"
proof -
  let ?qs = "[example_request 1, example_request 2, example_request 3]"
  obtain s l where one: "serve [example_preset] [] ?qs fresh_provider = (s, l)" by (rule prod.exhaust)
  obtain s' cs out where two: "serve_one [example_preset] [] (example_request 4) s = (s', cs, out)" by (rule prod_cases3)
  have "concat (map primary_news (snd (serve [example_preset] [] ?qs fresh_provider))) = [(False, 1), (False, 2), (False, 3)]"
    by code_simp
  then have n: "[(False, 1), (False, 2), (False, 3)] = concat (map primary_news l)" using one by simp
  from circuit_breaker_counts [OF _ one two n] show ?thesis
    using one two by (simp add: failures_in_a_row_def example_request_def)
qed

end
