(* ===== verification/LedgerSqlite.thy ===== *)
theory LedgerSqlite
  imports Ledger
begin

text \<open>
  The SQLite ledger of \<^verbatim>\<open>OriginAgent/evolution/ledger_sqlite.py\<close>, the default back end of
  \<^verbatim>\<open>ledger_factory.py\<close>, beside the file ledger of \<open>Ledger\<close>. The table is the list of its rows in
  \<^verbatim>\<open>rowid\<close> order; a row holds the columns that the code reads and the payload as \<^verbatim>\<open>json.loads\<close> reads
  it. The columns repeat fields of the payload, and nothing but the code that writes them keeps the two
  alike. Connection set-up, the busy timeout and the default of the unread column \<^verbatim>\<open>created_at\<close> are left out.
\<close>

section \<open>The table\<close>

record ledger_row =
  row_id :: string
  row_type :: string
  row_key :: string
  row_digest :: string
  row_previous :: "string option"
  row_hash :: string
  row_signature :: string
  row_payload :: ledger_line

definition insert_row :: "EvolutionEvent \<Rightarrow> ledger_row" where
  "insert_row e =
     \<lparr>row_id = event_id e, row_type = event_type e, row_key = actor_public_key e, row_digest = artifact_digest e,
      row_previous = previous_event_hash e, row_hash = event_hash e, row_signature = signature e,
      row_payload = written (event_to_dict e)\<rparr>"

definition last_row_hash :: "ledger_row list \<Rightarrow> string option" where
  "last_row_hash rs = (if rs = [] then None else Some (row_hash (last rs)))"

text \<open>
  \<^verbatim>\<open>append\<close>: the primary key refuses an identifier that is there, the check of the table an empty
  hash; both are the \<open>IntegrityError\<close>, and the transaction leaves the table as it was.
\<close>

definition append_row ::
    "(string \<Rightarrow> string) \<Rightarrow> identity \<Rightarrow> EvolutionEvent \<Rightarrow> ledger_row list \<Rightarrow> ledger_row list \<times> (ledger_error + EvolutionEvent)" where
  "append_row H idn e rs =
     (let e1 = event_with_previous idn e (last_row_hash rs) in
      case event_error e1 of
        Some msg \<Rightarrow> (rs, Inl (InvalidEvent msg))
      | None \<Rightarrow>
          (case compute_event_hash H (event_to_dict e1) of
             None \<Rightarrow> (rs, Inl DumpError)
           | Some h \<Rightarrow>
               let e2 = e1\<lparr>event_hash := h\<rparr>;
                   e3 = (case idn of Some (_, sign) \<Rightarrow> e2\<lparr>signature := sign h\<rparr> | None \<Rightarrow> e2)
               in if event_id e3 \<in> set (map row_id rs) \<or> h = [] then (rs, Inl IntegrityError)
                  else (rs @ [insert_row e3], Inr e3)))"

text \<open>
  \<^verbatim>\<open>dict(payload)\<close>, for what \<^verbatim>\<open>json.loads\<close> made of the payload. A list of pairs, which it would accept too,
  counts as an error here; the code only writes objects.
\<close>

definition payload_dict :: "ledger_line \<Rightarrow> ledger_error + json_obj" where
  "payload_dict l =
     (case l of
        ObjectLine p \<Rightarrow> Inr p
      | OtherValue j \<Rightarrow> if j = JList [] \<or> j = JStr [] then Inr [] else Inl TypeError
      | _ \<Rightarrow> Inl DecodeError)"

lemma payload_dict_object [simp]: "payload_dict (ObjectLine p) = Inr p"
  by (simp add: payload_dict_def)

text \<open>\<^verbatim>\<open>verify_chain\<close>: the column against the hash of the row before, the hash against the payload.\<close>

fun verify_rows ::
    "(string \<Rightarrow> string) \<Rightarrow> (ledger_row \<Rightarrow> bool) option \<Rightarrow> ledger_row list \<Rightarrow> string option \<Rightarrow> nat \<Rightarrow> nat \<Rightarrow> nat
     \<Rightarrow> ledger_error + LedgerVerificationResult" where
  "verify_rows H sig [] prev n u i = Inr (verified_ok n prev u i)"
| "verify_rows H sig (r # rs) prev n u i =
     (if case_option [] id (row_previous r) \<noteq> case_option [] id prev
      then Inr (mismatch (n + 1) prev (n + 1) (Some (case_option [] id prev)) (JStr (case_option [] id (row_previous r)))
             ''previous_event_hash mismatch'' u i)
      else case payload_dict (row_payload r) of
          Inl err \<Rightarrow> Inl err
        | Inr p \<Rightarrow>
            (case compute_event_hash H p of
               None \<Rightarrow> Inl DumpError
             | Some h \<Rightarrow>
                 if row_hash r \<noteq> h
                 then Inr (mismatch (n + 1) prev (n + 1) (Some h) (JStr (row_hash r)) ''event_hash mismatch'' u i)
                 else
                   let signed = row_signature r \<noteq> [];
                       u1 = (if \<not> signed then u + 1 else u);
                       i1 = (case sig of Some good \<Rightarrow> if signed \<and> \<not> good r then i + 1 else i | None \<Rightarrow> i)
                   in verify_rows H sig rs (Some h) (n + 1) u1 i1))"

definition verify_table ::
    "(string \<Rightarrow> string) \<Rightarrow> (ledger_row \<Rightarrow> bool) option \<Rightarrow> ledger_row list \<Rightarrow> ledger_error + LedgerVerificationResult" where
  "verify_table H sig rs = verify_rows H sig rs None 0 0 0"

section \<open>The configured ledger\<close>

datatype ledger_store = JsonlLedger ledger_file | SqliteLedger "ledger_row list"

text \<open>\<^verbatim>\<open>create_ledger\<close> on a workspace that has no ledger yet: anything but \<^verbatim>\<open>jsonl\<close> is SQLite.\<close>

definition create_ledger :: "string option \<Rightarrow> ledger_store" where
  "create_ledger backend = (if backend = Some ''jsonl'' then JsonlLedger [] else SqliteLedger [])"

definition ledger_append ::
    "(string \<Rightarrow> string) \<Rightarrow> identity \<Rightarrow> EvolutionEvent \<Rightarrow> ledger_store \<Rightarrow> ledger_store \<times> (ledger_error + EvolutionEvent)" where
  "ledger_append H idn e L =
     (case L of JsonlLedger f \<Rightarrow> apfst JsonlLedger (append_event H idn e f)
      | SqliteLedger rs \<Rightarrow> apfst SqliteLedger (append_row H idn e rs))"

definition ledger_verify ::
    "(string \<Rightarrow> string) \<Rightarrow> (json_obj \<Rightarrow> bool) option \<Rightarrow> (ledger_row \<Rightarrow> bool) option \<Rightarrow> ledger_store
     \<Rightarrow> ledger_error + LedgerVerificationResult" where
  "ledger_verify H sig sig_row L =
     (case L of JsonlLedger f \<Rightarrow> verify_chain H sig f | SqliteLedger rs \<Rightarrow> verify_table H sig_row rs)"

text \<open>\<^verbatim>\<open>_has_verified_event\<close>: the file is verified before it is searched, the table is only asked.\<close>

definition has_verified_event :: "(string \<Rightarrow> string) \<Rightarrow> string \<Rightarrow> ledger_store \<Rightarrow> ledger_error + bool" where
  "has_verified_event H digest L =
     (case L of
        SqliteLedger rs \<Rightarrow> Inr (list_ex (\<lambda>r. row_type r = ''module_verified'' \<and> row_digest r = digest) rs)
      | JsonlLedger f \<Rightarrow>
          map_sum id (\<lambda>v. lv_ok v \<and>
              list_ex (\<lambda>e. field ''event_type'' e = JStr ''module_verified'' \<and> field ''artifact_digest'' e = JStr digest) (records f))
            (verify_chain H None f))"

text \<open>The events as a file would hold them.\<close>

definition ledger_lines :: "ledger_store \<Rightarrow> ledger_file" where
  "ledger_lines L = (case L of JsonlLedger f \<Rightarrow> f | SqliteLedger rs \<Rightarrow> map row_payload rs)"

abbreviation ledger_events :: "ledger_store \<Rightarrow> json_obj list" where
  "ledger_events L \<equiv> records (ledger_lines L)"

definition ledger_size :: "ledger_store \<Rightarrow> nat" where
  "ledger_size L = length (ledger_lines L)"

section \<open>What the code writes\<close>

text \<open>A row whose columns say what its payload says.\<close>

definition row_agrees :: "ledger_row \<Rightarrow> bool" where
  "row_agrees r = (\<exists>p. row_payload r = ObjectLine p \<and> field ''event_id'' p = JStr (row_id r) \<and>
     field ''event_type'' p = JStr (row_type r) \<and> field ''artifact_digest'' p = JStr (row_digest r) \<and>
     field ''previous_event_hash'' p = opt_json (row_previous r) \<and> field ''event_hash'' p = JStr (row_hash r))"

definition good_ledger :: "(string \<Rightarrow> string) \<Rightarrow> ledger_store \<Rightarrow> bool" where
  "good_ledger H L = (good_chain H (ledger_lines L) \<and>
     (case L of JsonlLedger f \<Rightarrow> True | SqliteLedger rs \<Rightarrow> list_all row_agrees rs))"

fun ledger_extends :: "ledger_store \<Rightarrow> ledger_store \<Rightarrow> bool" where
  "ledger_extends (JsonlLedger f) (JsonlLedger g) = (\<exists>ls. g = f @ ls)"
| "ledger_extends (SqliteLedger rs) (SqliteLedger qs) = (\<exists>ls. qs = rs @ ls)"
| "ledger_extends _ _ = False"

lemma ledger_extends_refl [simp, intro]: "ledger_extends L L"
  by (cases L) auto

lemma ledger_extends_trans: "ledger_extends K L \<Longrightarrow> ledger_extends L M \<Longrightarrow> ledger_extends K M"
  by (cases K; cases L; cases M) auto

lemma extends_lines: "ledger_extends K L \<Longrightarrow> \<exists>ls. ledger_lines L = ledger_lines K @ ls"
  by (cases K; cases L) (auto simp: ledger_lines_def)

lemma written_field:
  assumes "written e = ObjectLine p"
  shows "field k p = sort_keys (field k e)"
proof -
  have r: "sort_keys (JObj e) = JObj p" using assms written_object [of e] by auto
  show ?thesis using sorted_field [OF r, of k] by (auto simp: field_def split: option.splits)
qed

lemma inserted_agrees: "row_agrees (insert_row e)"
proof -
  obtain p where p: "written (event_to_dict e) = ObjectLine p" using written_object by blast
  have "field ''event_id'' (event_to_dict e) = JStr (event_id e)" "field ''event_type'' (event_to_dict e) = JStr (event_type e)"
    "field ''artifact_digest'' (event_to_dict e) = JStr (artifact_digest e)"
    "field ''previous_event_hash'' (event_to_dict e) = opt_json (previous_event_hash e)"
    "field ''event_hash'' (event_to_dict e) = JStr (event_hash e)"
    by (simp_all add: field_def event_to_dict_def)
  then show ?thesis
    by (simp add: row_agrees_def insert_row_def p written_field [OF p] opt_json_def split: option.splits)
qed

lemma last_row_good:
  assumes "good_ledger H (SqliteLedger rs)"
  shows "last_row_hash rs = terminal_hash H None (records (map row_payload rs))"
proof (cases rs rule: rev_exhaust)
  case Nil
  then show ?thesis by (simp add: last_row_hash_def terminal_hash_def)
next
  case (snoc qs r)
  have g: "linked H None (records (map row_payload rs))" "row_agrees r"
    using assms snoc by (simp_all add: good_ledger_def good_chain_def ledger_lines_def)
  then obtain p where p: "row_payload r = ObjectLine p" "field ''event_hash'' p = JStr (row_hash r)"
    by (auto simp: row_agrees_def)
  from g(1) snoc p have "compute_event_hash H p = Some (row_hash r)" by (auto simp: linked_append)
  with snoc p show ?thesis by (simp add: last_row_hash_def terminal_hash_def)
qed

text \<open>On a table the code wrote, appending a new identifier does what appending to the file does.\<close>

lemma append_row_refines:
  assumes "proper_hash H" and "good_ledger H (SqliteLedger rs)"
  shows "append_row H idn e rs =
    (case append_event H idn e (map row_payload rs) of
       (f, Inl err) \<Rightarrow> (rs, Inl err)
     | (f, Inr e') \<Rightarrow> if event_id e \<in> set (map row_id rs) then (rs, Inl IntegrityError) else (rs @ [insert_row e'], Inr e'))"
proof -
  have good: "good_chain H (map row_payload rs)" using assms(2) by (simp add: good_ledger_def ledger_lines_def)
  note prev = last_hash_good [OF assms(1) good]
  have eid: "event_id (event_with_previous k e p) = event_id e" for k p by (simp add: event_with_previous_def)
  show ?thesis
    unfolding append_row_def append_event_def prev last_row_good [OF assms(2)] Let_def
    using hash_not_empty [OF assms(1)]
    by (cases idn) (auto simp: eid split: option.splits)
qed

lemma insert_row_fields:
  "row_payload (insert_row e) = written (event_to_dict e)" "row_id (insert_row e) = event_id e"
  by (simp_all add: insert_row_def)

lemma ledger_append_good:
  assumes "proper_hash H" and "good_ledger H L"
  shows "good_ledger H (fst (ledger_append H idn e L)) \<and> ledger_extends L (fst (ledger_append H idn e L))"
proof (cases L)
  case (JsonlLedger f)
  have "\<exists>ls. fst (append_event H idn e f) = f @ ls"
    by (auto simp: append_event_def Let_def split: sum.splits option.splits)
  with append_good [OF assms(1), of f idn e] assms(2) JsonlLedger show ?thesis
    by (auto simp: ledger_append_def good_ledger_def ledger_lines_def)
next
  case (SqliteLedger rs)
  note g = assms(2) [unfolded SqliteLedger]
  have good: "good_chain H (map row_payload rs)" using g by (simp add: good_ledger_def ledger_lines_def)
  show ?thesis
  proof (cases "appendable e")
    case False
    from append_event_good(2) [OF assms(1) good False, of idn] obtain err where
      "append_event H idn e (map row_payload rs) = (map row_payload rs, Inl err)" by (metis prod.collapse)
    then have "append_row H idn e rs = (rs, Inl err)" by (simp add: append_row_refines [OF assms(1) g])
    with g SqliteLedger show ?thesis by (simp add: ledger_append_def)
  next
    case True
    let ?s = "sealed H idn e (map row_payload rs)"
    note a = append_event_good(1) [OF assms(1) good True, of idn]
    have ar: "append_row H idn e rs = (if event_id e \<in> set (map row_id rs) then (rs, Inl IntegrityError) else (rs @ [insert_row ?s], Inr ?s))"
      by (simp add: append_row_refines [OF assms(1) g] a)
    have "good_chain H (map row_payload rs @ [written (event_to_dict ?s)])" using append_good [OF assms(1) good, of idn e] by (simp add: a)
    with g have "good_ledger H (SqliteLedger (rs @ [insert_row ?s]))"
      by (simp add: good_ledger_def ledger_lines_def insert_row_fields inserted_agrees)
    with g SqliteLedger ar show ?thesis by (simp add: ledger_append_def)
  qed
qed

text \<open>The identifier is new to the table; the file does not care.\<close>

definition id_free :: "string \<Rightarrow> ledger_store \<Rightarrow> bool" where
  "id_free i L = (case L of JsonlLedger f \<Rightarrow> True | SqliteLedger rs \<Rightarrow> i \<notin> set (map row_id rs))"

lemma ledger_append_adds:
  assumes "proper_hash H" and "good_ledger H L" and "appendable e" and "id_free (event_id e) L"
  obtains L' e' r where "ledger_append H idn e L = (L', Inr e')" "ledger_lines L' = ledger_lines L @ [ObjectLine r]"
    "field ''event_type'' r = JStr (event_type e)" "field ''artifact_digest'' r = JStr (artifact_digest e)"
    "field ''module_id'' r = JStr (module_id e)" "good_ledger H L'" "ledger_extends L L'"
    "\<forall>i. i \<noteq> event_id e \<longrightarrow> id_free i L \<longrightarrow> id_free i L'"
proof -
  have good: "good_chain H (ledger_lines L)" using assms(2) by (simp add: good_ledger_def)
  let ?s = "sealed H idn e (ledger_lines L)"
  obtain r where r: "append_event H idn e (ledger_lines L) = (ledger_lines L @ [ObjectLine r], Inr ?s)"
    "field ''event_type'' r = JStr (event_type e)" "field ''artifact_digest'' r = JStr (artifact_digest e)"
    "field ''module_id'' r = JStr (module_id e)"
    by (rule appended_record [OF assms(1) good assms(3)])
  have w: "written (event_to_dict ?s) = ObjectLine r"
    using r(1) append_event_good(1) [OF assms(1) good assms(3), of idn] by simp
  note inv = ledger_append_good [OF assms(1,2), of idn e]
  have sid: "event_id ?s = event_id e" by (simp add: sealed_def Let_def event_with_previous_def)
  show thesis
  proof (cases L)
    case (JsonlLedger f)
    then have "ledger_append H idn e L = (JsonlLedger (f @ [ObjectLine r]), Inr ?s)"
      using r(1) by (simp add: ledger_append_def ledger_lines_def)
    with inv r JsonlLedger show thesis
      by (intro that [of "JsonlLedger (f @ [ObjectLine r])" ?s r]) (auto simp: ledger_lines_def id_free_def)
  next
    case (SqliteLedger rs)
    have "append_row H idn e rs = (rs @ [insert_row ?s], Inr ?s)"
      using append_row_refines [OF assms(1) assms(2) [unfolded SqliteLedger], of idn e] r(1) assms(4) SqliteLedger
      by (simp add: ledger_lines_def id_free_def)
    then have "ledger_append H idn e L = (SqliteLedger (rs @ [insert_row ?s]), Inr ?s)"
      using SqliteLedger by (simp add: ledger_append_def)
    moreover have "written (event_to_dict (sealed H idn e (map row_payload rs))) = ObjectLine r"
      "event_id (sealed H idn e (map row_payload rs)) = event_id e"
      using w sid SqliteLedger by (simp_all add: ledger_lines_def)
    ultimately show thesis using inv r SqliteLedger
      by (intro that [of "SqliteLedger (rs @ [insert_row ?s])" ?s r])
        (auto simp: ledger_lines_def id_free_def insert_row_fields)
  qed
qed

section \<open>What verification says\<close>

lemma verify_rows_ok:
  "list_all row_agrees rs \<Longrightarrow> linked H prev (records (map row_payload rs)) \<Longrightarrow>
   \<exists>u' i'. verify_rows H sig rs prev n u i =
     Inr (verified_ok (n + length rs) (terminal_hash H prev (records (map row_payload rs))) u' i')"
proof (induction rs arbitrary: prev n u i)
  case Nil
  then show ?case by (auto simp: terminal_hash_def)
next
  case (Cons r rs)
  then obtain p where p: "row_payload r = ObjectLine p" "field ''previous_event_hash'' p = opt_json (row_previous r)"
    "field ''event_hash'' p = JStr (row_hash r)" by (auto simp: row_agrees_def)
  from Cons.prems(2) p obtain h where h: "compute_event_hash H p = Some h" "row_hash r = h" "row_previous r = prev"
    "linked H (Some h) (records (map row_payload rs))"
    by (auto simp: opt_json_def split: option.splits)
  have t: "terminal_hash H (Some h) (records (map row_payload rs)) = terminal_hash H prev (p # records (map row_payload rs))"
    using h(1) by (cases "records (map row_payload rs)") (auto simp: terminal_hash_def)
  have l: "list_all row_agrees rs" using Cons.prems(1) by simp
  show ?case using Cons.IH [OF l h(4), of "n + 1"] by (simp add: p h Let_def t)
qed

text \<open>Both back ends accept what the code wrote, and count the events and name the last hash.\<close>

lemma ledger_verifies:
  assumes "good_ledger H L"
  shows "is_ok (ledger_verify H sig sig_row L)"
proof (cases L)
  case (JsonlLedger f)
  with assms show ?thesis
    using verify_loop_ok [of H sig f] by (simp add: ledger_verify_def verify_chain_def good_ledger_def good_chain_def ledger_lines_def)
next
  case (SqliteLedger rs)
  with assms verify_rows_ok [of rs H None sig_row 0 0 0] show ?thesis
    by (auto simp: ledger_verify_def verify_table_def good_ledger_def good_chain_def ledger_lines_def is_ok_def verified_ok_def)
qed

text \<open>The ledger names a verification of the digest: the file in an event, the table in its columns.\<close>

definition on_record :: "string \<Rightarrow> ledger_store \<Rightarrow> bool" where
  "on_record digest L =
     (case L of
        JsonlLedger f \<Rightarrow> \<exists>e \<in> set (records f). field ''event_type'' e = JStr ''module_verified'' \<and> field ''artifact_digest'' e = JStr digest
      | SqliteLedger rs \<Rightarrow> \<exists>r \<in> set rs. row_type r = ''module_verified'' \<and> row_digest r = digest)"

lemma on_record_extends: "ledger_extends K L \<Longrightarrow> on_record d K \<Longrightarrow> on_record d L"
  by (cases K; cases L) (auto simp: on_record_def)

lemma verified_event_good:
  "has_verified_event H digest L = Inr True \<Longrightarrow> on_record digest L \<and> (\<forall>f. L = JsonlLedger f \<longrightarrow> good_chain H f)"
proof (cases L)
  case (JsonlLedger f)
  assume "has_verified_event H digest L = Inr True"
  with JsonlLedger show ?thesis
    using verify_loop_ok [of H None f 1 None 0 0 0]
    by (cases "verify_chain H None f")
      (auto simp: has_verified_event_def verify_chain_def is_ok_def good_chain_def list_ex_iff on_record_def)
qed (auto simp: has_verified_event_def on_record_def list_ex_iff)

lemma verified_event_recorded:
  assumes "good_ledger H L" and "field ''event_type'' r = JStr ''module_verified''"
    and "field ''artifact_digest'' r = JStr d" and "r \<in> set (ledger_events L)"
  shows "has_verified_event H d L = Inr True"
proof (cases L)
  case (JsonlLedger f)
  then have g: "good_chain H f" using assms(1) by (simp add: good_ledger_def ledger_lines_def)
  obtain u i where "verify_chain H None f = Inr (verified_ok (0 + length (records f)) (terminal_hash H None (records f)) u i)"
    using verify_loop_result [of f H None None 1 0 0 0] g by (auto simp: good_chain_def verify_chain_def)
  with JsonlLedger show ?thesis using assms(2-4) by (auto simp: has_verified_event_def verified_ok_def list_ex_iff ledger_lines_def)
next
  case (SqliteLedger rs)
  have "ObjectLine e \<in> set ls" if "e \<in> set (records ls)" for e ls
    using that by (induction ls rule: records.induct) auto
  from this [OF assms(4)] SqliteLedger obtain q where q: "q \<in> set rs" "row_payload q = ObjectLine r"
    by (auto simp: ledger_lines_def)
  then have "row_agrees q" using assms(1) SqliteLedger by (auto simp: good_ledger_def list_all_iff)
  with q assms(2,3) have "row_type q = ''module_verified''" "row_digest q = d" by (auto simp: row_agrees_def)
  with q(1) SqliteLedger show ?thesis by (auto simp: has_verified_event_def list_ex_iff)
qed

text \<open>
  The hash of a row covers the payload, and the payload names the hash of the event before it, but
  \<^verbatim>\<open>verify_chain\<close> reads the predecessor from the column, which no hash covers: with the column patched, an
  event taken out of the middle of the table is not missed.
\<close>

definition patched :: "string option \<Rightarrow> ledger_row \<Rightarrow> ledger_row" where
  "patched prev r = r\<lparr>row_previous := prev\<rparr>"

lemma verify_rows_unpatched:
  assumes "row_payload r = ObjectLine p" and "compute_event_hash H p = Some (row_hash r)"
  shows "verify_rows H None (patched prev r # rs) prev n u i =
    verify_rows H None rs (Some (row_hash r)) (n + 1) (if row_signature r = [] then u + 1 else u) i"
  using assms by (simp add: patched_def Let_def)

lemma is_ok_simps [simp]: "is_ok (Inl err) = False" "is_ok (Inr v) = lv_ok v"
  by (simp_all add: is_ok_def)

lemma verify_rows_counts:
  "is_ok (verify_rows H sig rs prev n u i) = is_ok (verify_rows H sig rs prev n' u' i')"
proof (induction rs arbitrary: prev n u i n' u' i')
  case Nil
  then show ?case by (simp add: verified_ok_def)
next
  case (Cons r rs)
  show ?case
  proof (cases "payload_dict (row_payload r)")
    case (Inr p)
    show ?thesis
    proof (cases "compute_event_hash H p")
      case (Some h)
      then show ?thesis using Inr
        by (simp add: mismatch_def Let_def) (intro impI conjI; rule Cons.IH)
    qed (simp add: Inr mismatch_def)
  qed (simp add: mismatch_def)
qed

lemma removed_event_unnoticed:
  assumes "good_ledger H (SqliteLedger (qs @ [gone, r] @ rs))"
  shows "is_ok (verify_table H None (qs @ [patched (last_row_hash qs) r] @ rs))"
proof -
  have all: "list_all row_agrees (qs @ [gone, r] @ rs)" "linked H None (records (map row_payload (qs @ [gone, r] @ rs)))"
    using assms by (simp_all add: good_ledger_def good_chain_def ledger_lines_def)
  obtain g p where gp: "row_payload gone = ObjectLine g" "row_payload r = ObjectLine p" "field ''event_hash'' p = JStr (row_hash r)"
    using all(1) by (auto simp: row_agrees_def)
  have split: "linked H prev (es @ fs) \<longleftrightarrow> linked H prev es \<and> linked H (terminal_hash H prev es) fs" for prev es fs
  proof (induction es arbitrary: prev)
    case (Cons a es)
    have "terminal_hash H (Some h) es = terminal_hash H prev (a # es)" if "compute_event_hash H a = Some h" for h
      using that by (cases es) (auto simp: terminal_hash_def)
    with Cons show ?case by (auto split: option.splits)
  qed (simp add: terminal_hash_def)
  have q: "linked H None (records (map row_payload qs))" using all(2) by (simp add: split)
  have p: "compute_event_hash H p = Some (row_hash r)" "linked H (Some (row_hash r)) (records (map row_payload rs))"
    using all(2) gp by (auto simp: split split: option.splits)
  have gq: "good_ledger H (SqliteLedger qs)"
  proof -
    have "list_all readable_line (map row_payload qs)" using assms by (simp add: good_ledger_def good_chain_def ledger_lines_def)
    with all(1) q show ?thesis by (simp add: good_ledger_def good_chain_def ledger_lines_def)
  qed
  have app: "is_ok (verify_rows H None (xs @ ys) prev n u i) = is_ok (verify_rows H None ys (terminal_hash H prev (records (map row_payload xs))) n u i)"
    if "list_all row_agrees xs" "linked H prev (records (map row_payload xs))" for xs ys prev n u i
    using that
  proof (induction xs arbitrary: prev n u i)
    case Nil
    then show ?case by (simp add: terminal_hash_def)
  next
    case (Cons x xs)
    then obtain y where y: "row_payload x = ObjectLine y" "field ''previous_event_hash'' y = opt_json (row_previous x)"
      "field ''event_hash'' y = JStr (row_hash x)" by (auto simp: row_agrees_def)
    from Cons.prems(2) y have h: "compute_event_hash H y = Some (row_hash x)" "row_previous x = prev"
      "linked H (Some (row_hash x)) (records (map row_payload xs))"
      by (auto simp: opt_json_def split: option.splits)
    have t: "terminal_hash H (Some (row_hash x)) (records (map row_payload xs)) = terminal_hash H prev (y # records (map row_payload xs))"
      using h(1) by (cases "records (map row_payload xs)") (auto simp: terminal_hash_def)
    have l: "list_all row_agrees xs" using Cons.prems(1) by simp
    show ?case
      using Cons.IH [OF l h(3)] verify_rows_counts [of H None ys "terminal_hash H prev (y # records (map row_payload xs))"]
      by (simp add: y h Let_def t)
  qed
  have "is_ok (verify_rows H None rs (Some (row_hash r)) 1 0 0)"
  proof -
    have "list_all row_agrees rs" using all(1) by simp
    from verify_rows_ok [OF this p(2), of None 1 0 0] show ?thesis by (auto simp: is_ok_def verified_ok_def)
  qed
  then have "is_ok (verify_rows H None (patched (last_row_hash qs) r # rs) (last_row_hash qs) 0 0 0)"
    using verify_rows_counts [of H None rs "Some (row_hash r)"] by (simp only: verify_rows_unpatched [OF gp(2) p(1)]) blast
  then show ?thesis
    using app [of qs None "patched (last_row_hash qs) r # rs" 0 0 0] all(1) q last_row_good [OF gq]
    by (simp add: verify_table_def)
qed

end
