(* ===== verification/Package.thy ===== *)
theory Package
  imports Prelude
begin

text \<open>
  A module package on disk: \<^verbatim>\<open>evolution/package.py\<close>. A directory is a tree of named entries; which
  of its files belong to the artifact, the digest over them (the hash function is a parameter) and the
  copy that staging makes. Reading a file never fails here, and the text of an error names no path.
\<close>

section \<open>Trees\<close>

text \<open>
  \<open>Symlink (Some c)\<close> resolves to a regular file with content \<open>c\<close>; \<open>Special\<close> is a pipe or device.
\<close>

datatype entry =
    RegularFile string
  | Directory "(string \<times> entry) list"
  | Symlink "string option"
  | Special

type_synonym tree = "(string \<times> entry) list"

definition EXCLUDED_DIR_NAMES :: "string list" where
  "EXCLUDED_DIR_NAMES = [''.git'', ''__pycache__'', ''.pytest_cache'', ''.ruff_cache'']"

text \<open>\<^verbatim>\<open>Path.suffix\<close>: from the last dot, when it is neither the first nor the last character (Python up to 3.13).\<close>

definition path_suffix :: "string \<Rightarrow> string" where
  "path_suffix name =
     (let tl_part = takeWhile (\<lambda>c. c \<noteq> CHR ''.'') (rev name); before = drop (length tl_part + 1) (rev name)
      in if tl_part = [] \<or> before = [] then []
         else CHR ''.'' # rev tl_part)"

definition is_excluded_file :: "string \<Rightarrow> bool" where
  "is_excluded_file name = (name \<in> set EXCLUDED_DIR_NAMES \<or> path_suffix name \<in> {''.pyc'', ''.pyo''})"

definition join_path :: "string \<Rightarrow> string \<Rightarrow> string" where
  "join_path prefix name = (if prefix = [] then name else prefix @ CHR ''/'' # name)"

text \<open>
  The files below a directory, each with its path; \<open>None\<close> when a symlink is met. An excluded directory
  is not entered.
\<close>

fun walk_entry :: "string \<Rightarrow> string \<Rightarrow> entry \<Rightarrow> (string \<times> string) list option"
  and walk_files :: "string \<Rightarrow> (string \<times> entry) list \<Rightarrow> (string \<times> string) list option" where
  "walk_entry path name (RegularFile c) = Some (if is_excluded_file name then [] else [(path, c)])"
| "walk_entry path name (Directory es) = (if name \<in> set EXCLUDED_DIR_NAMES then Some [] else walk_files path es)"
| "walk_entry path name (Symlink c) = None"
| "walk_entry path name Special = Some []"
| "walk_files prefix [] = Some []"
| "walk_files prefix ((name, e) # es) =
     (case walk_entry (join_path prefix name) name e of
        None \<Rightarrow> None
      | Some fs \<Rightarrow> map_option (\<lambda>gs. fs @ gs) (walk_files prefix es))"

definition included_artifact_files :: "tree \<Rightarrow> (string \<times> string) list option" where
  "included_artifact_files t = map_option (sort_key fst) (walk_files [] t)"

section \<open>The digest\<close>

definition digest_input :: "(string \<times> string) list \<Rightarrow> string" where
  "digest_input fs = concat (map (\<lambda>(path, c). path @ CHR 0x00 # c @ [CHR 0x00]) fs)"

definition compute_artifact_digest :: "(string \<Rightarrow> string) \<Rightarrow> tree \<Rightarrow> string option" where
  "compute_artifact_digest H t = map_option (H \<circ> digest_input) (included_artifact_files t)"

text \<open>\<^verbatim>\<open>copy_artifact\<close>: the target holds the included files, and only the directories they need.\<close>

fun copy_entry :: "string \<Rightarrow> entry \<Rightarrow> entry option"
  and copy_entries :: "tree \<Rightarrow> tree" where
  "copy_entry name (RegularFile c) = (if is_excluded_file name then None else Some (RegularFile c))"
| "copy_entry name (Directory es) =
     (if name \<in> set EXCLUDED_DIR_NAMES then None
      else let copied = copy_entries es in if copied = [] then None else Some (Directory copied))"
| "copy_entry name (Symlink c) = None"
| "copy_entry name Special = None"
| "copy_entries [] = []"
| "copy_entries ((name, e) # es) =
     (case copy_entry name e of None \<Rightarrow> copy_entries es | Some e' \<Rightarrow> (name, e') # copy_entries es)"

definition copy_artifact :: "tree \<Rightarrow> tree option" where
  "copy_artifact t = (if included_artifact_files t = None then None else Some (copy_entries t))"

section \<open>The copy has the files of the source\<close>

lemma walk_copy:
  "walk_entry path name e = Some fs \<Longrightarrow>
     (case copy_entry name e of None \<Rightarrow> fs = [] | Some e' \<Rightarrow> walk_entry path name e' = Some fs)"
  "walk_files prefix es = Some fs \<Longrightarrow> walk_files prefix (copy_entries es) = Some fs"
proof (induction path name e and prefix es arbitrary: fs and fs rule: walk_entry_walk_files.induct)
  case (2 path name es)
  then show ?case
    by (cases "name \<in> set EXCLUDED_DIR_NAMES"; cases "copy_entries es") (simp_all add: Let_def)
next
  case (6 prefix name e es)
  then show ?case by (auto split: option.splits)
qed (auto split: if_splits)

lemma copy_files: "copy_artifact t = Some u \<Longrightarrow> included_artifact_files u = included_artifact_files t"
  using walk_copy(2) [of "[]" t] by (cases "walk_files [] t") (auto simp: copy_artifact_def included_artifact_files_def)

section \<open>What the digest tells apart\<close>

text \<open>Names never hold the NUL character; \<open>text_files\<close> asks it of the contents too.\<close>

definition no_nul :: "string \<Rightarrow> bool" where
  "no_nul s = (CHR 0x00 \<notin> set s)"

fun names_ok :: "entry \<Rightarrow> bool" and tree_ok :: "tree \<Rightarrow> bool" where
  "names_ok (Directory es) = tree_ok es"
| "names_ok _ = True"
| "tree_ok [] = True"
| "tree_ok ((name, e) # es) = (no_nul name \<and> names_ok e \<and> tree_ok es)"

definition text_files :: "tree \<Rightarrow> bool" where
  "text_files t = (case included_artifact_files t of None \<Rightarrow> False | Some fs \<Rightarrow> list_all (no_nul \<circ> snd) fs)"

lemma walk_no_nul:
  "walk_entry path name e = Some fs \<Longrightarrow> no_nul path \<Longrightarrow> names_ok e \<Longrightarrow> list_all (no_nul \<circ> fst) fs"
  "walk_files prefix es = Some fs \<Longrightarrow> no_nul prefix \<Longrightarrow> tree_ok es \<Longrightarrow> list_all (no_nul \<circ> fst) fs"
proof (induction path name e and prefix es arbitrary: fs and fs rule: walk_entry_walk_files.induct)
  case (6 prefix name e es)
  then obtain gs hs where "walk_entry (join_path prefix name) name e = Some gs" "walk_files prefix es = Some hs" "fs = gs @ hs"
    by (auto split: option.splits)
  moreover have "no_nul (join_path prefix name)" using 6 by (simp add: no_nul_def join_path_def)
  ultimately show ?case using 6 by auto
qed (auto split: if_splits)

lemma list_all_sort_key: "list_all P (sort_key f xs) = list_all P xs"
  by (simp add: list_all_iff)

lemma included_no_nul: "included_artifact_files t = Some fs \<Longrightarrow> tree_ok t \<Longrightarrow> list_all (no_nul \<circ> fst) fs"
  using walk_no_nul(2) [of "[]" t] by (auto simp: included_artifact_files_def list_all_sort_key no_nul_def)

lemma cut_at_nul: "no_nul a \<Longrightarrow> no_nul b \<Longrightarrow> a @ CHR 0x00 # x = b @ CHR 0x00 # y \<Longrightarrow> a = b \<and> x = y"
  by (induction a arbitrary: b) (auto simp: no_nul_def Cons_eq_append_conv append_eq_Cons_conv)

lemma digest_input_inj:
  "list_all (no_nul \<circ> fst) fs \<Longrightarrow> list_all (no_nul \<circ> snd) fs \<Longrightarrow> list_all (no_nul \<circ> fst) gs \<Longrightarrow>
   list_all (no_nul \<circ> snd) gs \<Longrightarrow> digest_input fs = digest_input gs \<Longrightarrow> fs = gs"
proof (induction fs arbitrary: gs)
  case Nil
  then show ?case by (cases gs) (auto simp: digest_input_def)
next
  case (Cons f fs)
  then obtain g gs' where gs: "gs = g # gs'" by (cases gs) (auto simp: digest_input_def split: prod.splits)
  have eq: "fst f @ CHR 0x00 # (snd f @ CHR 0x00 # digest_input fs) = fst g @ CHR 0x00 # (snd g @ CHR 0x00 # digest_input gs')"
    using Cons.prems(5) by (simp add: gs digest_input_def case_prod_beta)
  from cut_at_nul [OF _ _ eq] Cons.prems gs have "fst f = fst g" "snd f @ CHR 0x00 # digest_input fs = snd g @ CHR 0x00 # digest_input gs'"
    by auto
  with cut_at_nul [of "snd f" "snd g"] Cons.prems gs have "f = g" "digest_input fs = digest_input gs'"
    by (auto intro: prod_eqI)
  with Cons gs show ?case by auto
qed

text \<open>
  The digest of a package identifies its artifact: the staged copy of a package has the digest of
  the package, and two packages of text files with the same digest have the same included files, or
  their two texts collide under the hash.
\<close>

theorem digest_identifies_artifact:
  assumes "compute_artifact_digest H t = Some d" and "compute_artifact_digest H u = Some d"
    and "tree_ok t" and "tree_ok u" and "text_files t" and "text_files u"
  shows "compute_artifact_digest H (the (copy_artifact t)) = Some d \<and>
    (included_artifact_files t = included_artifact_files u \<or>
     (\<exists>fs gs. included_artifact_files t = Some fs \<and> included_artifact_files u = Some gs \<and>
        digest_input fs \<noteq> digest_input gs \<and> H (digest_input fs) = H (digest_input gs)))"
proof -
  obtain fs gs where f: "included_artifact_files t = Some fs" "included_artifact_files u = Some gs"
      "H (digest_input fs) = d" "H (digest_input gs) = d"
    using assms(1,2) by (auto simp: compute_artifact_digest_def)
  have "fs = gs" if "digest_input fs = digest_input gs"
    using digest_input_inj [OF _ _ _ _ that] f included_no_nul assms(3-6) by (auto simp: text_files_def)
  with f have "included_artifact_files t = included_artifact_files u \<or>
      (\<exists>fs gs. included_artifact_files t = Some fs \<and> included_artifact_files u = Some gs \<and>
         digest_input fs \<noteq> digest_input gs \<and> H (digest_input fs) = H (digest_input gs))" by auto
  moreover have "compute_artifact_digest H (the (copy_artifact t)) = Some d"
    using assms(1) copy_files [of t] by (simp add: compute_artifact_digest_def copy_artifact_def f)
  ultimately show ?thesis by simp
qed

theorem digest_identifies_artifact_witness:
  "compute_artifact_digest id (the (copy_artifact [(''run.py'', RegularFile ''x''), (''run.pyc'', RegularFile ''y'')])) =
     Some (''run.py'' @ [CHR 0x00] @ ''x'' @ [CHR 0x00])"
proof -
  let ?t = "[(''run.py'', RegularFile ''x''), (''run.pyc'', RegularFile ''y'')]"
  have "compute_artifact_digest id ?t = Some (''run.py'' @ [CHR 0x00] @ ''x'' @ [CHR 0x00])" "tree_ok ?t" "text_files ?t"
    by code_simp+
  with digest_identifies_artifact [of id ?t _ ?t] show ?thesis by blast
qed

text \<open>
  With NUL characters in a file the digest is ambiguous: one file whose content contains the
  separators has the digest of two files, whatever the hash.
\<close>

lemma nul_content_ambiguous:
  "compute_artifact_digest H [(''a'', RegularFile (''x'' @ [CHR 0x00] @ ''b'' @ [CHR 0x00] @ ''y''))] =
   compute_artifact_digest H [(''a'', RegularFile ''x''), (''b'', RegularFile ''y'')]"
  by (simp add: compute_artifact_digest_def included_artifact_files_def digest_input_def join_path_def
      is_excluded_file_def path_suffix_def EXCLUDED_DIR_NAMES_def)

end
