(* ===== verification/Verifier.thy ===== *)
theory Verifier
  imports Payload Package
begin

text \<open>
  What a module has to satisfy before it may be activated: its manifest (\<^verbatim>\<open>evolution/manifest.py\<close>), the
  static scan of its Python files (\<^verbatim>\<open>evolution/code_scanner.py\<close>) and the verifier that puts them together
  (\<^verbatim>\<open>evolution/verifier.py\<close>). The YAML and Python parsers and the validator of domain packs are
  parameters. Messages that quote an exception hold the text the parameter gives for it.
\<close>

section \<open>Manifests\<close>

record EvolutionManifest =
  mf_module_id :: string
  mf_module_type :: string
  mf_version :: string
  mf_target :: json_obj
  mf_module_api :: string
  mf_permissions :: json_obj
  mf_runtime :: json_obj
  mf_context_budget :: json_obj
  mf_endpoints :: "string list"
  mf_side_effects :: json_obj
  mf_tests :: json_obj

definition MODULE_SCHEMA_VERSION :: string where
  "MODULE_SCHEMA_VERSION = ''originagent.evolution.module.v1''"

definition ALLOWED_MODULE_TYPES :: "string list" where
  "ALLOWED_MODULE_TYPES = [''domain_pack'', ''skill'', ''tool'', ''workflow'']"

definition required_string :: "json_obj \<Rightarrow> string \<Rightarrow> string + string" where
  "required_string raw k =
     (case dict_get raw k of
        Some (JStr s) \<Rightarrow> if py_strip s = [] then Inl (''missing required field: '' @ k) else Inr (py_strip s)
      | _ \<Rightarrow> Inl (''missing required field: '' @ k))"

definition optional_string :: "json_obj \<Rightarrow> string \<Rightarrow> string + string" where
  "optional_string raw k =
     (case dict_get raw k of None \<Rightarrow> Inr [] | Some JNull \<Rightarrow> Inr []
      | Some (JStr s) \<Rightarrow> Inr (py_strip s) | Some _ \<Rightarrow> Inl (k @ '' must be a string''))"

definition optional_mapping :: "json_obj \<Rightarrow> string \<Rightarrow> string + json_obj" where
  "optional_mapping raw k =
     (case dict_get raw k of None \<Rightarrow> Inr [] | Some JNull \<Rightarrow> Inr []
      | Some (JObj d) \<Rightarrow> Inr d | Some _ \<Rightarrow> Inl (k @ '' must be a mapping''))"

fun string_entries :: "string \<Rightarrow> json list \<Rightarrow> string + string list" where
  "string_entries k [] = Inr []"
| "string_entries k (v # vs) =
     (case v of
        JStr s \<Rightarrow> if py_strip s = [] then Inl (k @ '' entries must be non-empty strings'')
                  else map_sum id (\<lambda>r. py_strip s # r) (string_entries k vs)
      | _ \<Rightarrow> Inl (k @ '' entries must be non-empty strings''))"

definition optional_string_tuple :: "json_obj \<Rightarrow> string \<Rightarrow> string + string list" where
  "optional_string_tuple raw k =
     (case dict_get raw k of None \<Rightarrow> Inr [] | Some JNull \<Rightarrow> Inr []
      | Some (JList vs) \<Rightarrow> string_entries k vs | Some _ \<Rightarrow> Inl (k @ '' must be a list''))"

text \<open>Sequencing of steps that may raise.\<close>

definition or_raise :: "'e + 'a \<Rightarrow> ('a \<Rightarrow> 'e + 'b) \<Rightarrow> 'e + 'b" where
  "or_raise x f = (case x of Inl e \<Rightarrow> Inl e | Inr a \<Rightarrow> f a)"

definition validate_manifest :: "json \<Rightarrow> string + EvolutionManifest" where
  "validate_manifest j =
     (case j of
        JObj raw \<Rightarrow>
          or_raise (required_string raw ''schema_version'') (\<lambda>schema.
          if schema \<noteq> MODULE_SCHEMA_VERSION then Inl (''unsupported schema_version: '' @ schema) else
          or_raise (required_string raw ''module_id'') (\<lambda>mid.
          or_raise (required_string raw ''module_type'') (\<lambda>mtype.
          if mtype \<notin> set ALLOWED_MODULE_TYPES
          then Inl (''module_type must be one of: '' @ join_with '', '' ALLOWED_MODULE_TYPES) else
          or_raise (required_string raw ''version'') (\<lambda>version.
          or_raise (optional_mapping raw ''target_originagent'') (\<lambda>tgt.
          or_raise (optional_string raw ''target_module_api'') (\<lambda>api.
          or_raise (optional_mapping raw ''permissions'') (\<lambda>perms.
          or_raise (optional_mapping raw ''runtime_requirements'') (\<lambda>reqs.
          or_raise (optional_mapping raw ''context_budget'') (\<lambda>budget.
          or_raise (optional_string_tuple raw ''external_endpoints'') (\<lambda>eps.
          or_raise (optional_mapping raw ''external_side_effects'') (\<lambda>effects.
          or_raise (optional_mapping raw ''tests'') (\<lambda>tests.
          Inr \<lparr>mf_module_id = mid, mf_module_type = mtype, mf_version = version, mf_target = tgt,
               mf_module_api = api, mf_permissions = perms, mf_runtime = reqs, mf_context_budget = budget,
               mf_endpoints = eps, mf_side_effects = effects, mf_tests = tests\<rparr>))))))))))))
      | _ \<Rightarrow> Inl ''manifest must be a mapping'')"

definition EVOLUTION_MANIFEST_FILENAME :: string where
  "EVOLUTION_MANIFEST_FILENAME = ''evolution_manifest.yaml''"

text \<open>\<open>yaml\<close> reads the text of a file: the parsed value, or the text of the exception.\<close>

definition read_package_manifest :: "(string \<Rightarrow> string + json) \<Rightarrow> tree \<Rightarrow> string + EvolutionManifest" where
  "read_package_manifest yaml t =
     (let parsed = (\<lambda>c. case yaml c of
            Inl e \<Rightarrow> Inl (''invalid '' @ EVOLUTION_MANIFEST_FILENAME @ '': '' @ e)
          | Inr (JObj d) \<Rightarrow> validate_manifest (JObj d)
          | Inr _ \<Rightarrow> Inl (EVOLUTION_MANIFEST_FILENAME @ '' must be a mapping''))
      in case dict_get t EVOLUTION_MANIFEST_FILENAME of
          Some (RegularFile c) \<Rightarrow> parsed c
        | Some (Symlink (Some c)) \<Rightarrow> parsed c
        | Some (Directory es) \<Rightarrow> Inl (''invalid '' @ EVOLUTION_MANIFEST_FILENAME @ '': is a directory'')
        | _ \<Rightarrow> Inl (''missing '' @ EVOLUTION_MANIFEST_FILENAME))"

section \<open>Scanning Python files\<close>

text \<open>The nodes that the scan looks at, and the other nodes of the tree.\<close>

datatype ast_node =
    Import "string list"
  | ImportFrom "string option"
  | CallOfName string
  | CallOfAttribute string string
  | OtherNode

datatype ast = Ast ast_node "ast list"

datatype parsed = Unreadable | BadSyntax string | Parsed ast

fun ast_size :: "ast \<Rightarrow> nat" where
  "ast_size (Ast n ks) = Suc (sum_list (map ast_size ks))"

text \<open>\<^verbatim>\<open>ast.walk\<close>: breadth first.\<close>

function walk_queue :: "ast list \<Rightarrow> ast_node list" where
  "walk_queue [] = []"
| "walk_queue (Ast n ks # q) = n # walk_queue (q @ ks)"
  by pat_completeness auto
termination
  by (relation "measure (\<lambda>q. sum_list (map ast_size q))") auto

definition DANGEROUS_IMPORTS :: "(string, string) dict" where
  "DANGEROUS_IMPORTS = [(''os'', ''exec''), (''subprocess'', ''exec''), (''ctypes'', ''exec''),
     (''signal'', ''exec''), (''socket'', ''device_domains''), (''shutil'', ''write_files'')]"

definition DANGEROUS_CALLS :: "string list" where
  "DANGEROUS_CALLS = [''eval'', ''exec'', ''compile'', ''__import__'']"

definition DANGEROUS_MODULE_CALLS :: "(string \<times> string, string) dict" where
  "DANGEROUS_MODULE_CALLS = [((''pickle'', ''loads''), ''exec''), ((''pickle'', ''load''), ''exec''),
     ((''marshal'', ''loads''), ''exec'')]"

definition quoted :: "string \<Rightarrow> string" where
  "quoted s = CHR 0x27 # s @ [CHR 0x27]"

definition root_module :: "string \<Rightarrow> string" where
  "root_module name = takeWhile (\<lambda>c. c \<noteq> CHR ''.'') name"

definition import_violations :: "string \<Rightarrow> json_obj \<Rightarrow> string \<Rightarrow> string list" where
  "import_violations verb perms name =
     (case dict_get DANGEROUS_IMPORTS (root_module name) of
        Some needed \<Rightarrow> if truthy_field needed perms then []
          else [verb @ quoted name @ '' but permission '' @ quoted needed @ '' is not declared'']
      | None \<Rightarrow> [])"

definition node_violations :: "json_obj \<Rightarrow> ast_node \<Rightarrow> string list" where
  "node_violations perms n =
     (case n of
        Import names \<Rightarrow> concat (map (import_violations ''imports '' perms) names)
      | ImportFrom None \<Rightarrow> []
      | ImportFrom (Some m) \<Rightarrow> import_violations ''imports from '' perms m
      | CallOfName f \<Rightarrow> if f \<in> set DANGEROUS_CALLS \<and> \<not> truthy_field ''exec'' perms
          then [''calls '' @ f @ ''() but permission '' @ quoted ''exec'' @ '' is not declared''] else []
      | CallOfAttribute m f \<Rightarrow>
          (case dict_get DANGEROUS_MODULE_CALLS (m, f) of
             Some needed \<Rightarrow> if truthy_field needed perms then []
               else [''calls '' @ m @ ''.'' @ f @ ''() but permission '' @ quoted needed @ '' is not declared'']
           | None \<Rightarrow> [])
      | OtherNode \<Rightarrow> [])"

definition scan_tree :: "ast \<Rightarrow> json_obj \<Rightarrow> string list" where
  "scan_tree t perms = concat (map (node_violations perms) (walk_queue [t]))"

text \<open>The files \<^verbatim>\<open>rglob("*.py")\<close> finds, as path components; also below excluded directories.\<close>

definition is_python_name :: "string \<Rightarrow> bool" where
  "is_python_name name = (length name \<ge> 3 \<and> drop (length name - 3) name = ''.py'')"

fun python_entry :: "string list \<Rightarrow> string \<Rightarrow> entry \<Rightarrow> (string list \<times> string) list"
  and python_files :: "string list \<Rightarrow> (string \<times> entry) list \<Rightarrow> (string list \<times> string) list" where
  "python_entry prefix name (RegularFile c) = (if is_python_name name then [(prefix @ [name], c)] else [])"
| "python_entry prefix name (Symlink (Some c)) = (if is_python_name name then [(prefix @ [name], c)] else [])"
| "python_entry prefix name (Symlink None) = []"
| "python_entry prefix name Special = []"
| "python_entry prefix name (Directory es) = python_files (prefix @ [name]) es"
| "python_files prefix [] = []"
| "python_files prefix ((name, e) # es) = python_entry prefix name e @ python_files prefix es"

definition file_violations :: "(string \<Rightarrow> parsed) \<Rightarrow> json_obj \<Rightarrow> string list \<times> string \<Rightarrow> string list" where
  "file_violations parse perms f =
     (let rel = join_with ''/'' (fst f) in
      case parse (snd f) of
        Unreadable \<Rightarrow> [rel @ '': cannot read source'']
      | BadSyntax e \<Rightarrow> [rel @ '': syntax error - '' @ e]
      | Parsed t \<Rightarrow> map (\<lambda>v. rel @ '': '' @ v) (scan_tree t perms))"

definition scan_artifact_for_violations :: "(string \<Rightarrow> parsed) \<Rightarrow> tree \<Rightarrow> json_obj \<Rightarrow> nat \<times> string list" where
  "scan_artifact_for_violations parse t perms =
     (let fs = sort_key fst (python_files [] t)
      in (length fs, concat (map (file_violations parse perms) fs)))"

section \<open>The verifier\<close>

record VerCheck =
  vc_ok :: bool
  vc_code :: string
  vc_message :: string

record EvolutionVerificationReport =
  rp_ok :: bool
  rp_checks :: "VerCheck list"
  rp_module_id :: string
  rp_module_type :: string
  rp_module_version :: string
  rp_artifact_digest :: string
  rp_staging_path :: string
  rp_error :: string
  rp_evaluated :: json_obj
  rp_denied :: "string list"
  rp_unknown :: "string list"
  rp_violations :: "string list"

text \<open>A staging directory: its \<^verbatim>\<open>staging.json\<close> and its \<^verbatim>\<open>artifact\<close> directory.\<close>

datatype staging_file = NoFile | BadFile string | JsonFile json

record StagingDir =
  sd_metadata :: staging_file
  sd_artifact :: "tree option"

type_synonym staging = "(string, StagingDir) dict"

definition check :: "bool \<Rightarrow> string \<Rightarrow> string \<Rightarrow> VerCheck" where
  "check good code message = \<lparr>vc_ok = good, vc_code = code, vc_message = message\<rparr>"

definition STAGING_SCHEMA_VERSION :: string where
  "STAGING_SCHEMA_VERSION = ''originagent.evolution.staging.v1''"

definition PERMISSION_KEYS :: "string list" where
  "PERMISSION_KEYS = [''read_files'', ''write_files'', ''exec'', ''send_cross_target'', ''create_cron'', ''spawn'',
     ''device_domains'', ''mcp_scopes'']"

definition DENIED_BOOL_PERMISSIONS :: "string list" where
  "DENIED_BOOL_PERMISSIONS = [''write_files'', ''exec'', ''send_cross_target'', ''create_cron'', ''spawn'']"

definition permission_code :: "string \<Rightarrow> string" where
  "permission_code k = ''permission_'' @ k"

definition read_staging_metadata :: "StagingDir option \<Rightarrow> json_obj option \<times> VerCheck" where
  "read_staging_metadata d =
     (let code = ''staging_metadata_integrity'' in
      case d of
        None \<Rightarrow> (None, check False code ''staging directory is missing'')
      | Some sd \<Rightarrow>
          (case sd_metadata sd of
             NoFile \<Rightarrow> (None, check False code ''staging.json is missing'')
           | BadFile e \<Rightarrow> (None, check False code e)
           | JsonFile (JObj data) \<Rightarrow>
               let missing = filter (\<lambda>k. \<not> truthy_field k data)
                     [''schema_version'', ''module_id'', ''module_type'', ''version'', ''artifact_digest''];
                   good = (missing = [] \<and> dict_get data ''schema_version'' = Some (JStr STAGING_SCHEMA_VERSION))
               in (Some data, check good code (if good then ''staging metadata is valid''
                     else ''invalid staging metadata: '' @
                       join_with '', '' (if missing = [] then [''schema_version''] else missing)))
           | JsonFile _ \<Rightarrow> (None, check False code ''staging.json must be a mapping'')))"

definition is_string_list :: "json \<Rightarrow> bool" where
  "is_string_list v = (case v of JList vs \<Rightarrow> list_all (\<lambda>x. case x of JStr _ \<Rightarrow> True | _ \<Rightarrow> False) vs | _ \<Rightarrow> False)"

text \<open>The permission checks, each with its key; the default of a list permission is the empty tuple.\<close>

definition read_permitted :: "json_obj \<Rightarrow> bool" where
  "read_permitted perms = (case dict_get perms ''read_files'' of None \<Rightarrow> True | Some (JBool _) \<Rightarrow> True | Some _ \<Rightarrow> False)"

definition not_requested :: "json_obj \<Rightarrow> string \<Rightarrow> bool" where
  "not_requested perms k = (case dict_get perms k of None \<Rightarrow> True | Some v \<Rightarrow> v = JBool False)"

definition devices_permitted :: "json_obj \<Rightarrow> bool" where
  "devices_permitted perms = (case dict_get perms ''device_domains'' of None \<Rightarrow> True
     | Some v \<Rightarrow> is_string_list v \<and> \<not> json_truthy v)"

definition scopes_permitted :: "json_obj \<Rightarrow> bool" where
  "scopes_permitted perms = (case dict_get perms ''mcp_scopes'' of None \<Rightarrow> True
     | Some (JList vs) \<Rightarrow> is_string_list (JList vs) \<and> list_all (\<lambda>x. x = JStr ''read'') vs | Some _ \<Rightarrow> False)"

definition unknown_permissions :: "json_obj \<Rightarrow> string list" where
  "unknown_permissions perms = sort (filter (\<lambda>k. k \<notin> set PERMISSION_KEYS) (map fst perms))"

definition permission_verdicts :: "json_obj \<Rightarrow> (string \<times> bool \<times> string) list" where
  "permission_verdicts perms =
     (''read_files'', read_permitted perms, ''read_files is allowed'') #
     map (\<lambda>k. (k, not_requested perms k,
        if not_requested perms k then k @ '' is not requested'' else k @ '' is denied in Phase 1-C'')) DENIED_BOOL_PERMISSIONS @
     [(''device_domains'', devices_permitted perms,
         if devices_permitted perms then ''device domains are not requested'' else ''device domains are denied in Phase 1-C''),
      (''mcp_scopes'', scopes_permitted perms,
         if scopes_permitted perms then ''mcp scopes are allowed'' else ''only mcp scope '' @ quoted ''read'' @ '' is allowed'')]"

definition permission_checks :: "json_obj \<Rightarrow> VerCheck list" where
  "permission_checks perms =
     map (\<lambda>(k, good, msg). check good (permission_code k) msg) (permission_verdicts perms) @
     [check (unknown_permissions perms = []) ''permission_unknown_keys''
        (if unknown_permissions perms = [] then ''no unknown permission keys''
         else ''unknown permission keys: '' @ join_with '', '' (unknown_permissions perms))]"

definition denied_permissions :: "json_obj \<Rightarrow> string list" where
  "denied_permissions perms = map (permission_code \<circ> fst) (filter (\<lambda>(k, good, msg). \<not> good) (permission_verdicts perms))"

definition evaluated_permissions :: "json_obj \<Rightarrow> json_obj" where
  "evaluated_permissions perms = filter (\<lambda>(k, v). k \<in> set PERMISSION_KEYS) perms"

definition external_checks :: "string list \<Rightarrow> json_obj \<Rightarrow> VerCheck list" where
  "external_checks endpoints effects =
     (let writes = truthy_field ''writes_external_state'' effects in
      [check (endpoints = []) ''external_endpoints''
         (if endpoints = [] then ''no external endpoints declared'' else ''external endpoints are denied in Phase 1-C''),
       check (\<not> writes) ''external_writes_state''
         (if \<not> writes then ''no external state writes declared'' else ''external state writes are denied in Phase 1-C'')])"

text \<open>\<^verbatim>\<open>isinstance(True, int)\<close> holds, so \<^verbatim>\<open>token_budget: true\<close> passes.\<close>

definition budget_ok :: "json \<Rightarrow> bool" where
  "budget_ok v = (case v of JInt n \<Rightarrow> n > 0 | JBool b \<Rightarrow> b | _ \<Rightarrow> False)"

definition context_budget_checks :: "json_obj \<Rightarrow> VerCheck list" where
  "context_budget_checks budget =
     (case dict_get budget ''token_budget'' of
        None \<Rightarrow> [check True ''context_token_budget'' ''token budget is not declared'']
      | Some v \<Rightarrow> [check (budget_ok v) ''context_token_budget''
          (if budget_ok v then ''token budget is valid'' else ''token_budget must be a positive integer'')])"

definition code_semantic_check :: "nat \<times> string list \<Rightarrow> VerCheck" where
  "code_semantic_check scan =
     (case scan of (n, vs) \<Rightarrow>
        check (vs = []) ''permission_code_semantic_mismatch''
          (if vs = [] \<and> n = 0 then ''no Python files to scan''
           else if vs = [] then ''scanned '' @ show_nat n @ '' Python file(s) - no capability violations''
           else ''scanned '' @ show_nat n @ '' Python file(s) - '' @ show_nat (length vs) @ '' violation(s): '' @ join_with ''; '' vs))"

text \<open>The validator of domain packs: the status and the reason it gives.\<close>

definition domain_pack_check :: "string \<times> string \<Rightarrow> VerCheck" where
  "domain_pack_check v = check (fst v \<noteq> ''invalid'') ''manifest_staging_alignment'' (snd v)"

definition staging_path_of :: "string \<Rightarrow> string" where
  "staging_path_of digest = ''memory/evolution_staging/'' @ digest"

definition mk_report ::
    "string \<Rightarrow> json_obj \<Rightarrow> json_obj \<Rightarrow> string list \<Rightarrow> string list \<Rightarrow> string list \<Rightarrow> VerCheck list \<Rightarrow> EvolutionVerificationReport" where
  "mk_report digest md evaluated denied unknown violations checks =
     (let failed = filter (\<lambda>c. \<not> vc_ok c) checks in
      \<lparr>rp_ok = (failed = []), rp_checks = checks, rp_module_id = str_field ''module_id'' [] md,
       rp_module_type = str_field ''module_type'' [] md, rp_module_version = str_field ''version'' [] md,
       rp_artifact_digest = digest, rp_staging_path = staging_path_of digest,
       rp_error = (case failed of [] \<Rightarrow> [] | c # _ \<Rightarrow> vc_message c),
       rp_evaluated = evaluated, rp_denied = denied, rp_unknown = unknown, rp_violations = violations\<rparr>)"

definition aligned :: "json_obj \<Rightarrow> EvolutionManifest \<Rightarrow> string \<Rightarrow> bool" where
  "aligned md m digest = (dict_get md ''module_id'' = Some (JStr (mf_module_id m)) \<and>
     dict_get md ''module_type'' = Some (JStr (mf_module_type m)) \<and>
     dict_get md ''version'' = Some (JStr (mf_version m)) \<and>
     dict_get md ''artifact_digest'' = Some (JStr digest))"

record verifier_tools =
  vt_hash :: "string \<Rightarrow> string"
  vt_yaml :: "string \<Rightarrow> string + json"
  vt_parse :: "string \<Rightarrow> parsed"
  vt_pack :: "tree \<Rightarrow> string \<times> string"

text \<open>The checks on the content of a manifest.\<close>

definition content_checks :: "verifier_tools \<Rightarrow> tree \<Rightarrow> EvolutionManifest \<Rightarrow> VerCheck list" where
  "content_checks tools t m =
     (if mf_module_type m = ''domain_pack'' then [domain_pack_check (vt_pack tools t)] else []) @
     permission_checks (mf_permissions m) @
     external_checks (mf_endpoints m) (mf_side_effects m) @
     context_budget_checks (mf_context_budget m) @
     [code_semantic_check (scan_artifact_for_violations (vt_parse tools) t (mf_permissions m))]"

definition verify :: "verifier_tools \<Rightarrow> staging \<Rightarrow> string \<Rightarrow> EvolutionVerificationReport" where
  "verify tools st digest =
     (case read_staging_metadata (dict_get st digest) of
        (None, c) \<Rightarrow> mk_report digest [] [] [] [] [] [c]
      | (Some md, c) \<Rightarrow>
          (case Option.bind (dict_get st digest) sd_artifact of
             None \<Rightarrow> mk_report digest md [] [] [] [] [c, check False ''digest_match'' ''artifact directory is missing'']
           | Some t \<Rightarrow>
               (case compute_artifact_digest (vt_hash tools) t of
                  None \<Rightarrow> mk_report digest md [] [] [] []
                      [c, check False ''digest_match'' ''artifact must not contain symlinks'']
                | Some actual \<Rightarrow>
                    let c2 = check (actual = digest) ''digest_match''
                          (if actual = digest then ''artifact digest matches staging directory''
                           else ''artifact digest does not match staging directory'')
                    in case read_package_manifest (vt_yaml tools) t of
                        Inl e \<Rightarrow> mk_report digest md [] [] [] [] [c, c2, check False ''manifest_staging_alignment'' e]
                      | Inr m \<Rightarrow>
                          let good = aligned md m digest;
                              c3 = check good ''manifest_staging_alignment''
                                (if good then ''manifest matches staging metadata''
                                 else ''manifest does not match staging metadata'')
                          in mk_report digest md (evaluated_permissions (mf_permissions m))
                               (denied_permissions (mf_permissions m)) (unknown_permissions (mf_permissions m))
                               (snd (scan_artifact_for_violations (vt_parse tools) t (mf_permissions m)))
                               ([c, c2, c3] @ content_checks tools t m))))"

section \<open>What a verified module is\<close>

text \<open>The nodes of a tree, and those that need a power, whatever was declared.\<close>

fun ast_nodes :: "ast \<Rightarrow> ast_node list" where
  "ast_nodes (Ast n ks) = n # concat (map ast_nodes ks)"

definition dangerous_module :: "string \<Rightarrow> bool" where
  "dangerous_module name = (root_module name \<in> {''os'', ''subprocess'', ''ctypes'', ''signal'', ''socket'', ''shutil''})"

definition dangerous_node :: "ast_node \<Rightarrow> bool" where
  "dangerous_node n =
     (case n of
        Import names \<Rightarrow> list_ex dangerous_module names
      | ImportFrom m \<Rightarrow> (case m of Some name \<Rightarrow> dangerous_module name | None \<Rightarrow> False)
      | CallOfName f \<Rightarrow> f \<in> {''eval'', ''exec'', ''compile'', ''__import__''}
      | CallOfAttribute m f \<Rightarrow> (m, f) \<in> {(''pickle'', ''loads''), (''pickle'', ''load''), (''marshal'', ''loads'')}
      | OtherNode \<Rightarrow> False)"

definition clean_source :: "(string \<Rightarrow> parsed) \<Rightarrow> string \<Rightarrow> bool" where
  "clean_source parse c = (case parse c of Parsed t \<Rightarrow> list_all (\<lambda>n. \<not> dangerous_node n) (ast_nodes t) | _ \<Rightarrow> False)"

definition harmless_permissions :: "json_obj \<Rightarrow> bool" where
  "harmless_permissions perms = (set (map fst perms) \<subseteq> set PERMISSION_KEYS \<and> read_permitted perms \<and>
     (\<forall>k \<in> set DENIED_BOOL_PERMISSIONS. not_requested perms k) \<and> devices_permitted perms \<and> scopes_permitted perms)"

lemma walk_queue_nodes: "set (walk_queue q) = (\<Union>t \<in> set q. set (ast_nodes t))"
  by (induction q rule: walk_queue.induct) auto

lemma scan_tree_nodes: "scan_tree t perms = [] \<longleftrightarrow> (\<forall>n \<in> set (ast_nodes t). node_violations perms n = [])"
  by (simp add: scan_tree_def concat_eq_Nil_conv walk_queue_nodes)

lemma permissions_powerless:
  assumes "harmless_permissions perms" and "k \<in> {''exec'', ''device_domains'', ''write_files''}"
  shows "\<not> truthy_field k perms"
  using assms
  by (auto simp: harmless_permissions_def not_requested_def devices_permitted_def truthy_field_def
      DENIED_BOOL_PERMISSIONS_def split: option.splits)

lemma import_violations_harmless:
  assumes "harmless_permissions perms"
  shows "import_violations verb perms name = [] \<longleftrightarrow> \<not> dangerous_module name"
  using permissions_powerless [OF assms]
  by (auto simp: import_violations_def DANGEROUS_IMPORTS_def dangerous_module_def)

lemma node_violations_harmless:
  assumes "harmless_permissions perms"
  shows "node_violations perms n = [] \<longleftrightarrow> \<not> dangerous_node n"
proof -
  note imp = import_violations_harmless [OF assms]
  have "\<not> truthy_field ''exec'' perms" using permissions_powerless [OF assms] by simp
  then show ?thesis
    by (cases n)
      (auto simp: node_violations_def dangerous_node_def imp concat_eq_Nil_conv list_ex_iff DANGEROUS_CALLS_def
        DANGEROUS_MODULE_CALLS_def split: option.splits)
qed

lemma scan_harmless:
  assumes "harmless_permissions perms"
  shows "snd (scan_artifact_for_violations parse t perms) = [] \<longleftrightarrow>
     (\<forall>f \<in> set (python_files [] t). clean_source parse (snd f))"
proof -
  have "file_violations parse perms f = [] \<longleftrightarrow> clean_source parse (snd f)" for f
    using scan_tree_nodes node_violations_harmless [OF assms]
    by (cases "parse (snd f)") (auto simp: file_violations_def clean_source_def Let_def list_all_iff)
  then show ?thesis by (simp add: scan_artifact_for_violations_def Let_def concat_eq_Nil_conv)
qed

lemma mk_report_ok: "rp_ok (mk_report digest md ev dn uk vs cs) \<longleftrightarrow> list_all vc_ok cs"
  by (auto simp: mk_report_def Let_def filter_empty_conv list_all_iff)

lemma check_ok [simp]: "vc_ok (check good code msg) = good"
  by (simp add: check_def)

lemma permission_checks_ok: "list_all vc_ok (permission_checks perms) \<longleftrightarrow> harmless_permissions perms"
proof -
  have "unknown_permissions perms = [] \<longleftrightarrow> set (map fst perms) \<subseteq> set PERMISSION_KEYS"
  proof -
    have "unknown_permissions perms = [] \<longleftrightarrow> set (unknown_permissions perms) = {}" by simp
    also have "\<dots> \<longleftrightarrow> set (map fst perms) \<subseteq> set PERMISSION_KEYS"
      unfolding unknown_permissions_def set_sort set_filter by blast
    finally show ?thesis .
  qed
  moreover have "list_all (\<lambda>(k, good, msg). good) (permission_verdicts perms) \<longleftrightarrow> read_permitted perms \<and>
      (\<forall>k \<in> set DENIED_BOOL_PERMISSIONS. not_requested perms k) \<and> devices_permitted perms \<and> scopes_permitted perms"
    by (auto simp: permission_verdicts_def list_all_iff)
  ultimately show ?thesis
    by (auto simp: permission_checks_def harmless_permissions_def list_all_iff case_prod_beta)
qed

definition acceptable_content :: "verifier_tools \<Rightarrow> tree \<Rightarrow> EvolutionManifest \<Rightarrow> bool" where
  "acceptable_content tools t m =
     ((mf_module_type m = ''domain_pack'' \<longrightarrow> fst (vt_pack tools t) \<noteq> ''invalid'') \<and>
      harmless_permissions (mf_permissions m) \<and> mf_endpoints m = [] \<and>
      \<not> truthy_field ''writes_external_state'' (mf_side_effects m) \<and>
      (\<forall>v. dict_get (mf_context_budget m) ''token_budget'' = Some v \<longrightarrow> budget_ok v) \<and>
      (\<forall>f \<in> set (python_files [] t). clean_source (vt_parse tools) (snd f)))"

lemma content_checks_ok: "list_all vc_ok (content_checks tools t m) \<longleftrightarrow> acceptable_content tools t m"
proof (cases "harmless_permissions (mf_permissions m)")
  case True
  have "vc_ok (code_semantic_check s) \<longleftrightarrow> snd s = []" for s by (simp add: code_semantic_check_def split: prod.splits)
  then show ?thesis
    using scan_harmless [OF True, of "vt_parse tools" t] permission_checks_ok [of "mf_permissions m"] True
    by (auto simp: content_checks_def acceptable_content_def external_checks_def context_budget_checks_def
        domain_pack_check_def Let_def split: option.splits)
next
  case False
  then show ?thesis
    using permission_checks_ok [of "mf_permissions m"] by (auto simp: content_checks_def acceptable_content_def)
qed

lemma required_nonempty: "required_string raw k = Inr s \<Longrightarrow> s \<noteq> []"
  by (auto simp: required_string_def split: option.splits json.splits if_splits)

lemma manifest_fields:
  assumes "read_package_manifest yaml t = Inr m"
  shows "mf_module_id m \<noteq> [] \<and> mf_version m \<noteq> [] \<and> mf_module_type m \<in> set ALLOWED_MODULE_TYPES"
proof -
  obtain raw where "validate_manifest (JObj raw) = Inr m"
    using assms by (auto simp: read_package_manifest_def Let_def split: option.splits entry.splits sum.splits json.splits)
  then show ?thesis
    by (auto simp: validate_manifest_def or_raise_def dest: required_nonempty split: sum.splits if_splits)
qed

lemma aligned_metadata:
  assumes "aligned md m digest" and "mf_module_id m \<noteq> []" "mf_version m \<noteq> []" "mf_module_type m \<noteq> []" "digest \<noteq> []"
    and "dict_get md ''schema_version'' = Some (JStr STAGING_SCHEMA_VERSION)"
  shows "filter (\<lambda>k. \<not> truthy_field k md) [''schema_version'', ''module_id'', ''module_type'', ''version'', ''artifact_digest''] = []"
    and "str_field ''module_id'' [] md = mf_module_id m" "str_field ''module_type'' [] md = mf_module_type m"
    and "str_field ''version'' [] md = mf_version m"
  using assms by (simp_all add: aligned_def truthy_field_def str_field_def py_str_def STAGING_SCHEMA_VERSION_def)

definition report_of :: "EvolutionVerificationReport \<Rightarrow> string \<times> string \<times> string" where
  "report_of r = (rp_module_id r, rp_module_type r, rp_module_version r)"

lemma verify_complete:
  assumes "digest \<noteq> []"
    and "dict_get st digest = Some \<lparr>sd_metadata = JsonFile (JObj md), sd_artifact = Some t\<rparr>"
    and "dict_get md ''schema_version'' = Some (JStr STAGING_SCHEMA_VERSION)"
    and "compute_artifact_digest (vt_hash tools) t = Some digest"
    and "read_package_manifest (vt_yaml tools) t = Inr m" and "aligned md m digest"
  shows "rp_ok (verify tools st digest) = acceptable_content tools t m"
    and "rp_evaluated (verify tools st digest) = evaluated_permissions (mf_permissions m)"
    and "report_of (verify tools st digest) = (mf_module_id m, mf_module_type m, mf_version m)"
proof -
  have nonempty: "mf_module_id m \<noteq> []" "mf_version m \<noteq> []" "mf_module_type m \<noteq> []"
    using manifest_fields [OF assms(5)] by (auto simp: ALLOWED_MODULE_TYPES_def)
  note md = aligned_metadata [OF assms(6) nonempty assms(1,3)]
  have "read_staging_metadata (dict_get st digest) = (Some md, check True ''staging_metadata_integrity'' ''staging metadata is valid'')"
    unfolding read_staging_metadata_def assms(2) option.case StagingDir.simps staging_file.case json.case md(1) Let_def
    by (simp add: assms(3))
  then have "\<exists>c dn uk vs. verify tools st digest = mk_report digest md (evaluated_permissions (mf_permissions m)) dn uk vs
      (c @ content_checks tools t m) \<and> list_all vc_ok c"
    using assms by (simp add: verify_def Let_def) (metis append_Cons append_Nil check_ok list.pred_inject)
  then show "rp_ok (verify tools st digest) = acceptable_content tools t m"
    "rp_evaluated (verify tools st digest) = evaluated_permissions (mf_permissions m)"
    "report_of (verify tools st digest) = (mf_module_id m, mf_module_type m, mf_version m)"
    using content_checks_ok md(2-4) by (auto simp: mk_report_ok report_of_def) (auto simp: mk_report_def Let_def)
qed

lemma verify_exact:
  "rp_ok (verify tools st digest) \<longleftrightarrow> digest \<noteq> [] \<and>
    (\<exists>md t m. dict_get st digest = Some \<lparr>sd_metadata = JsonFile (JObj md), sd_artifact = Some t\<rparr> \<and>
       dict_get md ''schema_version'' = Some (JStr STAGING_SCHEMA_VERSION) \<and>
       compute_artifact_digest (vt_hash tools) t = Some digest \<and>
       read_package_manifest (vt_yaml tools) t = Inr m \<and> aligned md m digest \<and> acceptable_content tools t m)"
  (is "?l \<longleftrightarrow> ?r")
proof
  assume ok: ?l
  obtain md c where md: "read_staging_metadata (dict_get st digest) = (Some md, c)"
    using ok by (cases "read_staging_metadata (dict_get st digest)")
      (auto simp: verify_def mk_report_ok read_staging_metadata_def Let_def split: option.splits staging_file.splits json.splits)
  obtain t where t: "Option.bind (dict_get st digest) sd_artifact = Some t"
    using ok md by (auto simp: verify_def mk_report_ok split: option.splits)
  obtain actual where a: "compute_artifact_digest (vt_hash tools) t = Some actual"
    using ok md t by (auto simp: verify_def mk_report_ok split: option.splits)
  obtain m where m: "read_package_manifest (vt_yaml tools) t = Inr m"
    using ok md t a by (auto simp: verify_def mk_report_ok Let_def split: sum.splits)
  have good: "vc_ok c" "actual = digest" "aligned md m digest" "acceptable_content tools t m"
    using ok md t a m content_checks_ok by (simp_all add: verify_def mk_report_ok Let_def)
  obtain sd where sd: "dict_get st digest = Some sd" "sd_artifact sd = Some t" using t by (cases "dict_get st digest") auto
  have meta: "sd_metadata sd = JsonFile (JObj md)" "dict_get md ''schema_version'' = Some (JStr STAGING_SCHEMA_VERSION)"
    "truthy_field ''artifact_digest'' md"
    using md good(1) sd(1)
    by (auto simp: read_staging_metadata_def Let_def split: staging_file.splits json.splits if_splits)
  then have "digest \<noteq> []" using good(3) by (auto simp: aligned_def truthy_field_def)
  moreover have "sd = \<lparr>sd_metadata = JsonFile (JObj md), sd_artifact = Some t\<rparr>" using meta sd by simp
  ultimately show ?r using sd meta good m a by blast
next
  assume ?r
  then obtain md t m where r: "digest \<noteq> []"
      "dict_get st digest = Some \<lparr>sd_metadata = JsonFile (JObj md), sd_artifact = Some t\<rparr>"
      "dict_get md ''schema_version'' = Some (JStr STAGING_SCHEMA_VERSION)"
      "compute_artifact_digest (vt_hash tools) t = Some digest"
      "read_package_manifest (vt_yaml tools) t = Inr m" "aligned md m digest" "acceptable_content tools t m" by blast
  then show ?l using verify_complete(1) [OF r(1-6)] by simp
qed

text \<open>
  C9. Verification accepts exactly the harmless modules: the staged artifact has the digest it is filed
  under, its manifest is valid and agrees with the staging record, a domain pack is declared validly, the
  manifest asks for nothing but reading files and the scope read, declares no endpoint and no external
  writes and at most a positive token budget, and every Python file below the artifact parses and
  neither imports a module that runs, signals, connects or deletes nor calls eval, exec, compile,
  __import__, pickle or marshal loading.
\<close>

theorem verify_accepts_exactly_harmless:
  "rp_ok (verify tools st digest) \<longleftrightarrow> digest \<noteq> [] \<and>
    (\<exists>md t m. dict_get st digest = Some \<lparr>sd_metadata = JsonFile (JObj md), sd_artifact = Some t\<rparr> \<and>
       dict_get md ''schema_version'' = Some (JStr STAGING_SCHEMA_VERSION) \<and>
       compute_artifact_digest (vt_hash tools) t = Some digest \<and>
       read_package_manifest (vt_yaml tools) t = Inr m \<and> aligned md m digest \<and> acceptable_content tools t m)"
  by (rule verify_exact)

lemma accepted_content:
  assumes "rp_ok (verify tools st digest)" and "Option.bind (dict_get st digest) sd_artifact = Some t"
    and "read_package_manifest (vt_yaml tools) t = Inr m"
  shows "acceptable_content tools t m"
proof -
  obtain md t' m' where "dict_get st digest = Some \<lparr>sd_metadata = JsonFile (JObj md), sd_artifact = Some t'\<rparr>"
    "read_package_manifest (vt_yaml tools) t' = Inr m'" "acceptable_content tools t' m'"
    using verify_exact assms(1) by blast
  with assms show ?thesis by simp
qed

end
