(* ===== verification/Evolution.thy ===== *)
theory Evolution
  imports LedgerSqlite SkillLifecycle Verifier Grants
begin

text \<open>
  Staging and verification of modules (\<^verbatim>\<open>evolution/manager.py\<close>) and the powers a module gets while it is
  active (\<^verbatim>\<open>evolution/capability_gate.py\<close>). The state joins the ledger, the staging directory, the
  activation records, the workspace skills, the domain packs and the open state branches; an operation
  returns the new state and its result, or the error of the ledger that it raises. The governance of
  domain packs, the random identifiers, the clock and the parsers are parameters (record \<open>evo_env\<close>); the
  ledger is the configured one, the SQLite table or the file (\<open>LedgerSqlite\<close>).
\<close>

section \<open>State\<close>

record ActivationMeta =
  am_activation_id :: string
  am_module_id :: string
  am_module_type :: string
  am_version :: string
  am_status :: string
  am_activated_at :: string
  am_rolled_back_at :: string
  am_target_paths :: "string list"
  am_activation_event :: string
  am_rollback_event :: string
  am_dirty_at :: string
  am_dirty_reason :: string
  am_residual :: "string list"
  am_attempts :: "(bool \<times> string \<times> string list) list"
  am_force_cleaned_at :: string

text \<open>\<open>'p\<close> is the state of the domain packs of the workspace.\<close>

record 'p Evolution =
  ev_ledger :: ledger_store
  ev_staging :: staging
  ev_meta :: "(string, ActivationMeta) dict"
  ev_skills :: SkillStore
  ev_packs :: 'p
  ev_branches :: "(string \<times> string) list"

text \<open>The governance of domain packs: an operation gives the new state and the error, if any.\<close>

record 'p pack_service =
  ps_exists :: "string \<Rightarrow> 'p \<Rightarrow> bool"
  ps_install :: "tree \<Rightarrow> 'p \<Rightarrow> 'p \<times> string option"
  ps_set_active :: "string \<Rightarrow> bool \<Rightarrow> 'p \<Rightarrow> 'p \<times> string option"
  ps_uninstall :: "string \<Rightarrow> 'p \<Rightarrow> 'p \<times> string option"

text \<open>Identifiers and times are numbered by the length of the log that they go to.\<close>

record 'p evo_env =
  en_tools :: verifier_tools
  en_identity :: identity
  en_id :: "nat \<Rightarrow> string"
  en_now :: "nat \<Rightarrow> string"
  en_skill_id :: "nat \<Rightarrow> string"
  en_skill_now :: "nat \<Rightarrow> string"
  en_clean :: "string \<Rightarrow> nat \<Rightarrow> string"
  en_read_skill :: "string \<Rightarrow> SkillFile"
  en_safe :: "string \<Rightarrow> string"
  en_error_text :: "ledger_error \<Rightarrow> string"
  en_packs :: "'p pack_service"

definition and_then :: "'s \<times> ('e + 'a) \<Rightarrow> ('s \<Rightarrow> 'a \<Rightarrow> 's \<times> ('e + 'b)) \<Rightarrow> 's \<times> ('e + 'b)" where
  "and_then r f = (case r of (s, Inl e) \<Rightarrow> (s, Inl e) | (s, Inr a) \<Rightarrow> f s a)"

text \<open>The module an event is about.\<close>

record module_ref =
  mr_id :: string
  mr_version :: string
  mr_type :: string

definition no_module :: module_ref where
  "no_module = \<lparr>mr_id = [], mr_version = [], mr_type = []\<rparr>"

definition manifest_ref :: "EvolutionManifest \<Rightarrow> module_ref" where
  "manifest_ref m = \<lparr>mr_id = mf_module_id m, mr_version = mf_version m, mr_type = mf_module_type m\<rparr>"

definition meta_ref :: "ActivationMeta \<Rightarrow> module_ref" where
  "meta_ref a = \<lparr>mr_id = am_module_id a, mr_version = am_version a, mr_type = am_module_type a\<rparr>"

definition report_ref :: "EvolutionVerificationReport \<Rightarrow> module_ref" where
  "report_ref r = \<lparr>mr_id = rp_module_id r, mr_version = rp_module_version r, mr_type = rp_module_type r\<rparr>"

definition json_strings :: "string list \<Rightarrow> json" where
  "json_strings xs = JList (map JStr xs)"

definition emit ::
    "'p evo_env \<Rightarrow> string \<Rightarrow> string \<Rightarrow> module_ref \<Rightarrow> string \<Rightarrow> json_obj \<Rightarrow> 'p Evolution
     \<Rightarrow> 'p Evolution \<times> (ledger_error + EvolutionEvent)" where
  "emit env etype who mr digest res st =
     (let n = ledger_size (ev_ledger st) in
      case ledger_append (vt_hash (en_tools env)) (en_identity env)
             (new_event (en_id env n) (en_now env n) etype who (mr_id mr) (mr_version mr) (mr_type mr) digest res)
             (ev_ledger st) of
        (f, r) \<Rightarrow> (st\<lparr>ev_ledger := f\<rparr>, r))"

section \<open>Staging\<close>

record PackageSource =
  src_name :: string
  src_tree :: "tree option"

definition is_file :: "tree \<Rightarrow> string \<Rightarrow> bool" where
  "is_file t name = (case dict_get t name of Some (RegularFile c) \<Rightarrow> True | Some (Symlink (Some c)) \<Rightarrow> True | _ \<Rightarrow> False)"

definition entry_exists :: "tree \<Rightarrow> string \<Rightarrow> bool" where
  "entry_exists t name = (case dict_get t name of None \<Rightarrow> False | Some (Symlink None) \<Rightarrow> False | _ \<Rightarrow> True)"

definition load_package :: "verifier_tools \<Rightarrow> PackageSource \<Rightarrow> string + (EvolutionManifest \<times> string \<times> tree)" where
  "load_package tools src =
     (case src_tree src of
        None \<Rightarrow> Inl ''source path must be an existing directory''
      | Some t \<Rightarrow>
          or_raise (read_package_manifest (vt_yaml tools) t) (\<lambda>m.
          if mf_module_type m = ''domain_pack'' \<and> \<not> entry_exists t ''domain_pack.yaml''
          then Inl ''domain_pack modules must include domain_pack.yaml''
          else if mf_module_type m = ''domain_pack'' \<and> fst (vt_pack tools t) = ''invalid''
          then Inl (''invalid domain_pack.yaml: '' @ str_or (snd (vt_pack tools t)) ''invalid domain pack'')
          else case compute_artifact_digest (vt_hash tools) t of
              None \<Rightarrow> Inl ''artifact must not contain symlinks''
            | Some d \<Rightarrow> Inr (m, d, t)))"

record EvolutionStageResult =
  sg_ok :: bool
  sg_status :: string
  sg_module :: module_ref
  sg_digest :: string
  sg_path :: string
  sg_error :: string

definition dirty_activation_for_module :: "string \<Rightarrow> (string, ActivationMeta) dict \<Rightarrow> string option" where
  "dirty_activation_for_module mid metas =
     map_option fst (List.find (\<lambda>(d, a). am_module_id a = mid \<and> am_status a = ''dirty_rollback'') metas)"

text \<open>A staging record that is JSON but no object makes \<^verbatim>\<open>data.get\<close> raise.\<close>

definition has_valid_staging :: "string \<Rightarrow> staging \<Rightarrow> staging \<times> (string + bool)" where
  "has_valid_staging digest sg =
     (case dict_get sg digest of
        None \<Rightarrow> (sg, Inr False)
      | Some sd \<Rightarrow>
          (case sd_metadata sd of
             JsonFile (JObj d) \<Rightarrow>
               if dict_get d ''artifact_digest'' = Some (JStr digest) \<and> sd_artifact sd \<noteq> None then (sg, Inr True)
               else (dict_del digest sg, Inr False)
           | JsonFile _ \<Rightarrow> (sg, Inl ''AttributeError'')
           | _ \<Rightarrow> (dict_del digest sg, Inr False)))"

definition staging_metadata :: "EvolutionManifest \<Rightarrow> string \<Rightarrow> string \<Rightarrow> string \<Rightarrow> json_obj" where
  "staging_metadata m digest now eid =
     [(''schema_version'', JStr STAGING_SCHEMA_VERSION), (''module_id'', JStr (mf_module_id m)),
      (''module_type'', JStr (mf_module_type m)), (''version'', JStr (mf_version m)),
      (''artifact_digest'', JStr digest), (''staged_at'', JStr now), (''ledger_event_id'', JStr eid)]"

definition staged_dir :: "'p evo_env \<Rightarrow> EvolutionManifest \<Rightarrow> string \<Rightarrow> tree \<Rightarrow> nat \<Rightarrow> StagingDir" where
  "staged_dir env m digest t n =
     \<lparr>sd_metadata = JsonFile (JObj (staging_metadata m digest (en_now env n) (en_id env n))), sd_artifact = copy_artifact t\<rparr>"

text \<open>The body of \<^verbatim>\<open>stage\<close> once the package is loaded; \<open>Inl\<close> is the text of the exception.\<close>

definition stage_loaded ::
    "'p evo_env \<Rightarrow> string \<Rightarrow> string \<Rightarrow> EvolutionManifest \<Rightarrow> string \<Rightarrow> tree \<Rightarrow> 'p Evolution
     \<Rightarrow> 'p Evolution \<times> (string + EvolutionStageResult)" where
  "stage_loaded env name who m digest t st =
     (let base = [(''source_name'', JStr name), (''staging_path'', JStr (staging_path_of digest))];
          mr = manifest_ref m;
          ev = (\<lambda>etype res s. apsnd (map_sum (en_error_text env) id) (emit env etype who mr digest (base @ res) s));
          result = (\<lambda>good status err. \<lparr>sg_ok = good, sg_status = status, sg_module = mr, sg_digest = digest,
             sg_path = staging_path_of digest, sg_error = err\<rparr>)
      in case dirty_activation_for_module (mf_module_id m) (ev_meta st) of
          Some d \<Rightarrow>
            and_then (ev ''module_failed'' [(''status'', JStr ''dirty_rollback_blocked''),
                (''error'', JStr ''module_id is blocked by dirty rollback''), (''dirty_artifact_digest'', JStr d)] st)
              (\<lambda>s e. (s, Inr (result False ''dirty_rollback_blocked'' ''module_id is blocked by dirty rollback'')))
        | None \<Rightarrow>
            and_then (ev ''module_proposed'' [(''status'', JStr ''proposed'')] st) (\<lambda>s1 e1.
            and_then (ev ''module_manifest_validated'' [(''status'', JStr ''validated'')] s1) (\<lambda>s2 e2.
            case has_valid_staging digest (ev_staging s2) of
              (sg, Inl err) \<Rightarrow> (s2\<lparr>ev_staging := sg\<rparr>, Inl err)
            | (sg, Inr True) \<Rightarrow>
                and_then (ev ''module_installed_staging'' [(''status'', JStr ''already_staged'')] (s2\<lparr>ev_staging := sg\<rparr>))
                  (\<lambda>s3 e3. (s3, Inr (result True ''already_staged'' [])))
            | (sg, Inr False) \<Rightarrow>
                let n = ledger_size (ev_ledger s2);
                    s3 = s2\<lparr>ev_staging := dict_set digest (staged_dir env m digest t n) (dict_del digest sg)\<rparr>
                in (case ev ''module_installed_staging'' [(''status'', JStr ''staged'')] s3 of
                      (s4, Inl err) \<Rightarrow> (s4\<lparr>ev_staging := dict_del digest (ev_staging s4)\<rparr>, Inl err)
                    | (s4, Inr e4) \<Rightarrow> (s4, Inr (result True ''staged'' []))))))"

definition stage_failed ::
    "'p evo_env \<Rightarrow> string \<Rightarrow> string \<Rightarrow> module_ref \<Rightarrow> string \<Rightarrow> string \<Rightarrow> string \<Rightarrow> 'p Evolution
     \<Rightarrow> 'p Evolution \<times> (ledger_error + EvolutionStageResult)" where
  "stage_failed env name who mr digest path err st =
     and_then (emit env ''module_failed'' who mr digest [(''source_name'', JStr name), (''staging_path'', JStr path),
         (''status'', JStr ''failed''), (''error'', JStr err)] st)
       (\<lambda>s e. (s, Inr \<lparr>sg_ok = False, sg_status = ''failed'', sg_module = mr, sg_digest = digest, sg_path = [], sg_error = err\<rparr>))"

definition stage ::
    "'p evo_env \<Rightarrow> PackageSource \<Rightarrow> string \<Rightarrow> 'p Evolution \<Rightarrow> 'p Evolution \<times> (ledger_error + EvolutionStageResult)" where
  "stage env src who st =
     (case load_package (en_tools env) src of
        Inl err \<Rightarrow> stage_failed env (src_name src) who no_module [] [] err st
      | Inr (m, digest, t) \<Rightarrow>
          (case stage_loaded env (src_name src) who m digest t st of
             (s, Inr r) \<Rightarrow> (s, Inr r)
           | (s, Inl err) \<Rightarrow> stage_failed env (src_name src) who (manifest_ref m) digest (staging_path_of digest) err s))"

section \<open>Verification\<close>

text \<open>The checks as an event stores them; their display names are left out.\<close>

definition check_json :: "VerCheck \<Rightarrow> json" where
  "check_json c = JObj [(''ok'', JBool (vc_ok c)), (''code'', JStr (vc_code c)), (''message'', JStr (vc_message c))]"

definition verify_module ::
    "'p evo_env \<Rightarrow> string \<Rightarrow> string \<Rightarrow> 'p Evolution \<Rightarrow> 'p Evolution \<times> (ledger_error + EvolutionVerificationReport)" where
  "verify_module env who digest st =
     (let rp = Verifier.verify (en_tools env) (ev_staging st) digest; mr = report_ref rp;
          checks = JList (map check_json (rp_checks rp))
      in and_then (emit env ''module_permission_checked'' who mr digest
             [(''status'', JStr ''permission_check_completed''), (''staging_path'', JStr (rp_staging_path rp)),
              (''permissions_evaluated'', JObj (rp_evaluated rp)), (''permissions_denied'', json_strings (rp_denied rp)),
              (''unknown_keys_rejected'', json_strings (rp_unknown rp)), (''checks'', checks)] st) (\<lambda>s1 e1.
         and_then (emit env (if rp_ok rp then ''module_verified'' else ''module_failed'') who mr digest
             [(''status'', JStr (if rp_ok rp then ''verified'' else ''failed'')),
              (''staging_path'', JStr (rp_staging_path rp)), (''checks'', checks), (''error'', JStr (rp_error rp))] s1)
           (\<lambda>s2 e2. (s2, Inr rp))))"

section \<open>The capability gate\<close>

definition snapshot_items :: "string \<Rightarrow> json_obj \<Rightarrow> string list" where
  "snapshot_items k perms =
     (case dict_get perms k of
        Some (JList vs) \<Rightarrow> map py_str vs | Some (JStr s) \<Rightarrow> map (\<lambda>c. [c]) s | Some (JObj d) \<Rightarrow> map fst d | _ \<Rightarrow> [])"

text \<open>A number or a truth value where a list belongs raises in the code; verification has refused it before.\<close>

definition snapshot_from_permissions :: "json_obj \<Rightarrow> CapabilitySnapshot" where
  "snapshot_from_permissions perms =
     \<lparr>cs_version = 1, cs_source = ''system'', cs_trigger = ''system'',
      cs_exec = truthy_field ''exec'' perms, cs_read = truthy_field ''read_files'' perms,
      cs_write = truthy_field ''write_files'' perms, cs_cross = truthy_field ''send_cross_target'' perms,
      cs_cron = truthy_field ''create_cron'' perms, cs_spawn = truthy_field ''spawn'' perms,
      cs_domains = snapshot_items ''device_domains'' perms, cs_scopes = snapshot_items ''mcp_scopes'' perms\<rparr>"

record EvolutionCapabilityResult =
  cr_ok :: bool
  cr_status :: string
  cr_digest :: string
  cr_module :: module_ref
  cr_snapshot :: "CapabilitySnapshot option"
  cr_error :: string

definition read_active_activation :: "string \<Rightarrow> 'p Evolution \<Rightarrow> ActivationMeta option" where
  "read_active_activation digest st =
     (case dict_get (ev_meta st) digest of
        Some a \<Rightarrow> if am_status a = ''active'' then Some a else None | None \<Rightarrow> None)"

definition gate_refusal :: "string \<Rightarrow> module_ref \<Rightarrow> string \<Rightarrow> string \<Rightarrow> EvolutionCapabilityResult" where
  "gate_refusal digest mr status err = \<lparr>cr_ok = False, cr_status = status, cr_digest = digest, cr_module = mr,
     cr_snapshot = None, cr_error = err\<rparr>"

definition snapshot_for_artifact ::
    "'p evo_env \<Rightarrow> string \<Rightarrow> CapabilitySnapshot option \<Rightarrow> 'p Evolution \<Rightarrow> ledger_error + EvolutionCapabilityResult" where
  "snapshot_for_artifact env digest base st =
     (case read_active_activation digest st of
        None \<Rightarrow> Inr (gate_refusal digest no_module ''not_active'' ''artifact is not active'')
      | Some a \<Rightarrow>
          or_raise (has_verified_event (vt_hash (en_tools env)) digest (ev_ledger st)) (\<lambda>seen.
          if \<not> seen
          then Inr (gate_refusal digest (meta_ref a) ''unverified'' ''artifact_digest has no verified module event'')
          else
            let rp = Verifier.verify (en_tools env) (ev_staging st) digest in
            if \<not> rp_ok rp then Inr (gate_refusal digest (meta_ref a) ''verification_failed'' (rp_error rp))
            else case Option.bind (dict_get (ev_staging st) digest) sd_artifact of
                None \<Rightarrow> Inr (gate_refusal digest (meta_ref a) ''manifest_failed'' ''source path must be an existing directory'')
              | Some t \<Rightarrow>
                  (case read_package_manifest (vt_yaml (en_tools env)) t of
                     Inl e \<Rightarrow> Inr (gate_refusal digest (meta_ref a) ''manifest_failed'' (en_safe env e))
                   | Inr m \<Rightarrow>
                       let own = snapshot_from_permissions (mf_permissions m);
                           snap = (case base of
                               Some b \<Rightarrow> intersect_capability_snapshots b own (Some (cs_source b)) (Some (cs_trigger b))
                             | None \<Rightarrow> own)
                       in Inr \<lparr>cr_ok = True, cr_status = ''ready'', cr_digest = digest, cr_module = manifest_ref m,
                               cr_snapshot = Some snap, cr_error = []\<rparr>)))"

text \<open>The newest active domain pack of an id; a later record of the same instant with a greater digest wins.\<close>

definition active_domain_pack_index :: "'p Evolution \<Rightarrow> (string, string) dict" where
  "active_domain_pack_index st =
     fold (\<lambda>(mid, t, d) idx. dict_set mid d idx)
       (sort (map (\<lambda>(d, a). (am_module_id a, am_activated_at a, d))
          (filter (\<lambda>(d, a). am_status a = ''active'' \<and> am_module_type a = ''domain_pack'') (ev_meta st)))) []"

definition snapshot_for_domain_pack ::
    "'p evo_env \<Rightarrow> string \<Rightarrow> CapabilitySnapshot option \<Rightarrow> 'p Evolution \<Rightarrow> ledger_error + CapabilitySnapshot option" where
  "snapshot_for_domain_pack env pack_id base st =
     (case dict_get (active_domain_pack_index st) pack_id of
        None \<Rightarrow> Inr None
      | Some digest \<Rightarrow>
          if digest = [] then Inr None
          else map_sum id (\<lambda>r. if cr_ok r then cr_snapshot r else None) (snapshot_for_artifact env digest base st))"

section \<open>A module gets no powers\<close>

lemma scopes_harmless:
  assumes "scopes_permitted perms"
  shows "set (snapshot_items ''mcp_scopes'' perms) \<subseteq> {''read''}"
proof (cases "dict_get perms ''mcp_scopes''")
  case None
  then show ?thesis by (simp add: snapshot_items_def)
next
  case (Some v)
  with assms obtain vs where vs: "v = JList vs" "list_all (\<lambda>x. x = JStr ''read'') vs"
    by (auto simp: scopes_permitted_def split: json.splits)
  have "map py_str vs = map (\<lambda>x. ''read'') vs" using vs(2) by (auto simp: list_all_iff py_str_def)
  with Some vs show ?thesis by (auto simp: snapshot_items_def)
qed

lemma harmless_snapshot:
  assumes "harmless_permissions perms"
  shows "\<not> cs_exec (snapshot_from_permissions perms) \<and> \<not> cs_write (snapshot_from_permissions perms) \<and>
    \<not> cs_cross (snapshot_from_permissions perms) \<and> \<not> cs_cron (snapshot_from_permissions perms) \<and>
    \<not> cs_spawn (snapshot_from_permissions perms) \<and> cs_domains (snapshot_from_permissions perms) = [] \<and>
    set (cs_scopes (snapshot_from_permissions perms)) \<subseteq> {''read''}"
proof -
  have "\<not> truthy_field k perms" if "k \<in> set DENIED_BOOL_PERMISSIONS" for k
    using that assms by (auto simp: harmless_permissions_def not_requested_def truthy_field_def split: option.splits)
  moreover have "snapshot_items ''device_domains'' perms = []"
    using assms by (auto simp: harmless_permissions_def devices_permitted_def snapshot_items_def is_string_list_def
        split: option.splits json.splits)
  ultimately show ?thesis
    using assms scopes_harmless by (auto simp: snapshot_from_permissions_def DENIED_BOOL_PERMISSIONS_def harmless_permissions_def)
qed

lemma gate_grants:
  assumes "snapshot_for_artifact env digest base st = Inr r" and "cr_ok r"
  obtains a m t where "dict_get (ev_meta st) digest = Some a" "am_status a = ''active''"
    "has_verified_event (vt_hash (en_tools env)) digest (ev_ledger st) = Inr True"
    "rp_ok (Verifier.verify (en_tools env) (ev_staging st) digest)"
    "Option.bind (dict_get (ev_staging st) digest) sd_artifact = Some t"
    "read_package_manifest (vt_yaml (en_tools env)) t = Inr m"
    "cr_snapshot r = Some (case base of
        Some b \<Rightarrow> intersect_capability_snapshots b (snapshot_from_permissions (mf_permissions m)) (Some (cs_source b)) (Some (cs_trigger b))
      | None \<Rightarrow> snapshot_from_permissions (mf_permissions m))"
proof -
  obtain a where a: "dict_get (ev_meta st) digest = Some a" "am_status a = ''active''"
    using assms by (auto simp: snapshot_for_artifact_def read_active_activation_def gate_refusal_def
        split: option.splits if_splits)
  then have act: "read_active_activation digest st = Some a" by (simp add: read_active_activation_def)
  have v: "has_verified_event (vt_hash (en_tools env)) digest (ev_ledger st) = Inr True"
    using assms act by (auto simp: snapshot_for_artifact_def or_raise_def gate_refusal_def split: sum.splits if_splits)
  have ok: "rp_ok (Verifier.verify (en_tools env) (ev_staging st) digest)"
    using assms act v by (auto simp: snapshot_for_artifact_def or_raise_def gate_refusal_def Let_def split: if_splits)
  obtain t where t: "Option.bind (dict_get (ev_staging st) digest) sd_artifact = Some t"
    using assms act v ok by (auto simp: snapshot_for_artifact_def or_raise_def gate_refusal_def Let_def split: option.splits)
  obtain m where m: "read_package_manifest (vt_yaml (en_tools env)) t = Inr m"
    using assms act v ok t by (auto simp: snapshot_for_artifact_def or_raise_def gate_refusal_def Let_def split: sum.splits)
  have r: "r = \<lparr>cr_ok = True, cr_status = ''ready'', cr_digest = digest, cr_module = manifest_ref m,
      cr_snapshot = Some (case base of
        Some b \<Rightarrow> intersect_capability_snapshots b (snapshot_from_permissions (mf_permissions m)) (Some (cs_source b)) (Some (cs_trigger b))
      | None \<Rightarrow> snapshot_from_permissions (mf_permissions m)), cr_error = []\<rparr>"
    using assms(1) act v ok t m by (simp add: snapshot_for_artifact_def or_raise_def Let_def)
  show thesis by (rule that [OF a v ok t m]) (simp add: r)
qed

text \<open>
  C4. A module never gets a power beyond reading: whenever the gate hands out a snapshot, the artifact is
  recorded active, the ledger names a verification of this very digest (in a row of the table, or in the
  file, which then verifies; the table is not verified here), the artifact passes verification now, and the
  snapshot can neither run, write, send across targets, schedule nor spawn, has
  no device domain and at most the scope read, and exceeds the caller's own snapshot in nothing.
\<close>

theorem module_powers_bounded:
  assumes "snapshot_for_artifact env digest base st = Inr r" and "cr_ok r"
  shows "\<exists>snap a. cr_snapshot r = Some snap \<and> dict_get (ev_meta st) digest = Some a \<and> am_status a = ''active'' \<and>
    on_record digest (ev_ledger st) \<and>
    (\<forall>f. ev_ledger st = JsonlLedger f \<longrightarrow> good_chain (vt_hash (en_tools env)) f) \<and>
    rp_ok (Verifier.verify (en_tools env) (ev_staging st) digest) \<and>
    \<not> cs_exec snap \<and> \<not> cs_write snap \<and> \<not> cs_cross snap \<and> \<not> cs_cron snap \<and> \<not> cs_spawn snap \<and>
    cs_domains snap = [] \<and> set (cs_scopes snap) \<subseteq> {''read''} \<and> (\<forall>b. base = Some b \<longrightarrow> snap_le snap b)"
proof -
  obtain a m t where g: "dict_get (ev_meta st) digest = Some a" "am_status a = ''active''"
    "has_verified_event (vt_hash (en_tools env)) digest (ev_ledger st) = Inr True"
    "rp_ok (Verifier.verify (en_tools env) (ev_staging st) digest)"
    "Option.bind (dict_get (ev_staging st) digest) sd_artifact = Some t"
    "read_package_manifest (vt_yaml (en_tools env)) t = Inr m"
    "cr_snapshot r = Some (case base of
        Some b \<Rightarrow> intersect_capability_snapshots b (snapshot_from_permissions (mf_permissions m)) (Some (cs_source b)) (Some (cs_trigger b))
      | None \<Rightarrow> snapshot_from_permissions (mf_permissions m))"
    by (rule gate_grants [OF assms])
  have "harmless_permissions (mf_permissions m)"
    using accepted_content g(4-6) by (metis acceptable_content_def)
  note own = harmless_snapshot [OF this]
  let ?own = "snapshot_from_permissions (mf_permissions m)"
  show ?thesis
  proof (cases base)
    case None
    with g own verified_event_good [OF g(3)] show ?thesis by (intro exI [of _ ?own] exI [of _ a]) simp
  next
    case (Some b)
    let ?s = "intersect_capability_snapshots b ?own (Some (cs_source b)) (Some (cs_trigger b))"
    have "snap_le ?s b" using le_intersect_iff [of ?s b ?own] snap_le_refl by blast
    moreover have "set (cs_scopes ?s) \<subseteq> set (cs_scopes ?own)" "cs_domains ?s = []"
      using own by (auto simp: intersect_capability_snapshots_def)
    moreover have "\<not> cs_exec ?s \<and> \<not> cs_write ?s \<and> \<not> cs_cross ?s \<and> \<not> cs_cron ?s \<and> \<not> cs_spawn ?s"
      using own by (simp add: intersect_capability_snapshots_def)
    ultimately show ?thesis using g own verified_event_good [OF g(3)] Some
      by (intro exI [of _ ?s] exI [of _ a]) (auto dest: subsetD)
  qed
qed

section \<open>Writing events\<close>

definition event_ok :: "'p evo_env \<Rightarrow> string \<Rightarrow> json_obj \<Rightarrow> bool" where
  "event_ok env etype res = (proper_hash (vt_hash (en_tools env)) \<and> etype \<in> set EVENT_TYPES \<and>
     (\<forall>n. en_id env n \<noteq> [] \<and> en_now env n \<noteq> []) \<and> finite_json (JObj res))"

abbreviation ledger_good :: "'p evo_env \<Rightarrow> 'p Evolution \<Rightarrow> bool" where
  "ledger_good env st \<equiv> good_ledger (vt_hash (en_tools env)) (ev_ledger st)"

text \<open>The identifiers to come are new to the table; the random ones of the code are.\<close>

definition ids_ahead :: "'p evo_env \<Rightarrow> ledger_store \<Rightarrow> bool" where
  "ids_ahead env L = (case L of JsonlLedger f \<Rightarrow> True
     | SqliteLedger rs \<Rightarrow> inj (en_id env) \<and> (\<forall>k \<ge> length rs. id_free (en_id env k) L))"

definition ledger_ready :: "'p evo_env \<Rightarrow> 'p Evolution \<Rightarrow> bool" where
  "ledger_ready env st = (ledger_good env st \<and> ids_ahead env (ev_ledger st))"

lemma ready_same [simp]:
  "ledger_ready env (st\<lparr>ev_staging := x\<rparr>) = ledger_ready env st"
  "ledger_ready env (st\<lparr>ev_meta := y\<rparr>) = ledger_ready env st"
  "ledger_ready env (st\<lparr>ev_skills := k\<rparr>) = ledger_ready env st"
  "ledger_ready env (st\<lparr>ev_packs := p\<rparr>) = ledger_ready env st"
  by (simp_all add: ledger_ready_def)

lemma emit_state: "fst (emit env etype who mr digest res st) = st\<lparr>ev_ledger := ev_ledger (fst (emit env etype who mr digest res st))\<rparr>"
  by (simp add: emit_def Let_def split: prod.splits)

lemma emit_fields [simp]:
  "ev_staging (fst (emit env etype who mr digest res st)) = ev_staging st"
  "ev_meta (fst (emit env etype who mr digest res st)) = ev_meta st"
  "ev_skills (fst (emit env etype who mr digest res st)) = ev_skills st"
  "ev_packs (fst (emit env etype who mr digest res st)) = ev_packs st"
  "ev_branches (fst (emit env etype who mr digest res st)) = ev_branches st"
  by (subst emit_state, simp)+

lemma emit_good:
  assumes "proper_hash (vt_hash (en_tools env))" and "ledger_good env st"
  shows "ledger_good env (fst (emit env etype who mr digest res st))"
  using ledger_append_good [OF assms] by (simp add: emit_def Let_def split: prod.splits) (metis fst_conv)

lemma new_event_appendable:
  assumes "event_ok env etype res"
  shows "appendable (new_event (en_id env n) (en_now env n) etype who mid ver mtype digest res)"
proof -
  have "finite_json (JObj (event_to_dict (new_event (en_id env n) (en_now env n) etype who mid ver mtype digest res)))"
    unfolding finite_event using assms by (simp add: event_ok_def new_event_def)
  then show ?thesis using assms
    by (simp add: appendable_def event_ok_def event_error_def new_event_def SOURCE_EVENT_STREAMS_def del: finite_json.simps)
qed

lemma ready_free: "ids_ahead env L \<Longrightarrow> id_free (en_id env (ledger_size L)) L"
  by (cases L) (simp_all add: ids_ahead_def id_free_def ledger_size_def ledger_lines_def)

lemma ids_stay_ahead:
  assumes "ids_ahead env L" and "ledger_extends L L'" and "ledger_size L' = ledger_size L + 1"
    and "\<forall>i. i \<noteq> en_id env (ledger_size L) \<longrightarrow> id_free i L \<longrightarrow> id_free i L'"
  shows "ids_ahead env L'"
proof (cases L')
  case (SqliteLedger rs)
  then obtain qs where L: "L = SqliteLedger qs" using assms(2) by (cases L) auto
  have i: "inj (en_id env)" "\<And>k. k \<ge> length qs \<Longrightarrow> id_free (en_id env k) L" using assms(1) L by (simp_all add: ids_ahead_def)
  have n: "length rs = length qs + 1" "ledger_size L = length qs"
    using assms(3) L SqliteLedger by (simp_all add: ledger_size_def ledger_lines_def)
  have "id_free (en_id env k) L'" if "k \<ge> length rs" for k
  proof -
    have "en_id env k \<noteq> en_id env (ledger_size L)" using that n inj_eq [OF i(1)] by simp
    moreover have "id_free (en_id env k) L" using that n by (intro i(2)) simp
    ultimately show ?thesis using assms(4) by blast
  qed
  with i(1) SqliteLedger show ?thesis by (simp add: ids_ahead_def)
qed (simp add: ids_ahead_def)

lemma emit_adds:
  assumes "event_ok env etype res" and "ledger_ready env st"
  obtains L e r where "emit env etype who mr digest res st = (st\<lparr>ev_ledger := L\<rparr>, Inr e)"
    "ledger_lines L = ledger_lines (ev_ledger st) @ [ObjectLine r]" "ledger_ready env (st\<lparr>ev_ledger := L\<rparr>)"
    "field ''event_type'' r = JStr etype" "field ''artifact_digest'' r = JStr digest" "field ''module_id'' r = JStr (mr_id mr)"
proof -
  let ?n = "ledger_size (ev_ledger st)"
  let ?e = "new_event (en_id env ?n) (en_now env ?n) etype who (mr_id mr) (mr_version mr) (mr_type mr) digest res"
  have H: "proper_hash (vt_hash (en_tools env))" using assms(1) by (simp add: event_ok_def)
  have g: "good_ledger (vt_hash (en_tools env)) (ev_ledger st)" "ids_ahead env (ev_ledger st)"
    using assms(2) by (simp_all add: ledger_ready_def)
  have i: "event_id ?e = en_id env ?n" by (simp add: new_event_def)
  then have free: "id_free (event_id ?e) (ev_ledger st)" using ready_free [OF g(2)] by simp
  obtain L e r where r: "ledger_append (vt_hash (en_tools env)) (en_identity env) ?e (ev_ledger st) = (L, Inr e)"
    "ledger_lines L = ledger_lines (ev_ledger st) @ [ObjectLine r]"
    "field ''event_type'' r = JStr (event_type ?e)" "field ''artifact_digest'' r = JStr (artifact_digest ?e)"
    "field ''module_id'' r = JStr (module_id ?e)" "good_ledger (vt_hash (en_tools env)) L" "ledger_extends (ev_ledger st) L"
    "\<forall>i. i \<noteq> event_id ?e \<longrightarrow> id_free i (ev_ledger st) \<longrightarrow> id_free i L"
    by (rule ledger_append_adds [where idn = "en_identity env", OF H g(1) new_event_appendable [OF assms(1)] free])
  have "ids_ahead env L"
    by (rule ids_stay_ahead [OF g(2) r(7)]) (use r(2,8) i in \<open>simp_all add: ledger_size_def\<close>)
  with r show thesis by (intro that [of L e r]) (simp_all add: emit_def Let_def new_event_def ledger_ready_def)
qed

section \<open>Staging prepares verification\<close>

lemma copy_get:
  "dict_get t name = Some (RegularFile c) \<Longrightarrow> \<not> is_excluded_file name \<Longrightarrow> dict_get (copy_entries t) name = Some (RegularFile c)"
proof (induction t)
  case (Cons x t)
  then show ?case by (cases x; cases "copy_entry (fst x) (snd x)") (auto split: if_splits)
qed simp

lemma no_symlink: "walk_files pre t = Some fs \<Longrightarrow> dict_get t name \<noteq> Some (Symlink c)"
  by (induction t arbitrary: fs) (auto split: option.splits if_splits)

lemma copied_manifest:
  assumes "read_package_manifest yaml t = Inr m" and "compute_artifact_digest H t = Some d"
  shows "read_package_manifest yaml (copy_entries t) = Inr m"
proof -
  obtain fs where fs: "walk_files [] t = Some fs"
    using assms(2) by (auto simp: compute_artifact_digest_def included_artifact_files_def)
  have "\<not> is_excluded_file EVOLUTION_MANIFEST_FILENAME" by code_simp
  moreover obtain c where "dict_get t EVOLUTION_MANIFEST_FILENAME = Some (RegularFile c)"
    using assms(1) no_symlink [OF fs]
    by (cases "dict_get t EVOLUTION_MANIFEST_FILENAME" rule: option.exhaust)
      (auto simp: read_package_manifest_def Let_def split: entry.splits option.splits)
  ultimately show ?thesis using assms(1) copy_get
    by (simp add: read_package_manifest_def Let_def)
qed

lemma staged_report:
  assumes "read_package_manifest (vt_yaml (en_tools env)) t = Inr m"
    and "compute_artifact_digest (vt_hash (en_tools env)) t = Some d" and "d \<noteq> []"
    and "dict_get sg d = Some (staged_dir env m d t n)"
  shows "rp_ok (Verifier.verify (en_tools env) sg d) \<longleftrightarrow> acceptable_content (en_tools env) (copy_entries t) m"
    and "rp_evaluated (Verifier.verify (en_tools env) sg d) = evaluated_permissions (mf_permissions m)"
    and "report_ref (Verifier.verify (en_tools env) sg d) = manifest_ref m"
proof -
  have c: "copy_artifact t = Some (copy_entries t)"
    using assms(2) by (auto simp: copy_artifact_def compute_artifact_digest_def)
  have dg: "compute_artifact_digest (vt_hash (en_tools env)) (copy_entries t) = Some d"
    using copy_files [OF c] assms(2) by (simp add: compute_artifact_digest_def)
  have al: "aligned (staging_metadata m d (en_now env n) (en_id env n)) m d"
    and sc: "dict_get (staging_metadata m d (en_now env n) (en_id env n)) ''schema_version'' = Some (JStr STAGING_SCHEMA_VERSION)"
    by (simp_all add: aligned_def staging_metadata_def)
  note v = verify_complete [OF assms(3,4) [unfolded staged_dir_def c] sc dg copied_manifest [OF assms(1,2)] al]
  from v show "rp_ok (Verifier.verify (en_tools env) sg d) \<longleftrightarrow> acceptable_content (en_tools env) (copy_entries t) m"
    "rp_evaluated (Verifier.verify (en_tools env) sg d) = evaluated_permissions (mf_permissions m)"
    "report_ref (Verifier.verify (en_tools env) sg d) = manifest_ref m"
    by (simp_all add: report_ref_def manifest_ref_def report_of_def)
qed

definition env_ok :: "'p evo_env \<Rightarrow> bool" where
  "env_ok env = (proper_hash (vt_hash (en_tools env)) \<and> (\<forall>n. en_id env n \<noteq> [] \<and> en_now env n \<noteq> []))"

lemma env_event: "env_ok env \<Longrightarrow> etype \<in> set EVENT_TYPES \<Longrightarrow> finite_json (JObj res) \<Longrightarrow> event_ok env etype res"
  by (simp add: env_ok_def event_ok_def)

lemma event_names:
  "''module_proposed'' \<in> set EVENT_TYPES" "''module_manifest_validated'' \<in> set EVENT_TYPES"
  "''module_installed_staging'' \<in> set EVENT_TYPES" "''module_failed'' \<in> set EVENT_TYPES"
  "''module_permission_checked'' \<in> set EVENT_TYPES" "''module_verified'' \<in> set EVENT_TYPES"
  "''module_activated'' \<in> set EVENT_TYPES" "''module_rollback_started'' \<in> set EVENT_TYPES"
  by (simp_all add: EVENT_TYPES_def)

lemma finite_strings: "finite_json (json_strings xs)"
  by (simp add: json_strings_def values_as_maps list_all_iff)

lemma finite_checks: "finite_json (JList (map check_json cs))"
  by (simp add: values_as_maps check_json_def list_all_iff)

lemma stage_fresh:
  assumes "env_ok env" and "ledger_ready env st" and "dirty_activation_for_module (mf_module_id m) (ev_meta st) = None"
    and "dict_get (ev_staging st) d = None"
  obtains s r where "stage_loaded env name who m d t st = (s, Inr r)" "sg_ok r" "sg_status r = ''staged''" "sg_digest r = d"
    "ledger_ready env s" "ev_staging s = dict_set d (staged_dir env m d t (ledger_size (ev_ledger st) + 2)) (ev_staging st)"
    "ev_meta s = ev_meta st" "ev_skills s = ev_skills st" "ev_packs s = ev_packs st" "ev_branches s = ev_branches st"
proof -
  let ?base = "[(''source_name'', JStr name), (''staging_path'', JStr (staging_path_of d))]"
  obtain L1 e1 r1 where 1: "emit env ''module_proposed'' who (manifest_ref m) d (?base @ [(''status'', JStr ''proposed'')]) st =
      (st\<lparr>ev_ledger := L1\<rparr>, Inr e1)" "ledger_lines L1 = ledger_lines (ev_ledger st) @ [ObjectLine r1]"
      "ledger_ready env (st\<lparr>ev_ledger := L1\<rparr>)"
    by (rule emit_adds [OF env_event [OF assms(1) event_names(1), of "?base @ [(''status'', JStr ''proposed'')]"] assms(2)]) simp_all
  let ?s1 = "st\<lparr>ev_ledger := L1\<rparr>"
  obtain L2 e2 r2 where 2: "emit env ''module_manifest_validated'' who (manifest_ref m) d (?base @ [(''status'', JStr ''validated'')]) ?s1 =
      (?s1\<lparr>ev_ledger := L2\<rparr>, Inr e2)" "ledger_lines L2 = ledger_lines (ev_ledger ?s1) @ [ObjectLine r2]"
      "ledger_ready env (?s1\<lparr>ev_ledger := L2\<rparr>)"
    by (rule emit_adds [OF env_event [OF assms(1) event_names(2), of "?base @ [(''status'', JStr ''validated'')]"] 1(3)]) simp_all
  let ?s2 = "?s1\<lparr>ev_ledger := L2\<rparr>"
  let ?s3 = "?s2\<lparr>ev_staging := dict_set d (staged_dir env m d t (ledger_size (ev_ledger ?s2))) (dict_del d (ev_staging st))\<rparr>"
  have g3: "ledger_ready env ?s3" using 2(3) by simp
  obtain L3 e3 r3 where 3: "emit env ''module_installed_staging'' who (manifest_ref m) d (?base @ [(''status'', JStr ''staged'')]) ?s3 =
      (?s3\<lparr>ev_ledger := L3\<rparr>, Inr e3)" "ledger_ready env (?s3\<lparr>ev_ledger := L3\<rparr>)"
    by (rule emit_adds [OF env_event [OF assms(1) event_names(3), of "?base @ [(''status'', JStr ''staged'')]"] g3]) simp_all
  have gone: "dict_del d (ev_staging st) = ev_staging st" using assms(4) by (simp add: delete_notin_dom dom_map_of_conv_image_fst map_of_eq_None_iff)
  have size: "ledger_size L2 = ledger_size (ev_ledger st) + 2" using 1(2) 2(2) by (simp add: ledger_size_def)
  have run: "stage_loaded env name who m d t st = (?s3\<lparr>ev_ledger := L3\<rparr>,
      Inr \<lparr>sg_ok = True, sg_status = ''staged'', sg_module = manifest_ref m, sg_digest = d, sg_path = staging_path_of d, sg_error = []\<rparr>)"
    unfolding stage_loaded_def Let_def assms(3) option.case
    using assms(4) 1(1) 2(1) 3(1) by (simp add: and_then_def has_valid_staging_def)
  show thesis by (rule that [OF run]) (use 3(2) gone size in simp_all)
qed

lemma verify_module_run:
  assumes "env_ok env" and "ledger_ready env st"
    and "finite_json (JObj (rp_evaluated (Verifier.verify (en_tools env) (ev_staging st) d)))"
  obtains l r1 r2 where "verify_module env who d st = (st\<lparr>ev_ledger := l\<rparr>, Inr (Verifier.verify (en_tools env) (ev_staging st) d))"
    "ledger_events l = ledger_events (ev_ledger st) @ [r1, r2]" "ledger_ready env (st\<lparr>ev_ledger := l\<rparr>)"
    "field ''event_type'' r1 = JStr ''module_permission_checked''"
    "field ''event_type'' r2 = JStr (if rp_ok (Verifier.verify (en_tools env) (ev_staging st) d) then ''module_verified'' else ''module_failed'')"
    "field ''artifact_digest'' r2 = JStr d"
proof -
  let ?rp = "Verifier.verify (en_tools env) (ev_staging st) d"
  let ?c = "JList (map check_json (rp_checks ?rp))"
  let ?res1 = "[(''status'', JStr ''permission_check_completed''), (''staging_path'', JStr (rp_staging_path ?rp)),
      (''permissions_evaluated'', JObj (rp_evaluated ?rp)), (''permissions_denied'', json_strings (rp_denied ?rp)),
      (''unknown_keys_rejected'', json_strings (rp_unknown ?rp)), (''checks'', ?c)]"
  let ?res2 = "[(''status'', JStr (if rp_ok ?rp then ''verified'' else ''failed'')),
      (''staging_path'', JStr (rp_staging_path ?rp)), (''checks'', ?c), (''error'', JStr (rp_error ?rp))]"
  let ?t2 = "if rp_ok ?rp then ''module_verified'' else ''module_failed''"
  have f: "finite_json (JObj ?res1)" "finite_json (JObj ?res2)"
    using assms(3) finite_strings finite_checks [of "rp_checks ?rp"] by simp_all
  obtain L1 e1 r1 where 1: "emit env ''module_permission_checked'' who (report_ref ?rp) d ?res1 st =
      (st\<lparr>ev_ledger := L1\<rparr>, Inr e1)" "ledger_lines L1 = ledger_lines (ev_ledger st) @ [ObjectLine r1]"
      "ledger_ready env (st\<lparr>ev_ledger := L1\<rparr>)" "field ''event_type'' r1 = JStr ''module_permission_checked''"
    by (rule emit_adds [OF env_event [OF assms(1) event_names(5) f(1)] assms(2)])
  let ?s1 = "st\<lparr>ev_ledger := L1\<rparr>"
  have t2: "?t2 \<in> set EVENT_TYPES" by (simp add: EVENT_TYPES_def)
  obtain L2 e2 r2 where 2: "emit env ?t2 who (report_ref ?rp) d ?res2 ?s1 = (?s1\<lparr>ev_ledger := L2\<rparr>, Inr e2)"
      "ledger_lines L2 = ledger_lines (ev_ledger ?s1) @ [ObjectLine r2]" "ledger_ready env (?s1\<lparr>ev_ledger := L2\<rparr>)"
      "field ''event_type'' r2 = JStr ?t2" "field ''artifact_digest'' r2 = JStr d"
    by (rule emit_adds [OF env_event [OF assms(1) t2 f(2)] 1(3)])
  show thesis
  proof (rule that)
    show "verify_module env who d st = (st\<lparr>ev_ledger := L2\<rparr>, Inr ?rp)"
      using 1(1) 2(1) by (simp add: verify_module_def Let_def and_then_def)
  qed (use 1(2,4) 2 in simp_all)
qed

lemma stage_verify:
  assumes "env_ok env" and "ledger_ready env st" and "load_package (en_tools env) src = Inr (m, d, t)" and "d \<noteq> []"
    and "dirty_activation_for_module (mf_module_id m) (ev_meta st) = None" and "dict_get (ev_staging st) d = None"
    and "finite_json (JObj (evaluated_permissions (mf_permissions m)))"
    and "stage env src who st = (s, r)" and "verify_module env who d s = (u, q)"
  shows "dict_get (ev_staging u) d = Some (staged_dir env m d t (ledger_size (ev_ledger st) + 2)) \<and> ev_meta u = ev_meta st \<and>
    ev_skills u = ev_skills st \<and> ev_packs u = ev_packs st \<and> ev_branches u = ev_branches st \<and> (\<exists>g. r = Inr g \<and> sg_ok g \<and> sg_digest g = d) \<and>
    (\<exists>rp. q = Inr rp \<and> (rp_ok rp \<longleftrightarrow> acceptable_content (en_tools env) (copy_entries t) m)) \<and> ledger_ready env u \<and>
    (acceptable_content (en_tools env) (copy_entries t) m \<longrightarrow>
       has_verified_event (vt_hash (en_tools env)) d (ev_ledger u) = Inr True)"
proof -
  have load: "read_package_manifest (vt_yaml (en_tools env)) t = Inr m" "compute_artifact_digest (vt_hash (en_tools env)) t = Some d"
    using assms(3) by (auto simp: load_package_def or_raise_def split: option.splits sum.splits if_splits)
  obtain s0 g where run: "stage_loaded env (src_name src) who m d t st = (s0, Inr g)" "sg_ok g" "sg_digest g = d" "ledger_ready env s0"
      "ev_staging s0 = dict_set d (staged_dir env m d t (ledger_size (ev_ledger st) + 2)) (ev_staging st)"
      "ev_meta s0 = ev_meta st" "ev_skills s0 = ev_skills st" "ev_packs s0 = ev_packs st" "ev_branches s0 = ev_branches st"
    by (rule stage_fresh [OF assms(1,2,5,6)])
  have s: "s = s0" "r = Inr g" using assms(3,8) run(1) by (simp_all add: stage_def)
  let ?rp = "Verifier.verify (en_tools env) (ev_staging s) d"
  have sg: "dict_get (ev_staging s) d = Some (staged_dir env m d t (ledger_size (ev_ledger st) + 2))"
    using run(5) s by (simp add: dict_simps)
  note st = staged_report [OF load assms(4) sg]
  have fin: "finite_json (JObj (rp_evaluated ?rp))" using st(2) assms(7) by simp
  have gs: "ledger_ready env s" using run(4) s by simp
  obtain l r1 r2 where v: "verify_module env who d s = (s\<lparr>ev_ledger := l\<rparr>, Inr ?rp)"
      "ledger_events l = ledger_events (ev_ledger s) @ [r1, r2]" "ledger_ready env (s\<lparr>ev_ledger := l\<rparr>)"
      "field ''event_type'' r2 = JStr (if rp_ok ?rp then ''module_verified'' else ''module_failed'')" "field ''artifact_digest'' r2 = JStr d"
    by (rule verify_module_run [OF assms(1) gs fin])
  then have u: "u = s\<lparr>ev_ledger := l\<rparr>" "q = Inr ?rp" using assms(9) by simp_all
  have gl: "good_ledger (vt_hash (en_tools env)) l" using v(3) by (simp add: ledger_ready_def)
  have "has_verified_event (vt_hash (en_tools env)) d l = Inr True" if "acceptable_content (en_tools env) (copy_entries t) m"
    using verified_event_recorded [OF gl, of r2 d] v(2,4,5) st(1) that by simp
  with run s u v(3) st(1) sg show ?thesis by simp
qed

text \<open>
  Staging prepares exactly what verification needs: staging a loadable package that is new and whose
  module is not dirty succeeds and files the copy under its digest; verifying it then reports ok exactly
  when the copied artifact and its manifest are acceptable (never because of the staging itself), records
  the outcome under the digest, and the ledger verifies; from then on the gate and the activator find the
  verification exactly when it succeeded or the digest had been verified before.
\<close>

theorem stage_then_verify:
  assumes "env_ok env" and "ledger_ready env st" and "load_package (en_tools env) src = Inr (m, d, t)" and "d \<noteq> []"
    and "dirty_activation_for_module (mf_module_id m) (ev_meta st) = None" and "dict_get (ev_staging st) d = None"
    and "finite_json (JObj (evaluated_permissions (mf_permissions m)))"
    and "stage env src who st = (s, r)" and "verify_module env who d s = (u, q)"
  shows "(\<exists>g. r = Inr g \<and> sg_ok g \<and> sg_digest g = d) \<and>
    (\<exists>rp. q = Inr rp \<and> (rp_ok rp \<longleftrightarrow> acceptable_content (en_tools env) (copy_entries t) m)) \<and> ledger_ready env u \<and>
    (acceptable_content (en_tools env) (copy_entries t) m \<longrightarrow>
       has_verified_event (vt_hash (en_tools env)) d (ev_ledger u) = Inr True)"
  using stage_verify [OF assms] by blast

section \<open>An example\<close>

definition example_permissions :: json_obj where
  "example_permissions = [(''read_files'', JBool True), (''mcp_scopes'', JList [JStr ''read''])]"

definition example_manifest :: json where
  "example_manifest = JObj [(''schema_version'', JStr MODULE_SCHEMA_VERSION), (''module_id'', JStr ''greet''),
     (''module_type'', JStr ''skill''), (''version'', JStr ''1''), (''permissions'', JObj example_permissions)]"

definition example_tree :: tree where
  "example_tree = [(EVOLUTION_MANIFEST_FILENAME, RegularFile ''m''), (''SKILL.md'', RegularFile ''s'')]"

definition example_skill :: SkillFile where
  "example_skill = \<lparr>sk_frontmatter = [(''metadata'', JObj [(''OriginAgent'', JObj [(''lifecycle_status'', JStr ''proposed''),
     (''verification_status'', JStr ''unverified'')])])], sk_body = []\<rparr>"

definition example_env :: "unit evo_env" where
  "example_env = \<lparr>en_tools = \<lparr>vt_hash = toy_hash, vt_yaml = (\<lambda>c. Inr example_manifest), vt_parse = (\<lambda>c. Unreadable),
       vt_pack = (\<lambda>t. (''ok'', []))\<rparr>, en_identity = None, en_id = (\<lambda>n. replicate (n + 1) CHR ''e''), en_now = (\<lambda>n. ''t''),
     en_skill_id = (\<lambda>n. ''s''), en_skill_now = (\<lambda>n. ''t''), en_clean = (\<lambda>s n. take n s), en_read_skill = (\<lambda>c. example_skill),
     en_safe = (\<lambda>s. s), en_error_text = (\<lambda>e. ''error''),
     en_packs = \<lparr>ps_exists = (\<lambda>i p. False), ps_install = (\<lambda>t p. (p, None)), ps_set_active = (\<lambda>i b p. (p, None)),
       ps_uninstall = (\<lambda>i p. (p, None))\<rparr>\<rparr>"

definition example_start :: "unit Evolution" where
  "example_start = \<lparr>ev_ledger = create_ledger None, ev_staging = [], ev_meta = [], ev_skills = \<lparr>sks_files = [], sks_events = []\<rparr>,
     ev_packs = (), ev_branches = []\<rparr>"

definition example_source :: PackageSource where
  "example_source = \<lparr>src_name = ''greet'', src_tree = Some example_tree\<rparr>"

definition example_digest :: string where
  "example_digest = toy_hash (digest_input (sort_key fst [(EVOLUTION_MANIFEST_FILENAME, ''m''), (''SKILL.md'', ''s'')]))"

definition example_verified :: "unit Evolution" where
  "example_verified = fst (verify_module example_env ''user'' example_digest (fst (stage example_env example_source ''user'' example_start)))"

definition example_validated :: EvolutionManifest where
  "example_validated = \<lparr>mf_module_id = ''greet'', mf_module_type = ''skill'', mf_version = ''1'', mf_target = [],
     mf_module_api = [], mf_permissions = example_permissions, mf_runtime = [], mf_context_budget = [],
     mf_endpoints = [], mf_side_effects = [], mf_tests = []\<rparr>"

lemma example_loads:
  "load_package (en_tools example_env) example_source = Inr (example_validated, example_digest, example_tree)"
  by code_simp

lemma example_ok: "env_ok example_env"
  using toy_proper by (simp add: env_ok_def example_env_def)

lemma example_accepted: "acceptable_content (en_tools example_env) (copy_entries example_tree) example_validated"
proof -
  have "list_all vc_ok (content_checks (en_tools example_env) (copy_entries example_tree) example_validated)" by code_simp
  then show ?thesis by (simp add: content_checks_ok)
qed

lemma example_fresh_ledger: "ledger_ready example_env example_start"
  by (simp add: example_start_def create_ledger_def ledger_ready_def good_ledger_def good_chain_def ledger_lines_def
      ids_ahead_def id_free_def example_env_def inj_def)

lemma example_facts:
  "example_digest \<noteq> []" "dirty_activation_for_module (mf_module_id example_validated) (ev_meta example_start) = None"
  "dict_get (ev_staging example_start) example_digest = None"
  "finite_json (JObj (evaluated_permissions (mf_permissions example_validated)))"
  by code_simp+

lemma example_run:
  "rp_ok (Verifier.verify (en_tools example_env) (ev_staging example_verified) example_digest) \<and>
   dict_get (ev_staging example_verified) example_digest =
     Some (staged_dir example_env example_validated example_digest example_tree 2) \<and>
   ev_meta example_verified = [] \<and> ev_skills example_verified = \<lparr>sks_files = [], sks_events = []\<rparr> \<and>
   ev_branches example_verified = [] \<and> ledger_ready example_env example_verified \<and>
   has_verified_event toy_hash example_digest (ev_ledger example_verified) = Inr True"
proof -
  obtain s r where s: "stage example_env example_source ''user'' example_start = (s, r)" by (rule prod.exhaust)
  obtain u q where u: "verify_module example_env ''user'' example_digest s = (u, q)" by (rule prod.exhaust)
  note run = stage_verify [OF example_ok example_fresh_ledger example_loads example_facts s u]
  have uu: "example_verified = u" by (simp add: example_verified_def s u)
  have sg: "dict_get (ev_staging u) example_digest = Some (staged_dir example_env example_validated example_digest example_tree 2)"
    using run by (simp add: example_start_def create_ledger_def ledger_size_def ledger_lines_def numeral_2_eq_2)
  have load: "read_package_manifest (vt_yaml (en_tools example_env)) example_tree = Inr example_validated"
    "compute_artifact_digest (vt_hash (en_tools example_env)) example_tree = Some example_digest"
    using example_loads by (auto simp: load_package_def example_source_def or_raise_def split: option.splits sum.splits if_splits)
  from staged_report(1) [OF load example_facts(1) sg] run example_accepted sg show ?thesis
    by (simp add: uu example_start_def) (simp add: example_env_def)
qed

theorem stage_then_verify_witness:
  "case stage example_env example_source ''user'' example_start of (s, r) \<Rightarrow>
     (case verify_module example_env ''user'' example_digest s of (u, q) \<Rightarrow>
        has_verified_event toy_hash example_digest (ev_ledger u) = Inr True)"
proof -
  obtain s r where s: "stage example_env example_source ''user'' example_start = (s, r)" by (rule prod.exhaust)
  obtain u q where u: "verify_module example_env ''user'' example_digest s = (u, q)" by (rule prod.exhaust)
  have "has_verified_event (vt_hash (en_tools example_env)) example_digest (ev_ledger u) = Inr True"
    using stage_then_verify [OF example_ok example_fresh_ledger example_loads example_facts s u] example_accepted by blast
  then show ?thesis using s u by (simp add: example_env_def)
qed

definition example_meta :: ActivationMeta where
  "example_meta = \<lparr>am_activation_id = ''a'', am_module_id = ''greet'', am_module_type = ''skill'', am_version = ''1'',
     am_status = ''active'', am_activated_at = ''t'', am_rolled_back_at = [], am_target_paths = [''skills/greet''],
     am_activation_event = ''e'', am_rollback_event = [], am_dirty_at = [], am_dirty_reason = [], am_residual = [],
     am_attempts = [], am_force_cleaned_at = []\<rparr>"

theorem module_powers_bounded_witness:
  "\<exists>r snap. snapshot_for_artifact example_env example_digest (Some user_turn)
       (example_verified\<lparr>ev_meta := [(example_digest, example_meta)]\<rparr>) = Inr r \<and>
     cr_snapshot r = Some snap \<and> cs_read snap \<and> \<not> cs_exec snap \<and> snap_le snap user_turn"
proof -
  let ?st = "example_verified\<lparr>ev_meta := [(example_digest, example_meta)]\<rparr>"
  let ?r = "\<lparr>cr_ok = True, cr_status = ''ready'', cr_digest = example_digest, cr_module = manifest_ref example_validated,
    cr_snapshot = Some (intersect_capability_snapshots user_turn (snapshot_from_permissions example_permissions)
       (Some (cs_source user_turn)) (Some (cs_trigger user_turn))), cr_error = []\<rparr>"
  have a: "read_active_activation example_digest ?st = Some example_meta"
    by (simp add: read_active_activation_def example_meta_def)
  have c: "copy_artifact example_tree = Some (copy_entries example_tree)" by code_simp
  have t: "Option.bind (dict_get (ev_staging ?st) example_digest) sd_artifact = Some (copy_entries example_tree)"
    using example_run by (simp add: staged_dir_def c)
  have m: "read_package_manifest (vt_yaml (en_tools example_env)) (copy_entries example_tree) = Inr example_validated" by code_simp
  have v: "has_verified_event (vt_hash (en_tools example_env)) example_digest (ev_ledger ?st) = Inr True"
    using example_run by (simp add: example_env_def)
  have g: "snapshot_for_artifact example_env example_digest (Some user_turn) ?st = Inr ?r"
    using a t m v example_run by (simp add: snapshot_for_artifact_def or_raise_def Let_def example_validated_def)
  have rd: "cs_read (intersect_capability_snapshots user_turn (snapshot_from_permissions example_permissions)
       (Some (cs_source user_turn)) (Some (cs_trigger user_turn)))" by code_simp
  have k: "cr_ok ?r" by simp
  from module_powers_bounded [OF g k] g rd show ?thesis by (intro exI [of _ ?r]) auto
qed

end
