(* ===== verification/Activation.thy ===== *)
theory Activation
  imports Evolution
begin

text \<open>
  Activation and rollback of verified modules (\<^verbatim>\<open>evolution/activation.py\<close>) and the bookkeeping of
  rollbacks that went wrong (\<^verbatim>\<open>evolution/recovery.py\<close>), over the state of \<open>Evolution\<close>. An activation
  record is written by this code only, so it is kept as a record; copying a skill never fails, and a
  skill directory exists exactly when the skill store has its file. A result does not repeat the events,
  which are in the ledger.
\<close>

section \<open>Results and helpers\<close>

record EvolutionActivationResult =
  ar_ok :: bool
  ar_status :: string
  ar_module :: module_ref
  ar_digest :: string
  ar_activation_id :: string
  ar_targets :: "string list"
  ar_error :: string

definition result_from_metadata :: "string \<Rightarrow> ActivationMeta \<Rightarrow> bool \<Rightarrow> string \<Rightarrow> string \<Rightarrow> EvolutionActivationResult" where
  "result_from_metadata digest a good status err = \<lparr>ar_ok = good, ar_status = status, ar_module = meta_ref a,
     ar_digest = digest, ar_activation_id = am_activation_id a, ar_targets = am_target_paths a, ar_error = err\<rparr>"

text \<open>\<^verbatim>\<open>_append_failed_event\<close>; the staging path is known when the context is.\<close>

definition append_failed_event ::
    "'p evo_env \<Rightarrow> string \<Rightarrow> string \<Rightarrow> string \<Rightarrow> string \<Rightarrow> module_ref option \<Rightarrow> string list \<Rightarrow> 'p Evolution
     \<Rightarrow> 'p Evolution \<times> (ledger_error + EvolutionEvent)" where
  "append_failed_event env who digest status err ctx targets st =
     emit env ''module_failed'' who (case ctx of Some mr \<Rightarrow> mr | None \<Rightarrow> no_module) digest
       ([(''status'', JStr status), (''error'', JStr err)] @
        (if ctx = None then [] else [(''staging_path'', JStr (staging_path_of digest))]) @
        (if targets = [] then [] else [(''target_paths'', json_strings targets)])) st"

definition failed_result ::
    "'p evo_env \<Rightarrow> string \<Rightarrow> string \<Rightarrow> string \<Rightarrow> string \<Rightarrow> module_ref \<Rightarrow> string list \<Rightarrow> 'p Evolution
     \<Rightarrow> 'p Evolution \<times> (ledger_error + EvolutionActivationResult)" where
  "failed_result env who digest status err mr targets st =
     and_then (append_failed_event env who digest status err (Some mr) targets st)
       (\<lambda>s e. (s, Inr \<lparr>ar_ok = False, ar_status = status, ar_module = mr, ar_digest = digest, ar_activation_id = [],
          ar_targets = targets, ar_error = err\<rparr>))"

text \<open>An event about the module of an activation record.\<close>

definition append_meta_event ::
    "'p evo_env \<Rightarrow> string \<Rightarrow> string \<Rightarrow> string \<Rightarrow> ActivationMeta \<Rightarrow> json_obj \<Rightarrow> 'p Evolution
     \<Rightarrow> 'p Evolution \<times> (ledger_error + EvolutionEvent)" where
  "append_meta_event env etype who digest a res st = emit env etype who (meta_ref a) digest res st"

definition has_active_state_branch :: "string \<Rightarrow> 'p Evolution \<Rightarrow> bool" where
  "has_active_state_branch digest st = list_ex (\<lambda>(d, status). d = digest \<and> status = ''active'') (ev_branches st)"

definition skill_move :: "'p evo_env \<Rightarrow> string \<Rightarrow> string \<Rightarrow> string \<Rightarrow> string \<Rightarrow> 'p Evolution \<Rightarrow> 'p Evolution \<times> SkillResult" where
  "skill_move env name act why who st =
     (let n = length (sks_events (ev_skills st)) in
      case transition (en_clean env) (en_skill_id env n) (en_skill_now env n) name act why who False (ev_skills st) of
        (sk, r) \<Rightarrow> (st\<lparr>ev_skills := sk\<rparr>, r))"

definition put_meta :: "string \<Rightarrow> ActivationMeta \<Rightarrow> 'p Evolution \<Rightarrow> 'p Evolution" where
  "put_meta digest a st = st\<lparr>ev_meta := dict_set digest a (ev_meta st)\<rparr>"

section \<open>Activation\<close>

text \<open>\<^verbatim>\<open>_load_activation_context\<close>: a refusal with its status, or the artifact with its manifest.\<close>

definition load_activation_context ::
    "'p evo_env \<Rightarrow> string \<Rightarrow> 'p Evolution \<Rightarrow> ledger_error + ((string \<times> string \<times> module_ref) + (tree \<times> EvolutionManifest))" where
  "load_activation_context env digest st =
     (case Option.bind (dict_get (ev_staging st) digest) sd_artifact of
        None \<Rightarrow> Inr (Inl (''missing_staging'', ''staging artifact is missing'', no_module))
      | Some t \<Rightarrow>
          or_raise (has_verified_event (vt_hash (en_tools env)) digest (ev_ledger st)) (\<lambda>seen.
          if \<not> seen then Inr (Inl (''unverified'', ''artifact_digest has no verified module event'', no_module))
          else
            let rp = Verifier.verify (en_tools env) (ev_staging st) digest in
            if \<not> rp_ok rp then Inr (Inl (''verification_failed'', rp_error rp, report_ref rp))
            else case read_package_manifest (vt_yaml (en_tools env)) t of
                Inl e \<Rightarrow> Inr (Inl (''manifest_failed'', e, report_ref rp))
              | Inr m \<Rightarrow> Inr (Inr (t, m))))"

definition new_activation :: "'p evo_env \<Rightarrow> EvolutionManifest \<Rightarrow> string list \<Rightarrow> nat \<Rightarrow> ActivationMeta" where
  "new_activation env m targets n =
     \<lparr>am_activation_id = ''activation_'' @ en_id env n, am_module_id = mf_module_id m,
      am_module_type = mf_module_type m, am_version = mf_version m, am_status = ''active'',
      am_activated_at = en_now env n, am_rolled_back_at = [], am_target_paths = targets,
      am_activation_event = en_id env n, am_rollback_event = [], am_dirty_at = [], am_dirty_reason = [],
      am_residual = [], am_attempts = [], am_force_cleaned_at = []\<rparr>"

definition write_activation_success ::
    "'p evo_env \<Rightarrow> string \<Rightarrow> string \<Rightarrow> EvolutionManifest \<Rightarrow> string list \<Rightarrow> 'p Evolution
     \<Rightarrow> 'p Evolution \<times> (ledger_error + EvolutionActivationResult)" where
  "write_activation_success env who digest m targets st =
     (let a = new_activation env m targets (ledger_size (ev_ledger st))
      in and_then (append_meta_event env ''module_activated'' who digest a
             [(''status'', JStr ''active''), (''staging_path'', JStr (staging_path_of digest)),
              (''target_paths'', json_strings targets)] (put_meta digest a st))
           (\<lambda>s e. (s, Inr (result_from_metadata digest a True ''active'' []))))"

definition put_skill :: "string \<Rightarrow> SkillFile \<Rightarrow> 'p Evolution \<Rightarrow> 'p Evolution" where
  "put_skill name sk st = st\<lparr>ev_skills := (ev_skills st)\<lparr>sks_files := dict_set name sk (sks_files (ev_skills st))\<rparr>\<rparr>"

definition remove_skill :: "string \<Rightarrow> 'p Evolution \<Rightarrow> 'p Evolution" where
  "remove_skill name st = st\<lparr>ev_skills := (ev_skills st)\<lparr>sks_files := dict_del name (sks_files (ev_skills st))\<rparr>\<rparr>"

definition file_text :: "tree \<Rightarrow> string \<Rightarrow> string" where
  "file_text t name = (case dict_get t name of Some (RegularFile c) \<Rightarrow> c | Some (Symlink (Some c)) \<Rightarrow> c | _ \<Rightarrow> [])"

definition activate_skill ::
    "'p evo_env \<Rightarrow> string \<Rightarrow> string \<Rightarrow> tree \<Rightarrow> EvolutionManifest \<Rightarrow> 'p Evolution
     \<Rightarrow> 'p Evolution \<times> (ledger_error + EvolutionActivationResult)" where
  "activate_skill env who digest t m st =
     (let name = mf_module_id m; mr = manifest_ref m; targets = [''skills/'' @ name]; why = ''evolution activation'' in
      if \<not> is_safe_skill_name name
      then failed_result env who digest ''invalid_skill_name'' ''skill module_id is not a safe workspace skill name'' mr [] st
      else if \<not> is_file t ''SKILL.md''
      then failed_result env who digest ''missing_skill_manifest'' ''skill artifact must include SKILL.md'' mr [] st
      else if dict_get (sks_files (ev_skills st)) name \<noteq> None
      then failed_result env who digest ''skill_exists'' ''workspace skill already exists'' mr targets st
      else case skill_move env name ''verify'' why who (put_skill name (en_read_skill env (file_text t ''SKILL.md'')) st) of
          (s1, r1) \<Rightarrow>
            if \<not> sr_ok r1
            then failed_result env who digest ''skill_verify_failed'' (str_or (sr_error r1) (sr_message r1)) mr targets
                   (remove_skill name s1)
            else (case skill_move env name ''activate'' why who s1 of
                (s2, r2) \<Rightarrow>
                  if \<not> sr_ok r2
                  then (case skill_move env name ''deprecate'' ''evolution activation failed'' who s2 of
                      (s3, r3) \<Rightarrow> failed_result env who digest ''skill_activate_failed''
                        (str_or (sr_error r2) (sr_message r2) @
                         (if sr_ok r3 then ''; deprecate attempted'' else ''; deprecate failed: '' @ sr_error r3)) mr targets s3)
                  else write_activation_success env who digest m targets s2))"

definition activate_domain_pack ::
    "'p evo_env \<Rightarrow> string \<Rightarrow> string \<Rightarrow> tree \<Rightarrow> EvolutionManifest \<Rightarrow> 'p Evolution
     \<Rightarrow> 'p Evolution \<times> (ledger_error + EvolutionActivationResult)" where
  "activate_domain_pack env who digest t m st =
     (let name = mf_module_id m; mr = manifest_ref m; targets = [''domain_packs/'' @ name]; ps = en_packs env in
      if \<not> is_file t ''domain_pack.yaml''
      then failed_result env who digest ''missing_domain_pack_manifest'' ''domain_pack artifact must include domain_pack.yaml'' mr [] st
      else if ps_exists ps name (ev_packs st)
      then failed_result env who digest ''domain_pack_exists'' ''workspace domain pack already exists'' mr targets st
      else case ps_install ps t (ev_packs st) of
          (p1, Some err) \<Rightarrow> failed_result env who digest ''domain_pack_install_failed'' err mr targets (st\<lparr>ev_packs := p1\<rparr>)
        | (p1, None) \<Rightarrow>
            (case ps_set_active ps name True p1 of
               (p2, Some err) \<Rightarrow> failed_result env who digest ''domain_pack_activate_failed'' err mr targets
                  (st\<lparr>ev_packs := fst (ps_uninstall ps name p2)\<rparr>)
             | (p2, None) \<Rightarrow> write_activation_success env who digest m targets (st\<lparr>ev_packs := p2\<rparr>)))"

definition approval_given :: "string option \<Rightarrow> bool" where
  "approval_given approved = (case approved of Some a \<Rightarrow> py_strip a \<noteq> [] | None \<Rightarrow> False)"

text \<open>The dumped configuration, as the loader gives it; the setting is looked up at its top level.\<close>

definition approval_required :: "json_obj option \<Rightarrow> bool" where
  "approval_required config =
     (case config of
        None \<Rightarrow> True
      | Some d \<Rightarrow> if d = [] then True
          else (case dict_get d ''require_manual_approval'' of None \<Rightarrow> True | Some v \<Rightarrow> json_truthy v))"

definition activate ::
    "'p evo_env \<Rightarrow> json_obj option \<Rightarrow> string \<Rightarrow> string \<Rightarrow> string option \<Rightarrow> 'p Evolution
     \<Rightarrow> 'p Evolution \<times> (ledger_error + EvolutionActivationResult)" where
  "activate env config digest who approved st =
     (if approval_required config \<and> \<not> approval_given approved
      then (st, Inr \<lparr>ar_ok = False, ar_status = ''rejected'', ar_module = no_module, ar_digest = digest,
              ar_activation_id = [], ar_targets = [], ar_error =
                ''Manual approval required. Set approved_by to the identifier of the human who approved this activation, '' @
                ''or disable require_manual_approval in evolution config.''\<rparr>)
      else case read_active_activation digest st of
          Some a \<Rightarrow>
            and_then (append_meta_event env ''module_activated'' who digest a
                [(''status'', JStr ''already_active''), (''target_paths'', json_strings (am_target_paths a))] st)
              (\<lambda>s e. (s, Inr (result_from_metadata digest a True ''already_active'' [])))
        | None \<Rightarrow>
            (case load_activation_context env digest st of
               Inl e \<Rightarrow> (st, Inl e)
             | Inr (Inl (status, err, mr)) \<Rightarrow> failed_result env who digest status err mr [] st
             | Inr (Inr (t, m)) \<Rightarrow>
                 let unsupported = failed_result env who digest ''unsupported''
                       (''activation is unsupported for module_type: '' @ mf_module_type m) (manifest_ref m) [] st
                 in if mf_module_type m = ''workflow'' \<or> mf_module_type m = ''tool'' then unsupported
                    else if has_active_state_branch digest st
                    then failed_result env who digest ''active_state_branch'' ''artifact has an active state branch'' (manifest_ref m) [] st
                    else if mf_module_type m = ''skill'' then activate_skill env who digest t m st
                    else if mf_module_type m = ''domain_pack'' then activate_domain_pack env who digest t m st
                    else unsupported))"

section \<open>Rollback\<close>

definition rollback_skill :: "'p evo_env \<Rightarrow> string \<Rightarrow> ActivationMeta \<Rightarrow> 'p Evolution \<Rightarrow> 'p Evolution \<times> string" where
  "rollback_skill env who a st =
     (case skill_move env (am_module_id a) ''deprecate'' ''evolution rollback'' who st of
        (s, r) \<Rightarrow> (s, if sr_ok r then [] else str_or (sr_error r) (sr_message r)))"

definition rollback_domain_pack :: "'p evo_env \<Rightarrow> ActivationMeta \<Rightarrow> 'p Evolution \<Rightarrow> 'p Evolution \<times> string" where
  "rollback_domain_pack env a st =
     (case ps_set_active (en_packs env) (am_module_id a) False (ev_packs st) of
        (p1, Some err) \<Rightarrow> (st\<lparr>ev_packs := p1\<rparr>, err)
      | (p1, None) \<Rightarrow>
          (case ps_uninstall (en_packs env) (am_module_id a) p1 of
             (p2, Some err) \<Rightarrow> (st\<lparr>ev_packs := p2\<rparr>, err)
           | (p2, None) \<Rightarrow> (st\<lparr>ev_packs := p2\<rparr>, [])))"

definition undo_activation :: "'p evo_env \<Rightarrow> string \<Rightarrow> ActivationMeta \<Rightarrow> 'p Evolution \<Rightarrow> 'p Evolution \<times> string" where
  "undo_activation env who a st =
     (if am_module_type a = ''skill'' then rollback_skill env who a st
      else if am_module_type a = ''domain_pack'' then rollback_domain_pack env a st
      else (st, ''rollback is unsupported for module_type: '' @ am_module_type a))"

definition record_dirty_rollback ::
    "'p evo_env \<Rightarrow> string \<Rightarrow> string \<Rightarrow> ActivationMeta \<Rightarrow> string \<Rightarrow> 'p Evolution
     \<Rightarrow> 'p Evolution \<times> (ledger_error + ActivationMeta)" where
  "record_dirty_rollback env who digest a why st =
     (let dirty = a\<lparr>am_status := ''dirty_rollback'', am_dirty_at := en_now env (ledger_size (ev_ledger st)),
            am_dirty_reason := why, am_residual := am_target_paths a\<rparr>
      in and_then (append_meta_event env ''dirty_rollback'' who digest dirty
             [(''status'', JStr ''dirty_rollback''), (''reason'', JStr why),
              (''residual_resources'', json_strings (am_target_paths a))] (put_meta digest dirty st))
           (\<lambda>s e. (s, Inr dirty)))"

definition rollback ::
    "'p evo_env \<Rightarrow> string \<Rightarrow> string \<Rightarrow> 'p Evolution \<Rightarrow> 'p Evolution \<times> (ledger_error + EvolutionActivationResult)" where
  "rollback env digest who st =
     (case dict_get (ev_meta st) digest of
        None \<Rightarrow>
          and_then (append_failed_event env who digest ''not_active'' ''activation metadata is missing'' None [] st)
            (\<lambda>s e. (s, Inr \<lparr>ar_ok = False, ar_status = ''not_active'', ar_module = no_module, ar_digest = digest,
               ar_activation_id = [], ar_targets = [], ar_error = ''activation metadata is missing''\<rparr>))
      | Some a \<Rightarrow>
          let targets = (''target_paths'', json_strings (am_target_paths a)) in
          if am_status a = ''rolled_back''
          then and_then (append_meta_event env ''module_rollback_succeeded'' who digest a
                   [(''status'', JStr ''already_rolled_back''), targets] st)
                 (\<lambda>s e. (s, Inr (result_from_metadata digest a True ''already_rolled_back'' [])))
          else if am_status a \<noteq> ''active''
          then
            let err = ''activation is not active: '' @ am_status a
            in and_then (append_meta_event env ''module_rollback_failed'' who digest a
                   [(''status'', JStr ''not_active''), (''error'', JStr err), targets] st)
                 (\<lambda>s e. (s, Inr (result_from_metadata digest a False ''not_active'' err)))
          else
            and_then (append_meta_event env ''module_rollback_started'' who digest a
                [(''status'', JStr ''rollback_started''), targets] st) (\<lambda>s1 e1.
            case undo_activation env who a s1 of
              (s2, failed) \<Rightarrow>
                if failed \<noteq> []
                then
                  and_then (append_meta_event env ''module_rollback_failed'' who digest a
                      [(''status'', JStr ''rollback_failed''), (''error'', JStr failed), targets] s2) (\<lambda>s3 e3.
                  and_then (record_dirty_rollback env who digest a failed s3) (\<lambda>s4 dirty.
                  (s4, Inr (result_from_metadata digest dirty False ''dirty_rollback'' failed))))
                else
                  let n = ledger_size (ev_ledger s2);
                      done_meta = a\<lparr>am_status := ''rolled_back'', am_rolled_back_at := en_now env n, am_rollback_event := en_id env n\<rparr>
                  in and_then (append_meta_event env ''module_rollback_succeeded'' who digest a
                         [(''status'', JStr ''rolled_back''), targets] (put_meta digest done_meta s2))
                       (\<lambda>s3 e3. (s3, Inr (result_from_metadata digest done_meta True ''rolled_back'' [])))))"

section \<open>Recovery\<close>

record EvolutionRecoveryResult =
  rr_ok :: bool
  rr_status :: string
  rr_digest :: string
  rr_module :: module_ref
  rr_error :: string

definition recovery_result :: "string \<Rightarrow> ActivationMeta \<Rightarrow> bool \<Rightarrow> string \<Rightarrow> string \<Rightarrow> EvolutionRecoveryResult" where
  "recovery_result digest a good status err = \<lparr>rr_ok = good, rr_status = status, rr_digest = digest, rr_module = meta_ref a, rr_error = err\<rparr>"

text \<open>The record of a dirty artifact, or the refusal.\<close>

definition dirty_metadata :: "string \<Rightarrow> 'p Evolution \<Rightarrow> EvolutionRecoveryResult + ActivationMeta" where
  "dirty_metadata digest st =
     (case dict_get (ev_meta st) digest of
        None \<Rightarrow> Inl \<lparr>rr_ok = False, rr_status = ''not_active'', rr_digest = digest, rr_module = no_module,
                  rr_error = ''activation metadata is missing''\<rparr>
      | Some a \<Rightarrow> if am_status a \<noteq> ''dirty_rollback''
          then Inl (recovery_result digest a False ''not_dirty_rollback'' (''activation is not dirty_rollback: '' @ am_status a))
          else Inr a)"

definition torn_down :: "bool \<Rightarrow> string \<Rightarrow> string list \<Rightarrow> string \<Rightarrow> ActivationMeta \<Rightarrow> ActivationMeta" where
  "torn_down succeeded why residuals now a =
     (let tried = a\<lparr>am_attempts := am_attempts a @ [(succeeded, why, residuals)]\<rparr> in
      if succeeded then tried\<lparr>am_status := ''rolled_back'', am_rolled_back_at := str_or (am_rolled_back_at a) now, am_residual := []\<rparr>
      else tried\<lparr>am_status := ''dirty_rollback'', am_dirty_reason := why, am_residual := residuals\<rparr>)"

definition record_teardown ::
    "'p evo_env \<Rightarrow> string \<Rightarrow> bool \<Rightarrow> string \<Rightarrow> string list \<Rightarrow> string \<Rightarrow> 'p Evolution
     \<Rightarrow> 'p Evolution \<times> (ledger_error + EvolutionRecoveryResult)" where
  "record_teardown env digest succeeded why residuals who st =
     (case dirty_metadata digest st of
        Inl r \<Rightarrow> (st, Inr r)
      | Inr a \<Rightarrow>
          let safe_reason = en_safe env why; safe_residuals = map (en_safe env) residuals;
              tail_of = (\<lambda>status. [(''status'', JStr status), (''reason'', JStr safe_reason),
                 (''residual_resources'', json_strings safe_residuals)])
          in and_then (append_meta_event env ''teardown_started'' who digest a (tail_of ''teardown_started'') st) (\<lambda>s1 e1.
             let b = torn_down succeeded safe_reason safe_residuals (en_now env (ledger_size (ev_ledger s1))) a;
                 status = (if succeeded then ''teardown_succeeded'' else ''teardown_failed'')
             in and_then (append_meta_event env status who digest b (tail_of status) s1)
                  (\<lambda>s2 e2. (put_meta digest b s2, Inr (recovery_result digest b succeeded status
                     (if succeeded then [] else str_or safe_reason ''teardown failed''))))))"

definition force_clean ::
    "'p evo_env \<Rightarrow> string \<Rightarrow> string \<Rightarrow> string \<Rightarrow> 'p Evolution \<Rightarrow> 'p Evolution \<times> (ledger_error + EvolutionRecoveryResult)" where
  "force_clean env digest why who st =
     (case dirty_metadata digest st of
        Inl r \<Rightarrow> (st, Inr r)
      | Inr a \<Rightarrow>
          let safe_reason = en_safe env why in
          and_then (append_meta_event env ''module_force_clean_requested'' who digest a
              [(''status'', JStr ''force_clean_requested''), (''reason'', JStr safe_reason)] st) (\<lambda>s1 e1.
          let now = en_now env (ledger_size (ev_ledger s1));
              b = a\<lparr>am_status := ''rolled_back'', am_rolled_back_at := str_or (am_rolled_back_at a) now,
                    am_force_cleaned_at := now, am_dirty_reason := safe_reason, am_residual := []\<rparr>
          in and_then (append_meta_event env ''module_force_clean_succeeded'' who digest b
                 [(''status'', JStr ''force_clean_succeeded''), (''reason'', JStr safe_reason)] (put_meta digest b s1))
               (\<lambda>s2 e2. (s2, Inr (recovery_result digest b True ''force_clean_succeeded'' [])))))"

section \<open>The ledger only grows\<close>

definition grown :: "'p evo_env \<Rightarrow> ledger_store \<Rightarrow> 'p Evolution \<Rightarrow> bool" where
  "grown env f st = (proper_hash (vt_hash (en_tools env)) \<and> ledger_good env st \<and> ledger_extends f (ev_ledger st))"

lemma grown_same: "ev_ledger s = ev_ledger st \<Longrightarrow> grown env f s = grown env f st"
  by (simp add: grown_def)

lemma grown_simps [simp]:
  "grown env f (st\<lparr>ev_staging := x\<rparr>) = grown env f st"
  "grown env f (st\<lparr>ev_skills := k\<rparr>) = grown env f st"
  "grown env f (st\<lparr>ev_packs := p\<rparr>) = grown env f st"
  "grown env f (put_meta d a st) = grown env f st"
  "grown env f (put_skill n sk st) = grown env f st"
  "grown env f (remove_skill n st) = grown env f st"
  by (simp_all add: grown_def put_meta_def put_skill_def remove_skill_def)

lemma grown_skill_move: "skill_move env0 name act why who st = (s, r) \<Longrightarrow> grown env f s = grown env f st"
  by (auto simp: skill_move_def Let_def split: prod.splits)

lemma grown_undo: "undo_activation env0 who a st = (s, failed) \<Longrightarrow> grown env f s = grown env f st"
  by (auto simp: undo_activation_def rollback_skill_def rollback_domain_pack_def skill_move_def Let_def
      split: prod.splits option.splits if_splits)

lemma append_grown:
  assumes "grown env f st"
  shows "grown env f (st\<lparr>ev_ledger := fst (ledger_append (vt_hash (en_tools env)) idn e (ev_ledger st))\<rparr>)"
  using assms ledger_append_good [of "vt_hash (en_tools env)" "ev_ledger st" idn e]
  by (auto simp: grown_def intro: ledger_extends_trans)

lemma emit_appends: "\<exists>e. fst (emit env etype who mr digest res st) =
    st\<lparr>ev_ledger := fst (ledger_append (vt_hash (en_tools env)) (en_identity env) e (ev_ledger st))\<rparr>"
  unfolding emit_def Let_def case_prod_beta by auto

lemma emit_grown [inv_intros]: "grown env f st \<Longrightarrow> grown env f (fst (emit env etype who mr digest res st))"
  using emit_appends [of env etype who mr digest res st] append_grown by fastforce

lemma and_then_grown [inv_intros]:
  "grown env f (fst m) \<Longrightarrow> (\<And>s a. grown env f s \<Longrightarrow> grown env f (fst (g s a))) \<Longrightarrow> grown env f (fst (and_then m g))"
  by (cases m) (auto simp: and_then_def split: sum.splits)

lemma failed_event_grown [inv_intros]: "grown env f st \<Longrightarrow> grown env f (fst (append_failed_event env who d status err ctx targets st))"
  unfolding append_failed_event_def by (rule emit_grown)

lemma meta_event_grown [inv_intros]: "grown env f st \<Longrightarrow> grown env f (fst (append_meta_event env etype who d a res st))"
  unfolding append_meta_event_def by (rule emit_grown)

lemma failed_result_grown [inv_intros]: "grown env f st \<Longrightarrow> grown env f (fst (failed_result env who d status err mr targets st))"
  unfolding failed_result_def by (intro inv_intros) simp_all

lemma success_grown [inv_intros]: "grown env f st \<Longrightarrow> grown env f (fst (write_activation_success env who d m targets st))"
  unfolding write_activation_success_def Let_def by (intro inv_intros) simp_all

lemma activate_skill_grown [inv_intros]: "grown env f st \<Longrightarrow> grown env f (fst (activate_skill env who d t m st))"
  unfolding activate_skill_def Let_def
  by (auto intro!: failed_result_grown success_grown simp: grown_skill_move split: prod.splits)

lemma activate_pack_grown [inv_intros]: "grown env f st \<Longrightarrow> grown env f (fst (activate_domain_pack env who d t m st))"
  unfolding activate_domain_pack_def Let_def
  by (auto intro!: failed_result_grown success_grown split: prod.splits option.splits)

lemma activate_grown [inv_intros]: "grown env f st \<Longrightarrow> grown env f (fst (activate env config d who approved st))"
  unfolding activate_def Let_def
  by (auto intro!: failed_result_grown activate_skill_grown activate_pack_grown and_then_grown meta_event_grown
      split: option.splits sum.splits prod.splits)

lemma dirty_grown [inv_intros]: "grown env f st \<Longrightarrow> grown env f (fst (record_dirty_rollback env who d a why st))"
  unfolding record_dirty_rollback_def Let_def by (intro inv_intros) simp_all

lemma rollback_grown [inv_intros]: "grown env f st \<Longrightarrow> grown env f (fst (rollback env d who st))"
  unfolding rollback_def Let_def
  by (auto intro!: and_then_grown meta_event_grown failed_event_grown dirty_grown simp: grown_undo
      split: option.splits prod.splits)

lemma teardown_grown [inv_intros]: "grown env f st \<Longrightarrow> grown env f (fst (record_teardown env d good why res who st))"
  unfolding record_teardown_def Let_def
  by (auto intro!: and_then_grown meta_event_grown split: sum.splits)

lemma force_clean_grown [inv_intros]: "grown env f st \<Longrightarrow> grown env f (fst (force_clean env d why who st))"
  unfolding force_clean_def Let_def
  by (auto intro!: and_then_grown meta_event_grown split: sum.splits)

lemma verify_module_grown [inv_intros]: "grown env f st \<Longrightarrow> grown env f (fst (verify_module env who d st))"
  unfolding verify_module_def Let_def by (auto intro!: and_then_grown emit_grown)

lemma stage_failed_grown [inv_intros]: "grown env f st \<Longrightarrow> grown env f (fst (stage_failed env name who mr d path err st))"
  unfolding stage_failed_def by (auto intro!: and_then_grown emit_grown)

lemma emit_text_grown: "grown env f st \<Longrightarrow> grown env f (fst (apsnd g (emit env etype who mr d res st)))"
  using emit_grown by (simp add: apsnd_def map_prod_def case_prod_beta)

lemma emit_text_pair: "apsnd g (emit env etype who mr d res st) = (s, r) \<Longrightarrow> grown env f st \<Longrightarrow> grown env f s"
  using emit_text_grown [of env f st g etype who mr d res] by simp

lemma stage_loaded_grown [inv_intros]: "grown env f st \<Longrightarrow> grown env f (fst (stage_loaded env name who m d t st))"
  unfolding stage_loaded_def Let_def
  by (auto intro!: and_then_grown emit_text_grown split: option.splits prod.splits sum.splits bool.splits)
    (erule emit_text_pair, simp)+

lemma stage_loaded_pair: "stage_loaded env name who m d t st = (s, r) \<Longrightarrow> grown env f st \<Longrightarrow> grown env f s"
  using stage_loaded_grown [of env f st name who m d t] by simp

lemma stage_grown [inv_intros]: "grown env f st \<Longrightarrow> grown env f (fst (stage env src who st))"
  unfolding stage_def
  by (auto intro!: stage_failed_grown elim: stage_loaded_pair split: sum.splits prod.splits)

section \<open>What an operation does to the records\<close>

lemma and_then_result: "fst (and_then m (\<lambda>s e. (s, Inr (h e)))) = fst m"
  by (cases m) (auto simp: and_then_def split: sum.splits)

lemma failed_event_fields [simp]:
  "ev_meta (fst (append_failed_event env who d status err ctx targets st)) = ev_meta st"
  "ev_skills (fst (append_failed_event env who d status err ctx targets st)) = ev_skills st"
  by (simp_all add: append_failed_event_def)

lemma meta_event_fields [simp]:
  "ev_meta (fst (append_meta_event env etype who d a res st)) = ev_meta st"
  "ev_skills (fst (append_meta_event env etype who d a res st)) = ev_skills st"
  by (simp_all add: append_meta_event_def)

lemma failed_result_fields [simp]:
  "ev_meta (fst (failed_result env who d status err mr targets st)) = ev_meta st"
  "ev_skills (fst (failed_result env who d status err mr targets st)) = ev_skills st"
  by (simp_all add: failed_result_def and_then_result)

lemma success_fields [simp]:
  "ev_meta (fst (write_activation_success env who d m targets st)) =
     dict_set d (new_activation env m targets (ledger_size (ev_ledger st))) (ev_meta st)"
  "ev_skills (fst (write_activation_success env who d m targets st)) = ev_skills st"
  by (simp_all add: write_activation_success_def Let_def and_then_result put_meta_def)

lemma state_fields [simp]:
  "ev_meta (put_skill n sk st) = ev_meta st" "ev_meta (remove_skill n st) = ev_meta st"
  "ev_meta (put_meta d a st) = dict_set d a (ev_meta st)" "ev_skills (put_meta d a st) = ev_skills st"
  by (simp_all add: put_skill_def remove_skill_def put_meta_def)

lemma skill_move_meta: "skill_move env name act why who st = (s, r) \<Longrightarrow> ev_meta s = ev_meta st"
  by (auto simp: skill_move_def Let_def split: prod.splits)

lemma undo_meta: "undo_activation env who a st = (s, failed) \<Longrightarrow> ev_meta s = ev_meta st"
  by (auto simp: undo_activation_def rollback_skill_def rollback_domain_pack_def skill_move_def Let_def
      split: prod.splits option.splits if_splits)

text \<open>An activation leaves the records alone or adds one, after every check has passed.\<close>

definition activation_checks :: "'p evo_env \<Rightarrow> json_obj option \<Rightarrow> string \<Rightarrow> string option \<Rightarrow> EvolutionManifest \<Rightarrow> 'p Evolution \<Rightarrow> bool" where
  "activation_checks env config d approved m st =
     ((approval_required config \<longrightarrow> approval_given approved) \<and> read_active_activation d st = None \<and>
      has_verified_event (vt_hash (en_tools env)) d (ev_ledger st) = Inr True \<and>
      rp_ok (Verifier.verify (en_tools env) (ev_staging st) d) \<and> \<not> has_active_state_branch d st \<and>
      (\<exists>t. Option.bind (dict_get (ev_staging st) d) sd_artifact = Some t \<and>
         read_package_manifest (vt_yaml (en_tools env)) t = Inr m) \<and>
      mf_module_type m \<in> {''skill'', ''domain_pack''})"

lemma activate_skill_meta:
  "ev_meta (fst (activate_skill env who d t m st)) = ev_meta st \<or>
   (\<exists>n. ev_meta (fst (activate_skill env who d t m st)) = dict_set d (new_activation env m [''skills/'' @ mf_module_id m] n) (ev_meta st))"
  by (auto simp: activate_skill_def Let_def skill_move_meta split: prod.splits)

lemma activate_pack_meta:
  "ev_meta (fst (activate_domain_pack env who d t m st)) = ev_meta st \<or>
   (\<exists>n. ev_meta (fst (activate_domain_pack env who d t m st)) = dict_set d (new_activation env m [''domain_packs/'' @ mf_module_id m] n) (ev_meta st))"
  by (auto simp: activate_domain_pack_def Let_def split: prod.splits option.splits)

lemma context_checked:
  assumes "load_activation_context env d st = Inr (Inr (t, m))"
  shows "has_verified_event (vt_hash (en_tools env)) d (ev_ledger st) = Inr True \<and>
    rp_ok (Verifier.verify (en_tools env) (ev_staging st) d) \<and>
    Option.bind (dict_get (ev_staging st) d) sd_artifact = Some t \<and> read_package_manifest (vt_yaml (en_tools env)) t = Inr m"
  using assms by (auto simp: load_activation_context_def or_raise_def Let_def split: option.splits sum.splits if_splits)

lemma activate_meta:
  "ev_meta (fst (activate env config d who approved st)) = ev_meta st \<or>
   (\<exists>m n targets. activation_checks env config d approved m st \<and>
      ev_meta (fst (activate env config d who approved st)) = dict_set d (new_activation env m targets n) (ev_meta st))"
proof (cases "approval_required config \<and> \<not> approval_given approved \<or> read_active_activation d st \<noteq> None")
  case True
  then show ?thesis by (auto simp: activate_def and_then_result)
next
  case False
  show ?thesis
  proof (cases "\<exists>t m. load_activation_context env d st = Inr (Inr (t, m)) \<and> mf_module_type m \<in> {''skill'', ''domain_pack''} \<and>
      \<not> has_active_state_branch d st")
    case True
    then obtain t m where c: "load_activation_context env d st = Inr (Inr (t, m))"
      "mf_module_type m \<in> {''skill'', ''domain_pack''}" "\<not> has_active_state_branch d st" by blast
    then have "activation_checks env config d approved m st"
      using False context_checked [OF c(1)] by (auto simp: activation_checks_def)
    moreover have "fst (activate env config d who approved st) =
        (if mf_module_type m = ''skill'' then fst (activate_skill env who d t m st) else fst (activate_domain_pack env who d t m st))"
      using False c by (auto simp: activate_def Let_def)
    ultimately show ?thesis using activate_skill_meta [of env who d t m st] activate_pack_meta [of env who d t m st] by auto
  next
    case no: False
    then have "ev_meta (fst (activate env config d who approved st)) = ev_meta st"
      using False by (auto simp: activate_def Let_def split: sum.splits prod.splits option.splits)
    then show ?thesis by simp
  qed
qed

text \<open>What a change of the record of one artifact keeps: the module it is about.\<close>

definition same_module :: "ActivationMeta \<Rightarrow> ActivationMeta \<Rightarrow> bool" where
  "same_module a b = (meta_ref a = meta_ref b \<and> am_activation_id a = am_activation_id b \<and>
     am_activated_at a = am_activated_at b \<and> am_target_paths a = am_target_paths b)"

definition record_moved :: "string \<Rightarrow> string \<Rightarrow> string set \<Rightarrow> 'p Evolution \<Rightarrow> 'p Evolution \<Rightarrow> bool" where
  "record_moved d from_status to_statuses st s = (ev_meta s = ev_meta st \<or>
     (\<exists>a b. dict_get (ev_meta st) d = Some a \<and> am_status a = from_status \<and> same_module a b \<and>
        am_status b \<in> to_statuses \<and> ev_meta s = dict_set d b (ev_meta st)))"

lemma and_then_moved:
  assumes "record_moved d f T st (fst m)" and "\<And>s a. m = (s, Inr a) \<Longrightarrow> record_moved d f T st (fst (g s a))"
  shows "record_moved d f T st (fst (and_then m g))"
  using assms by (cases m) (auto simp: and_then_def split: sum.splits)

lemma moved_same: "ev_meta s = ev_meta st \<Longrightarrow> record_moved d f T st s"
  by (simp add: record_moved_def)

lemma moved_put:
  "ev_meta s = dict_set d b (ev_meta st) \<Longrightarrow> dict_get (ev_meta st) d = Some a \<Longrightarrow> am_status a = f \<Longrightarrow> same_module a b \<Longrightarrow>
   am_status b \<in> T \<Longrightarrow> record_moved d f T st s"
  by (auto simp: record_moved_def)

lemma emitted_meta: "append_meta_event env etype who d a res st = (s, Inr e) \<Longrightarrow> ev_meta s = ev_meta st"
  using meta_event_fields(1) [of env etype who d a res st] by simp

lemma record_dirty_meta:
  "ev_meta (fst (record_dirty_rollback env who d a why st)) = dict_set d (a\<lparr>am_status := ''dirty_rollback'',
     am_dirty_at := en_now env (ledger_size (ev_ledger st)), am_dirty_reason := why, am_residual := am_target_paths a\<rparr>) (ev_meta st)"
  by (simp add: record_dirty_rollback_def Let_def and_then_result)

lemma rollback_active:
  assumes "dict_get (ev_meta st) d = Some a" and "am_status a = ''active''" and "undo_activation env who a s1 = (s2, failed)"
    and "append_meta_event env ''module_rollback_started'' who d a
      [(''status'', JStr ''rollback_started''), (''target_paths'', json_strings (am_target_paths a))] st = (s1, Inr e1)"
  shows "record_moved d ''active'' {''rolled_back'', ''dirty_rollback''} st (fst (rollback env d who st))"
proof -
  have m: "ev_meta s1 = ev_meta st" "ev_meta s2 = ev_meta st"
    using emitted_meta [OF assms(4)] undo_meta [OF assms(3)] by simp_all
  show ?thesis
  proof (cases "failed = []")
    case True
    let ?b = "a\<lparr>am_status := ''rolled_back'', am_rolled_back_at := en_now env (ledger_size (ev_ledger s2)), am_rollback_event := en_id env (ledger_size (ev_ledger s2))\<rparr>"
    have "ev_meta (fst (rollback env d who st)) = dict_set d ?b (ev_meta st)"
      using assms True m by (simp add: rollback_def Let_def and_then_def [of "(s1, Inr e1)"] and_then_result)
    then show ?thesis by (rule moved_put) (use assms in \<open>simp_all add: same_module_def meta_ref_def\<close>)
  next
    case False
    have r: "rollback env d who st = and_then (append_meta_event env ''module_rollback_failed'' who d a
        [(''status'', JStr ''rollback_failed''), (''error'', JStr failed), (''target_paths'', json_strings (am_target_paths a))] s2)
        (\<lambda>s3 e3. and_then (record_dirty_rollback env who d a failed s3)
          (\<lambda>s4 dirty. (s4, Inr (result_from_metadata d dirty False ''dirty_rollback'' failed))))"
      using assms False by (simp add: rollback_def Let_def and_then_def [of "(s1, Inr e1)"])
    show ?thesis unfolding r
    proof (rule and_then_moved)
      show "record_moved d ''active'' {''rolled_back'', ''dirty_rollback''} st (fst (append_meta_event env ''module_rollback_failed'' who d a
        [(''status'', JStr ''rollback_failed''), (''error'', JStr failed), (''target_paths'', json_strings (am_target_paths a))] s2))"
        by (rule moved_same) (simp add: m)
    next
      fix s3 e3
      assume e: "append_meta_event env ''module_rollback_failed'' who d a
        [(''status'', JStr ''rollback_failed''), (''error'', JStr failed), (''target_paths'', json_strings (am_target_paths a))] s2 = (s3, Inr e3)"
      then have "ev_meta s3 = ev_meta st" using emitted_meta [OF e] m by simp
      then show "record_moved d ''active'' {''rolled_back'', ''dirty_rollback''} st (fst (and_then (record_dirty_rollback env who d a failed s3)
          (\<lambda>s4 dirty. (s4, Inr (result_from_metadata d dirty False ''dirty_rollback'' failed)))))"
        unfolding and_then_result
        by (intro moved_put [OF _ assms(1,2), where b = "a\<lparr>am_status := ''dirty_rollback'',
            am_dirty_at := en_now env (ledger_size (ev_ledger s3)), am_dirty_reason := failed, am_residual := am_target_paths a\<rparr>"])
          (simp_all add: record_dirty_meta same_module_def meta_ref_def)
    qed
  qed
qed

lemma rollback_moved: "record_moved d ''active'' {''rolled_back'', ''dirty_rollback''} st (fst (rollback env d who st))"
proof (cases "\<exists>a. dict_get (ev_meta st) d = Some a \<and> am_status a = ''active''")
  case False
  then show ?thesis by (intro moved_same) (auto simp: rollback_def Let_def and_then_result split: option.splits)
next
  case True
  then obtain a where a: "dict_get (ev_meta st) d = Some a" "am_status a = ''active''" by blast
  obtain s1 r1 where 1: "append_meta_event env ''module_rollback_started'' who d a
      [(''status'', JStr ''rollback_started''), (''target_paths'', json_strings (am_target_paths a))] st = (s1, r1)" by (rule prod.exhaust)
  show ?thesis
  proof (cases r1)
    case (Inl e)
    have "ev_meta s1 = ev_meta st"
      using meta_event_fields(1) [of env "''module_rollback_started''" who d a] 1 by (metis fst_conv)
    then show ?thesis using a 1 Inl by (intro moved_same) (simp add: rollback_def Let_def and_then_def)
  next
    case (Inr e)
    obtain s2 failed where "undo_activation env who a s1 = (s2, failed)" by (rule prod.exhaust)
    with a 1 Inr show ?thesis by (intro rollback_active) auto
  qed
qed

lemma dirty_metadata_Inr: "dirty_metadata d st = Inr a \<Longrightarrow> dict_get (ev_meta st) d = Some a \<and> am_status a = ''dirty_rollback''"
  by (auto simp: dirty_metadata_def split: option.splits if_splits)

lemma torn_down_simps:
  "same_module a (torn_down good why res now a)" "am_status (torn_down good why res now a) = (if good then ''rolled_back'' else ''dirty_rollback'')"
  by (simp_all add: torn_down_def Let_def same_module_def meta_ref_def)

lemma teardown_moved:
  "record_moved d ''dirty_rollback'' (if good then {''rolled_back''} else {''dirty_rollback''}) st (fst (record_teardown env d good why res who st))"
proof (cases "dirty_metadata d st")
  case (Inl r)
  then show ?thesis by (intro moved_same) (simp add: record_teardown_def)
next
  case (Inr a)
  note a = dirty_metadata_Inr [OF Inr]
  show ?thesis
    unfolding record_teardown_def Inr sum.case Let_def
  proof (rule and_then_moved, goal_cases)
    case 1
    show ?case by (rule moved_same) simp
  next
    case (2 s e)
    note s = emitted_meta [OF 2]
    show ?case
    proof (rule and_then_moved, goal_cases)
      case 1
      show ?case by (rule moved_same) (simp add: s)
    next
      case (2 u e')
      show ?case
        by (rule moved_put [OF _ a [THEN conjunct1] a [THEN conjunct2] torn_down_simps(1)])
          (use emitted_meta [OF 2] s in \<open>auto simp: torn_down_simps\<close>)
    qed
  qed
qed

lemma force_clean_moved: "record_moved d ''dirty_rollback'' {''rolled_back''} st (fst (force_clean env d why who st))"
proof (cases "dirty_metadata d st")
  case (Inl r)
  then show ?thesis by (intro moved_same) (simp add: force_clean_def)
next
  case (Inr a)
  note a = dirty_metadata_Inr [OF Inr]
  let ?b = "\<lambda>s. a\<lparr>am_status := ''rolled_back'', am_rolled_back_at := str_or (am_rolled_back_at a) (en_now env (ledger_size (ev_ledger s))),
      am_force_cleaned_at := en_now env (ledger_size (ev_ledger s)), am_dirty_reason := en_safe env why, am_residual := []\<rparr>"
  show ?thesis
    unfolding force_clean_def Inr sum.case Let_def
  proof (rule and_then_moved, goal_cases)
    case 1
    show ?case by (rule moved_same) simp
  next
    case (2 s e)
    show ?case unfolding and_then_result
      by (rule moved_put [OF _ a [THEN conjunct1] a [THEN conjunct2], where b = "?b s"])
        (use emitted_meta [OF 2] in \<open>simp_all add: same_module_def meta_ref_def\<close>)
  qed
qed

lemma and_then_meta:
  "ev_meta (fst m) = M \<Longrightarrow> (\<And>s a. ev_meta s = M \<Longrightarrow> ev_meta (fst (g s a)) = M) \<Longrightarrow> ev_meta (fst (and_then m g)) = M"
  by (cases m) (auto simp: and_then_def split: sum.splits)

lemma verify_module_meta: "ev_meta (fst (verify_module env who d st)) = ev_meta st"
  unfolding verify_module_def Let_def by (intro and_then_meta) simp_all

lemma stage_failed_meta: "ev_meta (fst (stage_failed env name who mr d path err st)) = ev_meta st"
  unfolding stage_failed_def by (intro and_then_meta) simp_all

lemma emit_text_meta: "ev_meta (fst (apsnd g (emit env etype who mr d res st))) = ev_meta st"
  by (simp add: apsnd_def map_prod_def case_prod_beta)

lemma emit_text_meta_pair: "apsnd g (emit env etype who mr d res st) = (s, r) \<Longrightarrow> ev_meta st = M \<Longrightarrow> ev_meta s = M"
  using emit_text_meta [of g env etype who mr d res st] by simp

lemma stage_loaded_meta: "ev_meta (fst (stage_loaded env name who m d t st)) = ev_meta st"
  unfolding stage_loaded_def Let_def
  by (auto intro!: and_then_meta simp: emit_text_meta split: option.splits prod.splits sum.splits bool.splits)
    (erule emit_text_meta_pair, simp)+

lemma stage_meta: "ev_meta (fst (stage env src who st)) = ev_meta st"
proof (cases "load_package (en_tools env) src")
  case (Inl e)
  then show ?thesis by (simp add: stage_def stage_failed_meta)
next
  case (Inr x)
  obtain m d t where x: "x = (m, d, t)" by (rule prod_cases3)
  obtain s r where r: "stage_loaded env (src_name src) who m d t st = (s, r)" by (rule prod.exhaust)
  then have "ev_meta s = ev_meta st" using stage_loaded_meta [of env "src_name src" who m d t st] by simp
  with Inr x r show ?thesis by (cases r) (simp_all add: stage_def stage_failed_meta)
qed

section \<open>Runs\<close>

text \<open>
  The operations, and whatever else happens to the workspace: another part of the program appends any event
  (state branches, telemetry, vaults, the curator), and the skills, the packs, the branches and even the
  staged files may change behind the back of this code; only the ledger and the records may not be edited.
\<close>

inductive evo_step :: "'p evo_env \<Rightarrow> 'p Evolution \<Rightarrow> 'p Evolution \<Rightarrow> bool" for env where
  evo_stage: "evo_step env st (fst (stage env src who st))"
| evo_verify: "evo_step env st (fst (verify_module env who d st))"
| evo_activate: "evo_step env st (fst (activate env config d who approved st))"
| evo_rollback: "evo_step env st (fst (rollback env d who st))"
| evo_teardown: "evo_step env st (fst (record_teardown env d good why res who st))"
| evo_force_clean: "evo_step env st (fst (force_clean env d why who st))"
| evo_append: "evo_step env st (st\<lparr>ev_ledger := fst (ledger_append (vt_hash (en_tools env)) idn e (ev_ledger st))\<rparr>)"
| evo_outside: "ev_ledger s = ev_ledger st \<Longrightarrow> ev_meta s = ev_meta st \<Longrightarrow> evo_step env st s"

inductive_cases evo_step_elim: "evo_step env st s"

lemma step_grown: "evo_step env st s \<Longrightarrow> grown env f st \<Longrightarrow> grown env f s"
  by (induction rule: evo_step.induct)
    (erule stage_grown verify_module_grown activate_grown rollback_grown teardown_grown force_clean_grown append_grown
      | (rule iffD2 [OF grown_same], assumption, assumption))+

lemma moved_mono: "record_moved d f T st s \<Longrightarrow> T \<subseteq> T' \<Longrightarrow> record_moved d f T' st s"
  unfolding record_moved_def by blast

text \<open>The change of the records in one step.\<close>

lemma step_records:
  assumes "evo_step env st s"
  shows "ev_meta s = ev_meta st \<or>
    (\<exists>config d approved m targets n. activation_checks env config d approved m st \<and>
       ev_meta s = dict_set d (new_activation env m targets n) (ev_meta st)) \<or>
    (\<exists>d. record_moved d ''active'' {''rolled_back'', ''dirty_rollback''} st s) \<or>
    (\<exists>d. record_moved d ''dirty_rollback'' {''rolled_back'', ''dirty_rollback''} st s)"
  using assms
proof (cases rule: evo_step.cases)
  case (evo_activate config d who approved)
  with activate_meta [of env config d who approved st] show ?thesis by blast
next
  case (evo_teardown d good why res who)
  have "record_moved d ''dirty_rollback'' {''rolled_back'', ''dirty_rollback''} st s"
    unfolding evo_teardown by (rule moved_mono [OF teardown_moved]) simp
  then show ?thesis by blast
next
  case (evo_force_clean d why who)
  have "record_moved d ''dirty_rollback'' {''rolled_back'', ''dirty_rollback''} st s"
    unfolding evo_force_clean by (rule moved_mono [OF force_clean_moved]) simp
  then show ?thesis by blast
next
  case (evo_append idn e)
  then show ?thesis by simp
qed (use rollback_moved stage_meta verify_module_meta in \<open>blast+\<close>)

definition verified_on_record :: "string \<Rightarrow> 'p Evolution \<Rightarrow> bool" where
  "verified_on_record d st = on_record d (ev_ledger st)"

definition evo_start :: "'p evo_env \<Rightarrow> 'p Evolution \<Rightarrow> bool" where
  "evo_start env st = (proper_hash (vt_hash (en_tools env)) \<and> ledger_good env st \<and> ev_meta st = [])"

definition evo_inv :: "'p evo_env \<Rightarrow> 'p Evolution \<Rightarrow> bool" where
  "evo_inv env st = (proper_hash (vt_hash (en_tools env)) \<and> ledger_good env st \<and>
     (\<forall>d a. dict_get (ev_meta st) d = Some a \<longrightarrow> am_status a \<in> {''active'', ''rolled_back'', ''dirty_rollback''} \<and>
        am_module_type a \<in> {''skill'', ''domain_pack''} \<and> verified_on_record d st))"

lemma grown_verified: "grown env (ev_ledger st) s \<Longrightarrow> verified_on_record d st \<Longrightarrow> verified_on_record d s"
  by (auto simp: grown_def verified_on_record_def intro: on_record_extends)

lemma step_inv: "evo_inv env st \<Longrightarrow> evo_step env st s \<Longrightarrow> evo_inv env s"
proof -
  assume inv: "evo_inv env st" and step: "evo_step env st s"
  have "grown env (ev_ledger st) st" using inv by (simp add: evo_inv_def grown_def)
  from step_grown [OF step this] have g: "grown env (ev_ledger st) s" .
  have old: "am_status a \<in> {''active'', ''rolled_back'', ''dirty_rollback''} \<and> am_module_type a \<in> {''skill'', ''domain_pack''} \<and>
      verified_on_record d s" if "dict_get (ev_meta st) d = Some a" for d a
    using inv that grown_verified [OF g] by (auto simp: evo_inv_def)
  have new: "verified_on_record d s \<and> mf_module_type m \<in> {''skill'', ''domain_pack''}"
    if "activation_checks env config d approved m st" for config d approved m
    using that verified_event_good grown_verified [OF g, of d] by (auto simp: activation_checks_def verified_on_record_def)
  have moved: "am_status b \<in> {''active'', ''rolled_back'', ''dirty_rollback''} \<and> am_module_type b \<in> {''skill'', ''domain_pack''} \<and>
      verified_on_record d s"
    if "record_moved e f {''rolled_back'', ''dirty_rollback''} st s" "dict_get (ev_meta s) d = Some b" for e f d b
    using that old by (fastforce simp: record_moved_def dict_simps same_module_def meta_ref_def split: if_splits)
  have "am_status b \<in> {''active'', ''rolled_back'', ''dirty_rollback''} \<and> am_module_type b \<in> {''skill'', ''domain_pack''} \<and>
      verified_on_record d s" if b: "dict_get (ev_meta s) d = Some b" for d b
    using step_records [OF step]
  proof (elim disjE exE conjE)
    assume "ev_meta s = ev_meta st"
    with b old show ?thesis by simp
  next
    fix config e approved m targets n
    assume c: "activation_checks env config e approved m st" "ev_meta s = dict_set e (new_activation env m targets n) (ev_meta st)"
    show ?thesis
    proof (cases "d = e")
      case True
      with b c(2) have "b = new_activation env m targets n" by (simp add: dict_simps)
      with new [OF c(1)] True show ?thesis by (simp add: new_activation_def)
    next
      case False
      with b c(2) have "dict_get (ev_meta st) d = Some b" by (simp add: dict_simps)
      then show ?thesis by (rule old)
    qed
  qed (use moved b in blast)+
  with g show "evo_inv env s" by (simp add: evo_inv_def grown_def)
qed

interpretation evo_runs: safe_system "evo_start env" "evo_step env" "evo_inv env" for env :: "'p evo_env"
proof unfold_locales
  fix s :: "'p Evolution"
  assume "evo_start env s"
  then show "evo_inv env s" by (simp add: evo_start_def evo_inv_def)
next
  fix s t :: "'p Evolution"
  assume "evo_inv env s" and "evo_step env s t"
  then show "evo_inv env t" by (rule step_inv)
qed

end
