(* ===== verification/ModuleLife.thy ===== *)
theory ModuleLife
  imports Activation
begin

text \<open>
  What the life of a module amounts to, proved over the operations of \<open>Evolution\<close> and \<open>Activation\<close>: the ledger
  and the records of every run, the life cycle that the records follow, what an activation needs and what a
  rollback takes away. The last section carries the example module through activation and rollback.
\<close>

section \<open>Runs\<close>

text \<open>
  C31. On either back end, starting with a ledger that the code wrote and with no activation records, after
  any sequence of staging, verifying, activating, rolling back, tearing down and force-cleaning, with any
  events appended in between by other parts of the program: the ledger verifies and still begins with what
  it held; a record is active, rolled back or dirty, is about a skill or a domain pack, and the ledger names
  a verification of its artifact. Edits of the ledger or of the records from outside are not steps.
\<close>

theorem evolution_ledger_tells:
  assumes "evo_start env st" and "(evo_step env)\<^sup>*\<^sup>* st s"
  shows "is_ok (ledger_verify (vt_hash (en_tools env)) sig sig_row (ev_ledger s)) \<and> ledger_extends (ev_ledger st) (ev_ledger s) \<and>
    (\<forall>d a. dict_get (ev_meta s) d = Some a \<longrightarrow> am_status a \<in> {''active'', ''rolled_back'', ''dirty_rollback''} \<and>
       am_module_type a \<in> {''skill'', ''domain_pack''} \<and> verified_on_record d s)"
proof -
  have inv: "evo_inv env s" using evo_runs.reachable_inv [OF assms] .
  have "grown env (ev_ledger st) s"
    using assms(2)
  proof (induction rule: rtranclp_induct)
    case base
    then show ?case using assms(1) by (simp add: evo_start_def grown_def)
  next
    case (step y z)
    show ?case by (rule step_grown [OF step(2) step(3)])
  qed
  with inv show ?thesis by (simp add: evo_inv_def grown_def ledger_verifies)
qed



definition status_of :: "string \<Rightarrow> 'p Evolution \<Rightarrow> string option" where
  "status_of d st = map_option am_status (dict_get (ev_meta st) d)"



section \<open>Activation and rollback\<close>

lemma and_then_Inr: "and_then m f = (s, Inr r) \<Longrightarrow> \<exists>s1 a. m = (s1, Inr a) \<and> f s1 a = (s, Inr r)"
  by (cases m) (auto simp: and_then_def split: sum.splits)

lemma failed_result_status: "failed_result env who d status err mr targets st = (s, Inr r) \<Longrightarrow> ar_status r = status"
  unfolding failed_result_def by (drule and_then_Inr) auto

lemma context_refusal:
  "load_activation_context env d st = Inr (Inl (status, err, mr)) \<Longrightarrow>
   status \<in> {''missing_staging'', ''unverified'', ''verification_failed'', ''manifest_failed''}"
  by (auto simp: load_activation_context_def or_raise_def Let_def split: option.splits sum.splits if_splits)

lemma activate_skill_active:
  assumes "activate_skill env who d t m st = (s, Inr r)" and "ar_status r = ''active''"
  obtains s1 r1 s2 r2 where "is_safe_skill_name (mf_module_id m)" "dict_get (sks_files (ev_skills st)) (mf_module_id m) = None"
    "skill_move env (mf_module_id m) ''verify'' ''evolution activation'' who
       (put_skill (mf_module_id m) (en_read_skill env (file_text t ''SKILL.md'')) st) = (s1, r1)" "sr_ok r1"
    "skill_move env (mf_module_id m) ''activate'' ''evolution activation'' who s1 = (s2, r2)" "sr_ok r2"
    "write_activation_success env who d m [''skills/'' @ mf_module_id m] s2 = (s, Inr r)"
  using assms by (auto simp: activate_skill_def Let_def dest!: failed_result_status split: if_splits prod.splits)

lemma activate_pack_active:
  assumes "activate_domain_pack env who d t m st = (s, Inr r)" and "ar_status r = ''active''"
  obtains p1 p2 where "\<not> ps_exists (en_packs env) (mf_module_id m) (ev_packs st)"
    "ps_install (en_packs env) t (ev_packs st) = (p1, None)"
    "ps_set_active (en_packs env) (mf_module_id m) True p1 = (p2, None)"
    "write_activation_success env who d m [''domain_packs/'' @ mf_module_id m] (st\<lparr>ev_packs := p2\<rparr>) = (s, Inr r)"
  using assms by (auto simp: activate_domain_pack_def Let_def dest!: failed_result_status split: if_splits prod.splits option.splits)

lemma success_state:
  assumes "write_activation_success env who d m targets st = (s, x)"
  shows "dict_get (ev_meta s) d = Some (new_activation env m targets (ledger_size (ev_ledger st)))" "ev_skills s = ev_skills st"
    "ev_packs s = ev_packs st"
proof -
  have s: "s = fst (write_activation_success env who d m targets st)" using assms by simp
  show "dict_get (ev_meta s) d = Some (new_activation env m targets (ledger_size (ev_ledger st)))" "ev_skills s = ev_skills st"
    unfolding s by (simp_all add: dict_simps)
  show "ev_packs s = ev_packs st"
    unfolding s by (simp add: write_activation_success_def Let_def and_then_result put_meta_def append_meta_event_def)
qed

lemma activate_active:
  assumes "activate env config d who approved st = (s, Inr r)" and "ar_status r = ''active''"
  obtains t m where "activation_checks env config d approved m st"
    "Option.bind (dict_get (ev_staging st) d) sd_artifact = Some t"
    "(mf_module_type m = ''skill'' \<and> activate_skill env who d t m st = (s, Inr r)) \<or>
     (mf_module_type m = ''domain_pack'' \<and> activate_domain_pack env who d t m st = (s, Inr r))"
proof -
  have ok: "\<not> (approval_required config \<and> \<not> approval_given approved)"
    using assms by (auto simp: activate_def split: if_splits)
  have fresh: "read_active_activation d st = None"
    using assms ok by (auto simp: activate_def result_from_metadata_def dest!: and_then_Inr split: option.splits)
  have run: "(case load_activation_context env d st of
               Inl e \<Rightarrow> (st, Inl e)
             | Inr (Inl (status, err, mr)) \<Rightarrow> failed_result env who d status err mr [] st
             | Inr (Inr (t, m)) \<Rightarrow>
                 let unsupported = failed_result env who d ''unsupported''
                       (''activation is unsupported for module_type: '' @ mf_module_type m) (manifest_ref m) [] st
                 in if mf_module_type m = ''workflow'' \<or> mf_module_type m = ''tool'' then unsupported
                    else if has_active_state_branch d st
                    then failed_result env who d ''active_state_branch'' ''artifact has an active state branch'' (manifest_ref m) [] st
                    else if mf_module_type m = ''skill'' then activate_skill env who d t m st
                    else if mf_module_type m = ''domain_pack'' then activate_domain_pack env who d t m st
                    else unsupported) = (s, Inr r)"
    using assms(1) unfolding activate_def if_not_P [OF ok] fresh option.case .
  obtain t m where c: "load_activation_context env d st = Inr (Inr (t, m))"
    using run assms(2) by (auto dest!: failed_result_status dest: context_refusal split: sum.splits prod.splits)
  have k: "\<not> has_active_state_branch d st"
    "(mf_module_type m = ''skill'' \<and> activate_skill env who d t m st = (s, Inr r)) \<or>
     (mf_module_type m = ''domain_pack'' \<and> activate_domain_pack env who d t m st = (s, Inr r))"
    using run assms(2) by (auto simp: c Let_def dest!: failed_result_status split: if_splits)
  note x = context_checked [OF c]
  have "activation_checks env config d approved m st"
    using ok fresh x k by (auto simp: activation_checks_def)
  with x k show thesis by (intro that [of m t]) auto
qed

lemma skill_move_activated:
  assumes "skill_move env n ''activate'' why who st = (s, r)" and "sr_ok r" and "is_safe_skill_name n"
  obtains c where "current_state n (ev_skills s) = Some c" "ss_lifecycle c = ''active''" "ss_verification c = ''verified''"
proof -
  obtain sk where t: "transition (en_clean env) (en_skill_id env (length (sks_events (ev_skills st)))) (en_skill_now env (length (sks_events (ev_skills st))))
      n ''activate'' why who False (ev_skills st) = (sk, r)" "s = st\<lparr>ev_skills := sk\<rparr>"
    using assms(1) by (auto simp: skill_move_def Let_def split: prod.splits)
  from activate_reaches [OF t(1) assms(2)] obtain c where "current_state (py_strip n) sk = Some c"
    "ss_lifecycle c = ''active''" "ss_verification c = ''verified''" .
  then show thesis using t(2) safe_strip [OF assms(3)] by (intro that [of c]) simp_all
qed

lemma skill_move_deprecated:
  assumes "skill_move env n ''deprecate'' why who st = (s, r)" and "sr_ok r"
  obtains c where "current_state (py_strip n) (ev_skills s) = Some c" "ss_lifecycle c = ''deprecated''" "\<not> ss_effective c"
proof -
  obtain sk where t: "transition (en_clean env) (en_skill_id env (length (sks_events (ev_skills st)))) (en_skill_now env (length (sks_events (ev_skills st))))
      n ''deprecate'' why who False (ev_skills st) = (sk, r)" "s = st\<lparr>ev_skills := sk\<rparr>"
    using assms(1) by (auto simp: skill_move_def Let_def split: prod.splits)
  from deprecate_reaches [OF t(1) assms(2)] obtain c where "current_state (py_strip n) sk = Some c"
    "ss_lifecycle c = ''deprecated''" "\<not> ss_effective c" .
  then show thesis using t(2) by (intro that [of c]) simp_all
qed

text \<open>
  C3. Nothing is activated unseen: of an activation that reports active it holds that a non-blank approver was
  handed in if the configuration asks for one (it does unless its setting is false or empty), that the ledger names
  a verification of the artifact, and that the artifact verifies again now; it had no active record and no
  open state branch; afterwards its record is active, and a skill, whose name was free, is active and
  verified in the skill store, or a domain pack that did not exist is installed and switched on.
\<close>

theorem activation_is_gated:
  assumes "activate env config d who approved st = (s, Inr r)" and "ar_status r = ''active''"
  shows "\<exists>m. activation_checks env config d approved m st \<and>
    (\<exists>a. read_active_activation d s = Some a \<and> meta_ref a = manifest_ref m) \<and>
    (if mf_module_type m = ''skill''
     then dict_get (sks_files (ev_skills st)) (mf_module_id m) = None \<and>
       (\<exists>c. current_state (mf_module_id m) (ev_skills s) = Some c \<and> ss_lifecycle c = ''active'' \<and> ss_verification c = ''verified'')
     else \<not> ps_exists (en_packs env) (mf_module_id m) (ev_packs st) \<and>
       (\<exists>t p. ps_install (en_packs env) t (ev_packs st) = (p, None) \<and>
          ps_set_active (en_packs env) (mf_module_id m) True p = (ev_packs s, None)))"
proof -
  obtain t m where m: "activation_checks env config d approved m st" and kind:
    "(mf_module_type m = ''skill'' \<and> activate_skill env who d t m st = (s, Inr r)) \<or>
     (mf_module_type m = ''domain_pack'' \<and> activate_domain_pack env who d t m st = (s, Inr r))"
    by (rule activate_active [OF assms])
  have act: "read_active_activation d s = Some (new_activation env m targets n) \<and> meta_ref (new_activation env m targets n) = manifest_ref m"
    if "dict_get (ev_meta s) d = Some (new_activation env m targets n)" for targets n
    using that by (simp add: read_active_activation_def new_activation_def meta_ref_def manifest_ref_def)
  from kind show ?thesis
  proof (elim disjE conjE)
    assume k: "mf_module_type m = ''skill''" and a: "activate_skill env who d t m st = (s, Inr r)"
    obtain s1 r1 s2 r2 where run: "is_safe_skill_name (mf_module_id m)" "dict_get (sks_files (ev_skills st)) (mf_module_id m) = None"
      "skill_move env (mf_module_id m) ''activate'' ''evolution activation'' who s1 = (s2, r2)" "sr_ok r2"
      "write_activation_success env who d m [''skills/'' @ mf_module_id m] s2 = (s, Inr r)"
      by (rule activate_skill_active [OF a assms(2)])
    obtain c where "current_state (mf_module_id m) (ev_skills s2) = Some c" "ss_lifecycle c = ''active''" "ss_verification c = ''verified''"
      by (rule skill_move_activated [OF run(3,4,1)])
    with k m run(2) success_state [OF run(5)] act show ?thesis by auto
  next
    assume k: "mf_module_type m = ''domain_pack''" and a: "activate_domain_pack env who d t m st = (s, Inr r)"
    obtain p1 p2 where run: "\<not> ps_exists (en_packs env) (mf_module_id m) (ev_packs st)"
      "ps_install (en_packs env) t (ev_packs st) = (p1, None)"
      "ps_set_active (en_packs env) (mf_module_id m) True p1 = (p2, None)"
      "write_activation_success env who d m [''domain_packs/'' @ mf_module_id m] (st\<lparr>ev_packs := p2\<rparr>) = (s, Inr r)"
      by (rule activate_pack_active [OF a assms(2)])
    note filed = success_state [OF run(4)]
    have p: "ev_packs s = p2" using filed(3) by simp
    show ?thesis
      by (rule exI [of _ m]) (use k m run(1-3) p act [OF filed(1)] in auto)
  qed
qed



lemma emitted_pair: "append_meta_event env etype who d a res st = (s, Inr e) \<Longrightarrow>
    ev_meta s = ev_meta st \<and> ev_skills s = ev_skills st \<and> ev_packs s = ev_packs st"
proof -
  assume e: "append_meta_event env etype who d a res st = (s, Inr e)"
  then have s: "s = fst (append_meta_event env etype who d a res st)" by simp
  show ?thesis unfolding s by (simp add: append_meta_event_def)
qed

lemma emit_pair: "emit env etype who mr d res st = (s, x) \<Longrightarrow> ev_meta s = ev_meta st"
  using emit_fields(2) [of env etype who mr d res st] by simp

text \<open>What is left of the module when a rollback has been carried through.\<close>

definition withdrawn :: "'p evo_env \<Rightarrow> ActivationMeta \<Rightarrow> 'p Evolution \<Rightarrow> 'p Evolution \<Rightarrow> bool" where
  "withdrawn env a st s =
     (if am_module_type a = ''skill''
      then \<exists>c. current_state (py_strip (am_module_id a)) (ev_skills s) = Some c \<and> ss_lifecycle c = ''deprecated'' \<and> \<not> ss_effective c
      else am_module_type a = ''domain_pack'' \<and>
        (\<exists>p. ps_set_active (en_packs env) (am_module_id a) False (ev_packs st) = (p, None) \<and>
           ps_uninstall (en_packs env) (am_module_id a) p = (ev_packs s, None)))"

lemma str_or_nil: "str_or a b = [] \<longleftrightarrow> a = [] \<and> b = []"
  by (simp add: str_or_def)

lemma refused_named: "target_state cur act enabled = Refused err msg \<Longrightarrow> err \<noteq> []"
  by (auto simp: target_state_def Let_def terminal_refusal_def split: if_splits)

lemma transition_named: "transition clean eid now n act why who enabled s = (s', r) \<Longrightarrow> \<not> sr_ok r \<Longrightarrow> sr_error r \<noteq> []"
  by (auto simp: transition_def Let_def skill_failure_def dest: refused_named split: if_splits option.splits skill_target.splits)

text \<open>A refusal of the governance says why.\<close>

definition packs_say_why :: "'p pack_service \<Rightarrow> bool" where
  "packs_say_why ps = (\<forall>i p. snd (ps_set_active ps i False p) \<noteq> Some [] \<and> snd (ps_uninstall ps i p) \<noteq> Some [])"

lemma undo_withdraws:
  assumes "undo_activation env who a st = (s, [])" and "packs_say_why (en_packs env)"
  shows "withdrawn env a st s"
proof (cases "am_module_type a = ''skill''")
  case True
  obtain r where r: "skill_move env (am_module_id a) ''deprecate'' ''evolution rollback'' who st = (s, r)" "sr_ok r \<or> str_or (sr_error r) (sr_message r) = []"
    using assms True by (auto simp: undo_activation_def rollback_skill_def split: prod.splits if_splits)
  have "sr_ok r"
  proof (rule ccontr)
    assume "\<not> sr_ok r"
    moreover from this r(1) have "sr_error r \<noteq> []"
      by (auto simp: skill_move_def Let_def dest: transition_named split: prod.splits)
    ultimately show False using r(2) by (simp add: str_or_nil)
  qed
  from skill_move_deprecated [OF r(1) this] True show ?thesis by (auto simp: withdrawn_def)
next
  case False
  then have p: "rollback_domain_pack env a st = (s, [])" and k: "am_module_type a = ''domain_pack''"
    using assms(1) by (auto simp: undo_activation_def split: if_splits)
  have e: "\<And>i q. ps_set_active (en_packs env) i False q = (p', Some e) \<Longrightarrow> e \<noteq> []" "\<And>i q. ps_uninstall (en_packs env) i q = (p', Some e) \<Longrightarrow> e \<noteq> []"
    for p' e using assms(2) by (auto simp: packs_say_why_def) (metis snd_conv)+
  show ?thesis using p k e
    by (auto simp: withdrawn_def rollback_domain_pack_def split: prod.splits option.splits)
qed

text \<open>What a rollback can answer, and what it leaves of the record.\<close>

lemma rollback_answer:
  assumes "rollback env d who st = (s, Inr r)"
  shows "status_of d s \<noteq> Some ''active'' \<and> (ar_ok r \<longleftrightarrow> status_of d s = Some ''rolled_back'') \<and>
    (ar_status r = ''rolled_back'' \<longrightarrow> (\<exists>a s1 s2. dict_get (ev_meta st) d = Some a \<and> am_status a = ''active'' \<and>
       ev_skills s1 = ev_skills st \<and> ev_packs s1 = ev_packs st \<and> undo_activation env who a s1 = (s2, []) \<and>
       ev_skills s = ev_skills s2 \<and> ev_packs s = ev_packs s2))"
proof (cases "\<exists>a. dict_get (ev_meta st) d = Some a \<and> am_status a = ''active''")
  case False
  then show ?thesis
    using assms by (auto simp: rollback_def Let_def status_of_def result_from_metadata_def append_failed_event_def append_meta_event_def
        dest!: and_then_Inr emit_pair split: option.splits if_splits)
next
  case True
  then obtain a where a: "dict_get (ev_meta st) d = Some a" "am_status a = ''active''" by blast
  let ?t = "(''target_paths'', json_strings (am_target_paths a))"
  obtain s1 e1 s2 failed where 1: "append_meta_event env ''module_rollback_started'' who d a [(''status'', JStr ''rollback_started''), ?t] st = (s1, Inr e1)"
    and 2: "undo_activation env who a s1 = (s2, failed)"
    and 3: "(if failed \<noteq> []
                then
                  and_then (append_meta_event env ''module_rollback_failed'' who d a
                      [(''status'', JStr ''rollback_failed''), (''error'', JStr failed), ?t] s2) (\<lambda>s3 e3.
                  and_then (record_dirty_rollback env who d a failed s3) (\<lambda>s4 dirty.
                  (s4, Inr (result_from_metadata d dirty False ''dirty_rollback'' failed))))
                else
                  let n = ledger_size (ev_ledger s2);
                      done_meta = a\<lparr>am_status := ''rolled_back'', am_rolled_back_at := en_now env n, am_rollback_event := en_id env n\<rparr>
                  in and_then (append_meta_event env ''module_rollback_succeeded'' who d a
                         [(''status'', JStr ''rolled_back''), ?t] (put_meta d done_meta s2))
                       (\<lambda>s3 e3. (s3, Inr (result_from_metadata d done_meta True ''rolled_back'' [])))) = (s, Inr r)"
    using assms a by (auto simp: rollback_def Let_def dest!: and_then_Inr split: prod.splits)
  note f1 = emitted_pair [OF 1]
  show ?thesis
  proof (cases "failed = []")
    case True
    with 3 obtain e3 b where e: "append_meta_event env ''module_rollback_succeeded'' who d a [(''status'', JStr ''rolled_back''), ?t] (put_meta d b s2) = (s, Inr e3)"
      "am_status b = ''rolled_back''" "ar_ok r" "ar_status r = ''rolled_back''"
      by (auto simp: Let_def result_from_metadata_def dest!: and_then_Inr)
    with emitted_pair [OF e(1)] have "status_of d s = Some ''rolled_back''" "ev_skills s = ev_skills s2" "ev_packs s = ev_packs s2"
      by (simp_all add: status_of_def dict_simps put_meta_def)
    moreover have "\<exists>a s1 s2. dict_get (ev_meta st) d = Some a \<and> am_status a = ''active'' \<and>
       ev_skills s1 = ev_skills st \<and> ev_packs s1 = ev_packs st \<and> undo_activation env who a s1 = (s2, []) \<and>
       ev_skills s = ev_skills s2 \<and> ev_packs s = ev_packs s2"
      by (rule exI [of _ a], rule exI [of _ s1], rule exI [of _ s2]) (use calculation f1 a 2 True in simp)
    ultimately show ?thesis using e by simp
  next
    case False
    with 3 have s: "fst (record_dirty_rollback env who d a failed s3) = s" "ar_status r = ''dirty_rollback''" "\<not> ar_ok r"
      if "append_meta_event env ''module_rollback_failed'' who d a [(''status'', JStr ''rollback_failed''), (''error'', JStr failed), ?t] s2 = (s3, Inr e3)"
      for s3 e3 using that by (auto simp: result_from_metadata_def and_then_def [of "(s3, Inr e3)"] dest!: and_then_Inr)
    obtain s3 e3 where e: "append_meta_event env ''module_rollback_failed'' who d a [(''status'', JStr ''rollback_failed''), (''error'', JStr failed), ?t] s2 = (s3, Inr e3)"
      using 3 False by (auto dest!: and_then_Inr)
    have "status_of d s = Some ''dirty_rollback''"
      using record_dirty_meta [of env who d a failed s3] s(1) [OF e] by (simp add: status_of_def dict_simps)
    with s [OF e] show ?thesis by simp
  qed
qed

lemma rollback_again:
  assumes "rollback env d who st = (s, Inr r)" and "ar_ok r" and "ar_status r \<noteq> ''rolled_back''"
  shows "ar_status r = ''already_rolled_back'' \<and> status_of d st = Some ''rolled_back'' \<and> ev_meta s = ev_meta st \<and>
    ev_skills s = ev_skills st \<and> ev_packs s = ev_packs st"
proof (cases "\<exists>a. dict_get (ev_meta st) d = Some a \<and> am_status a = ''rolled_back''")
  case True
  then obtain a where a: "dict_get (ev_meta st) d = Some a" "am_status a = ''rolled_back''" by blast
  with assms(1) obtain res e where e: "append_meta_event env ''module_rollback_succeeded'' who d a res st = (s, Inr e)"
    and r: "ar_status r = ''already_rolled_back''"
    by (auto simp: rollback_def Let_def result_from_metadata_def dest!: and_then_Inr)
  from emitted_pair [OF e] a r show ?thesis by (simp add: status_of_def)
next
  case False
  with assms show ?thesis
    by (auto simp: rollback_def Let_def result_from_metadata_def dest!: and_then_Inr split: option.splits if_splits prod.splits)
qed

text \<open>
  C7. A rollback takes the powers away, provided that the governance of domain packs gives a reason with every
  refusal: whenever it answers, the artifact has no active record and the gate refuses it as not active.
  It answers ok exactly when the record now says rolled back, and then it either rolled the active module
  back (the skill is deprecated and never loaded always, or the pack was switched off and uninstalled without
  an error), or the record said rolled back before and records, skills and packs are as they were.
\<close>

theorem rollback_withdraws_powers:
  assumes "rollback env d who st = (s, Inr r)" and "packs_say_why (en_packs env)"
  shows "read_active_activation d s = None \<and>
    snapshot_for_artifact env d base s = Inr (gate_refusal d no_module ''not_active'' ''artifact is not active'') \<and>
    (ar_ok r \<longleftrightarrow> status_of d s = Some ''rolled_back'') \<and>
    (ar_ok r \<longrightarrow>
       ar_status r = ''rolled_back'' \<and> (\<exists>a. dict_get (ev_meta st) d = Some a \<and> am_status a = ''active'' \<and> withdrawn env a st s) \<or>
       ar_status r = ''already_rolled_back'' \<and> status_of d st = Some ''rolled_back'' \<and> ev_meta s = ev_meta st \<and>
         ev_skills s = ev_skills st \<and> ev_packs s = ev_packs st)"
proof -
  note ans = rollback_answer [OF assms(1)]
  have none: "read_active_activation d s = None"
    using ans by (auto simp: read_active_activation_def status_of_def split: option.splits)
  have "\<exists>a. dict_get (ev_meta st) d = Some a \<and> am_status a = ''active'' \<and> withdrawn env a st s" if "ar_status r = ''rolled_back''"
  proof -
    from ans that obtain a s1 s2 where a: "dict_get (ev_meta st) d = Some a" "am_status a = ''active''"
      "ev_skills s1 = ev_skills st" "ev_packs s1 = ev_packs st" "undo_activation env who a s1 = (s2, [])"
      "ev_skills s = ev_skills s2" "ev_packs s = ev_packs s2" by blast
    from undo_withdraws [OF a(5) assms(2)] a show ?thesis by (auto simp: withdrawn_def)
  qed
  with none ans rollback_again [OF assms(1)] show ?thesis by (auto simp: snapshot_for_artifact_def)
qed

text \<open>
  The setting that waives the approval is looked up at the top level of the dumped configuration. The loader that
  also serves the governance of domain packs gives the root configuration, which keeps the setting further down.
\<close>

lemma nested_setting_ignored:
  "d \<noteq> [] \<Longrightarrow> dict_get d ''require_manual_approval'' = None \<Longrightarrow> approval_required (Some d)"
  by (simp add: approval_required_def)

section \<open>The example, activated and rolled back\<close>

definition example_moved :: "string \<Rightarrow> string \<Rightarrow> SkillStore \<Rightarrow> SkillStore \<times> SkillResult" where
  "example_moved act why sk = transition (\<lambda>s n. take n s) ''s'' ''t'' ''greet'' act why ''user'' False sk"

definition example_sk1 :: SkillStore where
  "example_sk1 = fst (example_moved ''verify'' ''evolution activation'' \<lparr>sks_files = [(''greet'', example_skill)], sks_events = []\<rparr>)"

definition example_sk2 :: SkillStore where
  "example_sk2 = fst (example_moved ''activate'' ''evolution activation'' example_sk1)"

lemma example_verifies: "sr_ok (snd (example_moved ''verify'' ''evolution activation'' \<lparr>sks_files = [(''greet'', example_skill)], sks_events = []\<rparr>))"
  by code_simp

lemma example_activates: "sr_ok (snd (example_moved ''activate'' ''evolution activation'' example_sk1))"
  by code_simp

lemma moved_matches: "file_matches sk \<Longrightarrow> file_matches (fst (example_moved act why sk))"
  unfolding example_moved_def by (rule transition_table [OF _ prod.collapse [symmetric], THEN conjunct1])

lemma example_deprecates: "sr_ok (snd (example_moved ''deprecate'' ''evolution rollback'' example_sk2))"
proof -
  have s: "py_strip ''greet'' = ''greet''" "py_lower (py_strip ''deprecate'') = ''deprecate''" "is_safe_skill_name ''greet''"
    by code_simp+
  have "file_matches \<lparr>sks_files = [(''greet'', example_skill)], sks_events = []\<rparr>" by (rule no_events_match) simp
  then have "file_matches example_sk1" unfolding example_sk1_def by (rule moved_matches)
  then have m: "file_matches example_sk2" unfolding example_sk2_def by (rule moved_matches)
  let ?run = "transition (\<lambda>s n. take n s) ''s'' ''t'' ''greet'' ''activate'' ''evolution activation'' ''user'' False example_sk1"
  have r: "?run = (example_sk2, snd ?run)" "sr_ok (snd ?run)"
    using example_activates by (simp_all add: example_sk2_def example_moved_def)
  obtain c where c: "current_state (py_strip ''greet'') example_sk2 = Some c" "ss_lifecycle c = ''active''"
    by (rule activate_reaches [OF r])
  have "next_state c ''deprecate'' False \<noteq> None"
    using c(2) by (simp add: next_state_def target_state_def terminal_refusal_def split: skill_target.splits)
  with transition_table [OF m prod.collapse [symmetric], of "\<lambda>s n. take n s" "''s''" "''t''" "''greet''" "''deprecate''" "''evolution rollback''" "''user''" False] s c
  show ?thesis by (simp add: example_moved_def)
qed

lemma example_env_parts:
  "en_clean example_env = (\<lambda>s n. take n s)" "en_skill_id example_env = (\<lambda>n. ''s'')" "en_skill_now example_env = (\<lambda>n. ''t'')"
  "en_read_skill example_env c = example_skill" "vt_hash (en_tools example_env) = toy_hash"
  by (simp_all add: example_env_def)

lemma example_skill_move:
  "skill_move example_env ''greet'' act why ''user'' st = (case example_moved act why (ev_skills st) of (sk, r) \<Rightarrow> (st\<lparr>ev_skills := sk\<rparr>, r))"
  by (simp add: skill_move_def example_moved_def example_env_parts)

lemma example_writes:
  assumes "ledger_ready example_env st" and "finite_json (JObj res)" and "etype \<in> set EVENT_TYPES"
  obtains l e where "append_meta_event example_env etype ''user'' d a res st = (st\<lparr>ev_ledger := l\<rparr>, Inr e)"
    "ledger_ready example_env (st\<lparr>ev_ledger := l\<rparr>)"
proof -
  have "event_ok example_env etype res" by (rule env_event [OF example_ok assms(3,2)])
  from emit_adds [OF this assms(1)] obtain l e where
    "emit example_env etype ''user'' (meta_ref a) d res st = (st\<lparr>ev_ledger := l\<rparr>, Inr e)"
    "ledger_ready example_env (st\<lparr>ev_ledger := l\<rparr>)" by metis
  then show thesis by (intro that) (simp_all add: append_meta_event_def)
qed

definition example_activated :: "unit Evolution \<times> (ledger_error + EvolutionActivationResult)" where
  "example_activated = activate example_env None example_digest ''user'' (Some ''alice'') example_verified"

lemma finite_status: "finite_json (JObj [(''status'', JStr a), (''target_paths'', json_strings xs)])"
  "finite_json (JObj [(''status'', JStr a), (''staging_path'', JStr p), (''target_paths'', json_strings xs)])"
  using finite_strings [of xs] by simp_all

lemma example_success:
  assumes "ledger_ready example_env st"
  obtains s r where "write_activation_success example_env ''user'' example_digest example_validated targets st = (s, Inr r)"
    "ar_status r = ''active''" "ledger_ready example_env s"
proof -
  let ?a = "new_activation example_env example_validated targets (ledger_size (ev_ledger st))"
  have "ledger_ready example_env (put_meta example_digest ?a st)" using assms by (simp add: put_meta_def)
  from example_writes [OF this finite_status(2), of "''module_activated''" example_digest ?a "''active''" "staging_path_of example_digest" targets]
  obtain l e where "append_meta_event example_env ''module_activated'' ''user'' example_digest ?a
      [(''status'', JStr ''active''), (''staging_path'', JStr (staging_path_of example_digest)), (''target_paths'', json_strings targets)]
      (put_meta example_digest ?a st) = ((put_meta example_digest ?a st)\<lparr>ev_ledger := l\<rparr>, Inr e)"
    "ledger_ready example_env ((put_meta example_digest ?a st)\<lparr>ev_ledger := l\<rparr>)" using event_names by auto
  then show thesis
    by (intro that [of "(put_meta example_digest ?a st)\<lparr>ev_ledger := l\<rparr>" "result_from_metadata example_digest ?a True ''active'' []"])
      (simp_all add: write_activation_success_def Let_def and_then_def result_from_metadata_def)
qed

lemma example_artifact:
  "Option.bind (dict_get (ev_staging example_verified) example_digest) sd_artifact = Some (copy_entries example_tree)"
  "read_package_manifest (vt_yaml (en_tools example_env)) (copy_entries example_tree) = Inr example_validated"
proof -
  have "copy_artifact example_tree = Some (copy_entries example_tree)" by code_simp
  then show "Option.bind (dict_get (ev_staging example_verified) example_digest) sd_artifact = Some (copy_entries example_tree)"
    using example_run by (simp add: staged_dir_def)
qed code_simp

lemma example_context:
  "load_activation_context example_env example_digest example_verified = Inr (Inr (copy_entries example_tree, example_validated))"
  using example_run example_artifact by (simp add: load_activation_context_def or_raise_def Let_def example_env_parts)

lemma example_skill_files: "is_safe_skill_name ''greet''" "is_file (copy_entries example_tree) ''SKILL.md''"
  by code_simp+

lemma example_activation:
  obtains s r where "example_activated = (s, Inr r)" "ar_status r = ''active''" "ledger_ready example_env s" "ev_skills s = example_sk2"
    "\<exists>a. dict_get (ev_meta s) example_digest = Some a \<and> am_status a = ''active'' \<and> am_module_type a = ''skill'' \<and> am_module_id a = ''greet''"
proof -
  let ?v = "example_verified\<lparr>ev_skills := \<lparr>sks_files = [(''greet'', example_skill)], sks_events = []\<rparr>\<rparr>"
  have sk: "ev_skills example_verified = \<lparr>sks_files = [], sks_events = []\<rparr>" using example_run by simp
  have v: "put_skill ''greet'' example_skill example_verified = ?v" using sk by (simp add: put_skill_def)
  obtain r1 where r1: "example_moved ''verify'' ''evolution activation'' \<lparr>sks_files = [(''greet'', example_skill)], sks_events = []\<rparr> = (example_sk1, r1)" "sr_ok r1"
    using example_verifies by (metis example_sk1_def prod.collapse)
  obtain r2 where r2: "example_moved ''activate'' ''evolution activation'' example_sk1 = (example_sk2, r2)" "sr_ok r2"
    using example_activates by (metis example_sk2_def prod.collapse)
  have "ledger_ready example_env (?v\<lparr>ev_skills := example_sk2\<rparr>)" using example_run by simp
  then obtain s r where s: "write_activation_success example_env ''user'' example_digest example_validated [''skills/greet'']
      (?v\<lparr>ev_skills := example_sk2\<rparr>) = (s, Inr r)" "ar_status r = ''active''" "ledger_ready example_env s"
    by (rule example_success)
  have n: "mf_module_id example_validated = ''greet''" "mf_module_type example_validated = ''skill''"
    by (simp_all add: example_validated_def)
  have "activate_skill example_env ''user'' example_digest (copy_entries example_tree) example_validated example_verified = (s, Inr r)"
    using s(1) by (simp add: activate_skill_def Let_def n example_skill_files sk example_env_parts v example_skill_move r1 r2)
  then have "example_activated = (s, Inr r)"
    using example_run by (simp add: example_activated_def activate_def approval_given_def py_strip_def py_space_def read_active_activation_def
        example_context n has_active_state_branch_def Let_def)
  moreover have "ev_skills s = example_sk2" using success_state(2) [OF s(1)] by simp
  moreover have "\<exists>a. dict_get (ev_meta s) example_digest = Some a \<and> am_status a = ''active'' \<and> am_module_type a = ''skill'' \<and> am_module_id a = ''greet''"
    using success_state(1) [OF s(1)] n by (simp add: new_activation_def)
  ultimately show thesis using s by (intro that)
qed

theorem activation_is_gated_witness:
  "\<exists>c. current_state ''greet'' (ev_skills (fst example_activated)) = Some c \<and> ss_lifecycle c = ''active''"
proof -
  obtain s r where s: "example_activated = (s, Inr r)" "ar_status r = ''active''" by (rule example_activation)
  obtain m where m: "activation_checks example_env None example_digest (Some ''alice'') m example_verified"
    "if mf_module_type m = ''skill''
     then dict_get (sks_files (ev_skills example_verified)) (mf_module_id m) = None \<and>
       (\<exists>c. current_state (mf_module_id m) (ev_skills s) = Some c \<and> ss_lifecycle c = ''active'' \<and> ss_verification c = ''verified'')
     else \<not> ps_exists (en_packs example_env) (mf_module_id m) (ev_packs example_verified) \<and>
       (\<exists>t p. ps_install (en_packs example_env) t (ev_packs example_verified) = (p, None) \<and>
          ps_set_active (en_packs example_env) (mf_module_id m) True p = (ev_packs s, None))"
    using activation_is_gated [OF s(1) [unfolded example_activated_def] s(2)] by blast
  have "m = example_validated" using m(1) example_artifact by (auto simp: activation_checks_def)
  moreover have "fst example_activated = s" unfolding s(1) by (rule fst_conv)
  ultimately show ?thesis using m(2) by (auto simp: example_validated_def)
qed


lemma example_starts: "evo_start example_env example_start"
  using example_ok example_fresh_ledger by (simp add: evo_start_def env_ok_def ledger_ready_def) (simp add: example_start_def)

theorem evolution_ledger_tells_witness:
  "is_ok (ledger_verify toy_hash None None (ev_ledger (fst example_activated)))"
proof -
  let ?s1 = "fst (stage example_env example_source ''user'' example_start)"
  have "evo_step example_env example_start ?s1" by (rule evo_stage)
  moreover have "evo_step example_env ?s1 example_verified" unfolding example_verified_def by (rule evo_verify)
  moreover have "evo_step example_env example_verified (fst example_activated)" unfolding example_activated_def by (rule evo_activate)
  ultimately have "(evo_step example_env)\<^sup>*\<^sup>* example_start (fst example_activated)" by (rule three_steps)
  from evolution_ledger_tells [OF example_starts this] show ?thesis by (simp add: example_env_parts)
qed

lemma succeeded_name: "''module_rollback_succeeded'' \<in> set EVENT_TYPES"
  by (simp add: EVENT_TYPES_def)

lemma example_packs: "packs_say_why (en_packs example_env)"
  by (simp add: packs_say_why_def example_env_def)

theorem rollback_withdraws_powers_witness:
  "\<exists>r c. snd (rollback example_env example_digest ''user'' (fst example_activated)) = Inr r \<and> ar_ok r \<and>
     current_state ''greet'' (ev_skills (fst (rollback example_env example_digest ''user'' (fst example_activated)))) = Some c \<and>
     ss_lifecycle c = ''deprecated''"
proof -
  obtain s r a where s: "fst example_activated = s" "ledger_ready example_env s" "ev_skills s = example_sk2"
      "dict_get (ev_meta s) example_digest = Some a" "am_status a = ''active''" "am_module_type a = ''skill''" "am_module_id a = ''greet''"
    using example_activation by (metis fst_conv)
  obtain l e where 1: "append_meta_event example_env ''module_rollback_started'' ''user'' example_digest a
      [(''status'', JStr ''rollback_started''), (''target_paths'', json_strings (am_target_paths a))] s = (s\<lparr>ev_ledger := l\<rparr>, Inr e)"
      "ledger_ready example_env (s\<lparr>ev_ledger := l\<rparr>)"
    by (rule example_writes [OF s(2) finite_status(1) event_names(8)])
  obtain sk r3 where sk: "example_moved ''deprecate'' ''evolution rollback'' example_sk2 = (sk, r3)" "sr_ok r3"
    using example_deprecates by (metis prod.collapse)
  let ?s2 = "s\<lparr>ev_ledger := l, ev_skills := sk\<rparr>"
  have undo: "undo_activation example_env ''user'' a (s\<lparr>ev_ledger := l\<rparr>) = (?s2, [])"
    using s sk by (simp add: undo_activation_def rollback_skill_def example_skill_move)
  let ?b = "a\<lparr>am_status := ''rolled_back'', am_rolled_back_at := en_now example_env (ledger_size l), am_rollback_event := en_id example_env (ledger_size l)\<rparr>"
  have "ledger_ready example_env (put_meta example_digest ?b ?s2)" using 1(2) by (simp add: put_meta_def)
  then obtain l2 e2 where 2: "append_meta_event example_env ''module_rollback_succeeded'' ''user'' example_digest a
      [(''status'', JStr ''rolled_back''), (''target_paths'', json_strings (am_target_paths a))] (put_meta example_digest ?b ?s2) =
      ((put_meta example_digest ?b ?s2)\<lparr>ev_ledger := l2\<rparr>, Inr e2)"
    by (rule example_writes [OF _ finite_status(1) succeeded_name])
  let ?s3 = "(put_meta example_digest ?b ?s2)\<lparr>ev_ledger := l2\<rparr>"
  let ?r = "result_from_metadata example_digest ?b True ''rolled_back'' []"
  have run: "rollback example_env example_digest ''user'' s = (?s3, Inr ?r)"
    using s 1 undo 2 by (simp add: rollback_def Let_def and_then_def)
  have st: "ar_status ?r = ''rolled_back''" "ar_ok ?r" by (simp_all add: result_from_metadata_def)
  have strip: "py_strip ''greet'' = ''greet''" by code_simp
  have "withdrawn example_env a s ?s3"
  proof -
    from rollback_withdraws_powers [OF run example_packs] st(2) have
      "ar_status ?r = ''rolled_back'' \<and> (\<exists>a. dict_get (ev_meta s) example_digest = Some a \<and> am_status a = ''active'' \<and> withdrawn example_env a s ?s3) \<or>
       ar_status ?r = ''already_rolled_back''" by blast
    with st(1) obtain a' where "dict_get (ev_meta s) example_digest = Some a'" "withdrawn example_env a' s ?s3" by auto
    with s(4) show ?thesis by simp
  qed
  then obtain c where "current_state ''greet'' (ev_skills ?s3) = Some c" "ss_lifecycle c = ''deprecated''"
    using s strip by (auto simp: withdrawn_def)
  with run s(1) st show ?thesis by auto
qed

end
