(* ===== verification/Bdi.thy ===== *)
theory Bdi
  imports Prelude Complex_Main
begin

text \<open>
  Desires and their store (\<^verbatim>\<open>bdi/models.py\<close>, \<^verbatim>\<open>bdi/desire_store.py\<close>). A line of the JSONL file is what reading it
  gives: a desire, or nothing usable. An update takes one time stamp, where the code asks the clock several
  times. A utility is a rational number; the rounding of floating-point arithmetic is left out. The SQLite
  store is a table keyed by the desire's id; schema creation and input errors are left out.
\<close>

section \<open>Desires\<close>

datatype DesireStatus = PENDING | ACTIVE | SUSPENDED | SATISFIED | CANCELLED

datatype DesirePriority = LOW | MEDIUM | HIGH | CRITICAL

fun priority_value :: "DesirePriority \<Rightarrow> int" where
  "priority_value LOW = 10"
| "priority_value MEDIUM = 50"
| "priority_value HIGH = 80"
| "priority_value CRITICAL = 100"

text \<open>\<^verbatim>\<open>DesirePriority\<close> is an \<^verbatim>\<open>int\<close> enumeration: priorities compare by value.\<close>

lemma priority_value_inject: "priority_value p = priority_value q \<longleftrightarrow> p = q"
  by (cases p; cases q) simp_all

instantiation DesirePriority :: linorder
begin

definition less_eq_DesirePriority :: "DesirePriority \<Rightarrow> DesirePriority \<Rightarrow> bool" where
  "less_eq_DesirePriority p q = (priority_value p \<le> priority_value q)"

definition less_DesirePriority :: "DesirePriority \<Rightarrow> DesirePriority \<Rightarrow> bool" where
  "less_DesirePriority p q = (priority_value p < priority_value q)"

instance
  by standard (auto simp: less_eq_DesirePriority_def less_DesirePriority_def priority_value_inject)

end

fun ALLOWED_DESIRE_TRANSITIONS :: "DesireStatus \<Rightarrow> DesireStatus list" where
  "ALLOWED_DESIRE_TRANSITIONS PENDING = [ACTIVE, CANCELLED]"
| "ALLOWED_DESIRE_TRANSITIONS ACTIVE = [SUSPENDED, SATISFIED, CANCELLED]"
| "ALLOWED_DESIRE_TRANSITIONS SUSPENDED = [ACTIVE, CANCELLED]"
| "ALLOWED_DESIRE_TRANSITIONS SATISFIED = []"
| "ALLOWED_DESIRE_TRANSITIONS CANCELLED = []"

record Desire =
  ds_id :: string
  ds_owner :: string
  ds_session :: string
  ds_content :: string
  ds_status :: DesireStatus
  ds_priority :: DesirePriority
  ds_created :: string
  ds_updated :: string
  ds_deadline :: "string option"
  ds_satisfied :: "string option"
  ds_foresight :: "string option"
  ds_episode :: "string option"
  ds_messages :: "string list"
  ds_cycle :: "string option"
  ds_dependencies :: "string list"
  ds_constraints :: "string list"
  ds_evaluations :: int
  ds_utility :: rat
  ds_reasoning :: string
  ds_metadata :: json_obj

datatype desire_error = InvalidTransition string DesireStatus DesireStatus | AlreadyExists string | DoesNotExist string

definition new_desire :: "string \<Rightarrow> string \<Rightarrow> string \<Rightarrow> string \<Rightarrow> string \<Rightarrow> string option \<Rightarrow> string option \<Rightarrow> Desire" where
  "new_desire did owner session text now deadline foresight =
     \<lparr>ds_id = did, ds_owner = owner, ds_session = session, ds_content = text, ds_status = PENDING, ds_priority = MEDIUM,
      ds_created = now, ds_updated = now, ds_deadline = deadline, ds_satisfied = None, ds_foresight = foresight,
      ds_episode = None, ds_messages = [], ds_cycle = None, ds_dependencies = [], ds_constraints = [],
      ds_evaluations = 0, ds_utility = 1/2, ds_reasoning = [], ds_metadata = []\<rparr>"

definition can_transition_to :: "Desire \<Rightarrow> DesireStatus \<Rightarrow> bool" where
  "can_transition_to d target = (target \<in> set (ALLOWED_DESIRE_TRANSITIONS (ds_status d)))"

definition transition_to :: "string \<Rightarrow> DesireStatus \<Rightarrow> string \<Rightarrow> Desire \<Rightarrow> desire_error + Desire" where
  "transition_to now target why d =
     (if \<not> can_transition_to d target then Inl (InvalidTransition (ds_id d) (ds_status d) target)
      else let e = d\<lparr>ds_status := target, ds_updated := now, ds_reasoning := str_or why (ds_reasoning d)\<rparr>
           in Inr (if target = SATISFIED then e\<lparr>ds_satisfied := Some now\<rparr> else e))"

definition with_evaluation :: "string \<Rightarrow> string \<Rightarrow> Desire \<Rightarrow> Desire" where
  "with_evaluation now why d =
     d\<lparr>ds_evaluations := ds_evaluations d + 1, ds_reasoning := str_or why (ds_reasoning d), ds_updated := now\<rparr>"

definition with_utility :: "string \<Rightarrow> rat \<Rightarrow> Desire \<Rightarrow> Desire" where
  "with_utility now u d = d\<lparr>ds_utility := max 0 (min u 1), ds_updated := now\<rparr>"

definition is_terminal :: "Desire \<Rightarrow> bool" where
  "is_terminal d = (ds_status d = SATISFIED \<or> ds_status d = CANCELLED)"

definition is_deliberable :: "Desire \<Rightarrow> bool" where
  "is_deliberable d = (ds_status d = PENDING \<or> ds_status d = ACTIVE)"

text \<open>ISO time stamps are compared as text.\<close>

definition is_overdue :: "string \<Rightarrow> Desire \<Rightarrow> bool" where
  "is_overdue now d = (truthy (ds_deadline d) \<and> \<not> is_terminal d \<and> the (ds_deadline d) < now)"

section \<open>The store\<close>

datatype desire_line = BlankLine | CorruptLine | DesireLine Desire

type_synonym desires = "(string, Desire) dict"

record DesireStore =
  st_file :: "desire_line list option"
  st_sqlite :: "desires option"
  st_fallback :: bool

definition read_lines :: "desire_line list \<Rightarrow> desires" where
  "read_lines ls = fold (\<lambda>l acc. case l of DesireLine d \<Rightarrow> dict_set (ds_id d) d acc | _ \<Rightarrow> acc) ls []"

text \<open>The order of the table: priority descending, creation ascending.\<close>

definition by_priority :: "Desire list \<Rightarrow> Desire list" where
  "by_priority = sort_key (\<lambda>d. (- priority_value (ds_priority d), ds_created d))"

definition read_all :: "DesireStore \<Rightarrow> desires" where
  "read_all st =
     (case st_sqlite st of
        Some rows \<Rightarrow> fold (\<lambda>d acc. if ds_id d \<noteq> [] then dict_set (ds_id d) d acc else acc) (by_priority (map snd rows)) []
      | None \<Rightarrow> (case st_file st of None \<Rightarrow> [] | Some ls \<Rightarrow> read_lines ls))"

text \<open>Inserting rows one by one: the first that fails ends it, the rows before it stay.\<close>

fun sqlite_add_all :: "Desire list \<Rightarrow> desires \<Rightarrow> desires \<times> bool" where
  "sqlite_add_all [] rows = (rows, True)"
| "sqlite_add_all (d # ds) rows =
     (if ds_id d = [] \<or> dict_get rows (ds_id d) \<noteq> None then (rows, False)
      else sqlite_add_all ds (dict_set (ds_id d) d rows))"

definition jsonl_write_all :: "Desire list \<Rightarrow> DesireStore \<Rightarrow> DesireStore" where
  "jsonl_write_all ds st = st\<lparr>st_file := Some (map DesireLine ds)\<rparr>"

definition write_all :: "desires \<Rightarrow> DesireStore \<Rightarrow> DesireStore" where
  "write_all desires st =
     (let ds = map snd desires in
      case st_sqlite st of
        None \<Rightarrow> jsonl_write_all ds st
      | Some rows \<Rightarrow>
          (case sqlite_add_all ds rows of
             (rows1, done_all) \<Rightarrow>
               let st1 = st\<lparr>st_sqlite := Some rows1\<rparr> in
               if \<not> done_all \<or> st_fallback st then jsonl_write_all ds st1 else st1))"

definition add_desire :: "Desire \<Rightarrow> DesireStore \<Rightarrow> desire_error + DesireStore" where
  "add_desire d st =
     (let desires = read_all st in
      if dict_get desires (ds_id d) \<noteq> None then Inl (AlreadyExists (ds_id d))
      else Inr (write_all (dict_set (ds_id d) d desires) st))"

definition get_desire :: "string \<Rightarrow> DesireStore \<Rightarrow> Desire option" where
  "get_desire did st = dict_get (read_all st) did"

text \<open>The optional arguments of \<^verbatim>\<open>update\<close>.\<close>

record desire_update =
  up_status :: "DesireStatus option"
  up_priority :: "DesirePriority option"
  up_reasoning :: string
  up_metadata :: "json_obj option"
  up_utility :: "rat option"
  up_eval :: bool

definition no_update :: desire_update where
  "no_update = \<lparr>up_status = None, up_priority = None, up_reasoning = [], up_metadata = None, up_utility = None, up_eval = False\<rparr>"

definition updated_desire :: "string \<Rightarrow> desire_update \<Rightarrow> Desire \<Rightarrow> desire_error + Desire" where
  "updated_desire now u d0 =
     (case (case up_status u of None \<Rightarrow> Inr d0 | Some s \<Rightarrow> transition_to now s (up_reasoning u) d0) of
        Inl e \<Rightarrow> Inl e
      | Inr d1 \<Rightarrow>
          let why = up_reasoning u;
              d2 = (case up_priority u of None \<Rightarrow> d1
                    | Some p \<Rightarrow> d1\<lparr>ds_priority := p, ds_updated := now, ds_reasoning := str_or why (ds_reasoning d1)\<rparr>);
              d3 = (case up_metadata u of None \<Rightarrow> d2
                    | Some m \<Rightarrow> d2\<lparr>ds_metadata := dict_merge (ds_metadata d2) m, ds_updated := now\<rparr>);
              d4 = (case up_utility u of None \<Rightarrow> d3 | Some v \<Rightarrow> with_utility now v d3)
          in Inr (if up_eval u then with_evaluation now why d4
                  else d4\<lparr>ds_updated := now, ds_reasoning := str_or why (ds_reasoning d4)\<rparr>))"

text \<open>An unknown id writes the store back as it was read.\<close>

definition update_desire :: "string \<Rightarrow> string \<Rightarrow> desire_update \<Rightarrow> DesireStore \<Rightarrow> desire_error + (DesireStore \<times> Desire option)" where
  "update_desire now did u st =
     (let desires = read_all st in
      case dict_get desires did of
        None \<Rightarrow> Inr (write_all desires st, None)
      | Some d \<Rightarrow>
          (case updated_desire now u d of
             Inl e \<Rightarrow> Inl e
           | Inr d1 \<Rightarrow> Inr (write_all (dict_set did d1 desires) st, Some d1)))"

definition update_direct :: "Desire \<Rightarrow> DesireStore \<Rightarrow> desire_error + DesireStore" where
  "update_direct d st =
     (let desires = read_all st in
      if dict_get desires (ds_id d) = None then Inl (DoesNotExist (ds_id d))
      else Inr (write_all (dict_set (ds_id d) d desires) st))"

definition list_all_desires :: "DesireStore \<Rightarrow> Desire list" where
  "list_all_desires st = by_priority (map snd (read_all st))"

definition list_by_status :: "DesireStatus \<Rightarrow> DesireStore \<Rightarrow> Desire list" where
  "list_by_status s st = filter (\<lambda>d. ds_status d = s) (list_all_desires st)"

definition list_active_desires :: "DesireStore \<Rightarrow> Desire list" where
  "list_active_desires st = filter (\<lambda>d. ds_status d = ACTIVE) (list_all_desires st)"

definition list_deliberable :: "DesireStore \<Rightarrow> Desire list" where
  "list_deliberable st = filter is_deliberable (list_all_desires st)"

definition list_overdue :: "string \<Rightarrow> DesireStore \<Rightarrow> Desire list" where
  "list_overdue now st = filter (is_overdue now) (list_all_desires st)"

definition count_by_status :: "DesireStore \<Rightarrow> (DesireStatus, nat) dict" where
  "count_by_status st = fold (\<lambda>d acc. dict_set (ds_status d) (the (dict_get acc (ds_status d)) + 1) acc) (map snd (read_all st))
     (map (\<lambda>s. (s, 0)) [PENDING, ACTIVE, SUSPENDED, SATISFIED, CANCELLED])"

definition find_by_source_foresight :: "string \<Rightarrow> DesireStore \<Rightarrow> Desire list" where
  "find_by_source_foresight f st = filter (\<lambda>d. ds_foresight d = Some f) (list_all_desires st)"

section \<open>The store is a map of desires\<close>

text \<open>What a store promises its operations: what was written is read back, as long as it is filed under its ids.\<close>

definition filed :: "desires \<Rightarrow> bool" where
  "filed ds = (dict_ok ds \<and> (\<forall>(k, d) \<in> set ds. ds_id d = k))"

locale desire_backend =
  fixes load :: "'s \<Rightarrow> desires"
    and save :: "desires \<Rightarrow> 's \<Rightarrow> 's"
  assumes load_filed: "filed (load s)"
    and load_save: "filed ds \<Longrightarrow> load (save ds s) = ds"

lemma filed_empty: "filed []"
  by (simp add: filed_def)

lemma filed_set [inv_intros]: "filed ds \<Longrightarrow> ds_id d = k \<Longrightarrow> filed (dict_set k d ds)"
  using dict_set_entries [of ds "\<lambda>k d. ds_id d = k" k d] by (simp add: filed_def dict_ok_set)

sublocale desire_backend \<subseteq> keyed_store "\<lambda>s. dict_get (load s)" "\<lambda>k d s. save (dict_set k d (load s)) s" "\<lambda>k d. ds_id d = k" "\<lambda>s. True"
  by unfold_locales (simp_all add: load_save load_filed filed_set dict_get_set)

lemma filed_fold: "filed acc \<Longrightarrow> filed (fold (\<lambda>l acc. case l of DesireLine d \<Rightarrow> dict_set (ds_id d) d acc | _ \<Rightarrow> acc) ls acc)"
  by (induction ls arbitrary: acc) (auto intro!: filed_set split: desire_line.splits)

lemma filed_read_lines: "filed (read_lines ls)"
  unfolding read_lines_def by (rule filed_fold) (simp add: filed_def)

lemma filed_values: "filed ds \<Longrightarrow> map (\<lambda>d. (ds_id d, d)) (map snd ds) = ds"
  by (induction ds) (auto simp: filed_def)

lemma read_written:
  assumes "filed ds"
  shows "read_lines (map (DesireLine \<circ> snd) ds) = ds"
proof -
  have "read_lines (map (DesireLine \<circ> snd) ds) = fold (\<lambda>d acc. dict_set (ds_id d) d acc) (map snd ds) []"
    by (simp add: read_lines_def fold_map comp_def)
  moreover have "distinct (map ds_id (map snd ds))"
    using assms filed_values [OF assms] by (metis (no_types, lifting) filed_def fst_conv list.map_comp comp_def map_eq_conv)
  ultimately show ?thesis using fold_dict_set_distinct [of ds_id "map snd ds"] filed_values [OF assms] by simp
qed

definition load_jsonl :: "desire_line list option \<Rightarrow> desires" where
  "load_jsonl f = (case f of None \<Rightarrow> [] | Some ls \<Rightarrow> read_lines ls)"

definition save_jsonl :: "desires \<Rightarrow> desire_line list option \<Rightarrow> desire_line list option" where
  "save_jsonl ds f = Some (map (DesireLine \<circ> snd) ds)"

interpretation jsonl: desire_backend load_jsonl save_jsonl
  by unfold_locales (auto simp: load_jsonl_def save_jsonl_def filed_read_lines read_written filed_empty split: option.splits)

text \<open>The store as a map of the desires it holds.\<close>

definition desires_of :: "DesireStore \<Rightarrow> string \<Rightarrow> Desire option" where
  "desires_of st = (\<lambda>k. get_desire k st)"

abbreviation on_jsonl :: "DesireStore \<Rightarrow> bool" where
  "on_jsonl st \<equiv> st_sqlite st = None"

lemma read_all_jsonl: "on_jsonl st \<Longrightarrow> read_all st = load_jsonl (st_file st)"
  by (simp add: read_all_def load_jsonl_def)

lemma write_all_jsonl: "on_jsonl st \<Longrightarrow> write_all ds st = st\<lparr>st_file := save_jsonl ds (st_file st)\<rparr>"
  by (simp add: write_all_def Let_def jsonl_write_all_def save_jsonl_def)

lemma put_read:
  assumes "on_jsonl st" and "ds_id d = k"
  shows "desires_of (write_all (dict_set k d (read_all st)) st) = (desires_of st)(k \<mapsto> d)"
  using assms jsonl.find_put
  by (auto simp: desires_of_def get_desire_def read_all_jsonl write_all_jsonl)

lemma rewrite_read:
  assumes "on_jsonl st"
  shows "desires_of (write_all (read_all st) st) = desires_of st"
  using assms jsonl.load_save [OF jsonl.load_filed, of "st_file st" "st_file st"]
  by (simp add: desires_of_def get_desire_def read_all_jsonl write_all_jsonl)

lemma write_on_jsonl: "on_jsonl st \<Longrightarrow> on_jsonl (write_all ds st)"
  by (simp add: write_all_jsonl)

lemma stored_id: "on_jsonl st \<Longrightarrow> desires_of st k = Some d \<Longrightarrow> ds_id d = k"
  using jsonl.load_filed [of "st_file st"]
  by (auto simp: desires_of_def get_desire_def read_all_jsonl filed_def dest: map_of_SomeD)

lemma transition_id: "transition_to now s why d = Inr e \<Longrightarrow> ds_id e = ds_id d"
  by (auto simp: transition_to_def Let_def split: if_splits)

lemma updated_id: "updated_desire now u d = Inr e \<Longrightarrow> ds_id e = ds_id d"
  by (auto simp: updated_desire_def Let_def with_evaluation_def with_utility_def dest: transition_id
      split: option.splits sum.splits if_splits)

text \<open>
  C33. On the JSONL file the store is a map of desires: adding extends it by a new desire or refuses one that
  exists, and updating replaces the desire by the updated one, refuses what the status table forbids, and
  leaves the map alone for an unknown id; nothing else changes, whatever lines the file held before.
\<close>

theorem desire_store_refines_map:
  assumes "on_jsonl st"
  shows "(case add_desire d st of
      Inl e \<Rightarrow> e = AlreadyExists (ds_id d) \<and> desires_of st (ds_id d) \<noteq> None
    | Inr s \<Rightarrow> desires_of st (ds_id d) = None \<and> desires_of s = (desires_of st)(ds_id d \<mapsto> d) \<and> on_jsonl s) \<and>
    (case update_desire now did u st of
      Inl e \<Rightarrow> (\<exists>c. desires_of st did = Some c \<and> updated_desire now u c = Inl e)
    | Inr (s, r) \<Rightarrow> on_jsonl s \<and> (case desires_of st did of
          None \<Rightarrow> r = None \<and> desires_of s = desires_of st
        | Some c \<Rightarrow> \<exists>c1. updated_desire now u c = Inr c1 \<and> r = Some c1 \<and> desires_of s = (desires_of st)(did \<mapsto> c1)))"
proof (intro conjI)
  show "case add_desire d st of
      Inl e \<Rightarrow> e = AlreadyExists (ds_id d) \<and> desires_of st (ds_id d) \<noteq> None
    | Inr s \<Rightarrow> desires_of st (ds_id d) = None \<and> desires_of s = (desires_of st)(ds_id d \<mapsto> d) \<and> on_jsonl s"
    using put_read [OF assms, of d] write_on_jsonl [OF assms]
    by (auto simp: add_desire_def Let_def desires_of_def get_desire_def)
next
  have k: "dict_get (read_all st) did = desires_of st did" by (simp add: desires_of_def get_desire_def)
  show "case update_desire now did u st of
      Inl e \<Rightarrow> (\<exists>c. desires_of st did = Some c \<and> updated_desire now u c = Inl e)
    | Inr (s, r) \<Rightarrow> on_jsonl s \<and> (case desires_of st did of
          None \<Rightarrow> r = None \<and> desires_of s = desires_of st
        | Some c \<Rightarrow> \<exists>c1. updated_desire now u c = Inr c1 \<and> r = Some c1 \<and> desires_of s = (desires_of st)(did \<mapsto> c1))"
  proof (cases "desires_of st did")
    case None
    with rewrite_read [OF assms] write_on_jsonl [OF assms] show ?thesis by (simp add: update_desire_def Let_def k)
  next
    case (Some c)
    show ?thesis
    proof (cases "updated_desire now u c")
      case (Inl e)
      with Some show ?thesis by (simp add: update_desire_def Let_def k)
    next
      case (Inr c1)
      with Some have "ds_id c1 = did" using updated_id stored_id [OF assms] by simp
      with Some Inr put_read [OF assms, of c1 did] write_on_jsonl [OF assms] show ?thesis by (simp add: update_desire_def Let_def k)
    qed
  qed
qed

section \<open>The life of a desire\<close>

text \<open>The status table as a relation.\<close>

inductive status_step :: "DesireStatus \<Rightarrow> DesireStatus \<Rightarrow> bool" where
  "t \<in> set (ALLOWED_DESIRE_TRANSITIONS s) \<Longrightarrow> status_step s t"

inductive_simps status_step_simps: "status_step s t"

lemma terminal_stays: "status_step\<^sup>*\<^sup>* s t \<Longrightarrow> s = SATISFIED \<or> s = CANCELLED \<Longrightarrow> t = s"
  by (induction rule: converse_rtranclp_induct) (auto simp: status_step_simps)

text \<open>Well-formed: a desire has a time of satisfaction exactly when it is satisfied; its utility is clamped.\<close>

definition desire_wf :: "Desire \<Rightarrow> bool" where
  "desire_wf d = ((ds_satisfied d \<noteq> None \<longleftrightarrow> ds_status d = SATISFIED) \<and> 0 \<le> ds_utility d \<and> ds_utility d \<le> 1 \<and> 0 \<le> ds_evaluations d)"

lemma new_desire_wf: "desire_wf (new_desire did owner session text now deadline foresight)"
  by (simp add: desire_wf_def new_desire_def)

lemma transition_wf:
  assumes "transition_to now t why d = Inr e"
  shows "status_step (ds_status d) (ds_status e)" and "desire_wf d \<Longrightarrow> desire_wf e" and "ds_status e = t"
proof -
  from assms have t: "t \<in> set (ALLOWED_DESIRE_TRANSITIONS (ds_status d))" and e: "ds_status e = t"
    "ds_satisfied e = (if t = SATISFIED then Some now else ds_satisfied d)" "ds_utility e = ds_utility d" "ds_evaluations e = ds_evaluations d"
    by (auto simp: transition_to_def can_transition_to_def Let_def split: if_splits)
  from t e show "status_step (ds_status d) (ds_status e)" by (simp add: status_step_simps)
  show "ds_status e = t" by (rule e(1))
  assume "desire_wf d"
  moreover from t have "ds_status d \<noteq> SATISFIED" by (cases "ds_status d") auto
  ultimately show "desire_wf e" using e by (auto simp: desire_wf_def)
qed

lemma updated_status:
  assumes "updated_desire now u d = Inr e"
  shows "(case up_status u of None \<Rightarrow> ds_status e = ds_status d \<and> ds_satisfied e = ds_satisfied d
    | Some t \<Rightarrow> status_step (ds_status d) (ds_status e) \<and> ds_status e = t)" and "desire_wf d \<Longrightarrow> desire_wf e"
proof -
  obtain d1 where d1: "(case up_status u of None \<Rightarrow> Inr d | Some s \<Rightarrow> transition_to now s (up_reasoning u) d) = Inr d1"
    "ds_status e = ds_status d1" "ds_satisfied e = ds_satisfied d1" "desire_wf d1 \<Longrightarrow> desire_wf e"
    using assms by (auto simp: updated_desire_def Let_def with_evaluation_def with_utility_def desire_wf_def
        split: sum.splits option.splits if_splits)
  show "case up_status u of None \<Rightarrow> ds_status e = ds_status d \<and> ds_satisfied e = ds_satisfied d
    | Some t \<Rightarrow> status_step (ds_status d) (ds_status e) \<and> ds_status e = t"
    using d1 transition_wf by (auto split: option.splits)
  show "desire_wf d \<Longrightarrow> desire_wf e"
    using d1 transition_wf(2) by (auto split: option.splits)
qed

inductive desire_step :: "DesireStore \<Rightarrow> DesireStore \<Rightarrow> bool" where
  step_add: "desire_wf d \<Longrightarrow> add_desire d st = Inr s \<Longrightarrow> desire_step st s"
| step_update: "update_desire now did u st = Inr (s, r) \<Longrightarrow> desire_step st s"

text \<open>
  Either back end. The table is filed under the ids of its desires, which are not empty; what it is given
  beyond the first desire it ever got is lost, so a write changes the map of desires as asked or not at all.
\<close>

definition table_ok :: "desires \<Rightarrow> bool" where
  "table_ok rows = (filed rows \<and> dict_get rows [] = None)"

definition store_ok :: "DesireStore \<Rightarrow> bool" where
  "store_ok st = (case st_sqlite st of None \<Rightarrow> True | Some rows \<Rightarrow> table_ok rows)"

lemma filed_ids: "filed ds \<Longrightarrow> distinct (map ds_id (map snd ds))"
proof -
  assume f: "filed ds"
  then have "map ds_id (map snd ds) = map fst ds" by (auto simp: filed_def)
  then show ?thesis using f by (simp only: filed_def)
qed

lemma read_table:
  assumes "st_sqlite st = Some rows" and "table_ok rows"
  shows "read_all st = map (\<lambda>d. (ds_id d, d)) (by_priority (map snd rows))" and "desires_of st = dict_get rows"
proof -
  let ?ds = "by_priority (map snd rows)"
  have set: "set ?ds = snd ` set rows" by (simp add: by_priority_def)
  have f: "filed rows" using assms(2) by (simp add: table_ok_def)
  have ne: "ds_id d \<noteq> []" if "d \<in> set ?ds" for d
  proof
    assume "ds_id d = []"
    moreover from that have "d \<in> snd ` set rows" unfolding set .
    then obtain k where k: "(k, d) \<in> set rows" by (elim imageE) (metis prod.collapse)
    moreover from this f have "ds_id d = k" by (auto simp: filed_def)
    ultimately have "[] \<in> fst ` set rows" using image_eqI [of "[]" fst "([], d)" "set rows"] by simp
    then show False using assms(2) by (simp add: table_ok_def map_of_eq_None_iff)
  qed
  have dist: "distinct (map ds_id ?ds)"
    using filed_ids [OF f] unfolding by_priority_def distinct_map_sort_key .
  have "fold (\<lambda>d acc. if ds_id d \<noteq> [] then dict_set (ds_id d) d acc else acc) ?ds []
      = fold (\<lambda>d acc. dict_set (ds_id d) d acc) ?ds []"
    using ne by (intro fold_cong) auto
  then show r: "read_all st = map (\<lambda>d. (ds_id d, d)) ?ds"
    using assms(1) fold_dict_set_distinct [OF dist] by (simp add: read_all_def)
  have "set (map (\<lambda>d. (ds_id d, d)) ?ds) = set (map (\<lambda>d. (ds_id d, d)) (map snd rows))" by (simp add: set image_image)
  then have "set (map (\<lambda>d. (ds_id d, d)) ?ds) = set rows" unfolding filed_values [OF f] .
  moreover have "distinct (map fst (map (\<lambda>d. (ds_id d, d)) ?ds))" using dist by (simp add: comp_def)
  moreover have "distinct (map fst rows)" using f by (simp add: filed_def)
  ultimately have "map_of (map (\<lambda>d. (ds_id d, d)) ?ds) = map_of rows" by (simp only: map_of_inject_set)
  then show "desires_of st = dict_get rows"
    by (simp add: desires_of_def get_desire_def r fun_eq_iff)
qed

lemma rows_refused: "ds \<noteq> [] \<Longrightarrow> dict_get rows (ds_id (hd ds)) \<noteq> None \<Longrightarrow> sqlite_add_all ds rows = (rows, False)"
  by (cases ds) auto

lemma write_rows: "st_sqlite st = Some rows \<Longrightarrow> st_sqlite (write_all ds st) = Some (fst (sqlite_add_all (map snd ds) rows))"
  by (simp add: write_all_def Let_def jsonl_write_all_def split: prod.splits)

lemma put_table:
  assumes "st_sqlite st = Some rows" and "table_ok rows" and "ds_id d = k"
  shows "st_sqlite (write_all (dict_set k d (read_all st)) st) = Some rows \<or>
    st_sqlite (write_all (dict_set k d (read_all st)) st) = Some (dict_set k d rows) \<and> k \<noteq> []"
proof (cases "read_all st")
  case Nil
  then have "rows = []" using read_table(1) [OF assms(1,2)] by (simp add: by_priority_def flip: length_0_conv)
  with Nil assms show ?thesis by (cases "k = []") (auto simp: write_rows)
next
  case (Cons p ps)
  obtain i c where p: "p = (i, c)" by (cases p)
  have i: "ds_id c = i" using read_table(1) [OF assms(1,2)] Cons p by (cases "by_priority (map snd rows)") auto
  have "desires_of st i = Some c" using Cons p by (simp add: desires_of_def get_desire_def)
  then have "dict_get rows i \<noteq> None" using read_table(2) [OF assms(1,2)] by simp
  moreover have "ds_id (hd (map snd (dict_set k d (read_all st)))) = i" using Cons p i assms(3) by simp
  ultimately have "sqlite_add_all (map snd (dict_set k d (read_all st))) rows = (rows, False)"
    using Cons p by (intro rows_refused) auto
  then show ?thesis using write_rows [OF assms(1)] by simp
qed

lemma rewrite_table:
  assumes "st_sqlite st = Some rows" and "table_ok rows"
  shows "st_sqlite (write_all (read_all st) st) = Some rows"
proof (cases "read_all st")
  case Nil
  with assms show ?thesis by (simp add: write_rows)
next
  case (Cons p ps)
  obtain i c where p: "p = (i, c)" by (cases p)
  have i: "ds_id c = i" using read_table(1) [OF assms] Cons p by (cases "by_priority (map snd rows)") auto
  have "desires_of st i = Some c" using Cons p by (simp add: desires_of_def get_desire_def)
  then have "dict_get rows i \<noteq> None" using read_table(2) [OF assms] by simp
  then have "sqlite_add_all (map snd (read_all st)) rows = (rows, False)"
    using Cons p i by (intro rows_refused) auto
  then show ?thesis using write_rows [OF assms(1)] by simp
qed

text \<open>Reading after a write, on either back end.\<close>

lemma put_either:
  assumes "store_ok st" and "ds_id d = k"
  defines "s \<equiv> write_all (dict_set k d (read_all st)) st"
  shows "store_ok s" and "desires_of s = (desires_of st)(k \<mapsto> d) \<or> desires_of s = desires_of st"
proof -
  have "store_ok s \<and> (desires_of s = (desires_of st)(k \<mapsto> d) \<or> desires_of s = desires_of st)"
  proof (cases "st_sqlite st")
    case None
    then show ?thesis using put_read [OF None assms(2)] write_on_jsonl [OF None] by (simp add: s_def store_ok_def)
  next
    case (Some rows)
    then have t: "table_ok rows" using assms(1) by (simp add: store_ok_def)
    note old = read_table(2) [OF Some t]
    have t1: "table_ok (dict_set k d rows)" if "k \<noteq> []"
      using t that filed_set [of rows d k] assms(2) by (simp add: table_ok_def dict_simps)
    from put_table [OF Some t assms(2)] show ?thesis
    proof
      assume r: "st_sqlite (write_all (dict_set k d (read_all st)) st) = Some rows"
      from read_table(2) [OF r t] r t old show ?thesis by (simp add: s_def store_ok_def)
    next
      assume r: "st_sqlite (write_all (dict_set k d (read_all st)) st) = Some (dict_set k d rows) \<and> k \<noteq> []"
      from read_table(2) [OF conjunct1 [OF r] t1] r t1 old show ?thesis
        by (simp add: s_def store_ok_def fun_eq_iff dict_simps)
    qed
  qed
  then show "store_ok s" and "desires_of s = (desires_of st)(k \<mapsto> d) \<or> desires_of s = desires_of st" by simp_all
qed

lemma rewrite_either:
  assumes "store_ok st"
  shows "store_ok (write_all (read_all st) st)" and "desires_of (write_all (read_all st) st) = desires_of st"
proof -
  have "store_ok (write_all (read_all st) st) \<and> desires_of (write_all (read_all st) st) = desires_of st"
  proof (cases "st_sqlite st")
    case None
    then show ?thesis using rewrite_read [OF None] write_on_jsonl [OF None] by (simp add: store_ok_def)
  next
    case (Some rows)
    then have t: "table_ok rows" using assms by (simp add: store_ok_def)
    note r = rewrite_table [OF Some t]
    from read_table(2) [OF r t] read_table(2) [OF Some t] r t show ?thesis by (simp add: store_ok_def)
  qed
  then show "store_ok (write_all (read_all st) st)" and "desires_of (write_all (read_all st) st) = desires_of st" by simp_all
qed

lemma stored_id_either: "store_ok st \<Longrightarrow> desires_of st k = Some d \<Longrightarrow> ds_id d = k"
proof (cases "st_sqlite st")
  case (Some rows)
  assume "store_ok st" and d: "desires_of st k = Some d"
  then have t: "table_ok rows" using Some by (simp add: store_ok_def)
  then have "(k, d) \<in> set rows" using d read_table(2) [OF Some t] by (simp add: map_of_SomeD)
  with t show "ds_id d = k" by (auto simp: table_ok_def filed_def)
qed (rule stored_id)

definition store_inv :: "DesireStore \<Rightarrow> bool" where
  "store_inv st = (store_ok st \<and> (\<forall>k d. desires_of st k = Some d \<longrightarrow> ds_id d = k \<and> desire_wf d))"

lemma add_cases:
  assumes "store_ok st" and "add_desire d st = Inr s"
  shows "desires_of st (ds_id d) = None" "desires_of s = (desires_of st)(ds_id d \<mapsto> d) \<or> desires_of s = desires_of st" "store_ok s"
  using assms put_either [OF assms(1) refl, of d]
  by (auto simp: add_desire_def Let_def desires_of_def get_desire_def split: if_splits)

lemma update_cases:
  assumes "store_ok st" and "update_desire now did u st = Inr (s, r)"
  obtains "store_ok s" "desires_of st did = None" "r = None" "desires_of s = desires_of st"
    | c c1 where "store_ok s" "desires_of st did = Some c" "updated_desire now u c = Inr c1" "r = Some c1"
        "desires_of s = (desires_of st)(did \<mapsto> c1) \<or> desires_of s = desires_of st"
proof -
  have k: "dict_get (read_all st) did = desires_of st did" by (simp add: desires_of_def get_desire_def)
  show thesis
  proof (cases "desires_of st did")
    case None
    with assms rewrite_either [OF assms(1)] show thesis
      by (intro that(1)) (auto simp: update_desire_def Let_def k)
  next
    case (Some c)
    then obtain c1 where c1: "updated_desire now u c = Inr c1"
      using assms(2) by (cases "updated_desire now u c") (auto simp: update_desire_def Let_def k)
    with Some have i: "ds_id c1 = did" using updated_id stored_id_either [OF assms(1)] by simp
    have s: "s = write_all (dict_set did c1 (read_all st)) st" "r = Some c1"
      using assms(2) Some c1 by (auto simp: update_desire_def Let_def k)
    from put_either [OF assms(1) i] Some c1 s show thesis by (intro that(2)) simp_all
  qed
qed

lemma desire_step_inv: "store_inv st \<Longrightarrow> desire_step st s \<Longrightarrow> store_inv s"
proof (erule desire_step.cases)
  fix d st1 s1
  assume i: "store_inv st" and e: "st = st1" "s = s1" and d: "desire_wf d" "add_desire d st1 = Inr s1"
  have j: "store_ok st" using i by (simp add: store_inv_def)
  note a = add_cases [OF j d(2) [folded e]]
  from a(2) i d(1) show "store_inv s" by (auto simp: store_inv_def a(3) split: if_splits)
next
  fix now did u st1 s1 r
  assume i: "store_inv st" and "st = st1" "s = s1" "update_desire now did u st1 = Inr (s1, r)"
  then have up: "update_desire now did u st = Inr (s, r)" and j: "store_ok st" by (simp_all add: store_inv_def)
  show "store_inv s"
  proof (cases rule: update_cases [OF j up])
    case 1
    with i show ?thesis by (simp add: store_inv_def)
  next
    case (2 c c1)
    then have "ds_id c1 = did" "desire_wf c1" using i updated_id updated_status(2) by (auto simp: store_inv_def)
    with 2 i show ?thesis by (auto simp: store_inv_def split: if_splits)
  qed
qed

definition store_start :: "DesireStore \<Rightarrow> bool" where
  "store_start st = (store_ok st \<and> (\<forall>k d. desires_of st k = Some d \<longrightarrow> desire_wf d))"

interpretation desires: safe_system store_start desire_step store_inv
proof unfold_locales
  show "store_inv s" if "store_start s" for s
    using that stored_id_either by (auto simp: store_start_def store_inv_def)
qed (rule desire_step_inv)

lemma step_keeps:
  assumes "store_ok st" and "desire_step st s" and "desires_of st k = Some d"
  shows "\<exists>e. desires_of s k = Some e \<and> status_step\<^sup>*\<^sup>* (ds_status d) (ds_status e) \<and>
    (is_terminal d \<longrightarrow> ds_satisfied e = ds_satisfied d)"
  using assms(2)
proof (cases rule: desire_step.cases)
  case (step_add c)
  from add_cases [OF assms(1) step_add(2)] assms(3) have "desires_of s k = Some d" by (auto split: if_splits)
  then show ?thesis by simp
next
  case (step_update now did u r)
  show ?thesis
  proof (cases rule: update_cases [OF assms(1) step_update])
    case 1
    with assms(3) show ?thesis by simp
  next
    case (2 c c1)
    note s = updated_status(1) [OF 2(3)]
    have "status_step\<^sup>*\<^sup>* (ds_status c) (ds_status c1)" using s by (auto split: option.splits)
    moreover have "ds_satisfied c1 = ds_satisfied c" if "is_terminal c"
      using s that by (auto simp: is_terminal_def status_step_simps split: option.splits)
    ultimately show ?thesis using 2 assms(3) by (cases "k = did") auto
  qed
qed

lemma steps_keep:
  assumes "desire_step\<^sup>*\<^sup>* st s" and "store_inv st" and "desires_of st k = Some d"
  shows "\<exists>e. desires_of s k = Some e \<and> status_step\<^sup>*\<^sup>* (ds_status d) (ds_status e) \<and>
    (is_terminal d \<longrightarrow> ds_satisfied e = ds_satisfied d)"
  using assms(1)
proof (induction rule: rtranclp_induct)
  case base
  with assms(3) show ?case by simp
next
  case (step y z)
  then obtain e where e: "desires_of y k = Some e" "status_step\<^sup>*\<^sup>* (ds_status d) (ds_status e)"
    "is_terminal d \<longrightarrow> ds_satisfied e = ds_satisfied d" by blast
  have "store_ok y" using desires.steps_inv [OF step(1) assms(2)] by (simp add: store_inv_def)
  from step_keeps [OF this step(2) e(1)] obtain f where f: "desires_of z k = Some f" "status_step\<^sup>*\<^sup>* (ds_status e) (ds_status f)"
    "is_terminal e \<longrightarrow> ds_satisfied f = ds_satisfied e" by blast
  have "is_terminal d \<longrightarrow> is_terminal e" using terminal_stays [OF e(2)] by (auto simp: is_terminal_def)
  with e f show ?case by (metis rtranclp_trans)
qed

text \<open>
  C32. On either back end (the JSONL file, or the SQLite table, filed under the ids of its desires), however
  desires are added and updated: every desire that can be read stays in the store, its status moves along the
  table, a satisfied or cancelled one keeps its status and its time of satisfaction for good, and every
  desire is well-formed: it has a time of satisfaction exactly when it is satisfied, its utility is between
  0 and 1. It is not said that a write is kept: the SQLite store loses most of them
  (\<open>sqlite_write_lost\<close>). \<^verbatim>\<open>update_direct\<close>, which nothing in the program calls and which replaces a desire by any
  other, is not among the steps.
\<close>

theorem desire_life_cycle:
  assumes "store_start st" and "desire_step\<^sup>*\<^sup>* st s"
  shows "(\<forall>k d. desires_of st k = Some d \<longrightarrow> (\<exists>e. desires_of s k = Some e \<and> status_step\<^sup>*\<^sup>* (ds_status d) (ds_status e) \<and>
      (is_terminal d \<longrightarrow> ds_status e = ds_status d \<and> ds_satisfied e = ds_satisfied d))) \<and>
    (\<forall>k e. desires_of s k = Some e \<longrightarrow> ds_id e = k \<and> desire_wf e)"
proof -
  have i: "store_inv st" using desires.start_inv [OF assms(1)] .
  have "\<exists>e. desires_of s k = Some e \<and> status_step\<^sup>*\<^sup>* (ds_status d) (ds_status e) \<and>
      (is_terminal d \<longrightarrow> ds_status e = ds_status d \<and> ds_satisfied e = ds_satisfied d)" if "desires_of st k = Some d" for k d
    using steps_keep [OF assms(2) i that] terminal_stays by (auto simp: is_terminal_def)
  moreover have "store_inv s" by (rule desires.steps_inv [OF assms(2) i])
  ultimately show ?thesis by (simp add: store_inv_def)
qed

definition example_desire :: Desire where
  "example_desire = new_desire ''d'' ''user'' ''s'' ''call Ann'' ''t0'' None None"

definition example_store :: DesireStore where
  "example_store = \<lparr>st_file = Some [CorruptLine, DesireLine example_desire], st_sqlite = None, st_fallback = False\<rparr>"

definition cancel_it :: desire_update where
  "cancel_it = no_update\<lparr>up_status := Some CANCELLED, up_reasoning := ''done''\<rparr>"

theorem desire_store_refines_map_witness:
  "\<exists>s. add_desire (example_desire\<lparr>ds_id := ''e''\<rparr>) example_store = Inr s \<and> desires_of s ''d'' = Some example_desire"
proof -
  have j: "on_jsonl example_store" by (simp add: example_store_def)
  have d: "desires_of example_store ''d'' = Some example_desire" "desires_of example_store ''e'' = None"
    by (simp_all add: desires_of_def get_desire_def read_all_def read_lines_def example_store_def example_desire_def new_desire_def)
  from desire_store_refines_map [OF j, of "example_desire\<lparr>ds_id := ''e''\<rparr>" "''t1''" "''d''" cancel_it] d show ?thesis
    by (auto split: sum.splits)
qed

lemma example_store_holds: "desires_of example_store k = (if k = ''d'' then Some example_desire else None)"
  by (simp add: desires_of_def get_desire_def read_all_def read_lines_def example_store_def example_desire_def new_desire_def)

lemma example_store_start: "store_start example_store"
  unfolding store_start_def
proof (intro conjI allI impI)
  show "store_ok example_store" by (simp add: example_store_def store_ok_def)
next
  fix k c assume "desires_of example_store k = Some c"
  then have "c = example_desire" by (simp add: example_store_holds split: if_splits)
  then show "desire_wf c" unfolding example_desire_def by (simp only: new_desire_wf)
qed

theorem desire_life_cycle_witness:
  "\<exists>s r e. update_desire ''t1'' ''d'' cancel_it example_store = Inr (s, r) \<and> desires_of s ''d'' = Some e \<and> desire_wf e"
proof -
  have "case update_desire ''t1'' ''d'' cancel_it example_store of Inl _ \<Rightarrow> False | Inr _ \<Rightarrow> True" by code_simp
  then obtain s r where u: "update_desire ''t1'' ''d'' cancel_it example_store = Inr (s, r)" by (auto split: sum.splits)
  then have "desire_step\<^sup>*\<^sup>* example_store s" by (intro r_into_rtranclp step_update)
  moreover have "desires_of example_store ''d'' = Some example_desire" by (simp add: example_store_holds)
  ultimately show ?thesis using desire_life_cycle [OF example_store_start] u by blast
qed

section \<open>Listings\<close>

lemma by_priority_sorted:
  "sorted_wrt (\<lambda>c d. ds_priority d < ds_priority c \<or> ds_priority d = ds_priority c \<and> ds_created c \<le> ds_created d) (by_priority ds)"
proof -
  have "sorted (map (\<lambda>d. (- priority_value (ds_priority d), ds_created d)) (by_priority ds))" by (simp add: by_priority_def)
  then have "sorted_wrt (\<lambda>c d. (- priority_value (ds_priority c), ds_created c) \<le> (- priority_value (ds_priority d), ds_created d)) (by_priority ds)"
    by (simp add: sorted_map)
  then show ?thesis
    by (rule sorted_wrt_mono_rel [rotated]) (auto simp: less_DesirePriority_def priority_value_inject)
qed

section \<open>The SQLite back end\<close>

text \<open>
  Writing goes through the inserting \<^verbatim>\<open>add\<close>, which refuses an id that exists: as soon as the table has a row,
  every write stops at the first desire, is redirected to the JSONL file, and is never read back.
\<close>

lemma first_row:
  assumes "filed rows" and "rows \<noteq> []" and "\<forall>(k, d) \<in> set rows. k \<noteq> []"
  obtains d rest where "map snd (fold (\<lambda>d acc. if ds_id d \<noteq> [] then dict_set (ds_id d) d acc else acc) (by_priority (map snd rows)) []) = d # rest"
    "dict_get rows (ds_id d) \<noteq> None"
proof -
  let ?ds = "by_priority (map snd rows)"
  have s: "set ?ds = snd ` set rows" by (simp add: by_priority_def)
  have keys: "ds_id d \<noteq> [] \<and> dict_get rows (ds_id d) \<noteq> None" if "d \<in> set ?ds" for d
  proof -
    from that s obtain k where k: "(k, d) \<in> set rows" by (metis image_iff prod.collapse)
    with assms(1,3) have "ds_id d = k" "k \<noteq> []" by (auto simp: filed_def)
    with k show ?thesis by (metis map_of_eq_None_iff fst_conv image_eqI)
  qed
  have "map ds_id (map snd rows) = map fst rows" using assms(1) by (auto simp: filed_def)
  then have "distinct (map ds_id (map snd rows))" using assms(1) by (simp only: filed_def)
  then have "distinct (map ds_id ?ds)" unfolding by_priority_def distinct_map_sort_key .
  then have "fold (\<lambda>d acc. dict_set (ds_id d) d acc) ?ds [] = map (\<lambda>d. (ds_id d, d)) ?ds" by (rule fold_dict_set_distinct)
  moreover have "fold (\<lambda>d acc. if ds_id d \<noteq> [] then dict_set (ds_id d) d acc else acc) ?ds [] = fold (\<lambda>d acc. dict_set (ds_id d) d acc) ?ds []"
    using keys by (intro fold_cong) auto
  ultimately have m: "map snd (fold (\<lambda>d acc. if ds_id d \<noteq> [] then dict_set (ds_id d) d acc else acc) ?ds []) = ?ds"
    by (simp add: comp_def)
  have "?ds \<noteq> []" using assms(2) s by (metis image_is_empty set_empty)
  then obtain d rest where "?ds = d # rest" by (cases ?ds) auto
  with m keys [of d] show thesis by (intro that) auto
qed

lemma sqlite_write_lost:
  assumes "st_sqlite st = Some rows" and "filed rows" and "rows \<noteq> []" and "\<forall>(k, d) \<in> set rows. k \<noteq> []" and "ds_id d = k"
  shows "read_all (write_all (dict_set k d (read_all st)) st) = read_all st"
proof -
  obtain e rest where e: "map snd (read_all st) = e # rest" "dict_get rows (ds_id e) \<noteq> None"
    using first_row [OF assms(2-4)] assms(1) by (auto simp: read_all_def)
  obtain p ps where p: "read_all st = p # ps" "snd p = e" using e(1) by auto
  have pe: "fst p = ds_id e"
  proof -
    have "filed acc \<Longrightarrow> filed (fold (\<lambda>d acc. if ds_id d \<noteq> [] then dict_set (ds_id d) d acc else acc) xs acc)" for xs acc
      by (induction xs arbitrary: acc) (auto intro: filed_set)
    then have "filed (read_all st)" using assms(1) filed_empty by (simp add: read_all_def)
    with p show ?thesis by (auto simp: filed_def)
  qed
  have "\<exists>f. map snd (dict_set k d (read_all st)) = f # map snd (if fst p = k then ps else dict_set k d ps) \<and> ds_id f = ds_id e"
    using p pe assms(5) by (cases p) auto
  then have "sqlite_add_all (map snd (dict_set k d (read_all st))) rows = (rows, False)" using e(2) by auto
  then show ?thesis using assms(1) by (simp add: write_all_def Let_def jsonl_write_all_def read_all_def)
qed

text \<open>So with SQLite the second desire is never seen again.\<close>

lemma second_desire_lost:
  assumes "st_sqlite st = Some []" and "ds_id d \<noteq> []" and "ds_id e \<noteq> []" and "ds_id d \<noteq> ds_id e"
    and "add_desire d st = Inr s" and "add_desire e s = Inr t"
  shows "get_desire (ds_id e) t = None"
proof -
  have s: "st_sqlite s = Some [(ds_id d, d)]"
    using assms by (auto simp: add_desire_def write_all_def read_all_def Let_def by_priority_def jsonl_write_all_def split: if_splits)
  then have "read_all t = read_all s"
    using assms sqlite_write_lost [of s "[(ds_id d, d)]" e "ds_id e"]
    by (auto simp: add_desire_def Let_def filed_def split: if_splits)
  then show ?thesis using s assms by (simp add: get_desire_def read_all_def by_priority_def)
qed

end
