(* ===== verification/CronBridge.thy ===== *)
theory CronBridge
  imports Bdi Cron
begin

text \<open>
  The bridge between scheduled jobs and desires (\<^verbatim>\<open>bdi/cron_desire_bridge.py\<close>, \<^verbatim>\<open>bdi/cron_observation_store.py\<close>).
  The two SQLite tables are a dictionary of links and a list of deliveries; a replaced row goes to the end, as
  a new row does. The text of a time stamp is a parameter.
\<close>

section \<open>Links and deliveries\<close>

record CronLink =
  ln_desire :: string
  ln_session :: string
  ln_owner :: string
  ln_created :: string
  ln_last_delivery :: "string option"
  ln_last_status :: "string option"
  ln_failures :: nat
  ln_disabled :: bool

record Delivery =
  dl_job :: string
  dl_at :: string
  dl_status :: string
  dl_error :: string
  dl_duration :: int

record ObservationStore =
  ob_links :: "(string, CronLink) dict"
  ob_log :: "Delivery list"

definition save_link :: "string \<Rightarrow> string \<Rightarrow> string \<Rightarrow> string \<Rightarrow> string \<Rightarrow> ObservationStore \<Rightarrow> ObservationStore" where
  "save_link now job did session owner ob =
     ob\<lparr>ob_links := dict_del job (ob_links ob) @
       [(job, \<lparr>ln_desire = did, ln_session = session, ln_owner = owner, ln_created = now, ln_last_delivery = None,
               ln_last_status = None, ln_failures = 0, ln_disabled = False\<rparr>)]\<rparr>"

definition get_link_by_job_id :: "string \<Rightarrow> ObservationStore \<Rightarrow> CronLink option" where
  "get_link_by_job_id job ob = dict_get (ob_links ob) job"

definition get_link_by_desire_id :: "string \<Rightarrow> ObservationStore \<Rightarrow> (string \<times> CronLink) option" where
  "get_link_by_desire_id did ob = List.find (\<lambda>(job, l). ln_desire l = did) (ob_links ob)"

definition list_failing_links :: "ObservationStore \<Rightarrow> (string \<times> CronLink) list" where
  "list_failing_links ob = filter (\<lambda>(job, l). 2 \<le> ln_failures l \<and> \<not> ln_disabled l) (ob_links ob)"

definition list_active_links :: "ObservationStore \<Rightarrow> (string \<times> CronLink) list" where
  "list_active_links ob = sort_key (\<lambda>(job, l). ln_created l) (filter (\<lambda>(job, l). \<not> ln_disabled l) (ob_links ob))"

text \<open>An \<^verbatim>\<open>UPDATE\<close> of one row: the row is changed in place if it exists.\<close>

definition change_link :: "string \<Rightarrow> (CronLink \<Rightarrow> CronLink) \<Rightarrow> ObservationStore \<Rightarrow> ObservationStore" where
  "change_link job f ob =
     (case dict_get (ob_links ob) job of None \<Rightarrow> ob | Some l \<Rightarrow> ob\<lparr>ob_links := dict_set job (f l) (ob_links ob)\<rparr>)"

definition set_cron_disabled :: "string \<Rightarrow> bool \<Rightarrow> ObservationStore \<Rightarrow> ObservationStore \<times> bool" where
  "set_cron_disabled job disabled ob =
     (change_link job (\<lambda>l. l\<lparr>ln_disabled := disabled\<rparr>) ob, dict_get (ob_links ob) job \<noteq> None)"

definition record_delivery :: "string \<Rightarrow> string \<Rightarrow> string \<Rightarrow> string \<Rightarrow> int \<Rightarrow> ObservationStore \<Rightarrow> ObservationStore" where
  "record_delivery now job status err duration ob =
     change_link job
       (\<lambda>l. if status = ''ok''
            then l\<lparr>ln_last_delivery := Some now, ln_last_status := Some ''ok'', ln_failures := 0\<rparr>
            else l\<lparr>ln_last_delivery := Some now, ln_last_status := Some ''error'', ln_failures := ln_failures l + 1\<rparr>)
       (ob\<lparr>ob_log := ob_log ob @ [\<lparr>dl_job = job, dl_at = now, dl_status = status, dl_error = err, dl_duration = duration\<rparr>]\<rparr>)"

text \<open>The newest first; rows of the same instant in the order of the table.\<close>

definition delivery_log :: "string \<Rightarrow> int \<Rightarrow> ObservationStore \<Rightarrow> Delivery list" where
  "delivery_log job limit ob =
     take (nat (max 1 limit)) (rev (sort_key dl_at (rev (filter (\<lambda>d. dl_job d = job) (ob_log ob)))))"

definition link_stats :: "ObservationStore \<Rightarrow> nat \<times> nat \<times> nat" where
  "link_stats ob = (length (ob_links ob), length (filter (\<lambda>(job, l). \<not> ln_disabled l) (ob_links ob)), length (list_failing_links ob))"

section \<open>The bridge\<close>

record Bridge =
  br_enabled :: bool
  br_store :: DesireStore
  br_obs :: ObservationStore

definition cron_desire_id :: "CronJob \<Rightarrow> string" where
  "cron_desire_id job = ''cron:'' @ cj_id job"

definition on_cron_job_created ::
    "(int \<Rightarrow> string) \<Rightarrow> string \<Rightarrow> CronJob \<Rightarrow> string \<Rightarrow> string \<Rightarrow> Bridge \<Rightarrow> Bridge \<times> string option" where
  "on_cron_job_created iso_text now job session owner br =
     (if \<not> br_enabled br then (br, None)
      else let did = cron_desire_id job in
      if get_link_by_job_id (cj_id job) (br_obs br) \<noteq> None then (br, Some did)
      else
        let deadline = (case sc_at_ms (cj_schedule job) of
              Some t \<Rightarrow> if sc_kind (cj_schedule job) = ''at'' \<and> t \<noteq> 0 then Some (iso_text t) else None | None \<Rightarrow> None);
            text = str_or (pl_message (cj_payload job)) (''Scheduled: '' @ cj_name job);
            d = new_desire did (str_or owner ''user'') session text now deadline None
        in case add_desire d (br_store br) of
            Inl _ \<Rightarrow> (br, Some did)
          | Inr s \<Rightarrow> (br\<lparr>br_store := s, br_obs := save_link now (cj_id job) did session owner (br_obs br)\<rparr>, Some did))"

definition on_job_completed :: "string \<Rightarrow> CronJob \<Rightarrow> bool \<Rightarrow> string \<Rightarrow> int \<Rightarrow> Bridge \<Rightarrow> Bridge" where
  "on_job_completed now job success err duration br =
     (if \<not> br_enabled br then br
      else br\<lparr>br_obs := record_delivery now (cj_id job) (if success then ''ok'' else ''error'') err duration (br_obs br)\<rparr>)"

text \<open>The beliefs: the failing jobs with their desires and counts, or nothing when the bridge is off.\<close>

definition failing_jobs :: "Bridge \<Rightarrow> (string \<times> string \<times> nat) list" where
  "failing_jobs br =
     (if \<not> br_enabled br then [] else map (\<lambda>(job, l). (job, ln_desire l, ln_failures l)) (list_failing_links (br_obs br)))"

text \<open>With a cron service the job itself is disabled too, when the link was there.\<close>

definition disable_cron_job ::
    "string \<Rightarrow> (string \<Rightarrow> CronService \<Rightarrow> CronService) \<Rightarrow> CronService option \<Rightarrow> Bridge \<Rightarrow> Bridge \<times> CronService option \<times> bool" where
  "disable_cron_job job switch_off service br =
     (if \<not> br_enabled br then (br, service, False)
      else case set_cron_disabled job True (br_obs br) of
          (ob, updated) \<Rightarrow>
            (br\<lparr>br_obs := ob\<rparr>, (if updated then map_option (switch_off job) service else service), updated))"

section \<open>What the engine is told\<close>

lemma change_link_get:
  "dict_get (ob_links (change_link job f ob)) k = (if k = job then map_option f (dict_get (ob_links ob) k) else dict_get (ob_links ob) k)"
  by (auto simp: change_link_def dict_simps split: option.splits)

lemma completed_link:
  assumes "br_enabled br"
  shows "dict_get (ob_links (br_obs (on_job_completed now job good err dur br))) k =
    (if k = cj_id job
     then map_option (\<lambda>l. if good then l\<lparr>ln_last_delivery := Some now, ln_last_status := Some ''ok'', ln_failures := 0\<rparr>
            else l\<lparr>ln_last_delivery := Some now, ln_last_status := Some ''error'', ln_failures := ln_failures l + 1\<rparr>) (dict_get (ob_links (br_obs br)) k)
     else dict_get (ob_links (br_obs br)) k)"
  using assms by (simp add: on_job_completed_def record_delivery_def change_link_get)

lemma completed_enabled [simp]: "br_enabled (on_job_completed now job good err dur br) = br_enabled br"
  "br_store (on_job_completed now job good err dur br) = br_store br"
  by (simp_all add: on_job_completed_def)

text \<open>The outcomes of the runs of a job, each with its time, error and duration.\<close>

definition deliveries :: "CronJob \<Rightarrow> (bool \<times> string \<times> string \<times> int) list \<Rightarrow> Bridge \<Rightarrow> Bridge" where
  "deliveries job outs br = fold (\<lambda>(good, now, err, dur). on_job_completed now job good err dur) outs br"

definition failures_since :: "bool list \<Rightarrow> nat \<Rightarrow> nat" where
  "failures_since goods n = (if True \<in> set goods then length (takeWhile Not (rev goods)) else n + length goods)"

lemma failures_snoc: "failures_since (gs @ [g]) n = (if g then 0 else failures_since gs n + 1)"
  by (auto simp: failures_since_def)

lemma deliveries_link:
  assumes "br_enabled br" and "dict_get (ob_links (br_obs br)) (cj_id job) = Some l"
  shows "br_enabled (deliveries job outs br) \<and> br_store (deliveries job outs br) = br_store br \<and>
    (\<exists>m. dict_get (ob_links (br_obs (deliveries job outs br))) (cj_id job) = Some m \<and>
       ln_failures m = failures_since (map fst outs) (ln_failures l) \<and> ln_disabled m = ln_disabled l \<and> ln_desire m = ln_desire l) \<and>
    (\<forall>k. k \<noteq> cj_id job \<longrightarrow> dict_get (ob_links (br_obs (deliveries job outs br))) k = dict_get (ob_links (br_obs br)) k)"
proof (induction outs rule: rev_induct)
  case Nil
  then show ?case using assms by (simp add: deliveries_def failures_since_def)
next
  case (snoc x outs)
  obtain good now err dur where x: "x = (good, now, err, dur)" by (rule prod_cases4)
  have step: "deliveries job (outs @ [x]) br = on_job_completed now job good err dur (deliveries job outs br)"
    by (simp add: deliveries_def x)
  from snoc obtain m where m: "br_enabled (deliveries job outs br)" "dict_get (ob_links (br_obs (deliveries job outs br))) (cj_id job) = Some m"
    "ln_failures m = failures_since (map fst outs) (ln_failures l)" "ln_disabled m = ln_disabled l" "ln_desire m = ln_desire l" by blast
  show ?case using snoc m unfolding step by (simp add: completed_link failures_snoc x)
qed


lemma created_link:
  assumes "br_enabled br" and "get_link_by_job_id (cj_id job) (br_obs br) = None"
    and "get_desire (cron_desire_id job) (br_store br) = None"
  obtains b d where "on_cron_job_created iso_text now job session owner br = (b, Some (cron_desire_id job))" "br_enabled b"
    "ds_id d = cron_desire_id job" "desire_wf d" "ds_status d = PENDING" "add_desire d (br_store br) = Inr (br_store b)"
    "\<exists>l. dict_get (ob_links (br_obs b)) (cj_id job) = Some l \<and> ln_failures l = 0 \<and> \<not> ln_disabled l \<and> ln_desire l = cron_desire_id job"
    "\<And>k. k \<noteq> cj_id job \<Longrightarrow> dict_get (ob_links (br_obs b)) k = dict_get (ob_links (br_obs br)) k"
proof -
  define d where "d = new_desire (cron_desire_id job) (str_or owner ''user'') session
      (str_or (pl_message (cj_payload job)) (''Scheduled: '' @ cj_name job)) now
      (case sc_at_ms (cj_schedule job) of
         Some t \<Rightarrow> if sc_kind (cj_schedule job) = ''at'' \<and> t \<noteq> 0 then Some (iso_text t) else None | None \<Rightarrow> None) None"
  have d: "ds_id d = cron_desire_id job" "ds_status d = PENDING" "desire_wf d"
    using new_desire_wf by (simp_all add: d_def new_desire_def)
  obtain s where s: "add_desire d (br_store br) = Inr s"
    using assms(3) d(1) by (simp add: add_desire_def Let_def get_desire_def)
  let ?b = "br\<lparr>br_store := s, br_obs := save_link now (cj_id job) (cron_desire_id job) session owner (br_obs br)\<rparr>"
  have r: "on_cron_job_created iso_text now job session owner br = (?b, Some (cron_desire_id job))"
    using assms(1,2) s by (simp add: on_cron_job_created_def Let_def d_def)
  show thesis
    by (rule that [OF r _ d(1,3,2)])
      (use assms s in \<open>auto simp: save_link_def map_add_def dict_simps split: option.splits\<close>)
qed

lemma dict_ok_change [inv_intros]: "dict_ok (ob_links ob) \<Longrightarrow> dict_ok (ob_links (change_link job f ob))"
  by (auto simp: change_link_def intro: dict_ok_set split: option.splits)

lemma dict_ok_save [inv_intros]: "dict_ok (ob_links ob) \<Longrightarrow> dict_ok (ob_links (save_link now job did session owner ob))"
  using dict_ok_del [of "ob_links ob" job] delete_keys [of job "ob_links ob"] by (auto simp: save_link_def)

lemma dict_ok_deliveries:
  "dict_ok (ob_links (br_obs br)) \<Longrightarrow> dict_ok (ob_links (br_obs (deliveries job outs br)))"
  by (induction outs rule: rev_induct)
    (auto simp: deliveries_def on_job_completed_def record_delivery_def intro!: dict_ok_change split: prod.splits)

lemma dict_ok_created:
  "on_cron_job_created iso_text now job session owner br = (b, r) \<Longrightarrow> dict_ok (ob_links (br_obs br)) \<Longrightarrow> dict_ok (ob_links (br_obs b))"
  by (auto simp: on_cron_job_created_def Let_def intro!: dict_ok_save split: if_splits sum.splits)

lemma failing_member:
  assumes "br_enabled br" and "dict_ok (ob_links (br_obs br))"
  shows "(k, did, n) \<in> set (failing_jobs br) \<longleftrightarrow>
    (\<exists>l. dict_get (ob_links (br_obs br)) k = Some l \<and> ln_desire l = did \<and> ln_failures l = n \<and> 2 \<le> n \<and> \<not> ln_disabled l)"
  using assms by (force simp: failing_jobs_def list_failing_links_def)

text \<open>
  The engine is told the truth about linked jobs: creating a job that is new to the bridge adds one pending
  desire and links it, and however its runs turn out, the engine sees the job as failing exactly when the last
  two or more runs all failed, with the number of failures since the last success and the desire of the job;
  neither the desires nor the links of other jobs change while it runs.
\<close>

theorem failing_jobs_are_counted:
  assumes "br_enabled br" and "get_link_by_job_id (cj_id job) (br_obs br) = None"
    and "get_desire (cron_desire_id job) (br_store br) = None" and "dict_ok (ob_links (br_obs br))"
    and "on_cron_job_created iso_text now job session owner br = (b, r)"
  shows "r = Some (cron_desire_id job) \<and> (\<exists>d. ds_id d = cron_desire_id job \<and> ds_status d = PENDING \<and> add_desire d (br_store br) = Inr (br_store b)) \<and>
    br_store (deliveries job outs b) = br_store b \<and>
    (\<forall>k did n. (k, did, n) \<in> set (failing_jobs (deliveries job outs b)) \<longleftrightarrow>
       (if k = cj_id job then did = cron_desire_id job \<and> n = failures_since (map fst outs) 0 \<and> 2 \<le> n
        else (k, did, n) \<in> set (failing_jobs br)))"
proof -
  obtain d where c: "on_cron_job_created iso_text now job session owner br = (b, Some (cron_desire_id job))" "br_enabled b"
    "ds_id d = cron_desire_id job" "ds_status d = PENDING" "add_desire d (br_store br) = Inr (br_store b)"
    and l: "\<exists>l. dict_get (ob_links (br_obs b)) (cj_id job) = Some l \<and> ln_failures l = 0 \<and> \<not> ln_disabled l \<and> ln_desire l = cron_desire_id job"
    and k: "\<And>k. k \<noteq> cj_id job \<Longrightarrow> dict_get (ob_links (br_obs b)) k = dict_get (ob_links (br_obs br)) k"
    using created_link [OF assms(1-3), of iso_text now session owner] assms(5) by (metis prod.inject)
  obtain l where l: "dict_get (ob_links (br_obs b)) (cj_id job) = Some l" "ln_failures l = 0" "\<not> ln_disabled l" "ln_desire l = cron_desire_id job"
    using l by blast
  let ?e = "deliveries job outs b"
  note run = deliveries_link [OF c(2) l(1), of outs]
  have ok: "dict_ok (ob_links (br_obs ?e))"
    by (rule dict_ok_deliveries [OF dict_ok_created [OF assms(5,4)]])
  have "(x, did, n) \<in> set (failing_jobs ?e) \<longleftrightarrow>
       (if x = cj_id job then did = cron_desire_id job \<and> n = failures_since (map fst outs) 0 \<and> 2 \<le> n
        else (x, did, n) \<in> set (failing_jobs br))" for x did n
    using run l k [of x] failing_member [OF _ ok] failing_member [OF assms(1,4)] by auto
  with c run assms(5) show ?thesis by auto
qed

text \<open>A desire that exists while its link does not is never linked, although the comment says that it already is.\<close>

lemma existing_desire_never_linked:
  assumes "br_enabled br" and "get_link_by_job_id (cj_id job) (br_obs br) = None"
    and "get_desire (cron_desire_id job) (br_store br) \<noteq> None"
  shows "on_cron_job_created iso_text now job session owner br = (br, Some (cron_desire_id job))"
  using assms by (auto simp: on_cron_job_created_def Let_def add_desire_def get_desire_def new_desire_def)

definition example_job :: CronJob where
  "example_job = \<lparr>cj_id = ''j'', cj_name = ''tea'', cj_enabled = True,
     cj_schedule = \<lparr>sc_kind = ''every'', sc_at_ms = None, sc_every_ms = Some 60000, sc_expr = None, sc_tz = None\<rparr>,
     cj_payload = \<lparr>pl_kind = ''agent_turn'', pl_message = ''make tea'', pl_deliver = False, pl_channel = None, pl_to = None,
       pl_channel_meta = [], pl_session_key = None, pl_capability_snapshot = [], pl_grant_id = None\<rparr>,
     cj_state = new_state None, cj_created_at = 0, cj_updated_at = 0, cj_delete_after_run = False\<rparr>"

definition example_bridge :: Bridge where
  "example_bridge = \<lparr>br_enabled = True, br_store = example_store, br_obs = \<lparr>ob_links = [], ob_log = []\<rparr>\<rparr>"

theorem failing_jobs_are_counted_witness:
  "(''j'', ''cron:j'', 2) \<in> set (failing_jobs (deliveries example_job
     [(False, ''t2'', ''x'', 1), (True, ''t3'', [], 1), (False, ''t4'', ''x'', 1), (False, ''t5'', ''x'', 1)]
     (fst (on_cron_job_created (\<lambda>n. ''t'') ''t1'' example_job ''s'' [] example_bridge))))"
proof -
  have 1: "br_enabled example_bridge" "get_link_by_job_id (cj_id example_job) (br_obs example_bridge) = None"
    "dict_ok (ob_links (br_obs example_bridge))"
    by (simp_all add: example_bridge_def get_link_by_job_id_def)
  have 2: "get_desire (cron_desire_id example_job) (br_store example_bridge) = None"
    by (simp add: get_desire_def read_all_def read_lines_def example_store_def example_desire_def new_desire_def example_bridge_def
        cron_desire_id_def example_job_def)
  obtain b r where b: "on_cron_job_created (\<lambda>n. ''t'') ''t1'' example_job ''s'' [] example_bridge = (b, r)" by (rule prod.exhaust)
  have id: "cj_id example_job = ''j''" "cron_desire_id example_job = ''cron:j''" by (simp_all add: example_job_def cron_desire_id_def)
  let ?outs = "[(False, ''t2'', ''x'', 1), (True, ''t3'', [], 1), (False, ''t4'', ''x'', 1), (False, ''t5'', ''x'', 1)] :: (bool \<times> string \<times> string \<times> int) list"
  have f: "failures_since (map fst ?outs) 0 = 2" by code_simp
  from failing_jobs_are_counted [OF 1(1,2) 2 1(3) b]
  have "(''j'', ''cron:j'', 2) \<in> set (failing_jobs (deliveries example_job ?outs b)) \<longleftrightarrow>
     (if ''j'' = cj_id example_job then ''cron:j'' = cron_desire_id example_job \<and> 2 = failures_since (map fst ?outs) 0 \<and> (2::nat) \<le> 2
        else (''j'', ''cron:j'', 2) \<in> set (failing_jobs example_bridge))" by blast
  with id f b show ?thesis by simp
qed

end
