(* ===== verification/Deliberation.thy ===== *)
theory Deliberation
  imports CronBridge "HOL-Library.While_Combinator"
begin

text \<open>
  The deliberation engine (\<^verbatim>\<open>bdi/deliberation.py\<close>) with its intention stack (\<^verbatim>\<open>bdi/models.py\<close>), its plan
  library (\<^verbatim>\<open>bdi/plan_library.py\<close>), the rewards it learns from (\<^verbatim>\<open>bdi/utility_reward_bridge.py\<close>) and the watcher
  that wakes it (\<^verbatim>\<open>bdi/world_state_watcher.py\<close>). The language model is a parameter that answers a prompt by a
  decision; while it is asked nothing else touches the store. The keywords of a text (the tokenizer with its
  stop words) and the random draw are parameters. Confidences and rewards are rational numbers; the
  rounding of floating-point arithmetic is left out.
\<close>

section \<open>Intentions and their stack\<close>

record DeliberationIntention =
  di_desire :: string
  di_action :: string
  di_scope :: string
  di_trigger :: string
  di_risk :: string
  di_reasoning :: string
  di_payload :: json_obj

record StackFrame =
  sf_desire :: string
  sf_intention :: DeliberationIntention
  sf_suspended_at :: string
  sf_reason :: string
  sf_priority :: int

record ResumeCandidate =
  rc_desire :: string
  rc_position :: nat
  rc_reason :: string
  rc_suspended_at :: string
  rc_priority :: int

definition MAX_DEPTH :: nat where "MAX_DEPTH = 10"

text \<open>The frames, the oldest first; \<open>None\<close> is the overflow.\<close>

definition stack_push :: "StackFrame \<Rightarrow> StackFrame list \<Rightarrow> StackFrame list option" where
  "stack_push f fs = (if MAX_DEPTH \<le> length fs then None else Some (fs @ [f]))"

definition stack_pop :: "StackFrame list \<Rightarrow> StackFrame list \<times> StackFrame option" where
  "stack_pop fs = (if fs = [] then ([], None) else (butlast fs, Some (last fs)))"

definition stack_peek :: "StackFrame list \<Rightarrow> StackFrame option" where
  "stack_peek fs = (if fs = [] then None else Some (last fs))"

definition list_resumable :: "StackFrame list \<Rightarrow> ResumeCandidate list" where
  "list_resumable fs = map (\<lambda>(i, f). \<lparr>rc_desire = sf_desire f, rc_position = length fs - 1 - i, rc_reason = sf_reason f,
     rc_suspended_at = sf_suspended_at f, rc_priority = sf_priority f\<rparr>) (enumerate 0 (rev fs))"

definition find_frame :: "string \<Rightarrow> StackFrame list \<Rightarrow> StackFrame option" where
  "find_frame did fs = List.find (\<lambda>f. sf_desire f = did) fs"

section \<open>The plan library\<close>

record PlanTemplate =
  pt_id :: string
  pt_keywords :: "string list"
  pt_action :: string
  pt_scope :: string
  pt_payload :: json_obj
  pt_description :: string
  pt_hits :: int
  pt_last_used :: string
  pt_created :: string
  pt_source :: "string option"

definition increment_hit :: "string \<Rightarrow> PlanTemplate \<Rightarrow> PlanTemplate" where
  "increment_hit now p = p\<lparr>pt_hits := pt_hits p + 1, pt_last_used := now\<rparr>"

record PlanMatch =
  pm_plan :: PlanTemplate
  pm_confidence :: rat
  pm_matched :: "string list"
  pm_reasoning :: string

type_synonym plans = "(string, PlanTemplate) dict"

definition MIN_CONFIDENCE :: rat where "MIN_CONFIDENCE = 3/5"

definition matched_keywords :: "string \<Rightarrow> PlanTemplate \<Rightarrow> string list" where
  "matched_keywords text p = filter (\<lambda>k. py_in (py_lower k) text) (pt_keywords p)"

definition plan_confidence :: "PlanTemplate \<Rightarrow> nat \<Rightarrow> rat" where
  "plan_confidence p n = (let c = of_nat n / of_nat (length (pt_keywords p)) in if pt_hits p > 10 then min 1 (c + 1/10) else c)"

definition better_match ::
    "string \<Rightarrow> PlanTemplate \<Rightarrow> (PlanTemplate \<times> rat \<times> string list) option \<Rightarrow> (PlanTemplate \<times> rat \<times> string list) option" where
  "better_match text p best =
     (let m = matched_keywords text p; c = plan_confidence p (length m) in
      if m = [] then best
      else case best of None \<Rightarrow> Some (p, c, m) | Some (q, d, ks) \<Rightarrow> if c > d then Some (p, c, m) else best)"

definition match_plan :: "string \<Rightarrow> Desire \<Rightarrow> plans \<Rightarrow> plans \<times> PlanMatch option" where
  "match_plan now d lib =
     (case fold (better_match (py_lower (ds_content d))) (map snd lib) None of
        None \<Rightarrow> (lib, None)
      | Some (p, c, m) \<Rightarrow>
          if c < MIN_CONFIDENCE then (lib, None)
          else let q = increment_hit now p
               in (dict_set (pt_id q) q lib, Some \<lparr>pm_plan = q, pm_confidence = c, pm_matched = m,
                     pm_reasoning = ''Matched '' @ show_nat (length m) @ ''/'' @ show_nat (length (pt_keywords q)) @ '' keywords''\<rparr>))"

text \<open>\<^verbatim>\<open>Counter.most_common(5)\<close>: the most frequent first, equally frequent ones in the order of their first occurrence.\<close>

definition extract_keywords :: "(string \<Rightarrow> string list) \<Rightarrow> string \<Rightarrow> string list" where
  "extract_keywords tokens text =
     (let ws = tokens (py_lower text) in take 5 (sort_key (\<lambda>w. - int (count_list ws w)) (rev (remdups (rev ws)))))"

definition similar_plan :: "string list \<Rightarrow> PlanTemplate \<Rightarrow> bool" where
  "similar_plan ks p =
     (let n = card (set (pt_keywords p) \<inter> set ks) in
      n > 0 \<and> min (card (set (pt_keywords p))) (card (set ks)) \<le> 2 * n)"

definition learn_plan :: "(string \<Rightarrow> string list) \<Rightarrow> string \<Rightarrow> Desire \<Rightarrow> DeliberationIntention \<Rightarrow> plans \<Rightarrow> plans" where
  "learn_plan tokens now d i lib =
     (let ks = extract_keywords tokens (ds_content d); pid = ''plan_'' @ di_action i @ ''_'' @ show_nat (length lib) in
      case List.find (similar_plan ks) (map snd lib) of
        Some p \<Rightarrow> dict_set (pt_id p) (increment_hit now p) lib
      | None \<Rightarrow> dict_set pid \<lparr>pt_id = pid, pt_keywords = ks, pt_action = di_action i, pt_scope = di_scope i, pt_payload = di_payload i,
          pt_description = ''Auto-learned from desire: '' @ take 80 (ds_content d), pt_hits = 1, pt_last_used = now,
          pt_created = now, pt_source = Some (ds_id d)\<rparr> lib)"

section \<open>Choosing what to deliberate\<close>

definition deterministic_order :: "string \<Rightarrow> Desire list \<Rightarrow> Desire list" where
  "deterministic_order now = sort_key (\<lambda>d. (if is_overdue now d then -1000 else 0) - priority_value (ds_priority d))"

text \<open>
  The sampling loop: the draw takes an index of the pool, whose probabilities play no role here; the last
  one is taken without a draw.
\<close>

definition draw_step :: "(Desire list \<Rightarrow> nat) \<Rightarrow> Desire list \<times> Desire list \<times> int \<Rightarrow> Desire list \<times> Desire list \<times> int" where
  "draw_step draw s =
     (case s of (selected, pool, slots) \<Rightarrow>
        let i = (if length pool = 1 then 0 else draw pool)
        in (selected @ [pool ! i], take i pool @ drop (Suc i) pool, slots - 1))"

definition sampling :: "(Desire list \<Rightarrow> nat) \<Rightarrow> Desire list \<Rightarrow> Desire list \<Rightarrow> int \<Rightarrow> (Desire list \<times> Desire list \<times> int) option" where
  "sampling draw selected pool slots = while_option (\<lambda>(_, p, n). n > 0 \<and> p \<noteq> []) (draw_step draw) (selected, pool, slots)"

definition stochastic_prioritize :: "(Desire list \<Rightarrow> nat) \<Rightarrow> nat \<Rightarrow> string \<Rightarrow> Desire list \<Rightarrow> Desire list" where
  "stochastic_prioritize draw limit now ds =
     (if length ds \<le> 1 then ds
      else
        let overdue = filter (is_overdue now) ds; others = filter (\<lambda>d. \<not> is_overdue now d) ds;
            slots = int limit - int (length overdue)
        in if slots \<le> 0 then take limit overdue
           else if others = [] then overdue
           else (case sampling draw overdue others slots of Some (selected, _, _) \<Rightarrow> take limit selected | None \<Rightarrow> []))"

section \<open>Rewards\<close>

definition status_reward :: "Desire \<Rightarrow> rat option" where
  "status_reward d =
     (if ds_status d = SATISFIED then Some 1
      else if ds_status d = CANCELLED then Some (- 1/2)
      else if ds_status d = ACTIVE \<and> ds_evaluations d > 3 then Some (- 1/10)
      else None)"

definition extract_status_rewards :: "Desire list \<Rightarrow> (string, rat) dict" where
  "extract_status_rewards ds = fold (\<lambda>d acc. case status_reward d of None \<Rightarrow> acc | Some r \<Rightarrow> dict_set (ds_id d) r acc) ds []"

text \<open>The union of the ids is a set in the code, whose order plays no role.\<close>

definition merge_rewards :: "(string, rat) dict \<Rightarrow> (string, rat) dict \<Rightarrow> (string, rat) dict" where
  "merge_rewards status reflected =
     map (\<lambda>k. (k, case (dict_get status k, dict_get reflected k) of
            (Some s, Some r) \<Rightarrow> 7/10 * s + 3/10 * r | (Some s, None) \<Rightarrow> s | (None, Some r) \<Rightarrow> r | (None, None) \<Rightarrow> 0))
       (remdups (map fst status @ map fst reflected))"

section \<open>The engine\<close>

record BDICycleRecord =
  bc_id :: string
  bc_status :: string
  bc_before :: nat
  bc_active_after :: nat
  bc_formed :: nat
  bc_updated :: "string list"
  bc_model :: string
  bc_error :: string

record DeliberationResult =
  dr_id :: string
  dr_evaluated :: nat
  dr_intentions :: "DeliberationIntention list"
  dr_updated :: "string list"
  dr_reasoning :: string
  dr_model :: string
  dr_error :: string

text \<open>
  An intention as the model writes it: an object, where a missing key makes it malformed and it is skipped, or
  another JSON value, whose subscript raises a \<^verbatim>\<open>TypeError\<close> that leaves the cycle. A list of intentions that
  is no list at all (\<^verbatim>\<open>null\<close>) raises the same error and is represented by one such entry. The lists of
  desire ids are lists of strings, as the schema of the tool asks.
\<close>

record RawIntention =
  ri_desire :: "string option"
  ri_action :: "string option"
  ri_scope :: "string option"
  ri_risk :: "string option"
  ri_reasoning :: "string option"
  ri_payload :: "json_obj option"

datatype raw_entry = RawObject RawIntention | RawOther

record Decision =
  dc_reasoning :: string
  dc_intentions :: "raw_entry list"
  dc_satisfy :: "string list"
  dc_suspend :: "string list"
  dc_cancel :: "string list"

datatype llm_reply = ReplyFailed string | NoToolCalls | Decided Decision

record Foresight =
  fo_id :: string
  fo_owner :: string
  fo_session :: string
  fo_content :: string
  fo_end :: "string option"

text \<open>The links of the cron bridge with its switch, when the engine has one.\<close>

record Engine =
  eg_store :: DesireStore
  eg_stack :: "StackFrame list"
  eg_stack_file :: "StackFrame list option"
  eg_plans :: plans
  eg_cycles :: "BDICycleRecord list"
  eg_links :: "(bool \<times> ObservationStore) option"

record bdi_env =
  be_limit :: nat
  be_foresight :: bool
  be_model :: string
  be_tokens :: "string \<Rightarrow> string list"
  be_draw :: "(Desire list \<Rightarrow> nat) option"
  be_learning :: "(rat \<times> (Desire list \<Rightarrow> (string, rat) dict)) option"

definition persist_stack :: "Engine \<Rightarrow> Engine" where
  "persist_stack eg = eg\<lparr>eg_stack_file := Some (eg_stack eg)\<rparr>"

definition pop_and_persist :: "Engine \<Rightarrow> Engine" where
  "pop_and_persist eg = persist_stack (eg\<lparr>eg_stack := fst (stack_pop (eg_stack eg))\<rparr>)"

text \<open>Starting reads the stack of the last run.\<close>

definition engine_start :: "Engine \<Rightarrow> Engine" where
  "engine_start eg = eg\<lparr>eg_stack := (case eg_stack_file eg of None \<Rightarrow> [] | Some fs \<Rightarrow> fs)\<rparr>"

text \<open>A store update with the transition errors that its callers catch.\<close>

definition engine_update :: "string \<Rightarrow> string \<Rightarrow> desire_update \<Rightarrow> Engine \<Rightarrow> Engine \<times> Desire option" where
  "engine_update now did u eg =
     (case update_desire now did u (eg_store eg) of
        Inl _ \<Rightarrow> (eg, None)
      | Inr (s, r) \<Rightarrow> (eg\<lparr>eg_store := s\<rparr>, r))"

definition set_status :: "DesireStatus \<Rightarrow> string \<Rightarrow> desire_update" where
  "set_status s why = no_update\<lparr>up_status := Some s, up_reasoning := why\<rparr>"

definition dependencies_met :: "DesireStore \<Rightarrow> Desire \<Rightarrow> bool" where
  "dependencies_met st d = list_all (\<lambda>k. case get_desire k st of None \<Rightarrow> True | Some e \<Rightarrow> is_terminal e) (ds_dependencies d)"

definition resume_one :: "string \<Rightarrow> string \<Rightarrow> Engine \<Rightarrow> Engine" where
  "resume_one now did eg =
     (case get_desire did (eg_store eg) of
        None \<Rightarrow> pop_and_persist eg
      | Some d \<Rightarrow>
          if ds_status d = SUSPENDED \<and> dependencies_met (eg_store eg) d
          then (case update_desire now did (set_status ACTIVE ''Resumed from IntentionStack'') (eg_store eg) of
                  Inl _ \<Rightarrow> eg
                | Inr (s, _) \<Rightarrow> pop_and_persist (eg\<lparr>eg_store := s\<rparr>))
          else eg)"

definition check_resumptions :: "string \<Rightarrow> Engine \<Rightarrow> Engine" where
  "check_resumptions now eg = fold (resume_one now) (map rc_desire (list_resumable (eg_stack eg))) eg"

text \<open>Desires for foresights that have none yet; the first error ends the loop.\<close>

fun sync_foresights :: "string \<Rightarrow> string list \<Rightarrow> Foresight list \<Rightarrow> DesireStore \<Rightarrow> DesireStore" where
  "sync_foresights now known [] st = st"
| "sync_foresights now known (f # fs) st =
     (if fo_id f \<noteq> [] \<and> fo_id f \<notin> set known
      then (case add_desire (new_desire (''desire_fs_'' @ fo_id f) (fo_owner f) (fo_session f) (fo_content f) now (fo_end f) (Some (fo_id f))) st of
              Inl _ \<Rightarrow> st
            | Inr s \<Rightarrow> sync_foresights now known fs s)
      else sync_foresights now known fs st)"

definition cached_intention :: "Desire \<Rightarrow> PlanMatch \<Rightarrow> DeliberationIntention" where
  "cached_intention d m = \<lparr>di_desire = ds_id d, di_action = pt_action (pm_plan m), di_scope = pt_scope (pm_plan m),
     di_trigger = ''deliberation:plan_cache'', di_risk = ''low'', di_reasoning = ''Plan cache: '' @ pm_reasoning m,
     di_payload = pt_payload (pm_plan m)\<rparr>"

fun split_by_plan :: "string \<Rightarrow> Desire list \<Rightarrow> plans \<Rightarrow> plans \<times> DeliberationIntention list \<times> Desire list" where
  "split_by_plan now [] lib = (lib, [], [])"
| "split_by_plan now (d # ds) lib =
     (case match_plan now d lib of
        (lib1, r) \<Rightarrow>
          (case split_by_plan now ds lib1 of
             (lib2, cached, rest) \<Rightarrow>
               (case r of Some m \<Rightarrow> (lib2, cached_intention d m # cached, rest) | None \<Rightarrow> (lib2, cached, d # rest))))"

definition override_intention :: "string \<Rightarrow> nat \<Rightarrow> Desire \<Rightarrow> DeliberationIntention" where
  "override_intention job n d = \<lparr>di_desire = ds_id d, di_action = ''send_message'', di_scope = ''system'',
     di_trigger = ''deliberation:cron_override'', di_risk = ''low'',
     di_reasoning = ''Cron '' @ job @ '' failed '' @ show_nat n @ '' times; BDI overriding.'',
     di_payload = [(''text'', JStr (ds_content d)), (''alternative_to_cron'', JBool True)]\<rparr>"

definition engine_bridge :: "Engine \<Rightarrow> Bridge option" where
  "engine_bridge eg = map_option (\<lambda>(on, ob). \<lparr>br_enabled = on, br_store = eg_store eg, br_obs = ob\<rparr>) (eg_links eg)"

text \<open>The links of jobs that failed three times in a row are switched off, when their desire is deliberated.\<close>

fun cron_overrides :: "(string \<times> string \<times> nat) list \<Rightarrow> Desire list \<Rightarrow> Bridge \<Rightarrow> Bridge \<times> DeliberationIntention list" where
  "cron_overrides [] ds br = (br, [])"
| "cron_overrides ((job, did, n) # js) ds br =
     (case (if 3 \<le> n then List.find (\<lambda>d. ds_id d = did) ds else None) of
        None \<Rightarrow> cron_overrides js ds br
      | Some d \<Rightarrow>
          (case cron_overrides js ds (fst (disable_cron_job job (\<lambda>_ s. s) None br)) of
             (br1, is) \<Rightarrow> (br1, override_intention job n d # is)))"

definition parse_intention :: "RawIntention \<Rightarrow> DeliberationIntention option" where
  "parse_intention r =
     (case (ri_desire r, ri_action r) of
        (Some did, Some act) \<Rightarrow> Some \<lparr>di_desire = did, di_action = act, di_scope = (case ri_scope r of None \<Rightarrow> ''system'' | Some s \<Rightarrow> s),
          di_trigger = ''deliberation'', di_risk = (case ri_risk r of None \<Rightarrow> ''low'' | Some s \<Rightarrow> s),
          di_reasoning = (case ri_reasoning r of None \<Rightarrow> [] | Some s \<Rightarrow> s), di_payload = (case ri_payload r of None \<Rightarrow> [] | Some p \<Rightarrow> p)\<rparr>
      | _ \<Rightarrow> None)"

text \<open>The loop over the entries: malformed objects are skipped, the first entry that is no object raises (\<open>None\<close>).\<close>

fun parse_intentions :: "raw_entry list \<Rightarrow> DeliberationIntention list option" where
  "parse_intentions [] = Some []"
| "parse_intentions (RawOther # rs) = None"
| "parse_intentions (RawObject r # rs) =
     map_option (\<lambda>is. case parse_intention r of None \<Rightarrow> is | Some i \<Rightarrow> i # is) (parse_intentions rs)"

definition satisfy_one :: "string \<Rightarrow> string \<Rightarrow> string \<Rightarrow> Engine \<times> string list \<Rightarrow> Engine \<times> string list" where
  "satisfy_one now why did s =
     (case s of (eg, ids) \<Rightarrow>
        (case engine_update now did (set_status SATISFIED why) eg of
           (e, None) \<Rightarrow> (e, ids)
         | (e, Some _) \<Rightarrow> (pop_and_persist e, ids @ [did])))"

text \<open>The status is changed before the frame is pushed; an overflow keeps the status.\<close>

definition suspend_one ::
    "string \<Rightarrow> string \<Rightarrow> DeliberationIntention list \<Rightarrow> string \<Rightarrow> Engine \<times> string list \<Rightarrow> Engine \<times> string list" where
  "suspend_one now why is did s =
     (case s of (eg, ids) \<Rightarrow>
        (case engine_update now did (set_status SUSPENDED why) eg of
           (e, None) \<Rightarrow> (e, ids)
         | (e, Some d) \<Rightarrow>
             (case List.find (\<lambda>i. di_desire i = did) is of
                None \<Rightarrow> (e, ids @ [did])
              | Some i \<Rightarrow>
                  (case stack_push \<lparr>sf_desire = did, sf_intention = i, sf_suspended_at = now, sf_reason = take 200 why,
                          sf_priority = priority_value (ds_priority d)\<rparr> (eg_stack e) of
                     None \<Rightarrow> (e, ids @ [did])
                   | Some fs \<Rightarrow> (persist_stack (e\<lparr>eg_stack := fs\<rparr>), ids @ [did])))))"

definition cancel_one :: "string \<Rightarrow> string \<Rightarrow> string \<Rightarrow> Engine \<times> string list \<Rightarrow> Engine \<times> string list" where
  "cancel_one now why did s =
     (case s of (eg, ids) \<Rightarrow>
        (case engine_update now did (set_status CANCELLED why) eg of
           (e, None) \<Rightarrow> (e, ids)
         | (e, Some _) \<Rightarrow> (e, ids @ [did])))"

definition apply_decision ::
    "string \<Rightarrow> Decision \<Rightarrow> DeliberationIntention list \<Rightarrow> Engine \<Rightarrow> Engine \<times> string list" where
  "apply_decision now dc is eg =
     (let why = dc_reasoning dc in
      fold (cancel_one now why) (dc_cancel dc)
        (fold (suspend_one now why is) (dc_suspend dc)
          (fold (satisfy_one now why) (dc_satisfy dc) (eg, []))))"

definition learn_plans :: "(string \<Rightarrow> string list) \<Rightarrow> string \<Rightarrow> Desire list \<Rightarrow> DeliberationIntention list \<Rightarrow> plans \<Rightarrow> plans" where
  "learn_plans tokens now ds is lib =
     fold (\<lambda>(d, i). learn_plan tokens now d i) (concat (map (\<lambda>d. map (Pair d) (filter (\<lambda>i. di_desire i = ds_id d) is)) ds)) lib"

definition bump_one :: "string \<Rightarrow> DeliberationIntention \<Rightarrow> Engine \<times> string list \<Rightarrow> Engine \<times> string list" where
  "bump_one now i s =
     (case s of (eg, ids) \<Rightarrow>
        (case engine_update now (di_desire i) (no_update\<lparr>up_eval := True, up_reasoning := ''Plan cache execution''\<rparr>) eg of
           (e, None) \<Rightarrow> (e, ids)
         | (e, Some _) \<Rightarrow> (e, ids @ [di_desire i])))"

definition persist_cycle :: "string \<Rightarrow> nat \<Rightarrow> DeliberationResult \<Rightarrow> Engine \<Rightarrow> Engine" where
  "persist_cycle status before r eg =
     eg\<lparr>eg_cycles := eg_cycles eg @ [\<lparr>bc_id = dr_id r, bc_status = status, bc_before = before,
        bc_active_after = (case dict_get (count_by_status (eg_store eg)) ACTIVE of None \<Rightarrow> 0 | Some n \<Rightarrow> n),
        bc_formed = length (dr_intentions r), bc_updated = dr_updated r, bc_model = dr_model r, bc_error = dr_error r\<rparr>]\<rparr>"

text \<open>What the rewards are computed from: the present state of the desires of the cycle and of those it updated.\<close>

definition desires_to_check :: "Desire list \<Rightarrow> string list \<Rightarrow> DesireStore \<Rightarrow> Desire list" where
  "desires_to_check ds ids st = List.map_filter (\<lambda>k. get_desire k st) (rev (remdups (rev (map ds_id ds @ ids))))"

definition update_utilities :: "string \<Rightarrow> (rat \<times> (Desire list \<Rightarrow> (string, rat) dict)) option \<Rightarrow> Desire list \<Rightarrow> string list \<Rightarrow> Engine \<Rightarrow> Engine" where
  "update_utilities now learning ds ids eg =
     (case learning of
        None \<Rightarrow> eg
      | Some (alpha, reflection) \<Rightarrow>
          let ds1 = desires_to_check ds ids (eg_store eg)
          in fold (\<lambda>(k, r) e. case List.find (\<lambda>d. ds_id d = k) ds1 of
                 None \<Rightarrow> e
               | Some d \<Rightarrow> fst (engine_update now k (no_update\<lparr>up_utility := Some (ds_utility d + alpha * (r - ds_utility d))\<rparr>) e))
               (merge_rewards (extract_status_rewards ds1) (reflection ds1)) eg)"

definition empty_result :: "string \<Rightarrow> nat \<Rightarrow> string \<Rightarrow> string \<Rightarrow> DeliberationResult" where
  "empty_result cid n why err = \<lparr>dr_id = cid, dr_evaluated = n, dr_intentions = [], dr_updated = [], dr_reasoning = why,
     dr_model = [], dr_error = err\<rparr>"

definition prioritize :: "bdi_env \<Rightarrow> string \<Rightarrow> Desire list \<Rightarrow> Desire list" where
  "prioritize env now ds =
     (case be_draw env of None \<Rightarrow> deterministic_order now ds | Some draw \<Rightarrow> stochastic_prioritize draw (be_limit env) now ds)"

text \<open>The end of a cycle that was not cut short.\<close>

definition finish_cycle ::
    "bdi_env \<Rightarrow> string \<Rightarrow> string \<Rightarrow> nat \<Rightarrow> Desire list \<Rightarrow> DeliberationIntention list \<Rightarrow> DeliberationIntention list \<Rightarrow> string
     \<Rightarrow> Engine \<times> string list \<Rightarrow> Engine \<times> DeliberationResult" where
  "finish_cycle env now cid before chosen cached llm why s =
     (case fold (bump_one now) cached s of
        (eg, ids) \<Rightarrow>
          let r = \<lparr>dr_id = cid, dr_evaluated = length chosen, dr_intentions = cached @ llm, dr_updated = ids,
                   dr_reasoning = why, dr_model = be_model env, dr_error = []\<rparr>
          in (update_utilities now (be_learning env) chosen ids (persist_cycle ''completed'' before r eg), r))"

text \<open>
  The cycle from the chosen desires on: the plan cache, the cron overrides, the language model. No result
  (\<open>None\<close>) is the \<^verbatim>\<open>TypeError\<close> of an entry that is no object: it leaves the cycle before any record is written
  and is caught by the loop that runs the cycles, with the plan hits and the cron switches made already.
\<close>

definition deliberate ::
    "bdi_env \<Rightarrow> string \<Rightarrow> string \<Rightarrow> nat \<Rightarrow> Desire list \<Rightarrow> (Desire list \<Rightarrow> string list \<Rightarrow> llm_reply) \<Rightarrow> Engine
     \<Rightarrow> Engine \<times> DeliberationResult option" where
  "deliberate env now cid before chosen reply eg =
     (case split_by_plan now chosen (eg_plans eg) of
        (lib, hits, rest) \<Rightarrow>
          let eg1 = eg\<lparr>eg_plans := lib\<rparr>;
              (eg2, over) = (case engine_bridge eg1 of
                 None \<Rightarrow> (eg1, [])
               | Some br \<Rightarrow> (case cron_overrides (failing_jobs br) chosen br of
                    (br1, is) \<Rightarrow> (eg1\<lparr>eg_links := Some (br_enabled br1, br_obs br1)\<rparr>, is)));
              cached = hits @ over
          in if rest = [] then map_prod id Some (finish_cycle env now cid before chosen cached [] [] (eg2, []))
             else
               (case reply rest (map rc_desire (list_resumable (eg_stack eg2))) of
                  ReplyFailed err \<Rightarrow>
                    let r = empty_result cid (length rest + length cached) [] err in (persist_cycle ''error'' 0 r eg2, Some r)
                | NoToolCalls \<Rightarrow>
                    let r = empty_result cid (length rest + length cached) ''LLM did not produce tool calls.'' []
                    in (persist_cycle ''completed'' 0 r eg2, Some r)
                | Decided dc \<Rightarrow>
                    (case parse_intentions (dc_intentions dc) of
                       None \<Rightarrow> (eg2, None)
                     | Some llm \<Rightarrow>
                         (case apply_decision now dc llm eg2 of
                            (eg3, ids) \<Rightarrow>
                              map_prod id Some (finish_cycle env now cid before chosen cached llm (dc_reasoning dc)
                                (eg3\<lparr>eg_plans := learn_plans (be_tokens env) now rest llm (eg_plans eg3)\<rparr>, ids))))))"

text \<open>What a cycle does before it looks at the desires.\<close>

definition prepare_cycle :: "bdi_env \<Rightarrow> string \<Rightarrow> Foresight list \<Rightarrow> Engine \<Rightarrow> Engine" where
  "prepare_cycle env now foresights eg =
     (let eg1 = check_resumptions now eg in
      if be_foresight env then eg1\<lparr>eg_store := sync_foresights now [] foresights (eg_store eg1)\<rparr> else eg1)"

definition run_cycle ::
    "bdi_env \<Rightarrow> bool \<Rightarrow> string \<Rightarrow> string \<Rightarrow> Foresight list \<Rightarrow> (Desire list \<Rightarrow> string list \<Rightarrow> llm_reply) \<Rightarrow> Engine
     \<Rightarrow> Engine \<times> DeliberationResult option" where
  "run_cycle env enabled now cid foresights reply eg =
     (if \<not> enabled
      then let r = empty_result cid 0 ''Engine disabled.'' [] in (persist_cycle ''skipped'' 0 r eg, Some r)
      else
        let eg2 = prepare_cycle env now foresights eg; desires = list_deliberable (eg_store eg2)
        in if desires = []
           then let r = empty_result cid 0 ''No active desires to evaluate.'' [] in (persist_cycle ''skipped'' 0 r eg2, Some r)
           else deliberate env now cid (length desires) (take (be_limit env) (prioritize env now desires)) reply eg2)"

section \<open>The watcher\<close>

datatype BeliefChangeSeverity = SevLow | SevMedium | SevHigh | SevCritical

record BeliefChangeEvent =
  ev_source :: string
  ev_key :: string
  ev_severity :: BeliefChangeSeverity
  ev_reason :: string

definition is_critical :: "BeliefChangeEvent \<Rightarrow> bool" where
  "is_critical e = (ev_severity e = SevCritical \<or> ev_severity e = SevHigh)"

record Watcher =
  wa_running :: bool
  wa_last :: int
  wa_pending :: "BeliefChangeEvent list"

text \<open>The answer tells whether a deliberation was triggered; the events that came in meanwhile are dropped with the queue.\<close>

definition on_belief_changed :: "int \<Rightarrow> int \<Rightarrow> BeliefChangeEvent \<Rightarrow> Watcher \<Rightarrow> Watcher \<times> bool" where
  "on_belief_changed cooldown now e w =
     (if \<not> wa_running w \<or> \<not> is_critical e then (w, False)
      else if now - wa_last w < cooldown then (w\<lparr>wa_pending := wa_pending w @ [e]\<rparr>, False)
      else (w\<lparr>wa_last := now, wa_pending := []\<rparr>, True))"

end
