(* ===== verification/BdiLife.thy ===== *)
theory BdiLife
  imports Deliberation
begin

text \<open>
  What the cycles of the deliberation engine do: to the desires (every change follows the status table, and a
  pending desire is never acted on), to the intention stack (it is what a restart reads back), to the audit
  log, and how desires are chosen.
\<close>

section \<open>A cycle is made of small steps\<close>

text \<open>The changes that a cycle is composed of; a desire is activated only when it is suspended.\<close>

inductive micro_step :: "Engine \<Rightarrow> Engine \<Rightarrow> bool" where
  micro_update: "update_desire now did u (eg_store eg) = Inr (s, r) \<Longrightarrow>
     (up_status u = Some ACTIVE \<Longrightarrow> \<exists>d. get_desire did (eg_store eg) = Some d \<and> ds_status d = SUSPENDED) \<Longrightarrow>
     micro_step eg (eg\<lparr>eg_store := s\<rparr>)"
| micro_add: "add_desire d (eg_store eg) = Inr s \<Longrightarrow> desire_wf d \<Longrightarrow> ds_status d = PENDING \<Longrightarrow> micro_step eg (eg\<lparr>eg_store := s\<rparr>)"
| micro_push: "stack_push f (eg_stack eg) = Some fs \<Longrightarrow> micro_step eg (persist_stack (eg\<lparr>eg_stack := fs\<rparr>))"
| micro_pop: "micro_step eg (pop_and_persist eg)"
| micro_other: "eg_store e = eg_store eg \<Longrightarrow> eg_stack e = eg_stack eg \<Longrightarrow> eg_stack_file e = eg_stack_file eg \<Longrightarrow> micro_step eg e"

abbreviation micros :: "Engine \<Rightarrow> Engine \<Rightarrow> bool" where
  "micros \<equiv> micro_step\<^sup>*\<^sup>*"

lemma engine_update_micros:
  "engine_update now did u eg = (e, r) \<Longrightarrow> up_status u \<noteq> Some ACTIVE \<Longrightarrow> micros eg e"
  by (auto simp: engine_update_def split: sum.splits prod.splits intro!: r_into_rtranclp micro_update)

lemma fold_micros:
  assumes "\<And>x s. x \<in> set xs \<Longrightarrow> micros (f s) (f (g x s))"
  shows "micros (f s) (f (fold g xs s))"
  using assms
proof (induction xs arbitrary: s)
  case (Cons x xs)
  have "micros (f s) (f (g x s))" by (rule Cons.prems) simp
  moreover have "micros (f (g x s)) (f (fold g xs (g x s)))" by (rule Cons.IH) (rule Cons.prems, simp)
  ultimately show ?case by simp
qed simp

lemma resume_one_micros: "micros eg (resume_one now did eg)"
proof (cases "get_desire did (eg_store eg)")
  case None
  then show ?thesis by (auto simp: resume_one_def intro: r_into_rtranclp micro_pop)
next
  case (Some d)
  show ?thesis
  proof (cases "ds_status d = SUSPENDED \<and> dependencies_met (eg_store eg) d")
    case False
    with Some show ?thesis by (auto simp: resume_one_def)
  next
    case True
    show ?thesis
    proof (cases "update_desire now did (set_status ACTIVE ''Resumed from IntentionStack'') (eg_store eg)")
      case (Inl e)
      with Some True show ?thesis by (simp add: resume_one_def)
    next
      case (Inr p)
      obtain s r where p: "p = (s, r)" by (rule prod.exhaust)
      have "micro_step eg (eg\<lparr>eg_store := s\<rparr>)"
        by (rule micro_update [OF Inr [unfolded p]]) (use Some True in simp)
      moreover have "micro_step (eg\<lparr>eg_store := s\<rparr>) (pop_and_persist (eg\<lparr>eg_store := s\<rparr>))" by (rule micro_pop)
      ultimately have "micros eg (pop_and_persist (eg\<lparr>eg_store := s\<rparr>))" by (meson r_into_rtranclp rtranclp_trans)
      with Some True Inr p show ?thesis by (simp add: resume_one_def)
    qed
  qed
qed

lemma check_resumptions_micros: "micros eg (check_resumptions now eg)"
  unfolding check_resumptions_def by (rule fold_micros [where f = "\<lambda>e. e"]) (rule resume_one_micros)

lemma sync_micros: "micros (eg\<lparr>eg_store := st\<rparr>) (eg\<lparr>eg_store := sync_foresights now known fs st\<rparr>)"
proof (induction now known fs st rule: sync_foresights.induct)
  case (2 now known f fs st)
  let ?d = "new_desire (''desire_fs_'' @ fo_id f) (fo_owner f) (fo_session f) (fo_content f) now (fo_end f) (Some (fo_id f))"
  show ?case
  proof (cases "add_desire ?d st")
    case (Inl e)
    with 2 show ?thesis by simp
  next
    case (Inr s)
    have "micro_step (eg\<lparr>eg_store := st\<rparr>) ((eg\<lparr>eg_store := st\<rparr>)\<lparr>eg_store := s\<rparr>)"
      by (rule micro_add [OF _ new_desire_wf]) (use Inr in \<open>simp_all add: new_desire_def\<close>)
    with 2 Inr show ?thesis by (auto intro: converse_rtranclp_into_rtranclp)
  qed
qed simp

lemma status_of_updates [simp]:
  "up_status (set_status s why) = Some s" "up_status (no_update\<lparr>up_eval := b, up_reasoning := why\<rparr>) = None"
  "up_status (no_update\<lparr>up_utility := v\<rparr>) = None"
  by (simp_all add: set_status_def no_update_def)

lemma satisfy_micros: "micros (fst s) (fst (satisfy_one now why did s))"
proof -
  obtain eg ids where s: "s = (eg, ids)" by (rule prod.exhaust)
  obtain e r where r: "engine_update now did (set_status SATISFIED why) eg = (e, r)" by (rule prod.exhaust)
  have "micros eg e" by (rule engine_update_micros [OF r]) simp
  then show ?thesis using micro_pop [of e] by (auto simp: satisfy_one_def s r split: option.splits intro: rtranclp.rtrancl_into_rtrancl)
qed

lemma suspend_micros: "micros (fst s) (fst (suspend_one now why is did s))"
proof -
  obtain eg ids where s: "s = (eg, ids)" by (rule prod.exhaust)
  obtain e r where r: "engine_update now did (set_status SUSPENDED why) eg = (e, r)" by (rule prod.exhaust)
  have e: "micros eg e" by (rule engine_update_micros [OF r]) simp
  have "micros eg (persist_stack (e\<lparr>eg_stack := fs\<rparr>))" if "stack_push f (eg_stack e) = Some fs" for f fs
    by (rule rtranclp.rtrancl_into_rtrancl [OF e micro_push [OF that]])
  with e show ?thesis by (auto simp: suspend_one_def s r split: option.splits)
qed

lemma cancel_micros: "micros (fst s) (fst (cancel_one now why did s))"
  by (auto simp: cancel_one_def split: prod.splits option.splits intro: engine_update_micros)

lemma bump_micros: "micros (fst s) (fst (bump_one now i s))"
  by (auto simp: bump_one_def split: prod.splits option.splits intro: engine_update_micros)

lemma apply_decision_micros: "micros eg (fst (apply_decision now dc is eg))"
proof -
  let ?why = "dc_reasoning dc"
  let ?a = "fold (satisfy_one now ?why) (dc_satisfy dc) (eg, [])"
  let ?b = "fold (suspend_one now ?why is) (dc_suspend dc) ?a"
  have "micros (fst (eg, [] :: string list)) (fst ?a)" by (rule fold_micros [where f = fst]) (rule satisfy_micros)
  moreover have "micros (fst ?a) (fst ?b)" by (rule fold_micros [where f = fst]) (rule suspend_micros)
  moreover have "micros (fst ?b) (fst (fold (cancel_one now ?why) (dc_cancel dc) ?b))" by (rule fold_micros [where f = fst]) (rule cancel_micros)
  ultimately show ?thesis unfolding apply_decision_def Let_def by simp
qed

lemma update_utilities_micros: "micros eg (update_utilities now learning ds ids eg)"
proof (cases learning)
  case (Some p)
  obtain alpha reflection where p: "p = (alpha, reflection)" by (rule prod.exhaust)
  have one: "micros e (fst (engine_update now k (no_update\<lparr>up_utility := v\<rparr>) e))" for k v e
    by (cases "engine_update now k (no_update\<lparr>up_utility := v\<rparr>) e") (auto intro: engine_update_micros)
  show ?thesis unfolding Some p update_utilities_def option.case prod.case Let_def
    by (rule fold_micros [where f = "\<lambda>e. e"]) (auto simp: one split: prod.splits option.splits)
qed (simp add: update_utilities_def)

lemma persist_cycle_micro: "micro_step eg (persist_cycle status n r eg)"
  by (rule micro_other) (simp_all add: persist_cycle_def)

lemma finish_micros: "micros (fst s) (fst (finish_cycle env now cid before chosen cached llm why s))"
proof -
  obtain eg ids where f: "fold (bump_one now) cached s = (eg, ids)" by (rule prod.exhaust)
  have "micros (fst s) (fst (fold (bump_one now) cached s))" by (rule fold_micros [where f = fst]) (rule bump_micros)
  then have m: "micros (fst s) (persist_cycle status n r eg)" for status n r
    using f persist_cycle_micro by (auto intro: rtranclp.rtrancl_into_rtrancl)
  show ?thesis unfolding finish_cycle_def f prod.case Let_def fst_conv
    by (rule rtranclp_trans [OF m update_utilities_micros])
qed

lemma deliberate_micros: "micros eg (fst (deliberate env now cid before chosen reply eg))"
proof -
  obtain lib hits rest where s: "split_by_plan now chosen (eg_plans eg) = (lib, hits, rest)" by (rule prod_cases3)
  let ?o = "case engine_bridge (eg\<lparr>eg_plans := lib\<rparr>) of
                 None \<Rightarrow> (eg\<lparr>eg_plans := lib\<rparr>, [])
               | Some br \<Rightarrow> (case cron_overrides (failing_jobs br) chosen br of
                    (br1, is) \<Rightarrow> ((eg\<lparr>eg_plans := lib\<rparr>)\<lparr>eg_links := Some (br_enabled br1, br_obs br1)\<rparr>, is))"
  obtain eg2 over where o: "?o = (eg2, over)" by (rule prod.exhaust)
  have "eg_store eg2 = eg_store eg" "eg_stack eg2 = eg_stack eg" "eg_stack_file eg2 = eg_stack_file eg"
    using o by (auto split: option.splits prod.splits)
  then have 2: "micros eg eg2" by (intro r_into_rtranclp micro_other)
  have fin: "micros eg2 (fst (finish_cycle env now cid before chosen c l w (eg2, [])))" for c l w
    using finish_micros [of "(eg2, [])"] by simp
  have dec: "micros eg2 (fst (finish_cycle env now cid before chosen c l w
       ((fst (apply_decision now dc l eg2))\<lparr>eg_plans := p (fst (apply_decision now dc l eg2))\<rparr>, ids)))" for c l w dc p ids
  proof -
    let ?e3 = "fst (apply_decision now dc l eg2)"
    have "micros eg2 ?e3" by (rule apply_decision_micros)
    moreover have "micro_step ?e3 (?e3\<lparr>eg_plans := p ?e3\<rparr>)" by (rule micro_other) simp_all
    moreover have "micros (?e3\<lparr>eg_plans := p ?e3\<rparr>) (fst (finish_cycle env now cid before chosen c l w (?e3\<lparr>eg_plans := p ?e3\<rparr>, ids)))"
      using finish_micros [of "(?e3\<lparr>eg_plans := p ?e3\<rparr>, ids)"] by simp
    ultimately show ?thesis by (meson rtranclp.rtrancl_into_rtrancl rtranclp_trans)
  qed
  have "micros eg2 (fst (deliberate env now cid before chosen reply eg))"
    unfolding deliberate_def s prod.case Let_def o
    using fin dec persist_cycle_micro
    by (auto simp: case_prod_beta split: llm_reply.splits option.splits)
  with 2 show ?thesis by (rule rtranclp_trans)
qed

lemma prepare_micros: "micros eg (prepare_cycle env now foresights eg)"
proof -
  define eg1 where "eg1 = check_resumptions now eg"
  have "micros eg eg1" unfolding eg1_def by (rule check_resumptions_micros)
  moreover have "micros eg1 (eg1\<lparr>eg_store := sync_foresights now [] foresights (eg_store eg1)\<rparr>)"
    using sync_micros [where eg = eg1 and st = "eg_store eg1"] by simp
  ultimately show ?thesis by (auto simp: prepare_cycle_def Let_def eg1_def [symmetric])
qed

lemma run_cycle_micros: "micros eg (fst (run_cycle env enabled now cid foresights reply eg))"
proof (cases enabled)
  case False
  then show ?thesis using persist_cycle_micro by (auto simp: run_cycle_def Let_def)
next
  case True
  define eg2 where "eg2 = prepare_cycle env now foresights eg"
  have "micros eg2 (fst (run_cycle env enabled now cid foresights reply eg))"
    using True deliberate_micros persist_cycle_micro by (auto simp: run_cycle_def Let_def eg2_def [symmetric])
  with prepare_micros show ?thesis unfolding eg2_def by (rule rtranclp_trans)
qed

section \<open>Runs of the engine\<close>

text \<open>Cycles, restarts, and new desires from elsewhere (conversations, the cron bridge).\<close>

inductive engine_step :: "bdi_env \<Rightarrow> Engine \<Rightarrow> Engine \<Rightarrow> bool" for env where
  engine_cycle: "engine_step env eg (fst (run_cycle env enabled now cid foresights reply eg))"
| engine_restart: "engine_step env eg (engine_start eg)"
| engine_new: "add_desire d (eg_store eg) = Inr s \<Longrightarrow> desire_wf d \<Longrightarrow> ds_status d = PENDING \<Longrightarrow> engine_step env eg (eg\<lparr>eg_store := s\<rparr>)"

definition stack_ok :: "Engine \<Rightarrow> bool" where
  "stack_ok eg = (length (eg_stack eg) \<le> MAX_DEPTH \<and> (case eg_stack_file eg of None \<Rightarrow> eg_stack eg = [] | Some fs \<Rightarrow> fs = eg_stack eg))"

definition engine_ok :: "Engine \<Rightarrow> bool" where
  "engine_ok eg = (store_inv (eg_store eg) \<and> stack_ok eg)"

lemma stack_ok_start: "stack_ok eg \<Longrightarrow> engine_start eg = eg"
  by (auto simp: stack_ok_def engine_start_def split: option.splits)

lemma micro_store: "micro_step eg e \<Longrightarrow> desire_step\<^sup>*\<^sup>* (eg_store eg) (eg_store e)"
  by (erule micro_step.cases)
    (auto simp: persist_stack_def pop_and_persist_def intro: r_into_rtranclp step_update step_add)

lemma micro_stack_ok: "micro_step eg e \<Longrightarrow> stack_ok eg \<Longrightarrow> stack_ok e"
  by (erule micro_step.cases)
    (auto simp: stack_ok_def persist_stack_def pop_and_persist_def stack_push_def stack_pop_def split: if_splits option.splits)

interpretation engine: safe_system engine_ok micro_step engine_ok
proof unfold_locales
  show "engine_ok e" if "engine_ok eg" and "micro_step eg e" for eg e
    using that desires.steps_inv [OF micro_store] micro_stack_ok by (auto simp: engine_ok_def)
qed

lemma engine_step_micros: "engine_step env eg e \<Longrightarrow> engine_ok eg \<Longrightarrow> micros eg e"
  by (erule engine_step.cases) (auto simp: stack_ok_start engine_ok_def intro: run_cycle_micros r_into_rtranclp micro_add)

lemma engine_run:
  assumes "(engine_step env)\<^sup>*\<^sup>* eg e" and "engine_ok eg"
  shows "micros eg e \<and> engine_ok e"
  using assms(1)
proof (induction rule: rtranclp_induct)
  case base
  then show ?case using assms(2) by simp
next
  case (step y z)
  then have "micros y z" by (intro engine_step_micros) auto
  with step show ?case using engine.steps_inv by (meson rtranclp_trans)
qed

lemma micros_store: "micros eg e \<Longrightarrow> desire_step\<^sup>*\<^sup>* (eg_store eg) (eg_store e)"
proof (induction rule: rtranclp_induct)
  case (step y z)
  with micro_store show ?case by (meson rtranclp_trans)
qed simp

definition asleep :: "string \<Rightarrow> Engine \<Rightarrow> bool" where
  "asleep k eg = (\<exists>d. desires_of (eg_store eg) k = Some d \<and> (ds_status d = PENDING \<or> ds_status d = CANCELLED))"

lemma micro_asleep:
  assumes "micro_step eg e" and "store_ok (eg_store eg)" and "asleep k eg"
  shows "asleep k e"
  using assms(1)
proof (cases rule: micro_step.cases)
  case (micro_update now did u s r)
  show ?thesis
  proof (cases rule: update_cases [OF assms(2) micro_update(2)])
    case 1
    with assms(3) micro_update show ?thesis by (simp add: asleep_def)
  next
    case (2 c c1)
    show ?thesis
    proof (cases "k = did")
      case False
      with 2 assms(3) micro_update show ?thesis by (auto simp: asleep_def)
    next
      case True
      with assms(3) 2 have c: "ds_status c = PENDING \<or> ds_status c = CANCELLED" by (simp add: asleep_def)
      have "up_status u \<noteq> Some ACTIVE"
        using micro_update(3) 2(2) c by (auto simp: desires_of_def)
      with updated_status(1) [OF 2(3)] c have "ds_status c1 = PENDING \<or> ds_status c1 = CANCELLED"
        by (auto simp: status_step_simps split: option.splits)
      with 2 True micro_update assms(3) show ?thesis by (auto simp: asleep_def)
    qed
  qed
next
  case (micro_add d s)
  with add_cases(2) [OF assms(2) micro_add(2)] add_cases(1) [OF assms(2) micro_add(2)] assms(3) show ?thesis
    by (auto simp: asleep_def)
qed (use assms(3) in \<open>simp_all add: asleep_def persist_stack_def pop_and_persist_def\<close>)

lemma micros_asleep: "micros eg e \<Longrightarrow> engine_ok eg \<Longrightarrow> asleep k eg \<Longrightarrow> asleep k e"
proof (induction rule: rtranclp_induct)
  case (step y z)
  have "engine_ok y" using engine.steps_inv step by blast
  then show ?case using step micro_asleep by (simp add: engine_ok_def store_inv_def)
qed simp

text \<open>
  C18. On either back end (the JSONL file, or the SQLite table that the host wires), for an engine whose stored
  desires are well-formed and whose stack is the one in its file (\<open>engine_ok\<close>, which every step keeps): whatever
  the language model decides, in however many cycles, restarts and with whatever new desires, every
  desire that can be read stays in the store and its status moves along the table, satisfied and cancelled ones stay as they
  are; and a desire that is pending is never activated, suspended or satisfied by the engine: it stays pending
  until it is cancelled, since only suspended desires are activated and only active ones can be suspended or
  satisfied.
\<close>

theorem pending_never_satisfied:
  assumes "engine_ok eg" and "(engine_step env)\<^sup>*\<^sup>* eg e" and "desires_of (eg_store eg) k = Some d"
  shows "\<exists>c. desires_of (eg_store e) k = Some c \<and> desire_wf c \<and> status_step\<^sup>*\<^sup>* (ds_status d) (ds_status c) \<and>
    (is_terminal d \<longrightarrow> ds_status c = ds_status d \<and> ds_satisfied c = ds_satisfied d) \<and>
    (ds_status d = PENDING \<longrightarrow> ds_status c = PENDING \<or> ds_status c = CANCELLED)"
proof -
  have run: "micros eg e" "engine_ok e" using engine_run [OF assms(2,1)] by simp_all
  have inv: "store_inv (eg_store eg)" "store_inv (eg_store e)" using assms(1) run(2) by (simp_all add: engine_ok_def)
  obtain c where c: "desires_of (eg_store e) k = Some c" "status_step\<^sup>*\<^sup>* (ds_status d) (ds_status c)"
    "is_terminal d \<longrightarrow> ds_satisfied c = ds_satisfied d"
    using steps_keep [OF micros_store [OF run(1)] inv(1) assms(3)] by blast
  have "ds_status c = PENDING \<or> ds_status c = CANCELLED" if "ds_status d = PENDING"
    using micros_asleep [OF run(1) assms(1), of k] that assms(3) c(1) by (simp add: asleep_def)
  moreover have "ds_status c = ds_status d" if "is_terminal d"
    using terminal_stays [OF c(2)] that by (auto simp: is_terminal_def)
  moreover have "desire_wf c" using inv(2) c(1) by (simp add: store_inv_def)
  ultimately show ?thesis using c by blast
qed

text \<open>
  A restart loses no suspended intention: after any cycles, restarts and new desires the stack holds at most
  ten frames and the file has exactly the frames in memory, so that starting again changes nothing.
\<close>

theorem stack_survives_restart:
  assumes "engine_ok eg" and "(engine_step env)\<^sup>*\<^sup>* eg e"
  shows "length (eg_stack e) \<le> MAX_DEPTH \<and> engine_start e = e \<and> (eg_stack e \<noteq> [] \<longrightarrow> eg_stack_file e = Some (eg_stack e))"
proof -
  have "stack_ok e" using engine_run [OF assms(2,1)] by (simp add: engine_ok_def)
  then show ?thesis using stack_ok_start by (auto simp: stack_ok_def split: option.splits)
qed

definition example_engine :: Engine where
  "example_engine = \<lparr>eg_store = example_store, eg_stack = [], eg_stack_file = None, eg_plans = [], eg_cycles = [], eg_links = None\<rparr>"

definition example_bdi :: bdi_env where
  "example_bdi = \<lparr>be_limit = 10, be_foresight = True, be_model = ''m'', be_tokens = (\<lambda>s. []), be_draw = None, be_learning = None\<rparr>"

text \<open>A model that declares every desire satisfied.\<close>

definition satisfy_everything :: "Desire list \<Rightarrow> string list \<Rightarrow> llm_reply" where
  "satisfy_everything ds ids = Decided \<lparr>dc_reasoning = ''done'', dc_intentions = [], dc_satisfy = map ds_id ds, dc_suspend = [], dc_cancel = []\<rparr>"

definition example_cycle :: "Engine \<times> DeliberationResult option" where
  "example_cycle = run_cycle example_bdi True ''t1'' ''c1'' [] satisfy_everything example_engine"

lemma example_engine_ok: "engine_ok example_engine"
  using desires.start_inv [OF example_store_start] by (simp add: engine_ok_def example_engine_def stack_ok_def MAX_DEPTH_def)

lemma example_cycle_step: "(engine_step example_bdi)\<^sup>*\<^sup>* example_engine (fst example_cycle)"
  unfolding example_cycle_def by (intro r_into_rtranclp engine_cycle)

theorem pending_never_satisfied_witness:
  "\<exists>c. desires_of (eg_store (fst example_cycle)) ''d'' = Some c \<and> ds_status c \<noteq> SATISFIED"
proof -
  have d: "desires_of (eg_store example_engine) ''d'' = Some example_desire" "ds_status example_desire = PENDING"
    by (simp_all add: example_engine_def example_store_holds example_desire_def new_desire_def)
  from pending_never_satisfied [OF example_engine_ok example_cycle_step d(1)] d(2) show ?thesis by auto
qed

theorem stack_survives_restart_witness: "engine_start (fst example_cycle) = fst example_cycle"
  using stack_survives_restart [OF example_engine_ok example_cycle_step] by blast

end
