(* ===== verification/BdiCycle.thy ===== *)
theory BdiCycle
  imports BdiLife
begin

text \<open>
  The account that a cycle gives of itself: where its intentions come from and what it logs. Then the cases in
  which the stack, the foresights and the cron overrides do not do what the comments promise.
\<close>

section \<open>What a cycle leaves alone\<close>

definition same_log :: "Engine \<Rightarrow> Engine \<Rightarrow> bool" where
  "same_log eg e = (eg_cycles e = eg_cycles eg \<and> eg_plans e = eg_plans eg)"

lemma same_log_refl [simp]: "same_log eg eg"
  by (simp add: same_log_def)

lemma same_log_trans: "same_log a b \<Longrightarrow> same_log b c \<Longrightarrow> same_log a c"
  by (simp add: same_log_def)

lemma fold_same_log:
  assumes "\<And>x s. same_log (f s) (f (g x s))"
  shows "same_log (f s) (f (fold g xs s))"
  by (induction xs arbitrary: s) (auto intro: same_log_trans assms)

lemma engine_update_log: "same_log eg (fst (engine_update now did u eg))"
  by (simp add: engine_update_def same_log_def split: sum.splits prod.splits)

lemma engine_update_log': "engine_update now did u eg = (e, r) \<Longrightarrow> same_log eg e"
  using engine_update_log [of eg now did u] by simp

lemma persist_log [simp]:
  "same_log eg (pop_and_persist e) = same_log eg e" "same_log eg (persist_stack e) = same_log eg e"
  "same_log eg (e\<lparr>eg_store := s\<rparr>) = same_log eg e" "same_log eg (e\<lparr>eg_stack := fs\<rparr>) = same_log eg e"
  by (simp_all add: same_log_def pop_and_persist_def persist_stack_def)

lemma prepare_log: "same_log eg (prepare_cycle env now foresights eg)"
proof -
  have "same_log e (resume_one now did e)" for did e
    by (auto simp: resume_one_def split: option.splits sum.splits)
  then have "same_log eg (check_resumptions now eg)"
    unfolding check_resumptions_def by (rule fold_same_log [where f = "\<lambda>e. e"])
  then show ?thesis by (simp add: prepare_cycle_def Let_def)
qed

lemma bump_log: "same_log (fst s) (fst (bump_one now i s))"
  by (auto simp: bump_one_def split: prod.splits option.splits dest: engine_update_log')

lemma apply_decision_log: "same_log eg (fst (apply_decision now dc is eg))"
proof -
  let ?why = "dc_reasoning dc"
  have a: "same_log (fst s) (fst (satisfy_one now ?why did s))" "same_log (fst s) (fst (suspend_one now ?why is did s))"
    "same_log (fst s) (fst (cancel_one now ?why did s))" for did and s :: "Engine \<times> string list"
    by (auto simp: satisfy_one_def suspend_one_def cancel_one_def split: prod.splits option.splits dest: engine_update_log')
  let ?a = "fold (satisfy_one now ?why) (dc_satisfy dc) (eg, [])"
  let ?b = "fold (suspend_one now ?why is) (dc_suspend dc) ?a"
  have "same_log (fst (eg, [] :: string list)) (fst ?a)" by (rule fold_same_log [where f = fst]) (rule a)
  moreover have "same_log (fst ?a) (fst ?b)" by (rule fold_same_log [where f = fst]) (rule a)
  moreover have "same_log (fst ?b) (fst (fold (cancel_one now ?why) (dc_cancel dc) ?b))" by (rule fold_same_log [where f = fst]) (rule a)
  ultimately show ?thesis unfolding apply_decision_def Let_def by (auto intro: same_log_trans)
qed

lemma update_utilities_log: "eg_cycles (update_utilities now learning ds ids eg) = eg_cycles eg"
proof (cases learning)
  case (Some p)
  obtain alpha reflection where p: "p = (alpha, reflection)" by (rule prod.exhaust)
  have "same_log eg (update_utilities now learning ds ids eg)"
    unfolding Some p update_utilities_def option.case prod.case Let_def
    by (rule fold_same_log [where f = "\<lambda>e. e"]) (auto simp: engine_update_log split: prod.splits option.splits)
  then show ?thesis by (simp add: same_log_def)
qed (simp add: update_utilities_def)

section \<open>Where intentions come from\<close>

text \<open>A cached plan whose keywords occur in the desire, carried out as it was learnt.\<close>

definition from_plan :: "plans \<Rightarrow> Desire \<Rightarrow> DeliberationIntention \<Rightarrow> bool" where
  "from_plan lib d i = (\<exists>p \<in> snd ` set lib. di_desire i = ds_id d \<and> di_action i = pt_action p \<and> di_scope i = pt_scope p \<and>
     di_payload i = pt_payload p \<and> di_risk i = ''low'' \<and> matched_keywords (py_lower (ds_content d)) p \<noteq> [])"

definition same_plan :: "PlanTemplate \<Rightarrow> PlanTemplate \<Rightarrow> bool" where
  "same_plan p q = (pt_action p = pt_action q \<and> pt_scope p = pt_scope q \<and> pt_payload p = pt_payload q \<and> pt_keywords p = pt_keywords q)"

lemma best_match_found:
  assumes "fold (better_match text) ps best = Some (p, c, m)" and "\<And>q d ks. best = Some (q, d, ks) \<Longrightarrow> q \<in> P \<and> matched_keywords text q \<noteq> []"
    and "set ps \<subseteq> P"
  shows "p \<in> P \<and> matched_keywords text p \<noteq> []"
  using assms
proof (induction ps arbitrary: best)
  case (Cons q ps)
  show ?case
  proof (rule Cons.IH [of "better_match text q best"])
    show "fold (better_match text) ps (better_match text q best) = Some (p, c, m)" using Cons.prems(1) by simp
    show "q' \<in> P \<and> matched_keywords text q' \<noteq> []" if "better_match text q best = Some (q', d, ks)" for q' d ks
      using that Cons.prems(2,3) by (auto simp: better_match_def Let_def split: if_splits option.splits prod.splits)
  qed (use Cons.prems(3) in simp)
qed auto

lemma match_plan_result:
  assumes "match_plan now d lib = (lib1, r)"
  shows "(\<forall>q \<in> snd ` set lib1. \<exists>p \<in> snd ` set lib. same_plan p q) \<and>
    (\<forall>m. r = Some m \<longrightarrow> (\<exists>p \<in> snd ` set lib. same_plan p (pm_plan m) \<and> matched_keywords (py_lower (ds_content d)) p \<noteq> []))"
proof (cases "fold (better_match (py_lower (ds_content d))) (map snd lib) None")
  case None
  with assms show ?thesis by (auto simp: match_plan_def same_plan_def)
next
  case (Some x)
  obtain p c m where x: "x = (p, c, m)" by (rule prod_cases3)
  have p: "p \<in> snd ` set lib" "matched_keywords (py_lower (ds_content d)) p \<noteq> []"
    using best_match_found [OF Some [unfolded x], of "snd ` set lib"] by auto
  have inc: "same_plan p (increment_hit now p)" by (simp add: same_plan_def increment_hit_def)
  have upd: "\<exists>p' \<in> snd ` set lib. same_plan p' q" if "q \<in> snd ` set (dict_set k (increment_hit now p) lib)" for k q
  proof -
    have "q = increment_hit now p \<or> q \<in> snd ` set lib"
      using that by (induction lib) (auto split: if_splits)
    with p inc show ?thesis by (auto simp: same_plan_def)
  qed
  show ?thesis
  proof (cases "c < MIN_CONFIDENCE")
    case True
    with assms Some x show ?thesis by (auto simp: match_plan_def same_plan_def)
  next
    case False
    with assms Some x have "lib1 = dict_set (pt_id (increment_hit now p)) (increment_hit now p) lib" "\<exists>pm. r = Some pm \<and> pm_plan pm = increment_hit now p"
      by (auto simp: match_plan_def Let_def)
    with upd p inc show ?thesis by (metis option.inject)
  qed
qed

lemma split_by_plan_result:
  "split_by_plan now ds lib = (lib2, hits, rest) \<Longrightarrow>
   set rest \<subseteq> set ds \<and> length hits + length rest = length ds \<and> (\<forall>i \<in> set hits. \<exists>d \<in> set ds. from_plan lib d i)"
proof (induction now ds lib arbitrary: lib2 hits rest rule: split_by_plan.induct)
  case (2 now d ds lib)
  obtain lib1 r where m: "match_plan now d lib = (lib1, r)" by (rule prod.exhaust)
  obtain l2 h t where s: "split_by_plan now ds lib1 = (l2, h, t)" by (rule prod_cases3)
  note mr = match_plan_result [OF m]
  have h: "\<exists>e \<in> set (d # ds). from_plan lib e i" if "i \<in> set h" for i
  proof -
    from 2(1) [OF m [symmetric] s] that obtain e where "e \<in> set ds" "from_plan lib1 e i" by blast
    with mr show ?thesis by (fastforce simp: from_plan_def same_plan_def matched_keywords_def)
  qed
  show ?case
  proof (cases r)
    case None
    with 2(1) [OF m [symmetric] s] 2(2) m s h show ?thesis by auto
  next
    case (Some pm)
    with mr obtain p where "p \<in> snd ` set lib" "same_plan p (pm_plan pm)" "matched_keywords (py_lower (ds_content d)) p \<noteq> []" by blast
    then have "from_plan lib d (cached_intention d pm)" unfolding from_plan_def by (intro bexI [of _ p]) (simp_all add: cached_intention_def same_plan_def)
    moreover from Some 2(2) m s have "hits = cached_intention d pm # h" "rest = t" by auto
    ultimately show ?thesis using 2(1) [OF m [symmetric] s] h by (metis list.set_intros(1) set_ConsD length_Cons add_Suc set_subset_Cons subset_trans)
  qed
qed simp

lemma cron_overrides_result:
  "i \<in> set (snd (cron_overrides js ds br)) \<Longrightarrow>
   \<exists>job d n. (job, ds_id d, n) \<in> set js \<and> 3 \<le> n \<and> d \<in> set ds \<and> i = override_intention job n d"
proof (induction js ds br rule: cron_overrides.induct)
  case (2 job did n js ds br)
  show ?case
  proof (cases "if 3 \<le> n then List.find (\<lambda>d. ds_id d = did) ds else None")
    case None
    with 2 show ?thesis by (force split: if_splits)
  next
    case (Some d)
    then have d: "3 \<le> n" "ds_id d = did" "d \<in> set ds" by (auto split: if_splits dest: find_SomeD)
    with Some 2 show ?thesis by (auto split: prod.splits)
  qed
qed simp

text \<open>A cron override: a linked job that failed three times or more, whose desire is deliberated.\<close>

definition from_override :: "Engine \<Rightarrow> Desire \<Rightarrow> DeliberationIntention \<Rightarrow> bool" where
  "from_override eg d i = (\<exists>br job n. engine_bridge eg = Some br \<and> (job, ds_id d, n) \<in> set (failing_jobs br) \<and> 3 \<le> n \<and>
     i = override_intention job n d)"

definition logged :: "string \<Rightarrow> DeliberationResult \<Rightarrow> Engine \<Rightarrow> Engine \<Rightarrow> bool" where
  "logged cid r eg e = (\<exists>b. eg_cycles e = eg_cycles eg @ [b] \<and> bc_id b = cid \<and> dr_id r = cid \<and> bc_formed b = length (dr_intentions r) \<and>
     bc_updated b = dr_updated r \<and> bc_error b = dr_error r)"

lemma persist_logged: "dr_id r = cid \<Longrightarrow> eg_cycles e0 = eg_cycles eg \<Longrightarrow> logged cid r eg (persist_cycle status n r e0)"
  by (simp add: logged_def persist_cycle_def)

lemma empty_result_fields [simp]:
  "dr_id (empty_result cid n why err) = cid" "dr_intentions (empty_result cid n why err) = []"
  by (simp_all add: empty_result_def)

lemma finish_result:
  assumes "finish_cycle env now cid before chosen cached llm why (eg0, ids) = (e, r)" and "eg_cycles eg0 = eg_cycles eg"
  shows "logged cid r eg e \<and> dr_intentions r = cached @ llm \<and> dr_evaluated r = length chosen"
proof -
  obtain eg1 ids1 where f: "fold (bump_one now) cached (eg0, ids) = (eg1, ids1)" by (rule prod.exhaust)
  have "same_log (fst (eg0, ids)) (fst (fold (bump_one now) cached (eg0, ids)))" by (rule fold_same_log [where f = fst]) (rule bump_log)
  then have c: "eg_cycles eg1 = eg_cycles eg" using f assms(2) by (simp add: same_log_def)
  show ?thesis using assms(1) c
    by (auto simp: finish_cycle_def f Let_def logged_def persist_cycle_def update_utilities_log)
qed

text \<open>An intention that the model wrote is one of its entries, an object with a desire and an action of its choice.\<close>

definition written_by_model :: "raw_entry list \<Rightarrow> DeliberationIntention \<Rightarrow> bool" where
  "written_by_model rs i = (\<exists>r. RawObject r \<in> set rs \<and> parse_intention r = Some i)"

lemma parsed_written: "parse_intentions rs = Some is \<Longrightarrow> i \<in> set is \<Longrightarrow> written_by_model rs i"
proof (induction rs arbitrary: "is" rule: parse_intentions.induct)
  case (3 r rs)
  then obtain js where js: "parse_intentions rs = Some js" "is = (case parse_intention r of None \<Rightarrow> js | Some i \<Rightarrow> i # js)" by auto
  show ?case
  proof (cases "i \<in> set js")
    case True
    from 3(1) [OF js(1) True] show ?thesis by (auto simp: written_by_model_def)
  next
    case False
    with 3(3) js(2) have "parse_intention r = Some i" by (auto split: option.splits)
    then show ?thesis by (auto simp: written_by_model_def)
  qed
qed simp_all

lemma parse_raises: "parse_intentions rs = None \<longleftrightarrow> RawOther \<in> set rs"
  by (induction rs rule: parse_intentions.induct) auto

text \<open>Where the intentions of a result come from, for the desires chosen and the replies of the model.\<close>

definition accounted_for ::
    "Engine \<Rightarrow> Engine \<Rightarrow> Desire list \<Rightarrow> (Desire list \<Rightarrow> string list \<Rightarrow> llm_reply) \<Rightarrow> DeliberationResult \<Rightarrow> bool" where
  "accounted_for eg prep chosen reply r = (\<forall>i \<in> set (dr_intentions r).
     (\<exists>d \<in> set chosen. from_plan (eg_plans eg) d i \<or> from_override prep d i) \<or>
     (\<exists>rest ids dc. set rest \<subseteq> set chosen \<and> reply rest ids = Decided dc \<and> written_by_model (dc_intentions dc) i))"

text \<open>A cycle without a result: the model was asked, and answered with an entry that is no object.\<close>

definition reply_raised :: "Desire list \<Rightarrow> (Desire list \<Rightarrow> string list \<Rightarrow> llm_reply) \<Rightarrow> bool" where
  "reply_raised chosen reply = (\<exists>rest ids dc. set rest \<subseteq> set chosen \<and> reply rest ids = Decided dc \<and> RawOther \<in> set (dc_intentions dc))"

lemma deliberate_result:
  assumes "deliberate env now cid before chosen reply eg = (e, res)"
  shows "case res of None \<Rightarrow> eg_cycles e = eg_cycles eg \<and> reply_raised chosen reply
    | Some r \<Rightarrow> logged cid r eg e \<and> accounted_for eg eg chosen reply r"
proof -
  obtain lib hits rest where s: "split_by_plan now chosen (eg_plans eg) = (lib, hits, rest)" by (rule prod_cases3)
  let ?eg1 = "eg\<lparr>eg_plans := lib\<rparr>"
  let ?o = "case engine_bridge ?eg1 of
                 None \<Rightarrow> (?eg1, [])
               | Some br \<Rightarrow> (case cron_overrides (failing_jobs br) chosen br of
                    (br1, is) \<Rightarrow> (?eg1\<lparr>eg_links := Some (br_enabled br1, br_obs br1)\<rparr>, is))"
  obtain eg2 over where o: "?o = (eg2, over)" by (rule prod.exhaust)
  have b: "engine_bridge ?eg1 = engine_bridge eg" by (simp add: engine_bridge_def)
  have c2: "eg_cycles eg2 = eg_cycles eg" using o by (auto split: option.splits prod.splits)
  have ov: "\<exists>d \<in> set chosen. from_override eg d i" if "i \<in> set over" for i
  proof -
    from o that obtain br br1 where "engine_bridge eg = Some br" "cron_overrides (failing_jobs br) chosen br = (br1, over)"
      unfolding b by (auto split: option.splits prod.splits)
    with cron_overrides_result [of i "failing_jobs br" chosen br] that show ?thesis by (auto simp: from_override_def)
  qed
  note sp = split_by_plan_result [OF s]
  have cached: "\<exists>d \<in> set chosen. from_plan (eg_plans eg) d i \<or> from_override eg d i" if "i \<in> set (hits @ over)" for i
  proof (cases "i \<in> set over")
    case True
    with ov show ?thesis by blast
  next
    case False
    with that sp show ?thesis by auto
  qed
  show ?thesis
  proof (cases "rest = []")
    case True
    obtain e1 r1 where f: "finish_cycle env now cid before chosen (hits @ over) [] [] (eg2, []) = (e1, r1)" by (rule prod.exhaust)
    with True assms have r: "res = Some r1" "e = e1" unfolding deliberate_def s prod.case Let_def o by simp_all
    from finish_result [OF f c2] cached show ?thesis unfolding r by (auto simp: accounted_for_def)
  next
    case False
    let ?ids = "map rc_desire (list_resumable (eg_stack eg2))"
    show ?thesis
    proof (cases "reply rest ?ids")
      case (ReplyFailed err)
      with False assms c2 show ?thesis unfolding deliberate_def s prod.case Let_def o
        by (auto simp: accounted_for_def intro!: persist_logged)
    next
      case NoToolCalls
      with False assms c2 show ?thesis unfolding deliberate_def s prod.case Let_def o
        by (auto simp: accounted_for_def intro!: persist_logged)
    next
      case (Decided dc)
      show ?thesis
      proof (cases "parse_intentions (dc_intentions dc)")
        case None
        with False assms Decided have "res = None" "e = eg2" unfolding deliberate_def s prod.case Let_def o by simp_all
        moreover have "reply_raised chosen reply" using sp Decided None by (auto simp: reply_raised_def parse_raises)
        ultimately show ?thesis using c2 by simp
      next
        case (Some llm)
        obtain eg3 ids where d: "apply_decision now dc llm eg2 = (eg3, ids)" by (rule prod.exhaust)
        then have c3: "eg_cycles (eg3\<lparr>eg_plans := p\<rparr>) = eg_cycles eg" for p
          using apply_decision_log [of eg2 now dc llm] c2 by (simp add: same_log_def)
        let ?s = "(eg3\<lparr>eg_plans := learn_plans (be_tokens env) now rest llm (eg_plans eg3)\<rparr>, ids)"
        obtain e1 r1 where f: "finish_cycle env now cid before chosen (hits @ over) llm (dc_reasoning dc) ?s = (e1, r1)" by (rule prod.exhaust)
        with False assms Decided Some have r: "res = Some r1" "e = e1"
          unfolding deliberate_def s prod.case Let_def o by (simp_all add: d)
        from finish_result [OF f c3] have fr: "logged cid r1 eg e1" "dr_intentions r1 = (hits @ over) @ llm" by simp_all
        have "accounted_for eg eg chosen reply r1" unfolding accounted_for_def
        proof
          fix i assume i: "i \<in> set (dr_intentions r1)"
          show "(\<exists>d \<in> set chosen. from_plan (eg_plans eg) d i \<or> from_override eg d i) \<or>
            (\<exists>rest ids dc. set rest \<subseteq> set chosen \<and> reply rest ids = Decided dc \<and> written_by_model (dc_intentions dc) i)"
          proof (cases "i \<in> set (hits @ over)")
            case False
            then have "i \<in> set llm" using i fr(2) by simp
            with parsed_written [OF Some] sp Decided show ?thesis by blast
          qed (use cached in blast)
        qed
        with fr(1) show ?thesis unfolding r by simp
      qed
    qed
  qed
qed

text \<open>
  C19. A cycle accounts for itself: a cycle that ends with a result appends exactly one record to the audit
  log, with its id, the number of intentions formed, the desires updated and the error; a cycle without a
  result appends none, and then the model was asked about chosen desires and answered with an intention that
  is no object. Every intention of a result is either about a deliberable desire chosen within the limit,
  formed from a cached plan whose keywords occur in that desire or because its cron job failed three times in a
  row, or it is one that the language model wrote when it was asked about chosen desires only; which
  desire the model's own intentions name is not checked.
\<close>

theorem cycle_accounts_for_itself:
  assumes "run_cycle env True now cid foresights reply eg = (e, res)"
  shows "let prep = prepare_cycle env now foresights eg;
      chosen = take (be_limit env) (prioritize env now (list_deliberable (eg_store prep))) in
    case res of None \<Rightarrow> eg_cycles e = eg_cycles eg \<and> reply_raised chosen reply
    | Some r \<Rightarrow> logged cid r eg e \<and> accounted_for eg prep chosen reply r"
proof -
  let ?p = "prepare_cycle env now foresights eg"
  let ?c = "take (be_limit env) (prioritize env now (list_deliberable (eg_store ?p)))"
  have p: "eg_cycles ?p = eg_cycles eg" "eg_plans ?p = eg_plans eg" using prepare_log [of eg env now foresights] by (simp_all add: same_log_def)
  then have l: "logged cid r ?p e = logged cid r eg e" "accounted_for ?p ?p ?c reply r = accounted_for eg ?p ?c reply r" for r
    by (simp_all add: logged_def accounted_for_def)
  show ?thesis
  proof (cases "list_deliberable (eg_store ?p) = []")
    case True
    with assms p show ?thesis by (auto simp: run_cycle_def Let_def accounted_for_def intro!: persist_logged)
  next
    case False
    with assms have "deliberate env now cid (length (list_deliberable (eg_store ?p))) ?c reply ?p = (e, res)"
      by (simp add: run_cycle_def Let_def)
    from deliberate_result [OF this] show ?thesis by (cases res) (simp_all add: Let_def l p(1))
  qed
qed

theorem cycle_accounts_for_itself_witness:
  "\<exists>r. snd example_cycle = Some r \<and> logged ''c1'' r example_engine (fst example_cycle)"
proof -
  have "run_cycle example_bdi True ''t1'' ''c1'' [] satisfy_everything example_engine = (fst example_cycle, snd example_cycle)"
    by (simp add: example_cycle_def)
  from cycle_accounts_for_itself [OF this]
  have "case snd example_cycle of None \<Rightarrow> \<exists>ds ids dc. satisfy_everything ds ids = Decided dc \<and> RawOther \<in> set (dc_intentions dc)
    | Some r \<Rightarrow> logged ''c1'' r example_engine (fst example_cycle)"
    by (auto simp: Let_def reply_raised_def split: option.splits)
  then show ?thesis by (auto simp: satisfy_everything_def split: option.splits)
qed

section \<open>Where the engine loses track\<close>

text \<open>
  The resumption check pops the top of the stack for whichever candidate it resumes: with the top still waiting for
  a dependency and an older frame ready, the frame of the waiting desire is lost and the resumed one stays.
\<close>

definition waiting_frame :: "string \<Rightarrow> StackFrame" where
  "waiting_frame did = \<lparr>sf_desire = did, sf_intention = \<lparr>di_desire = did, di_action = ''exec'', di_scope = ''system'', di_trigger = ''deliberation'',
     di_risk = ''low'', di_reasoning = [], di_payload = []\<rparr>, sf_suspended_at = ''t'', sf_reason = [], sf_priority = 50\<rparr>"

definition crossed_store :: DesireStore where
  "crossed_store = \<lparr>st_file = Some (map DesireLine
     [(new_desire ''a'' ''u'' [] [] ''t'' None None)\<lparr>ds_status := SUSPENDED\<rparr>,
      (new_desire ''b'' ''u'' [] [] ''t'' None None)\<lparr>ds_status := SUSPENDED, ds_dependencies := [''c'']\<rparr>,
      new_desire ''c'' ''u'' [] [] ''t'' None None]), st_sqlite = None, st_fallback = False\<rparr>"

definition crossed_engine :: Engine where
  "crossed_engine = \<lparr>eg_store = crossed_store, eg_stack = [waiting_frame ''a'', waiting_frame ''b''],
     eg_stack_file = Some [waiting_frame ''a'', waiting_frame ''b''], eg_plans = [], eg_cycles = [], eg_links = None\<rparr>"

lemma wrong_frame_popped:
  "map_option ds_status (get_desire ''a'' (eg_store (check_resumptions ''t1'' crossed_engine))) = Some ACTIVE \<and>
   map_option ds_status (get_desire ''b'' (eg_store (check_resumptions ''t1'' crossed_engine))) = Some SUSPENDED \<and>
   map sf_desire (eg_stack (check_resumptions ''t1'' crossed_engine)) = [''a'']"
  by code_simp

text \<open>
  The foresights are always synchronised against an empty list of known ones: a foresight that has its desire
  already ends the loop, and no later foresight ever gets a desire.
\<close>

lemma known_foresight_blocks:
  assumes "fo_id f \<noteq> []" and "get_desire (''desire_fs_'' @ fo_id f) st \<noteq> None"
  shows "sync_foresights now [] (f # fs) st = st"
  using assms by (auto simp: add_desire_def get_desire_def new_desire_def)

text \<open>A suspension that overflows the stack keeps the status: the desire is suspended without a frame, and only frames are resumed.\<close>

lemma overflow_suspends_for_good:
  assumes "update_desire now did (set_status SUSPENDED why) (eg_store eg) = Inr (s, Some d)"
    and "List.find (\<lambda>i. di_desire i = did) is = Some i" and "length (eg_stack eg) = MAX_DEPTH"
  shows "suspend_one now why is did (eg, ids) = (eg\<lparr>eg_store := s\<rparr>, ids @ [did])"
  using assms by (simp add: suspend_one_def engine_update_def stack_push_def)

text \<open>When the language model fails, the links of failing jobs are off already but the overriding message is not sent.\<close>

lemma override_lost_on_failure:
  assumes "split_by_plan now chosen (eg_plans eg) = (lib, hits, rest)" and "rest \<noteq> []" and "engine_bridge eg = Some br"
    and "cron_overrides (failing_jobs br) chosen br = (br1, is)" and "\<And>ids. reply rest ids = ReplyFailed err"
    and "deliberate env now cid before chosen reply eg = (e, r)"
  shows "map_option dr_intentions r = Some [] \<and> eg_links e = Some (br_enabled br1, br_obs br1)"
  using assms by (auto simp: deliberate_def Let_def engine_bridge_def persist_cycle_def)

end
