(* ===== verification/BdiChoice.thy ===== *)
theory BdiChoice
  imports BdiLife
begin

text \<open>
  How a cycle chooses among the desires when it learns utilities, and how often belief changes wake the engine.
\<close>

section \<open>The sampling loop ends\<close>

definition draws_in_range :: "(Desire list \<Rightarrow> nat) \<Rightarrow> bool" where
  "draws_in_range draw = (\<forall>p. p \<noteq> [] \<longrightarrow> draw p < length p)"

lemma mset_pick: "i < length p \<Longrightarrow> add_mset (p ! i) (mset (take i p @ drop (Suc i) p)) = mset p"
  by (metis id_take_nth_drop mset.simps(2) mset_append union_mset_add_mset_right)

definition sampled :: "Desire list \<Rightarrow> Desire list \<Rightarrow> int \<Rightarrow> Desire list \<times> Desire list \<times> int \<Rightarrow> bool" where
  "sampled selected pool slots s = (case s of (chosen, rest, m) \<Rightarrow>
     \<exists>sel. chosen = selected @ sel \<and> mset sel + mset rest = mset pool \<and> m = slots - int (length sel) \<and> (sel = [] \<or> m \<ge> 0))"

lemma sampled_step:
  assumes "draws_in_range draw" and "sampled selected pool slots (chosen, rest, m)" and "m > 0" and "rest \<noteq> []"
  shows "sampled selected pool slots (draw_step draw (chosen, rest, m))"
proof -
  define i where "i = (if length rest = 1 then 0 else draw rest)"
  have i: "i < length rest" using assms(1,4) by (auto simp: i_def draws_in_range_def)
  obtain sel where sel: "chosen = selected @ sel" "mset sel + mset rest = mset pool" "m = slots - int (length sel)"
    using assms(2) by (auto simp: sampled_def)
  have "mset (sel @ [rest ! i]) + mset (take i rest @ drop (Suc i) rest) = mset pool"
    using sel(2) unfolding mset_pick [OF i, symmetric] by simp
  with sel assms(3) show ?thesis
    unfolding sampled_def draw_step_def prod.case Let_def i_def [symmetric] by (intro exI [of _ "sel @ [rest ! i]"]) simp
qed

lemma sampling_result:
  assumes "draws_in_range draw"
  obtains sel rest m where "sampling draw selected pool slots = Some (selected @ sel, rest, m)"
    "length sel = min (nat slots) (length pool)" "mset sel + mset rest = mset pool"
proof -
  let ?b = "\<lambda>(_ :: Desire list, p :: Desire list, n :: int). n > 0 \<and> p \<noteq> []"
  have start: "sampled selected pool slots (selected, pool, slots)" by (simp add: sampled_def)
  have "\<exists>t. while_option ?b (draw_step draw) (selected, pool, slots) = Some t"
  proof (rule measure_while_option_Some [where P = "sampled selected pool slots" and f = "\<lambda>(_, _, n). nat n"])
    fix s assume "sampled selected pool slots s" and "?b s"
    then show "sampled selected pool slots (draw_step draw s) \<and>
        (case draw_step draw s of (_, _, n) \<Rightarrow> nat n) < (case s of (_, _, n) \<Rightarrow> nat n)"
      using sampled_step [OF assms] by (cases s) (auto simp: draw_step_def Let_def)
  qed (rule start)
  then obtain t where t: "while_option ?b (draw_step draw) (selected, pool, slots) = Some t" by blast
  have "sampled selected pool slots t"
    by (rule while_option_rule [where P = "sampled selected pool slots", OF _ t start]) (use sampled_step [OF assms] in auto)
  moreover have "\<not> ?b t" by (rule while_option_stop [OF t])
  ultimately obtain sel rest m where r: "t = (selected @ sel, rest, m)" "mset sel + mset rest = mset pool"
    "m = slots - int (length sel)" "sel = [] \<or> m \<ge> 0" "m \<le> 0 \<or> rest = []"
    by (cases t) (auto simp: sampled_def)
  have "length sel + length rest = length pool" using r(2) by (metis size_mset size_union)
  with r have "length sel = min (nat slots) (length pool)" by auto
  with t r show thesis by (intro that) (auto simp: sampling_def)
qed

lemma stochastic_picks:
  assumes "draws_in_range draw"
  obtains sel where "take limit (stochastic_prioritize draw limit now ds) = take limit (filter (is_overdue now) ds @ sel)"
    "set sel \<subseteq> {d. \<not> is_overdue now d}" "mset sel \<subseteq># mset ds" "length (take limit (filter (is_overdue now) ds @ sel)) = min limit (length ds)"
proof -
  let ?o = "filter (is_overdue now) ds" and ?n = "filter (\<lambda>d. \<not> is_overdue now d) ds"
  let ?slots = "int limit - int (length ?o)"
  have len: "length ?o + length ?n = length ds" by (rule sum_length_filter_compl)
  have sub: "mset ?n \<subseteq># mset ds" by simp
  consider (few) "length ds \<le> 1" | (full) "length ds > 1" "?slots \<le> 0" | (none) "length ds > 1" "?slots > 0" "?n = []"
    | (more) "length ds > 1" "?slots > 0" "?n \<noteq> []" by linarith
  then show thesis
  proof cases
    case few
    then have "ds = ?o @ ?n" by (cases ds) auto
    then show thesis using few len sub by (intro that [of ?n]) (auto simp: stochastic_prioritize_def)
  next
    case full
    then show thesis using len by (intro that [of "[]"]) (auto simp: stochastic_prioritize_def Let_def)
  next
    case none
    then show thesis using len by (intro that [of "[]"]) (auto simp: stochastic_prioritize_def Let_def)
  next
    case more
    obtain sel rest m where s: "sampling draw ?o ?n ?slots = Some (?o @ sel, rest, m)"
      "length sel = min (nat ?slots) (length ?n)" "mset sel + mset rest = mset ?n"
      by (rule sampling_result [OF assms])
    have "mset sel \<subseteq># mset ?n" using s(3) by (metis mset_subset_eq_add_left)
    with sub have "mset sel \<subseteq># mset ds" by (rule subset_mset.trans [rotated])
    moreover have "set sel \<subseteq> set ?n" using \<open>mset sel \<subseteq># mset ?n\<close> by (metis set_mset_mono set_mset_mset)
    ultimately show thesis using more s len by (intro that [of sel]) (auto simp: stochastic_prioritize_def Let_def)
  qed
qed

text \<open>
  The sampling loop of the learning engine ends, whatever it draws, after taking exactly as many desires as
  there are slots (or all of them), none twice; so a cycle deliberates exactly the smaller of its limit and the
  number of desires, all of them present desires, with the overdue ones first.
\<close>

theorem sampling_ends:
  assumes "draws_in_range draw"
  shows "(\<exists>sel rest m. sampling draw selected pool slots = Some (selected @ sel, rest, m) \<and>
      length sel = min (nat slots) (length pool) \<and> mset sel + mset rest = mset pool) \<and>
    (\<exists>sel. take limit (stochastic_prioritize draw limit now ds) = take limit (filter (is_overdue now) ds @ sel) \<and>
      set sel \<subseteq> {d. \<not> is_overdue now d} \<and> mset sel \<subseteq># mset ds \<and>
      length (take limit (stochastic_prioritize draw limit now ds)) = min limit (length ds))"
proof (intro conjI)
  show "\<exists>sel rest m. sampling draw selected pool slots = Some (selected @ sel, rest, m) \<and>
      length sel = min (nat slots) (length pool) \<and> mset sel + mset rest = mset pool"
    by (rule sampling_result [OF assms]) blast
  show "\<exists>sel. take limit (stochastic_prioritize draw limit now ds) = take limit (filter (is_overdue now) ds @ sel) \<and>
      set sel \<subseteq> {d. \<not> is_overdue now d} \<and> mset sel \<subseteq># mset ds \<and>
      length (take limit (stochastic_prioritize draw limit now ds)) = min limit (length ds)"
    by (rule stochastic_picks [OF assms, of limit now ds]) (metis)
qed

theorem sampling_ends_witness:
  "length (take 1 (stochastic_prioritize (\<lambda>p. 0) 1 ''t'' [example_desire, example_desire\<lparr>ds_id := ''e''\<rparr>])) = 1"
proof -
  have "draws_in_range (\<lambda>p. 0)" by (simp add: draws_in_range_def)
  from sampling_ends [OF this, of "[]" "[]" 0 1 "''t''" "[example_desire, example_desire\<lparr>ds_id := ''e''\<rparr>]"] show ?thesis by auto
qed

section \<open>The watcher\<close>

fun watch :: "int \<Rightarrow> (int \<times> BeliefChangeEvent) list \<Rightarrow> Watcher \<Rightarrow> int list" where
  "watch cooldown [] w = []"
| "watch cooldown ((now, e) # es) w =
     (case on_belief_changed cooldown now e w of
        (v, triggered) \<Rightarrow> if triggered then now # watch cooldown es v else watch cooldown es v)"

lemma watch_spaced: "successively (\<lambda>a b. cooldown \<le> b - a) (wa_last w # watch cooldown es w)"
proof (induction cooldown es w rule: watch.induct)
  case (2 cooldown now e es w)
  show ?case
  proof (cases "wa_running w \<and> is_critical e \<and> cooldown \<le> now - wa_last w")
    case True
    then have "on_belief_changed cooldown now e w = (w\<lparr>wa_last := now, wa_pending := []\<rparr>, True)" by (simp add: on_belief_changed_def)
    with 2 True show ?thesis by simp
  next
    case False
    then have "\<exists>v. on_belief_changed cooldown now e w = (v, False) \<and> wa_last v = wa_last w" by (auto simp: on_belief_changed_def)
    then obtain v where "on_belief_changed cooldown now e w = (v, False)" "wa_last v = wa_last w" by blast
    with 2 show ?thesis by auto
  qed
qed simp

lemma spaced_bound:
  "successively (\<lambda>a b. c \<le> b - a) (x # xs) \<Longrightarrow> int (length xs) * c \<le> last (x # xs) - x" for c x :: int
proof (induction xs arbitrary: x)
  case (Cons y ys)
  then have "int (length ys) * c \<le> last (y # ys) - y" "c \<le> y - x" by auto
  then show ?case by (simp add: algebra_simps)
qed simp

text \<open>
  The watcher never deliberates more often than the cooldown allows: whatever belief changes come in, the
  times at which it triggers are at least the cooldown apart, so that there are at most as many as cooldowns fit
  into the time since the last one before; and a critical change that comes later than that triggers at once.
\<close>

theorem watcher_cooldown:
  "successively (\<lambda>a b. cooldown \<le> b - a) (wa_last w # watch cooldown es w) \<and>
   int (length (watch cooldown es w)) * cooldown \<le> last (wa_last w # watch cooldown es w) - wa_last w \<and>
   (wa_running w \<and> is_critical e \<and> cooldown \<le> now - wa_last w \<longrightarrow> snd (on_belief_changed cooldown now e w))"
  using watch_spaced [of cooldown w es] spaced_bound [OF watch_spaced [of cooldown w es]] by (auto simp: on_belief_changed_def)

definition smoke :: BeliefChangeEvent where
  "smoke = \<lparr>ev_source = ''sensor'', ev_key = ''smoke'', ev_severity = SevCritical, ev_reason = []\<rparr>"

theorem watcher_cooldown_witness:
  "snd (on_belief_changed 5000 7000 smoke \<lparr>wa_running = True, wa_last = 1000, wa_pending = []\<rparr>)"
  using watcher_cooldown [of 5000 "\<lparr>wa_running = True, wa_last = 1000, wa_pending = []\<rparr>" "[]" smoke 7000]
  by (simp add: smoke_def is_critical_def)

text \<open>A critical change within the cooldown is queued, and the queue is only ever emptied: nothing is triggered for it.\<close>

lemma queued_change_forgotten:
  assumes "on_belief_changed cooldown now e w = (v, b)"
  shows "wa_pending v = wa_pending w @ [e] \<and> \<not> b \<or> wa_pending v = wa_pending w \<and> \<not> b \<or> wa_pending v = [] \<and> b"
  using assms by (auto simp: on_belief_changed_def split: if_splits)

end
