(* ===== verification/Session.thy ===== *)
theory Session
  imports ContextBudget
begin

text \<open>
  The conversation of one chat: \<^verbatim>\<open>Session\<close> and \<^verbatim>\<open>Episode\<close> in \<^verbatim>\<open>OriginAgent/session/manager.py\<close>, with the
  operations that write messages, divide them into episodes and trim them.

  A message is the dictionary of the code. Instants are microseconds; \<open>iso_text\<close> prints one the way
  \<^verbatim>\<open>datetime.isoformat\<close> does and \<open>from_iso\<close> reads such a text (\<open>None\<close> for its \<^verbatim>\<open>ValueError\<close>). Fresh
  identifiers (\<^verbatim>\<open>uuid4\<close>) are arguments. Indices are integers, since a session file may hold any, and
  slices and subscripts treat negative ones as Python does.
\<close>

section \<open>Python sequences\<close>

definition py_bound :: "nat \<Rightarrow> int \<Rightarrow> nat" where
  "py_bound n i = (if i < 0 then nat (int n + i) else min n (nat i))"

definition py_slice :: "int \<Rightarrow> int \<Rightarrow> 'a list \<Rightarrow> 'a list" where
  "py_slice i j xs = take (py_bound (length xs) j - py_bound (length xs) i) (drop (py_bound (length xs) i) xs)"

definition py_from :: "int \<Rightarrow> 'a list \<Rightarrow> 'a list" where
  "py_from i xs = drop (py_bound (length xs) i) xs"

text \<open>A subscript; \<open>None\<close> is the \<^verbatim>\<open>IndexError\<close>.\<close>

definition py_position :: "'a list \<Rightarrow> int \<Rightarrow> nat option" where
  "py_position xs i =
     (if 0 \<le> i \<and> i < int (length xs) then Some (nat i)
      else if i < 0 \<and> - int (length xs) \<le> i then Some (nat (int (length xs) + i))
      else None)"

text \<open>\<^verbatim>\<open>next((i for i, x in enumerate(xs) if P(x)), None)\<close>\<close>

fun first_index :: "('a \<Rightarrow> bool) \<Rightarrow> 'a list \<Rightarrow> nat option" where
  "first_index P [] = None"
| "first_index P (x # xs) = (if P x then Some 0 else map_option Suc (first_index P xs))"

lemma first_index_SomeD: "first_index P xs = Some i \<Longrightarrow> i < length xs \<and> P (xs ! i) \<and> (\<forall>j < i. \<not> P (xs ! j))"
proof (induction xs arbitrary: i)
  case Nil
  then show ?case by simp
next
  case (Cons x xs)
  show ?case
  proof (cases "P x")
    case True
    with Cons.prems show ?thesis by simp
  next
    case False
    with Cons.prems obtain k where k: "first_index P xs = Some k" "i = Suc k" by auto
    with Cons.IH [OF k(1)] False show ?thesis by (auto simp: nth_Cons less_Suc_eq_0_disj split: nat.splits)
  qed
qed

lemma first_index_None: "first_index P xs = None \<longleftrightarrow> (\<forall>x \<in> set xs. \<not> P x)"
  by (induction xs) auto

lemma py_bound_le: "py_bound n i \<le> n \<or> i < 0 \<and> py_bound n i \<le> n"
  by (auto simp: py_bound_def)

lemma py_bound_nat [simp]: "py_bound n (int k) = min n k"
  by (simp add: py_bound_def)

lemma py_slice_nat: "i \<le> j \<Longrightarrow> j \<le> length xs \<Longrightarrow> py_slice (int i) (int j) xs = take (j - i) (drop i xs)"
  by (simp add: py_slice_def)

lemma py_from_nat [simp]: "py_from (int k) xs = drop k xs"
  by (cases "k \<le> length xs") (simp_all add: py_from_def)

lemma py_from_zero [simp]: "py_from 0 xs = xs"
  using py_from_nat [of 0 xs] by simp

section \<open>State\<close>

record Episode =
  ep_id :: string
  ep_label :: string
  ep_started :: "int option"
  ep_ended :: "int option"
  ep_start :: int
  ep_end :: int
  ep_status :: string

record Session =
  sn_key :: string
  sn_messages :: "message list"
  sn_episodes :: "Episode list"
  sn_active :: int
  sn_created :: int
  sn_updated :: int
  sn_metadata :: json_obj
  sn_consolidated :: int

definition is_active :: "Episode \<Rightarrow> bool" where
  "is_active e = (ep_status e = ''active'')"

definition open_episode :: "string \<Rightarrow> string \<Rightarrow> int option \<Rightarrow> nat \<Rightarrow> nat \<Rightarrow> Episode" where
  "open_episode uid label started i j = \<lparr>ep_id = uid, ep_label = label, ep_started = started,
     ep_ended = None, ep_start = int i, ep_end = int j, ep_status = ''active''\<rparr>"

fun first_message_timestamp :: "(string \<Rightarrow> int option) \<Rightarrow> message list \<Rightarrow> int option" where
  "first_message_timestamp from_iso [] = None"
| "first_message_timestamp from_iso (m # ms) =
     (case dict_get m ''timestamp'' of
        Some (JStr s) \<Rightarrow>
          if s = [] then first_message_timestamp from_iso ms
          else (case from_iso s of Some t \<Rightarrow> Some t | None \<Rightarrow> first_message_timestamp from_iso ms)
      | _ \<Rightarrow> first_message_timestamp from_iso ms)"

text \<open>\<^verbatim>\<open>Session(...)\<close>: messages without episodes get one that holds them all.\<close>

definition post_init :: "(string \<Rightarrow> int option) \<Rightarrow> string \<Rightarrow> Session \<Rightarrow> Session" where
  "post_init from_iso uid s =
     (if sn_messages s \<noteq> [] \<and> sn_episodes s = [] then
        s\<lparr>sn_episodes := [open_episode uid [] (first_message_timestamp from_iso (sn_messages s)) 0
                            (length (sn_messages s))],
          sn_active := 0,
          sn_messages := map (dict_setdefault ''episode_id'' (JStr uid)) (sn_messages s)\<rparr>
      else s)"

definition new_session :: "string \<Rightarrow> int \<Rightarrow> Session" where
  "new_session key now = \<lparr>sn_key = key, sn_messages = [], sn_episodes = [], sn_active = 0,
     sn_created = now, sn_updated = now, sn_metadata = [], sn_consolidated = 0\<rparr>"

definition active_episode :: "Session \<Rightarrow> Episode option" where
  "active_episode s =
     (if sn_episodes s = [] \<or> sn_active s < 0 \<or> sn_active s \<ge> int (length (sn_episodes s)) then None
      else let e = sn_episodes s ! nat (sn_active s) in if is_active e then Some e else None)"

section \<open>Summaries of closed episodes\<close>

definition user_texts :: "message list \<Rightarrow> string list" where
  "user_texts ms = concat (map (\<lambda>m. case dict_get m ''content'' of
       Some (JStr t) \<Rightarrow> if role_is ''user'' m then [t] else [] | _ \<Rightarrow> []) ms)"

definition count_texts :: "(string \<Rightarrow> bool) \<Rightarrow> string list \<Rightarrow> nat" where
  "count_texts P ts = length (filter P ts)"

text \<open>
  The tone of an episode. The ratios are compared as the code does, without rounding; the full-width
  marks and emoji that the code also looks for do not occur in ASCII text.
\<close>

definition analyze_episode_tone :: "message list \<Rightarrow> string" where
  "analyze_episode_tone ms =
     (let ts = user_texts ms;
          size_now = length ts;
          questions = count_texts (\<lambda>t. CHR ''?'' \<in> set t) ts;
          exclamations = count_texts (\<lambda>t. CHR ''!'' \<in> set t) ts;
          long_msgs = count_texts (\<lambda>t. length t > 150) ts;
          short_msgs = count_texts (\<lambda>t. length t < 30) ts
      in if ts = [] then ''neutral''
         else if size_now \<ge> 3 \<and> list_all (\<lambda>t. length t < 20) ts then ''terse''
         else if 2 * questions > size_now then ''inquisitive / asking questions''
         else if 10 * exclamations > 3 * size_now then ''emphatic / excited''
         else if 10 * long_msgs > 4 * size_now then ''detailed / explanatory''
         else if 10 * short_msgs > 7 * size_now \<and> size_now \<ge> 3 then ''brief / direct''
         else ''neutral / conversational'')"

definition procedural_prefixes :: "string list" where
  "procedural_prefixes = [''ok'', ''okay'', ''yes'', ''no'', ''thanks'', ''ty'', ''thx'']"

definition content_text :: "message \<Rightarrow> string" where
  "content_text m = (case dict_get m ''content'' of Some j \<Rightarrow> py_str j | None \<Rightarrow> [])"

definition is_quote :: "string \<Rightarrow> bool" where
  "is_quote t = (length t \<ge> 10 \<and>
     \<not> (list_ex (\<lambda>p. take (length p) (py_lower t) = p) procedural_prefixes \<and> length t < 30))"

text \<open>\<^verbatim>\<open>sort(key=len, reverse=True)\<close> is stable: equal lengths stay in order.\<close>

definition extract_key_quotes :: "message list \<Rightarrow> string list" where
  "extract_key_quotes ms =
     (let candidates = filter is_quote
            (map (\<lambda>m. py_strip (content_text m)) (filter (role_is ''user'') ms))
      in take 3 (sort_key (\<lambda>t. - int (length t)) candidates))"

definition episode_messages :: "Episode \<Rightarrow> Session \<Rightarrow> message list" where
  "episode_messages e s = py_slice (ep_start e) (ep_end e) (sn_messages s)"

definition build_episode_preview :: "Episode \<Rightarrow> Session \<Rightarrow> string" where
  "build_episode_preview e s =
     (let msgs = episode_messages e s;
          users = map content_text (filter (role_is ''user'') msgs);
          n = show_nat (length msgs)
      in if users = [] then n @ '' messages, no user text''
         else if length users > 1
         then n @ '' msgs: \"'' @ take 100 (hd users) @ ''\" ... \"'' @ take 100 (last users) @ ''\"''
         else n @ '' msgs: \"'' @ take 100 (hd users) @ ''\"'')"

definition memory_snapshot :: "json_obj \<Rightarrow> json_obj" where
  "memory_snapshot wm = concat (map (\<lambda>k. case dict_get wm k of
       Some v \<Rightarrow> if json_truthy v then [(k, v)] else [] | None \<Rightarrow> [])
     [''current_goal'', ''current_plan'', ''open_loops'', ''active_constraints''])"

definition time_entry :: "(int \<Rightarrow> string) \<Rightarrow> string \<Rightarrow> int option \<Rightarrow> json_obj" where
  "time_entry iso_text k t = (case t of Some x \<Rightarrow> [(k, JStr (iso_text x))] | None \<Rightarrow> [])"

definition episode_summary :: "(int \<Rightarrow> string) \<Rightarrow> Episode \<Rightarrow> json_obj \<Rightarrow> Session \<Rightarrow> json_obj" where
  "episode_summary iso_text e wm s =
     [(''episode_id'', JStr (ep_id e)), (''label'', JStr (ep_label e)),
      (''preview'', JStr (build_episode_preview e s)),
      (''message_count'', JInt (ep_end e - ep_start e)),
      (''tone'', JStr (analyze_episode_tone (episode_messages e s))),
      (''key_quotes'', JList (map JStr (extract_key_quotes (episode_messages e s)))),
      (''status'', JStr (ep_status e))] @
     time_entry iso_text ''started_at'' (ep_started e) @ time_entry iso_text ''ended_at'' (ep_ended e) @
     (if memory_snapshot wm = [] then [] else [(''working_memory_snapshot'', JObj (memory_snapshot wm))])"

definition stored_summaries :: "json_obj \<Rightarrow> json list" where
  "stored_summaries md = (case dict_get md ''_episode_summaries'' of Some (JList xs) \<Rightarrow> xs | _ \<Rightarrow> [])"

definition store_episode_summary :: "(int \<Rightarrow> string) \<Rightarrow> Episode \<Rightarrow> json_obj \<Rightarrow> Session \<Rightarrow> Session" where
  "store_episode_summary iso_text e wm s =
     s\<lparr>sn_metadata := dict_set ''_episode_summaries''
         (JList (take 5 (JObj (episode_summary iso_text e wm s) # stored_summaries (sn_metadata s))))
         (sn_metadata s)\<rparr>"

section \<open>Writing messages\<close>

text \<open>\<open>ensure_active_episode\<close> leaves the active index at the episode that it returns; \<open>None\<close> is the
  \<^verbatim>\<open>IndexError\<close> of an active index that points outside the episodes.\<close>

definition append_episode :: "Episode \<Rightarrow> Session \<Rightarrow> Session" where
  "append_episode e s = s\<lparr>sn_metadata := dict_set ''_episode_count'' (JInt (int (length (sn_episodes s))))
       (dict_set ''_active_episode_label'' (JStr (ep_label e)) (sn_metadata s)),
     sn_episodes := sn_episodes s @ [e], sn_active := int (length (sn_episodes s))\<rparr>"

definition ensure_active_episode :: "int \<Rightarrow> string \<Rightarrow> Session \<Rightarrow> Session option" where
  "ensure_active_episode now uid s =
     (let n = length (sn_messages s); e = open_episode uid [] (Some now) n n in
      if sn_episodes s = [] then Some (s\<lparr>sn_episodes := [e], sn_active := 0\<rparr>)
      else case py_position (sn_episodes s) (sn_active s) of
          None \<Rightarrow> None
        | Some p \<Rightarrow> if is_active (sn_episodes s ! p) then Some s else Some (append_episode e s))"

definition close_at :: "(int \<Rightarrow> string) \<Rightarrow> int \<Rightarrow> json_obj \<Rightarrow> nat \<Rightarrow> Session \<Rightarrow> Session" where
  "close_at iso_text now wm p s =
     (let e = (sn_episodes s ! p)\<lparr>ep_status := ''closed'', ep_ended := Some now\<rparr>
      in store_episode_summary iso_text e wm (s\<lparr>sn_episodes := (sn_episodes s)[p := e]\<rparr>))"

definition close_active_episode :: "(int \<Rightarrow> string) \<Rightarrow> int \<Rightarrow> json_obj \<Rightarrow> Session \<Rightarrow> Session option" where
  "close_active_episode iso_text now wm s =
     (if sn_episodes s = [] then Some s
      else case py_position (sn_episodes s) (sn_active s) of
          None \<Rightarrow> None
        | Some p \<Rightarrow> Some (if is_active (sn_episodes s ! p) then close_at iso_text now wm p s else s))"

definition start_new_episode ::
    "(int \<Rightarrow> string) \<Rightarrow> int \<Rightarrow> string \<Rightarrow> string \<Rightarrow> json_obj \<Rightarrow> Session \<Rightarrow> Session option" where
  "start_new_episode iso_text now uid label wm s =
     (case close_active_episode iso_text now wm s of
        None \<Rightarrow> None
      | Some s1 \<Rightarrow> let n = length (sn_messages s1)
                  in Some (append_episode (open_episode uid label (Some now) n n) s1))"

definition session_message :: "(int \<Rightarrow> string) \<Rightarrow> int \<Rightarrow> string \<Rightarrow> string \<Rightarrow> string \<Rightarrow> json_obj \<Rightarrow> message" where
  "session_message iso_text now role content eid extra = dict_merge
     [(''role'', JStr role), (''content'', JStr content), (''timestamp'', JStr (iso_text now)),
      (''episode_id'', JStr eid)] extra"

definition extend_episode :: "nat \<Rightarrow> Session \<Rightarrow> Session" where
  "extend_episode p s = s\<lparr>sn_episodes := (sn_episodes s)[p := (sn_episodes s ! p)
     \<lparr>ep_end := int (length (sn_messages s))\<rparr>]\<rparr>"

definition add_message ::
    "(int \<Rightarrow> string) \<Rightarrow> int \<Rightarrow> string \<Rightarrow> string \<Rightarrow> string \<Rightarrow> json_obj \<Rightarrow> Session \<Rightarrow> Session option" where
  "add_message iso_text now uid role content extra s =
     (case ensure_active_episode now uid s of
        None \<Rightarrow> None
      | Some s1 \<Rightarrow>
          (case py_position (sn_episodes s1) (sn_active s1) of
             None \<Rightarrow> None
           | Some p \<Rightarrow>
               let m = session_message iso_text now role content (ep_id (sn_episodes s1 ! p)) extra
               in Some (extend_episode p (s1\<lparr>sn_messages := sn_messages s1 @ [m], sn_updated := now\<rparr>))))"

definition clear_session :: "int \<Rightarrow> Session \<Rightarrow> Session" where
  "clear_session now s = s\<lparr>sn_messages := [], sn_episodes := [], sn_active := 0, sn_consolidated := 0,
     sn_updated := now,
     sn_metadata := dict_del ''_episode_summaries'' (dict_del ''_last_summary''
       (dict_del ''_recent_summaries'' (sn_metadata s)))\<rparr>"

section \<open>Trimming\<close>

definition clamp_episode :: "nat \<Rightarrow> Episode \<Rightarrow> Episode option" where
  "clamp_episode size_now e =
     (let i = min (ep_start e) (int size_now); j = min (ep_end e) (int size_now)
      in if i \<ge> j \<or> i \<ge> int size_now then None else Some (e\<lparr>ep_start := i, ep_end := j\<rparr>))"

text \<open>
  The active index is looked up in the list of surviving episodes, so the table of identifiers is
  only asked for the episode at that very index.
\<close>

definition rebuilt_active :: "Episode list \<Rightarrow> int \<Rightarrow> int option" where
  "rebuilt_active surviving active =
     (if surviving = [] \<or> \<not> active < int (length surviving) then Some 0
      else case py_position surviving active of
          None \<Rightarrow> None
        | Some p \<Rightarrow> let aid = ep_id (surviving ! p);
                       table = fold (\<lambda>i d. dict_set (ep_id (surviving ! i)) i d) [0..<length surviving] []
                   in (case (if aid = [] then None else dict_get table aid) of
                         Some k \<Rightarrow> Some (int k) | None \<Rightarrow> Some 0))"

definition rebuild_episode_indices :: "(string \<Rightarrow> int option) \<Rightarrow> string \<Rightarrow> Session \<Rightarrow> Session option" where
  "rebuild_episode_indices from_iso uid s =
     (let size_now = length (sn_messages s);
          surviving = List.map_filter (clamp_episode size_now) (sn_episodes s)
      in case rebuilt_active surviving (sn_active s) of
          None \<Rightarrow> None
        | Some a \<Rightarrow>
            Some (if sn_messages s \<noteq> [] \<and> surviving = []
                  then s\<lparr>sn_episodes := [open_episode uid []
                            (first_message_timestamp from_iso (sn_messages s)) 0 size_now], sn_active := 0\<rparr>
                  else s\<lparr>sn_episodes := surviving, sn_active := a\<rparr>))"

text \<open>The state that the \<^verbatim>\<open>IndexError\<close> leaves: the episodes are replaced before the index is read.\<close>

definition after_failed_rebuild :: "Session \<Rightarrow> Session" where
  "after_failed_rebuild s =
     s\<lparr>sn_episodes := List.map_filter (clamp_episode (length (sn_messages s))) (sn_episodes s)\<rparr>"

definition from_user :: "message list \<Rightarrow> message list option" where
  "from_user ms = map_option (\<lambda>i. drop i ms) (first_index (role_is ''user'') ms)"

definition legal_suffix :: "message list \<Rightarrow> message list" where
  "legal_suffix ms = drop (find_legal_message_start ms) ms"

definition recent_legal_suffix :: "int \<Rightarrow> message list \<Rightarrow> message list" where
  "recent_legal_suffix n ms =
     (if n \<le> 0 then []
      else let k = nat n;
               tail = drop (length ms - k) ms;
               window = (case from_user tail of
                   Some w \<Rightarrow> w
                 | None \<Rightarrow> (case last_user_index ms of Some i \<Rightarrow> take k (drop i ms) | None \<Rightarrow> tail));
               kept = legal_suffix window
           in if length kept > k then legal_suffix (drop (length kept - k) kept) else kept)"

text \<open>The stamp \<open>now\<close> is the time of the change; \<open>None\<close> is an \<^verbatim>\<open>IndexError\<close> of the rebuild.\<close>

definition retain_recent_legal_suffix ::
    "(string \<Rightarrow> int option) \<Rightarrow> int \<Rightarrow> string \<Rightarrow> int \<Rightarrow> Session \<Rightarrow> Session option" where
  "retain_recent_legal_suffix from_iso now uid n s =
     (if n \<le> 0 then Some (clear_session now s)
      else if int (length (sn_messages s)) \<le> n then Some s
      else let retained = recent_legal_suffix n (sn_messages s);
               dropped = int (length (sn_messages s)) - int (length retained)
           in rebuild_episode_indices from_iso uid
                (s\<lparr>sn_messages := retained, sn_consolidated := max 0 (sn_consolidated s - dropped),
                   sn_updated := now\<rparr>))"

text \<open>
  The cap on the session file. The callback is observed through the messages it is handed: the
  second component. A callback that raises leaves the session as it was (the flag of the call).
\<close>

definition FILE_MAX_MESSAGES :: int where
  "FILE_MAX_MESSAGES = 2000"

definition enforce_file_cap ::
    "(string \<Rightarrow> int option) \<Rightarrow> (message list \<Rightarrow> bool) option \<Rightarrow> int \<Rightarrow> string \<Rightarrow> int \<Rightarrow> Session
     \<Rightarrow> (string + Session) \<times> message list" where
  "enforce_file_cap from_iso on_archive now uid limit s =
     (if limit \<le> 0 \<or> int (length (sn_messages s)) \<le> limit then (Inr s, [])
      else let retained = recent_legal_suffix limit (sn_messages s);
               dropped_count = length (sn_messages s) - length retained
           in if dropped_count = 0 then (Inr s, [])
              else let dropped = take dropped_count (sn_messages s);
                       already = min (sn_consolidated s) (int dropped_count);
                       chunk = py_from already dropped;
                       calls = (on_archive \<noteq> None \<and> chunk \<noteq> []);
                       raised = (case on_archive of Some ok \<Rightarrow> chunk \<noteq> [] \<and> \<not> ok chunk | None \<Rightarrow> False);
                       handed = (if calls then chunk else [])
                   in if raised then (Inl ''archive_callback'', handed)
                      else (case rebuild_episode_indices from_iso uid
                              (s\<lparr>sn_messages := retained,
                                 sn_consolidated := max 0 (sn_consolidated s - int dropped_count),
                                 sn_updated := now\<rparr>) of
                              Some t \<Rightarrow> (Inr t, handed)
                            | None \<Rightarrow> (Inl ''IndexError'', handed)))"

section \<open>Episodes divide the messages\<close>

text \<open>The episodes cover the messages from \<open>i\<close> up to \<open>n\<close>, one after the other.\<close>

fun tiles :: "nat \<Rightarrow> Episode list \<Rightarrow> nat \<Rightarrow> bool" where
  "tiles i [] n = (i = n)"
| "tiles i (e # es) n = (ep_start e = int i \<and> ep_start e \<le> ep_end e \<and> tiles (nat (ep_end e)) es n)"

lemma tiles_le: "tiles i es n \<Longrightarrow> i \<le> n"
proof (induction es arbitrary: i)
  case Nil
  then show ?case by simp
next
  case (Cons e es)
  from Cons.prems have e: "ep_start e = int i" "ep_start e \<le> ep_end e" "tiles (nat (ep_end e)) es n" by simp_all
  from Cons.IH [OF e(3)] have "nat (ep_end e) \<le> n" .
  with e show ?case by linarith
qed

lemma tiles_snoc:
  "tiles i (es @ [e]) n \<longleftrightarrow>
     tiles i es (nat (ep_start e)) \<and> 0 \<le> ep_start e \<and> ep_start e \<le> ep_end e \<and> n = nat (ep_end e)"
  by (induction es arbitrary: i) auto

lemma take_split:
  assumes "i \<le> j" and "j \<le> n"
  shows "take (n - i) (drop i xs) = take (j - i) (drop i xs) @ take (n - j) (drop j xs)"
proof -
  have "n - i = (j - i) + (n - j)" using assms by simp
  then have "take (n - i) (drop i xs) = take (j - i) (drop i xs) @ take (n - j) (drop (j - i) (drop i xs))"
    by (simp only: take_add)
  then show ?thesis using assms by simp
qed

lemma tiles_bounds: "tiles i es n \<Longrightarrow> e \<in> set es \<Longrightarrow>
    \<exists>a b. ep_start e = int a \<and> ep_end e = int b \<and> i \<le> a \<and> a \<le> b \<and> b \<le> n"
proof (induction es arbitrary: i)
  case Nil
  then show ?case by simp
next
  case (Cons d es)
  from Cons.prems(1) have d: "ep_start d = int i" "ep_start d \<le> ep_end d" "tiles (nat (ep_end d)) es n" by simp_all
  show ?case
  proof (cases "e = d")
    case True
    with d tiles_le [OF d(3)] show ?thesis by (intro exI [of _ i] exI [of _ "nat (ep_end d)"]) auto
  next
    case False
    with Cons.prems(2) have "e \<in> set es" by simp
    from Cons.IH [OF d(3) this] obtain a b where "ep_start e = int a" "ep_end e = int b"
      "nat (ep_end d) \<le> a" "a \<le> b" "b \<le> n" by blast
    moreover from this d(1,2) have "i \<le> a" by linarith
    ultimately show ?thesis by blast
  qed
qed

lemma tiles_concat:
  "tiles i es n \<Longrightarrow> n \<le> length ms \<Longrightarrow>
   concat (map (\<lambda>e. py_slice (ep_start e) (ep_end e) ms) es) = take (n - i) (drop i ms)"
proof (induction es arbitrary: i)
  case Nil
  then show ?case by simp
next
  case (Cons e es)
  let ?j = "nat (ep_end e)"
  from Cons.prems(1) have e: "ep_start e = int i" "ep_start e \<le> ep_end e" and t: "tiles ?j es n" by simp_all
  then have j: "i \<le> ?j" "ep_end e = int ?j" by linarith+
  have n: "?j \<le> n" by (rule tiles_le [OF t])
  then have "py_slice (ep_start e) (ep_end e) ms = take (?j - i) (drop i ms)"
    using e(1) j Cons.prems(2) by (metis order_trans py_slice_nat)
  moreover have "concat (map (\<lambda>e. py_slice (ep_start e) (ep_end e) ms) es) = take (n - ?j) (drop ?j ms)"
    by (rule Cons.IH [OF t Cons.prems(2)])
  moreover have "take (n - i) (drop i ms) = take (?j - i) (drop i ms) @ take (n - ?j) (drop ?j ms)"
    using j(1) n by (rule take_split)
  ultimately show ?case by simp
qed

definition untagged :: "message \<Rightarrow> bool" where
  "untagged m = (dict_get m ''episode_id'' = None)"

definition tagged_by :: "Episode \<Rightarrow> message \<Rightarrow> bool" where
  "tagged_by e m = (untagged m \<or> dict_get m ''episode_id'' = Some (JStr (ep_id e)))"

definition fresh_episode :: "string \<Rightarrow> Session \<Rightarrow> bool" where
  "fresh_episode uid s = (uid \<notin> ep_id ` set (sn_episodes s))"

definition episodes_ok :: "Session \<Rightarrow> bool" where
  "episodes_ok s =
     (tiles 0 (sn_episodes s) (length (sn_messages s)) \<and>
      (sn_episodes s \<noteq> [] \<longrightarrow> sn_active s = int (length (sn_episodes s)) - 1) \<and>
      list_all (\<lambda>e. \<not> is_active e) (butlast (sn_episodes s)) \<and>
      distinct (map ep_id (sn_episodes s)) \<and>
      (\<forall>e \<in> set (sn_episodes s). \<forall>m \<in> set (episode_messages e s). tagged_by e m))"

lemma episodes_okD:
  assumes "episodes_ok s"
  shows "concat (map (\<lambda>e. episode_messages e s) (sn_episodes s)) = sn_messages s"
  using assms tiles_concat [of 0 "sn_episodes s" "length (sn_messages s)" "sn_messages s"]
  by (simp add: episodes_ok_def episode_messages_def)

lemma new_session_ok [simp]: "episodes_ok (new_session key now)"
  by (simp add: episodes_ok_def new_session_def)

lemma clear_session_ok [inv_intros]: "episodes_ok (clear_session now s)"
  by (simp add: episodes_ok_def clear_session_def)

lemma position_of_last:
  "episodes_ok s \<Longrightarrow> sn_episodes s \<noteq> [] \<Longrightarrow>
   py_position (sn_episodes s) (sn_active s) = Some (length (sn_episodes s) - 1)"
  by (auto simp: episodes_ok_def py_position_def of_nat_diff)

text \<open>A session seen through its last episode.\<close>

lemma episodes_ok_snoc:
  assumes "sn_episodes s = es @ [e]"
  shows "episodes_ok s \<longleftrightarrow>
     tiles 0 es (nat (ep_start e)) \<and> 0 \<le> ep_start e \<and> ep_start e \<le> ep_end e \<and>
     ep_end e = int (length (sn_messages s)) \<and> sn_active s = int (length es) \<and>
     list_all (\<lambda>e. \<not> is_active e) es \<and> distinct (map ep_id es) \<and> ep_id e \<notin> ep_id ` set es \<and>
     (\<forall>e \<in> set es. \<forall>m \<in> set (episode_messages e s). tagged_by e m) \<and>
     (\<forall>m \<in> set (drop (nat (ep_start e)) (sn_messages s)). tagged_by e m)"
proof -
  have eq: "set (episode_messages e s) = set (drop (nat (ep_start e)) (sn_messages s))"
    if t: "tiles 0 (es @ [e]) (length (sn_messages s))"
  proof -
    from tiles_bounds [OF t, of e] obtain a b where ab: "ep_start e = int a" "ep_end e = int b"
      "b \<le> length (sn_messages s)" "a \<le> b" by auto
    from t ab(2) have "b = length (sn_messages s)" unfolding tiles_snoc by linarith
    with ab have "ep_start e = int a" "a \<le> length (sn_messages s)" "ep_end e = int (length (sn_messages s))"
      by simp_all
    then have "episode_messages e s = drop (nat (ep_start e)) (sn_messages s)"
      by (simp add: episode_messages_def py_slice_nat)
    then show ?thesis by simp
  qed
  have "episodes_ok s \<longleftrightarrow> tiles 0 (es @ [e]) (length (sn_messages s)) \<and> sn_active s = int (length es) \<and>
     list_all (\<lambda>e. \<not> is_active e) es \<and> distinct (map ep_id (es @ [e])) \<and>
     (\<forall>e \<in> set (es @ [e]). \<forall>m \<in> set (episode_messages e s). tagged_by e m)"
    unfolding episodes_ok_def assms by simp
  also have "\<dots> \<longleftrightarrow> tiles 0 (es @ [e]) (length (sn_messages s)) \<and> sn_active s = int (length es) \<and>
     list_all (\<lambda>e. \<not> is_active e) es \<and> distinct (map ep_id es) \<and> ep_id e \<notin> ep_id ` set es \<and>
     (\<forall>e \<in> set es. \<forall>m \<in> set (episode_messages e s). tagged_by e m) \<and>
     (\<forall>m \<in> set (drop (nat (ep_start e)) (sn_messages s)). tagged_by e m)"
    using eq by (cases "tiles 0 (es @ [e]) (length (sn_messages s))") auto
  also have "tiles 0 (es @ [e]) (length (sn_messages s)) \<longleftrightarrow> tiles 0 es (nat (ep_start e)) \<and>
      0 \<le> ep_start e \<and> ep_start e \<le> ep_end e \<and> ep_end e = int (length (sn_messages s))"
    unfolding tiles_snoc by linarith
  finally show ?thesis by blast
qed

lemma episode_messages_append:
  assumes "tiles i es n" and "n \<le> length (sn_messages s)" and "e \<in> set es"
    and "sn_messages t = sn_messages s @ xs"
  shows "episode_messages e t = episode_messages e s"
proof -
  from tiles_bounds [OF assms(1,3)] obtain a b where "ep_start e = int a" "ep_end e = int b" "a \<le> b" "b \<le> n"
    by blast
  with assms(2,4) show ?thesis by (simp add: episode_messages_def py_slice_nat)
qed

text \<open>Messages are appended to an open last episode, which is extended.\<close>

lemma append_messages_ok:
  assumes ok: "episodes_ok s" and s: "sn_episodes s = es @ [e]"
    and xs: "\<forall>m \<in> set xs. tagged_by e m"
    and t: "sn_messages t = sn_messages s @ xs" "sn_active t = sn_active s"
      "sn_episodes t = es @ [e\<lparr>ep_end := int (length (sn_messages t))\<rparr>]"
  shows "episodes_ok t"
proof -
  note s_ok = ok [unfolded episodes_ok_snoc [OF s]]
  have "\<forall>d \<in> set es. episode_messages d t = episode_messages d s"
  proof
    fix d assume "d \<in> set es"
    from s_ok have "tiles 0 es (nat (ep_start e))" "nat (ep_start e) \<le> length (sn_messages s)" by auto
    then show "episode_messages d t = episode_messages d s"
      using \<open>d \<in> set es\<close> t(1) by (rule episode_messages_append)
  qed
  with s_ok xs t show ?thesis
    by (auto simp: episodes_ok_snoc [OF t(3)] tagged_by_def)
qed

lemma append_episode_ok:
  assumes ok: "episodes_ok s" and fresh: "fresh_episode uid s"
    and closed: "sn_episodes s \<noteq> [] \<Longrightarrow> \<not> is_active (last (sn_episodes s))"
    and e: "e = open_episode uid label w (length (sn_messages s)) (length (sn_messages s))"
    and t: "sn_episodes t = sn_episodes s @ [e]" "sn_active t = int (length (sn_episodes s))"
      "sn_messages t = sn_messages s"
  shows "episodes_ok t"
proof -
  have "list_all (\<lambda>e. \<not> is_active e) (sn_episodes s)"
    using ok closed unfolding episodes_ok_def by (cases "sn_episodes s" rule: rev_cases) auto
  moreover have "\<forall>d \<in> set (sn_episodes s). episode_messages d t = episode_messages d s"
    by (simp add: episode_messages_def t(3))
  moreover have f: "ep_id e = uid" "ep_start e = int (length (sn_messages s))" "ep_end e = int (length (sn_messages s))"
    by (simp_all add: e open_episode_def)
  ultimately show ?thesis
    using ok fresh t(2,3) unfolding episodes_ok_snoc [OF t(1)] by (simp add: episodes_ok_def fresh_episode_def)
qed

text \<open>Replacing the last episode by one over the same messages with the same identifier.\<close>

lemma close_at_ok:
  assumes ok: "episodes_ok s" and s: "sn_episodes s = es @ [e]"
    and t: "sn_messages t = sn_messages s" "sn_active t = sn_active s"
      "sn_episodes t = es @ [e\<lparr>ep_status := st, ep_ended := w\<rparr>]"
  shows "episodes_ok t"
proof -
  have "\<forall>d \<in> set es. episode_messages d t = episode_messages d s"
    by (simp add: episode_messages_def t(1))
  with ok [unfolded episodes_ok_snoc [OF s]] t show ?thesis
    by (auto simp: episodes_ok_snoc [OF t(3)] tagged_by_def)
qed

section \<open>Every operation keeps the division\<close>

lemma ensure_ok [inv_intros]:
  assumes ok: "episodes_ok s" and fresh: "fresh_episode uid s" and r: "ensure_active_episode now uid s = Some t"
  shows "episodes_ok t \<and> sn_messages t = sn_messages s \<and>
    (\<exists>es e. sn_episodes t = es @ [e] \<and> is_active e \<and> ep_id ` set (sn_episodes t) \<subseteq> insert uid (ep_id ` set (sn_episodes s)))"
proof (cases "sn_episodes s" rule: rev_cases)
  case Nil
  let ?e = "open_episode uid [] (Some now) (length (sn_messages s)) (length (sn_messages s))"
  from r Nil have t: "t = s\<lparr>sn_episodes := [?e], sn_active := 0\<rparr>"
    by (simp add: ensure_active_episode_def Let_def)
  have "episodes_ok t"
    by (rule append_episode_ok [OF ok fresh, of ?e]) (use Nil in \<open>simp_all add: t\<close>)
  with Nil show ?thesis by (auto simp: t open_episode_def is_active_def)
next
  case (snoc es e)
  with position_of_last [OF ok] have p: "py_position (sn_episodes s) (sn_active s) = Some (length es)" by simp
  show ?thesis
  proof (cases "is_active e")
    case True
    with r snoc p have "t = s" by (simp add: ensure_active_episode_def Let_def)
    with ok snoc True show ?thesis by auto
  next
    case False
    let ?e = "open_episode uid [] (Some now) (length (sn_messages s)) (length (sn_messages s))"
    from r snoc p False have t: "t = append_episode ?e s" by (simp add: ensure_active_episode_def Let_def)
    have "episodes_ok t"
      by (rule append_episode_ok [OF ok fresh, of ?e]) (use snoc False in \<open>simp_all add: t append_episode_def\<close>)
    then show ?thesis by (auto simp: t append_episode_def open_episode_def is_active_def)
  qed
qed

lemma add_message_ok [inv_intros]:
  assumes ok: "episodes_ok s" and fresh: "fresh_episode uid s" and extra: "untagged extra"
    and r: "add_message iso_text now uid role content extra s = Some t"
  shows "episodes_ok t"
proof -
  from r obtain s1 where s1: "ensure_active_episode now uid s = Some s1"
    by (auto simp: add_message_def split: option.splits)
  from ensure_ok [OF ok fresh s1] obtain es e where ok1: "episodes_ok s1" and e: "sn_episodes s1 = es @ [e]"
    by blast
  have p: "py_position (sn_episodes s1) (sn_active s1) = Some (length es)"
    using position_of_last [OF ok1] e by simp
  let ?m = "session_message iso_text now role content (ep_id e) extra"
  have t: "t = extend_episode (length es) (s1\<lparr>sn_messages := sn_messages s1 @ [?m], sn_updated := now\<rparr>)"
    using r s1 p e by (simp add: add_message_def Let_def)
  have "tagged_by e ?m"
    using extra by (simp add: tagged_by_def untagged_def session_message_def dict_get_merge map_of_eq_None_iff
        split: option.splits) (metis domI dom_map_of_conv_image_fst list.set_map set_rev)
  with ok1 e show ?thesis
    by (intro append_messages_ok [OF ok1 e, of "[?m]"]) (simp_all add: t extend_episode_def)
qed

lemma close_active_ok [inv_intros]:
  assumes ok: "episodes_ok s" and r: "close_active_episode iso_text now wm s = Some t"
  shows "episodes_ok t \<and> sn_messages t = sn_messages s \<and> map ep_id (sn_episodes t) = map ep_id (sn_episodes s) \<and>
    (sn_episodes t \<noteq> [] \<longrightarrow> \<not> is_active (last (sn_episodes t)))"
proof (cases "sn_episodes s" rule: rev_cases)
  case Nil
  with r ok show ?thesis by (auto simp: close_active_episode_def)
next
  case (snoc es e)
  with position_of_last [OF ok] have p: "py_position (sn_episodes s) (sn_active s) = Some (length es)" by simp
  show ?thesis
  proof (cases "is_active e")
    case True
    let ?e = "e\<lparr>ep_status := ''closed'', ep_ended := Some now\<rparr>"
    from r snoc p True have t: "t = close_at iso_text now wm (length es) s" by (simp add: close_active_episode_def)
    have "sn_episodes t = es @ [?e]" "sn_messages t = sn_messages s" "sn_active t = sn_active s"
      using snoc by (simp_all add: t close_at_def Let_def store_episode_summary_def)
    with close_at_ok [OF ok snoc, of t] snoc show ?thesis by (auto simp: is_active_def)
  next
    case False
    with r snoc p have "t = s" by (simp add: close_active_episode_def)
    with ok snoc False show ?thesis by simp
  qed
qed

lemma start_new_ok [inv_intros]:
  assumes ok: "episodes_ok s" and fresh: "fresh_episode uid s"
    and r: "start_new_episode iso_text now uid label wm s = Some t"
  shows "episodes_ok t"
proof -
  from r obtain s1 where s1: "close_active_episode iso_text now wm s = Some s1"
    by (auto simp: start_new_episode_def split: option.splits)
  let ?e = "open_episode uid label (Some now) (length (sn_messages s1)) (length (sn_messages s1))"
  from r s1 have t: "t = append_episode ?e s1" by (simp add: start_new_episode_def Let_def)
  note c = close_active_ok [OF ok s1]
  then have "ep_id ` set (sn_episodes s1) = ep_id ` set (sn_episodes s)" by (metis list.set_map)
  with fresh have "fresh_episode uid s1" by (simp add: fresh_episode_def)
  show ?thesis
  proof (rule append_episode_ok [of s1 uid ?e])
    show "episodes_ok s1" using c by blast
    show "fresh_episode uid s1" by fact
    show "\<not> is_active (last (sn_episodes s1))" if "sn_episodes s1 \<noteq> []" using c that by blast
  qed (simp_all add: t append_episode_def)
qed

text \<open>No operation of this kind fails on a well-divided session.\<close>

lemma operations_defined:
  assumes "episodes_ok s"
  shows "ensure_active_episode now uid s \<noteq> None" "close_active_episode iso_text now wm s \<noteq> None"
    "start_new_episode iso_text now uid label wm s \<noteq> None"
  using position_of_last [OF assms]
  by (auto simp: ensure_active_episode_def close_active_episode_def start_new_episode_def Let_def
      split: option.splits if_splits)

section \<open>Trimming loses nothing when a user message is recent\<close>

lemma legal_suffix_drop: "\<exists>k. legal_suffix ms = drop k ms"
  by (auto simp: legal_suffix_def)

lemma legal_suffix_answered [simp]: "calls_answered {} (legal_suffix ms)"
  by (simp add: legal_suffix_def legal_start_answered)

lemma length_legal_suffix: "length (legal_suffix ms) \<le> length ms"
  by (simp add: legal_suffix_def)

lemma recent_answered: "calls_answered {} (recent_legal_suffix n ms)"
  by (simp add: recent_legal_suffix_def Let_def)

lemma recent_bound:
  assumes "0 < n"
  shows "int (length (recent_legal_suffix n ms)) \<le> n"
proof -
  have "length (legal_suffix (drop (length kept - nat n) kept)) \<le> nat n" for kept
    using length_legal_suffix [of "drop (length kept - nat n) kept"] by simp
  then have "length (recent_legal_suffix n ms) \<le> nat n"
    using assms by (simp add: recent_legal_suffix_def Let_def)
  with assms show ?thesis by linarith
qed

definition recent_user :: "int \<Rightarrow> message list \<Rightarrow> bool" where
  "recent_user n ms = list_ex (role_is ''user'') (drop (length ms - nat n) ms)"

lemma recent_is_suffix:
  assumes "0 < n" and "recent_user n ms"
  shows "recent_legal_suffix n ms = drop (length ms - length (recent_legal_suffix n ms)) ms"
proof -
  let ?tail = "drop (length ms - nat n) ms"
  from assms(2) obtain i where i: "first_index (role_is ''user'') ?tail = Some i"
    by (cases "first_index (role_is ''user'') ?tail") (auto simp: recent_user_def list_ex_iff first_index_None)
  let ?w = "drop i ?tail"
  have w: "from_user ?tail = Some ?w" using i by (simp add: from_user_def)
  have "length (legal_suffix ?w) \<le> nat n" using length_legal_suffix [of ?w] by simp
  with w assms(1) have eq: "recent_legal_suffix n ms = legal_suffix ?w"
    by (simp add: recent_legal_suffix_def Let_def)
  obtain k where k: "legal_suffix ?w = drop k ms"
    using legal_suffix_drop [of ?w] by auto
  show ?thesis unfolding eq k by (cases "k \<le> length ms") simp_all
qed

lemma rebuild_keeps:
  assumes "rebuild_episode_indices from_iso uid s = Some t"
  shows "sn_messages t = sn_messages s \<and> sn_consolidated t = sn_consolidated s \<and> sn_key t = sn_key s \<and>
    sn_metadata t = sn_metadata s"
  using assms by (auto simp: rebuild_episode_indices_def Let_def split: option.splits if_splits)

definition in_bounds :: "nat \<Rightarrow> Episode \<Rightarrow> bool" where
  "in_bounds n e = (ep_start e < ep_end e \<and> ep_end e \<le> int n)"

lemma clamp_in_bounds: "clamp_episode n e = Some d \<Longrightarrow> in_bounds n d"
  by (auto simp: clamp_episode_def in_bounds_def Let_def split: if_splits)

lemma in_map_filter: "y \<in> set (List.map_filter f xs) \<longleftrightarrow> (\<exists>x \<in> set xs. f x = Some y)"
  by (force simp: List.map_filter_def)

lemma rebuild_in_bounds:
  assumes r: "rebuild_episode_indices from_iso uid s = Some t"
  shows "list_all (in_bounds (length (sn_messages t))) (sn_episodes t) \<and> (sn_messages t \<noteq> [] \<longrightarrow> sn_episodes t \<noteq> [])"
proof -
  let ?l = "List.map_filter (clamp_episode (length (sn_messages s))) (sn_episodes s)"
  have l: "list_all (in_bounds (length (sn_messages s))) ?l"
    by (auto simp: list_all_iff in_map_filter dest: clamp_in_bounds)
  consider (none) "sn_messages s \<noteq> []" "?l = []" "sn_episodes t = [open_episode uid []
          (first_message_timestamp from_iso (sn_messages s)) 0 (length (sn_messages s))]"
    | (some) "\<not> (sn_messages s \<noteq> [] \<and> ?l = [])" "sn_episodes t = ?l"
    using r by (auto simp: rebuild_episode_indices_def Let_def split: option.splits if_splits)
  then show ?thesis
  proof cases
    case none
    then show ?thesis using rebuild_keeps [OF r] by (auto simp: in_bounds_def open_episode_def)
  next
    case some
    then show ?thesis using rebuild_keeps [OF r] l by auto
  qed
qed

lemma cap_result:
  assumes r: "enforce_file_cap from_iso on_archive now uid limit s = (Inr t, handed)"
    and big: "0 < limit" "limit < int (length (sn_messages s))"
    and recent: "recent_user limit (sn_messages s)"
    and c: "0 \<le> sn_consolidated s" "sn_consolidated s \<le> int (length (sn_messages s))"
  defines "k \<equiv> length (sn_messages s) - length (recent_legal_suffix limit (sn_messages s))"
  shows "0 < k" and "sn_messages t = drop k (sn_messages s)"
    and "sn_consolidated t = max 0 (sn_consolidated s - int k)"
    and "handed = (if on_archive = None then [] else drop (nat (sn_consolidated s)) (take k (sn_messages s)))"
    and "list_all (in_bounds (length (sn_messages t))) (sn_episodes t)"
proof -
  let ?ms = "sn_messages s"
  have len: "length (recent_legal_suffix limit ?ms) < length ?ms"
    using recent_bound [OF big(1), of ?ms] big(2) by linarith
  then show k: "0 < k" by (simp add: k_def)
  have suf: "recent_legal_suffix limit ?ms = drop k ?ms"
    unfolding k_def by (rule recent_is_suffix [OF big(1) recent])
  have chunk: "py_from (min (sn_consolidated s) (int k)) (take k ?ms) = drop (nat (sn_consolidated s)) (take k ?ms)"
  proof -
    have "min (sn_consolidated s) (int k) = int (min (nat (sn_consolidated s)) k)" using c(1) by linarith
    then show ?thesis by (simp only: py_from_nat) (simp add: min_def)
  qed
  let ?s1 = "s\<lparr>sn_messages := drop k ?ms, sn_consolidated := max 0 (sn_consolidated s - int k), sn_updated := now\<rparr>"
  let ?s0 = "s\<lparr>sn_messages := recent_legal_suffix limit ?ms,
      sn_consolidated := max 0 (sn_consolidated s - int k), sn_updated := now\<rparr>"
  have "rebuild_episode_indices from_iso uid ?s0 = Some t \<and>
      handed = (if on_archive = None then [] else drop (nat (sn_consolidated s)) (take k ?ms))"
    using r big k chunk unfolding enforce_file_cap_def Let_def k_def [symmetric]
    by (auto split: option.splits if_splits)
  then have step: "rebuild_episode_indices from_iso uid ?s1 = Some t \<and>
      handed = (if on_archive = None then [] else drop (nat (sn_consolidated s)) (take k ?ms))"
    by (simp only: suf)
  note keeps = rebuild_keeps [OF conjunct1 [OF step]]
  then show "sn_messages t = drop k ?ms" "sn_consolidated t = max 0 (sn_consolidated s - int k)" by simp_all
  show "handed = (if on_archive = None then [] else drop (nat (sn_consolidated s)) (take k ?ms))"
    using step by blast
  show "list_all (in_bounds (length (sn_messages t))) (sn_episodes t)"
    using rebuild_in_bounds [OF conjunct1 [OF step]] by blast
qed

lemma cap_conserves:
  assumes "enforce_file_cap from_iso (Some archive_ok) now uid limit s = (Inr t, handed)"
    and "0 < limit" and "limit < int (length (sn_messages s))"
    and "recent_user limit (sn_messages s)"
    and "0 \<le> sn_consolidated s" and "sn_consolidated s \<le> int (length (sn_messages s))"
  shows "handed @ py_from (sn_consolidated t) (sn_messages t) = py_from (sn_consolidated s) (sn_messages s)"
proof -
  let ?ms = "sn_messages s" and ?c = "nat (sn_consolidated s)"
  note r = cap_result [OF assms]
  let ?k = "length ?ms - length (recent_legal_suffix limit ?ms)"
  have "sn_consolidated t = int (?c - ?k)" and c: "sn_consolidated s = int ?c"
    using r(3) assms(5) by linarith+
  then have "handed @ py_from (sn_consolidated t) (sn_messages t) = drop ?c (take ?k ?ms) @ drop (?c - ?k + ?k) ?ms"
    using r(2,4) by (simp add: add.commute)
  also have "\<dots> = drop ?c ?ms"
  proof (cases "?c \<le> ?k")
    case True
    then have "drop ?c (take ?k ?ms @ drop ?k ?ms) = drop ?c (take ?k ?ms) @ drop ?k ?ms"
      by (simp only: drop_append) (simp add: min_def)
    with True show ?thesis by simp
  next
    case False
    then show ?thesis by simp
  qed
  finally show ?thesis using py_from_nat [of ?c ?ms] assms(5) by simp
qed

text \<open>
  C17. The cap on a session file. When a user message is among the last \<open>limit\<close> messages, a successful
  cap leaves at most \<open>limit\<close> messages, a suffix of the old ones in which every tool answer follows its
  call, and what the archive is handed followed by what is still unconsolidated is exactly what was
  unconsolidated before: no message disappears. The episode indices stay inside the messages.
\<close>

theorem file_cap_loses_nothing:
  assumes "enforce_file_cap from_iso (Some archive_ok) now uid limit s = (Inr t, handed)"
    and "0 < limit" and "limit < int (length (sn_messages s))"
    and "recent_user limit (sn_messages s)"
    and "0 \<le> sn_consolidated s" and "sn_consolidated s \<le> int (length (sn_messages s))"
  shows "int (length (sn_messages t)) \<le> limit \<and> calls_answered {} (sn_messages t) \<and>
    suffix (sn_messages t) (sn_messages s) \<and>
    handed @ py_from (sn_consolidated t) (sn_messages t) = py_from (sn_consolidated s) (sn_messages s) \<and>
    list_all (in_bounds (length (sn_messages t))) (sn_episodes t)"
proof -
  note r = cap_result [OF assms]
  have suf: "sn_messages t = recent_legal_suffix limit (sn_messages s)"
    using r(2) recent_is_suffix [OF assms(2,4)] by simp
  with r(2) have "suffix (recent_legal_suffix limit (sn_messages s)) (sn_messages s)" by (metis suffix_drop)
  with r(5) recent_bound [OF assms(2), of "sn_messages s"] recent_answered [of limit "sn_messages s"]
    cap_conserves [OF assms] show ?thesis
    unfolding suf by simp
qed

text \<open>A session of \<open>n\<close> exchanges, as the examples below use it.\<close>

definition say :: "string \<Rightarrow> string \<Rightarrow> message" where
  "say role text = [(''role'', JStr role), (''content'', JStr text)]"

definition sample_session :: "message list \<Rightarrow> Session" where
  "sample_session ms = (new_session ''cli:1'' 0)\<lparr>sn_messages := ms,
     sn_episodes := [open_episode ''e'' [] None 0 (length ms)]\<rparr>"

theorem file_cap_loses_nothing_witness:
  "let s = sample_session [say ''user'' ''a'', say ''assistant'' ''b'', say ''user'' ''c'', say ''assistant'' ''d''];
       r = enforce_file_cap (\<lambda>_. None) (Some (\<lambda>_. True)) 7 ''u'' 3 s
   in (\<exists>t. r = (Inr t, [say ''user'' ''a'', say ''assistant'' ''b'']) \<and>
        sn_messages t = [say ''user'' ''c'', say ''assistant'' ''d''] \<and> suffix (sn_messages t) (sn_messages s))"
proof -
  let ?s = "sample_session [say ''user'' ''a'', say ''assistant'' ''b'', say ''user'' ''c'', say ''assistant'' ''d'']"
  let ?t = "?s\<lparr>sn_messages := [say ''user'' ''c'', say ''assistant'' ''d''], sn_updated := 7,
      sn_episodes := [open_episode ''e'' [] None 0 2]\<rparr>"
  have r: "enforce_file_cap (\<lambda>_. None) (Some (\<lambda>_. True)) 7 ''u'' 3 ?s =
      (Inr ?t, [say ''user'' ''a'', say ''assistant'' ''b''])"
    by code_simp
  have "suffix (sn_messages ?t) (sn_messages ?s)"
    using file_cap_loses_nothing [OF r] by (simp add: sample_session_def new_session_def recent_user_def role_is_def say_def)
  with r show ?thesis by (simp only: Let_def) auto
qed

text \<open>
  Without a recent user message the cap is not harmless: the window is then taken forward from the
  last user message, but the count of dropped messages is still cut from the front. The newest
  messages are neither kept nor archived, and the kept ones are archived.
\<close>

lemma cap_loses_newest:
  "\<exists>t. enforce_file_cap from_iso (Some (\<lambda>_. True)) now uid 2
      (sample_session [say ''user'' ''a'', say ''assistant'' ''b'', say ''assistant'' ''c'', say ''assistant'' ''d'']) =
        (Inr t, [say ''user'' ''a'', say ''assistant'' ''b'']) \<and>
      sn_messages t = [say ''user'' ''a'', say ''assistant'' ''b'']"
  by (simp add: enforce_file_cap_def sample_session_def new_session_def Let_def recent_legal_suffix_def
      from_user_def role_is_def say_def legal_suffix_def find_legal_message_start_def declared_ids_def
      py_from_def py_bound_def rebuild_episode_indices_def List.map_filter_def clamp_episode_def
      open_episode_def rebuilt_active_def py_position_def)

text \<open>
  Nor do the indices follow the messages: they are cut at the new length but not moved. Here the
  two newest of six messages stay. Both belong to the second, open episode, yet the session is left
  with the first, closed one, which now claims them.
\<close>

lemma trim_scrambles_episodes:
  "let e1 = (open_episode ''e1'' [] None 0 2)\<lparr>ep_status := ''closed''\<rparr>; e2 = open_episode ''e2'' [] None 2 6;
       u = (\<lambda>e t. (''episode_id'', JStr e) # say ''user'' t);
       s = (sample_session [u ''e1'' ''a'', u ''e1'' ''b'', u ''e2'' ''c'', u ''e2'' ''d'', u ''e2'' ''f'', u ''e2'' ''g''])
             \<lparr>sn_episodes := [e1, e2], sn_active := 1\<rparr>
   in episodes_ok s \<and>
      (case retain_recent_legal_suffix (\<lambda>_. None) 7 ''u'' 2 s of
         None \<Rightarrow> False
       | Some t \<Rightarrow> sn_messages t = [u ''e2'' ''f'', u ''e2'' ''g''] \<and>
           map ep_id (sn_episodes t) = [''e1''] \<and> active_episode t = None \<and>
           episode_messages (hd (sn_episodes t)) t = sn_messages t)"
  by code_simp

end
