(* ===== verification/SessionStore.thy ===== *)
theory SessionStore
  imports Session
begin

text \<open>
  The files of the sessions: \<^verbatim>\<open>SessionManager\<close> in \<^verbatim>\<open>OriginAgent/session/manager.py\<close>.

  A file is the list of its non-blank lines, each the value that \<^verbatim>\<open>json.loads\<close> gives for it, or a
  line that does not parse, or one whose bytes are not UTF-8, at which reading the file raises; a value written with \<^verbatim>\<open>json.dumps\<close> is read back as itself. Fields have the
  JSON types that \<open>save_session\<close> writes. Instants are printed by \<open>iso_text\<close> and read by \<open>from_iso\<close>.
\<close>

section \<open>State\<close>

datatype file_line = Parsed json | Corrupt | Undecodable

type_synonym session_file = "file_line list"

record SessionManager =
  sm_files :: "(string, session_file) dict"
  sm_legacy :: "(string, session_file) dict"
  sm_cache :: "(string, Session) dict"

definition unsafe_chars :: "char set" where
  "unsafe_chars = {CHR 0x22, CHR 0x5C} \<union> set ''<>:/|?*''"

definition safe_filename :: "string \<Rightarrow> string" where
  "safe_filename name = py_strip (map (\<lambda>c. if c \<in> unsafe_chars then CHR ''_'' else c) name)"

definition safe_key :: "string \<Rightarrow> string" where
  "safe_key key = safe_filename (map (\<lambda>c. if c = CHR '':'' then CHR ''_'' else c) key)"

section \<open>Writing\<close>

definition serialize_episode :: "(int \<Rightarrow> string) \<Rightarrow> Episode \<Rightarrow> json" where
  "serialize_episode iso_text e = JObj ([(''episode_id'', JStr (ep_id e)), (''label'', JStr (ep_label e)),
     (''msg_start'', JInt (ep_start e)), (''msg_end'', JInt (ep_end e)), (''status'', JStr (ep_status e))] @
     time_entry iso_text ''started_at'' (ep_started e) @ time_entry iso_text ''ended_at'' (ep_ended e))"

definition serialize_episodes :: "(int \<Rightarrow> string) \<Rightarrow> Episode list \<Rightarrow> json" where
  "serialize_episodes iso_text es = JList (map (serialize_episode iso_text) es)"

definition metadata_line :: "(int \<Rightarrow> string) \<Rightarrow> Session \<Rightarrow> json" where
  "metadata_line iso_text s = JObj [(''_type'', JStr ''metadata''), (''key'', JStr (sn_key s)),
     (''created_at'', JStr (iso_text (sn_created s))), (''updated_at'', JStr (iso_text (sn_updated s))),
     (''metadata'', JObj (sn_metadata s)), (''last_consolidated'', JInt (sn_consolidated s)),
     (''episodes'', serialize_episodes iso_text (sn_episodes s)),
     (''active_episode_index'', JInt (sn_active s))]"

definition session_lines :: "(int \<Rightarrow> string) \<Rightarrow> Session \<Rightarrow> session_file" where
  "session_lines iso_text s = Parsed (metadata_line iso_text s) # map (\<lambda>m. Parsed (JObj m)) (sn_messages s)"

text \<open>
  \<^verbatim>\<open>os.replace\<close> is asked up to three times; the outcomes of the attempts are an argument. Only a
  \<^verbatim>\<open>PermissionError\<close> is tried again. \<open>None\<close> is success.
\<close>

datatype replace_outcome = Replaced | PermissionDenied | ReplaceFails string

definition REPLACE_MAX_RETRIES :: nat where
  "REPLACE_MAX_RETRIES = 3"

fun replace_loop :: "nat \<Rightarrow> replace_outcome list \<Rightarrow> string option \<Rightarrow> string option" where
  "replace_loop 0 os last_error = last_error"
| "replace_loop (Suc n) [] last_error = None"
| "replace_loop (Suc n) (r # os) last_error =
     (case r of Replaced \<Rightarrow> None
      | PermissionDenied \<Rightarrow> replace_loop n os (Some ''PermissionError'')
      | ReplaceFails e \<Rightarrow> Some e)"

definition atomic_replace :: "replace_outcome list \<Rightarrow> string option" where
  "atomic_replace os = replace_loop REPLACE_MAX_RETRIES os None"

text \<open>What the file system does during one save: the write of the temporary file, then the replace.\<close>

record save_io =
  io_write :: "string option"
  io_replace :: "replace_outcome list"

definition save_session ::
    "(int \<Rightarrow> string) \<Rightarrow> save_io \<Rightarrow> Session \<Rightarrow> SessionManager \<Rightarrow> string option \<times> SessionManager" where
  "save_session iso_text io s sm =
     (case io_write io of
        Some e \<Rightarrow> (Some e, sm)
      | None \<Rightarrow> (case atomic_replace (io_replace io) of
            Some e \<Rightarrow> (Some e, sm)
          | None \<Rightarrow> (None, sm\<lparr>sm_files := dict_set (safe_key (sn_key s)) (session_lines iso_text s) (sm_files sm),
                              sm_cache := dict_set (sn_key s) s (sm_cache sm)\<rparr>)))"

section \<open>Reading\<close>

definition json_int :: "json option \<Rightarrow> int option" where
  "json_int v = (case v of None \<Rightarrow> Some 0 | Some (JInt i) \<Rightarrow> Some i | Some (JStr t) \<Rightarrow> parse_int t
     | Some (JBool b) \<Rightarrow> Some (of_bool b) | _ \<Rightarrow> None)"

definition read_time :: "(string \<Rightarrow> int option) \<Rightarrow> json option \<Rightarrow> int option" where
  "read_time from_iso v = (case v of Some (JStr t) \<Rightarrow> if t = [] then None else from_iso t | _ \<Rightarrow> None)"

definition str_default :: "string \<Rightarrow> string \<Rightarrow> json_obj \<Rightarrow> string" where
  "str_default k dflt d = (case dict_get d k of Some j \<Rightarrow> py_str j | None \<Rightarrow> dflt)"

definition deserialize_episode :: "(string \<Rightarrow> int option) \<Rightarrow> json \<Rightarrow> Episode option" where
  "deserialize_episode from_iso j =
     (case j of
        JObj d \<Rightarrow>
          (case (json_int (dict_get d ''msg_start''), json_int (dict_get d ''msg_end'')) of
             (Some a, Some b) \<Rightarrow> Some \<lparr>ep_id = str_default ''episode_id'' [] d,
                 ep_label = str_default ''label'' [] d,
                 ep_started = read_time from_iso (dict_get d ''started_at''),
                 ep_ended = read_time from_iso (dict_get d ''ended_at''),
                 ep_start = a, ep_end = b, ep_status = str_default ''status'' ''active'' d\<rparr>
           | _ \<Rightarrow> None)
      | _ \<Rightarrow> None)"

definition deserialize_episodes :: "(string \<Rightarrow> int option) \<Rightarrow> json option \<Rightarrow> Episode list option" where
  "deserialize_episodes from_iso v =
     (case v of Some (JList (j # js)) \<Rightarrow> those (map (deserialize_episode from_iso) (j # js)) | _ \<Rightarrow> Some [])"

text \<open>
  The loop over the lines. \<open>strict\<close> is \<^verbatim>\<open>_load\<close>, where a line that does not parse or an unreadable stamp
  raises; otherwise it is \<^verbatim>\<open>_repair\<close>, which skips both. \<open>None\<close> is an exception: both loops raise at a line that
  is not UTF-8 and at a value that is no object.
\<close>

record loaded =
  ld_messages :: "message list"
  ld_metadata :: json_obj
  ld_created :: "int option"
  ld_updated :: "int option"
  ld_consolidated :: int
  ld_episodes :: "json option"
  ld_active :: int

definition nothing_loaded :: loaded where
  "nothing_loaded = \<lparr>ld_messages = [], ld_metadata = [], ld_created = None, ld_updated = None,
     ld_consolidated = 0, ld_episodes = None, ld_active = 0\<rparr>"

definition is_metadata :: "message \<Rightarrow> bool" where
  "is_metadata m = (dict_get m ''_type'' = Some (JStr ''metadata''))"

definition time_field :: "bool \<Rightarrow> (string \<Rightarrow> int option) \<Rightarrow> string \<Rightarrow> int option \<Rightarrow> json_obj \<Rightarrow> int option option" where
  "time_field strict from_iso k old d =
     (let t = read_time from_iso (dict_get d k) in
      if truthy_field k d then (case t of Some x \<Rightarrow> Some (Some x) | None \<Rightarrow> if strict then None else Some old)
      else Some (if strict then None else old))"

definition load_metadata :: "bool \<Rightarrow> (string \<Rightarrow> int option) \<Rightarrow> json_obj \<Rightarrow> loaded \<Rightarrow> loaded option" where
  "load_metadata strict from_iso d acc =
     (case (time_field strict from_iso ''created_at'' (ld_created acc) d,
            time_field strict from_iso ''updated_at'' (ld_updated acc) d,
            json_int (dict_get d ''last_consolidated''),
            json_int (dict_get d ''active_episode_index'')) of
        (Some c, Some u, Some k, Some a) \<Rightarrow>
          Some (acc\<lparr>ld_metadata := (case dict_get d ''metadata'' of Some (JObj md) \<Rightarrow> md | _ \<Rightarrow> []),
            ld_created := c, ld_updated := u, ld_consolidated := k,
            ld_episodes := dict_get d ''episodes'', ld_active := a\<rparr>)
      | _ \<Rightarrow> None)"

fun load_lines :: "bool \<Rightarrow> (string \<Rightarrow> int option) \<Rightarrow> session_file \<Rightarrow> loaded \<Rightarrow> loaded option" where
  "load_lines strict from_iso [] acc = Some acc"
| "load_lines strict from_iso (Corrupt # ls) acc =
     (if strict then None else load_lines strict from_iso ls acc)"
| "load_lines strict from_iso (Undecodable # ls) acc = None"
| "load_lines strict from_iso (Parsed j # ls) acc =
     (case j of
        JObj d \<Rightarrow>
          if is_metadata d
          then (case load_metadata strict from_iso d acc of
                  Some acc1 \<Rightarrow> load_lines strict from_iso ls acc1 | None \<Rightarrow> None)
          else load_lines strict from_iso ls (acc\<lparr>ld_messages := ld_messages acc @ [d]\<rparr>)
      | _ \<Rightarrow> None)"

definition build_session ::
    "(string \<Rightarrow> int option) \<Rightarrow> int \<Rightarrow> string \<Rightarrow> string \<Rightarrow> loaded \<Rightarrow> Session option" where
  "build_session from_iso now uid key l =
     map_option (\<lambda>es. post_init from_iso uid
        \<lparr>sn_key = key, sn_messages = ld_messages l, sn_episodes = es, sn_active = ld_active l,
         sn_created = (case ld_created l of Some t \<Rightarrow> t | None \<Rightarrow> now),
         sn_updated = (case ld_updated l of Some t \<Rightarrow> t | None \<Rightarrow> now),
         sn_metadata = ld_metadata l, sn_consolidated = ld_consolidated l\<rparr>)
       (deserialize_episodes from_iso (ld_episodes l))"

definition repair_session ::
    "(string \<Rightarrow> int option) \<Rightarrow> int \<Rightarrow> string \<Rightarrow> string \<Rightarrow> session_file \<Rightarrow> Session option" where
  "repair_session from_iso now uid key ls =
     (case load_lines False from_iso ls nothing_loaded of
        None \<Rightarrow> None
      | Some l \<Rightarrow> if ld_messages l = [] \<and> ld_metadata l = [] then None
                  else build_session from_iso now uid key l)"

definition read_session ::
    "(string \<Rightarrow> int option) \<Rightarrow> int \<Rightarrow> string \<Rightarrow> string \<Rightarrow> session_file \<Rightarrow> Session option" where
  "read_session from_iso now uid key ls =
     (case Option.bind (load_lines True from_iso ls nothing_loaded) (build_session from_iso now uid key) of
        Some s \<Rightarrow> Some s
      | None \<Rightarrow> repair_session from_iso now uid key ls)"

text \<open>A file at the old place is moved first; \<open>move_ok\<close> says whether the move succeeds.\<close>

definition migrate_legacy :: "bool \<Rightarrow> string \<Rightarrow> SessionManager \<Rightarrow> SessionManager" where
  "migrate_legacy move_ok stem sm =
     (case (dict_get (sm_files sm) stem, dict_get (sm_legacy sm) stem) of
        (None, Some ls) \<Rightarrow>
          if move_ok then sm\<lparr>sm_files := dict_set stem ls (sm_files sm), sm_legacy := dict_del stem (sm_legacy sm)\<rparr>
          else sm
      | _ \<Rightarrow> sm)"

definition load_session ::
    "(string \<Rightarrow> int option) \<Rightarrow> bool \<Rightarrow> int \<Rightarrow> string \<Rightarrow> string \<Rightarrow> SessionManager
     \<Rightarrow> Session option \<times> SessionManager" where
  "load_session from_iso move_ok now uid key sm =
     (let sm1 = migrate_legacy move_ok (safe_key key) sm
      in (case dict_get (sm_files sm1) (safe_key key) of
            None \<Rightarrow> None | Some ls \<Rightarrow> read_session from_iso now uid key ls, sm1))"

definition get_or_create ::
    "(string \<Rightarrow> int option) \<Rightarrow> bool \<Rightarrow> int \<Rightarrow> string \<Rightarrow> string \<Rightarrow> SessionManager \<Rightarrow> Session \<times> SessionManager" where
  "get_or_create from_iso move_ok now uid key sm =
     (case dict_get (sm_cache sm) key of
        Some s \<Rightarrow> (s, sm)
      | None \<Rightarrow>
          let (r, sm1) = load_session from_iso move_ok now uid key sm;
              s = (case r of Some s \<Rightarrow> s | None \<Rightarrow> new_session key now)
          in (s, sm1\<lparr>sm_cache := dict_set key s (sm_cache sm1)\<rparr>))"

text \<open>The code hands out the cached object itself; a change made to it is a change of the cache.\<close>

definition change_cached :: "string \<Rightarrow> (Session \<Rightarrow> Session) \<Rightarrow> SessionManager \<Rightarrow> SessionManager" where
  "change_cached key f sm = (case dict_get (sm_cache sm) key of
       Some s \<Rightarrow> sm\<lparr>sm_cache := dict_set key (f s) (sm_cache sm)\<rparr> | None \<Rightarrow> sm)"

definition invalidate_session :: "string \<Rightarrow> SessionManager \<Rightarrow> SessionManager" where
  "invalidate_session key sm = sm\<lparr>sm_cache := dict_del key (sm_cache sm)\<rparr>"

definition delete_session :: "bool \<Rightarrow> string \<Rightarrow> SessionManager \<Rightarrow> bool \<times> SessionManager" where
  "delete_session unlink_ok key sm =
     (let sm1 = invalidate_session key sm
      in if dict_get (sm_files sm1) (safe_key key) = None \<or> \<not> unlink_ok then (False, sm1)
         else (True, sm1\<lparr>sm_files := dict_del (safe_key key) (sm_files sm1)\<rparr>))"

text \<open>Every cached session is saved; \<open>io\<close> gives the file system's behaviour for each key.\<close>

fun flush_sessions ::
    "(int \<Rightarrow> string) \<Rightarrow> (string \<Rightarrow> save_io) \<Rightarrow> (string \<times> Session) list \<Rightarrow> nat \<Rightarrow> SessionManager
     \<Rightarrow> nat \<times> SessionManager" where
  "flush_sessions iso_text io [] n sm = (n, sm)"
| "flush_sessions iso_text io ((key, s) # r) n sm =
     (case save_session iso_text (io key) s sm of
        (None, sm1) \<Rightarrow> flush_sessions iso_text io r (Suc n) sm1
      | (Some e, sm1) \<Rightarrow> flush_sessions iso_text io r n sm1)"

definition flush_all :: "(int \<Rightarrow> string) \<Rightarrow> (string \<Rightarrow> save_io) \<Rightarrow> SessionManager \<Rightarrow> nat \<times> SessionManager" where
  "flush_all iso_text io sm = flush_sessions iso_text io (sm_cache sm) 0 sm"

text \<open>The read-only view of a file for the HTTP handlers.\<close>

record session_view =
  sv_key :: string
  sv_created :: "json option"
  sv_updated :: "json option"
  sv_metadata :: json_obj
  sv_messages :: "message list"
  sv_episodes :: "(Episode list \<times> int) option"

fun view_lines :: "session_file \<Rightarrow> string option \<times> json option \<times> json option \<times> loaded
    \<Rightarrow> (string option \<times> json option \<times> json option \<times> loaded) option" where
  "view_lines [] acc = Some acc"
| "view_lines (Corrupt # ls) acc = None"
| "view_lines (Undecodable # ls) acc = None"
| "view_lines (Parsed j # ls) (k, c, u, l) =
     (case j of
        JObj d \<Rightarrow>
          if is_metadata d
          then (case json_int (dict_get d ''active_episode_index'') of
                  None \<Rightarrow> None
                | Some a \<Rightarrow> view_lines ls
                    (case dict_get d ''key'' of Some (JStr t) \<Rightarrow> Some t | _ \<Rightarrow> None, dict_get d ''created_at'',
                     dict_get d ''updated_at'',
                     l\<lparr>ld_metadata := (case dict_get d ''metadata'' of Some (JObj md) \<Rightarrow> md | _ \<Rightarrow> []),
                       ld_episodes := dict_get d ''episodes'', ld_active := a\<rparr>))
          else view_lines ls (k, c, u, l\<lparr>ld_messages := ld_messages l @ [d]\<rparr>)
      | _ \<Rightarrow> None)"

definition session_payload :: "(int \<Rightarrow> string) \<Rightarrow> Session \<Rightarrow> session_view" where
  "session_payload iso_text s = \<lparr>sv_key = sn_key s, sv_created = Some (JStr (iso_text (sn_created s))),
     sv_updated = Some (JStr (iso_text (sn_updated s))), sv_metadata = sn_metadata s,
     sv_messages = sn_messages s, sv_episodes = None\<rparr>"

definition read_session_file ::
    "(int \<Rightarrow> string) \<Rightarrow> (string \<Rightarrow> int option) \<Rightarrow> int \<Rightarrow> string \<Rightarrow> string \<Rightarrow> SessionManager \<Rightarrow> session_view option" where
  "read_session_file iso_text from_iso now uid key sm =
     (case dict_get (sm_files sm) (safe_key key) of
        None \<Rightarrow> None
      | Some ls \<Rightarrow>
          (case Option.bind (view_lines ls (None, None, None, nothing_loaded))
              (\<lambda>(k, c, u, l). map_option (\<lambda>es.
                 \<lparr>sv_key = opt_or k key, sv_created = c, sv_updated = u, sv_metadata = ld_metadata l,
                  sv_messages = ld_messages l, sv_episodes = Some (es, ld_active l)\<rparr>)
                (deserialize_episodes from_iso (ld_episodes l))) of
             Some v \<Rightarrow> Some v
           | None \<Rightarrow> map_option (session_payload iso_text) (repair_session from_iso now uid key ls)))"

section \<open>Saving and loading\<close>

definition session_stamps :: "Session \<Rightarrow> int list" where
  "session_stamps s = sn_created s # sn_updated s #
     concat (map (\<lambda>e. (case ep_started e of Some t \<Rightarrow> [t] | None \<Rightarrow> []) @
       (case ep_ended e of Some t \<Rightarrow> [t] | None \<Rightarrow> [])) (sn_episodes s))"

definition readable_stamp :: "(int \<Rightarrow> string) \<Rightarrow> (string \<Rightarrow> int option) \<Rightarrow> int \<Rightarrow> bool" where
  "readable_stamp iso_text from_iso t = (iso_text t \<noteq> [] \<and> from_iso (iso_text t) = Some t)"

text \<open>No message looks like the metadata line, and messages belong to an episode.\<close>

definition storable :: "Session \<Rightarrow> bool" where
  "storable s = (list_all (\<lambda>m. \<not> is_metadata m) (sn_messages s) \<and>
     (sn_messages s \<noteq> [] \<longrightarrow> sn_episodes s \<noteq> []))"

lemma py_str_JStr [simp]: "py_str (JStr t) = t"
  by (simp add: py_str_def)

lemma deserialize_serialize:
  assumes "\<And>t. ep_started e = Some t \<or> ep_ended e = Some t \<Longrightarrow> readable_stamp iso_text from_iso t"
  shows "deserialize_episode from_iso (serialize_episode iso_text e) = Some e"
proof -
  have "\<And>t. ep_started e = Some t \<Longrightarrow> readable_stamp iso_text from_iso t"
    "\<And>t. ep_ended e = Some t \<Longrightarrow> readable_stamp iso_text from_iso t" using assms by auto
  then show ?thesis
    by (cases e) (auto simp: deserialize_episode_def serialize_episode_def json_int_def str_default_def
        read_time_def time_entry_def readable_stamp_def split: option.splits)
qed

lemma those_map: "(\<And>x. x \<in> set xs \<Longrightarrow> f (g x) = Some x) \<Longrightarrow> those (map f (map g xs)) = Some xs"
  by (induction xs) auto

lemma episodes_back:
  assumes "\<forall>t \<in> set (session_stamps s). readable_stamp iso_text from_iso t"
  shows "deserialize_episodes from_iso (Some (serialize_episodes iso_text (sn_episodes s))) = Some (sn_episodes s)"
proof -
  have "deserialize_episode from_iso (serialize_episode iso_text e) = Some e" if "e \<in> set (sn_episodes s)" for e
  proof (rule deserialize_serialize)
    fix t assume t: "ep_started e = Some t \<or> ep_ended e = Some t"
    have "t \<in> set (session_stamps s)"
      using that t by (auto simp: session_stamps_def intro!: bexI [of _ e])
    with assms show "readable_stamp iso_text from_iso t" by blast
  qed
  then have "those (map (deserialize_episode from_iso) (map (serialize_episode iso_text) (sn_episodes s))) =
      Some (sn_episodes s)" by (rule those_map)
  then show ?thesis
    by (cases "sn_episodes s") (simp_all add: deserialize_episodes_def serialize_episodes_def del: map_map)
qed

definition loaded_of :: "(int \<Rightarrow> string) \<Rightarrow> Session \<Rightarrow> message list \<Rightarrow> loaded" where
  "loaded_of iso_text s ms = \<lparr>ld_messages = ms, ld_metadata = sn_metadata s, ld_created = Some (sn_created s),
     ld_updated = Some (sn_updated s), ld_consolidated = sn_consolidated s,
     ld_episodes = Some (serialize_episodes iso_text (sn_episodes s)), ld_active = sn_active s\<rparr>"

lemma loaded_of_fields [simp]: "ld_messages (loaded_of iso_text s ms) = ms"
    "ld_metadata (loaded_of iso_text s ms) = sn_metadata s"
  by (simp_all add: loaded_of_def)

lemma load_metadata_line:
  assumes "\<forall>t \<in> set (session_stamps s). readable_stamp iso_text from_iso t"
  shows "load_lines strict from_iso (Parsed (metadata_line iso_text s) # ls) nothing_loaded =
    load_lines strict from_iso ls (loaded_of iso_text s [])"
proof -
  have "readable_stamp iso_text from_iso (sn_created s)" "readable_stamp iso_text from_iso (sn_updated s)"
    using assms by (auto simp: session_stamps_def)
  then show ?thesis
    by (simp add: metadata_line_def is_metadata_def load_metadata_def time_field_def read_time_def truthy_field_def
        json_int_def loaded_of_def nothing_loaded_def readable_stamp_def Let_def)
qed

text \<open>What can have become of a message line: another JSON value, a line that does not parse, bytes that are no text.\<close>

datatype damage = Intact | Unparsable | OtherValue json | NotText

definition damaged_line :: "message \<Rightarrow> damage \<Rightarrow> file_line" where
  "damaged_line m d = (case d of Intact \<Rightarrow> Parsed (JObj m) | Unparsable \<Rightarrow> Corrupt | OtherValue j \<Rightarrow> Parsed j
     | NotText \<Rightarrow> Undecodable)"

definition damaged_lines :: "message list \<Rightarrow> damage list \<Rightarrow> session_file" where
  "damaged_lines ms ds = map (\<lambda>(m, d). damaged_line m d) (zip ms ds)"

definition undamaged :: "message list \<Rightarrow> damage list \<Rightarrow> message list" where
  "undamaged ms ds = map fst (filter (\<lambda>(m, d). d = Intact) (zip ms ds))"

text \<open>The damage that the repair cannot skip.\<close>

definition fatal :: "damage \<Rightarrow> bool" where
  "fatal d = (case d of OtherValue j \<Rightarrow> True | NotText \<Rightarrow> True | _ \<Rightarrow> False)"

definition no_object :: "damage \<Rightarrow> bool" where
  "no_object d = (case d of OtherValue (JObj _) \<Rightarrow> False | _ \<Rightarrow> True)"

lemma load_message_lines:
  "length ds = length ms \<Longrightarrow> list_all no_object ds \<Longrightarrow> list_all (\<lambda>m. \<not> is_metadata m) ms \<Longrightarrow>
   load_lines strict from_iso (damaged_lines ms ds) acc =
     (if list_ex fatal ds \<or> strict \<and> Unparsable \<in> set ds then None
      else Some (acc\<lparr>ld_messages := ld_messages acc @ undamaged ms ds\<rparr>))"
proof (induction ds ms arbitrary: acc rule: list_induct2)
  case Nil
  then show ?case by (simp add: damaged_lines_def undamaged_def)
next
  case (Cons d ds m ms)
  then show ?case
    by (cases d) (auto simp: damaged_lines_def undamaged_def damaged_line_def fatal_def no_object_def split: json.splits)
qed

lemma build_back:
  assumes "\<forall>t \<in> set (session_stamps s). readable_stamp iso_text from_iso t"
    and "ms \<noteq> [] \<longrightarrow> sn_episodes s \<noteq> []"
  shows "build_session from_iso now uid (sn_key s) (loaded_of iso_text s ms) = Some (s\<lparr>sn_messages := ms\<rparr>)"
  using assms(2) by (auto simp: build_session_def loaded_of_def episodes_back [OF assms(1)] post_init_def)

lemma read_damaged:
  assumes stamps: "\<forall>t \<in> set (session_stamps s). readable_stamp iso_text from_iso t"
    and st: "storable s" and ds: "length ds = length (sn_messages s)" "list_all no_object ds"
  shows "read_session from_iso now uid (sn_key s)
      (Parsed (metadata_line iso_text s) # damaged_lines (sn_messages s) ds) =
     (if list_ex fatal ds \<or> Unparsable \<in> set ds \<and> undamaged (sn_messages s) ds = [] \<and> sn_metadata s = [] then None
      else Some (s\<lparr>sn_messages := undamaged (sn_messages s) ds\<rparr>))"
proof -
  let ?ls = "Parsed (metadata_line iso_text s) # damaged_lines (sn_messages s) ds"
  let ?ms = "undamaged (sn_messages s) ds"
  have l: "load_lines strict from_iso ?ls nothing_loaded =
      (if list_ex fatal ds \<or> strict \<and> Unparsable \<in> set ds then None else Some (loaded_of iso_text s ?ms))" for strict
    using st load_metadata_line [OF stamps] load_message_lines [OF ds, of strict from_iso "loaded_of iso_text s []"]
    by (simp add: storable_def loaded_of_def)
  have "?ms \<noteq> [] \<longrightarrow> sn_messages s \<noteq> []" by (auto simp: undamaged_def)
  with st have b: "build_session from_iso now uid (sn_key s) (loaded_of iso_text s ?ms) = Some (s\<lparr>sn_messages := ?ms\<rparr>)"
    by (intro build_back [OF stamps]) (auto simp: storable_def)
  show ?thesis
    unfolding read_session_def repair_session_def l by (simp add: b)
qed



text \<open>
  C24. Saving and loading. A save either fails and changes neither file nor cache, or succeeds, and then
  loading the key from disk gives back the saved session, and the files of all other stems are
  untouched.
\<close>

theorem session_round_trip:
  assumes "save_session iso_text io s sm = (e, t)" and "storable s"
    and "\<forall>x \<in> set (session_stamps s). readable_stamp iso_text from_iso x"
  shows "(case e of
       Some err \<Rightarrow> t = sm
     | None \<Rightarrow> fst (load_session from_iso move_ok now uid (sn_key s) t) = Some s \<and>
         dict_get (sm_cache t) (sn_key s) = Some s \<and>
         (\<forall>stem. stem = safe_key (sn_key s) \<or> dict_get (sm_files t) stem = dict_get (sm_files sm) stem))"
proof (cases e)
  case None
  with assms(1) have t: "t = sm\<lparr>sm_files := dict_set (safe_key (sn_key s)) (session_lines iso_text s) (sm_files sm),
      sm_cache := dict_set (sn_key s) s (sm_cache sm)\<rparr>"
    by (auto simp: save_session_def split: option.splits)
  let ?bs = "replicate (length (sn_messages s)) Intact"
  have "session_lines iso_text s = Parsed (metadata_line iso_text s) # damaged_lines (sn_messages s) ?bs"
    by (rule nth_equalityI) (auto simp: session_lines_def damaged_lines_def damaged_line_def nth_Cons split: nat.splits)
  moreover have "undamaged (sn_messages s) ?bs = sn_messages s"
    unfolding undamaged_def by (subst filter_True) (auto dest!: set_zip_rightD)
  ultimately have "read_session from_iso now uid (sn_key s) (session_lines iso_text s) = Some s"
    using read_damaged [OF assms(3,2), of ?bs] by (simp add: in_set_replicate list_ex_iff list_all_iff fatal_def no_object_def)
  then show ?thesis
    using None by (auto simp: t load_session_def migrate_legacy_def dict_get_set split: option.splits)
next
  case (Some err)
  with assms(1) show ?thesis by (auto simp: save_session_def split: option.splits)
qed

definition empty_manager :: SessionManager where
  "empty_manager = \<lparr>sm_files = [], sm_legacy = [], sm_cache = []\<rparr>"

theorem session_round_trip_witness:
  "let s = sample_session [say ''user'' ''a'', say ''assistant'' ''b''];
       t = snd (save_session show_int \<lparr>io_write = None, io_replace = [PermissionDenied, Replaced]\<rparr> s empty_manager)
   in fst (load_session parse_int True 9 ''u'' (sn_key s) t) = Some s"
proof -
  let ?s = "sample_session [say ''user'' ''a'', say ''assistant'' ''b'']"
  let ?r = "save_session show_int \<lparr>io_write = None, io_replace = [PermissionDenied, Replaced]\<rparr> ?s empty_manager"
  have "\<forall>t \<in> set (session_stamps ?s). readable_stamp show_int parse_int t" by code_simp
  moreover have "storable ?s" by code_simp
  moreover have e: "fst ?r = None" by code_simp
  then have "?r = (None, snd ?r)" by (simp add: prod_eq_iff)
  ultimately show ?thesis
    using session_round_trip [of show_int _ ?s empty_manager None "snd ?r" parse_int True 9 "''u''"]
    by (simp add: Let_def)
qed

text \<open>
  The stem of the file is not a function of the key alone: keys that differ in a colon and an
  underscore share a file, so a session never used before starts with the other one's messages.
\<close>

lemma keys_share_file:
  "let s = sample_session [say ''user'' ''secret''];
       sm = snd (save_session show_int \<lparr>io_write = None, io_replace = []\<rparr> s empty_manager);
       t = fst (get_or_create parse_int True 9 ''u'' ''cli_1'' sm)
   in sn_key s = ''cli:1'' \<and> sn_key t = ''cli_1'' \<and> sn_messages t = sn_messages s"
  by code_simp

text \<open>
  The number of consolidated messages is not corrected when lines are lost: here one of three
  messages survives, unconsolidated, but counts as consolidated and is never shown.
\<close>

lemma repair_hides_messages:
  "let s = (sample_session [say ''user'' ''a'', say ''user'' ''b'', say ''user'' ''c''])\<lparr>sn_consolidated := 2\<rparr>
   in case read_session parse_int 9 ''u'' ''cli:1''
            (Parsed (metadata_line show_int s) # damaged_lines (sn_messages s) [Unparsable, Unparsable, Intact]) of
        None \<Rightarrow> False
      | Some t \<Rightarrow> sn_messages t = [say ''user'' ''c''] \<and> py_from (sn_consolidated t) (sn_messages t) = []"
  by code_simp

text \<open>Flushing counts the sessions whose save succeeds and goes on after a failure.\<close>

definition save_works :: "save_io \<Rightarrow> bool" where
  "save_works io = (io_write io = None \<and> atomic_replace (io_replace io) = None)"

lemma save_works_iff: "fst (save_session iso_text io s sm) = None \<longleftrightarrow> save_works io"
  by (auto simp: save_session_def save_works_def split: option.splits)

lemma flush_counts:
  "fst (flush_sessions iso_text io kvs n sm) = n + length (filter (\<lambda>(k, s). save_works (io k)) kvs)"
proof (induction iso_text io kvs n sm rule: flush_sessions.induct)
  case (1 iso_text io n sm)
  then show ?case by simp
next
  case (2 iso_text io key s r n sm)
  show ?case
  proof (cases "save_session iso_text (io key) s sm")
    case (Pair e sm1)
    with save_works_iff [of iso_text "io key" s sm] 2 show ?thesis
      by (cases e) auto
  qed
qed

lemma replace_tries_thrice:
  "atomic_replace os = None \<longleftrightarrow>
     (\<exists>k < 3. take k os = replicate k PermissionDenied \<and> (length os = k \<or> k < length os \<and> os ! k = Replaced))"
proof -
  have *: "replace_loop n os le = None \<longleftrightarrow> (n = 0 \<and> le = None) \<or>
     (\<exists>k < n. take k os = replicate k PermissionDenied \<and> (length os = k \<or> k < length os \<and> os ! k = Replaced))" for n le
  proof (induction n os le rule: replace_loop.induct)
    case (1 os le)
    then show ?case by simp
  next
    case (2 n le)
    then show ?case by auto
  next
    case (3 n r os le)
    show ?case
    proof (cases r)
      case Replaced
      then show ?thesis by (auto intro: exI [of _ 0])
    next
      case PermissionDenied
      show ?thesis
      proof
        assume "replace_loop (Suc n) (r # os) le = None"
        with PermissionDenied 3 obtain k where k: "k < n" "take k os = replicate k PermissionDenied"
          "length os = k \<or> k < length os \<and> os ! k = Replaced" by auto
        with PermissionDenied show "(Suc n = 0 \<and> le = None) \<or> (\<exists>k < Suc n. take k (r # os) = replicate k PermissionDenied \<and>
            (length (r # os) = k \<or> k < length (r # os) \<and> (r # os) ! k = Replaced))"
          by (intro disjI2 exI [of _ "Suc k"]) simp
      next
        assume "(Suc n = 0 \<and> le = None) \<or> (\<exists>k < Suc n. take k (r # os) = replicate k PermissionDenied \<and>
            (length (r # os) = k \<or> k < length (r # os) \<and> (r # os) ! k = Replaced))"
        then obtain k where k: "k < Suc n" "take k (r # os) = replicate k PermissionDenied"
          "length (r # os) = k \<or> k < length (r # os) \<and> (r # os) ! k = Replaced" by auto
        with PermissionDenied obtain j where "k = Suc j" by (cases k) auto
        with k PermissionDenied 3 show "replace_loop (Suc n) (r # os) le = None" by auto
      qed
    next
      case (ReplaceFails e)
      have "\<not> (take k (r # os) = replicate k PermissionDenied \<and>
            (length (r # os) = k \<or> k < length (r # os) \<and> (r # os) ! k = Replaced))" for k
        using ReplaceFails by (cases k) auto
      with ReplaceFails show ?thesis by auto
    qed
  qed
  show ?thesis unfolding atomic_replace_def * by (simp add: REPLACE_MAX_RETRIES_def)
qed

end
