(* ===== verification/History.thy ===== *)
theory History
  imports Session
begin

text \<open>
  What the language model is shown of a session: \<^verbatim>\<open>get_history\<close>, \<^verbatim>\<open>get_hot_history\<close> and
  \<^verbatim>\<open>get_episode_history\<close> of \<^verbatim>\<open>OriginAgent/session/manager.py\<close>, with the cleaning of replayed text and
  the choice of the window.

  Texts are ASCII. The token estimate of a message is the parameter \<open>est\<close>, an integer for every
  message (\<open>ContextBudget.token_count\<close> where the estimator of the code does not raise).
\<close>

section \<open>Replayed text\<close>

definition strip_literal :: "string \<Rightarrow> string \<Rightarrow> string option" where
  "strip_literal p s = (if take (length p) s = p then Some (drop (length p) s) else None)"

text \<open>\<^verbatim>\<open>[^c]+c\<close>: the text after the first \<open>c\<close>, if something stands before it.\<close>

definition after_body :: "char \<Rightarrow> string \<Rightarrow> string option" where
  "after_body c s = (let body = takeWhile (\<lambda>x. x \<noteq> c) s; rest = dropWhile (\<lambda>x. x \<noteq> c) s
     in if body = [] \<or> rest = [] then None else Some (tl rest))"

definition strip_message_time :: "string \<Rightarrow> string" where
  "strip_message_time s =
     (case strip_literal ''[Message Time: '' s of
        None \<Rightarrow> s
      | Some r \<Rightarrow> (case after_body (CHR '']'') r of
            None \<Rightarrow> s
          | Some t \<Rightarrow> (case t of [] \<Rightarrow> [] | c # t' \<Rightarrow> if c = CHR 0x0A then t' else t)))"

definition is_image_breadcrumb :: "string \<Rightarrow> bool" where
  "is_image_breadcrumb line =
     (case strip_literal ''[image: '' line of
        Some (c # r) \<Rightarrow> (c = CHR ''/'' \<or> c = CHR ''~'') \<and>
          (case after_body (CHR '']'') r of Some t \<Rightarrow> list_all py_space t | None \<Rightarrow> False)
      | _ \<Rightarrow> False)"

definition is_call_echo :: "string \<Rightarrow> bool" where
  "is_call_echo line =
     list_ex (\<lambda>p. case strip_literal p (dropWhile py_space line) of
         None \<Rightarrow> False
       | Some r \<Rightarrow> (case dropWhile (\<lambda>x. x \<noteq> CHR '')'') r of [] \<Rightarrow> False | c # t \<Rightarrow> list_all py_space t))
       [''generate_image('', ''message('']"

definition line_break :: "char \<Rightarrow> bool" where
  "line_break c = (of_char c \<in> {10, 11, 12, 13, 28, 29, 30 :: nat})"

text \<open>\<^verbatim>\<open>str.splitlines\<close>; the accumulator is the current line, reversed.\<close>

fun split_lines :: "string \<Rightarrow> string \<Rightarrow> string list" where
  "split_lines acc [] = (if acc = [] then [] else [rev acc])"
| "split_lines acc [c] = (if line_break c then [rev acc] else [rev (c # acc)])"
| "split_lines acc (c # d # cs) =
     (if c = CHR 0x0D \<and> d = CHR 0x0A then rev acc # split_lines [] cs
      else if line_break c then rev acc # split_lines [] (d # cs)
      else split_lines (c # acc) (d # cs))"

definition sanitize_replay_text :: "string \<Rightarrow> string" where
  "sanitize_replay_text content = py_strip (join_with [CHR 0x0A]
     (filter (\<lambda>l. \<not> is_image_breadcrumb l \<and> \<not> is_call_echo l) (split_lines [] (strip_message_time content))))"

section \<open>One replayed message\<close>

definition image_placeholder_text :: "string \<Rightarrow> string" where
  "image_placeholder_text p = (if p = [] then ''[image]'' else ''[image: '' @ p @ '']'')"

definition media_breadcrumbs :: "json list \<Rightarrow> string" where
  "media_breadcrumbs media = join_with [CHR 0x0A]
     (concat (map (\<lambda>j. case j of JStr p \<Rightarrow> if p = [] then [] else [image_placeholder_text p] | _ \<Rightarrow> []) media))"

definition with_media :: "message \<Rightarrow> json \<Rightarrow> json" where
  "with_media m content =
     (case (dict_get m ''media'', content) of
        (Some (JList media), JStr t) \<Rightarrow>
          if role_is ''user'' m \<and> media \<noteq> []
          then JStr (if t = [] then media_breadcrumbs media else t @ [CHR 0x0A] @ media_breadcrumbs media)
          else content
      | _ \<Rightarrow> content)"

definition annotate_message_time :: "message \<Rightarrow> json \<Rightarrow> json" where
  "annotate_message_time m content =
     (case content of
        JStr t \<Rightarrow>
          if truthy_field ''timestamp'' m \<and> role_is ''user'' m
          then JStr (''[Message Time: '' @ py_str (the (dict_get m ''timestamp'')) @ '']'' @ [CHR 0x0A] @ t)
          else content
      | _ \<Rightarrow> content)"

definition shown_content :: "bool \<Rightarrow> message \<Rightarrow> json" where
  "shown_content stamps m =
     (let c0 = (case dict_get m ''content'' of Some j \<Rightarrow> j | None \<Rightarrow> JStr []);
          c1 = (case c0 of JStr t \<Rightarrow> if role_is ''assistant'' m then JStr (sanitize_replay_text t) else c0
                | _ \<Rightarrow> c0);
          c2 = with_media m c1
      in if stamps then annotate_message_time m c2 else c2)"

definition REPLAY_KEYS :: "string list" where
  "REPLAY_KEYS = [''tool_calls'', ''tool_call_id'', ''name'', ''reasoning_content'', ''thinking_blocks'']"

definition is_blank_reply :: "json \<Rightarrow> message \<Rightarrow> bool" where
  "is_blank_reply content m =
     (role_is ''assistant'' m \<and> (case content of JStr t \<Rightarrow> py_strip t = [] | _ \<Rightarrow> False) \<and>
      list_all (\<lambda>k. dict_get m k = None) [''tool_calls'', ''reasoning_content'', ''thinking_blocks''])"

text \<open>The dictionary without the keys that the code copies only when present.\<close>

definition replay_entry :: "json \<Rightarrow> json \<Rightarrow> message \<Rightarrow> message" where
  "replay_entry role content m = [(''role'', role), (''content'', content)] @
     concat (map (\<lambda>k. case dict_get m k of Some v \<Rightarrow> [(k, v)] | None \<Rightarrow> []) REPLAY_KEYS)"

text \<open>
  The loop over the window. A message marked as a command and a blank reply are skipped; a message
  without a role is the \<^verbatim>\<open>KeyError\<close> of \<^verbatim>\<open>message["role"]\<close>, \<open>None\<close>.
\<close>

fun replay :: "bool \<Rightarrow> message list \<Rightarrow> message list option" where
  "replay stamps [] = Some []"
| "replay stamps (m # ms) =
     (if truthy_field ''_command'' m \<or> is_blank_reply (shown_content stamps m) m then replay stamps ms
      else case dict_get m ''role'' of
          None \<Rightarrow> None
        | Some r \<Rightarrow> map_option (\<lambda>out. replay_entry r (shown_content stamps m) m # out) (replay stamps ms))"

section \<open>The token budget\<close>

definition from_first_user :: "message list \<Rightarrow> message list \<Rightarrow> message list" where
  "from_first_user kept out =
     (case first_index (role_is ''user'') kept of
        Some i \<Rightarrow> drop i kept
      | None \<Rightarrow> (case last_user_index out of Some i \<Rightarrow> drop i out | None \<Rightarrow> kept))"

definition budget_tail :: "(message \<Rightarrow> int) \<Rightarrow> int \<Rightarrow> message list \<Rightarrow> message list" where
  "budget_tail est max_tokens out = from_first_user (keep_recent est max_tokens (rev out) 0 []) out"

definition within_tokens :: "(message \<Rightarrow> int) \<Rightarrow> int \<Rightarrow> message list \<Rightarrow> message list" where
  "within_tokens est max_tokens out =
     (if max_tokens > 0 \<and> out \<noteq> [] then legal_suffix (budget_tail est max_tokens out) else out)"

section \<open>The history of the unconsolidated messages\<close>

text \<open>Start at a user message, or at the proactive message it answers.\<close>

definition turn_start :: "message list \<Rightarrow> nat" where
  "turn_start ms = (case first_index (role_is ''user'') ms of
       None \<Rightarrow> 0
     | Some i \<Rightarrow> if i > 0 \<and> truthy_field ''_channel_delivery'' (ms ! (i - 1)) then i - 1 else i)"

definition replay_window :: "int \<Rightarrow> message list \<Rightarrow> message list" where
  "replay_window max_messages ms =
     (let k = nat (if max_messages > 0 then max_messages else 120);
          sliced = drop (length ms - k) ms
      in legal_suffix (drop (turn_start sliced) sliced))"

definition get_history ::
    "(message \<Rightarrow> int) \<Rightarrow> int \<Rightarrow> int \<Rightarrow> bool \<Rightarrow> Session \<Rightarrow> message list option" where
  "get_history est max_messages max_tokens stamps s =
     map_option (within_tokens est max_tokens)
       (replay stamps (replay_window max_messages (py_from (sn_consolidated s) (sn_messages s))))"

section \<open>The history by turns\<close>

definition user_indices :: "message list \<Rightarrow> nat list" where
  "user_indices ms = indices_of (role_is ''user'') ms"

text \<open>
  While the messages from \<open>start\<close> begin with an answer whose call was cut off, the start moves back to
  the previous user message.
\<close>

lemma last_user_index_less: "last_user_index ms = Some i \<Longrightarrow> i < length ms \<and> role_is ''user'' (ms ! i)"
  by (induction ms arbitrary: i) (auto split: option.splits if_splits)

function widen_start :: "message list \<Rightarrow> nat \<Rightarrow> nat" where
  "widen_start ms start =
     (if start = 0 \<or> find_legal_message_start (drop start ms) = 0 then start
      else case last_user_index (take start ms) of None \<Rightarrow> start | Some j \<Rightarrow> widen_start ms j)"
  by auto
termination
  by (relation "measure snd") (auto dest: last_user_index_less)

declare widen_start.simps [simp del]

definition turn_limit :: "int \<Rightarrow> nat" where
  "turn_limit max_turns = nat (if max_turns > 0 then max_turns else 50)"

definition aligned_start :: "int \<Rightarrow> message list \<Rightarrow> nat" where
  "aligned_start max_turns ms =
     (let us = user_indices ms; k = turn_limit max_turns
      in if us = [] \<or> length us \<le> k then 0
         else let start = us ! (length us - k)
              in if start > 0 \<and> truthy_field ''_channel_delivery'' (ms ! (start - 1)) then start - 1 else start)"

definition find_hot_start_idx :: "int \<Rightarrow> message list \<Rightarrow> nat" where
  "find_hot_start_idx max_turns ms =
     (let us = user_indices ms
      in if ms = [] \<or> us = [] \<or> length us \<le> turn_limit max_turns then 0
         else let start = widen_start ms (aligned_start max_turns ms)
              in start + find_legal_message_start (drop start ms))"

definition hot_window :: "int \<Rightarrow> message list \<Rightarrow> message list" where
  "hot_window max_turns ms = legal_suffix (drop (widen_start ms (aligned_start max_turns ms)) ms)"

definition get_hot_history ::
    "(message \<Rightarrow> int) \<Rightarrow> int \<Rightarrow> int \<Rightarrow> bool \<Rightarrow> Session \<Rightarrow> message list option" where
  "get_hot_history est max_turns max_tokens stamps s =
     (if sn_messages s = [] then Some []
      else map_option (within_tokens est max_tokens) (replay stamps (hot_window max_turns (sn_messages s))))"

section \<open>The history of one episode\<close>

definition get_episode_history ::
    "(message \<Rightarrow> int) \<Rightarrow> string \<Rightarrow> int \<Rightarrow> bool \<Rightarrow> Session \<Rightarrow> message list option" where
  "get_episode_history est eid max_tokens stamps s =
     (case List.find (\<lambda>e. ep_id e = eid) (sn_episodes s) of
        None \<Rightarrow> Some []
      | Some e \<Rightarrow> map_option
          (\<lambda>out. if max_tokens > 0 \<and> out \<noteq> [] then budget_tail est max_tokens out else out)
          (replay stamps (episode_messages e s)))"

section \<open>Replaying keeps calls and answers together\<close>

lemma replay_keys_get:
  "k \<in> set ks \<Longrightarrow> distinct ks \<Longrightarrow>
   map_of (concat (map (\<lambda>k. case dict_get m k of Some v \<Rightarrow> [(k, v)] | None \<Rightarrow> []) ks)) k = dict_get m k"
proof (induction ks)
  case Nil
  then show ?case by simp
next
  case (Cons a ks)
  have none: "map_of (concat (map (\<lambda>k. case dict_get m k of Some v \<Rightarrow> [(k, v)] | None \<Rightarrow> []) ks)) a = None"
    using Cons.prems(2) by (auto simp: map_of_eq_None_iff split: option.splits)
  show ?case
  proof (cases "k = a")
    case True
    then show ?thesis using none by (simp add: map_add_def split: option.splits)
  next
    case False
    with Cons show ?thesis by (auto simp: map_add_def split: option.splits)
  qed
qed

lemma entry_role [simp]: "dict_get m ''role'' = Some r \<Longrightarrow> role_is x (replay_entry r c m) = role_is x m"
  by (simp add: replay_entry_def role_is_def)

lemma entry_keys: "k \<in> set REPLAY_KEYS \<Longrightarrow> dict_get (replay_entry r c m) k = dict_get m k"
proof -
  assume k: "k \<in> set REPLAY_KEYS"
  then have "k \<noteq> ''role''" "k \<noteq> ''content''" by (auto simp: REPLAY_KEYS_def)
  moreover have "distinct REPLAY_KEYS" by (simp add: REPLAY_KEYS_def)
  ultimately show ?thesis using replay_keys_get [OF k, of m] by (simp add: replay_entry_def)
qed

lemma entry_calls [simp]: "declared_ids (replay_entry r c m) = declared_ids m"
    "answered_id (replay_entry r c m) = answered_id m"
  by (simp_all add: declared_ids_def answered_id_def entry_keys REPLAY_KEYS_def)

lemma entry_answered [simp]:
  "dict_get m ''role'' = Some r \<Longrightarrow> tool_answered D (replay_entry r c m) = tool_answered D m"
  by (simp add: tool_answered_def)

definition silent_commands :: "message list \<Rightarrow> bool" where
  "silent_commands ms = list_all (\<lambda>m. truthy_field ''_command'' m \<longrightarrow> declared_ids m = []) ms"

lemma blank_silent: "is_blank_reply c m \<Longrightarrow> declared_ids m = []"
  by (simp add: is_blank_reply_def declared_ids_def)

lemma replay_answered:
  "replay stamps ms = Some out \<Longrightarrow> silent_commands ms \<Longrightarrow> calls_answered D ms \<Longrightarrow> calls_answered D out"
proof (induction ms arbitrary: D out)
  case Nil
  then show ?case by simp
next
  case (Cons m ms)
  let ?D = "if role_is ''assistant'' m then D \<union> set (declared_ids m) else D"
  have rest: "calls_answered ?D ms" and c: "silent_commands ms"
    using Cons.prems(2,3) by (auto simp: silent_commands_def split: if_splits)
  show ?case
  proof (cases "truthy_field ''_command'' m \<or> is_blank_reply (shown_content stamps m) m")
    case True
    then have "declared_ids m = []"
      using Cons.prems(2) blank_silent by (auto simp: silent_commands_def)
    with rest have "calls_answered D ms" by (simp split: if_splits)
    with True Cons.IH [OF _ c] Cons.prems(1) show ?thesis by simp
  next
    case False
    with Cons.prems(1) obtain r out' where r: "dict_get m ''role'' = Some r" and o': "replay stamps ms = Some out'"
      and o_eq: "out = replay_entry r (shown_content stamps m) m # out'" by (auto split: option.splits)
    have "calls_answered ?D out'" by (rule Cons.IH [OF o' c rest])
    with Cons.prems(3) r o_eq show ?thesis by (auto split: if_splits)
  qed
qed

lemma replay_length: "replay stamps ms = Some out \<Longrightarrow> length out \<le> length ms"
  by (induction ms arbitrary: out) (fastforce split: if_splits option.splits)+

lemma keep_recent_length: "length (keep_recent est n ms used kept) \<le> length ms + length kept"
proof (induction ms arbitrary: used kept)
  case Nil
  then show ?case by simp
next
  case (Cons m ms)
  from Cons.IH [of "used + est m" "m # kept"] show ?case by simp
qed

lemma budget_tail_length: "length (budget_tail est n out) \<le> length out"
  using keep_recent_length [of est n "rev out" 0 "[]"]
  by (auto simp: budget_tail_def from_first_user_def split: option.splits)

lemma within_tokens_length: "length (within_tokens est n out) \<le> length out"
  using budget_tail_length [of est n out] length_legal_suffix [of "budget_tail est n out"]
  by (simp add: within_tokens_def)

lemma replay_window_answered: "calls_answered {} (replay_window n ms)"
  by (simp add: replay_window_def Let_def)

lemma replay_window_length: "0 < n \<Longrightarrow> int (length (replay_window n ms)) \<le> n"
proof -
  assume "0 < n"
  have "length (legal_suffix (drop i (drop (length ms - nat n) ms))) \<le> nat n" for i
    using length_legal_suffix [of "drop i (drop (length ms - nat n) ms)"] by simp
  then have "length (replay_window n ms) \<le> nat n" using \<open>0 < n\<close> by (simp add: replay_window_def Let_def)
  with \<open>0 < n\<close> show ?thesis by linarith
qed

lemma replay_window_suffix: "suffix (replay_window n ms) ms"
  by (simp add: replay_window_def Let_def legal_suffix_def) (metis drop_drop suffix_drop)

lemma suffix_set: "suffix xs ys \<Longrightarrow> x \<in> set xs \<Longrightarrow> x \<in> set ys"
  by (meson set_mono_suffix subsetD)

lemma silent_suffix: "silent_commands ms \<Longrightarrow> suffix xs ms \<Longrightarrow> silent_commands xs"
  by (auto simp: silent_commands_def list_all_iff dest: suffix_set)

text \<open>
  C22. The history for the language model. It has at most as many messages as asked for, and no tool
  answer in it lacks the assistant message that made the call: always when a token budget is set, and
  otherwise when no skipped command message makes calls.
\<close>

theorem history_answers_its_calls:
  assumes "get_history est max_messages max_tokens stamps s = Some out" and "0 < max_messages"
    and "0 < max_tokens \<or> silent_commands (py_from (sn_consolidated s) (sn_messages s))"
  shows "int (length out) \<le> max_messages \<and>
    (\<forall>i < length out. \<forall>t. role_is ''tool'' (out ! i) \<and> answered_id (out ! i) = Some t \<longrightarrow>
       (\<exists>j < i. role_is ''assistant'' (out ! j) \<and> t \<in> set (declared_ids (out ! j))))"
proof -
  let ?ms = "py_from (sn_consolidated s) (sn_messages s)"
  from assms(1) obtain all where all: "replay stamps (replay_window max_messages ?ms) = Some all"
    and out: "out = within_tokens est max_tokens all" by (auto simp: get_history_def)
  have "length out \<le> length (replay_window max_messages ?ms)"
    using within_tokens_length [of est max_tokens all] replay_length [OF all] unfolding out by linarith
  with replay_window_length [OF assms(2), of ?ms] have len: "int (length out) \<le> max_messages" by linarith
  have ans: "calls_answered {} out"
  proof (cases "0 < max_tokens \<and> all \<noteq> []")
    case True
    then show ?thesis by (simp add: out within_tokens_def)
  next
    case False
    show ?thesis
    proof (cases "all = []")
      case True
      then show ?thesis by (simp add: out within_tokens_def)
    next
      case ne: False
      with False assms(3) have "silent_commands ?ms" by simp
      then have "calls_answered {} all"
        using replay_answered [OF all] replay_window_answered replay_window_suffix silent_suffix by blast
      with False show ?thesis by (auto simp: out within_tokens_def)
    qed
  qed
  show ?thesis using len calls_answered_nth [OF ans] by auto
qed

theorem history_answers_its_calls_witness:
  "let s = sample_session [say ''user'' ''hello'', say ''assistant'' ''message(hi)'', say ''user'' ''bye''];
       out = [say ''user'' ''hello'', say ''user'' ''bye'']
   in get_history (\<lambda>_. 1) 10 0 False s = Some out \<and> int (length out) \<le> 10"
proof -
  let ?s = "sample_session [say ''user'' ''hello'', say ''assistant'' ''message(hi)'', say ''user'' ''bye'']"
  have r: "get_history (\<lambda>_. 1) 10 0 False ?s = Some [say ''user'' ''hello'', say ''user'' ''bye'']" by code_simp
  have c: "silent_commands (py_from (sn_consolidated ?s) (sn_messages ?s))" by code_simp
  from history_answers_its_calls [OF r _ disjI2 [OF c]] r show ?thesis by simp
qed

text \<open>
  The recovered user message brings the whole tail after it along, so the budget may be missed by
  any amount: with any number of large replies after the user message, all of them are returned.
\<close>

lemma recovered_turn_ignores_budget:
  defines "out \<equiv> \<lambda>n. say ''user'' ''q'' # replicate (Suc n) (say ''assistant'' ''a'')"
  shows "within_tokens (\<lambda>_. 100) 100 (out n) = out n \<and> estimate_messages (\<lambda>_. 100) (out n) = 100 * (int n + 2)"
proof -
  let ?a = "say ''assistant'' ''a''" and ?q = "say ''user'' ''q''"
  have roles: "role_is ''user'' ?q" "\<not> role_is ''user'' ?a" "\<not> role_is ''tool'' ?a" "\<not> role_is ''tool'' ?q"
    by (simp_all add: role_is_def say_def)
  have "keep_recent (\<lambda>_. 100) 100 (rev (out n)) 0 [] = [?a]"
  proof -
    have "rev (out n) = ?a # (replicate n ?a @ [?q])"
      by (simp add: out_def replicate_append_same)
    moreover obtain b bs where "replicate n ?a @ [?q] = b # bs" by (cases "replicate n ?a @ [?q]") auto
    ultimately show ?thesis by simp
  qed
  moreover have "last_user_index (replicate k ?a) = None" for k
    by (induction k) (simp_all add: roles)
  then have "last_user_index (out n) = Some 0" by (simp add: out_def roles del: replicate_Suc)
  ultimately have "budget_tail (\<lambda>_. 100) 100 (out n) = out n"
    by (simp add: budget_tail_def from_first_user_def roles)
  moreover have "legal_start_loop (replicate k ?a) i 0 D = 0" for k i D
    by (induction k arbitrary: i D) (simp_all add: roles)
  then have "find_legal_message_start (out n) = 0"
    by (simp add: find_legal_message_start_def out_def roles)
  moreover have "estimate_messages (\<lambda>_. 100) (out n) = 100 * (int n + 2)"
    by (simp add: estimate_messages_def out_def sum_list_replicate)
  ultimately show ?thesis by (simp add: within_tokens_def legal_suffix_def)
qed

section \<open>The two computations of the hot window agree\<close>

lemma widen_start_step:
  "widen_start ms start = start \<or>
     (\<exists>j. widen_start ms start = j \<and> j < start \<and> j < length ms \<and> role_is ''user'' (ms ! j))"
proof (induction ms start rule: widen_start.induct)
  case (1 ms start)
  show ?case
  proof (cases "start = 0 \<or> find_legal_message_start (drop start ms) = 0")
    case True
    then show ?thesis by (subst (1 2) widen_start.simps) auto
  next
    case False
    show ?thesis
    proof (cases "last_user_index (take start ms)")
      case None
      with False show ?thesis by (subst (1 2) widen_start.simps) auto
    next
      case (Some j)
      have j: "j < start" "j < length ms" "role_is ''user'' (ms ! j)"
        using last_user_index_less [OF Some] by auto
      have w: "widen_start ms start = widen_start ms j"
        using False Some by (subst widen_start.simps) auto
      from "1.IH" [OF False Some] j show ?thesis unfolding w by (metis order_less_trans)
    qed
  qed
qed

lemma widen_start_le: "widen_start ms start \<le> start"
  using widen_start_step [of ms start] by auto

lemma last_user_index_None: "last_user_index ms = None \<longleftrightarrow> (\<forall>m \<in> set ms. \<not> role_is ''user'' m)"
  by (induction ms) (auto split: option.splits)

text \<open>The loop stops at a legal start, or before the first user message.\<close>

lemma widen_start_end:
  "widen_start ms start = 0 \<or> find_legal_message_start (drop (widen_start ms start) ms) = 0 \<or>
   last_user_index (take (widen_start ms start) ms) = None"
proof (induction ms start rule: widen_start.induct)
  case (1 ms start)
  show ?case
  proof (cases "start = 0 \<or> find_legal_message_start (drop start ms) = 0")
    case True
    then have "widen_start ms start = start" by (subst widen_start.simps) auto
    with True show ?thesis by auto
  next
    case False
    show ?thesis
    proof (cases "last_user_index (take start ms)")
      case None
      with False have "widen_start ms start = start" by (subst widen_start.simps) auto
      with None show ?thesis by simp
    next
      case (Some j)
      have "widen_start ms start = widen_start ms j" using False Some by (subst widen_start.simps) auto
      with "1.IH" [OF False Some] show ?thesis by simp
    qed
  qed
qed

lemma legal_start_zero: "calls_answered {} ms \<Longrightarrow> find_legal_message_start ms = 0"
  using legal_loop_least [of 0 0 "find_legal_message_start ms" ms "{}"]
  by (auto simp: find_legal_message_start_def)

lemma user_index: "i \<in> set (user_indices ms) \<longleftrightarrow> i < length ms \<and> role_is ''user'' (ms ! i)"
  by (auto simp: user_indices_def indices_of_def)

lemma user_indices_sorted: "sorted_wrt (<) (user_indices ms)"
  by (simp add: user_indices_def indices_of_def sorted_wrt_filter)

lemma first_user_least: "j < length ms \<Longrightarrow> role_is ''user'' (ms ! j) \<Longrightarrow> hd (user_indices ms) \<le> j"
  using user_index [of j ms] user_indices_sorted [of ms] by (cases "user_indices ms") (auto intro: less_imp_le)

lemma turn_limit_pos: "0 < turn_limit n"
  by (simp add: turn_limit_def)

text \<open>With more turns than wanted, the aligned start is the first message of the wanted turns, or the
  proactive message before it, and never before the first user message.\<close>

lemma aligned_start_bounds:
  assumes "turn_limit n < length (user_indices ms)"
  defines "u \<equiv> user_indices ms ! (length (user_indices ms) - turn_limit n)"
  shows "hd (user_indices ms) < u" "u < length ms" "aligned_start n ms \<in> {u - 1, u}"
proof -
  let ?us = "user_indices ms"
  from assms(1) turn_limit_pos [of n] have k: "0 < length ?us - turn_limit n" "length ?us - turn_limit n < length ?us"
    by simp_all
  then have "?us ! 0 < u" unfolding u_def using user_indices_sorted [of ms] sorted_wrt_nth_less by blast
  moreover have "?us \<noteq> []" using assms(1) by auto
  ultimately show "hd ?us < u" by (simp add: hd_conv_nth)
  show "u < length ms" using k(2) user_index [of u ms] by (simp add: u_def)
  show "aligned_start n ms \<in> {u - 1, u}"
    using assms(1) by (auto simp: aligned_start_def Let_def u_def)
qed

lemma widened_start_legal:
  assumes many: "turn_limit n < length (user_indices ms)"
    and ok: "calls_answered {} (drop (hd (user_indices ms)) ms)"
  shows "find_legal_message_start (drop (widen_start ms (aligned_start n ms)) ms) = 0"
proof (rule ccontr)
  let ?h = "hd (user_indices ms)" and ?a = "aligned_start n ms" and ?r = "widen_start ms (aligned_start n ms)"
  assume bad: "find_legal_message_start (drop ?r ms) \<noteq> 0"
  note b = aligned_start_bounds [OF many]
  have "user_indices ms \<noteq> []" using many by auto
  then have h: "?h < length ms" "role_is ''user'' (ms ! ?h)"
    using user_index [of ?h ms] by auto
  have none: "?r \<le> ?h"
  proof (rule ccontr)
    assume "\<not> ?r \<le> ?h"
    then have "?h < ?r" by simp
    then have "ms ! ?h \<in> set (take ?r ms)" using h(1) by (auto simp: in_set_conv_nth intro!: exI [of _ ?h])
    with h(2) have "last_user_index (take ?r ms) \<noteq> None" by (auto simp: last_user_index_None)
    with widen_start_end [of ms ?a] bad \<open>?h < ?r\<close> show False by auto
  qed
  have "?r = ?h"
    using widen_start_step [of ms ?a]
  proof
    assume "?r = ?a"
    moreover from b(1,3) have "?h \<le> ?a" by auto
    ultimately show ?thesis using none by simp
  next
    assume "\<exists>j. ?r = j \<and> j < ?a \<and> j < length ms \<and> role_is ''user'' (ms ! j)"
    then have "?h \<le> ?r" using first_user_least by blast
    with none show ?thesis by simp
  qed
  with legal_start_zero [OF ok] bad show False by simp
qed

lemma hot_start_agrees':
  assumes "turn_limit n < length (user_indices ms)"
  shows "drop (find_hot_start_idx n ms) ms = hot_window n ms \<and> calls_answered {} (hot_window n ms) \<and>
    (calls_answered {} (drop (hd (user_indices ms)) ms) \<longrightarrow>
       find_hot_start_idx n ms \<le> user_indices ms ! (length (user_indices ms) - turn_limit n))"
proof -
  let ?r = "widen_start ms (aligned_start n ms)"
  have "ms \<noteq> []" "user_indices ms \<noteq> []" using assms by (auto simp: user_indices_def indices_of_def)
  then have i: "find_hot_start_idx n ms = ?r + find_legal_message_start (drop ?r ms)"
    using assms by (simp add: find_hot_start_idx_def Let_def)
  have "?r \<le> user_indices ms ! (length (user_indices ms) - turn_limit n)"
    using widen_start_le [of ms "aligned_start n ms"] aligned_start_bounds(3) [OF assms] by auto
  moreover have "drop (find_hot_start_idx n ms) ms = hot_window n ms"
    by (simp add: i hot_window_def legal_suffix_def add.commute)
  moreover have "calls_answered {} (hot_window n ms)" by (simp add: hot_window_def)
  ultimately show ?thesis using widened_start_legal [OF assms] by (auto simp: i)
qed

text \<open>
  The hot window. With more turns in the session than wanted, \<^verbatim>\<open>_find_hot_start_idx\<close>, which decides
  what is moved to the warm buffer, gives exactly the start of the window that \<^verbatim>\<open>get_hot_history\<close>
  shows; no tool answer in the window lacks its call; and when the messages from the first user message
  on have all their calls, the window contains every one of the wanted last turns.
\<close>

theorem hot_start_agrees:
  assumes "turn_limit n < length (user_indices ms)"
  shows "drop (find_hot_start_idx n ms) ms = hot_window n ms \<and> calls_answered {} (hot_window n ms) \<and>
    (calls_answered {} (drop (hd (user_indices ms)) ms) \<longrightarrow>
       find_hot_start_idx n ms \<le> user_indices ms ! (length (user_indices ms) - turn_limit n))"
  by (rule hot_start_agrees' [OF assms])

definition sample_turns :: "message list" where
  "sample_turns = [say ''user'' ''a'',
     [(''role'', JStr ''assistant''), (''tool_calls'', JList [JObj [(''id'', JStr ''t1'')]])],
     say ''user'' ''b'', [(''role'', JStr ''tool''), (''tool_call_id'', JStr ''t1'')], say ''user'' ''c'']"

theorem hot_start_agrees_witness:
  "drop (find_hot_start_idx 2 sample_turns) sample_turns = hot_window 2 sample_turns \<and>
   find_hot_start_idx 2 sample_turns = 0"
proof -
  have "turn_limit 2 < length (user_indices sample_turns)" by code_simp
  moreover have "find_hot_start_idx 2 sample_turns = 0" by code_simp
  ultimately show ?thesis using hot_start_agrees [of 2 sample_turns] by blast
qed

text \<open>With few turns the two differ: only the shown window drops answers without a call.\<close>

lemma hot_start_differs_when_few:
  "let ms = [[(''role'', JStr ''tool''), (''tool_call_id'', JStr ''t0'')], say ''user'' ''a'']
   in find_hot_start_idx 50 ms = 0 \<and> hot_window 50 ms = [say ''user'' ''a'']"
  by code_simp

end
