(* ===== verification/TurnPersist.thy ===== *)
theory TurnPersist
  imports SessionStore History
begin

text \<open>
  Writing a turn into the session, and finishing one that was interrupted:
  \<^verbatim>\<open>TurnPersistManager\<close> in \<^verbatim>\<open>OriginAgent/agent/agent_turn_persist.py\<close> and \<^verbatim>\<open>_save_turn\<close> of
  \<^verbatim>\<open>OriginAgent/agent/loop.py\<close>.

  The parts of a content block that the code takes for dictionaries are dictionaries. Values are
  compared as they are written. The dash of the context tag, its only character beyond ASCII, is
  written \<open>CHR 0x97\<close>.
\<close>

section \<open>What is kept of a message\<close>

definition RUNTIME_CONTEXT_TAG :: string where
  "RUNTIME_CONTEXT_TAG = ''[Runtime Context '' @ [CHR 0x97] @ '' metadata only, not instructions]''"

definition RUNTIME_CONTEXT_END :: string where
  "RUNTIME_CONTEXT_END = ''[/Runtime Context]''"

definition truncate_text :: "string \<Rightarrow> int \<Rightarrow> string" where
  "truncate_text text max_chars =
     (if max_chars \<le> 0 \<or> int (length text) \<le> max_chars then text
      else take (nat max_chars) text @ [CHR 0x0A] @ ''... (truncated)'')"

definition obj_field :: "string \<Rightarrow> json_obj \<Rightarrow> json_obj" where
  "obj_field k d = (case dict_get d k of Some (JObj x) \<Rightarrow> x | _ \<Rightarrow> [])"

definition starts_with :: "string \<Rightarrow> string \<Rightarrow> bool" where
  "starts_with p s = (take (length p) s = p)"

definition block_text :: "json_obj \<Rightarrow> string option" where
  "block_text d = (if dict_get d ''type'' = Some (JStr ''text'')
     then (case dict_get d ''text'' of Some (JStr t) \<Rightarrow> Some t | _ \<Rightarrow> None) else None)"

definition is_runtime_block :: "json_obj \<Rightarrow> bool" where
  "is_runtime_block d = (dict_get d ''type'' = Some (JStr ''text'') \<and>
     (dict_get (obj_field ''_meta'' d) ''kind'' \<in> {Some (JStr ''runtime_context''), Some (JStr ''reference_context'')} \<or>
      (case block_text d of Some t \<Rightarrow> starts_with RUNTIME_CONTEXT_TAG t | None \<Rightarrow> False)))"

definition is_inline_image :: "json_obj \<Rightarrow> bool" where
  "is_inline_image d = (dict_get d ''type'' = Some (JStr ''image_url'') \<and>
     (case dict_get (obj_field ''image_url'' d) ''url'' of Some (JStr u) \<Rightarrow> starts_with ''data:image/'' u | _ \<Rightarrow> False))"

definition persisted_block :: "int \<Rightarrow> bool \<Rightarrow> json_obj \<Rightarrow> json" where
  "persisted_block limit should_truncate d =
     (if is_inline_image d
      then JObj [(''type'', JStr ''text''),
                 (''text'', JStr (image_placeholder_text (str_field ''path'' [] (obj_field ''_meta'' d))))]
      else case block_text d of
          Some t \<Rightarrow> JObj (dict_set ''text''
            (JStr (if should_truncate \<and> int (length t) > limit then truncate_text t limit else t)) d)
        | None \<Rightarrow> JObj d)"

definition sanitize_persisted_blocks :: "int \<Rightarrow> bool \<Rightarrow> bool \<Rightarrow> json list \<Rightarrow> json list" where
  "sanitize_persisted_blocks limit should_truncate drop_runtime content =
     concat (map (\<lambda>b. case b of
         JObj d \<Rightarrow> if drop_runtime \<and> is_runtime_block d then [] else [persisted_block limit should_truncate d]
       | _ \<Rightarrow> [b]) content)"

text \<open>\<^verbatim>\<open>s.find(p)\<close>, and the text after a runtime context at the front; \<open>None\<close> drops the message.\<close>

fun find_text :: "string \<Rightarrow> string \<Rightarrow> nat option" where
  "find_text p [] = (if p = [] then Some 0 else None)"
| "find_text p (c # cs) = (if starts_with p (c # cs) then Some 0 else map_option Suc (find_text p cs))"

definition strip_newlines :: "string \<Rightarrow> string" where
  "strip_newlines s = dropWhile (\<lambda>c. c = CHR 0x0A) s"

definition without_runtime_context :: "string \<Rightarrow> string option" where
  "without_runtime_context content =
     (if \<not> starts_with RUNTIME_CONTEXT_TAG content then Some content
      else case find_text RUNTIME_CONTEXT_END content of
          Some i \<Rightarrow> (let after = strip_newlines (drop (i + length RUNTIME_CONTEXT_END) content)
                    in if after = [] then None else Some after)
        | None \<Rightarrow> (let after_tag = strip_newlines (drop (length RUNTIME_CONTEXT_TAG) content)
                  in if py_strip after_tag = [] then None else Some after_tag))"

definition kept_content :: "int \<Rightarrow> message \<Rightarrow> json option option" where
  "kept_content limit m =
     (case dict_get m ''content'' of
        Some (JStr t) \<Rightarrow>
          if role_is ''tool'' m
          then Some (Some (JStr (if int (length t) > limit then truncate_text t limit else t)))
          else if role_is ''user'' m
          then (case without_runtime_context t of Some r \<Rightarrow> Some (Some (JStr r)) | None \<Rightarrow> None)
          else Some (Some (JStr t))
      | Some (JList bs) \<Rightarrow>
          if role_is ''tool'' m \<or> role_is ''user'' m
          then let f = sanitize_persisted_blocks limit (role_is ''tool'' m) (\<not> role_is ''tool'' m) bs
               in if f = [] then None else Some (Some (JList f))
          else Some (Some (JList bs))
      | c \<Rightarrow> Some c)"

definition turn_entry :: "(int \<Rightarrow> string) \<Rightarrow> int \<Rightarrow> int \<Rightarrow> message \<Rightarrow> message option" where
  "turn_entry iso_text limit now m =
     (if role_is ''assistant'' m \<and> \<not> truthy_field ''content'' m \<and> \<not> truthy_field ''tool_calls'' m then None
      else case kept_content limit m of
          None \<Rightarrow> None
        | Some c \<Rightarrow> Some (dict_setdefault ''timestamp'' (JStr (iso_text now))
            (case c of Some j \<Rightarrow> dict_set ''content'' j m | None \<Rightarrow> m)))"

definition save_turn :: "(int \<Rightarrow> string) \<Rightarrow> int \<Rightarrow> int \<Rightarrow> message list \<Rightarrow> nat \<Rightarrow> Session \<Rightarrow> Session" where
  "save_turn iso_text limit now messages skip s =
     s\<lparr>sn_messages := sn_messages s @ List.map_filter (turn_entry iso_text limit now) (drop skip messages),
       sn_updated := now\<rparr>"

text \<open>The caller then extends the open episode to the new messages.\<close>

definition loop_save_turn :: "(int \<Rightarrow> string) \<Rightarrow> int \<Rightarrow> int \<Rightarrow> message list \<Rightarrow> nat \<Rightarrow> Session \<Rightarrow> Session" where
  "loop_save_turn iso_text limit now messages skip s =
     (let t = save_turn iso_text limit now messages skip s
      in case active_episode t of Some e \<Rightarrow> extend_episode (nat (sn_active t)) t | None \<Rightarrow> t)"

section \<open>Early persistence\<close>

definition mark_pending_user_turn :: "Session \<Rightarrow> Session" where
  "mark_pending_user_turn s = s\<lparr>sn_metadata := dict_set ''pending_user_turn'' (JBool True) (sn_metadata s)\<rparr>"

definition clear_pending_user_turn :: "Session \<Rightarrow> Session" where
  "clear_pending_user_turn s = s\<lparr>sn_metadata := dict_del ''pending_user_turn'' (sn_metadata s)\<rparr>"

definition media_paths :: "json list \<Rightarrow> json list" where
  "media_paths media = filter (\<lambda>j. case j of JStr p \<Rightarrow> p \<noteq> [] | _ \<Rightarrow> False) media"

text \<open>The session is changed in place, also when the save raises: the error comes with the change.\<close>

definition persist_user_message_early ::
    "(int \<Rightarrow> string) \<Rightarrow> save_io \<Rightarrow> int \<Rightarrow> string \<Rightarrow> string \<Rightarrow> json list \<Rightarrow> string option \<Rightarrow> json_obj \<Rightarrow> Session
     \<Rightarrow> SessionManager \<Rightarrow> (string + bool) \<times> Session \<times> SessionManager" where
  "persist_user_message_early iso_text io now uid content media pending_ask_id extra s sm =
     (let paths = media_paths media in
      if \<not> truthy pending_ask_id \<and> (py_strip content \<noteq> [] \<or> paths \<noteq> []) then
        (case add_message iso_text now uid ''user'' content
             (dict_merge (if paths = [] then [] else [(''media'', JList paths)]) extra) s of
           None \<Rightarrow> (Inl ''IndexError'', s, sm)
         | Some s1 \<Rightarrow>
             let s2 = mark_pending_user_turn s1; (e, sm1) = save_session iso_text io s2 sm
             in (case e of Some err \<Rightarrow> Inl err | None \<Rightarrow> Inr True, s2, sm1))
      else (Inr False, s, sm))"

definition persist_subagent_followup ::
    "(int \<Rightarrow> string) \<Rightarrow> int \<Rightarrow> string \<Rightarrow> string \<Rightarrow> string \<Rightarrow> json_obj \<Rightarrow> Session \<Rightarrow> (bool \<times> Session) option" where
  "persist_subagent_followup iso_text now uid sender content metadata s =
     (let task_id = (case dict_get metadata ''subagent_task_id'' of Some j \<Rightarrow> j | None \<Rightarrow> JNull) in
      if content = [] then Some (False, s)
      else if json_truthy task_id \<and> list_ex (\<lambda>m. dict_get m ''injected_event'' = Some (JStr ''subagent_result'') \<and>
                dict_get m ''subagent_task_id'' = Some task_id) (sn_messages s)
      then Some (False, s)
      else map_option (Pair True) (add_message iso_text now uid ''assistant'' content
             [(''sender_id'', JStr sender), (''injected_event'', JStr ''subagent_result''),
              (''subagent_task_id'', task_id)] s))"

section \<open>Checkpoints\<close>

definition set_checkpoint ::
    "(int \<Rightarrow> string) \<Rightarrow> save_io \<Rightarrow> json_obj \<Rightarrow> Session \<Rightarrow> SessionManager \<Rightarrow> string option \<times> Session \<times> SessionManager" where
  "set_checkpoint iso_text io payload s sm =
     (let s1 = s\<lparr>sn_metadata := dict_set ''runtime_checkpoint'' (JObj payload) (sn_metadata s)\<rparr>;
          (e, sm1) = save_session iso_text io s1 sm
      in (e, s1, sm1))"

definition clear_checkpoint :: "Session \<Rightarrow> Session" where
  "clear_checkpoint s = s\<lparr>sn_metadata := dict_del ''runtime_checkpoint'' (sn_metadata s)\<rparr>"

definition checkpoint_message_key :: "message \<Rightarrow> json list" where
  "checkpoint_message_key m = map (\<lambda>k. case dict_get m k of Some j \<Rightarrow> j | None \<Rightarrow> JNull)
     [''role'', ''content'', ''tool_call_id'', ''name'', ''tool_calls'', ''reasoning_content'', ''thinking_blocks'']"

definition json_items :: "json option \<Rightarrow> json list" where
  "json_items v = (case v of Some (JList xs) \<Rightarrow> xs | _ \<Rightarrow> [])"

definition stamped :: "(int \<Rightarrow> string) \<Rightarrow> int \<Rightarrow> json \<Rightarrow> message list" where
  "stamped iso_text now j = (case j of JObj d \<Rightarrow> [dict_setdefault ''timestamp'' (JStr (iso_text now)) d] | _ \<Rightarrow> [])"

definition interrupted_result :: "(int \<Rightarrow> string) \<Rightarrow> int \<Rightarrow> json \<Rightarrow> message list" where
  "interrupted_result iso_text now j =
     (case j of
        JObj d \<Rightarrow>
          [[(''role'', JStr ''tool''),
            (''tool_call_id'', case dict_get d ''id'' of Some i \<Rightarrow> i | None \<Rightarrow> JNull),
            (''name'', case dict_get (obj_field ''function'' d) ''name'' of
                Some n \<Rightarrow> if json_truthy n then n else JStr ''tool'' | None \<Rightarrow> JStr ''tool''),
            (''content'', JStr ''Error: Task interrupted before this tool finished.''),
            (''timestamp'', JStr (iso_text now))]]
      | _ \<Rightarrow> [])"

definition restored_messages :: "(int \<Rightarrow> string) \<Rightarrow> int \<Rightarrow> json_obj \<Rightarrow> message list" where
  "restored_messages iso_text now cp =
     (case dict_get cp ''assistant_message'' of Some j \<Rightarrow> stamped iso_text now j | None \<Rightarrow> []) @
     concat (map (stamped iso_text now) (json_items (dict_get cp ''completed_tool_results''))) @
     concat (map (interrupted_result iso_text now) (json_items (dict_get cp ''pending_tool_calls'')))"

text \<open>The longest end of the session that the restored messages start with.\<close>

fun overlap_size :: "nat \<Rightarrow> message list \<Rightarrow> message list \<Rightarrow> nat" where
  "overlap_size 0 ms rs = 0"
| "overlap_size (Suc k) ms rs =
     (if map checkpoint_message_key (drop (length ms - Suc k) ms) = map checkpoint_message_key (take (Suc k) rs)
      then Suc k else overlap_size k ms rs)"

definition restore_checkpoint :: "(int \<Rightarrow> string) \<Rightarrow> int \<Rightarrow> Session \<Rightarrow> bool \<times> Session" where
  "restore_checkpoint iso_text now s =
     (case dict_get (sn_metadata s) ''runtime_checkpoint'' of
        Some (JObj cp) \<Rightarrow>
          let rs = restored_messages iso_text now cp;
              k = overlap_size (min (length (sn_messages s)) (length rs)) (sn_messages s) rs
          in (True, clear_checkpoint (clear_pending_user_turn (s\<lparr>sn_messages := sn_messages s @ drop k rs\<rparr>)))
      | _ \<Rightarrow> (False, s))"

definition restore_pending_user_turn :: "(int \<Rightarrow> string) \<Rightarrow> int \<Rightarrow> Session \<Rightarrow> bool \<times> Session" where
  "restore_pending_user_turn iso_text now s =
     (if \<not> truthy_field ''pending_user_turn'' (sn_metadata s) then (False, s)
      else (True, clear_pending_user_turn
        (if sn_messages s \<noteq> [] \<and> role_is ''user'' (last (sn_messages s))
         then s\<lparr>sn_messages := sn_messages s @ [[(''role'', JStr ''assistant''),
                  (''content'', JStr ''Error: Task interrupted before a response was generated.''),
                  (''timestamp'', JStr (iso_text now))]], sn_updated := now\<rparr>
         else s)))"

section \<open>Finishing an interrupted turn\<close>

definition calls_of :: "message list \<Rightarrow> string set" where
  "calls_of ms = (\<Union>m \<in> set ms. if role_is ''assistant'' m then set (declared_ids m) else {})"

lemma calls_answered_append:
  "calls_answered D (xs @ ys) \<longleftrightarrow> calls_answered D xs \<and> calls_answered (D \<union> calls_of xs) ys"
  by (induction xs arbitrary: D) (auto simp: calls_of_def Un_assoc)

lemma checkpoint_key_same:
  assumes "checkpoint_message_key m = checkpoint_message_key m'"
  shows "role_is r m = role_is r m'" "declared_ids m = declared_ids m'" "answered_id m = answered_id m'"
proof -
  let ?f = "\<lambda>m k. case dict_get m k of Some j \<Rightarrow> j | None \<Rightarrow> JNull"
  have eq: "?f m ''role'' = ?f m' ''role''" "?f m ''tool_calls'' = ?f m' ''tool_calls''"
    "?f m ''tool_call_id'' = ?f m' ''tool_call_id''"
    using assms by (simp_all add: checkpoint_message_key_def)
  have "role_is r m \<longleftrightarrow> ?f m ''role'' = JStr r" for m
    by (auto simp: role_is_def split: option.splits)
  with eq(1) show "role_is r m = role_is r m'" by simp
  have "declared_ids m = declared_ids [(''tool_calls'', ?f m ''tool_calls'')]" for m
    by (cases "dict_get m ''tool_calls''") (simp_all add: declared_ids_def)
  then show "declared_ids m = declared_ids m'" using eq(2) by metis
  have "answered_id m = answered_id [(''tool_call_id'', ?f m ''tool_call_id'')]" for m
    by (cases "dict_get m ''tool_call_id''") (simp_all add: answered_id_def)
  then show "answered_id m = answered_id m'" using eq(3) by metis
qed

lemma same_keys_same_calls:
  assumes "map checkpoint_message_key xs = map checkpoint_message_key ys"
  shows "calls_answered D xs = calls_answered D ys \<and> calls_of xs = calls_of ys"
proof -
  from assms have "list_all2 (\<lambda>x y. checkpoint_message_key x = checkpoint_message_key y) xs ys"
    by (simp add: list_all2_conv_all_nth list_eq_iff_nth_eq)
  then show ?thesis
  proof (induction xs ys arbitrary: D rule: list_all2_induct)
    case Nil
    then show ?case by simp
  next
    case (Cons x xs y ys)
    from checkpoint_key_same [OF Cons(1)] Cons(3) show ?case
      by (simp add: calls_of_def tool_answered_def)
  qed
qed

lemma overlap_size_correct:
  assumes "n \<le> length ms" "n \<le> length rs"
  defines "k \<equiv> overlap_size n ms rs"
  shows "k \<le> n \<and> map checkpoint_message_key (drop (length ms - k) ms) = map checkpoint_message_key (take k rs)"
  unfolding k_def using assms(1,2) by (induction n ms rs rule: overlap_size.induct) auto

lemma overlap_size_greatest:
  "j \<le> n \<Longrightarrow> map checkpoint_message_key (drop (length ms - j) ms) = map checkpoint_message_key (take j rs) \<Longrightarrow>
   j \<le> overlap_size n ms rs"
  by (induction n ms rs rule: overlap_size.induct) (auto simp: le_Suc_eq)

text \<open>The specification: the last \<open>j\<close> messages of the session are the first \<open>j\<close> restored ones, by their keys.\<close>

definition overlaps :: "nat \<Rightarrow> message list \<Rightarrow> message list \<Rightarrow> bool" where
  "overlaps j ms rs = (j \<le> length ms \<and> j \<le> length rs \<and>
     map checkpoint_message_key (drop (length ms - j) ms) = map checkpoint_message_key (take j rs))"

lemma overlap_size_longest:
  "overlaps (overlap_size (min (length ms) (length rs)) ms rs) ms rs \<and>
   (\<forall>j. overlaps j ms rs \<longrightarrow> j \<le> overlap_size (min (length ms) (length rs)) ms rs)"
  using overlap_size_correct [of "min (length ms) (length rs)" ms rs] overlap_size_greatest [of _ "min (length ms) (length rs)" ms rs]
  by (auto simp: overlaps_def)

lemma restore_eq:
  assumes "dict_get (sn_metadata s) ''runtime_checkpoint'' = Some (JObj cp)"
  obtains k where "sn_messages (snd (restore_checkpoint iso_text now s)) =
      sn_messages s @ drop k (restored_messages iso_text now cp)"
    and "k \<le> length (sn_messages s)" and "k \<le> length (restored_messages iso_text now cp)"
    and "map checkpoint_message_key (drop (length (sn_messages s) - k) (sn_messages s)) =
      map checkpoint_message_key (take k (restored_messages iso_text now cp))"
    and "fst (restore_checkpoint iso_text now s)"
    and "dict_get (sn_metadata (snd (restore_checkpoint iso_text now s))) ''runtime_checkpoint'' = None"
proof -
  let ?rs = "restored_messages iso_text now cp"
  let ?n = "min (length (sn_messages s)) (length ?rs)"
  let ?k = "overlap_size ?n (sn_messages s) ?rs"
  have "?k \<le> ?n \<and> map checkpoint_message_key (drop (length (sn_messages s) - ?k) (sn_messages s)) =
      map checkpoint_message_key (take ?k ?rs)"
    by (rule overlap_size_correct) simp_all
  then show ?thesis
    using assms by (intro that [of ?k])
      (simp_all add: restore_checkpoint_def Let_def clear_checkpoint_def clear_pending_user_turn_def dict_get_del)
qed

lemma restored_end:
  assumes "dict_get (sn_metadata s) ''runtime_checkpoint'' = Some (JObj cp)"
    and t: "t = snd (restore_checkpoint iso_text now s)" and rs: "rs = restored_messages iso_text now cp"
  obtains ms ex where "sn_messages s = ms @ ex" and "sn_messages t = ms @ ex @ drop (length ex) rs"
    and "map checkpoint_message_key (ex @ drop (length ex) rs) = map checkpoint_message_key rs"
proof -
  from restore_eq [OF assms(1), of iso_text now] obtain k where
    k: "sn_messages t = sn_messages s @ drop k rs" "k \<le> length (sn_messages s)" "k \<le> length rs"
    "map checkpoint_message_key (drop (length (sn_messages s) - k) (sn_messages s)) =
      map checkpoint_message_key (take k rs)"
    unfolding t rs by blast
  let ?ms = "take (length (sn_messages s) - k) (sn_messages s)"
  let ?ex = "drop (length (sn_messages s) - k) (sn_messages s)"
  have len: "length ?ex = k" using k(2) by simp
  have "map checkpoint_message_key (?ex @ drop k rs) = map checkpoint_message_key (take k rs @ drop k rs)"
    unfolding map_append k(4) ..
  then show ?thesis
    by (intro that [of ?ms ?ex]) (simp_all only: k(1) len append_take_drop_id append_assoc [symmetric])
qed

text \<open>
  C21. After an interruption. Restoring a checkpoint keeps every message of the session and appends the messages
  of the checkpoint's turn, the stubs for unfinished calls included, without those that the session already
  ends with: what is left out is the longest beginning of the turn that is, by the compared fields, an end of
  the session, so the session then ends with the whole turn and nothing of it is doubled. A second restore
  does nothing. And when neither the session nor the restored turn had a tool answer without its call, the
  completed session has none either.
\<close>

theorem checkpoint_restored_once:
  assumes "dict_get (sn_metadata s) ''runtime_checkpoint'' = Some (JObj cp)"
    and "restore_checkpoint iso_text now s = (b, t)"
  shows "b \<and>
    (let rs = restored_messages iso_text now cp in
       (\<exists>k. overlaps k (sn_messages s) rs \<and> (\<forall>j. overlaps j (sn_messages s) rs \<longrightarrow> j \<le> k) \<and>
          sn_messages t = sn_messages s @ drop k rs) \<and>
       length rs \<le> length (sn_messages t) \<and>
       map checkpoint_message_key (drop (length (sn_messages t) - length rs) (sn_messages t)) =
         map checkpoint_message_key rs \<and>
       (calls_answered {} (sn_messages s) \<and> calls_answered {} rs \<longrightarrow> calls_answered {} (sn_messages t))) \<and>
    restore_checkpoint iso_text later t = (False, t)"
proof -
  let ?rs = "restored_messages iso_text now cp"
  have t: "t = snd (restore_checkpoint iso_text now s)" using assms(2) by simp
  from restored_end [OF assms(1) t refl] obtain ms ex where
    s: "sn_messages s = ms @ ex" and m: "sn_messages t = ms @ ex @ drop (length ex) ?rs"
    and keys: "map checkpoint_message_key (ex @ drop (length ex) ?rs) = map checkpoint_message_key ?rs"
    by blast
  have len: "length (ex @ drop (length ex) ?rs) = length ?rs" using keys by (metis length_map)
  have tail: "drop (length (sn_messages t) - length ?rs) (sn_messages t) = ex @ drop (length ex) ?rs"
    using len by (simp add: m)
  have legal: "calls_answered {} (sn_messages t)" if "calls_answered {} (sn_messages s)" "calls_answered {} ?rs"
  proof -
    have "calls_answered {} (ex @ drop (length ex) ?rs)"
      using same_keys_same_calls [OF keys] that(2) by simp
    then have "calls_answered (calls_of ms) (ex @ drop (length ex) ?rs)"
      by (rule calls_answered_mono) simp
    with that(1) show ?thesis unfolding m s calls_answered_append [of "{}" ms] by simp
  qed
  have "b" "dict_get (sn_metadata t) ''runtime_checkpoint'' = None"
    using restore_eq [OF assms(1), of iso_text now] assms(2) by auto
  moreover from this(2) have "restore_checkpoint iso_text later t = (False, t)"
    by (simp add: restore_checkpoint_def)
  moreover have "\<exists>k. overlaps k (sn_messages s) ?rs \<and> (\<forall>j. overlaps j (sn_messages s) ?rs \<longrightarrow> j \<le> k) \<and>
      sn_messages t = sn_messages s @ drop k ?rs"
    using overlap_size_longest [of "sn_messages s" ?rs] assms(1)
    by (intro exI [of _ "overlap_size (min (length (sn_messages s)) (length ?rs)) (sn_messages s) ?rs"])
      (simp add: t restore_checkpoint_def Let_def clear_checkpoint_def clear_pending_user_turn_def)
  moreover have "length ?rs \<le> length (sn_messages t)" using len by (simp add: m)
  ultimately show ?thesis using tail keys legal by (simp add: Let_def)
qed

definition sample_call :: message where
  "sample_call = [(''role'', JStr ''assistant''), (''tool_calls'', JList [JObj [(''id'', JStr ''t1'')]])]"

definition interrupted_session :: Session where
  "interrupted_session = (sample_session [say ''user'' ''a'', sample_call])\<lparr>sn_metadata :=
     [(''runtime_checkpoint'', JObj [(''assistant_message'', JObj sample_call),
        (''pending_tool_calls'', JList [JObj [(''id'', JStr ''t1'')]])])]\<rparr>"

theorem checkpoint_restored_once_witness:
  "let t = snd (restore_checkpoint show_int 5 interrupted_session)
   in length (sn_messages t) = 3 \<and> calls_answered {} (sn_messages t) \<and>
      restore_checkpoint show_int 6 t = (False, t)"
proof -
  let ?cp = "[(''assistant_message'', JObj sample_call),
        (''pending_tool_calls'', JList [JObj [(''id'', JStr ''t1'')]])]"
  let ?r = "restore_checkpoint show_int 5 interrupted_session"
  have c: "dict_get (sn_metadata interrupted_session) ''runtime_checkpoint'' = Some (JObj ?cp)" by code_simp
  have r: "?r = (fst ?r, snd ?r)" by simp
  have l: "calls_answered {} (sn_messages interrupted_session)" "calls_answered {} (restored_messages show_int 5 ?cp)"
    by code_simp+
  have "length (sn_messages (snd ?r)) = 3" by code_simp
  with checkpoint_restored_once [OF c r, of 6] l show ?thesis by (simp add: Let_def)
qed

lemma no_open_user_turn:
  "restore_pending_user_turn iso_text now s = (True, t) \<Longrightarrow>
   sn_messages t = [] \<or> \<not> role_is ''user'' (last (sn_messages t))"
  by (auto simp: restore_pending_user_turn_def clear_pending_user_turn_def role_is_def split: if_splits)

end
