(* ===== verification/SessionLife.thy ===== *)
theory SessionLife
  imports TurnPersist
begin

text \<open>
  The life of a session between two trims: the operations of \<open>Session\<close> and \<open>TurnPersist\<close> that write
  messages and open or close episodes, as one step relation, and what holds along every run of it.
\<close>

section \<open>Steps\<close>

text \<open>
  Identifiers are fresh, as those of \<^verbatim>\<open>uuid4\<close> are; the messages of a turn come from the prompt, which
  carries no episode mark, and a turn is saved while an episode is open.
\<close>

inductive session_step :: "(int \<Rightarrow> string) \<Rightarrow> int \<Rightarrow> Session \<Rightarrow> Session \<Rightarrow> bool"
  for iso_text :: "int \<Rightarrow> string" and limit :: int where
  message: "add_message iso_text now uid role content extra s = Some t \<Longrightarrow> fresh_episode uid s \<Longrightarrow>
    untagged extra \<Longrightarrow> session_step iso_text limit s t"
| topic: "start_new_episode iso_text now uid label wm s = Some t \<Longrightarrow> fresh_episode uid s \<Longrightarrow>
    session_step iso_text limit s t"
| pause: "close_active_episode iso_text now wm s = Some t \<Longrightarrow> session_step iso_text limit s t"
| turn: "active_episode s \<noteq> None \<Longrightarrow> list_all untagged ms \<Longrightarrow>
    session_step iso_text limit s (loop_save_turn iso_text limit now ms skip s)"
| reset: "session_step iso_text limit s (clear_session now s)"

inductive_cases session_stepE: "session_step iso_text limit s t"









text \<open>Without an open episode the messages of a turn belong to none, and the next one starts after them.\<close>

lemma turn_after_pause_left_out:
  "let s = the (close_active_episode show_int 2 []
             (the (add_message show_int 1 ''e'' ''user'' ''hi'' [] (new_session ''k'' 0))));
       t = loop_save_turn show_int 10 3 [say ''assistant'' ''yes''] 0 s;
       u = the (add_message show_int 4 ''f'' ''user'' ''more'' [] t)
   in length (sn_messages u) = 3 \<and> map (\<lambda>e. length (episode_messages e u)) (sn_episodes u) = [1, 1]"
  by code_simp

end
