(* ===== verification/Compact.thy ===== *)
theory Compact
  imports SessionLife
begin

text \<open>
  Taking old messages out of a session: the automatic compaction of idle sessions
  (\<^verbatim>\<open>OriginAgent/agent/autocompact.py\<close>), the consolidation of what the replay window hides
  (\<^verbatim>\<open>Consolidator\<close> in \<^verbatim>\<open>OriginAgent/agent/memory.py\<close>), the recent summaries kept in the metadata, and
  the warm buffer (\<^verbatim>\<open>OriginAgent/agent/warm_store.py\<close> with its users in
  \<^verbatim>\<open>OriginAgent/agent/agent_turn_pipeline.py\<close>).

  The language model and the writers of \<^verbatim>\<open>history.jsonl\<close> and the cold archive are outcomes given as
  arguments: a summary with its cursor, no summary, or an exception. Both operations await the language model
  between reading the session and changing it; what other tasks do to the session object meanwhile is the
  argument \<open>between\<close>.
\<close>

section \<open>Recent summaries\<close>

type_synonym archive_result = "(string \<times> int) option"

definition valid_summary_entries :: "json option \<Rightarrow> json list" where
  "valid_summary_entries v = filter (\<lambda>j. case j of
       JObj d \<Rightarrow> (case dict_get d ''text'' of Some (JStr t) \<Rightarrow> t \<noteq> [] | _ \<Rightarrow> False) | _ \<Rightarrow> False) (json_items v)"

definition record_recent_summary ::
    "(int \<Rightarrow> string) \<Rightarrow> int \<Rightarrow> int option \<Rightarrow> archive_result \<Rightarrow> Session \<Rightarrow> bool \<times> Session" where
  "record_recent_summary iso_text now last_active result s =
     (case result of
        None \<Rightarrow> (False, s)
      | Some (summary, cursor) \<Rightarrow>
          if summary = [] \<or> summary = ''(nothing)'' then (False, s)
          else let active = (case last_active of Some t \<Rightarrow> t | None \<Rightarrow> sn_updated s);
                   entry = JObj [(''text'', JStr summary), (''history_cursor'', JInt cursor),
                     (''created_at'', JStr (iso_text now)), (''last_active'', JStr (iso_text active))];
                   entries = valid_summary_entries (dict_get (sn_metadata s) ''_recent_summaries'') @ [entry]
               in (True, s\<lparr>sn_metadata := dict_del ''_last_summary''
                     (dict_set ''_recent_summaries'' (JList (last_n 5 entries)) (sn_metadata s))\<rparr>))"

definition summary_section :: "json \<Rightarrow> string" where
  "summary_section j = (case j of
       JObj d \<Rightarrow> (case dict_get d ''history_cursor'' of
            Some (JInt c) \<Rightarrow> if c \<le> 0 then ''[history cursor unknown]'' else ''[history cursor '' @ show_int c @ '']''
          | _ \<Rightarrow> ''[history cursor unknown]'') @ [CHR 0x0A] @
         (case dict_get d ''text'' of Some (JStr t) \<Rightarrow> t | _ \<Rightarrow> [])
     | _ \<Rightarrow> [])"

definition session_summary_text :: "int \<Rightarrow> Session \<Rightarrow> string option" where
  "session_summary_text max_chars s =
     (let entries = valid_summary_entries (dict_get (sn_metadata s) ''_recent_summaries'') in
      if entries \<noteq> [] then
        Some (truncate_text (join_with [CHR 0x0A, CHR 0x0A]
          (''## Recent Session Summaries'' # map summary_section (last_n 5 entries))) max_chars)
      else case dict_get (sn_metadata s) ''_last_summary'' of
          Some (JObj d) \<Rightarrow>
            (case dict_get d ''text'' of
               Some (JStr t) \<Rightarrow>
                 if t = [] then None
                 else (case dict_get d ''last_active'' of
                     Some (JStr w) \<Rightarrow> Some (truncate_text (if w = [] then t
                        else ''Previous conversation summary (last active '' @ w @ ''):'' @ [CHR 0x0A] @ t) max_chars)
                   | _ \<Rightarrow> Some (truncate_text t max_chars))
             | _ \<Rightarrow> None)
        | Some (JStr t) \<Rightarrow> if t = [] then None else Some (truncate_text t max_chars)
        | _ \<Rightarrow> None)"

section \<open>What the replay window hides\<close>

definition unconsolidated :: "Session \<Rightarrow> message list" where
  "unconsolidated s = py_from (sn_consolidated s) (sn_messages s)"



section \<open>Automatic compaction\<close>

definition RECENT_SUFFIX_MESSAGES :: nat where
  "RECENT_SUFFIX_MESSAGES = 8"

definition is_expired :: "int \<Rightarrow> int option \<Rightarrow> int \<Rightarrow> bool" where
  "is_expired ttl ts now = (case ts of None \<Rightarrow> False | Some t \<Rightarrow> ttl > 0 \<and> now - t \<ge> ttl * 60 * 1000000)"

definition kept_start :: "Session \<Rightarrow> nat \<Rightarrow> nat" where
  "kept_start s n =
     (case List.find (\<lambda>e. max 0 (ep_start e - sn_consolidated s) < int n \<and> ep_status e = ''closed'')
             (rev (sn_episodes s)) of
        Some e \<Rightarrow> nat (max 0 (ep_start e - sn_consolidated s))
      | None \<Rightarrow> (case active_episode s of
            Some e \<Rightarrow> nat (max 0 (ep_start e - sn_consolidated s)) | None \<Rightarrow> n))"

definition split_unconsolidated :: "Session \<Rightarrow> message list \<times> message list" where
  "split_unconsolidated s =
     (let tail = unconsolidated s; n = length tail;
          k = min (kept_start s n) (n - min RECENT_SUFFIX_MESSAGES n)
      in (take k tail, drop k tail))"

text \<open>A line of the warm archive.\<close>

definition warm_record :: "string \<Rightarrow> int \<Rightarrow> message \<Rightarrow> message" where
  "warm_record key i m = dict_setdefault ''turn_index'' (JInt i) (dict_setdefault ''session_key'' (JStr key) m)"

definition warm_records :: "string \<Rightarrow> int \<Rightarrow> message list \<Rightarrow> message list" where
  "warm_records key start ms = map (\<lambda>(i, m). warm_record key (start + int i) m) (zip [0..<length ms] ms)"

record compact_env =
  ce_warm_ok :: bool
  ce_cold :: "bool option"
  ce_outcome :: "string + archive_result"
  ce_between :: "Session \<Rightarrow> Session"
  ce_save :: save_io

record AutoCompact =
  ac_ttl :: int
  ac_archiving :: "string list"
  ac_summaries :: "(string, string) dict"
  ac_report :: "(string \<times> string) option"
  ac_failures :: nat

record compact_world =
  cw_store :: SessionManager
  cw_compact :: AutoCompact
  cw_warm :: "(string, message list) dict"
  cw_cold :: "(string \<times> message list) list"

text \<open>\<^verbatim>\<open>remember_report\<close> of \<^verbatim>\<open>task_runtime.py\<close>: the status decides on the counter of failures.\<close>

definition remember_report :: "string \<Rightarrow> nat \<Rightarrow> nat" where
  "remember_report status failures = (if status \<in> {''error'', ''blocked''} then failures + 1 else 0)"

definition report_run :: "string \<Rightarrow> string \<Rightarrow> compact_world \<Rightarrow> compact_world" where
  "report_run status why w = w\<lparr>cw_compact := (cw_compact w)
     \<lparr>ac_report := Some (status, why), ac_failures := remember_report status (ac_failures (cw_compact w))\<rparr>\<rparr>"

definition archive_failed :: "string \<Rightarrow> compact_world \<Rightarrow> compact_world" where
  "archive_failed key w = report_run ''degraded'' (''archive_failed:'' @ key) w"

definition finish_archive ::
    "(int \<Rightarrow> string) \<Rightarrow> save_io \<Rightarrow> string \<Rightarrow> string \<Rightarrow> Session \<Rightarrow> compact_world \<Rightarrow> compact_world" where
  "finish_archive iso_text io why key s w =
     (let w1 = w\<lparr>cw_store := change_cached key (\<lambda>_. s) (cw_store w)\<rparr>;
          (e, sm) = save_session iso_text io s (cw_store w1)
      in case e of None \<Rightarrow> report_run ''ok'' why (w1\<lparr>cw_store := sm\<rparr>) | Some _ \<Rightarrow> archive_failed key w1)"

text \<open>
  The archives, written before anything is taken out; \<open>Inl\<close> is what is left after an exception. The last step
  awaits the summary, and the session changes meanwhile.
\<close>

definition write_archives ::
    "compact_env \<Rightarrow> string \<Rightarrow> int \<Rightarrow> message list \<Rightarrow> compact_world \<Rightarrow> compact_world + compact_world \<times> archive_result" where
  "write_archives env key start ms w =
     (if ms = [] then Inr (w, None)
      else if \<not> ce_warm_ok env then Inl w
      else let stem = safe_key key;
               old = (case dict_get (cw_warm w) stem of Some x \<Rightarrow> x | None \<Rightarrow> []);
               w1 = w\<lparr>cw_warm := dict_set stem (old @ warm_records key start ms) (cw_warm w)\<rparr>
           in if ce_cold env = Some False then Inl w1
              else let w2 = (if ce_cold env = Some True then w1\<lparr>cw_cold := cw_cold w1 @ [(key, ms)]\<rparr> else w1);
                       w3 = w2\<lparr>cw_store := change_cached key (ce_between env) (cw_store w2)\<rparr>
                   in (case ce_outcome env of Inl e \<Rightarrow> Inl w3 | Inr r \<Rightarrow> Inr (w3, r)))"

definition remember_summary :: "string \<Rightarrow> bool \<times> Session \<Rightarrow> compact_world \<Rightarrow> compact_world" where
  "remember_summary key p w =
     (case p of
        (True, s) \<Rightarrow> (case session_summary_text 6000 s of
            Some t \<Rightarrow> if t = [] then w else w\<lparr>cw_compact := (cw_compact w)
              \<lparr>ac_summaries := dict_set key t (ac_summaries (cw_compact w))\<rparr>\<rparr>
          | None \<Rightarrow> w)
      | _ \<Rightarrow> w)"

definition archive_loaded ::
    "(int \<Rightarrow> string) \<Rightarrow> (string \<Rightarrow> int option) \<Rightarrow> compact_env \<Rightarrow> int \<Rightarrow> string \<Rightarrow> string \<Rightarrow> Session
     \<Rightarrow> compact_world \<Rightarrow> compact_world" where
  "archive_loaded iso_text from_iso env now uid key s w =
     (let (archive_msgs, kept_msgs) = split_unconsolidated s in
      if archive_msgs = [] \<and> kept_msgs = []
      then finish_archive iso_text (ce_save env) ''nothing_to_archive'' key (s\<lparr>sn_updated := now\<rparr>) w
      else case write_archives env key (sn_consolidated s) archive_msgs w of
          Inl w1 \<Rightarrow> archive_failed key w1
        | Inr (w1, result) \<Rightarrow>
            let p = (if archive_msgs = [] then (False, s)
                     else record_recent_summary iso_text now (Some (sn_updated s)) result (ce_between env s));
                w2 = remember_summary key p w1;
                s1 = (snd p)\<lparr>sn_messages := kept_msgs, sn_consolidated := 0\<rparr>
            in (case rebuild_episode_indices from_iso uid s1 of
                  None \<Rightarrow> archive_failed key (w2\<lparr>cw_store := change_cached key (\<lambda>_. after_failed_rebuild s1) (cw_store w2)\<rparr>)
                | Some t \<Rightarrow> finish_archive iso_text (ce_save env) ''ok'' key (t\<lparr>sn_updated := now\<rparr>) w2))"

definition archive_session ::
    "(int \<Rightarrow> string) \<Rightarrow> (string \<Rightarrow> int option) \<Rightarrow> compact_env \<Rightarrow> bool \<Rightarrow> int \<Rightarrow> string \<Rightarrow> string \<Rightarrow> string
     \<Rightarrow> compact_world \<Rightarrow> compact_world" where
  "archive_session iso_text from_iso env move_ok now load_uid uid key w =
     (let (s, sm) = get_or_create from_iso move_ok now load_uid key (invalidate_session key (cw_store w));
          w1 = archive_loaded iso_text from_iso env now uid key s (w\<lparr>cw_store := sm\<rparr>)
      in w1\<lparr>cw_compact := (cw_compact w1)\<lparr>ac_archiving := removeAll key (ac_archiving (cw_compact w1))\<rparr>\<rparr>)"

text \<open>\<^verbatim>\<open>check_expired\<close> over the listed sessions and their times; the keys it schedules are the result.\<close>

fun check_expired ::
    "string list \<Rightarrow> int \<Rightarrow> (string \<times> int option) list \<Rightarrow> AutoCompact \<Rightarrow> string list \<times> AutoCompact" where
  "check_expired busy now [] ac = ([], ac)"
| "check_expired busy now ((key, updated) # r) ac =
     (if key = [] \<or> key \<in> set (ac_archiving ac) \<or> key \<in> set busy \<or> \<not> is_expired (ac_ttl ac) updated now
      then check_expired busy now r ac
      else let (ks, ac1) = check_expired busy now r (ac\<lparr>ac_archiving := ac_archiving ac @ [key]\<rparr>) in (key # ks, ac1))"

definition prepare_session ::
    "(string \<Rightarrow> int option) \<Rightarrow> bool \<Rightarrow> int \<Rightarrow> string \<Rightarrow> string \<Rightarrow> Session \<Rightarrow> compact_world
     \<Rightarrow> (Session \<times> string option) \<times> compact_world" where
  "prepare_session from_iso move_ok now uid key s w =
     (let ac = cw_compact w;
          (s1, sm) = (if key \<in> set (ac_archiving ac) \<or> is_expired (ac_ttl ac) (Some (sn_updated s)) now
                      then get_or_create from_iso move_ok now uid key (cw_store w) else (s, cw_store w));
          w1 = w\<lparr>cw_store := sm, cw_compact := ac\<lparr>ac_summaries := dict_del key (ac_summaries ac)\<rparr>\<rparr>
      in ((s1, case dict_get (ac_summaries ac) key of
                 Some t \<Rightarrow> if t \<noteq> [] then Some t else session_summary_text 6000 s1
               | None \<Rightarrow> session_summary_text 6000 s1), w1))"

section \<open>Taking out a prefix\<close>

text \<open>
  The contract that the trims share: the unconsolidated messages are cut in two, the first part goes to
  an archive and the second stays as the whole session, none of it consolidated.
\<close>

locale history_split =
  fixes split :: "'p \<Rightarrow> Session \<Rightarrow> message list \<times> message list"
    and fits :: "'p \<Rightarrow> Session \<Rightarrow> bool"
  assumes split_all: "fits p s \<Longrightarrow> fst (split p s) @ snd (split p s) = unconsolidated s"
begin

definition cut :: "'p \<Rightarrow> Session \<Rightarrow> Session \<Rightarrow> bool" where
  "cut p s t = (fits p s \<and> sn_messages t = snd (split p s) \<and> sn_consolidated t = 0)"

lemma cut_accounts: "cut p s t \<Longrightarrow> fst (split p s) @ unconsolidated t = unconsolidated s"
  using split_all [of p s] by (simp add: cut_def unconsolidated_def)

lemma cut_suffix: "cut p s t \<Longrightarrow> suffix (sn_messages t) (unconsolidated s)"
  using split_all [of p s] by (metis cut_def suffixI)

lemma cut_log: "cut p s t \<Longrightarrow> seen = log @ unconsolidated s \<Longrightarrow>
    seen = (log @ fst (split p s)) @ unconsolidated t"
  using cut_accounts by simp

end


definition compaction :: "unit \<Rightarrow> Session \<Rightarrow> message list \<times> message list" where
  "compaction u s = split_unconsolidated s"

interpretation compaction: history_split compaction "\<lambda>_ _. True"
  by unfold_locales (simp add: compaction_def split_unconsolidated_def Let_def)





text \<open>What the other tasks do while the summary is awaited: they append messages.\<close>

definition appends :: "message list \<Rightarrow> Session \<Rightarrow> Session \<Rightarrow> bool" where
  "appends xs s t = (sn_messages t = sn_messages s @ xs \<and> sn_consolidated t = sn_consolidated s)"




section \<open>The archive and the session together hold everything\<close>




lemma finish_archive_cached:
  assumes "dict_get (sm_cache (cw_store w)) key = Some x"
  shows "dict_get (sm_cache (cw_store (finish_archive iso_text io why key s w))) key = Some s"
proof -
  let ?w1 = "w\<lparr>cw_store := change_cached key (\<lambda>_. s) (cw_store w)\<rparr>"
  have c: "dict_get (sm_cache (cw_store ?w1)) key = Some s"
    using assms by (simp add: change_cached_def dict_get_set)
  obtain e sm where r: "save_session iso_text io s (cw_store ?w1) = (e, sm)" by (cases "save_session iso_text io s (cw_store ?w1)")
  then have "dict_get (sm_cache sm) key = Some s"
    using c by (auto simp: save_session_def dict_get_set split: option.splits)
  with c r show ?thesis
    by (auto simp: finish_archive_def Let_def archive_failed_def report_run_def split: option.splits)
qed

text \<open>The summary is awaited once the archives are written; then the session has changed.\<close>

definition awaited :: "compact_env \<Rightarrow> Session \<Rightarrow> bool" where
  "awaited env s = (fst (split_unconsolidated s) \<noteq> [] \<and> ce_warm_ok env \<and> ce_cold env \<noteq> Some False)"

lemma write_archives_store:
  assumes "dict_get (sm_cache (cw_store w)) key = Some s" and "ms = fst (split_unconsolidated s)"
  shows "write_archives env key i ms w = Inl w' \<Longrightarrow>
      dict_get (sm_cache (cw_store w')) key = Some (if awaited env s then ce_between env s else s)"
    and "write_archives env key i ms w = Inr (w', r) \<Longrightarrow>
      dict_get (sm_cache (cw_store w')) key = Some (if awaited env s then ce_between env s else s)"
  using assms by (auto simp: write_archives_def awaited_def change_cached_def dict_get_set Let_def split: if_splits sum.splits)

lemma remember_summary_store: "cw_store (remember_summary key p w) = cw_store w"
  by (auto simp: remember_summary_def split: prod.splits bool.splits option.splits)

definition handed_over :: "compact_env \<Rightarrow> Session \<Rightarrow> message list" where
  "handed_over env s =
     (if awaited env s then (case ce_outcome env of Inl e \<Rightarrow> [] | Inr r \<Rightarrow> fst (split_unconsolidated s)) else [])"

lemma handed_written:
  assumes "write_archives env key i (fst (split_unconsolidated s)) w = Inr (w', r)"
  shows "handed_over env s = fst (split_unconsolidated s)"
    and "awaited env s \<longleftrightarrow> fst (split_unconsolidated s) \<noteq> []"
  using assms by (auto simp: write_archives_def awaited_def handed_over_def Let_def split: if_splits sum.splits)

lemma handed_unwritten:
  "write_archives env key i (fst (split_unconsolidated s)) w = Inl w' \<Longrightarrow> handed_over env s = []"
  by (auto simp: write_archives_def awaited_def handed_over_def Let_def split: if_splits sum.splits)

text \<open>
  Whatever fails, the session in memory is either as the other tasks left it, or it is the second part of
  what it was when the compaction began, with the first part archived: what was appended meanwhile is gone.
\<close>

lemma archive_loaded_session:
  assumes s: "dict_get (sm_cache (cw_store w)) key = Some s"
    and t: "dict_get (sm_cache (cw_store (archive_loaded iso_text from_iso env now uid key s w))) key = Some t"
  shows "(let s' = (if awaited env s then ce_between env s else s) in
      handed_over env s = [] \<and> sn_messages t = sn_messages s' \<and> sn_consolidated t = sn_consolidated s') \<or>
    (handed_over env s = fst (compaction () s) \<and> (awaited env s \<longrightarrow> handed_over env s \<noteq> []) \<and> compaction.cut () s t)"
proof -
  obtain a k where ak: "split_unconsolidated s = (a, k)" by (cases "split_unconsolidated s")
  then have fa: "a = fst (split_unconsolidated s)" by simp
  consider (none) "a = [] \<and> k = []"
    | (failed) w1 where "\<not> (a = [] \<and> k = [])" "write_archives env key (sn_consolidated s) a w = Inl w1"
    | (cut) w1 r where "\<not> (a = [] \<and> k = [])" "write_archives env key (sn_consolidated s) a w = Inr (w1, r)"
    by (cases "write_archives env key (sn_consolidated s) a w") auto
  then show ?thesis
  proof cases
    case none
    then have "t = s\<lparr>sn_updated := now\<rparr>"
      using t finish_archive_cached [OF s] by (simp add: archive_loaded_def ak)
    with none show ?thesis by (simp add: handed_over_def awaited_def ak)
  next
    case failed
    note st = write_archives_store(1) [OF s fa failed(2)]
    with t failed have "t = (if awaited env s then ce_between env s else s)"
      by (simp add: archive_loaded_def ak archive_failed_def report_run_def)
    moreover have "handed_over env s = []" using handed_unwritten failed(2) unfolding fa .
    ultimately show ?thesis by (simp add: Let_def)
  next
    case cut
    let ?p = "if a = [] then (False, s) else record_recent_summary iso_text now (Some (sn_updated s)) r (ce_between env s)"
    let ?w2 = "remember_summary key ?p w1"
    let ?s1 = "(snd ?p)\<lparr>sn_messages := k, sn_consolidated := 0\<rparr>"
    have w2: "dict_get (sm_cache (cw_store ?w2)) key = Some (if awaited env s then ce_between env s else s)"
      using write_archives_store(2) [OF s fa cut(2)] by (simp add: remember_summary_store)
    have m: "sn_messages t = k \<and> sn_consolidated t = 0"
    proof (cases "rebuild_episode_indices from_iso uid ?s1")
      case None
      with t cut(1) w2 have "t = after_failed_rebuild ?s1"
        by (auto simp: archive_loaded_def ak cut(2) Let_def archive_failed_def report_run_def change_cached_def dict_get_set)
      then show ?thesis by (simp add: after_failed_rebuild_def)
    next
      case (Some t')
      with t cut(1) finish_archive_cached [OF w2] have "t = t'\<lparr>sn_updated := now\<rparr>"
        by (auto simp: archive_loaded_def ak cut(2) Let_def)
      with rebuild_keeps [OF Some] show ?thesis by simp
    qed
    note h = handed_written [OF cut(2) [unfolded fa]]
    from m h show ?thesis by (auto simp: compaction.cut_def compaction_def ak)
  qed
qed





lemma appends_self: "appends xs s s \<Longrightarrow> xs = []"
  by (simp add: appends_def)






text \<open>
  What is appended while a compaction waits for its summary is overwritten by the part that the compaction
  had decided to keep, and no archive was handed it.
\<close>

lemma late_messages_lost:
  assumes "dict_get (sm_cache (cw_store w)) key = Some s" and "appends xs s (ce_between env s)"
    and "dict_get (sm_cache (cw_store (archive_loaded iso_text from_iso env now uid key s w))) key = Some t"
    and "handed_over env s \<noteq> []"
  shows "handed_over env s @ sn_messages t = unconsolidated s"
proof -
  have h: "handed_over env s = fst (compaction () s)" "compaction.cut () s t"
    using archive_loaded_session [OF assms(1,3)] assms(4) by (auto simp: Let_def)
  from compaction.cut_accounts [OF h(2)] h show ?thesis by (simp add: compaction.cut_def unconsolidated_def)
qed

text \<open>A failed compaction reports \<^verbatim>\<open>degraded\<close>, a status that resets the counter of failures.\<close>

lemma failed_compactions_uncounted: "ac_failures (cw_compact (archive_failed key w)) = 0"
  by (simp add: archive_failed_def report_run_def remember_report_def)

end
