(* ===== verification/WarmBuffer.thy ===== *)
theory WarmBuffer
  imports Compact
begin

text \<open>
  The warm buffer between the session and its archives: \<^verbatim>\<open>OriginAgent/agent/warm_store.py\<close>, and the
  functions of \<^verbatim>\<open>OriginAgent/agent/agent_turn_pipeline.py\<close> that fill and empty it.

  The summarizer is an outcome given as an argument. The stamps of the buffer (\<^verbatim>\<open>_utcnow_iso\<close>) are
  texts given as arguments.
\<close>

section \<open>The buffer\<close>

record warm_buffer =
  wb_messages :: "json list"
  wb_turns :: int
  wb_updated :: string

definition empty_buffer :: "string \<Rightarrow> warm_buffer" where
  "empty_buffer now = \<lparr>wb_messages = [], wb_turns = 0, wb_updated = now\<rparr>"

definition truthy_int :: "json option \<Rightarrow> int" where
  "truthy_int v = (case json_int v of Some i \<Rightarrow> i | None \<Rightarrow> 0)"

definition warm_load :: "string \<Rightarrow> Session \<Rightarrow> warm_buffer" where
  "warm_load now s =
     (case dict_get (sn_metadata s) ''warm_buffer'' of
        Some (JObj raw) \<Rightarrow> \<lparr>wb_messages = json_items (dict_get raw ''messages''),
          wb_turns = truthy_int (dict_get raw ''turn_count''), wb_updated = str_field ''updated_at'' now raw\<rparr>
      | _ \<Rightarrow> empty_buffer now)"

definition buffer_json :: "warm_buffer \<Rightarrow> json" where
  "buffer_json b = JObj [(''messages'', JList (wb_messages b)), (''turn_count'', JInt (wb_turns b)),
     (''updated_at'', JStr (wb_updated b))]"

definition warm_save :: "warm_buffer \<Rightarrow> Session \<Rightarrow> Session" where
  "warm_save b s = s\<lparr>sn_metadata := dict_set ''warm_buffer'' (buffer_json b) (sn_metadata s)\<rparr>"

definition warm_append :: "string \<Rightarrow> message \<Rightarrow> message list \<Rightarrow> Session \<Rightarrow> int \<times> Session" where
  "warm_append now user_msg assistant_msgs s =
     (let b = warm_load now s;
          b1 = \<lparr>wb_messages = wb_messages b @ map JObj (user_msg # assistant_msgs),
                wb_turns = wb_turns b + 1, wb_updated = now\<rparr>
      in (wb_turns b1, warm_save b1 s))"

definition warm_is_full :: "string \<Rightarrow> int \<Rightarrow> Session \<Rightarrow> bool" where
  "warm_is_full now max_turns s = (wb_turns (warm_load now s) \<ge> max_turns)"

definition warm_drain :: "string \<Rightarrow> Session \<Rightarrow> json list \<times> Session" where
  "warm_drain now s = (wb_messages (warm_load now s), warm_save (empty_buffer now) s)"

section \<open>Filling it\<close>

text \<open>The turns of a list of messages; \<open>cur\<close> is the user message and the rest of the current turn.\<close>

fun split_turns :: "(message \<times> message list) option \<Rightarrow> message list \<Rightarrow> (message \<times> message list) list" where
  "split_turns None [] = []"
| "split_turns (Some cur) [] = [cur]"
| "split_turns None (m # ms) = (if role_is ''user'' m then split_turns (Some (m, [])) ms else split_turns None ms)"
| "split_turns (Some (u, as)) (m # ms) =
     (if role_is ''user'' m then (u, as) # split_turns (Some (m, [])) ms
      else split_turns (Some (u, as @ [m])) ms)"

definition split_messages_by_turn :: "message list \<Rightarrow> (message \<times> message list) list" where
  "split_messages_by_turn ms = split_turns None ms"

definition append_turns :: "string \<Rightarrow> (message \<times> message list) list \<Rightarrow> Session \<Rightarrow> Session" where
  "append_turns now turns s = fold (\<lambda>(u, as) s. snd (warm_append now u as s)) turns s"

text \<open>Any exception is swallowed with the state it leaves; only the rebuild can raise.\<close>

definition spill_overflow ::
    "(string \<Rightarrow> int option) \<Rightarrow> string \<Rightarrow> string \<Rightarrow> int \<Rightarrow> Session \<Rightarrow> Session" where
  "spill_overflow from_iso now uid max_turns s =
     (let i = find_hot_start_idx max_turns (sn_messages s) in
      if i = 0 \<or> take i (sn_messages s) = [] then s
      else let s1 = append_turns now (split_messages_by_turn (take i (sn_messages s))) s;
               s2 = s1\<lparr>sn_messages := drop i (sn_messages s1),
                       sn_consolidated := max 0 (sn_consolidated s1 - int i)\<rparr>
           in (case rebuild_episode_indices from_iso uid s2 of
                 Some t \<Rightarrow> t | None \<Rightarrow> after_failed_rebuild s2))"

section \<open>Emptying it\<close>

record warm_files =
  wf_archive :: "(string, json list) dict"
  wf_summaries :: "json_obj list"

definition compute_warm_turn_range :: "string \<Rightarrow> warm_files \<Rightarrow> string" where
  "compute_warm_turn_range key f =
     (let n = length (filter (\<lambda>d. dict_get d ''session_key'' = Some (JStr key)) (wf_summaries f))
      in show_nat (n * 50 + 1) @ ''-'' @ show_nat ((n + 1) * 50))"

definition field_or :: "json \<Rightarrow> string \<Rightarrow> json_obj \<Rightarrow> json" where
  "field_or dflt k d = (case dict_get d k of Some j \<Rightarrow> j | None \<Rightarrow> dflt)"

definition warm_locator :: "string \<Rightarrow> nat \<Rightarrow> string" where
  "warm_locator key n = ''warm_archive/'' @ safe_key key @ ''.jsonl:0:'' @ show_nat n"

definition summary_entry :: "string \<Rightarrow> string \<Rightarrow> string \<Rightarrow> nat \<Rightarrow> json_obj \<Rightarrow> json_obj" where
  "summary_entry now key turn_range n summary =
     (let times = obj_field ''timestamp_range'' summary in
      [(''session_key'', JStr key), (''turn_range'', JStr turn_range),
       (''summary'', field_or (JStr []) ''summary'' summary),
       (''commitments'', field_or (JList []) ''commitments'' summary),
       (''decisions'', field_or (JList []) ''decisions'' summary),
       (''open_questions'', field_or (JList []) ''open_questions'' summary),
       (''key_entities'', field_or (JList []) ''key_entities'' summary),
       (''timestamp_range'', JObj [(''start'', field_or (JStr []) ''start'' times), (''end'', field_or (JStr []) ''end'' times)]),
       (''locator'', JStr (warm_locator key n)), (''created_at'', JStr now)])"

definition archive_warm_messages ::
    "string \<Rightarrow> string \<Rightarrow> json list \<Rightarrow> json_obj option \<Rightarrow> string \<Rightarrow> warm_files \<Rightarrow> warm_files" where
  "archive_warm_messages now key ms summary turn_range f =
     (let old = (case dict_get (wf_archive f) (safe_key key) of Some x \<Rightarrow> x | None \<Rightarrow> []);
          f1 = f\<lparr>wf_archive := dict_set (safe_key key) (old @ ms) (wf_archive f)\<rparr>
      in case summary of
          None \<Rightarrow> f1
        | Some d \<Rightarrow> f1\<lparr>wf_summaries := wf_summaries f1 @ [summary_entry now key turn_range (length ms) d]\<rparr>)"

text \<open>
  The background task. Its outcomes: the summary (\<open>Inl\<close> when something before the archive raises),
  whether the archive can be written, and the save. The session is the one in memory; \<open>sync\<close> is the
  update of the working memory.
\<close>

definition run_warm_summary ::
    "(int \<Rightarrow> string) \<Rightarrow> string \<Rightarrow> (json_obj \<Rightarrow> Session \<Rightarrow> Session) \<Rightarrow> string + json_obj option \<Rightarrow> bool \<Rightarrow> save_io
     \<Rightarrow> string \<Rightarrow> Session \<times> warm_files \<times> SessionManager \<Rightarrow> Session \<times> warm_files \<times> SessionManager" where
  "run_warm_summary iso_text now sync outcome archive_ok io key x =
     (case x of (s, f, sm) \<Rightarrow>
        let (ms, s1) = warm_drain now s in
        if ms = [] then (s1, f, sm)
        else case outcome of
            Inl e \<Rightarrow> (s1, f, sm)
          | Inr summary \<Rightarrow>
              if \<not> archive_ok then (s1, f, sm)
              else let f1 = archive_warm_messages now key ms summary (compute_warm_turn_range key f) f;
                       s2 = (case summary of Some d \<Rightarrow> sync d s1 | None \<Rightarrow> s1)
                   in (s2, f1, snd (save_session iso_text io s2 sm)))"

section \<open>Whole turns move, in order\<close>

definition turn_messages :: "message \<times> message list \<Rightarrow> message list" where
  "turn_messages t = fst t # snd t"

lemma split_turns_concat:
  "concat (map turn_messages (split_turns cur ms)) =
     (case cur of None \<Rightarrow> dropWhile (\<lambda>m. \<not> role_is ''user'' m) ms | Some c \<Rightarrow> turn_messages c @ ms)"
  by (induction cur ms rule: split_turns.induct) (auto simp: turn_messages_def)

lemma split_turns_shape:
  "(\<forall>c. cur = Some c \<longrightarrow> role_is ''user'' (fst c) \<and> list_all (\<lambda>m. \<not> role_is ''user'' m) (snd c)) \<Longrightarrow>
   list_all (\<lambda>t. role_is ''user'' (fst t) \<and> list_all (\<lambda>m. \<not> role_is ''user'' m) (snd t)) (split_turns cur ms)"
  by (induction cur ms rule: split_turns.induct) auto

lemma warm_load_save [simp]: "warm_load now (warm_save b s) = b" if "wb_updated b \<noteq> []"
  using that by (cases b) (simp add: warm_load_def warm_save_def buffer_json_def dict_get_set json_items_def
      truthy_int_def json_int_def str_field_def py_str_def)

lemma warm_append_load:
  assumes "now \<noteq> []"
  shows "wb_messages (warm_load now' (snd (warm_append now u as s))) = wb_messages (warm_load now s) @ map JObj (u # as)"
    "wb_turns (warm_load now' (snd (warm_append now u as s))) = wb_turns (warm_load now s) + 1"
  using assms by (simp_all add: warm_append_def Let_def)

lemma warm_append_messages [simp]: "sn_messages (snd (warm_append now u as s)) = sn_messages s"
    "sn_consolidated (snd (warm_append now u as s)) = sn_consolidated s"
  by (simp_all add: warm_append_def Let_def warm_save_def)

lemma append_turns_load:
  assumes "now \<noteq> []"
  shows "wb_messages (warm_load now (append_turns now ts s)) =
      wb_messages (warm_load now s) @ map JObj (concat (map turn_messages ts)) \<and>
    wb_turns (warm_load now (append_turns now ts s)) = wb_turns (warm_load now s) + int (length ts) \<and>
    sn_messages (append_turns now ts s) = sn_messages s \<and> sn_consolidated (append_turns now ts s) = sn_consolidated s"
proof (induction ts arbitrary: s)
  case Nil
  then show ?case by (simp add: append_turns_def)
next
  case (Cons t ts)
  obtain u as where t: "t = (u, as)" by (cases t)
  have step: "append_turns now (t # ts) s = append_turns now ts (snd (warm_append now u as s))"
    by (simp add: append_turns_def t)
  show ?case unfolding step using Cons.IH [of "snd (warm_append now u as s)"] warm_append_load [OF assms, of now u as s]
    by (simp add: turn_messages_def t)
qed

lemma spill_result:
  assumes "now \<noteq> []" and i_def: "i = find_hot_start_idx max_turns (sn_messages s)"
    and t_def: "t = spill_overflow from_iso now uid max_turns s"
  shows "sn_messages t = drop i (sn_messages s) \<and>
    wb_messages (warm_load now t) = wb_messages (warm_load now s) @
      map JObj (dropWhile (\<lambda>m. \<not> role_is ''user'' m) (take i (sn_messages s))) \<and>
    wb_turns (warm_load now t) = wb_turns (warm_load now s) +
      int (length (split_messages_by_turn (take i (sn_messages s))))"
proof (cases "i = 0 \<or> take i (sn_messages s) = []")
  case True
  then have "i = 0 \<or> sn_messages s = []" by auto
  with True show ?thesis by (auto simp: t_def i_def spill_overflow_def split_messages_by_turn_def)
next
  case False
  let ?ts = "split_messages_by_turn (take i (sn_messages s))"
  let ?s1 = "append_turns now ?ts s"
  let ?s2 = "?s1\<lparr>sn_messages := drop i (sn_messages ?s1), sn_consolidated := max 0 (sn_consolidated ?s1 - int i)\<rparr>"
  note a = append_turns_load [OF assms(1), of ?ts s]
  have "sn_messages t = sn_messages ?s2 \<and> sn_metadata t = sn_metadata ?s2"
  proof (cases "rebuild_episode_indices from_iso uid ?s2")
    case None
    with False have "t = after_failed_rebuild ?s2"
      unfolding t_def spill_overflow_def i_def [symmetric] Let_def by simp
    then show ?thesis by (simp add: after_failed_rebuild_def)
  next
    case (Some t')
    with False have "t = t'"
      unfolding t_def spill_overflow_def i_def [symmetric] Let_def by simp
    with rebuild_keeps [OF Some] show ?thesis by simp
  qed
  then have "sn_messages t = drop i (sn_messages s)" "warm_load now t = warm_load now ?s1"
    using a by (simp_all add: warm_load_def)
  with a split_turns_concat [of None "take i (sn_messages s)"] show ?thesis
    by (simp add: split_messages_by_turn_def)
qed

lemma split_turns_count:
  "length (split_turns cur ms) = length (filter (role_is ''user'') ms) + (if cur = None then 0 else 1)"
  by (induction cur ms rule: split_turns.induct) auto

text \<open>
  C25. The spill into the warm buffer. The messages before the hot window leave the session as whole
  turns: apart from messages before the first user message, which are dropped, they are appended to the
  buffer in order, and the turn counter grows by the number of user messages among them. With more
  turns than wanted, what stays is exactly the window that \<^verbatim>\<open>get_hot_history\<close> shows.
\<close>

theorem spill_moves_whole_turns:
  assumes "now \<noteq> []" and "t = spill_overflow from_iso now uid max_turns s"
  shows "(\<exists>orphans moved. sn_messages s = orphans @ moved @ sn_messages t \<and>
      list_all (\<lambda>m. \<not> role_is ''user'' m) orphans \<and> (moved \<noteq> [] \<longrightarrow> role_is ''user'' (hd moved)) \<and>
      wb_messages (warm_load now t) = wb_messages (warm_load now s) @ map JObj moved \<and>
      wb_turns (warm_load now t) = wb_turns (warm_load now s) + int (length (filter (role_is ''user'') moved))) \<and>
    (turn_limit max_turns < length (user_indices (sn_messages s)) \<longrightarrow>
       sn_messages t = hot_window max_turns (sn_messages s))"
proof -
  let ?i = "find_hot_start_idx max_turns (sn_messages s)"
  let ?P = "\<lambda>m. \<not> role_is ''user'' m"
  let ?front = "take ?i (sn_messages s)"
  note r = spill_result [OF assms(1) refl assms(2)]
  have "sn_messages s = takeWhile ?P ?front @ dropWhile ?P ?front @ sn_messages t"
    using r by (metis append_assoc append_take_drop_id takeWhile_dropWhile_id)
  moreover have "list_all ?P (takeWhile ?P ?front)" by (auto simp: list_all_iff dest: set_takeWhileD)
  moreover have "dropWhile ?P ?front \<noteq> [] \<longrightarrow> role_is ''user'' (hd (dropWhile ?P ?front))"
    using hd_dropWhile [of ?P ?front] by auto
  moreover have "length (split_messages_by_turn ?front) = length (filter (role_is ''user'') (dropWhile ?P ?front))"
  proof -
    have "filter (role_is ''user'') ?front = filter (role_is ''user'') (takeWhile ?P ?front @ dropWhile ?P ?front)" by simp
    moreover have "filter (role_is ''user'') (takeWhile ?P ?front) = []"
      by (auto simp: filter_empty_conv dest: set_takeWhileD)
    ultimately show ?thesis
      using split_turns_count [of None ?front] by (simp add: split_messages_by_turn_def del: takeWhile_dropWhile_id)
  qed
  ultimately show ?thesis
    using r hot_start_agrees' [of max_turns "sn_messages s"] by metis
qed

theorem spill_moves_whole_turns_witness:
  "let s = sample_session (concat (replicate 3 [say ''user'' ''q'', say ''assistant'' ''a'']));
       t = spill_overflow (\<lambda>_. None) ''now'' ''u'' 1 s
   in sn_messages t = hot_window 1 (sn_messages s) \<and> wb_turns (warm_load ''now'' t) = 2"
proof -
  let ?s = "sample_session (concat (replicate 3 [say ''user'' ''q'', say ''assistant'' ''a'']))"
  have "turn_limit 1 < length (user_indices (sn_messages ?s))" by code_simp
  moreover have "wb_turns (warm_load ''now'' (spill_overflow (\<lambda>_. None) ''now'' ''u'' 1 ?s)) = 2" by code_simp
  ultimately show ?thesis
    using spill_moves_whole_turns [of "''now''" _ "\<lambda>_. None" "''u''" 1 ?s] by (simp add: Let_def)
qed

text \<open>
  The hot window keeps a proactive message in front of its first user message. At the next spill that
  message is a message before the first user message, and is dropped from session and buffer alike.
\<close>

definition proactive :: message where
  "proactive = say ''assistant'' ''reminder'' @ [(''_channel_delivery'', JBool True)]"

lemma proactive_message_lost:
  "let s = sample_session [say ''user'' ''a'', proactive, say ''user'' ''b''];
       t = spill_overflow (\<lambda>_. None) ''now'' ''u'' 1 s;
       t1 = t\<lparr>sn_messages := sn_messages t @ [say ''user'' ''c'']\<rparr>;
       u = spill_overflow (\<lambda>_. None) ''now'' ''u'' 1 t1
   in sn_messages t = [proactive, say ''user'' ''b''] \<and> sn_messages u = [say ''user'' ''c''] \<and>
      wb_messages (warm_load ''now'' u) = [JObj (say ''user'' ''a''), JObj (say ''user'' ''b'')]"
  by code_simp

section \<open>The warm archive\<close>

lemma drain_empties: "now \<noteq> [] \<Longrightarrow> warm_load now' (snd (warm_drain now s)) = empty_buffer now"
  by (simp add: warm_drain_def empty_buffer_def)

text \<open>A batch that is summarised, or for which no summary could be made, goes to the archive as a whole.\<close>

lemma batch_archived:
  assumes "warm_drain now s = (ms, s1)" and "ms \<noteq> []"
    and "run_warm_summary iso_text now sync (Inr summary) True io key (s, f, sm) = (t, f', sm')"
  shows "dict_get (wf_archive f') (safe_key key) =
      Some ((case dict_get (wf_archive f) (safe_key key) of Some x \<Rightarrow> x | None \<Rightarrow> []) @ ms)"
  using assms by (auto simp: run_warm_summary_def archive_warm_messages_def Let_def dict_get_set split: option.splits)

text \<open>When something raises after the drain, the batch is in neither the buffer nor the archive.\<close>

lemma batch_lost_on_error:
  assumes "now \<noteq> []" and "warm_drain now s = (ms, s1)"
    and "run_warm_summary iso_text now sync (Inr summary) False io key (s, f, sm) = (t, f', sm')"
  shows "wb_messages (warm_load now t) = [] \<and> f' = f \<and> sm' = sm"
  using assms drain_empties [OF assms(1), of now s]
  by (auto simp: run_warm_summary_def empty_buffer_def split: if_splits)

text \<open>Every entry of the summary index locates its batch from line 0 of the archive, so an entry for a
  later batch names the lines of the first.\<close>

lemma locator_ignores_offset:
  "let f = archive_warm_messages ''t1'' ''k'' [JStr ''a'', JStr ''b''] (Some []) ''1-50'' \<lparr>wf_archive = [], wf_summaries = []\<rparr>;
       g = archive_warm_messages ''t2'' ''k'' [JStr ''c'', JStr ''d''] (Some []) ''51-100'' f
   in dict_get (wf_archive g) ''k'' = Some [JStr ''a'', JStr ''b'', JStr ''c'', JStr ''d''] \<and>
      map (\<lambda>d. dict_get d ''locator'') (wf_summaries g) =
        [Some (JStr ''warm_archive/k.jsonl:0:2''), Some (JStr ''warm_archive/k.jsonl:0:2'')]"
  by code_simp

end
