(* ===== verification/TurnPipeline.thy ===== *)
theory TurnPipeline
  imports WarmBuffer
begin

text \<open>
  One turn of the agent: the state machine of \<^verbatim>\<open>OriginAgent/agent/agent_turn_pipeline.py\<close>, driven by the
  loop of \<^verbatim>\<open>OriginAgent/agent/turn_orchestrator.py\<close>, with the handlers that work on the session.

  The language model, the tools and the commands are outcomes of the handlers' environment.
\<close>

section \<open>The state machine\<close>

datatype TurnState = RESTORE | COMPACT | COMMAND | BUILD | RUN | SAVE | AUTOMATION | RESPOND | DONE
  | HANDLE_ERROR | HANDLE_TIMEOUT

datatype TurnEvent = OK | DISPATCH | SHORTCUT | SKIP | ERROR | TIMEOUT | FATAL_ERROR | MAX_ITERATIONS | FATAL

definition TURN_PIPELINE_TRANSITIONS :: "(TurnState \<times> TurnEvent, TurnState) dict" where
  "TURN_PIPELINE_TRANSITIONS =
     [((RESTORE, OK), COMPACT),
      ((COMPACT, OK), COMMAND),
      ((COMMAND, DISPATCH), BUILD),
      ((COMMAND, SHORTCUT), DONE),
      ((BUILD, OK), RUN),
      ((RUN, OK), SAVE),
      ((SAVE, OK), AUTOMATION),
      ((AUTOMATION, OK), RESPOND),
      ((AUTOMATION, SKIP), RESPOND),
      ((RESPOND, OK), DONE),
      ((RESTORE, ERROR), HANDLE_ERROR),
      ((COMPACT, ERROR), HANDLE_ERROR),
      ((BUILD, ERROR), HANDLE_ERROR),
      ((RUN, ERROR), HANDLE_ERROR),
      ((RUN, MAX_ITERATIONS), SAVE),
      ((RUN, FATAL_ERROR), HANDLE_ERROR),
      ((RUN, TIMEOUT), HANDLE_TIMEOUT),
      ((SAVE, ERROR), HANDLE_ERROR),
      ((AUTOMATION, ERROR), RESPOND),
      ((HANDLE_ERROR, OK), RESPOND),
      ((HANDLE_ERROR, FATAL), DONE),
      ((HANDLE_TIMEOUT, OK), RESPOND),
      ((HANDLE_TIMEOUT, FATAL), DONE)]"

definition pipeline_transition :: "TurnState \<Rightarrow> TurnEvent \<Rightarrow> TurnState option" where
  "pipeline_transition st ev = dict_get TURN_PIPELINE_TRANSITIONS (st, ev)"

text \<open>How far a state is from the end.\<close>

fun turn_rank :: "TurnState \<Rightarrow> nat" where
  "turn_rank RESTORE = 8" | "turn_rank COMPACT = 7" | "turn_rank COMMAND = 6" | "turn_rank BUILD = 5"
| "turn_rank RUN = 4" | "turn_rank SAVE = 3" | "turn_rank AUTOMATION = 2" | "turn_rank HANDLE_ERROR = 2"
| "turn_rank HANDLE_TIMEOUT = 2" | "turn_rank RESPOND = 1" | "turn_rank DONE = 0"

text \<open>A property of the entries of the table holds for every transition.\<close>

lemma transition_entry:
  "pipeline_transition st ev = Some st' \<Longrightarrow> list_all P TURN_PIPELINE_TRANSITIONS \<Longrightarrow> P ((st, ev), st')"
  by (auto simp: pipeline_transition_def list_all_iff dest: map_of_SomeD)

lemma transition_descends: "pipeline_transition st ev = Some st' \<Longrightarrow> turn_rank st' < turn_rank st"
  by (drule transition_entry [where P = "\<lambda>((st, ev), st'). turn_rank st' < turn_rank st"])
    (simp_all add: TURN_PIPELINE_TRANSITIONS_def)

text \<open>
  The loop. A handler raises or answers with an event and the changed context; the trace records the
  event of each handled state, none for a handler that raises.
\<close>

function run_turn ::
    "(TurnState \<Rightarrow> 'c \<Rightarrow> string + TurnEvent \<times> 'c) \<Rightarrow> TurnState \<Rightarrow> 'c
     \<Rightarrow> (string + 'c) \<times> (TurnState \<times> TurnEvent option) list" where
  "run_turn handler st ctx =
     (if st = DONE then (Inr ctx, [])
      else case handler st ctx of
          Inl e \<Rightarrow> (Inl e, [(st, None)])
        | Inr (ev, ctx1) \<Rightarrow>
            (case pipeline_transition st ev of
               None \<Rightarrow> (Inl ''RuntimeError'', [(st, Some ev)])
             | Some st1 \<Rightarrow> (let (r, tr) = run_turn handler st1 ctx1 in (r, (st, Some ev) # tr))))"
  by auto
termination
  by (relation "measure (\<lambda>(_, st, _). turn_rank st)") (auto dest: transition_descends)

declare run_turn.simps [simp del]

section \<open>Handlers\<close>

record TurnContext =
  tc_session :: Session
  tc_store :: SessionManager
  tc_history :: "message list"
  tc_messages :: "message list"
  tc_early :: bool
  tc_content :: "string option"
  tc_error :: "string option"
  tc_appendix :: "string list"

definition EMPTY_FINAL_RESPONSE_MESSAGE :: string where
  "EMPTY_FINAL_RESPONSE_MESSAGE = ''I completed the tool steps but couldn'' @ [CHR 0x27] @
     ''t produce a final answer. Please try again or narrow the task.''"

definition save_context :: "(int \<Rightarrow> string) \<Rightarrow> save_io \<Rightarrow> TurnContext \<Rightarrow> string + TurnContext" where
  "save_context iso_text io ctx =
     (let (e, sm) = save_session iso_text io (tc_session ctx) (tc_store ctx)
      in case e of Some err \<Rightarrow> Inl err | None \<Rightarrow> Inr (ctx\<lparr>tc_store := sm\<rparr>))"

text \<open>Each of the two restores is saved when it changed something; a failing save ends the turn.\<close>

definition state_restore :: "(int \<Rightarrow> string) \<Rightarrow> save_io \<Rightarrow> int \<Rightarrow> TurnContext \<Rightarrow> string + TurnEvent \<times> TurnContext" where
  "state_restore iso_text io now ctx =
     (let (b1, s1) = restore_checkpoint iso_text now (tc_session ctx);
          c1 = ctx\<lparr>tc_session := s1\<rparr>
      in case (if b1 then save_context iso_text io c1 else Inr c1) of
          Inl e \<Rightarrow> Inl e
        | Inr c2 \<Rightarrow>
            (let (b2, s2) = restore_pending_user_turn iso_text now (tc_session c2);
                 c3 = c2\<lparr>tc_session := s2\<rparr>
             in (case (if b2 then save_context iso_text io c3 else Inr c3) of
                   Inl e \<Rightarrow> Inl e | Inr c4 \<Rightarrow> Inr (OK, c4))))"

text \<open>What the agent loop does in a turn: an answer with all messages, a timeout, or an exception.\<close>

datatype run_outcome = Answered "string option" "message list" | TimedOut string | Raised string string

definition state_run :: "run_outcome \<Rightarrow> TurnContext \<Rightarrow> string + TurnEvent \<times> TurnContext" where
  "state_run outcome ctx =
     (case outcome of
        Answered content ms \<Rightarrow> Inr (OK, ctx\<lparr>tc_content := content, tc_messages := ms\<rparr>)
      | TimedOut msg \<Rightarrow> Inr (TIMEOUT, ctx\<lparr>tc_error := Some (''TimeoutError: '' @ msg)\<rparr>)
      | Raised kind msg \<Rightarrow> Inr (ERROR, ctx\<lparr>tc_error := Some (kind @ '': '' @ msg)\<rparr>))"

record save_env =
  se_from_iso :: "string \<Rightarrow> int option"
  se_limit :: int
  se_archive :: "message list \<Rightarrow> bool"
  se_now :: int
  se_stamp :: string
  se_uid :: string
  se_with_media :: "message list \<Rightarrow> message list"
  se_govern :: "Session \<Rightarrow> Session"
  se_io :: save_io

text \<open>
  \<open>se_with_media\<close> attaches the generated files to the last answer, \<open>se_govern\<close> is the memory
  governance, the continuity checkpoint and the rolling compaction, which keep the messages.
\<close>

definition saved_turn :: "(int \<Rightarrow> string) \<Rightarrow> save_env \<Rightarrow> TurnContext \<Rightarrow> Session" where
  "saved_turn iso_text env ctx =
     loop_save_turn iso_text (se_limit env) (se_now env) (se_with_media env (tc_messages ctx))
       (1 + length (tc_history ctx) + (if tc_early ctx then 1 else 0)) (tc_session ctx)"

definition state_save :: "(int \<Rightarrow> string) \<Rightarrow> save_env \<Rightarrow> TurnContext \<Rightarrow> string + TurnEvent \<times> TurnContext" where
  "state_save iso_text env ctx =
     (let c0 = (case tc_content ctx of
            Some t \<Rightarrow> if py_strip t = [] then Some EMPTY_FINAL_RESPONSE_MESSAGE else Some t
          | None \<Rightarrow> Some EMPTY_FINAL_RESPONSE_MESSAGE)
      in case fst (enforce_file_cap (se_from_iso env) (Some (se_archive env)) (se_now env) (se_uid env)
                 FILE_MAX_MESSAGES (saved_turn iso_text env ctx)) of
          Inl e \<Rightarrow> Inl e
        | Inr s1 \<Rightarrow>
            let s2 = clear_checkpoint (clear_pending_user_turn
                  (spill_overflow (se_from_iso env) (se_stamp env) (se_uid env) 50 s1))
            in (case save_context iso_text (se_io env)
                   (ctx\<lparr>tc_session := se_govern env s2, tc_content := c0,
                        tc_messages := se_with_media env (tc_messages ctx)\<rparr>) of
                  Inl e \<Rightarrow> Inl e | Inr c \<Rightarrow> Inr (OK, c)))"

definition state_respond :: "TurnContext \<Rightarrow> string + TurnEvent \<times> TurnContext" where
  "state_respond ctx =
     (let parts = filter (\<lambda>t. t \<noteq> []) (map py_strip (tc_appendix ctx));
          nl = [CHR 0x0A, CHR 0x0A]; appendix = join_with nl parts
      in Inr (OK, if appendix = [] then ctx
                  else ctx\<lparr>tc_content := Some (py_strip
                    ((case tc_content ctx of Some t \<Rightarrow> t | None \<Rightarrow> []) @ nl @ appendix))\<rparr>))"

definition state_handle_error :: "TurnContext \<Rightarrow> string + TurnEvent \<times> TurnContext" where
  "state_handle_error ctx = Inr (OK, ctx)"

definition state_handle_timeout :: "TurnContext \<Rightarrow> string + TurnEvent \<times> TurnContext" where
  "state_handle_timeout ctx = Inr (OK, ctx)"

text \<open>The handlers outside the session: what they may answer, read off their code.\<close>

record turn_env =
  tv_iso :: "int \<Rightarrow> string"
  tv_io :: save_io
  tv_now :: int
  tv_compact :: "TurnContext \<Rightarrow> string + TurnContext"
  tv_command :: "TurnContext \<Rightarrow> string + bool \<times> TurnContext"
  tv_build :: "TurnContext \<Rightarrow> string + TurnContext"
  tv_run :: "TurnContext \<Rightarrow> run_outcome"
  tv_save :: save_env
  tv_automation :: "TurnContext \<Rightarrow> string + bool \<times> TurnContext"

fun pipeline_handler :: "turn_env \<Rightarrow> TurnState \<Rightarrow> TurnContext \<Rightarrow> string + TurnEvent \<times> TurnContext" where
  "pipeline_handler env RESTORE ctx = state_restore (tv_iso env) (tv_io env) (tv_now env) ctx"
| "pipeline_handler env COMPACT ctx = map_sum id (Pair OK) (tv_compact env ctx)"
| "pipeline_handler env COMMAND ctx =
     map_sum id (\<lambda>(answered, c). (if answered then SHORTCUT else DISPATCH, c)) (tv_command env ctx)"
| "pipeline_handler env BUILD ctx = map_sum id (Pair OK) (tv_build env ctx)"
| "pipeline_handler env RUN ctx = state_run (tv_run env ctx) ctx"
| "pipeline_handler env SAVE ctx = state_save (tv_iso env) (tv_save env) ctx"
| "pipeline_handler env AUTOMATION ctx =
     map_sum id (\<lambda>(ran, c). (if ran then OK else SKIP, c)) (tv_automation env ctx)"
| "pipeline_handler env RESPOND ctx = state_respond ctx"
| "pipeline_handler env DONE ctx = Inl ''RuntimeError''"
| "pipeline_handler env HANDLE_ERROR ctx = state_handle_error ctx"
| "pipeline_handler env HANDLE_TIMEOUT ctx = state_handle_timeout ctx"

definition process_turn ::
    "turn_env \<Rightarrow> TurnContext \<Rightarrow> (string + TurnContext) \<times> (TurnState \<times> TurnEvent option) list" where
  "process_turn env ctx = run_turn (pipeline_handler env) RESTORE ctx"

section \<open>Automation\<close>

record ActionProposal =
  pr_digest :: string
  pr_origin :: string
  pr_preview :: bool

definition select_automation_proposal :: "ActionProposal list \<Rightarrow> string option \<Rightarrow> ActionProposal option" where
  "select_automation_proposal proposals preferred =
     (let executable = filter (\<lambda>p. \<not> pr_preview p) proposals;
          from_origin = (\<lambda>org. List.find (\<lambda>p. pr_origin p = org) executable);
          fallback = (case from_origin ''smart_home'' of
              Some p \<Rightarrow> Some p
            | None \<Rightarrow> (case from_origin ''robot'' of
                Some p \<Rightarrow> Some p
              | None \<Rightarrow> (case executable of [] \<Rightarrow> None | p # _ \<Rightarrow> Some p)))
      in if truthy preferred
         then (case from_origin (the preferred) of Some p \<Rightarrow> Some p | None \<Rightarrow> fallback)
         else fallback)"

record 'e contribution =
  dc_origin :: "string option"
  dc_executor :: "'e option"
  dc_adapter :: "'e option"

definition resolve_executor_for_origin :: "string \<Rightarrow> 'e contribution list \<Rightarrow> 'e option" where
  "resolve_executor_for_origin org cs =
     (if org = [] then None
      else case List.find (\<lambda>c. dc_origin c = Some org \<and> dc_executor c \<noteq> None) cs of
          Some c \<Rightarrow> dc_executor c | None \<Rightarrow> None)"

definition resolve_adapter_for_origin :: "string \<Rightarrow> 'e contribution list \<Rightarrow> 'e option" where
  "resolve_adapter_for_origin org cs =
     (if org = [] then None
      else case List.find (\<lambda>c. dc_origin c = Some org) cs of Some c \<Rightarrow> dc_adapter c | None \<Rightarrow> None)"

text \<open>The checks of \<^verbatim>\<open>state_automation\<close> before anything runs: the reason to skip, or what to run.\<close>

definition plan_automation ::
    "bool \<Rightarrow> bool \<Rightarrow> string option \<Rightarrow> ActionProposal list \<Rightarrow> 'e contribution list
     \<Rightarrow> string + ActionProposal \<times> 'e \<times> 'e" where
  "plan_automation has_context enabled preferred proposals cs =
     (if \<not> has_context then Inl ''missing_context''
      else if \<not> enabled then Inl ''automation_disabled''
      else case select_automation_proposal proposals preferred of
          None \<Rightarrow> Inl ''no_executable_proposal''
        | Some p \<Rightarrow> (case resolve_executor_for_origin (pr_origin p) cs of
              None \<Rightarrow> Inl ''executor_missing_for_selected_proposal''
            | Some x \<Rightarrow> (case resolve_adapter_for_origin (pr_origin p) cs of
                  None \<Rightarrow> Inl ''adapter_missing_for_selected_proposal''
                | Some a \<Rightarrow> Inr (p, x, a))))"

section \<open>Session-side decisions of the build\<close>

definition clear_denied_tools :: "string \<Rightarrow> Session \<Rightarrow> bool \<times> Session" where
  "clear_denied_tools trigger s =
     (if trigger \<noteq> ''user_initiated'' \<or> json_items (dict_get (sn_metadata s) ''_denied_tools'') = [] then (False, s)
      else (True, s\<lparr>sn_metadata := dict_set ''_denied_tools'' (JList []) (sn_metadata s)\<rparr>))"

definition context_insufficiency :: "Session \<Rightarrow> int option" where
  "context_insufficiency s = (case active_episode s of
       None \<Rightarrow> None
     | Some e \<Rightarrow> (let n = ep_end e - ep_start e in if n < 20 then None else Some n))"

definition topic_window :: "Session \<Rightarrow> string list option" where
  "topic_window s = (case active_episode s of
       None \<Rightarrow> None
     | Some e \<Rightarrow> (let ts = user_texts (episode_messages e s) in if length ts < 2 then None else Some (last_n 5 ts)))"

text \<open>The history of the turn: the open episode's, or the last fifty turns.\<close>

definition turn_history :: "(message \<Rightarrow> int) \<Rightarrow> int \<Rightarrow> Session \<Rightarrow> message list option" where
  "turn_history est max_tokens s =
     (case active_episode s of
        Some e \<Rightarrow> get_episode_history est (ep_id e) max_tokens True s
      | None \<Rightarrow> get_hot_history est 50 max_tokens False s)"

section \<open>Every turn ends\<close>

text \<open>A trace from a state: each event leads to the next handled state, the last one may lead to the end.\<close>

fun trace_from :: "TurnState \<Rightarrow> (TurnState \<times> TurnEvent option) list \<Rightarrow> bool" where
  "trace_from st [] = (st = DONE)"
| "trace_from st ((st1, ev) # tr) =
     (st1 = st \<and> st \<noteq> DONE \<and>
      (tr = [] \<and> (case ev of None \<Rightarrow> True | Some e \<Rightarrow> pipeline_transition st e \<in> {None, Some DONE}) \<or>
       tr \<noteq> [] \<and> (case ev of None \<Rightarrow> False
         | Some e \<Rightarrow> (case pipeline_transition st e of None \<Rightarrow> False | Some st2 \<Rightarrow> trace_from st2 tr))))"

definition closing_events :: "(TurnState \<times> TurnEvent option) set" where
  "closing_events = {(RESPOND, Some OK), (COMMAND, Some SHORTCUT), (HANDLE_ERROR, Some FATAL), (HANDLE_TIMEOUT, Some FATAL)}"

lemma to_done: "pipeline_transition st e = Some DONE \<Longrightarrow> (st, Some e) \<in> closing_events"
  by (drule transition_entry [where P = "\<lambda>((st, e), st'). st' = DONE \<longrightarrow> (st, Some e) \<in> closing_events"])
    (simp_all add: TURN_PIPELINE_TRANSITIONS_def closing_events_def)

lemma no_transition: "pipeline_transition st e = None \<Longrightarrow> (st, Some e) \<notin> closing_events"
  by (auto simp: closing_events_def pipeline_transition_def TURN_PIPELINE_TRANSITIONS_def)

lemma to_save: "pipeline_transition st e = Some SAVE \<Longrightarrow> st = RUN \<and> (e = OK \<or> e = MAX_ITERATIONS)"
  by (drule transition_entry [where P = "\<lambda>((st, e), st'). st' = SAVE \<longrightarrow> st = RUN \<and> (e = OK \<or> e = MAX_ITERATIONS)"])
    (simp_all add: TURN_PIPELINE_TRANSITIONS_def)

lemma run_turn_trace:
  "run_turn handler st ctx = (r, tr) \<Longrightarrow> st \<noteq> DONE \<Longrightarrow>
   trace_from st tr \<and> tr \<noteq> [] \<and> ((\<exists>c. r = Inr c) \<longleftrightarrow> last tr \<in> closing_events)"
proof (induction handler st ctx arbitrary: r tr rule: run_turn.induct)
  case (1 handler st ctx)
  show ?case
  proof (cases "handler st ctx")
    case (Inl e)
    with 1(2,3) have "r = Inl e" "tr = [(st, None)]" by (simp_all add: run_turn.simps [of handler st])
    with 1(3) show ?thesis by (simp add: closing_events_def)
  next
    case (Inr p)
    obtain ev c1 where p: "p = (ev, c1)" by (cases p)
    show ?thesis
    proof (cases "pipeline_transition st ev")
      case None
      with 1(2,3) Inr p have "r = Inl ''RuntimeError''" "tr = [(st, Some ev)]"
        by (simp_all add: run_turn.simps [of handler st])
      moreover have "(st, Some ev) \<notin> closing_events" using None by (rule no_transition)
      ultimately show ?thesis using None 1(3) by simp
    next
      case (Some st1)
      obtain r1 tr1 where sub: "run_turn handler st1 c1 = (r1, tr1)" by (cases "run_turn handler st1 c1")
      with 1(2,3) Inr p Some have eq: "r = r1" "tr = (st, Some ev) # tr1"
        by (simp_all add: run_turn.simps [of handler st])
      show ?thesis
      proof (cases "st1 = DONE")
        case True
        with sub have "r1 = Inr c1" "tr1 = []" by (simp_all add: run_turn.simps [of handler DONE c1])
        with eq True Some 1(3) to_done [of st ev] show ?thesis by simp
      next
        case False
        have IH: "trace_from st1 tr1 \<and> tr1 \<noteq> [] \<and> ((\<exists>c. r1 = Inr c) \<longleftrightarrow> last tr1 \<in> closing_events)"
          using 1(1) [OF 1(3) Inr p [symmetric] Some sub False] by simp
        with eq Some 1(3) show ?thesis by simp
      qed
    qed
  qed
qed

lemma trace_ranks:
  "trace_from st tr \<Longrightarrow> length tr \<le> turn_rank st \<and> distinct (map fst tr) \<and> (\<forall>x \<in> set tr. turn_rank (fst x) \<le> turn_rank st)"
proof (induction st tr rule: trace_from.induct)
  case (1 st)
  then show ?case by simp
next
  case (2 st st1 ev tr)
  from 2(2) have st: "st1 = st" "st \<noteq> DONE" by simp_all
  show ?case
  proof (cases "tr = []")
    case True
    with st show ?thesis by (cases st) simp_all
  next
    case False
    with 2(2) obtain e st2 where e: "ev = Some e" "pipeline_transition st e = Some st2" "trace_from st2 tr"
      by (auto split: option.splits)
    from transition_descends [OF e(2)] have d: "turn_rank st2 < turn_rank st" .
    from 2(1) [OF e(1,2)] e(3) have IH: "length tr \<le> turn_rank st2" "distinct (map fst tr)"
      "\<forall>x \<in> set tr. turn_rank (fst x) \<le> turn_rank st2" by blast+
    from IH(3) d have "st \<notin> fst ` set tr" by fastforce
    with IH d st(1) show ?thesis by force
  qed
qed

lemma save_needs_run:
  "trace_from st tr \<Longrightarrow> st \<noteq> SAVE \<Longrightarrow> SAVE \<in> fst ` set tr \<Longrightarrow>
   (RUN, Some OK) \<in> set tr \<or> (RUN, Some MAX_ITERATIONS) \<in> set tr"
proof (induction st tr rule: trace_from.induct)
  case (1 st)
  then show ?case by simp
next
  case (2 st st1 ev tr)
  from 2(2,3,4) have ne: "tr \<noteq> []" and st: "st1 = st" by auto
  with 2(2) obtain e st2 where e: "ev = Some e" "pipeline_transition st e = Some st2" "trace_from st2 tr"
    by (auto split: option.splits)
  show ?case
  proof (cases "st2 = SAVE")
    case True
    with e(2) have "st = RUN \<and> (e = OK \<or> e = MAX_ITERATIONS)" by (auto dest: to_save)
    with st e(1) show ?thesis by auto
  next
    case False
    with 2(1) [OF e(1,2,3)] 2(3,4) st show ?thesis by auto
  qed
qed

text \<open>
  C15. Every turn ends. Whatever the handlers answer, the loop over the states of a turn handles at most
  eight states, each at most once, beginning with the restore; the turn is saved only after the model
  has run; and it ends without an exception exactly when its last handler answered with one of the
  closing events.
\<close>

theorem every_turn_ends:
  fixes ctx :: 'c
  assumes "run_turn handler RESTORE ctx = (r, tr)"
  shows "tr \<noteq> [] \<and> fst (hd tr) = RESTORE \<and> length tr \<le> 8 \<and> distinct (map fst tr) \<and>
    (SAVE \<in> fst ` set tr \<longrightarrow> (RUN, Some OK) \<in> set tr \<or> (RUN, Some MAX_ITERATIONS) \<in> set tr) \<and>
    ((\<exists>c. r = Inr c) \<longleftrightarrow> last tr \<in> closing_events)"
proof -
  note t = run_turn_trace [OF assms]
  then have f: "trace_from RESTORE tr" and ne: "tr \<noteq> []" by simp_all
  obtain x xs where x: "tr = x # xs" using ne by (cases tr) auto
  then have "fst (hd tr) = RESTORE" using f by (cases x) auto
  with t trace_ranks [OF f] save_needs_run [OF f] show ?thesis by simp
qed

theorem every_turn_ends_witness:
  "run_turn (\<lambda>st (n :: nat). if st = RUN then Inr (TIMEOUT, n) else if st = COMMAND then Inr (DISPATCH, n) else Inr (OK, n))
     RESTORE 0 =
     (Inr 0, [(RESTORE, Some OK), (COMPACT, Some OK), (COMMAND, Some DISPATCH), (BUILD, Some OK),
        (RUN, Some TIMEOUT), (HANDLE_TIMEOUT, Some OK), (RESPOND, Some OK)]) \<and>
   distinct [RESTORE, COMPACT, COMMAND, BUILD, RUN, HANDLE_TIMEOUT, RESPOND]"
proof -
  let ?h = "\<lambda>st (n :: nat). if st = RUN then Inr (TIMEOUT, n) else if st = COMMAND then Inr (DISPATCH, n) else Inr (OK, n)"
  have r: "run_turn ?h RESTORE 0 =
     (Inr 0, [(RESTORE, Some OK), (COMPACT, Some OK), (COMMAND, Some DISPATCH), (BUILD, Some OK),
        (RUN, Some TIMEOUT), (HANDLE_TIMEOUT, Some OK), (RESPOND, Some OK)])"
    by (simp add: run_turn.simps pipeline_transition_def TURN_PIPELINE_TRANSITIONS_def)
  with every_turn_ends [OF r] show ?thesis by simp
qed

section \<open>Restoring and saving\<close>

text \<open>Nothing is left to restore.\<close>

definition turn_settled :: "Session \<Rightarrow> bool" where
  "turn_settled s = ((\<forall>cp. dict_get (sn_metadata s) ''runtime_checkpoint'' \<noteq> Some (JObj cp)) \<and>
     \<not> truthy_field ''pending_user_turn'' (sn_metadata s))"

lemma settled_restore:
  "turn_settled (tc_session c) \<Longrightarrow> state_restore iso_text io now c = Inr (OK, c)"
  by (auto simp: turn_settled_def state_restore_def restore_checkpoint_def restore_pending_user_turn_def Let_def
      split: option.splits json.splits)

lemma restore_pending_settled:
  "\<forall>cp. dict_get (sn_metadata s) ''runtime_checkpoint'' \<noteq> Some (JObj cp) \<Longrightarrow>
   turn_settled (snd (restore_pending_user_turn iso_text now s))"
  by (auto simp: turn_settled_def restore_pending_user_turn_def clear_pending_user_turn_def truthy_field_def dict_get_del)

lemma restore_checkpoint_gone:
  "\<forall>cp. dict_get (sn_metadata (snd (restore_checkpoint iso_text now s))) ''runtime_checkpoint'' \<noteq> Some (JObj cp)"
  by (auto simp: restore_checkpoint_def Let_def clear_checkpoint_def clear_pending_user_turn_def dict_get_del
      split: option.splits json.splits)

lemma save_context_session: "save_context iso_text io c = Inr c' \<Longrightarrow> tc_session c' = tc_session c"
  by (auto simp: save_context_def Let_def split: prod.splits option.splits)

lemma state_restore_session:
  assumes "state_restore iso_text io now c = Inr (ev, c')"
  shows "ev = OK \<and> tc_session c' = snd (restore_pending_user_turn iso_text now (snd (restore_checkpoint iso_text now (tc_session c))))"
proof -
  obtain b1 s1 where r1: "restore_checkpoint iso_text now (tc_session c) = (b1, s1)"
    by (cases "restore_checkpoint iso_text now (tc_session c)")
  from assms r1 obtain c2 where c2: "(if b1 then save_context iso_text io (c\<lparr>tc_session := s1\<rparr>) else Inr (c\<lparr>tc_session := s1\<rparr>)) = Inr c2"
    by (auto simp: state_restore_def Let_def split: sum.splits)
  then have s2: "tc_session c2 = s1" by (auto split: if_splits dest: save_context_session)
  obtain b2 s3 where r2: "restore_pending_user_turn iso_text now s1 = (b2, s3)"
    by (cases "restore_pending_user_turn iso_text now s1")
  from assms have "(case (if b2 then save_context iso_text io (c2\<lparr>tc_session := s3\<rparr>) else Inr (c2\<lparr>tc_session := s3\<rparr>)) of
      Inl e \<Rightarrow> Inl e | Inr c4 \<Rightarrow> Inr (OK, c4)) = Inr (ev, c')"
    unfolding state_restore_def Let_def r1 prod.case c2 sum.case s2 r2 .
  then have "ev = OK \<and> tc_session c' = s3" by (auto split: sum.splits if_splits dest: save_context_session)
  then show ?thesis by (simp add: r1 r2)
qed

lemma rebuild_metadata: "sn_metadata (after_failed_rebuild s) = sn_metadata s"
  by (simp add: after_failed_rebuild_def)

lemma restore_keeps_messages:
  "prefix (sn_messages s) (sn_messages (snd (restore_checkpoint iso_text now s)))"
  "prefix (sn_messages s) (sn_messages (snd (restore_pending_user_turn iso_text now s)))"
  by (auto simp: restore_checkpoint_def Let_def clear_checkpoint_def clear_pending_user_turn_def
      restore_pending_user_turn_def split: option.splits json.splits)

text \<open>
  C16. Restoring at the start of a turn. When the restore succeeds, every message of the session is kept,
  nothing is left to restore, so that another restore changes nothing, and a session that was waiting
  for an answer without a checkpoint no longer ends with the user's message. And after a turn has been
  saved, the restore of the next turn changes nothing: no turn is finished twice.
\<close>

theorem turn_restored_once:
  assumes "\<And>s k. k \<in> {''runtime_checkpoint'', ''pending_user_turn''} \<Longrightarrow>
      dict_get (sn_metadata (se_govern env s)) k = dict_get (sn_metadata s) k"
  shows "(state_restore iso_text io now c = Inr (ev, d) \<longrightarrow>
      prefix (sn_messages (tc_session c)) (sn_messages (tc_session d)) \<and>
      state_restore iso_text io' now' d = Inr (OK, d) \<and>
      (truthy_field ''pending_user_turn'' (sn_metadata (tc_session c)) \<and>
         dict_get (sn_metadata (tc_session c)) ''runtime_checkpoint'' = None \<longrightarrow>
       sn_messages (tc_session d) = [] \<or> \<not> role_is ''user'' (last (sn_messages (tc_session d))))) \<and>
    (state_save iso_text env c = Inr (ev, d) \<longrightarrow> state_restore iso_text io' now' d = Inr (OK, d))"
proof (intro conjI impI)
  let ?s = "tc_session c" and ?s1 = "snd (restore_checkpoint iso_text now (tc_session c))"
  assume r: "state_restore iso_text io now c = Inr (ev, d)"
  note d = conjunct2 [OF state_restore_session [OF r]]
  show "prefix (sn_messages ?s) (sn_messages (tc_session d))"
    unfolding d using restore_keeps_messages prefix_order.order_trans by blast
  show "state_restore iso_text io' now' d = Inr (OK, d)"
    by (rule settled_restore) (simp add: d restore_pending_settled restore_checkpoint_gone)
  assume p: "truthy_field ''pending_user_turn'' (sn_metadata ?s) \<and>
      dict_get (sn_metadata ?s) ''runtime_checkpoint'' = None"
  then have "?s1 = ?s" by (simp add: restore_checkpoint_def)
  moreover from p have "fst (restore_pending_user_turn iso_text now ?s)" by (simp add: restore_pending_user_turn_def)
  ultimately show "sn_messages (tc_session d) = [] \<or> \<not> role_is ''user'' (last (sn_messages (tc_session d)))"
    using no_open_user_turn [of iso_text now ?s "tc_session d"] d by (simp add: prod_eq_iff)
next
  assume r: "state_save iso_text env c = Inr (ev, d)"
  then obtain s1 where "tc_session d = se_govern env (clear_checkpoint (clear_pending_user_turn s1))"
    by (auto simp: state_save_def Let_def split: sum.splits dest: save_context_session)
  then have "turn_settled (tc_session d)"
    using assms by (simp add: turn_settled_def truthy_field_def clear_checkpoint_def clear_pending_user_turn_def dict_get_del)
  then show "state_restore iso_text io' now' d = Inr (OK, d)" by (rule settled_restore)
qed

definition waiting_context :: TurnContext where
  "waiting_context = \<lparr>tc_session = mark_pending_user_turn (sample_session [say ''user'' ''hello'']),
     tc_store = empty_manager, tc_history = [], tc_messages = [], tc_early = True, tc_content = None,
     tc_error = None, tc_appendix = []\<rparr>"

definition sample_save_env :: save_env where
  "sample_save_env = \<lparr>se_from_iso = parse_int, se_limit = 100, se_archive = (\<lambda>_. True), se_now = 8,
     se_stamp = ''now'', se_uid = ''u'', se_with_media = (\<lambda>ms. ms), se_govern = (\<lambda>s. s),
     se_io = \<lparr>io_write = None, io_replace = []\<rparr>\<rparr>"

theorem turn_restored_once_witness:
  "\<exists>d. state_restore show_int \<lparr>io_write = None, io_replace = []\<rparr> 5 waiting_context = Inr (OK, d) \<and>
     length (sn_messages (tc_session d)) = 2 \<and>
     state_restore show_int \<lparr>io_write = None, io_replace = []\<rparr> 6 d = Inr (OK, d)"
proof -
  let ?io = "\<lparr>io_write = None, io_replace = []\<rparr>"
  obtain d where d: "state_restore show_int ?io 5 waiting_context = Inr (OK, d)"
    by (cases "state_restore show_int ?io 5 waiting_context")
      (auto simp: state_restore_def waiting_context_def restore_checkpoint_def mark_pending_user_turn_def
        sample_session_def new_session_def save_context_def save_session_def atomic_replace_def
        REPLACE_MAX_RETRIES_def numeral_3_eq_3 restore_pending_user_turn_def truthy_field_def say_def role_is_def Let_def)
  have "state_restore show_int ?io 6 d = Inr (OK, d)"
    using turn_restored_once [of sample_save_env show_int ?io 5 waiting_context OK d] d
    by (simp add: sample_save_env_def)
  moreover have "sn_messages (tc_session d) = sn_messages (snd (restore_pending_user_turn show_int 5
      (snd (restore_checkpoint show_int 5 (tc_session waiting_context)))))"
    using conjunct2 [OF state_restore_session [OF d]] by simp
  then have "length (sn_messages (tc_session d)) = 2"
    by (simp add: waiting_context_def restore_checkpoint_def mark_pending_user_turn_def sample_session_def
        new_session_def restore_pending_user_turn_def truthy_field_def say_def role_is_def clear_pending_user_turn_def)
  ultimately show ?thesis using d by blast
qed

text \<open>
  The transitions of the table for an error of the restore, the compaction, the build, the save and the
  automation are never taken: those handlers raise instead of answering \<^verbatim>\<open>ERROR\<close>, and the turn is lost.
\<close>

lemma only_run_reports_errors: "pipeline_handler env st ctx = Inr (ERROR, c) \<Longrightarrow> st = RUN"
  by (cases st) (auto simp: state_restore_def state_save_def state_respond_def state_handle_error_def
      state_handle_timeout_def Let_def map_sum_def split: sum.splits prod.splits if_splits)

section \<open>Automation runs what was selected\<close>

lemma selected_is_executable:
  assumes "select_automation_proposal ps preferred = Some p"
  shows "p \<in> set ps \<and> \<not> pr_preview p"
proof -
  have mem: "List.find P (filter (\<lambda>p. \<not> pr_preview p) ps) = Some q \<Longrightarrow> q \<in> set ps \<and> \<not> pr_preview q" for P q
    by (auto dest: find_SomeD)
  have hd: "filter (\<lambda>p. \<not> pr_preview p) ps = q # qs \<Longrightarrow> q \<in> set ps \<and> \<not> pr_preview q" for q qs
    by (metis (mono_tags, lifting) list.set_intros(1) mem_Collect_eq set_filter)
  from assms show ?thesis
    unfolding select_automation_proposal_def Let_def
    by (auto split: if_splits option.splits list.splits dest: mem hd)
qed

end
