(* ===== verification/TaskState.thy ===== *)
theory TaskState
  imports Prelude
begin

text \<open>
  The task state machine that the agent keeps with the tool \<^verbatim>\<open>task_state\<close>:
  \<^verbatim>\<open>OriginAgent/agent/tools/task_state.py\<close>. The entry \<^verbatim>\<open>_task_state\<close> in the metadata of each session is a
  record; a reply is the state that the tool prints, or the kind of its error text.
\<close>

section \<open>State\<close>

definition valid_transitions :: "(string, string list) dict" where
  "valid_transitions =
     [(''EXPLORE'', [''BLOCKED'', ''WAITING'', ''SATISFIED'', ''ABANDONED'']),
      (''BLOCKED'', [''RECOVERED'', ''ABANDONED'']), (''WAITING'', [''EXPLORE'', ''ABANDONED'']),
      (''RECOVERED'', [''EXPLORE'', ''SATISFIED'']), (''SATISFIED'', [''EXPLORE'']), (''ABANDONED'', [''EXPLORE''])]"

definition all_states :: "string list" where
  "all_states = map fst valid_transitions"

definition allowed_states :: "string \<Rightarrow> string list" where
  "allowed_states st = (case dict_get valid_transitions st of Some xs \<Rightarrow> xs | None \<Rightarrow> [])"

definition MAX_HISTORY :: nat where
  "MAX_HISTORY = 20"

record TaskEntry =
  te_state :: string
  te_ts :: string
  te_reason :: string
  te_action :: "string option"
  te_evaluation :: "string option"

record TaskState =
  ts_current :: string
  ts_previous :: "string option"
  ts_reason :: string
  ts_history :: "TaskEntry list"

definition initial_task_state :: TaskState where
  "initial_task_state = \<lparr>ts_current = ''EXPLORE'', ts_previous = None, ts_reason = [], ts_history = []\<rparr>"

type_synonym task_store = "(string, TaskState) dict"

datatype task_reply = Current TaskState | ResetDone | NoSession | UnknownAction string
  | UnknownState string | InvalidTransition string string

section \<open>The tool\<close>

definition get_task_state :: "string \<Rightarrow> task_store \<Rightarrow> TaskState \<times> task_store" where
  "get_task_state key st = (case dict_get st key of
       Some ts \<Rightarrow> (ts, st) | None \<Rightarrow> (initial_task_state, dict_set key initial_task_state st))"

definition non_empty :: "string \<Rightarrow> string option" where
  "non_empty s = (if s = [] then None else Some s)"

definition apply_transition :: "string \<Rightarrow> string \<Rightarrow> string \<Rightarrow> string \<Rightarrow> string \<Rightarrow> TaskState \<Rightarrow> TaskState" where
  "apply_transition now new_state why action_id evaluation_id ts =
     (let entry = \<lparr>te_state = new_state, te_ts = now, te_reason = why,
            te_action = non_empty action_id, te_evaluation = non_empty evaluation_id\<rparr>;
          h = ts_history ts @ [entry]
      in \<lparr>ts_current = new_state, ts_previous = Some (ts_current ts), ts_reason = why,
          ts_history = (if length h > MAX_HISTORY then last_n MAX_HISTORY h else h)\<rparr>)"

definition handle_transition ::
    "string \<Rightarrow> string \<Rightarrow> string \<Rightarrow> string \<Rightarrow> string \<Rightarrow> string \<Rightarrow> task_store \<Rightarrow> task_reply \<times> task_store" where
  "handle_transition now key new_state why action_id evaluation_id st =
     (let (ts, st1) = get_task_state key st; cur = ts_current ts in
      if new_state \<notin> set all_states then (UnknownState new_state, st1)
      else if new_state = cur then (Current ts, st1)
      else if new_state \<notin> set (allowed_states cur) then (InvalidTransition cur new_state, st1)
      else let ts1 = apply_transition now new_state why action_id evaluation_id ts
           in (Current ts1, dict_set key ts1 st1))"

definition handle_reset :: "string \<Rightarrow> task_store \<Rightarrow> task_reply \<times> task_store" where
  "handle_reset key st = (ResetDone, dict_set key initial_task_state st)"

definition execute_task_state ::
    "string \<Rightarrow> string option \<Rightarrow> string \<Rightarrow> string \<Rightarrow> string \<Rightarrow> string \<Rightarrow> string \<Rightarrow> task_store
     \<Rightarrow> task_reply \<times> task_store" where
  "execute_task_state now session_key action new_state why action_id evaluation_id st =
     (if \<not> truthy session_key then (NoSession, st)
      else let key = the session_key in
        if action = ''get'' then (let (ts, st1) = get_task_state key st in (Current ts, st1))
        else if action = ''transition'' then handle_transition now key new_state why action_id evaluation_id st
        else if action = ''reset'' then handle_reset key st
        else (UnknownAction action, st))"

section \<open>Its history is a path of the table\<close>

fun path_allowed :: "string list \<Rightarrow> bool" where
  "path_allowed (a # b # xs) = (b \<in> set (allowed_states a) \<and> path_allowed (b # xs))"
| "path_allowed _ = True"

definition task_ok :: "TaskState \<Rightarrow> bool" where
  "task_ok ts = (ts_current ts \<in> set all_states \<and> length (ts_history ts) \<le> MAX_HISTORY \<and>
     path_allowed (map te_state (ts_history ts)) \<and>
     (case ts_previous ts of None \<Rightarrow> ts_current ts = ''EXPLORE'' \<and> ts_history ts = []
      | Some p \<Rightarrow> ts_current ts \<in> set (allowed_states p) \<and> ts_history ts \<noteq> [] \<and>
          te_state (last (ts_history ts)) = ts_current ts \<and> te_reason (last (ts_history ts)) = ts_reason ts))"

definition store_ok :: "task_store \<Rightarrow> bool" where
  "store_ok st = (\<forall>key ts. dict_get st key = Some ts \<longrightarrow> task_ok ts)"

lemma path_allowed_snoc:
  "path_allowed (xs @ [b]) \<longleftrightarrow> path_allowed xs \<and> (xs \<noteq> [] \<longrightarrow> b \<in> set (allowed_states (last xs)))"
  by (induction xs rule: path_allowed.induct) auto

lemma path_allowed_drop: "path_allowed xs \<Longrightarrow> path_allowed (drop n xs)"
proof (induction n arbitrary: xs)
  case 0
  then show ?case by simp
next
  case (Suc n)
  then show ?case by (cases xs rule: path_allowed.cases) (auto intro: Suc.IH)
qed

lemma initial_ok [simp]: "task_ok initial_task_state"
  by (simp add: task_ok_def initial_task_state_def all_states_def valid_transitions_def)

lemma store_ok_set: "store_ok st \<Longrightarrow> task_ok ts \<Longrightarrow> store_ok (dict_set key ts st)"
  by (simp add: store_ok_def dict_get_set)

lemma get_task_state_ok: "store_ok st \<Longrightarrow> get_task_state key st = (ts, st1) \<Longrightarrow> task_ok ts \<and> store_ok st1"
  by (auto simp: get_task_state_def store_ok_def dict_get_set split: option.splits if_splits)

lemma apply_transition_ok:
  assumes ok: "task_ok ts" and new: "n \<in> set all_states" "n \<in> set (allowed_states (ts_current ts))"
  shows "task_ok (apply_transition now n why a e ts)"
proof -
  let ?entry = "\<lparr>te_state = n, te_ts = now, te_reason = why, te_action = non_empty a, te_evaluation = non_empty e\<rparr>"
  let ?h = "ts_history ts @ [?entry]"
  let ?h' = "if length ?h > MAX_HISTORY then last_n MAX_HISTORY ?h else ?h"
  have pos: "0 < MAX_HISTORY" by (simp add: MAX_HISTORY_def)
  have "ts_history ts \<noteq> [] \<longrightarrow> te_state (last (ts_history ts)) = ts_current ts"
    using ok by (auto simp: task_ok_def split: option.splits)
  with ok new(2) have p: "path_allowed (map te_state ?h)"
    by (simp add: task_ok_def path_allowed_snoc last_map)
  have "map te_state (last_n MAX_HISTORY ?h) = drop (length ?h - MAX_HISTORY) (map te_state ?h)"
    using pos by (simp only: last_n_def drop_map) simp
  then have "path_allowed (map te_state ?h')"
    using p path_allowed_drop [OF p] by presburger
  moreover have "?h' \<noteq> [] \<and> last ?h' = ?entry"
    using last_n_snoc [OF pos, of "ts_history ts" ?entry] by simp
  moreover have "length ?h' \<le> MAX_HISTORY"
    using length_last_n [OF pos, of ?h] by auto
  ultimately show ?thesis
    using new by (simp add: apply_transition_def task_ok_def Let_def)
qed

inductive task_step :: "task_store \<Rightarrow> task_store \<Rightarrow> bool" where
  call: "task_step st (snd (execute_task_state now key action new_state why action_id evaluation_id st))"

lemma handle_transition_ok: "store_ok st \<Longrightarrow> store_ok (snd (handle_transition now key n why a e st))"
  by (auto simp: handle_transition_def Let_def split: prod.splits
      intro: store_ok_set apply_transition_ok dest: get_task_state_ok)

lemma task_step_ok: "task_step st st' \<Longrightarrow> store_ok st \<Longrightarrow> store_ok st'"
  by (induction rule: task_step.induct)
    (auto simp: execute_task_state_def Let_def handle_reset_def store_ok_set handle_transition_ok
      split: prod.splits dest: get_task_state_ok)

interpretation tasks: safe_system "\<lambda>st. st = []" task_step store_ok
  by unfold_locales (simp add: store_ok_def, rule task_step_ok)

lemma satisfied_from: "''SATISFIED'' \<in> set (allowed_states p) \<Longrightarrow> p \<in> {''EXPLORE'', ''RECOVERED''}"
  by (auto simp: allowed_states_def valid_transitions_def split: if_splits option.splits)

text \<open>
  C26. The task state. However the tool is called, for any sessions and with any arguments, the state
  of each session is one of the six; its history holds at most twenty entries, follows the table of
  transitions, and ends with the current state and its reason; and a satisfied task was reached from
  exploring or from a recovery, never directly from being blocked or waiting.
\<close>

theorem task_history_follows_table:
  assumes "task_step\<^sup>*\<^sup>* [] st" and "dict_get st key = Some ts"
  shows "ts_current ts \<in> set all_states \<and> length (ts_history ts) \<le> 20 \<and>
    path_allowed (map te_state (ts_history ts)) \<and>
    (ts_history ts \<noteq> [] \<longrightarrow> te_state (last (ts_history ts)) = ts_current ts \<and>
       te_reason (last (ts_history ts)) = ts_reason ts) \<and>
    (ts_current ts = ''SATISFIED'' \<longrightarrow> ts_previous ts \<in> {Some ''EXPLORE'', Some ''RECOVERED''})"
proof -
  have "store_ok st" by (rule tasks.reachable_inv [OF refl assms(1)])
  with assms(2) have ok: "task_ok ts" by (simp add: store_ok_def)
  then show ?thesis
    using satisfied_from by (fastforce simp: task_ok_def MAX_HISTORY_def split: option.splits)
qed

theorem task_history_follows_table_witness:
  "let call = (\<lambda>n. \<lambda>st. snd (execute_task_state ''t'' (Some ''k'') ''transition'' n ''why'' [] [] st));
       st = call ''SATISFIED'' (call ''RECOVERED'' (call ''BLOCKED'' []))
   in \<exists>ts. dict_get st ''k'' = Some ts \<and> ts_current ts = ''SATISFIED'' \<and> ts_previous ts = Some ''RECOVERED'' \<and>
      length (ts_history ts) \<le> 20"
proof -
  let ?call = "\<lambda>n. \<lambda>st. snd (execute_task_state ''t'' (Some ''k'') ''transition'' n ''why'' [] [] st)"
  let ?st = "?call ''SATISFIED'' (?call ''RECOVERED'' (?call ''BLOCKED'' []))"
  have "task_step [] (?call ''BLOCKED'' [])" by (rule task_step.call)
  moreover have "task_step (?call ''BLOCKED'' []) (?call ''RECOVERED'' (?call ''BLOCKED'' []))" by (rule task_step.call)
  moreover have "task_step (?call ''RECOVERED'' (?call ''BLOCKED'' [])) ?st" by (rule task_step.call)
  ultimately have r: "task_step\<^sup>*\<^sup>* [] ?st" by (rule three_steps)
  have g: "dict_get ?st ''k'' \<noteq> None \<and> ts_current (the (dict_get ?st ''k'')) = ''SATISFIED'' \<and>
      ts_previous (the (dict_get ?st ''k'')) = Some ''RECOVERED''" by code_simp
  then obtain ts where ts: "dict_get ?st ''k'' = Some ts" by (cases "dict_get ?st ''k''") blast+
  from task_history_follows_table [OF r ts] g ts show ?thesis by (simp only: Let_def) auto
qed

text \<open>A refused transition, an unknown action and a reading change no session's recorded state.\<close>

lemma refusal_changes_nothing:
  assumes "execute_task_state now (Some key) action n why a e st = (reply, st')"
    and "reply \<notin> {ResetDone} \<union> range Current"
  shows "dict_get st' k = dict_get st k \<or> (k = key \<and> dict_get st k = None \<and> dict_get st' k = Some initial_task_state)"
  using assms by (auto simp: execute_task_state_def handle_transition_def handle_reset_def get_task_state_def
      Let_def dict_get_set split: if_splits option.splits prod.splits)

end
