(* ===== verification/Facts.thy ===== *)
theory Facts
  imports Payload Complex_Main
begin

text \<open>
  The records of the long-term memory and the checks on proposals of the language model
  (\<^verbatim>\<open>OriginAgent/agent/facts.py\<close>). Texts are in UTF-8, a \<open>char\<close> being a byte, in which a keyword occurs
  exactly where its characters occur; lower case and white space are those of ASCII. A confidence is a rational number. Two readers of JSON numbers,
  \<^verbatim>\<open>float(value)\<close> and \<^verbatim>\<open>int(value)\<close>, are parameters.
\<close>

section \<open>Vocabulary\<close>

definition CATEGORY_ORDER :: "string list" where
  "CATEGORY_ORDER = [''preference'', ''routine'', ''policy'', ''safety'', ''temporary'', ''note'', ''household'', ''device'']"

definition VALID_OWNERS :: "string list" where
  "VALID_OWNERS = [''user'', ''assistant'', ''system'', ''unknown'', ''household'']"

definition VALID_STATUSES :: "string list" where
  "VALID_STATUSES = [''active'', ''deprecated'', ''contradicted'', ''pending_confirmation'']"

definition VALID_RELATION_TYPES :: "string list" where
  "VALID_RELATION_TYPES =
     [''equivalent'', ''supersedes'', ''contradicts'', ''generalizes'', ''narrows'', ''implies'', ''related_to'']"

definition HIGH_RISK_CATEGORIES :: "string list" where
  "HIGH_RISK_CATEGORIES = [''policy'', ''safety'']"

definition CONFLICT_CATEGORIES :: "string list" where
  "CONFLICT_CATEGORIES = [''preference'', ''routine'', ''policy'', ''safety'', ''temporary'']"

definition HIGH_RISK_KEYWORDS :: "string list" where
  "HIGH_RISK_KEYWORDS = [''security'', ''camera'', ''gas'', ''medication'', ''payment'', ''password'', ''key'',
     ''permission'', ''token'']"

text \<open>The keywords in other scripts are written by the bytes of their UTF-8 form.\<close>

definition TEMPORARY_LANGUAGE :: "string list" where
  "TEMPORARY_LANGUAGE = [''today'', ''tomorrow'', ''this week'', ''temporary'', ''for now'', ''just this time'',
     [CHR 0xE4, CHR 0xBB, CHR 0x8A, CHR 0xE5, CHR 0xA4, CHR 0xA9],
     [CHR 0xE6, CHR 0x98, CHR 0x8E, CHR 0xE5, CHR 0xA4, CHR 0xA9],
     [CHR 0xE8, CHR 0xBF, CHR 0x99, CHR 0xE5, CHR 0x91, CHR 0xA8],
     [CHR 0xE6, CHR 0x9C, CHR 0xAC, CHR 0xE5, CHR 0x91, CHR 0xA8],
     [CHR 0xE4, CHR 0xB8, CHR 0xB4, CHR 0xE6, CHR 0x97, CHR 0xB6],
     [CHR 0xE6, CHR 0x9A, CHR 0x82, CHR 0xE6, CHR 0x97, CHR 0xB6],
     [CHR 0xE5, CHR 0x85, CHR 0x88],
     [CHR 0xE8, CHR 0xBF, CHR 0x99, CHR 0xE6, CHR 0xAC, CHR 0xA1]]"

definition UNCERTAIN_LANGUAGE :: "string list" where
  "UNCERTAIN_LANGUAGE = [''maybe'', ''usually'', ''sometimes'', ''probably'', ''around'', ''roughly'',
     [CHR 0xE5, CHR 0x8F, CHR 0xAF, CHR 0xE8, CHR 0x83, CHR 0xBD],
     [CHR 0xE4, CHR 0xB8, CHR 0x80, CHR 0xE8, CHR 0x88, CHR 0xAC],
     [CHR 0xE6, CHR 0x9C, CHR 0x89, CHR 0xE6, CHR 0x97, CHR 0xB6],
     [CHR 0xE5, CHR 0xA4, CHR 0xA7, CHR 0xE6, CHR 0xA6, CHR 0x82],
     [CHR 0xE5, CHR 0xB7, CHR 0xAE, CHR 0xE4, CHR 0xB8, CHR 0x8D, CHR 0xE5, CHR 0xA4, CHR 0x9A],
     [CHR 0xE5, CHR 0xB7, CHR 0xA6, CHR 0xE5, CHR 0x8F, CHR 0xB3],
     [CHR 0xE5, CHR 0x81, CHR 0xB6, CHR 0xE5, CHR 0xB0, CHR 0x94]]"

definition HIGH_RISK_DEVICE_DOMAINS :: "string list" where
  "HIGH_RISK_DEVICE_DOMAINS = [''lock'', ''security'', ''camera'', ''gas'', ''presence'']"

definition MAX_DEPRECATIONS_PER_BATCH :: nat where
  "MAX_DEPRECATIONS_PER_BATCH = 3"

section \<open>Normal forms\<close>

text \<open>\<^verbatim>\<open>re.sub(r"\s+", r, text)\<close>\<close>

function sub_spaces :: "string \<Rightarrow> string \<Rightarrow> string" where
  "sub_spaces r [] = []"
| "sub_spaces r (c # cs) =
     (if py_space c then r @ sub_spaces r (dropWhile py_space cs) else c # sub_spaces r cs)"
  by pat_completeness auto
termination
  by (relation "measure (length \<circ> snd)") (auto simp: less_Suc_eq_le length_dropWhile_le)

definition normalize_fact_content :: "string \<Rightarrow> string" where
  "normalize_fact_content content = sub_spaces '' '' (py_lower (py_strip content))"

text \<open>Each returns \<open>None\<close> for a \<^verbatim>\<open>ValueError\<close>.\<close>

definition normalize_category :: "string \<Rightarrow> string option" where
  "normalize_category c = (let n = py_lower (py_strip (str_or c ''note''))
     in if n \<in> set CATEGORY_ORDER then Some n else None)"

definition normalize_owner :: "string \<Rightarrow> string option" where
  "normalize_owner c = (let n = py_lower (py_strip (str_or c ''unknown''))
     in if n \<in> set VALID_OWNERS then Some n else None)"

definition normalize_scope :: "string \<Rightarrow> string" where
  "normalize_scope s = sub_spaces ''.'' (str_or (py_lower (py_strip (str_or s ''general''))) ''general'')"

definition normalize_fact_status :: "string \<Rightarrow> string option" where
  "normalize_fact_status s = (let n = py_lower (py_strip (str_or s ''active''))
     in if n \<in> set VALID_STATUSES then Some n else None)"

definition normalize_relation_type :: "json option \<Rightarrow> string option" where
  "normalize_relation_type v =
     (let n = py_lower (py_strip (case v of Some j \<Rightarrow> if json_truthy j then py_str j else [] | None \<Rightarrow> []))
      in if n \<in> set VALID_RELATION_TYPES then Some n else None)"

definition normalize_confidence :: "rat \<Rightarrow> rat" where
  "normalize_confidence c = max 0 (min 1 c)"

definition normalize_source_cursors :: "int list \<Rightarrow> int list" where
  "normalize_source_cursors cs = sorted_list_of_set {c \<in> set cs. c > 0}"

definition merge_source_cursors :: "int list \<Rightarrow> int list \<Rightarrow> int list" where
  "merge_source_cursors cs ds = sorted_list_of_set (set cs \<union> set ds)"

definition scope_family_match :: "string \<Rightarrow> string \<Rightarrow> bool" where
  "scope_family_match s t =
     (let l = normalize_scope s; r = normalize_scope t; starts = (\<lambda>p x. take (length p) x = p)
      in l = r \<or> starts (r @ ''.'') l \<or> starts (l @ ''.'') r)"

text \<open>
  The keys of a fact. Their hash function is a parameter; an owner that is not valid was refused before.
  \<^verbatim>\<open>canonical_key_for_fact\<close> strips and lowers the
  owner, category and scope that it is given, but does not bring the scope into its normal form.
\<close>

definition canonical_text :: "string \<Rightarrow> string \<Rightarrow> string \<Rightarrow> string \<Rightarrow> string" where
  "canonical_text content owner category scope = join_with [CHR 0x00]
     [normalize_fact_content content, py_lower (py_strip owner), py_lower (py_strip category), py_lower (py_strip scope)]"

definition canonical_key_for_fact :: "(string \<Rightarrow> string) \<Rightarrow> string \<Rightarrow> string \<Rightarrow> string \<Rightarrow> string \<Rightarrow> string" where
  "canonical_key_for_fact hash content owner category scope = hash (canonical_text content owner category scope)"

definition semantic_text_hash_for_fact :: "(string \<Rightarrow> string) \<Rightarrow> string \<Rightarrow> string \<Rightarrow> string \<Rightarrow> string" where
  "semantic_text_hash_for_fact hash content owner scope =
     hash (join_with [CHR 0x00]
       [normalize_fact_content content, py_lower (py_strip (str_or owner ''unknown'')), normalize_scope scope])"

definition contains_any_of :: "string \<Rightarrow> string list \<Rightarrow> bool" where
  "contains_any_of text needles = list_ex (\<lambda>n. py_in (py_lower n) (py_lower text)) needles"

text \<open>The part of a scope before the first dot that is not empty.\<close>

fun split_dots :: "string \<Rightarrow> string \<Rightarrow> string list" where
  "split_dots acc [] = [rev acc]"
| "split_dots acc (c # cs) = (if c = CHR ''.'' then rev acc # split_dots [] cs else split_dots (c # acc) cs)"

text \<open>
  The domain of a fact. The code runs through a set of names, in no particular order: the order is a
  parameter.
\<close>

definition infer_domain_key :: "string list \<Rightarrow> string \<Rightarrow> string \<Rightarrow> string" where
  "infer_domain_key domains scope content =
     (case List.find (\<lambda>d. py_in d (py_lower (scope @ '' '' @ content))) domains of
        Some d \<Rightarrow> d
      | None \<Rightarrow> (case filter (\<lambda>p. p \<noteq> []) (split_dots [] (py_lower (py_strip scope))) of
            [] \<Rightarrow> ''general'' | p # _ \<Rightarrow> p))"

definition requires_high_risk_confirmation :: "string list \<Rightarrow> string \<Rightarrow> string \<Rightarrow> bool" where
  "requires_high_risk_confirmation domains scope content =
     (infer_domain_key domains scope content \<in> set HIGH_RISK_DEVICE_DOMAINS)"

section \<open>Records and proposals\<close>

record FactRecord =
  fr_id :: string
  fr_content :: string
  fr_key :: string
  fr_category :: string
  fr_scope :: string
  fr_owner :: string
  fr_cursors :: "int list"
  fr_excerpt :: string
  fr_confidence :: rat
  fr_status :: string
  fr_created :: string
  fr_updated :: string
  fr_seen :: string
  fr_expires :: "string option"
  fr_supersedes :: "string option"
  fr_confirm :: bool
  fr_base :: rat
  fr_consistency :: string
  fr_support :: int
  fr_contradictions :: int
  fr_retrievals :: int
  fr_injections :: int
  fr_supported :: "string option"
  fr_contested :: "string option"
  fr_retrieved :: "string option"
  fr_hash :: string

record FactProposal =
  fp_content :: string
  fp_category :: string
  fp_scope :: string
  fp_owner :: string
  fp_cursors :: "int list"
  fp_excerpt :: string
  fp_confidence :: rat
  fp_expires :: "string option"
  fp_supersedes :: "string option"
  fp_confirm :: "bool option"
  fp_status :: "string option"
  fp_reason :: string
  fp_change :: "string option"
  fp_target :: "string option"
  fp_relations :: "json_obj list"
  fp_hint :: "string option"

record FactDeprecationProposal =
  dp_id :: string
  dp_reason :: string
  dp_cursors :: "int list"

text \<open>The code and the severity of an issue; its message is left out.\<close>

type_synonym issue = "string \<times> string"

record ValidationResult =
  vr_decision :: string
  vr_confidence :: rat
  vr_issues :: "issue list"

section \<open>Reading the answer of the model\<close>

definition required_str :: "json_obj \<Rightarrow> string \<Rightarrow> string + string" where
  "required_str raw k = (case dict_get raw k of
       Some (JStr s) \<Rightarrow> if py_strip s = [] then Inl (k @ '' must be a non-empty string'') else Inr (py_strip s)
     | _ \<Rightarrow> Inl (k @ '' must be a non-empty string''))"

definition optional_text :: "json_obj \<Rightarrow> string \<Rightarrow> string \<Rightarrow> string + string" where
  "optional_text raw k dflt = (case dict_get raw k of
       None \<Rightarrow> Inr (py_strip dflt) | Some JNull \<Rightarrow> Inr dflt | Some (JStr s) \<Rightarrow> Inr (py_strip s)
     | _ \<Rightarrow> Inl (k @ '' must be a string''))"

definition optional_nullable_str :: "json_obj \<Rightarrow> string \<Rightarrow> string + string option" where
  "optional_nullable_str raw k = (case dict_get raw k of
       None \<Rightarrow> Inr None | Some JNull \<Rightarrow> Inr None
     | Some (JStr s) \<Rightarrow> Inr (if py_strip s = [] then None else Some (py_strip s))
     | _ \<Rightarrow> Inl (k @ '' must be a string or null''))"

definition optional_float :: "(json \<Rightarrow> rat option) \<Rightarrow> json_obj \<Rightarrow> string \<Rightarrow> rat \<Rightarrow> string + rat" where
  "optional_float num raw k dflt = (case dict_get raw k of
       None \<Rightarrow> Inr dflt
     | Some (JBool b) \<Rightarrow> Inl (k @ '' must be numeric'')
     | Some j \<Rightarrow> (case num j of Some r \<Rightarrow> Inr r | None \<Rightarrow> Inl (k @ '' must be numeric'')))"

fun cursor_items :: "string \<Rightarrow> json list \<Rightarrow> string + int list" where
  "cursor_items k [] = Inr []"
| "cursor_items k (j # js) = (case j of
      JInt i \<Rightarrow> map_sum id (\<lambda>cs. if i > 0 then i # cs else cs) (cursor_items k js)
    | _ \<Rightarrow> Inl (k @ '' must contain integer cursors''))"

definition parse_cursor_list :: "json option \<Rightarrow> string \<Rightarrow> string + int list" where
  "parse_cursor_list v k = (case v of
       None \<Rightarrow> Inr []
     | Some (JList js) \<Rightarrow> map_sum id (\<lambda>cs. sorted_list_of_set (set cs)) (cursor_items k js)
     | _ \<Rightarrow> Inl (k @ '' must be a list''))"

definition optional_bool :: "json_obj \<Rightarrow> string \<Rightarrow> string + bool option" where
  "optional_bool raw k = (case dict_get raw k of
       None \<Rightarrow> Inr None | Some JNull \<Rightarrow> Inr None | Some (JBool b) \<Rightarrow> Inr (Some b)
     | _ \<Rightarrow> Inl (k @ '' must be bool or null''))"

fun object_items :: "json list \<Rightarrow> string + json_obj list" where
  "object_items [] = Inr []"
| "object_items (j # js) = (case j of
      JObj d \<Rightarrow> map_sum id (Cons d) (object_items js)
    | _ \<Rightarrow> Inl ''relation_candidates entries must be objects'')"

definition parse_relation_candidates :: "json option \<Rightarrow> string + json_obj list" where
  "parse_relation_candidates v = (case v of
       None \<Rightarrow> Inr [] | Some (JList js) \<Rightarrow> object_items js | _ \<Rightarrow> Inl ''relation_candidates must be a list'')"

definition bind_sum :: "'e + 'a \<Rightarrow> ('a \<Rightarrow> 'e + 'b) \<Rightarrow> 'e + 'b" where
  "bind_sum x f = (case x of Inl e \<Rightarrow> Inl e | Inr a \<Rightarrow> f a)"

definition parse_fact_proposal :: "(json \<Rightarrow> rat option) \<Rightarrow> json \<Rightarrow> string + FactProposal" where
  "parse_fact_proposal num j = (case j of
     JObj raw \<Rightarrow>
       bind_sum (required_str raw ''content'') (\<lambda>content.
       bind_sum (required_str raw ''category'') (\<lambda>category.
       bind_sum (required_str raw ''scope'') (\<lambda>scope.
       bind_sum (required_str raw ''owner'') (\<lambda>owner.
       bind_sum (parse_cursor_list (dict_get raw ''source_cursors'') ''source_cursors'') (\<lambda>cursors.
       bind_sum (optional_text raw ''source_excerpt'' []) (\<lambda>excerpt.
       bind_sum (optional_float num raw ''confidence'' (7 / 10)) (\<lambda>confidence.
       bind_sum (optional_nullable_str raw ''expires_at'') (\<lambda>expires.
       bind_sum (optional_nullable_str raw ''supersedes_fact_id'') (\<lambda>supersedes.
       bind_sum (optional_nullable_str raw ''status'') (\<lambda>status.
       bind_sum (optional_bool raw ''requires_confirmation'') (\<lambda>confirm.
       bind_sum (optional_text raw ''reason'' []) (\<lambda>why.
       bind_sum (optional_nullable_str raw ''change_kind'') (\<lambda>change.
       bind_sum (optional_nullable_str raw ''target_fact_id'') (\<lambda>target.
       bind_sum (optional_nullable_str raw ''semantic_scope_hint'') (\<lambda>hint.
       bind_sum (parse_relation_candidates (dict_get raw ''relation_candidates'')) (\<lambda>relations.
       Inr \<lparr>fp_content = content, fp_category = category, fp_scope = scope, fp_owner = owner,
         fp_cursors = cursors, fp_excerpt = excerpt, fp_confidence = confidence, fp_expires = expires,
         fp_supersedes = supersedes, fp_confirm = confirm, fp_status = status, fp_reason = why,
         fp_change = change, fp_target = target, fp_relations = relations, fp_hint = hint\<rparr>))))))))))))))))
   | _ \<Rightarrow> Inl ''fact proposal must be an object'')"

definition parse_deprecation_proposal :: "json \<Rightarrow> string + FactDeprecationProposal" where
  "parse_deprecation_proposal j = (case j of
     JObj raw \<Rightarrow>
       bind_sum (required_str raw ''fact_id'') (\<lambda>fact_id.
       bind_sum (optional_text raw ''reason'' []) (\<lambda>why.
       bind_sum (parse_cursor_list (dict_get raw ''source_cursors'') ''source_cursors'') (\<lambda>cursors.
       Inr \<lparr>dp_id = fact_id, dp_reason = why, dp_cursors = cursors\<rparr>)))
   | _ \<Rightarrow> Inl ''deprecation proposal must be an object'')"

text \<open>A rejected entry: its section, its index and the error. The raw value is left out.\<close>

type_synonym parse_rejected = "string \<times> nat option \<times> string"

record DreamFactProposalBatch =
  db_upserts :: "FactProposal list"
  db_deprecations :: "FactDeprecationProposal list"
  db_rejected :: "parse_rejected list"

fun parse_entries :: "(json \<Rightarrow> string + 'a) \<Rightarrow> string \<Rightarrow> nat \<Rightarrow> json list \<Rightarrow> 'a list \<times> parse_rejected list" where
  "parse_entries parse sec i [] = ([], [])"
| "parse_entries parse sec i (j # js) =
     (let (xs, bad) = parse_entries parse sec (Suc i) js
      in case parse j of Inr x \<Rightarrow> (x # xs, bad) | Inl e \<Rightarrow> (xs, (sec, Some i, e) # bad))"

definition section_list :: "json_obj \<Rightarrow> string \<Rightarrow> json list \<times> parse_rejected list" where
  "section_list raw sec = (case dict_get raw sec of
       None \<Rightarrow> ([], []) | Some (JList js) \<Rightarrow> (js, []) | _ \<Rightarrow> ([], [(sec, None, sec @ '' must be a list'')]))"

text \<open>The answer after \<^verbatim>\<open>json.loads\<close>; \<open>None\<close> is text that is not JSON.\<close>

definition parse_fact_proposal_response :: "(json \<Rightarrow> rat option) \<Rightarrow> json option \<Rightarrow> string + DreamFactProposalBatch" where
  "parse_fact_proposal_response num parsed = (case parsed of
     None \<Rightarrow> Inl ''invalid fact proposal JSON''
   | Some (JObj raw) \<Rightarrow>
       let (ups, bad1) = section_list raw ''facts_to_upsert'';
           (deps, bad2) = section_list raw ''facts_to_deprecate'';
           (xs, bad3) = parse_entries (parse_fact_proposal num) ''facts_to_upsert'' 0 ups;
           (ys, bad4) = parse_entries parse_deprecation_proposal ''facts_to_deprecate'' 0 deps
       in Inr \<lparr>db_upserts = xs, db_deprecations = ys, db_rejected = bad1 @ bad2 @ bad3 @ bad4\<rparr>
   | Some _ \<Rightarrow> Inl ''fact proposal response must be a JSON object'')"

section \<open>Checking proposals\<close>

text \<open>The entries of the history: their integer cursors, and their text by cursor (the last one wins).\<close>

definition history_cursors :: "json_obj list \<Rightarrow> int list" where
  "history_cursors hs = concat (map (\<lambda>h. case dict_get h ''cursor'' of Some (JInt i) \<Rightarrow> [i] | _ \<Rightarrow> []) hs)"

definition history_text :: "json_obj list \<Rightarrow> int \<Rightarrow> string" where
  "history_text hs c = (case List.find (\<lambda>h. dict_get h ''cursor'' = Some (JInt c)) (rev hs) of
       Some h \<Rightarrow> (case dict_get h ''content'' of Some j \<Rightarrow> py_str j | None \<Rightarrow> []) | None \<Rightarrow> [])"

definition normalize_excerpt :: "string \<Rightarrow> string" where
  "normalize_excerpt t = sub_spaces '' '' (py_lower (py_strip t))"

definition source_excerpt_matches :: "FactProposal \<Rightarrow> json_obj list \<Rightarrow> bool" where
  "source_excerpt_matches p hs =
     (let e = normalize_excerpt (fp_excerpt p)
      in e \<noteq> [] \<and> list_ex (\<lambda>c. py_in e (normalize_excerpt (history_text hs c))) (fp_cursors p))"

definition outside_batch :: "json_obj list \<Rightarrow> int \<Rightarrow> int \<Rightarrow> int list \<Rightarrow> bool" where
  "outside_batch hs lo hi cs = list_ex (\<lambda>c. c < lo \<or> c > hi \<or> c \<notin> set (history_cursors hs)) cs"

definition combined_text :: "FactProposal \<Rightarrow> string" where
  "combined_text p = join_with '' '' [fp_content p, fp_excerpt p, fp_scope p, fp_reason p]"

definition is_replacement :: "string option \<Rightarrow> bool" where
  "is_replacement change = (py_lower (py_strip (opt_or change [])) \<in> {''replace'', ''contradict''})"

definition high_risk :: "string list \<Rightarrow> string \<Rightarrow> FactProposal \<Rightarrow> bool" where
  "high_risk domains category p = (category \<in> set HIGH_RISK_CATEGORIES \<or>
     contains_any_of (combined_text p) HIGH_RISK_KEYWORDS \<or>
     requires_high_risk_confirmation domains (normalize_scope (fp_scope p)) (fp_content p))"

definition conflicts :: "string \<Rightarrow> FactProposal \<Rightarrow> FactRecord list \<Rightarrow> bool" where
  "conflicts category p records = (category \<in> set CONFLICT_CATEGORIES \<and>
     list_ex (\<lambda>r. fr_status r = ''active'' \<and> fr_category r = category \<and> fr_scope r = normalize_scope (fp_scope p) \<and>
        normalize_fact_content (fr_content r) \<noteq> normalize_fact_content (fp_content p)) records)"

definition note_if :: "bool \<Rightarrow> string \<Rightarrow> string \<Rightarrow> issue list" where
  "note_if b c sev = (if b then [(c, sev)] else [])"

definition proposal_issues ::
    "string list \<Rightarrow> string \<Rightarrow> FactProposal \<Rightarrow> FactRecord list \<Rightarrow> json_obj list \<Rightarrow> int \<Rightarrow> int \<Rightarrow> issue list" where
  "proposal_issues domains category p records hs lo hi =
     (if fp_cursors p = [] then [(''missing_source_cursors'', ''reject'')]
      else note_if (outside_batch hs lo hi (fp_cursors p)) ''source_cursor_out_of_batch'' ''reject'') @
     (if py_strip (fp_excerpt p) = [] then [(''missing_source_excerpt'', ''reject'')]
      else note_if (\<not> source_excerpt_matches p hs) ''source_excerpt_not_found'' ''reject'') @
     note_if (high_risk domains category p) ''high_risk_memory'' ''pending'' @
     note_if (category = ''temporary'' \<and> \<not> truthy (fp_expires p)) ''temporary_missing_expires_at'' ''pending'' @
     note_if (category \<noteq> ''temporary'' \<and> contains_any_of (combined_text p) TEMPORARY_LANGUAGE)
       ''temporary_language_non_temporary'' ''pending'' @
     note_if (contains_any_of (combined_text p) UNCERTAIN_LANGUAGE) ''uncertain_language'' ''warn'' @
     note_if (conflicts category p records) ''possible_conflict'' (if is_replacement (fp_change p) then ''warn'' else ''pending'')"

definition decision_of :: "issue list \<Rightarrow> string" where
  "decision_of issues = (if list_ex (\<lambda>(c, sev). sev = ''reject'') issues then ''reject''
     else if list_ex (\<lambda>(c, sev). sev = ''pending'') issues then ''pending_confirmation'' else ''active'')"

definition proposal_category :: "FactProposal \<Rightarrow> string option" where
  "proposal_category p = (case normalize_category (fp_category p) of
       None \<Rightarrow> None
     | Some c \<Rightarrow> if normalize_owner (fp_owner p) = None then None
         else if (case fp_status p of Some st \<Rightarrow> normalize_fact_status st = None | None \<Rightarrow> False) then None else Some c)"

definition validate_fact_proposal ::
    "string list \<Rightarrow> FactProposal \<Rightarrow> FactRecord list \<Rightarrow> json_obj list \<Rightarrow> int \<Rightarrow> int \<Rightarrow> ValidationResult" where
  "validate_fact_proposal domains p records hs lo hi =
     (case proposal_category p of
        None \<Rightarrow> \<lparr>vr_decision = ''reject'', vr_confidence = normalize_confidence (fp_confidence p),
                 vr_issues = [(''invalid_field'', ''reject'')]\<rparr>
      | Some c \<Rightarrow>
          let issues = proposal_issues domains c p records hs lo hi; conf = normalize_confidence (fp_confidence p)
          in \<lparr>vr_decision = decision_of issues,
              vr_confidence = (if contains_any_of (combined_text p) UNCERTAIN_LANGUAGE then min conf (7 / 10) else conf),
              vr_issues = issues\<rparr>)"

definition validate_deprecation_proposal ::
    "FactDeprecationProposal \<Rightarrow> FactRecord list \<Rightarrow> json_obj list \<Rightarrow> int \<Rightarrow> int \<Rightarrow> ValidationResult" where
  "validate_deprecation_proposal p records hs lo hi =
     (let target = List.find (\<lambda>r. fr_id r = dp_id p) records;
          issues = note_if (target = None) ''unknown_fact_id'' ''reject'' @
            note_if (py_strip (dp_reason p) = []) ''missing_deprecation_reason'' ''reject'' @
            note_if (dp_cursors p = [] \<or> outside_batch hs lo hi (dp_cursors p))
              ''missing_current_source_for_deprecation'' ''reject'' @
            note_if (case target of Some r \<Rightarrow> fr_category r \<in> set HIGH_RISK_CATEGORIES \<and> fr_status r = ''active''
                     | None \<Rightarrow> False) ''active_high_risk_deprecation'' ''reject''
      in \<lparr>vr_decision = (if list_ex (\<lambda>(c, sev). sev = ''reject'') issues then ''reject'' else ''active''),
          vr_confidence = 1, vr_issues = issues\<rparr>)"

definition resolve_status_and_confirmation ::
    "string \<Rightarrow> string option \<Rightarrow> bool option \<Rightarrow> (string \<times> bool) option" where
  "resolve_status_and_confirmation category status confirm =
     (case (case status of None \<Rightarrow> Some None | Some st \<Rightarrow> map_option Some (normalize_fact_status st)) of
        None \<Rightarrow> None
      | Some requested \<Rightarrow>
          Some (if category \<in> set HIGH_RISK_CATEGORIES then
                  (if confirm = Some False \<and> requested = Some ''active'' then (''active'', False)
                   else if requested \<in> {Some ''deprecated'', Some ''contradicted''} then (the requested, True)
                   else (''pending_confirmation'', True))
                else (opt_or requested ''active'', confirm = Some True)))"

section \<open>What a decision means\<close>

lemma strip_idem [simp]: "py_strip (py_strip s) = py_strip s"
proof -
  let ?P = py_space
  define t where "t = dropWhile ?P s"
  define u where "u = rev (dropWhile ?P (rev t))"
  have t: "u @ rev (takeWhile ?P (rev t)) = t" unfolding u_def by (simp flip: rev_append)
  have "dropWhile ?P u = u"
  proof (cases u)
    case (Cons c cs)
    with t obtain ts where "t = c # ts" by (metis append_Cons)
    then have "t \<noteq> []" "hd t = c" by simp_all
    with hd_dropWhile [of ?P s] have "\<not> ?P c" unfolding t_def by simp
    with Cons show ?thesis by simp
  qed simp
  moreover have "dropWhile ?P (rev u) = rev u" unfolding u_def by (simp add: dropWhile_idem)
  ultimately show ?thesis by (simp add: py_strip_def flip: t_def u_def)
qed

lemma decision_note_if [simp]:
  "decision_of (note_if b c sev @ xs) =
     (if b then decision_of ((c, sev) # xs) else decision_of xs)"
  by (simp add: note_if_def)

text \<open>A proposal that is not rejected cites cursors of the batch, and its excerpt stands in one of them.\<close>

lemma decision_of_not_reject: "decision_of is \<noteq> ''reject'' \<longleftrightarrow> \<not> list_ex (\<lambda>(c, sev). sev = ''reject'') is"
  by (simp add: decision_of_def)

lemma decision_of_active:
  "decision_of is = ''active'' \<longleftrightarrow> \<not> list_ex (\<lambda>(c, sev). sev = ''reject'' \<or> sev = ''pending'') is"
  by (auto simp: decision_of_def list_ex_iff)

lemma note_if_ex [simp]: "list_ex P (note_if b c sev) = (b \<and> P (c, sev))"
  by (simp add: note_if_def)

lemma proposal_accepted:
  assumes "vr_decision (validate_fact_proposal domains p records hs lo hi) \<noteq> ''reject''"
  shows "fp_cursors p \<noteq> [] \<and> \<not> outside_batch hs lo hi (fp_cursors p) \<and> source_excerpt_matches p hs \<and>
    normalize_category (fp_category p) \<noteq> None \<and> normalize_owner (fp_owner p) \<noteq> None"
  using assms
  by (auto simp: validate_fact_proposal_def proposal_category_def decision_of_not_reject proposal_issues_def Let_def
      split: option.splits if_splits)

lemma proposal_activated:
  assumes "vr_decision (validate_fact_proposal domains p records hs lo hi) = ''active''"
  obtains c where "normalize_category (fp_category p) = Some c" and "\<not> high_risk domains c p"
    and "c = ''temporary'' \<longrightarrow> truthy (fp_expires p)"
  using assms
  by (auto simp: validate_fact_proposal_def proposal_category_def decision_of_active proposal_issues_def Let_def
      split: option.splits if_splits)

lemma confidence_range: "0 \<le> normalize_confidence c" "normalize_confidence c \<le> 1"
  by (simp_all add: normalize_confidence_def)

lemma normalize_confidence_id: "0 \<le> c \<Longrightarrow> c \<le> 1 \<Longrightarrow> normalize_confidence c = c"
  by (simp add: normalize_confidence_def)

lemma validated_range:
  "0 \<le> vr_confidence (validate_fact_proposal domains p records hs lo hi)"
  "vr_confidence (validate_fact_proposal domains p records hs lo hi) \<le> 1"
  by (auto simp: validate_fact_proposal_def Let_def normalize_confidence_def split: option.splits)

end
