(* ===== verification/FactStore.thy ===== *)
theory FactStore
  imports Facts "HOL-Library.Option_ord"
begin

text \<open>
  The store of facts (\<^verbatim>\<open>FactStore\<close>, \<^verbatim>\<open>FactRelationStore\<close> and \<^verbatim>\<open>FactSemanticResolver\<close> of
  \<^verbatim>\<open>OriginAgent/agent/facts.py\<close>).

  The state is what the files hold, as their readers see them: the facts, the relations, the audit
  events and the hashes that wait for the semantic index. The code changes records in place; here a
  record is named by its position in the list. Times are texts, read by the parameter \<open>fe_when\<close> in
  microseconds. The random identifiers of relations and events, the redacted snapshots of an event and
  the back end on SQLite are left out.
\<close>

section \<open>State\<close>

record fact_flags =
  ff_merge :: bool
  ff_graph :: bool
  ff_confidence :: bool
  ff_flip :: bool
  ff_audit :: bool
  ff_retrieval :: bool

record fact_env =
  fe_flags :: fact_flags
  fe_hash :: "string \<Rightarrow> string"
  fe_when :: "string \<Rightarrow> int option"
  fe_redact :: "string \<Rightarrow> string"
  fe_fresh :: "string list \<Rightarrow> string"
  fe_num :: "json \<Rightarrow> rat option"
  fe_int :: "json \<Rightarrow> int option"
  fe_pow :: "rat \<Rightarrow> rat \<Rightarrow> rat"
  fe_domains :: "string list"

record FactRelation =
  rl_source :: string
  rl_target :: string
  rl_type :: string
  rl_confidence :: rat
  rl_origin :: string
  rl_created :: string
  rl_status :: string
  rl_evidence :: json_obj

text \<open>Where a change comes from: the batch, the actor and the origin.\<close>

record fact_source =
  so_batch :: string
  so_actor :: string
  so_origin :: string

definition runtime_source :: fact_source where
  "runtime_source = \<lparr>so_batch = ''runtime'', so_actor = ''system'', so_origin = ''fact_store''\<rparr>"

record FactEvent =
  fv_fact :: string
  fv_type :: string
  fv_source :: fact_source
  fv_before :: "FactRecord option"
  fv_after :: FactRecord
  fv_reason :: string

record fact_store =
  fs_records :: "FactRecord list"
  fs_relations :: "FactRelation list"
  fs_events :: "FactEvent list"
  fs_pending :: "string list"

definition live :: "FactRecord \<Rightarrow> bool" where
  "live r = (fr_status r \<in> {''active'', ''pending_confirmation''})"

definition put_record :: "nat \<Rightarrow> FactRecord \<Rightarrow> fact_store \<Rightarrow> fact_store" where
  "put_record i r st = st\<lparr>fs_records := (fs_records st)[i := r]\<rparr>"

definition add_record :: "FactRecord \<Rightarrow> fact_store \<Rightarrow> fact_store" where
  "add_record r st = st\<lparr>fs_records := fs_records st @ [r]\<rparr>"

definition append_fact_event ::
    "fact_env \<Rightarrow> string \<Rightarrow> fact_source \<Rightarrow> FactRecord option \<Rightarrow> FactRecord \<Rightarrow> string \<Rightarrow> fact_store \<Rightarrow> fact_store" where
  "append_fact_event env kind src before after why st =
     (if ff_audit (fe_flags env)
      then st\<lparr>fs_events := fs_events st @ [\<lparr>fv_fact = fr_id after, fv_type = kind, fv_source = src,
             fv_before = before, fv_after = after, fv_reason = why\<rparr>]\<rparr>
      else st)"

definition record_pending_index :: "FactRecord \<Rightarrow> fact_store \<Rightarrow> fact_store" where
  "record_pending_index r st = st\<lparr>fs_pending := sorted_list_of_set (insert (fr_hash r) (set (fs_pending st)))\<rparr>"

section \<open>Relations\<close>

definition same_edge :: "FactRelation \<Rightarrow> FactRelation \<Rightarrow> bool" where
  "same_edge r e = (rl_source e = rl_source r \<and> rl_target e = rl_target r \<and> rl_type e = rl_type r)"

definition put_relation :: "FactRelation \<Rightarrow> FactRelation list \<Rightarrow> FactRelation list" where
  "put_relation r rs = (if list_ex (same_edge r) rs then update_first (same_edge r) (\<lambda>_. r) rs else rs @ [r])"

definition upsert_relation ::
    "fact_env \<Rightarrow> string \<Rightarrow> string \<Rightarrow> string \<Rightarrow> string \<Rightarrow> rat \<Rightarrow> string \<Rightarrow> json_obj \<Rightarrow> fact_store \<Rightarrow> fact_store" where
  "upsert_relation env now source target kind confidence org evidence st =
     (if \<not> ff_graph (fe_flags env) \<or> source = [] \<or> target = [] \<or> source = target \<and> kind \<noteq> ''equivalent'' then st
      else st\<lparr>fs_relations := put_relation \<lparr>rl_source = source, rl_target = target, rl_type = kind,
             rl_confidence = normalize_confidence confidence, rl_origin = org, rl_created = now,
             rl_status = ''active'', rl_evidence = evidence\<rparr> (fs_relations st)\<rparr>)"

text \<open>
  The relations that a proposal brings. \<open>None\<close> is the \<^verbatim>\<open>ValueError\<close> of an identifier that is not a text
  or of a confidence that is not a number.
\<close>

definition optional_record_string :: "json option \<Rightarrow> string option option" where
  "optional_record_string v = (case v of
       None \<Rightarrow> Some None | Some JNull \<Rightarrow> Some None
     | Some (JStr s) \<Rightarrow> Some (if py_strip s = [] then None else Some (py_strip s)) | _ \<Rightarrow> None)"

definition fact_pair :: "json_obj \<Rightarrow> (string \<times> string) option" where
  "fact_pair item = (case dict_get item ''fact_pair'' of
       Some (JList [JStr a, JStr b]) \<Rightarrow> if py_strip a \<noteq> [] \<and> py_strip b \<noteq> [] then Some (py_strip a, py_strip b) else None
     | _ \<Rightarrow> None)"

definition endpoint :: "string option \<Rightarrow> string option \<Rightarrow> string option \<Rightarrow> string option \<Rightarrow> string option" where
  "endpoint given from_pair dflt new_id =
     (let x = (if truthy given then given else if truthy from_pair then from_pair else dflt)
      in if x = Some ''__new_fact__'' then (if truthy new_id then new_id else dflt) else x)"

definition item_confidence :: "fact_env \<Rightarrow> json_obj \<Rightarrow> rat \<Rightarrow> rat option" where
  "item_confidence env item dflt = (case dict_get item ''confidence'' of
       Some j \<Rightarrow> fe_num env j
     | None \<Rightarrow> (case dict_get item ''relation_confidence'' of Some j \<Rightarrow> fe_num env j | None \<Rightarrow> Some dflt))"

definition item_evidence :: "fact_env \<Rightarrow> json_obj \<Rightarrow> string \<Rightarrow> json_obj" where
  "item_evidence env item content =
     (let e = (case dict_get item ''evidence'' of Some (JObj d) \<Rightarrow> d | _ \<Rightarrow> [])
      in if content \<noteq> [] \<and> dict_get e ''content_hash'' = None
         then e @ [(''content_hash'', JStr (fe_hash env content))] else e)"

definition relation_kind :: "json_obj \<Rightarrow> string option" where
  "relation_kind item = normalize_relation_type
     (case dict_get item ''relation_type'' of Some j \<Rightarrow> Some j | None \<Rightarrow> dict_get item ''relation_kind'')"

definition item_origin :: "json_obj \<Rightarrow> string \<Rightarrow> string" where
  "item_origin item org =
     (let t = (case dict_get item ''origin'' of Some j \<Rightarrow> if json_truthy j then py_str j else str_or org ''fact_store''
               | None \<Rightarrow> str_or org ''fact_store'')
      in str_or (py_strip t) ''fact_store'')"

definition persist_relation_item ::
    "fact_env \<Rightarrow> string \<Rightarrow> string option \<Rightarrow> string option \<Rightarrow> string \<Rightarrow> string \<Rightarrow> rat \<Rightarrow> string option
     \<Rightarrow> json_obj \<Rightarrow> fact_store \<Rightarrow> fact_store option" where
  "persist_relation_item env now dflt_source dflt_target org content dflt_conf new_id item st =
     (case relation_kind item of
        None \<Rightarrow> Some st
      | Some kind \<Rightarrow>
          if kind \<notin> {''contradicts'', ''generalizes'', ''narrows''} then Some st
          else case (optional_record_string (dict_get item ''source_fact_id''),
                     optional_record_string (dict_get item ''target_fact_id'')) of
              (Some src, Some tgt) \<Rightarrow>
                let pair = fact_pair item;
                    x = endpoint src (map_option fst pair) dflt_source new_id;
                    y = endpoint tgt (map_option snd pair) dflt_target new_id
                in if \<not> truthy x \<or> \<not> truthy y then Some st
                   else (case item_confidence env item dflt_conf of
                       None \<Rightarrow> None
                     | Some c \<Rightarrow> Some (upsert_relation env now (the x) (the y) kind (normalize_confidence c)
                         (item_origin item org) (item_evidence env item content) st))
            | _ \<Rightarrow> None)"

fun persist_relations ::
    "fact_env \<Rightarrow> string \<Rightarrow> string option \<Rightarrow> string option \<Rightarrow> string \<Rightarrow> string \<Rightarrow> rat \<Rightarrow> string option
     \<Rightarrow> json_obj list \<Rightarrow> fact_store \<Rightarrow> fact_store option" where
  "persist_relations env now ds dt org content dc new_id [] st = Some st"
| "persist_relations env now ds dt org content dc new_id (item # items) st =
     (case persist_relation_item env now ds dt org content dc new_id item st of
        None \<Rightarrow> None
      | Some st1 \<Rightarrow> persist_relations env now ds dt org content dc new_id items st1)"

definition persist_relation_candidates ::
    "fact_env \<Rightarrow> string \<Rightarrow> string option \<Rightarrow> string option \<Rightarrow> string \<Rightarrow> string \<Rightarrow> rat \<Rightarrow> string option
     \<Rightarrow> json_obj list \<Rightarrow> fact_store \<Rightarrow> fact_store option" where
  "persist_relation_candidates env now ds dt org content dc new_id items st =
     (if \<not> ff_graph (fe_flags env) \<or> items = [] then Some st
      else persist_relations env now ds dt org content dc new_id items st)"

definition persist_explicit_relations ::
    "fact_env \<Rightarrow> string \<Rightarrow> FactRecord \<Rightarrow> json_obj list \<Rightarrow> string option \<Rightarrow> string \<Rightarrow> fact_store \<Rightarrow> fact_store option" where
  "persist_explicit_relations env now r items target org st =
     persist_relation_candidates env now (Some (fr_id r)) target org (fr_content r) (fr_confidence r)
       (Some (fr_id r)) items st"

text \<open>The facts within some steps of a fact. Sets of identifiers are lists in some order.\<close>

definition neighbours :: "string list \<Rightarrow> bool \<Rightarrow> FactRelation list \<Rightarrow> string \<Rightarrow> string list" where
  "neighbours allowed bidirectional rels x =
     concat (map (\<lambda>r. if rl_status r = ''active'' \<and> rl_type r \<in> set allowed
       then (if rl_source r = x then [rl_target r] else []) @
            (if bidirectional \<and> rl_target r = x then [rl_source r] else [])
       else []) rels)"

fun visit :: "string list \<Rightarrow> string list \<Rightarrow> string list \<Rightarrow> string list \<times> string list" where
  "visit [] visited next_frontier = (visited, next_frontier)"
| "visit (t # ts) visited next_frontier =
     (if t \<in> set visited then visit ts visited next_frontier
      else visit ts (visited @ [t]) (next_frontier @ [t]))"

fun related_loop :: "(string \<Rightarrow> string list) \<Rightarrow> nat \<Rightarrow> string list \<Rightarrow> string list \<Rightarrow> string list" where
  "related_loop adjacent 0 frontier visited = visited"
| "related_loop adjacent (Suc n) frontier visited =
     (let (visited1, next_frontier) = visit (concat (map adjacent frontier)) visited []
      in if next_frontier = [] then visited1 else related_loop adjacent n next_frontier visited1)"

definition related_fact_ids :: "string list \<Rightarrow> int \<Rightarrow> bool \<Rightarrow> string \<Rightarrow> FactRelation list \<Rightarrow> string list" where
  "related_fact_ids allowed depth bidirectional fact_id rels =
     removeAll fact_id (related_loop (neighbours allowed bidirectional rels) (nat (max 1 depth)) [fact_id] [fact_id])"

section \<open>Confidence\<close>

text \<open>The first element with the greatest key, as \<^verbatim>\<open>max\<close> and a stable descending sort give it.\<close>

fun first_max :: "('a \<Rightarrow> 'k::linorder) \<Rightarrow> 'a list \<Rightarrow> 'a option" where
  "first_max f [] = None"
| "first_max f (x # xs) = (case first_max f xs of
      None \<Rightarrow> Some x | Some y \<Rightarrow> if f x < f y then Some y else Some x)"

definition effective_last_seen_at :: "fact_env \<Rightarrow> FactRecord \<Rightarrow> string" where
  "effective_last_seen_at env r =
     (let given = filter (\<lambda>t. py_strip t \<noteq> []) (fr_seen r #
            concat (map (\<lambda>v. case v of Some t \<Rightarrow> [t] | None \<Rightarrow> []) [fr_supported r, fr_retrieved r]))
      in case first_max (fe_when env) given of Some t \<Rightarrow> t | None \<Rightarrow> fr_seen r)"

definition days_between :: "int \<Rightarrow> int \<Rightarrow> int" where
  "days_between s t = max 0 ((t - s) div 86400000000)"

definition CONFIDENCE_DECAY_FACTOR :: rat where "CONFIDENCE_DECAY_FACTOR = 98 / 100"
definition MIN_FACT_CONFIDENCE :: rat where "MIN_FACT_CONFIDENCE = 3 / 10"
definition DECAY_START_DAYS :: int where "DECAY_START_DAYS = 30"

definition derive_confidence ::
    "fact_env \<Rightarrow> int \<Rightarrow> rat option \<Rightarrow> int option \<Rightarrow> FactRecord \<Rightarrow> rat" where
  "derive_confidence env now min_conf start r =
     (let base = normalize_confidence (fr_base r);
          seen = (case fe_when env (effective_last_seen_at env r) of Some t \<Rightarrow> t | None \<Rightarrow> now);
          grace = (case start of Some d \<Rightarrow> max 0 d | None \<Rightarrow> DECAY_START_DAYS);
          idle = days_between seen now;
          stale = (if idle > grace then of_int (idle - grace) / 45 else 0);
          alpha = 1 + 4 * base + of_int (max 1 (fr_support r)) + of_int (min (fr_injections r) 8) / 4;
          beta = 1 + 4 * (1 - base) + 5 / 4 * of_int (fr_contradictions r) + stale;
          low = (case min_conf of Some m \<Rightarrow> m | None \<Rightarrow> MIN_FACT_CONFIDENCE)
      in max (normalize_confidence low) (min (995 / 1000) (alpha / (alpha + beta))))"

definition rederive :: "fact_env \<Rightarrow> string \<Rightarrow> int \<Rightarrow> FactRecord \<Rightarrow> FactRecord" where
  "rederive env now clock r = (if ff_confidence (fe_flags env)
     then r\<lparr>fr_confidence := derive_confidence env
            (case fe_when env now of Some t \<Rightarrow> t | None \<Rightarrow> clock) None None r\<rparr>
     else r)"

definition usage_decay_multiplier :: "fact_env \<Rightarrow> int \<Rightarrow> FactRecord \<Rightarrow> rat" where
  "usage_decay_multiplier env now r =
     (let retrieval = max 0 (fr_retrievals r); injection = max 0 (fr_injections r) in
      if retrieval < 3 \<and> injection < 2 then 1
      else let usage = of_int (min retrieval 12) / 12 * (6 / 10) + of_int (min injection 8) / 8 * (4 / 10);
               recency = (case fe_when env (opt_or (fr_retrieved r) []) of
                   None \<Rightarrow> 1
                 | Some t \<Rightarrow> let idle = days_between t now
                     in if idle \<le> 7 then 7 / 10 else if idle \<le> 30 then 85 / 100 else 1)
           in max (1 / 2) (1 - usage * (35 / 100)) * recency)"

definition decayed_confidence :: "fact_env \<Rightarrow> int \<Rightarrow> FactRecord \<Rightarrow> rat" where
  "decayed_confidence env now r =
     (let usage = usage_decay_multiplier env now r; conf = fr_confidence r in
      if ff_confidence (fe_flags env) then
        (let c = derive_confidence env now None None r
         in if c < conf \<and> usage < 1 then conf - (conf - c) * usage else c)
      else
        (let seen = (case fe_when env (fr_seen r) of Some t \<Rightarrow> t | None \<Rightarrow> now);
             days = days_between seen now
         in if days \<le> DECAY_START_DAYS then conf
            else max (normalize_confidence MIN_FACT_CONFIDENCE)
                   (conf * fe_pow env CONFIDENCE_DECAY_FACTOR (of_int (max 0 (days - DECAY_START_DAYS)) * usage))))"

text \<open>The number of changed records and the records; \<open>stamp\<close> is the text of \<open>now\<close>.\<close>

definition decay_record :: "fact_env \<Rightarrow> int \<Rightarrow> string \<Rightarrow> FactRecord \<Rightarrow> FactRecord" where
  "decay_record env now stamp r =
     (if fr_status r = ''active'' \<and> decayed_confidence env now r \<noteq> fr_confidence r
      then r\<lparr>fr_confidence := decayed_confidence env now r, fr_updated := stamp\<rparr> else r)"

definition decay_confidence :: "fact_env \<Rightarrow> int \<Rightarrow> string \<Rightarrow> fact_store \<Rightarrow> nat \<times> fact_store" where
  "decay_confidence env now stamp st =
     (length (filter (\<lambda>r. fr_status r = ''active'' \<and> decayed_confidence env now r \<noteq> fr_confidence r) (fs_records st)),
      st\<lparr>fs_records := map (decay_record env now stamp) (fs_records st)\<rparr>)"

definition update_confidence :: "string \<Rightarrow> string \<Rightarrow> rat \<Rightarrow> fact_store \<Rightarrow> bool \<times> fact_store" where
  "update_confidence now fact_id confidence st =
     (let k = py_strip fact_id; c = normalize_confidence confidence in
      if k = [] \<or> \<not> list_ex (\<lambda>r. fr_id r = k) (fs_records st) then (False, st)
      else (True, st\<lparr>fs_records := update_first (\<lambda>r. fr_id r = k)
             (\<lambda>r. if fr_confidence r = c then r else r\<lparr>fr_confidence := c, fr_updated := now\<rparr>) (fs_records st)\<rparr>))"

section \<open>Calibration\<close>

definition int_value :: "fact_env \<Rightarrow> json option \<Rightarrow> int" where
  "int_value env v = (case v of
       None \<Rightarrow> 0 | Some (JBool b) \<Rightarrow> 0 | Some j \<Rightarrow> (case fe_int env j of Some i \<Rightarrow> i | None \<Rightarrow> 0))"

definition float_value :: "fact_env \<Rightarrow> json option \<Rightarrow> rat" where
  "float_value env v = (case v of
       None \<Rightarrow> 0 | Some (JBool b) \<Rightarrow> 0 | Some j \<Rightarrow> (case fe_num env j of Some r \<Rightarrow> r | None \<Rightarrow> 0))"

definition lowered :: "string \<Rightarrow> string \<Rightarrow> string" where
  "lowered x dflt = str_or (py_lower (py_strip (str_or x dflt))) dflt"

definition calibration_keys :: "string \<Rightarrow> string \<Rightarrow> string \<Rightarrow> string \<Rightarrow> string list" where
  "calibration_keys source category proposal domain_id =
     (let s = lowered source ''dream''; p = lowered proposal ''fact''; d = lowered domain_id ''general''; sep = '':''
      in rev (remdups [p @ sep @ d, s, s @ sep @ d, s @ sep @ category @ sep @ p @ sep @ d, s @ sep @ category @ sep @ d]))"

definition calibrated_by :: "fact_env \<Rightarrow> string \<Rightarrow> rat \<Rightarrow> json_obj \<Rightarrow> rat option" where
  "calibrated_by env category conf entry =
     (let samples = max (int_value env (dict_get entry ''count_30d''))
            (max (int_value env (dict_get entry ''count_90d'')) (int_value env (dict_get entry ''count'')));
          bias = float_value env (case dict_get entry ''bias_30d'' of
              Some j \<Rightarrow> Some j
            | None \<Rightarrow> (case dict_get entry ''bias_90d'' of Some j \<Rightarrow> Some j | None \<Rightarrow> dict_get entry ''bias''))
      in if samples \<le> 10 then None
         else Some (max (1 / 10) (min (99 / 100)
           (if category \<in> set HIGH_RISK_CATEGORIES \<and> bias > 0 then conf else conf + bias))))"

fun calibrate_by_keys :: "fact_env \<Rightarrow> json_obj \<Rightarrow> string \<Rightarrow> rat \<Rightarrow> string list \<Rightarrow> rat" where
  "calibrate_by_keys env table category conf [] = conf"
| "calibrate_by_keys env table category conf (k # ks) =
     (case dict_get table k of
        Some (JObj entry) \<Rightarrow> (case calibrated_by env category conf entry of
            Some c \<Rightarrow> c | None \<Rightarrow> calibrate_by_keys env table category conf ks)
      | _ \<Rightarrow> calibrate_by_keys env table category conf ks)"

text \<open>\<open>None\<close> is the \<^verbatim>\<open>ValueError\<close> of an unknown category.\<close>

definition calibrate_confidence ::
    "fact_env \<Rightarrow> json_obj \<Rightarrow> string \<Rightarrow> string \<Rightarrow> rat \<Rightarrow> string \<Rightarrow> string \<Rightarrow> rat option" where
  "calibrate_confidence env table proposal domain_id raw source category =
     (case normalize_category category of
        None \<Rightarrow> None
      | Some c \<Rightarrow> Some (calibrate_by_keys env table c (normalize_confidence raw)
          (calibration_keys source c proposal domain_id)))"

end
