(* ===== verification/FactUpsert.thy ===== *)
theory FactUpsert
  imports FactStore
begin

text \<open>
  Writing facts: \<^verbatim>\<open>upsert_fact_in_records_unlocked\<close> with the reinforcement of a known fact, the semantic
  resolution and the contested pairs, and \<^verbatim>\<open>deprecate_fact\<close> (\<^verbatim>\<open>OriginAgent/agent/facts.py\<close>). One clock
  reading stands for those of one call.
\<close>

section \<open>Inputs\<close>

record fact_input =
  fi_content :: string
  fi_category :: string
  fi_scope :: string
  fi_owner :: string
  fi_cursors :: "int list"
  fi_excerpt :: string
  fi_confidence :: rat
  fi_expires :: "string option"
  fi_confirm :: "bool option"
  fi_status :: "string option"
  fi_supersedes :: "string option"
  fi_change :: "string option"
  fi_target :: "string option"
  fi_relations :: "json_obj list"
  fi_hint :: "string option"
  fi_source :: fact_source

text \<open>The input in normal form, with its resolved status; \<open>None\<close> is a \<^verbatim>\<open>ValueError\<close>.\<close>

definition normalized_input :: "fact_env \<Rightarrow> fact_input \<Rightarrow> (fact_input \<times> string \<times> bool) option" where
  "normalized_input env x =
     (if py_strip (fi_content x) = [] then None
      else case (normalize_category (fi_category x), normalize_owner (fi_owner x)) of
          (Some c, Some w) \<Rightarrow>
            (case resolve_status_and_confirmation c (fi_status x) (fi_confirm x) of
               None \<Rightarrow> None
             | Some (st, confirm) \<Rightarrow> Some (x\<lparr>fi_content := py_strip (fi_content x), fi_category := c,
                 fi_scope := normalize_scope (fi_scope x), fi_owner := w,
                 fi_cursors := normalize_source_cursors (fi_cursors x),
                 fi_excerpt := (if fi_excerpt x = [] then [] else fe_redact env (py_strip (fi_excerpt x))),
                 fi_confidence := normalize_confidence (fi_confidence x)\<rparr>, st, confirm))
        | _ \<Rightarrow> None)"

definition input_key :: "fact_env \<Rightarrow> fact_input \<Rightarrow> string" where
  "input_key env x = canonical_key_for_fact (fe_hash env) (fi_content x) (fi_owner x) (fi_category x) (fi_scope x)"

definition new_fact_id :: "fact_env \<Rightarrow> FactRecord list \<Rightarrow> string" where
  "new_fact_id env rs = fe_fresh env (map fr_id rs)"

text \<open>
  A new record. \<open>consistency\<close> and \<open>contested\<close> differ between a fact and a challenger that the semantic
  resolution creates.
\<close>

definition fresh_record ::
    "fact_env \<Rightarrow> string \<Rightarrow> fact_input \<Rightarrow> string option \<Rightarrow> string \<Rightarrow> bool \<Rightarrow> string \<Rightarrow> string option \<Rightarrow> FactRecord list \<Rightarrow> FactRecord" where
  "fresh_record env now x expires status confirm consistency contested rs =
     \<lparr>fr_id = new_fact_id env rs, fr_content = fi_content x, fr_key = input_key env x,
      fr_category = fi_category x, fr_scope = fi_scope x, fr_owner = fi_owner x, fr_cursors = fi_cursors x,
      fr_excerpt = fi_excerpt x, fr_confidence = fi_confidence x, fr_status = status, fr_created = now,
      fr_updated = now, fr_seen = now, fr_expires = expires, fr_supersedes = fi_supersedes x,
      fr_confirm = confirm, fr_base = fi_confidence x, fr_consistency = consistency, fr_support = 1,
      fr_contradictions = 0, fr_retrievals = 0, fr_injections = 0, fr_supported = Some now,
      fr_contested = contested, fr_retrieved = None,
      fr_hash = semantic_text_hash_for_fact (fe_hash env) (fi_content x) (fi_owner x) (fi_scope x)\<rparr>"

section \<open>A known fact\<close>

definition reinforced ::
    "fact_env \<Rightarrow> string \<Rightarrow> int \<Rightarrow> fact_input \<Rightarrow> string option \<Rightarrow> string option \<Rightarrow> bool option \<Rightarrow> FactRecord \<Rightarrow> FactRecord" where
  "reinforced env now clock x expires status confirm r =
     (let r1 = r\<lparr>fr_updated := now, fr_seen := now, fr_supported := Some now,
            fr_cursors := merge_source_cursors (fr_cursors r) (fi_cursors x),
            fr_excerpt := str_or (fi_excerpt x) (fr_excerpt r),
            fr_base := max (fr_base r) (fi_confidence x), fr_support := fr_support r + 1,
            fr_expires := (if expires = None then fr_expires r else expires),
            fr_supersedes := (if fi_supersedes x = None then fr_supersedes r else fi_supersedes x),
            fr_status := (case status of Some s \<Rightarrow> s | None \<Rightarrow> fr_status r),
            fr_confirm := (case confirm of Some b \<Rightarrow> b | None \<Rightarrow> fr_confirm r)\<rparr>
      in if ff_confidence (fe_flags env) then rederive env now clock r1
         else r1\<lparr>fr_confidence := max (fr_confidence r) (normalize_confidence (fi_confidence x))\<rparr>)"

definition reinforce_known ::
    "fact_env \<Rightarrow> string \<Rightarrow> int \<Rightarrow> fact_input \<Rightarrow> string option \<Rightarrow> bool option \<Rightarrow> nat \<Rightarrow> fact_store \<Rightarrow> fact_store" where
  "reinforce_known env now clock x status confirm i st =
     (let r = fs_records st ! i; r1 = reinforced env now clock x (fi_expires x) status confirm r
      in record_pending_index r1
           (append_fact_event env ''reinforce'' (fi_source x) (Some r) r1 ''exact canonical match'' (put_record i r1 st)))"

section \<open>Contested facts\<close>

definition contested_record :: "fact_env \<Rightarrow> string \<Rightarrow> int \<Rightarrow> FactRecord \<Rightarrow> FactRecord" where
  "contested_record env now clock r = rederive env now clock
     (r\<lparr>fr_consistency := ''contested'', fr_contradictions := fr_contradictions r + 1, fr_contested := Some now\<rparr>)"

text \<open>
  The incumbent at \<open>i\<close> and the challenger at \<open>j\<close>. The flip needs two cited cursors or a lead in confidence.
\<close>

definition flips :: "FactRecord \<Rightarrow> FactRecord \<Rightarrow> bool" where
  "flips incumbent challenger = (fr_category incumbent \<notin> set HIGH_RISK_CATEGORIES \<and>
     (max 1 (length (fr_cursors challenger)) \<ge> 2 \<or> fr_confidence challenger - fr_confidence incumbent \<ge> 15 / 100))"

definition mark_contested_pair ::
    "fact_env \<Rightarrow> string \<Rightarrow> int \<Rightarrow> nat \<Rightarrow> nat \<Rightarrow> string \<Rightarrow> bool \<Rightarrow> fact_store \<Rightarrow> fact_store" where
  "mark_contested_pair env now clock i j why auto_flip st =
     (let a = fs_records st ! i; b = fs_records st ! j;
          a1 = contested_record env now clock a; b1 = contested_record env now clock b;
          st1 = append_fact_event env ''contest'' runtime_source (Some a) a1 why (put_record j b1 (put_record i a1 st));
          st2 = (if b1 = b then st1 else append_fact_event env ''contest'' runtime_source (Some b) b1 why st1);
          a2 = a1\<lparr>fr_status := ''contradicted'', fr_consistency := ''contradicted'', fr_updated := now\<rparr>
      in if auto_flip \<and> flips a1 b1
         then append_fact_event env ''contradict'' runtime_source (Some a1) a2 ''automatic replace flip'' (put_record i a2 st2)
         else st2)"

definition deprecate_record :: "string \<Rightarrow> string \<Rightarrow> fact_store \<Rightarrow> bool \<times> fact_store" where
  "deprecate_record now fact_id st =
     (list_ex (\<lambda>r. fr_id r = fact_id) (fs_records st),
      st\<lparr>fs_records := update_first (\<lambda>r. fr_id r = fact_id)
        (\<lambda>r. r\<lparr>fr_status := ''deprecated'', fr_updated := now\<rparr>) (fs_records st)\<rparr>)"

definition positions :: "('a \<Rightarrow> bool) \<Rightarrow> 'a list \<Rightarrow> nat list" where
  "positions P xs = filter (\<lambda>i. P (xs ! i)) [0..<length xs]"

definition conflicting_incumbent :: "fact_input \<Rightarrow> FactRecord list \<Rightarrow> nat option" where
  "conflicting_incumbent x rs = first_max (\<lambda>i. (fr_confidence (rs ! i), fr_support (rs ! i), fr_updated (rs ! i)))
     (positions (\<lambda>r. fr_owner r = fi_owner x \<and> fr_category r = fi_category x \<and> fr_scope r = fi_scope x \<and>
        fr_status r = ''active'' \<and>
        normalize_fact_content (fr_content r) \<noteq> normalize_fact_content (fi_content x)) rs)"

section \<open>Semantic resolution\<close>

definition word_char :: "char \<Rightarrow> bool" where
  "word_char c = (let n = of_char c :: nat
     in 48 \<le> n \<and> n \<le> 57 \<or> 65 \<le> n \<and> n \<le> 90 \<or> 97 \<le> n \<and> n \<le> 122 \<or> n = 95)"

fun word_tokens :: "string \<Rightarrow> string \<Rightarrow> string list" where
  "word_tokens acc [] = (if acc = [] then [] else [rev acc])"
| "word_tokens acc (c # cs) =
     (if word_char c then word_tokens (c # acc) cs
      else (if acc = [] then [] else [rev acc]) @ word_tokens [] cs)"

definition content_tokens :: "string \<Rightarrow> string set" where
  "content_tokens s = set (word_tokens [] (normalize_fact_content s))"

definition similarity :: "string \<Rightarrow> string \<Rightarrow> rat" where
  "similarity s t =
     (let l = content_tokens s; r = content_tokens t in
      if l = {} \<or> r = {} then 0
      else max 0 (min 1 (of_nat (card (l \<inter> r)) / of_nat (card (l \<union> r)) +
             (if normalize_fact_content s = normalize_fact_content t then 1 / 10 else 0))))"

definition candidate_search :: "fact_input \<Rightarrow> FactRecord list \<Rightarrow> nat option" where
  "candidate_search x rs = first_max (\<lambda>i. similarity (fi_content x) (fr_content (rs ! i)))
     (positions (\<lambda>r. fr_owner r = fi_owner x \<and> fr_category r = fi_category x \<and>
        scope_family_match (fi_scope x) (fr_scope r) \<and> similarity (fi_content x) (fr_content r) > 0) rs)"

definition classify_relation :: "string \<Rightarrow> string \<Rightarrow> rat \<Rightarrow> string" where
  "classify_relation s t sim =
     (let l = content_tokens s; r = content_tokens t in
      if sim \<ge> 92 / 100 then ''equivalent''
      else if l \<noteq> {} \<and> r \<noteq> {} \<and> r \<subseteq> l then ''narrows''
      else if l \<noteq> {} \<and> r \<noteq> {} \<and> l \<subseteq> r then ''generalizes''
      else ''related_to'')"

definition merge_equivalent :: "fact_env \<Rightarrow> string \<Rightarrow> int \<Rightarrow> fact_input \<Rightarrow> nat \<Rightarrow> rat \<Rightarrow> fact_store \<Rightarrow> fact_store" where
  "merge_equivalent env now clock x i sim st =
     (let r = fs_records st ! i; r1 = reinforced env now clock x None None None r;
          st1 = upsert_relation env now (fr_id r) (fr_id r) ''equivalent'' sim ''semantic_resolver''
            [(''semantic_text_hash'', JStr (fr_hash r))] (put_record i r1 st)
      in record_pending_index r1 (append_fact_event env ''merge'' (fi_source x) (Some r) r1 ''semantic equivalent merge'' st1))"

definition hint_evidence :: "fact_input \<Rightarrow> json_obj" where
  "hint_evidence x = [(''semantic_scope_hint'', JStr (opt_or (fi_hint x) []))]"

definition challenge ::
    "fact_env \<Rightarrow> string \<Rightarrow> int \<Rightarrow> fact_input \<Rightarrow> nat \<Rightarrow> string \<Rightarrow> rat \<Rightarrow> fact_store \<Rightarrow> (nat \<times> fact_store) option" where
  "challenge env now clock x i kind sim st =
     (let j = length (fs_records st); c = fs_records st ! i;
          new = rederive env now clock (fresh_record env now x None ''pending_confirmation'' True ''contested'' (Some now) (fs_records st));
          st1 = mark_contested_pair env now clock i j (''semantic contradiction candidate ('' @ kind @ '')'')
            (ff_flip (fe_flags env) \<and> is_replacement (fi_change x)) (add_record new st);
          b = fs_records st1 ! j;
          st2 = append_fact_event env ''create'' (fi_source x) None b ''challenger fact created'' st1;
          st3 = upsert_relation env now (fr_id b) (fr_id c) ''contradicts'' sim (so_origin (fi_source x)) (hint_evidence x) st2
      in map_option (\<lambda>st4. (j, record_pending_index b st4))
           (if fi_relations x = [] then Some st3
            else persist_explicit_relations env now b (fi_relations x)
              (Some (opt_or (fi_target x) (fr_id c))) (so_origin (fi_source x)) st3))"

text \<open>
  The result: the position of the fact that stands for the input, if any, and the store. A relation may be
  written although the resolution leaves the input to the caller.
\<close>

definition semantic_resolution ::
    "fact_env \<Rightarrow> string \<Rightarrow> int \<Rightarrow> fact_input \<Rightarrow> fact_store \<Rightarrow> (nat option \<times> fact_store) option" where
  "semantic_resolution env now clock x st =
     (if \<not> ff_merge (fe_flags env) \<and> \<not> ff_graph (fe_flags env) then Some (None, st)
      else case candidate_search x (fs_records st) of
          None \<Rightarrow> Some (None, st)
        | Some i \<Rightarrow>
            let c = fs_records st ! i; sim = similarity (fi_content x) (fr_content c);
                kind = classify_relation (fi_content x) (fr_content c) sim
            in if sim \<ge> 92 / 100 \<and> kind = ''equivalent'' \<and> fi_category x \<notin> set HIGH_RISK_CATEGORIES
               then Some (Some i, merge_equivalent env now clock x i sim st)
               else let st1 = (if sim \<ge> 80 / 100
                      then upsert_relation env now (opt_or (fi_target x) (fr_id c)) (fr_id c) kind sim
                             (so_origin (fi_source x))
                             ((''content_hash'', JStr (fe_hash env (fi_content x))) # hint_evidence x) st
                      else st)
                    in if fi_category x \<in> set CONFLICT_CATEGORIES \<and> fr_status c = ''active'' \<and>
                          kind \<in> {''related_to'', ''generalizes'', ''narrows''} \<and>
                          normalize_fact_content (fr_content c) \<noteq> normalize_fact_content (fi_content x)
                       then map_option (\<lambda>(j, st2). (Some j, st2)) (challenge env now clock x i kind sim st1)
                       else Some (None, st1))"

section \<open>Upsert\<close>

definition insert_fact ::
    "fact_env \<Rightarrow> string \<Rightarrow> int \<Rightarrow> fact_input \<Rightarrow> string \<Rightarrow> bool \<Rightarrow> fact_store \<Rightarrow> (nat \<times> fact_store) option" where
  "insert_fact env now clock x status confirm st =
     (let incumbent = conflicting_incumbent x (fs_records st);
          st1 = (if truthy (fi_supersedes x) then snd (deprecate_record now (the (fi_supersedes x)) st) else st);
          new = rederive env now clock (fresh_record env now x (fi_expires x) status confirm ''consistent'' None (fs_records st1));
          j = length (fs_records st1);
          st2 = add_record new st1;
          st3 = (if truthy (fi_supersedes x)
                 then upsert_relation env now (fr_id new) (the (fi_supersedes x)) ''supersedes'' (fi_confidence x)
                        (so_origin (fi_source x)) [(''content_hash'', JStr (fe_hash env (fi_content x)))] st2
                 else st2)
      in case (if fi_relations x = [] then Some st3
               else persist_explicit_relations env now new (fi_relations x) (fi_target x) (so_origin (fi_source x)) st3) of
          None \<Rightarrow> None
        | Some st4 \<Rightarrow>
            let st5 = (case incumbent of
                  None \<Rightarrow> st4
                | Some i \<Rightarrow> mark_contested_pair env now clock i j (''change_kind='' @ opt_or (fi_change x) ''new'')
                    (ff_flip (fe_flags env) \<and> is_replacement (fi_change x)) st4);
                b = fs_records st5 ! j
            in Some (j, append_fact_event env ''create'' (fi_source x) None b ''new fact'' (record_pending_index b st5)))"

definition known_position :: "string \<Rightarrow> FactRecord list \<Rightarrow> nat option" where
  "known_position k rs = List.find (\<lambda>i. fr_key (rs ! i) = k \<and> live (rs ! i)) [0..<length rs]"

text \<open>\<open>None\<close> is a \<^verbatim>\<open>ValueError\<close>; the files of relations and events may have changed before it.\<close>

definition upsert_fact ::
    "fact_env \<Rightarrow> string \<Rightarrow> int \<Rightarrow> fact_input \<Rightarrow> fact_store \<Rightarrow> (nat \<times> fact_store) option" where
  "upsert_fact env now clock x0 st =
     (case normalized_input env x0 of
        None \<Rightarrow> None
      | Some (x, status, confirm) \<Rightarrow>
          (case known_position (input_key env x) (fs_records st) of
             Some i \<Rightarrow> Some (i, reinforce_known env now clock x
               (if fi_status x = None then None else Some status)
               (if fi_confirm x = None then None else Some confirm) i st)
           | None \<Rightarrow>
               (case semantic_resolution env now clock x st of
                  None \<Rightarrow> None
                | Some (Some i, st1) \<Rightarrow> Some (i, st1)
                | Some (None, st1) \<Rightarrow> insert_fact env now clock x status confirm st1)))"

section \<open>Reading\<close>

definition category_rank :: "string \<Rightarrow> nat" where
  "category_rank c = length (takeWhile (\<lambda>d. d \<noteq> c) CATEGORY_ORDER)"

definition fact_order :: "FactRecord \<Rightarrow> nat \<times> string \<times> string \<times> string" where
  "fact_order r = (category_rank (fr_category r), py_lower (fr_scope r), py_lower (fr_content r), fr_id r)"

definition in_scope :: "string \<Rightarrow> FactRecord \<Rightarrow> bool" where
  "in_scope t r = (fr_scope r = t \<or> take (length t + 1) (fr_scope r) = t @ ''.'')"

text \<open>\<open>None\<close> is the \<^verbatim>\<open>ValueError\<close> of an unknown category.\<close>

definition list_active_facts ::
    "string option \<Rightarrow> string option \<Rightarrow> bool \<Rightarrow> FactRecord list \<Rightarrow> FactRecord list option" where
  "list_active_facts category scope_prefix include_pending rs =
     (case (if truthy category then map_option Some (normalize_category (the category)) else Some None) of
        None \<Rightarrow> None
      | Some wanted \<Rightarrow> Some (sort_key fact_order (filter (\<lambda>r.
            (fr_status r = ''active'' \<or> include_pending \<and> fr_status r = ''pending_confirmation'') \<and>
            (case wanted of Some c \<Rightarrow> fr_category r = c | None \<Rightarrow> True) \<and>
            (truthy scope_prefix \<longrightarrow> in_scope (normalize_scope (the scope_prefix)) r)) rs)))"

definition find_by_canonical_key :: "string \<Rightarrow> string option \<Rightarrow> FactRecord list \<Rightarrow> FactRecord option option" where
  "find_by_canonical_key key0 status rs =
     (let k = py_strip key0 in
      if k = [] then Some None
      else case (if truthy status then map_option Some (normalize_fact_status (the status)) else Some None) of
          None \<Rightarrow> None
        | Some wanted \<Rightarrow> Some (List.find (\<lambda>r. fr_key r = k \<and>
            (case wanted of Some s \<Rightarrow> fr_status r = s | None \<Rightarrow> True)) rs))"

section \<open>The memory file\<close>

text \<open>Its lines. \<open>fmt\<close> prints a confidence.\<close>

definition section_title :: "string \<Rightarrow> string" where
  "section_title c = opt_or (dict_get [(''preference'', ''Preferences''), (''routine'', ''Routines''),
     (''household'', ''Household''), (''device'', ''Devices''), (''policy'', ''Policies''), (''safety'', ''Safety''),
     (''temporary'', ''Temporary''), (''note'', ''Notes'')] c) []"

definition format_source :: "int list \<Rightarrow> string" where
  "format_source cs = (let recent = last_n 3 cs in
     if recent = [] then [] else if length recent = 1 then ''cursor '' @ show_int (hd recent)
     else ''cursors '' @ join_with '', '' (map show_int recent))"

definition render_fact_lines :: "(rat \<Rightarrow> string) \<Rightarrow> (string \<Rightarrow> string list) \<Rightarrow> bool \<Rightarrow> FactRecord \<Rightarrow> string list" where
  "render_fact_lines fmt splitlines include_category r =
     (case splitlines (fr_content r) of [] \<Rightarrow> [''- ''] | l # ls \<Rightarrow> (''- '' @ l) # map (\<lambda>x. ''  '' @ x) ls) @
     (if include_category then [''  - category: '' @ fr_category r] else []) @
     [''  - scope: '' @ fr_scope r, ''  - confidence: '' @ fmt (fr_confidence r)] @
     (if truthy (fr_expires r) then [''  - expires_at: '' @ the (fr_expires r)] else []) @
     (if fr_consistency r = ''contested'' then [''  - contested: this fact has active competing evidence''] else []) @
     (if fr_cursors r = [] then [] else [''  - source: '' @ format_source (fr_cursors r)])"

definition render_memory_md :: "(rat \<Rightarrow> string) \<Rightarrow> (string \<Rightarrow> string list) \<Rightarrow> FactRecord list \<Rightarrow> string list" where
  "render_memory_md fmt splitlines rs =
     [''# Long-term Memory'', [], ''> Generated from memory/facts.jsonl. Do not edit directly.''] @
     concat (map (\<lambda>c. let fs = sort_key fact_order (filter (\<lambda>r. fr_status r = ''active'' \<and> fr_category r = c) rs)
       in if fs = [] then [] else [[], ''## '' @ section_title c] @ concat (map (render_fact_lines fmt splitlines False) fs))
       CATEGORY_ORDER) @
     (let ps = sort_key fact_order (filter (\<lambda>r. fr_status r = ''pending_confirmation'') rs)
      in if ps = [] then [] else [[], ''## Pending Confirmation''] @ concat (map (render_fact_lines fmt splitlines True) ps))"

end
