(* ===== verification/FactMemory.thy ===== *)
theory FactMemory
  imports FactUpsert
begin

text \<open>
  The clients of the fact store: retrieval for the prompt (\<^verbatim>\<open>FactStore.retrieve_context_bundle\<close>), the batches
  of proposals that the dream task applies, the import of an old memory file, and the governed queue
  (\<^verbatim>\<open>OriginAgent/agent/memory.py\<close>).
\<close>

section \<open>Retrieval\<close>

text \<open>A ranked fact is a position with its score and whether a relation brought it in.\<close>

record retrieval =
  rt_at :: nat
  rt_score :: rat
  rt_expanded :: bool

definition clamp_score :: "rat \<Rightarrow> rat" where
  "clamp_score s = max 0 (min 1 s)"

definition limit_of :: "int \<Rightarrow> nat" where
  "limit_of top_k = nat (max 1 top_k)"

definition ranked_score :: "FactRecord \<Rightarrow> rat" where
  "ranked_score r = clamp_score (fr_confidence r - (if fr_consistency r = ''contested'' then 1 / 10 else 0))"

definition build_retrieval_rankings :: "FactRecord list \<Rightarrow> nat list \<Rightarrow> int \<Rightarrow> retrieval list" where
  "build_retrieval_rankings rs listed top_k =
     map (\<lambda>i. \<lparr>rt_at = i, rt_score = ranked_score (rs ! i), rt_expanded = False\<rparr>)
       (take (limit_of top_k) (sort_key (\<lambda>i. (- ranked_score (rs ! i), - fr_support (rs ! i))) listed))"

text \<open>The related facts of one ranked fact are added until the limit is reached.\<close>

fun expand_with :: "FactRecord list \<Rightarrow> nat \<Rightarrow> nat list \<Rightarrow> retrieval list \<Rightarrow> retrieval list" where
  "expand_with rs k [] acc = acc"
| "expand_with rs k (i # related) acc =
     (if i \<in> rt_at ` set acc then expand_with rs k related acc
      else let acc1 = acc @ [\<lparr>rt_at = i, rt_score = clamp_score (fr_confidence (rs ! i) - 5 / 100), rt_expanded = True\<rparr>]
           in if length acc1 \<ge> k then acc1 else expand_with rs k related acc1)"

fun expand_all :: "FactRecord list \<Rightarrow> nat \<Rightarrow> (nat \<Rightarrow> nat list) \<Rightarrow> nat list \<Rightarrow> retrieval list \<Rightarrow> retrieval list" where
  "expand_all rs k related [] acc = acc"
| "expand_all rs k related (i # js) acc =
     (let acc1 = expand_with rs k (related i) acc
      in if length acc1 \<ge> k then acc1 else expand_all rs k related js acc1)"

definition readable_fact :: "bool \<Rightarrow> FactRecord \<Rightarrow> bool" where
  "readable_fact include_pending r =
     (fr_status r = ''active'' \<or> include_pending \<and> fr_status r = ''pending_confirmation'')"

text \<open>The readable_fact facts with an identifier: a dictionary keeps the last one.\<close>

definition position_of :: "bool \<Rightarrow> FactRecord list \<Rightarrow> string \<Rightarrow> nat list" where
  "position_of include_pending rs fact_id =
     last_n 1 (positions (\<lambda>r. fr_id r = fact_id \<and> readable_fact include_pending r) rs)"

definition related_positions :: "bool \<Rightarrow> fact_store \<Rightarrow> nat \<Rightarrow> nat list" where
  "related_positions include_pending st i = concat (map (position_of include_pending (fs_records st))
     (sorted_list_of_set (set (related_fact_ids [''generalizes'', ''narrows'', ''implies''] 1 True
        (fr_id (fs_records st ! i)) (fs_relations st)))))"

definition expand_relation_rankings :: "bool \<Rightarrow> int \<Rightarrow> fact_store \<Rightarrow> retrieval list \<Rightarrow> retrieval list" where
  "expand_relation_rankings include_pending top_k st ranked =
     (if ranked = [] then ranked
      else take (limit_of top_k) (sort_key (\<lambda>x. (rt_expanded x, - rt_score x, - fr_support (fs_records st ! rt_at x)))
        (expand_all (fs_records st) (limit_of top_k) (related_positions include_pending st) (map rt_at ranked) ranked)))"

definition retrieved :: "fact_env \<Rightarrow> string \<Rightarrow> int \<Rightarrow> FactRecord \<Rightarrow> FactRecord" where
  "retrieved env now clock r =
     (let r1 = r\<lparr>fr_retrievals := fr_retrievals r + 1, fr_injections := fr_injections r + 1, fr_retrieved := Some now\<rparr>
      in rederive env now clock (r1\<lparr>fr_seen := effective_last_seen_at env r1\<rparr>))"

definition ordered_positions ::
    "string option \<Rightarrow> string option \<Rightarrow> bool \<Rightarrow> FactRecord list \<Rightarrow> nat list option" where
  "ordered_positions category scope_prefix include_pending rs =
     (case (if truthy category then map_option Some (normalize_category (the category)) else Some None) of
        None \<Rightarrow> None
      | Some wanted \<Rightarrow> Some (sort_key (\<lambda>i. fact_order (rs ! i)) (positions (\<lambda>r. readable_fact include_pending r \<and>
            (case wanted of Some c \<Rightarrow> fr_category r = c | None \<Rightarrow> True) \<and>
            (truthy scope_prefix \<longrightarrow> in_scope (normalize_scope (the scope_prefix)) r)) rs)))"

definition retrieve_context_bundle ::
    "fact_env \<Rightarrow> string \<Rightarrow> int \<Rightarrow> string option \<Rightarrow> string option \<Rightarrow> bool \<Rightarrow> int \<Rightarrow> fact_store
     \<Rightarrow> (nat list \<times> fact_store) option" where
  "retrieve_context_bundle env now clock category scope_prefix include_pending top_k st =
     (case ordered_positions category scope_prefix include_pending (fs_records st) of
        None \<Rightarrow> None
      | Some listed \<Rightarrow>
          if \<not> ff_retrieval (fe_flags env) then Some (take (limit_of top_k) listed, st)
          else let ranked0 = build_retrieval_rankings (fs_records st) listed top_k;
                   ranked = (if ff_graph (fe_flags env) then expand_relation_rankings include_pending top_k st ranked0 else ranked0);
                   hits = map rt_at ranked
               in Some (hits, st\<lparr>fs_records := fold (\<lambda>i rs. rs[i := retrieved env now clock (rs ! i)]) hits (fs_records st)\<rparr>))"

section \<open>A batch of proposals\<close>

definition AUTO_ACTIVE_THRESHOLD :: rat where "AUTO_ACTIVE_THRESHOLD = 8 / 10"
definition AUTO_ACTIVE_BUDGET :: rat where "AUTO_ACTIVE_BUDGET = 5"

record dream_state =
  dm_store :: fact_store
  dm_budget :: rat
  dm_accepted :: "nat list"
  dm_pending :: "nat list"
  dm_rejected :: "(string \<times> issue list) list"
  dm_deprecated :: "string list"

definition start_dream :: "fact_store \<Rightarrow> dream_state" where
  "start_dream st = \<lparr>dm_store = st, dm_budget = AUTO_ACTIVE_BUDGET, dm_accepted = [], dm_pending = [],
     dm_rejected = [], dm_deprecated = []\<rparr>"

text \<open>The active fact with the key of the proposal, as it is written there.\<close>

definition active_twin :: "fact_env \<Rightarrow> FactProposal \<Rightarrow> FactRecord list \<Rightarrow> bool" where
  "active_twin env p rs = list_ex (\<lambda>r. fr_status r = ''active'' \<and> fr_key r =
     canonical_key_for_fact (fe_hash env) (fp_content p) (fp_owner p) (fp_category p) (fp_scope p)) rs"

definition dream_decision :: "fact_env \<Rightarrow> FactProposal \<Rightarrow> ValidationResult \<Rightarrow> rat \<Rightarrow> FactRecord list \<Rightarrow> string \<times> issue list" where
  "dream_decision env p v budget rs =
     (if vr_decision v = ''active'' \<and> \<not> active_twin env p rs then
        (if vr_confidence v < AUTO_ACTIVE_THRESHOLD
         then (''pending_confirmation'', vr_issues v @ [(''active_confidence_below_threshold'', ''pending'')])
         else if budget < vr_confidence v
         then (''pending_confirmation'', vr_issues v @ [(''active_confidence_budget_exceeded'', ''pending'')])
         else (''active'', vr_issues v))
      else (vr_decision v, vr_issues v))"

definition dream_source :: "string \<Rightarrow> fact_source" where
  "dream_source batch = \<lparr>so_batch = batch, so_actor = ''dream'', so_origin = ''dream''\<rparr>"

definition dream_input :: "string \<Rightarrow> FactProposal \<Rightarrow> rat \<Rightarrow> string \<Rightarrow> fact_input" where
  "dream_input batch p conf decision =
     \<lparr>fi_content = fp_content p, fi_category = fp_category p, fi_scope = fp_scope p, fi_owner = fp_owner p,
      fi_cursors = fp_cursors p, fi_excerpt = fp_excerpt p, fi_confidence = conf, fi_expires = fp_expires p,
      fi_confirm = Some (decision \<noteq> ''active''),
      fi_status = Some (if decision = ''active'' then ''active'' else ''pending_confirmation''),
      fi_supersedes = fp_supersedes p, fi_change = fp_change p, fi_target = fp_target p,
      fi_relations = fp_relations p, fi_hint = fp_hint p, fi_source = dream_source batch\<rparr>"

definition apply_proposal ::
    "fact_env \<Rightarrow> string \<Rightarrow> int \<Rightarrow> string \<Rightarrow> json_obj list \<Rightarrow> int \<Rightarrow> int \<Rightarrow> FactProposal \<Rightarrow> dream_state \<Rightarrow> dream_state option" where
  "apply_proposal env now clock batch hs lo hi p d =
     (let rs = fs_records (dm_store d);
          v = validate_fact_proposal (fe_domains env) p rs hs lo hi;
          (decision, issues) = dream_decision env p v (dm_budget d) rs
      in if decision = ''reject'' then Some (d\<lparr>dm_rejected := dm_rejected d @ [(fp_content p, issues)]\<rparr>)
         else case upsert_fact env now clock (dream_input batch p (vr_confidence v) decision) (dm_store d) of
             None \<Rightarrow> None
           | Some (i, st) \<Rightarrow> Some
               (if decision = ''active''
                then d\<lparr>dm_store := st, dm_accepted := dm_accepted d @ [i],
                       dm_budget := (if active_twin env p rs then dm_budget d else dm_budget d - vr_confidence v)\<rparr>
                else d\<lparr>dm_store := st, dm_pending := dm_pending d @ [i]\<rparr>))"

fun apply_proposals ::
    "fact_env \<Rightarrow> string \<Rightarrow> int \<Rightarrow> string \<Rightarrow> json_obj list \<Rightarrow> int \<Rightarrow> int \<Rightarrow> FactProposal list \<Rightarrow> dream_state \<Rightarrow> dream_state option" where
  "apply_proposals env now clock batch hs lo hi [] d = Some d"
| "apply_proposals env now clock batch hs lo hi (p # ps) d =
     (case apply_proposal env now clock batch hs lo hi p d of
        None \<Rightarrow> None | Some d1 \<Rightarrow> apply_proposals env now clock batch hs lo hi ps d1)"

definition apply_deprecation ::
    "fact_env \<Rightarrow> string \<Rightarrow> string \<Rightarrow> json_obj list \<Rightarrow> int \<Rightarrow> int \<Rightarrow> dream_state \<Rightarrow> FactDeprecationProposal \<Rightarrow> dream_state" where
  "apply_deprecation env now batch hs lo hi d p =
     (if length (dm_deprecated d) \<ge> MAX_DEPRECATIONS_PER_BATCH
      then d\<lparr>dm_rejected := dm_rejected d @ [(dp_id p, [(''deprecation_limit_exceeded'', ''reject'')])]\<rparr>
      else let rs = fs_records (dm_store d); v = validate_deprecation_proposal p rs hs lo hi in
        if vr_decision v = ''reject'' then d\<lparr>dm_rejected := dm_rejected d @ [(dp_id p, vr_issues v)]\<rparr>
        else let (changed, st) = deprecate_record now (dp_id p) (dm_store d)
             in if changed
                then d\<lparr>dm_store := (case List.find (\<lambda>r. fr_id r = dp_id p) (fs_records st) of
                           Some r \<Rightarrow> append_fact_event env ''deprecate'' (dream_source batch)
                             (Some (r\<lparr>fr_status := ''active''\<rparr>)) r (str_or (dp_reason p) ''dream deprecation'') st
                         | None \<Rightarrow> st),
                       dm_deprecated := dm_deprecated d @ [dp_id p]\<rparr>
                else d\<lparr>dm_rejected := dm_rejected d @ [(dp_id p, [(''unknown_fact_id'', ''reject'')])]\<rparr>)"

text \<open>The calibrated proposals, the surest first; \<open>None\<close> is the \<^verbatim>\<open>ValueError\<close> of a category.\<close>

fun calibrated :: "fact_env \<Rightarrow> json_obj \<Rightarrow> FactProposal list \<Rightarrow> FactProposal list option" where
  "calibrated env table [] = Some []"
| "calibrated env table (p # ps) =
     (case calibrate_confidence env table ''fact'' (infer_domain_key (fe_domains env) (fp_scope p) (fp_content p))
             (fp_confidence p) ''dream'' (fp_category p) of
        None \<Rightarrow> None
      | Some c \<Rightarrow> map_option (Cons (p\<lparr>fp_confidence := c\<rparr>)) (calibrated env table ps))"

datatype batch_result = BatchRejected "(string \<times> issue list) list" | BatchRaised | BatchApplied dream_state

definition apply_fact_proposals ::
    "fact_env \<Rightarrow> string \<Rightarrow> int \<Rightarrow> string \<Rightarrow> json_obj \<Rightarrow> DreamFactProposalBatch \<Rightarrow> json_obj list \<Rightarrow> fact_store \<Rightarrow> batch_result" where
  "apply_fact_proposals env now clock batch table b hs st =
     (let cs = history_cursors hs in
      if cs = [] then BatchRejected
        (map (\<lambda>p. (fp_content p, [(''empty_history_batch'', ''reject'')])) (db_upserts b) @
         map (\<lambda>p. (dp_id p, [(''empty_history_batch'', ''reject'')])) (db_deprecations b))
      else let lo = Min (set cs); hi = Max (set cs) in
        case calibrated env table (db_upserts b) of
          None \<Rightarrow> BatchRaised
        | Some ps \<Rightarrow>
            (case apply_proposals env now clock batch hs lo hi (sort_key (\<lambda>p. - fp_confidence p) ps) (start_dream st) of
               None \<Rightarrow> BatchRaised
             | Some d \<Rightarrow> BatchApplied (foldl (apply_deprecation env now batch hs lo hi) d (db_deprecations b))))"

section \<open>Other clients\<close>

definition scale_confidence :: "string \<Rightarrow> string \<Rightarrow> rat \<Rightarrow> string \<Rightarrow> fact_store \<Rightarrow> bool \<times> fact_store" where
  "scale_confidence now key0 multiplier status st =
     (let k = py_strip key0 in
      if k = [] then (False, st)
      else case List.find (\<lambda>r. fr_key r = k \<and> fr_status r = status) (fs_records st) of
          None \<Rightarrow> (False, st)
        | Some r \<Rightarrow> update_confidence now (fr_id r) (fr_confidence r * max 0 (min 1 multiplier)) st)"

definition plain_input :: "string \<Rightarrow> string \<Rightarrow> string \<Rightarrow> string \<Rightarrow> string \<Rightarrow> rat \<Rightarrow> string \<Rightarrow> fact_source \<Rightarrow> fact_input" where
  "plain_input content category scope owner excerpt conf status src =
     \<lparr>fi_content = content, fi_category = category, fi_scope = scope, fi_owner = owner, fi_cursors = [],
      fi_excerpt = excerpt, fi_confidence = conf, fi_expires = None, fi_confirm = None, fi_status = Some status,
      fi_supersedes = None, fi_change = None, fi_target = None, fi_relations = [], fi_hint = None, fi_source = src\<rparr>"

definition seed_legacy_memory :: "fact_env \<Rightarrow> string \<Rightarrow> int \<Rightarrow> string \<Rightarrow> fact_store \<Rightarrow> (nat option \<times> fact_store) option" where
  "seed_legacy_memory env now clock legacy st =
     (if fs_records st \<noteq> [] \<or> py_strip legacy = [] then Some (None, st)
      else map_option (\<lambda>(i, st1). (Some i, st1)) (upsert_fact env now clock
        (plain_input legacy ''note'' ''legacy.memory'' ''system'' ''legacy MEMORY.md import'' (1 / 2) ''active'' runtime_source) st))"

text \<open>The governed queue. A candidate has a kind, a summary and the fields that are read of it.\<close>

record governed_candidate =
  gc_kind :: string
  gc_category :: "string option"
  gc_summary :: string
  gc_excerpt :: string
  gc_scope :: string
  gc_owner :: string
  gc_confidence :: rat
  gc_sensitivity :: string

definition governed_category :: "governed_candidate \<Rightarrow> string" where
  "governed_category c =
     (let k = py_lower (py_strip (opt_or (gc_category c) (str_or (gc_kind c) ''note'')))
      in if k \<in> {''constraint'', ''policy'', ''safety'', ''preference'', ''note'', ''fact''} then k
         else if gc_kind c = ''constraint'' then ''constraint'' else ''note'')"

definition governed_key :: "fact_env \<Rightarrow> governed_candidate \<Rightarrow> string" where
  "governed_key env c = canonical_key_for_fact (fe_hash env) (gc_summary c) (gc_owner c) (governed_category c) (gc_scope c)"

definition governed_input :: "governed_candidate \<Rightarrow> fact_input" where
  "governed_input c = plain_input (gc_summary c) (governed_category c) (gc_scope c) (gc_owner c)
     (str_or (gc_excerpt c) (gc_summary c)) (max 0 (min (gc_confidence c) 1))
     (if gc_sensitivity c = ''high'' then ''pending_confirmation'' else ''active'')
     \<lparr>so_batch = ''governed_memory_queue'', so_actor = ''dream'', so_origin = ''governed_memory''\<rparr>"

fun consume_candidates ::
    "fact_env \<Rightarrow> string \<Rightarrow> int \<Rightarrow> governed_candidate list \<Rightarrow> string list \<Rightarrow> nat \<times> nat \<times> fact_store
     \<Rightarrow> (nat \<times> nat \<times> fact_store) option" where
  "consume_candidates env now clock [] known x = Some x"
| "consume_candidates env now clock (c # cs) known (applied, duplicates, st) =
     (if governed_key env c \<in> set known then consume_candidates env now clock cs known (applied, duplicates + 1, st)
      else case upsert_fact env now clock (governed_input c) st of
          None \<Rightarrow> None
        | Some (_, st1) \<Rightarrow>
            consume_candidates env now clock cs (governed_key env c # known) (applied + 1, duplicates, st1))"

text \<open>The keys are computed from the stored fields; a status is compared without its case.\<close>

definition known_keys :: "fact_env \<Rightarrow> FactRecord list \<Rightarrow> string list" where
  "known_keys env rs = map (\<lambda>r. canonical_key_for_fact (fe_hash env) (fr_content r) (fr_owner r) (fr_category r) (fr_scope r))
     (filter (\<lambda>r. py_lower (py_strip (fr_status r)) \<in> {''active'', ''pending_confirmation''}) rs)"

definition consume_governed ::
    "fact_env \<Rightarrow> string \<Rightarrow> int \<Rightarrow> governed_candidate list \<Rightarrow> fact_store \<Rightarrow> (nat \<times> nat \<times> fact_store) option" where
  "consume_governed env now clock cs st =
     consume_candidates env now clock cs (known_keys env (fs_records st)) (0, 0, st)"

end
