(* ===== verification/FactLife.thy ===== *)
theory FactLife
  imports FactMemory
begin

text \<open>
  What holds of the facts along every run: each operation changes records in place without touching what
  they say, or appends a new one. Both kinds of change keep the invariant of the store.
\<close>

section \<open>The invariant\<close>

definition unit_range :: "rat \<Rightarrow> bool" where
  "unit_range c = (0 \<le> c \<and> c \<le> 1)"

definition record_ok :: "fact_env \<Rightarrow> FactRecord \<Rightarrow> bool" where
  "record_ok env r = (fr_category r \<in> set CATEGORY_ORDER \<and> fr_owner r \<in> set VALID_OWNERS \<and>
     fr_status r \<in> set VALID_STATUSES \<and> unit_range (fr_confidence r) \<and> unit_range (fr_base r) \<and>
     1 \<le> fr_support r \<and> (\<forall>c \<in> set (fr_cursors r). 0 < c) \<and> py_strip (fr_content r) \<noteq> [] \<and>
     fr_key r = canonical_key_for_fact (fe_hash env) (fr_content r) (fr_owner r) (fr_category r) (fr_scope r))"

definition facts_ok :: "fact_env \<Rightarrow> FactRecord list \<Rightarrow> bool" where
  "facts_ok env rs = (distinct (map fr_id rs) \<and> distinct (map fr_key (filter live rs)) \<and> list_all (record_ok env) rs)"

text \<open>What the code relies on: a drawn identifier is new, and a power of the decay factor is at most one.\<close>

definition fresh_ids :: "fact_env \<Rightarrow> bool" where
  "fresh_ids env = (\<forall>xs. fe_fresh env xs \<notin> set xs)"

definition decaying_powers :: "fact_env \<Rightarrow> bool" where
  "decaying_powers env = (\<forall>x. 0 \<le> x \<longrightarrow> unit_range (fe_pow env CONFIDENCE_DECAY_FACTOR x))"

section \<open>Changes\<close>

definition same_fact :: "FactRecord \<Rightarrow> FactRecord \<Rightarrow> bool" where
  "same_fact r s = (fr_id s = fr_id r \<and> fr_content s = fr_content r \<and> fr_key s = fr_key r \<and>
     fr_category s = fr_category r \<and> fr_scope s = fr_scope r \<and> fr_owner s = fr_owner r \<and>
     fr_created s = fr_created r)"

definition may_become :: "fact_env \<Rightarrow> FactRecord \<Rightarrow> FactRecord \<Rightarrow> bool" where
  "may_become env r s = (same_fact r s \<and> (live s \<longrightarrow> live r) \<and> (record_ok env r \<longrightarrow> record_ok env s))"

definition extends :: "FactRecord list \<Rightarrow> FactRecord list \<Rightarrow> bool" where
  "extends rs ss = (\<exists>xs ys. ss = xs @ ys \<and> list_all2 same_fact rs xs)"

definition good_facts :: "fact_env \<Rightarrow> FactRecord list \<Rightarrow> FactRecord list \<Rightarrow> bool" where
  "good_facts env rs ss = (facts_ok env rs \<longrightarrow> facts_ok env ss \<and> extends rs ss)"

text \<open>Most changes do not make a fact active either.\<close>

definition becomes :: "fact_env \<Rightarrow> FactRecord \<Rightarrow> FactRecord \<Rightarrow> bool" where
  "becomes env r s = (may_become env r s \<and> (fr_status s = ''active'' \<longrightarrow> fr_status r = ''active''))"

lemma same_fact_refl [simp]: "same_fact r r" by (simp add: same_fact_def)
lemma same_fact_trans: "same_fact r s \<Longrightarrow> same_fact s t \<Longrightarrow> same_fact r t" by (simp add: same_fact_def)
lemma may_become_refl [simp]: "may_become env r r" by (simp add: may_become_def)
lemma may_become_trans: "may_become env r s \<Longrightarrow> may_become env s t \<Longrightarrow> may_become env r t"
  by (auto simp: may_become_def intro: same_fact_trans)

lemma becomes_refl [simp]: "becomes env r r" by (simp add: becomes_def)
lemma becomes_trans: "becomes env r s \<Longrightarrow> becomes env s t \<Longrightarrow> becomes env r t"
  by (auto simp: becomes_def intro: may_become_trans)

lemma becomes_may: "list_all2 (becomes env) rs ss \<Longrightarrow> list_all2 (may_become env) rs ss"
  by (erule list_all2_mono) (simp add: becomes_def)

lemma extends_refl [simp]: "extends rs rs"
  unfolding extends_def by (rule exI [of _ rs], rule exI [of _ "[]"]) (simp add: list_all2_same)

lemma extends_trans:
  assumes "extends rs ss" and "extends ss ts"
  shows "extends rs ts"
proof -
  from assms(1) obtain xs ys where 1: "ss = xs @ ys" "list_all2 same_fact rs xs" by (auto simp: extends_def)
  from assms(2) obtain us vs where 2: "ts = us @ vs" "list_all2 same_fact ss us" by (auto simp: extends_def)
  from 2(2) 1(1) obtain as bs where 3: "us = as @ bs" "list_all2 same_fact xs as"
    by (auto simp: list_all2_append1)
  from list_all2_trans [OF same_fact_trans 1(2) 3(2)] have "list_all2 same_fact rs as" .
  with 2(1) 3(1) show ?thesis by (auto simp: extends_def)
qed

lemma good_refl [simp]: "good_facts env rs rs" by (simp add: good_facts_def)

lemma good_trans: "good_facts env rs ss \<Longrightarrow> good_facts env ss ts \<Longrightarrow> good_facts env rs ts"
  by (auto simp: good_facts_def intro: extends_trans)

text \<open>Changes in place.\<close>

lemma live_keys_subset:
  "list_all2 (may_become env) rs ss \<Longrightarrow> fr_key ` (set (filter live ss)) \<subseteq> fr_key ` set (filter live rs)"
  by (induction rule: list_all2_induct) (auto simp: may_become_def same_fact_def)

lemma in_place_keys:
  "list_all2 (may_become env) rs ss \<Longrightarrow> distinct (map fr_key (filter live rs)) \<Longrightarrow> distinct (map fr_key (filter live ss))"
proof (induction rule: list_all2_induct)
  case Nil
  then show ?case by simp
next
  case (Cons r rs s ss)
  have "live s \<longrightarrow> live r" and k: "fr_key s = fr_key r" using Cons(1) by (simp_all add: may_become_def same_fact_def)
  moreover have "distinct (map fr_key (filter live ss))" using Cons(3,4) by (simp split: if_splits)
  moreover have "live r \<Longrightarrow> fr_key r \<notin> fr_key ` set (filter live ss)"
    using live_keys_subset [OF Cons(2)] Cons(4) by auto
  ultimately show ?case by auto
qed

lemma in_place_good:
  assumes "list_all2 (may_become env) rs ss"
  shows "good_facts env rs ss"
  unfolding good_facts_def
proof
  assume ok: "facts_ok env rs"
  have "map fr_id ss = map fr_id rs"
    using assms by (induction rule: list_all2_induct) (simp_all add: may_become_def same_fact_def)
  moreover have "list_all (record_ok env) ss"
    using assms ok by (auto simp: facts_ok_def list_all_length list_all2_conv_all_nth may_become_def)
  moreover have "list_all2 same_fact rs ss"
    using assms by (rule list_all2_mono) (simp add: may_become_def)
  then have "extends rs ss" by (auto simp: extends_def intro: exI [of _ ss])
  ultimately show "facts_ok env ss \<and> extends rs ss"
    using ok in_place_keys [OF assms] by (simp add: facts_ok_def)
qed

lemma update_good: "i < length rs \<Longrightarrow> may_become env (rs ! i) r \<Longrightarrow> good_facts env rs (rs[i := r])"
  by (rule in_place_good) (simp add: list_all2_conv_all_nth nth_list_update)

text \<open>Quiet changes, as lists.\<close>

definition quiet :: "fact_env \<Rightarrow> FactRecord list \<Rightarrow> FactRecord list \<Rightarrow> bool" where
  "quiet env rs ss = list_all2 (becomes env) rs ss"

lemma quiet_refl [simp]: "quiet env rs rs" by (simp add: quiet_def list_all2_same)

lemma quiet_trans: "quiet env rs ss \<Longrightarrow> quiet env ss ts \<Longrightarrow> quiet env rs ts"
  unfolding quiet_def by (rule list_all2_trans [OF becomes_trans])

lemma quiet_good: "quiet env rs ss \<Longrightarrow> good_facts env rs ss"
  unfolding quiet_def by (rule in_place_good [OF becomes_may])

lemma quiet_length: "quiet env rs ss \<Longrightarrow> length ss = length rs"
  by (simp add: quiet_def list_all2_lengthD)

lemma quiet_update: "i < length rs \<Longrightarrow> becomes env (rs ! i) r \<Longrightarrow> quiet env rs (rs[i := r])"
  by (simp add: quiet_def list_all2_conv_all_nth nth_list_update)

lemma quiet_map: "(\<And>r. becomes env r (f r)) \<Longrightarrow> quiet env rs (map f rs)"
  by (simp add: quiet_def list_all2_conv_all_nth)

lemma quiet_update_first: "(\<And>r. becomes env r (f r)) \<Longrightarrow> quiet env rs (update_first P f rs)"
  unfolding quiet_def by (induction rs) (simp_all add: list_all2_same)

text \<open>A new record.\<close>

definition unknown_key :: "string \<Rightarrow> FactRecord list \<Rightarrow> bool" where
  "unknown_key k rs = (\<forall>r \<in> set rs. live r \<longrightarrow> fr_key r \<noteq> k)"

lemma unknown_in_place: "list_all2 (may_become env) rs ss \<Longrightarrow> unknown_key k rs \<Longrightarrow> unknown_key k ss"
  unfolding unknown_key_def
proof (intro ballI impI)
  fix s assume b: "list_all2 (may_become env) rs ss" and u: "\<forall>r \<in> set rs. live r \<longrightarrow> fr_key r \<noteq> k"
    and s: "s \<in> set ss" "live s"
  from s have "s \<in> set (filter live ss)" by (simp only: set_filter mem_Collect_eq simp_thms)
  then have "fr_key s \<in> fr_key ` set (filter live rs)" by (rule subsetD [OF live_keys_subset [OF b] imageI])
  then obtain r where r: "fr_key s = fr_key r" "r \<in> set (filter live rs)" by (rule imageE)
  from r(2) u have "fr_key r \<noteq> k" by (simp only: set_filter mem_Collect_eq) blast
  with r(1) show "fr_key s \<noteq> k" by simp
qed

lemma extends_append [simp]: "extends rs (rs @ ys)"
  unfolding extends_def by (rule exI [of _ rs], rule exI [of _ ys]) (simp add: list_all2_same)

lemma append_fact_good:
  assumes "fr_id r \<notin> fr_id ` set rs" and "record_ok env r" and "unknown_key (fr_key r) rs"
  shows "good_facts env rs (rs @ [r])"
  using assms unfolding good_facts_def
  by (auto simp: facts_ok_def unknown_key_def)

section \<open>The operations on one record\<close>

lemma derive_range: "unit_range (derive_confidence env now lo start r)"
proof -
  have "normalize_confidence m \<le> 1" "0 \<le> normalize_confidence m" for m by (rule confidence_range)+
  moreover have "min (995 / 1000) x \<le> (1 :: rat)" for x by (rule min.coboundedI1) simp
  ultimately show ?thesis
    unfolding derive_confidence_def Let_def unit_range_def by (auto simp: le_max_iff_disj)
qed

lemma rederive_same [simp]:
  "fr_id (rederive env now clock r) = fr_id r" "fr_content (rederive env now clock r) = fr_content r"
  "fr_key (rederive env now clock r) = fr_key r" "fr_category (rederive env now clock r) = fr_category r"
  "fr_scope (rederive env now clock r) = fr_scope r" "fr_owner (rederive env now clock r) = fr_owner r"
  "fr_created (rederive env now clock r) = fr_created r" "fr_status (rederive env now clock r) = fr_status r"
  "fr_hash (rederive env now clock r) = fr_hash r"
  by (simp_all add: rederive_def)

lemma rederive_live [simp]: "live (rederive env now clock r) = live r"
  by (simp add: live_def)

lemma rederive_may: "may_become env r s \<Longrightarrow> may_become env r (rederive env now clock s)"
  using derive_range by (auto simp: rederive_def may_become_def same_fact_def record_ok_def live_def)

lemma rederive_becomes: "becomes env r s \<Longrightarrow> becomes env r (rederive env now clock s)"
  using derive_range by (auto simp: rederive_def becomes_def may_become_def same_fact_def record_ok_def live_def)

lemma contested_becomes: "becomes env r (contested_record env now clock r)"
  unfolding contested_record_def by (rule rederive_becomes) (simp add: becomes_def may_become_def same_fact_def record_ok_def live_def)

lemma contested_status [simp]: "fr_status (contested_record env now clock r) = fr_status r"
  by (simp add: contested_record_def)

lemma usage_range: "0 \<le> usage_decay_multiplier env now r"
  by (auto simp: usage_decay_multiplier_def Let_def max_def split: option.splits)

lemma decayed_range:
  assumes "decaying_powers env" and "unit_range (fr_confidence r)"
  shows "unit_range (decayed_confidence env now r)"
proof (cases "ff_confidence (fe_flags env)")
  case True
  let ?c = "derive_confidence env now None None r" and ?u = "usage_decay_multiplier env now r" and ?f = "fr_confidence r"
  have "unit_range ?c" by (rule derive_range)
  moreover have "unit_range (?f - (?f - ?c) * ?u)" if "?c < ?f" "?u < 1"
  proof -
    have "0 \<le> (?f - ?c) * ?u" using that usage_range by simp
    moreover have "(?f - ?c) * ?u \<le> ?f - ?c"
      using that usage_range [of env now r] by (intro mult_left_le) simp_all
    ultimately show ?thesis using assms(2) \<open>unit_range ?c\<close> by (auto simp: unit_range_def)
  qed
  ultimately show ?thesis using True by (simp add: decayed_confidence_def Let_def)
next
  case False
  have "0 \<le> of_int (max 0 (d - DECAY_START_DAYS)) * usage_decay_multiplier env now r" for d
    by (intro mult_nonneg_nonneg usage_range) simp
  then have p: "unit_range (fe_pow env CONFIDENCE_DECAY_FACTOR (of_int (max 0 (d - DECAY_START_DAYS)) * usage_decay_multiplier env now r))" for d
    using assms(1) by (simp only: decaying_powers_def)
  have "unit_range (max (normalize_confidence MIN_FACT_CONFIDENCE) (fr_confidence r * y))" if "unit_range y" for y
    using assms(2) that confidence_range [of MIN_FACT_CONFIDENCE] mult_le_one [of "fr_confidence r" y]
    by (auto simp: unit_range_def le_max_iff_disj)
  from this [OF p] show ?thesis using False assms(2)
    unfolding decayed_confidence_def Let_def by (simp only: if_False split: if_split) blast
qed

lemma decay_becomes: "decaying_powers env \<Longrightarrow> becomes env r (decay_record env now stamp r)"
  using decayed_range [of env r now] by (simp add: decay_record_def becomes_def may_become_def same_fact_def record_ok_def live_def)

lemma deprecated_becomes: "becomes env r (r\<lparr>fr_status := ''deprecated'', fr_updated := now\<rparr>)"
  by (simp add: becomes_def may_become_def same_fact_def record_ok_def live_def VALID_STATUSES_def)

lemma contradicted_becomes:
  "becomes env r (r\<lparr>fr_status := ''contradicted'', fr_consistency := ''contradicted'', fr_updated := now\<rparr>)"
  by (simp add: becomes_def may_become_def same_fact_def record_ok_def live_def VALID_STATUSES_def)

lemma set_confidence_becomes: "unit_range c \<Longrightarrow> becomes env r (r\<lparr>fr_confidence := c, fr_updated := now\<rparr>)"
  by (simp add: becomes_def may_become_def same_fact_def record_ok_def live_def)

lemma retrieved_becomes: "becomes env r (retrieved env now clock r)"
  unfolding retrieved_def Let_def
  by (rule rederive_becomes) (simp add: becomes_def may_become_def same_fact_def record_ok_def live_def)

lemma cursors_positive: "c \<in> set (normalize_source_cursors cs) \<Longrightarrow> 0 < c"
  by (simp add: normalize_source_cursors_def)

lemma merged_positive:
  "\<forall>c \<in> set cs. 0 < c \<Longrightarrow> \<forall>c \<in> set ds. 0 < c \<Longrightarrow> \<forall>c \<in> set (merge_source_cursors cs ds). (0 :: int) < c"
  by (auto simp: merge_source_cursors_def)

text \<open>An input in normal form.\<close>

definition input_ok :: "fact_input \<Rightarrow> bool" where
  "input_ok x = (fi_category x \<in> set CATEGORY_ORDER \<and> fi_owner x \<in> set VALID_OWNERS \<and> unit_range (fi_confidence x) \<and>
     (\<forall>c \<in> set (fi_cursors x). 0 < c) \<and> py_strip (fi_content x) \<noteq> [])"

lemma reinforced_may:
  assumes x: "input_ok x" and st: "\<forall>s. status = Some s \<longrightarrow> s \<in> set VALID_STATUSES" and l: "status \<noteq> None \<longrightarrow> live r"
  shows "may_become env r (reinforced env now clock x expires status confirm r)"
proof -
  define r1 where "r1 = r\<lparr>fr_updated := now, fr_seen := now, fr_supported := Some now,
            fr_cursors := merge_source_cursors (fr_cursors r) (fi_cursors x),
            fr_excerpt := str_or (fi_excerpt x) (fr_excerpt r),
            fr_base := max (fr_base r) (fi_confidence x), fr_support := fr_support r + 1,
            fr_expires := (if expires = None then fr_expires r else expires),
            fr_supersedes := (if fi_supersedes x = None then fr_supersedes r else fi_supersedes x),
            fr_status := (case status of Some s \<Rightarrow> s | None \<Rightarrow> fr_status r),
            fr_confirm := (case confirm of Some b \<Rightarrow> b | None \<Rightarrow> fr_confirm r)\<rparr>"
  have same: "same_fact r r1" by (simp add: r1_def same_fact_def)
  have lv: "live r1 \<longrightarrow> live r" using l by (cases status) (simp_all add: r1_def live_def)
  have ok: "record_ok env r1" if "record_ok env r"
    using that x st merged_positive [of "fr_cursors r" "fi_cursors x"]
    by (cases status) (auto simp: r1_def record_ok_def input_ok_def unit_range_def le_max_iff_disj)
  have b: "may_become env r r1" using same lv ok by (simp add: may_become_def)
  have "may_become env r (r1\<lparr>fr_confidence := max (fr_confidence r) (normalize_confidence (fi_confidence x))\<rparr>)"
    using b confidence_range [of "fi_confidence x"]
    by (auto simp: may_become_def same_fact_def live_def record_ok_def unit_range_def le_max_iff_disj)
  with rederive_may [OF b] show ?thesis by (simp add: reinforced_def Let_def r1_def)
qed

lemma reinforced_becomes: "input_ok x \<Longrightarrow> becomes env r (reinforced env now clock x expires None confirm r)"
  using reinforced_may [of x None r env now clock expires confirm]
  by (simp add: becomes_def reinforced_def Let_def)

end
