(* ===== verification/FactRun.thy ===== *)
theory FactRun
  imports FactLife
begin

text \<open>
  The operations of the store, one by one: what each does to the list of records, and which facts it can
  make active.
\<close>

section \<open>What leaves the records alone\<close>

lemma records_simps [simp]:
  "fs_records (append_fact_event env kind src before after why st) = fs_records st"
  "fs_records (record_pending_index r st) = fs_records st"
  "fs_records (upsert_relation env now source target k confidence org evidence st) = fs_records st"
  "fs_records (put_record i r st) = (fs_records st)[i := r]"
  "fs_records (add_record r st) = fs_records st @ [r]"
  by (simp_all add: append_fact_event_def record_pending_index_def upsert_relation_def put_record_def add_record_def)

lemma relation_item_records:
  "persist_relation_item env now ds dt org content dc new_id item st = Some st1 \<Longrightarrow> fs_records st1 = fs_records st"
  by (auto simp: persist_relation_item_def Let_def split: option.splits if_splits)

lemma relations_records:
  "persist_relations env now ds dt org content dc new_id items st = Some st1 \<Longrightarrow> fs_records st1 = fs_records st"
  by (induction items arbitrary: st) (auto split: option.splits dest: relation_item_records)

lemma explicit_relations_records:
  "persist_explicit_relations env now r items target org st = Some st1 \<Longrightarrow> fs_records st1 = fs_records st"
  by (auto simp: persist_explicit_relations_def persist_relation_candidates_def split: if_splits dest: relations_records)

section \<open>Activation\<close>

text \<open>Every active fact of \<open>ss\<close> was active in \<open>rs\<close>, or has a key with \<open>P\<close>.\<close>

definition activates :: "(string \<Rightarrow> bool) \<Rightarrow> FactRecord list \<Rightarrow> FactRecord list \<Rightarrow> bool" where
  "activates P rs ss = (\<forall>s \<in> set ss. fr_status s = ''active'' \<longrightarrow>
     (\<exists>r \<in> set rs. same_fact r s \<and> fr_status r = ''active'') \<or> P (fr_key s))"

lemma activates_refl [simp]: "activates P rs rs"
  unfolding activates_def by (blast intro: same_fact_refl)

lemma activates_trans:
  assumes "activates P rs ss" and "activates P ss ts"
  shows "activates P rs ts"
  unfolding activates_def
proof (intro ballI impI)
  fix t assume "t \<in> set ts" "fr_status t = ''active''"
  with assms(2) consider s where "s \<in> set ss" "same_fact s t" "fr_status s = ''active''" | "P (fr_key t)"
    unfolding activates_def by blast
  then show "(\<exists>r \<in> set rs. same_fact r t \<and> fr_status r = ''active'') \<or> P (fr_key t)"
  proof cases
    case 1
    with assms(1) consider r where "r \<in> set rs" "same_fact r s" "fr_status r = ''active''" | "P (fr_key s)"
      unfolding activates_def by blast
    then show ?thesis
    proof cases
      case 1
      then show ?thesis using same_fact_trans [OF _ \<open>same_fact s t\<close>] by blast
    next
      case 2
      then show ?thesis using \<open>same_fact s t\<close> by (simp add: same_fact_def)
    qed
  qed blast
qed

lemma activates_mono: "activates P rs ss \<Longrightarrow> (\<And>k. P k \<Longrightarrow> Q k) \<Longrightarrow> activates Q rs ss"
  unfolding activates_def by blast

lemma quiet_activates:
  assumes "quiet env rs ss"
  shows "activates P rs ss"
  unfolding activates_def
proof (intro ballI impI disjI1)
  fix s assume "s \<in> set ss" and a: "fr_status s = ''active''"
  then obtain i where i: "i < length ss" "ss ! i = s" by (auto simp: in_set_conv_nth)
  with assms have "becomes env (rs ! i) s" "i < length rs"
    by (auto simp: quiet_def list_all2_conv_all_nth)
  then show "\<exists>r \<in> set rs. same_fact r s \<and> fr_status r = ''active''"
    using a by (intro bexI [of _ "rs ! i"]) (simp_all add: becomes_def may_become_def)
qed

lemma append_activates: "(fr_status r = ''active'' \<Longrightarrow> P (fr_key r)) \<Longrightarrow> activates P rs (rs @ [r])"
  using activates_refl [of P rs] unfolding activates_def by (simp add: ball_Un)

lemma update_activates:
  assumes "i < length rs" and "same_fact (rs ! i) r" and "fr_status r = ''active'' \<Longrightarrow> P (fr_key r)"
  shows "activates P rs (rs[i := r])"
  unfolding activates_def
proof (intro ballI impI)
  fix s assume "s \<in> set (rs[i := r])" and a: "fr_status s = ''active''"
  then consider "s = r" | "s \<in> set rs" using set_update_subset_insert [of rs i r] by blast
  then show "(\<exists>r \<in> set rs. same_fact r s \<and> fr_status r = ''active'') \<or> P (fr_key s)"
    using a assms(3) by cases (simp, blast intro: same_fact_refl)
qed

text \<open>A change that is good and makes only facts with \<open>P\<close> active.\<close>

definition safe_change :: "fact_env \<Rightarrow> (string \<Rightarrow> bool) \<Rightarrow> FactRecord list \<Rightarrow> FactRecord list \<Rightarrow> bool" where
  "safe_change env P rs ss = (good_facts env rs ss \<and> activates P rs ss)"

lemma safe_refl [simp]: "safe_change env P rs rs" by (simp add: safe_change_def)

lemma safe_trans: "safe_change env P rs ss \<Longrightarrow> safe_change env P ss ts \<Longrightarrow> safe_change env P rs ts"
  by (auto simp: safe_change_def intro: good_trans activates_trans)

lemma safe_mono: "safe_change env P rs ss \<Longrightarrow> (\<And>k. P k \<Longrightarrow> Q k) \<Longrightarrow> safe_change env Q rs ss"
  unfolding safe_change_def by (blast intro: activates_mono)

lemma quiet_safe: "quiet env rs ss \<Longrightarrow> safe_change env P rs ss"
  by (simp add: safe_change_def quiet_good quiet_activates)

section \<open>Contested pairs and deprecation\<close>

lemma contested_pair_quiet:
  assumes "i < length (fs_records st)" and "j < length (fs_records st)" and "i \<noteq> j"
  shows "quiet env (fs_records st) (fs_records (mark_contested_pair env now clock i j why flip st))"
proof -
  let ?rs = "fs_records st"
  define a1 where "a1 = contested_record env now clock (?rs ! i)"
  define b1 where "b1 = contested_record env now clock (?rs ! j)"
  define a2 where "a2 = a1\<lparr>fr_status := ''contradicted'', fr_consistency := ''contradicted'', fr_updated := now\<rparr>"
  have 1: "quiet env ?rs (?rs[i := a1])" unfolding a1_def by (rule quiet_update [OF assms(1) contested_becomes])
  have "becomes env (?rs[i := a1] ! j) b1" using assms(3) contested_becomes by (simp add: b1_def)
  then have "quiet env (?rs[i := a1]) (?rs[i := a1, j := b1])" by (rule quiet_update [rotated]) (simp add: assms)
  with 1 have 2: "quiet env ?rs (?rs[i := a1, j := b1])" by (rule quiet_trans)
  have "becomes env (?rs[i := a1, j := b1] ! i) a2"
    using assms contradicted_becomes [of env a1 now] by (simp add: a2_def)
  then have "quiet env (?rs[i := a1, j := b1]) (?rs[i := a1, j := b1, i := a2])"
    by (rule quiet_update [rotated]) (simp add: assms)
  with 2 have 3: "quiet env ?rs (?rs[i := a1, j := b1, i := a2])" by (rule quiet_trans)
  have "fs_records (mark_contested_pair env now clock i j why flip st) =
      (if flip \<and> flips a1 b1 then ?rs[i := a1, j := b1, i := a2] else ?rs[i := a1, j := b1])"
    by (simp add: mark_contested_pair_def Let_def a1_def b1_def a2_def)
  with 2 3 show ?thesis by simp
qed

lemma deprecate_quiet: "quiet env (fs_records st) (fs_records (snd (deprecate_record now fact_id st)))"
  unfolding deprecate_record_def by (simp add: quiet_update_first deprecated_becomes)

lemma update_confidence_quiet:
  "quiet env (fs_records st) (fs_records (snd (update_confidence now fact_id confidence st)))"
proof -
  have "becomes env r (if fr_confidence r = normalize_confidence confidence then r
      else r\<lparr>fr_confidence := normalize_confidence confidence, fr_updated := now\<rparr>)" for r
    using confidence_range [of confidence] by (simp add: set_confidence_becomes unit_range_def)
  then show ?thesis by (simp add: update_confidence_def Let_def quiet_update_first)
qed

lemma decay_quiet:
  "decaying_powers env \<Longrightarrow> quiet env (fs_records st) (fs_records (snd (decay_confidence env now stamp st)))"
  by (simp add: decay_confidence_def quiet_map decay_becomes)

section \<open>Writing a fact\<close>

lemma position_of_max:
  assumes "first_max f (positions Q rs) = Some i"
  shows "i < length rs" and "Q (rs ! i)"
proof -
  have "first_max f xs = Some y \<Longrightarrow> y \<in> set xs" for xs y
    by (induction xs arbitrary: y) (auto split: option.splits if_splits)
  from this [OF assms] show "i < length rs" and "Q (rs ! i)" by (auto simp: positions_def)
qed

lemma known_positionD:
  assumes "known_position k rs = Some i"
  shows "i < length rs" and "fr_key (rs ! i) = k" and "live (rs ! i)"
  using assms by (auto simp: known_position_def find_Some_iff)

lemma known_position_none: "known_position k rs = None \<longleftrightarrow> unknown_key k rs"
  by (auto simp: known_position_def find_None_iff unknown_key_def all_set_conv_all_nth)

lemma resolved_valid:
  "resolve_status_and_confirmation c status confirm = Some (st, b) \<Longrightarrow> st \<in> set VALID_STATUSES"
  by (auto simp: resolve_status_and_confirmation_def normalize_fact_status_def Let_def VALID_STATUSES_def
      opt_or_def str_or_def split: option.splits if_splits)

lemma normalized_ok:
  assumes "normalized_input env x0 = Some (x, status, confirm)"
  shows "input_ok x" and "status \<in> set VALID_STATUSES"
proof -
  from assms obtain c w where e: "py_strip (fi_content x0) \<noteq> []" "normalize_category (fi_category x0) = Some c"
      "normalize_owner (fi_owner x0) = Some w"
      "resolve_status_and_confirmation c (fi_status x0) (fi_confirm x0) = Some (status, confirm)"
      "x = x0\<lparr>fi_content := py_strip (fi_content x0), fi_category := c,
                 fi_scope := normalize_scope (fi_scope x0), fi_owner := w,
                 fi_cursors := normalize_source_cursors (fi_cursors x0),
                 fi_excerpt := (if fi_excerpt x0 = [] then [] else fe_redact env (py_strip (fi_excerpt x0))),
                 fi_confidence := normalize_confidence (fi_confidence x0)\<rparr>"
    by (auto simp: normalized_input_def split: if_splits option.splits)
  show "status \<in> set VALID_STATUSES" by (rule resolved_valid [OF e(4)])
  have "c \<in> set CATEGORY_ORDER" "w \<in> set VALID_OWNERS"
    using e(2,3) by (auto simp: normalize_category_def normalize_owner_def Let_def split: if_splits)
  then show "input_ok x"
    using e(1) confidence_range cursors_positive by (simp add: e(5) input_ok_def unit_range_def)
qed

lemma fresh_record_same [simp]:
  "fr_id (fresh_record env now x expires status confirm cons contested rs) = new_fact_id env rs"
  "fr_key (fresh_record env now x expires status confirm cons contested rs) = input_key env x"
  "fr_status (fresh_record env now x expires status confirm cons contested rs) = status"
  by (simp_all add: fresh_record_def)

lemma fresh_record_ok:
  assumes "input_ok x" and "status \<in> set VALID_STATUSES"
  shows "record_ok env (rederive env now clock (fresh_record env now x expires status confirm cons contested rs))"
proof -
  let ?r = "fresh_record env now x expires status confirm cons contested rs"
  have "record_ok env ?r" using assms by (simp add: record_ok_def fresh_record_def input_ok_def input_key_def)
  moreover have "may_become env ?r (rederive env now clock ?r)" by (rule rederive_may) simp
  ultimately show ?thesis by (simp add: may_become_def)
qed

lemma add_fresh_safe:
  assumes "fresh_ids env" and "input_ok x" and "status \<in> set VALID_STATUSES" and "unknown_key (input_key env x) rs"
    and "status = ''active'' \<Longrightarrow> P (input_key env x)"
  shows "safe_change env P rs (rs @ [rederive env now clock (fresh_record env now x expires status confirm cons contested rs)])"
proof -
  have "new_fact_id env rs \<notin> fr_id ` set rs"
    using assms(1) by (simp add: new_fact_id_def fresh_ids_def flip: set_map)
  then show ?thesis unfolding safe_change_def
    using assms by (intro conjI append_fact_good append_activates) (simp_all add: fresh_record_ok)
qed

lemma reinforce_known_safe:
  assumes "i < length (fs_records st)" and "live (fs_records st ! i)" and "input_ok x"
    and s: "\<forall>s. status = Some s \<longrightarrow> s \<in> set VALID_STATUSES"
    and p: "status = Some ''active'' \<Longrightarrow> P (fr_key (fs_records st ! i))"
  shows "safe_change env P (fs_records st) (fs_records (reinforce_known env now clock x status confirm i st))"
proof -
  let ?r = "fs_records st ! i"
  let ?s = "reinforced env now clock x (fi_expires x) status confirm ?r"
  have m: "may_become env ?r ?s" using assms by (intro reinforced_may) simp_all
  have "safe_change env P (fs_records st) ((fs_records st)[i := ?s])"
  proof (cases status)
    case None
    then show ?thesis using assms(1,3) by (intro quiet_safe quiet_update) (simp_all add: reinforced_becomes)
  next
    case (Some w)
    have k: "same_fact ?r ?s" using m by (simp add: may_become_def)
    have "fr_status ?s = w" by (simp add: reinforced_def Let_def Some)
    then have "fr_status ?s = ''active'' \<Longrightarrow> P (fr_key ?s)"
      using p Some k by (simp add: same_fact_def)
    then show ?thesis unfolding safe_change_def using assms(1) m k
      by (intro conjI update_good update_activates) simp_all
  qed
  then show ?thesis by (simp add: reinforce_known_def Let_def)
qed

lemma merge_equivalent_quiet:
  "i < length (fs_records st) \<Longrightarrow> input_ok x \<Longrightarrow>
   quiet env (fs_records st) (fs_records (merge_equivalent env now clock x i sim st))"
  by (simp add: merge_equivalent_def Let_def quiet_update reinforced_becomes)

lemma challenge_safe:
  assumes "fresh_ids env" and "input_ok x" and "unknown_key (input_key env x) (fs_records st)"
    and "i < length (fs_records st)" and "challenge env now clock x i kind sim st = Some (j, st1)"
  shows "safe_change env P (fs_records st) (fs_records st1)"
proof -
  let ?rs = "fs_records st"
  define new where "new = rederive env now clock
    (fresh_record env now x None ''pending_confirmation'' True ''contested'' (Some now) ?rs)"
  define st1a where "st1a = mark_contested_pair env now clock i (length ?rs) (''semantic contradiction candidate ('' @ kind @ '')'')
            (ff_flip (fe_flags env) \<and> is_replacement (fi_change x)) (add_record new st)"
  have "safe_change env P ?rs (fs_records (add_record new st))"
    unfolding new_def records_simps using assms(1-3) by (intro add_fresh_safe) (simp_all add: VALID_STATUSES_def)
  moreover have "quiet env (fs_records (add_record new st)) (fs_records st1a)"
    unfolding st1a_def using assms(4) by (intro contested_pair_quiet) simp_all
  then have "safe_change env P (fs_records (add_record new st)) (fs_records st1a)" by (rule quiet_safe)
  ultimately have "safe_change env P ?rs (fs_records st1a)" by (rule safe_trans)
  moreover have "fs_records st1 = fs_records st1a"
    using assms(5) unfolding challenge_def Let_def new_def [symmetric] st1a_def [symmetric]
    by (auto split: if_splits dest: explicit_relations_records)
  ultimately show ?thesis by simp
qed

end
