(* ===== verification/FactBatch.thy ===== *)
theory FactBatch
  imports FactRun
begin

text \<open>
  Upserts and batches as a whole: every operation of the store is a safe change, so that the invariant
  holds in every reachable store, and a batch of the dream task activates only what its checks let
  through.
\<close>

section \<open>Upsert\<close>

lemma semantic_resolution_safe:
  assumes "fresh_ids env" and "input_ok x" and "unknown_key (input_key env x) (fs_records st)"
    and "semantic_resolution env now clock x st = Some (found, st1)"
  shows "safe_change env P (fs_records st) (fs_records st1)" and "found = None \<Longrightarrow> fs_records st1 = fs_records st"
proof -
  have c: "safe_change env P (fs_records st) (fs_records st1)"
    if "candidate_search x (fs_records st) = Some i" "challenge env now clock x i kind sim st' = Some (j, st1)"
      "fs_records st' = fs_records st" for i kind sim st' j
    using challenge_safe [of env x st' i now clock kind sim j st1 P] assms(1-3) that
      position_of_max(1) [OF that(1) [unfolded candidate_search_def]] by simp
  have m: "safe_change env P (fs_records st) (fs_records (merge_equivalent env now clock x i sim st))"
    if "candidate_search x (fs_records st) = Some i" for i sim
    using position_of_max(1) [OF that [unfolded candidate_search_def]] assms(2)
    by (intro quiet_safe merge_equivalent_quiet)
  show "safe_change env P (fs_records st) (fs_records st1)"
    using assms(4) unfolding semantic_resolution_def Let_def
    by (auto split: if_splits option.splits intro: m c)
  show "found = None \<Longrightarrow> fs_records st1 = fs_records st"
    using assms(4) unfolding semantic_resolution_def Let_def by (auto split: if_splits option.splits)
qed

lemma insert_fact_safe:
  assumes "fresh_ids env" and "input_ok x" and "status \<in> set VALID_STATUSES"
    and u: "unknown_key (input_key env x) (fs_records st)" and p: "status = ''active'' \<Longrightarrow> P (input_key env x)"
    and "insert_fact env now clock x status confirm st = Some (j, st')"
  shows "safe_change env P (fs_records st) (fs_records st')"
proof -
  define st1 where "st1 = (if truthy (fi_supersedes x) then snd (deprecate_record now (the (fi_supersedes x)) st) else st)"
  define new where "new = rederive env now clock
    (fresh_record env now x (fi_expires x) status confirm ''consistent'' None (fs_records st1))"
  have q: "quiet env (fs_records st) (fs_records st1)" by (simp add: st1_def deprecate_quiet)
  have "unknown_key (input_key env x) (fs_records st1)"
    by (rule unknown_in_place [OF becomes_may [OF q [unfolded quiet_def]] u])
  then have "safe_change env P (fs_records st1) (fs_records st1 @ [new])"
    unfolding new_def using assms(1-3) p by (intro add_fresh_safe)
  with quiet_safe [OF q] have s: "safe_change env P (fs_records st) (fs_records st1 @ [new])" by (rule safe_trans)
  define st2 where "st2 = add_record new st1"
  define st3 where "st3 = (if truthy (fi_supersedes x)
                 then upsert_relation env now (fr_id new) (the (fi_supersedes x)) ''supersedes'' (fi_confidence x)
                        (so_origin (fi_source x)) [(''content_hash'', JStr (fe_hash env (fi_content x)))] st2
                 else st2)"
  from assms(6) obtain st4 where
      f: "(if fi_relations x = [] then Some st3
           else persist_explicit_relations env now new (fi_relations x) (fi_target x) (so_origin (fi_source x)) st3) = Some st4"
    and e: "fs_records st' = fs_records (case conflicting_incumbent x (fs_records st) of
                  None \<Rightarrow> st4
                | Some i \<Rightarrow> mark_contested_pair env now clock i (length (fs_records st1))
                    (''change_kind='' @ opt_or (fi_change x) ''new'') (ff_flip (fe_flags env) \<and> is_replacement (fi_change x)) st4)"
    unfolding insert_fact_def Let_def st1_def [symmetric] new_def [symmetric] st2_def [symmetric] st3_def [symmetric]
    by (cases "if fi_relations x = [] then Some st3
        else persist_explicit_relations env now new (fi_relations x) (fi_target x) (so_origin (fi_source x)) st3") auto
  have r: "fs_records st4 = fs_records st1 @ [new]"
    using f by (auto simp: st3_def st2_def split: if_splits dest!: explicit_relations_records)
  have "quiet env (fs_records st4) (fs_records st')"
  proof (cases "conflicting_incumbent x (fs_records st)")
    case None
    then show ?thesis using e by simp
  next
    case (Some i)
    from position_of_max(1) [OF this [unfolded conflicting_incumbent_def]] have "i < length (fs_records st1)"
      using quiet_length [OF q] by simp
    then show ?thesis unfolding e Some option.case using r by (intro contested_pair_quiet) simp_all
  qed
  then have "safe_change env P (fs_records st4) (fs_records st')" by (rule quiet_safe)
  with s show ?thesis unfolding r by (rule safe_trans)
qed

text \<open>The key under which an input is filed, if its fact may become active.\<close>

definition activated_key :: "fact_env \<Rightarrow> fact_input \<Rightarrow> string \<Rightarrow> bool" where
  "activated_key env x0 k = (case normalized_input env x0 of
       Some (x, status, confirm) \<Rightarrow> status = ''active'' \<and> k = input_key env x | None \<Rightarrow> False)"

lemma upsert_fact_safe:
  assumes "fresh_ids env" and "upsert_fact env now clock x0 st = Some (i, st')"
  shows "safe_change env (activated_key env x0) (fs_records st) (fs_records st')"
proof -
  from assms(2) obtain x status confirm where n: "normalized_input env x0 = Some (x, status, confirm)"
    by (auto simp: upsert_fact_def split: option.splits)
  note ok = normalized_ok [OF n]
  have a: "activated_key env x0 (input_key env x)" if "status = ''active''"
    using that by (simp add: activated_key_def n)
  show ?thesis
  proof (cases "known_position (input_key env x) (fs_records st)")
    case (Some l)
    note k = known_positionD [OF Some]
    have "st' = reinforce_known env now clock x (if fi_status x = None then None else Some status)
               (if fi_confirm x = None then None else Some confirm) l st"
      using assms(2) unfolding upsert_fact_def n Some option.case prod.case option.inject prod.inject by (elim conjE) (rule sym)
    then show ?thesis using k ok a by (auto intro!: reinforce_known_safe)
  next
    case None
    then have u: "unknown_key (input_key env x) (fs_records st)" by (simp add: known_position_none)
    from assms(2) obtain found st1 where r: "semantic_resolution env now clock x st = Some (found, st1)"
      and c: "(case found of Some l \<Rightarrow> Some (l, st1) | None \<Rightarrow> insert_fact env now clock x status confirm st1) = Some (i, st')"
      by (auto simp: upsert_fact_def n None split: option.splits)
    note s = semantic_resolution_safe [OF assms(1) ok(1) u r]
    show ?thesis
    proof (cases found)
      case (Some l)
      then show ?thesis using c s(1) by simp
    next
      case None
      with c have "insert_fact env now clock x status confirm st1 = Some (i, st')" by simp
      moreover have e: "fs_records st1 = fs_records st" by (rule s(2) [OF None])
      ultimately show ?thesis
        using insert_fact_safe [of env x status st1 "activated_key env x0" now clock confirm i st'] assms(1) ok u a
        by simp
    qed
  qed
qed

section \<open>A batch of the dream task\<close>

text \<open>The checks that a proposal passes before its fact may become active.\<close>

definition cleared_proposal :: "fact_env \<Rightarrow> json_obj list \<Rightarrow> int \<Rightarrow> int \<Rightarrow> FactProposal \<Rightarrow> bool" where
  "cleared_proposal env hs lo hi p = (fp_cursors p \<noteq> [] \<and> \<not> outside_batch hs lo hi (fp_cursors p) \<and> source_excerpt_matches p hs \<and>
     (\<exists>c. normalize_category (fp_category p) = Some c \<and> c \<notin> set HIGH_RISK_CATEGORIES \<and> \<not> high_risk (fe_domains env) c p))"

definition filed_key :: "fact_env \<Rightarrow> FactProposal \<Rightarrow> string" where
  "filed_key env p = canonical_key_for_fact (fe_hash env) (py_strip (fp_content p))
     (the (normalize_owner (fp_owner p))) (the (normalize_category (fp_category p))) (normalize_scope (fp_scope p))"

lemma dream_decision_active:
  assumes "dream_decision env p v budget rs = (''active'', issues)"
  shows "vr_decision v = ''active''"
  using assms by (auto simp: dream_decision_def split: if_splits)

lemma dream_input_key:
  assumes "normalized_input env (dream_input batch p conf decision) = Some (x, status, confirm)"
  shows "input_key env x = filed_key env p" and "status = ''active'' \<Longrightarrow> decision = ''active''"
proof -
  from assms obtain c where n: "input_key env x = filed_key env p" "normalize_category (fp_category p) = Some c"
      "resolve_status_and_confirmation c (Some (if decision = ''active'' then ''active'' else ''pending_confirmation''))
         (Some (decision \<noteq> ''active'')) = Some (status, confirm)"
    by (auto simp: normalized_input_def dream_input_def input_key_def filed_key_def split: option.splits if_splits)
  have "normalize_fact_status ''pending_confirmation'' = Some ''pending_confirmation''" by code_simp
  with n(3) show "status = ''active'' \<Longrightarrow> decision = ''active''"
    by (auto simp: resolve_status_and_confirmation_def opt_or_def str_or_def split: if_splits)
  show "input_key env x = filed_key env p" by (rule n(1))
qed

lemma dream_activated_key:
  assumes k: "activated_key env (dream_input batch p conf decision) k"
    and d: "dream_decision env p (validate_fact_proposal (fe_domains env) p rs hs lo hi) budget rs = (decision, issues)"
  shows "decision = ''active'' \<and> cleared_proposal env hs lo hi p \<and> k = filed_key env p"
proof -
  let ?v = "validate_fact_proposal (fe_domains env) p rs hs lo hi"
  from k obtain x confirm where n: "normalized_input env (dream_input batch p conf decision) = Some (x, ''active'', confirm)"
      "k = input_key env x"
    by (auto simp: activated_key_def split: option.splits)
  have a: "decision = ''active''" by (rule dream_input_key(2) [OF n(1)]) simp
  then have va: "vr_decision ?v = ''active''" using d dream_decision_active by blast
  obtain c' where "normalize_category (fp_category p) = Some c'" "\<not> high_risk (fe_domains env) c' p"
    using proposal_activated [OF va] by metis
  moreover have "vr_decision ?v \<noteq> ''reject''" using va by simp
  note proposal_accepted [OF this]
  ultimately have "cleared_proposal env hs lo hi p" by (simp add: cleared_proposal_def high_risk_def)
  with a n dream_input_key(1) [OF n(1)] show ?thesis by simp
qed

text \<open>The key of a cleared proposal of the batch.\<close>

definition cleared_key :: "fact_env \<Rightarrow> json_obj list \<Rightarrow> int \<Rightarrow> int \<Rightarrow> FactProposal list \<Rightarrow> string \<Rightarrow> bool" where
  "cleared_key env hs lo hi ps k = list_ex (\<lambda>p. cleared_proposal env hs lo hi p \<and> k = filed_key env p) ps"

lemma apply_proposal_safe:
  assumes "fresh_ids env" and "apply_proposal env now clock batch hs lo hi p d = Some d1"
  shows "safe_change env (cleared_key env hs lo hi [p]) (fs_records (dm_store d)) (fs_records (dm_store d1))"
proof -
  let ?v = "validate_fact_proposal (fe_domains env) p (fs_records (dm_store d)) hs lo hi"
  obtain decision issues where dd: "dream_decision env p ?v (dm_budget d) (fs_records (dm_store d)) = (decision, issues)"
    by (rule prod.exhaust)
  show ?thesis
  proof (cases "decision = ''reject''")
    case True
    then show ?thesis using assms(2) by (auto simp: apply_proposal_def Let_def dd)
  next
    case False
    then obtain i st where u: "upsert_fact env now clock (dream_input batch p (vr_confidence ?v) decision) (dm_store d) = Some (i, st)"
      and e: "dm_store d1 = st"
      using assms(2) by (auto simp: apply_proposal_def Let_def dd split: option.splits if_splits)
    have "cleared_key env hs lo hi [p] k" if "activated_key env (dream_input batch p (vr_confidence ?v) decision) k" for k
      using dream_activated_key [OF that dd] by (simp add: cleared_key_def)
    with upsert_fact_safe [OF assms(1) u] show ?thesis unfolding e by (rule safe_mono)
  qed
qed

lemma apply_proposals_safe:
  "fresh_ids env \<Longrightarrow> apply_proposals env now clock batch hs lo hi ps d = Some d1 \<Longrightarrow>
   safe_change env (cleared_key env hs lo hi ps) (fs_records (dm_store d)) (fs_records (dm_store d1))"
proof (induction ps arbitrary: d)
  case Nil
  then show ?case by simp
next
  case (Cons p ps)
  then obtain d2 where 1: "apply_proposal env now clock batch hs lo hi p d = Some d2"
    and 2: "apply_proposals env now clock batch hs lo hi ps d2 = Some d1" by (auto split: option.splits)
  have "safe_change env (cleared_key env hs lo hi (p # ps)) (fs_records (dm_store d)) (fs_records (dm_store d2))"
    by (rule safe_mono [OF apply_proposal_safe [OF Cons.prems(1) 1]]) (simp add: cleared_key_def)
  moreover have "safe_change env (cleared_key env hs lo hi (p # ps)) (fs_records (dm_store d2)) (fs_records (dm_store d1))"
    by (rule safe_mono [OF Cons.IH [OF Cons.prems(1) 2]]) (simp add: cleared_key_def)
  ultimately show ?case by (rule safe_trans)
qed

lemma apply_deprecation_quiet:
  "quiet env (fs_records (dm_store d)) (fs_records (dm_store (apply_deprecation env now batch hs lo hi d p)))"
  using deprecate_quiet [of env "dm_store d" now "dp_id p"]
  by (cases "deprecate_record now (dp_id p) (dm_store d)") (auto simp: apply_deprecation_def Let_def split: option.split)

lemma apply_deprecations_quiet:
  "quiet env (fs_records (dm_store d)) (fs_records (dm_store (foldl (apply_deprecation env now batch hs lo hi) d ps)))"
proof (induction ps arbitrary: d)
  case (Cons p ps)
  show ?case unfolding foldl_Cons by (rule quiet_trans [OF apply_deprecation_quiet Cons.IH])
qed simp

lemma calibrated_proposals:
  "calibrated env table ps = Some qs \<Longrightarrow> q \<in> set qs \<Longrightarrow> \<exists>p \<in> set ps. \<exists>c. q = p\<lparr>fp_confidence := c\<rparr>"
  by (induction ps arbitrary: qs) (auto split: option.splits)

lemma cleared_confidence [simp]: "cleared_proposal env hs lo hi (p\<lparr>fp_confidence := c\<rparr>) = cleared_proposal env hs lo hi p"
  by (simp add: cleared_proposal_def high_risk_def combined_text_def source_excerpt_matches_def)

lemma filed_confidence [simp]: "filed_key env (p\<lparr>fp_confidence := c\<rparr>) = filed_key env p"
  by (simp add: filed_key_def)

lemma apply_batch_safe:
  assumes "fresh_ids env" and "apply_fact_proposals env now clock batch table b hs st = BatchApplied d"
  shows "safe_change env (cleared_key env hs (Min (set (history_cursors hs))) (Max (set (history_cursors hs))) (db_upserts b))
    (fs_records st) (fs_records (dm_store d))"
proof -
  let ?lo = "Min (set (history_cursors hs))" and ?hi = "Max (set (history_cursors hs))"
  from assms(2) obtain ps d1 where c: "calibrated env table (db_upserts b) = Some ps"
    and a: "apply_proposals env now clock batch hs ?lo ?hi (sort_key (\<lambda>p. - fp_confidence p) ps) (start_dream st) = Some d1"
    and e: "d = foldl (apply_deprecation env now batch hs ?lo ?hi) d1 (db_deprecations b)"
    by (auto simp: apply_fact_proposals_def Let_def split: if_splits option.splits)
  have "cleared_key env hs ?lo ?hi (db_upserts b) k"
    if "cleared_key env hs ?lo ?hi (sort_key (\<lambda>p. - fp_confidence p) ps) k" for k
    using that calibrated_proposals [OF c] by (fastforce simp: cleared_key_def list_ex_iff)
  with apply_proposals_safe [OF assms(1) a]
  have "safe_change env (cleared_key env hs ?lo ?hi (db_upserts b)) (fs_records (dm_store (start_dream st))) (fs_records (dm_store d1))"
    by (rule safe_mono)
  then have "safe_change env (cleared_key env hs ?lo ?hi (db_upserts b)) (fs_records st) (fs_records (dm_store d1))"
    by (simp add: start_dream_def)
  moreover have "quiet env (fs_records (dm_store d1)) (fs_records (dm_store d))"
    unfolding e by (rule apply_deprecations_quiet)
  then have "safe_change env (cleared_key env hs ?lo ?hi (db_upserts b)) (fs_records (dm_store d1)) (fs_records (dm_store d))"
    by (rule quiet_safe)
  ultimately show ?thesis by (rule safe_trans)
qed

end
