(* ===== verification/FactKeys.thy ===== *)
theory FactKeys
  imports FactBatch
begin

text \<open>
  The key under which a proposal of the dream task is filed, and the key that the check on active twins
  computes for it.
\<close>

text \<open>
  The check on active twins computes the key of a proposal as it is written; the fact is filed under the key of
  its normal form. When the first is the key of a stored fact, whose parts are in normal form, the two are the
  same, provided that the hash is injective and that no scope contains the character NUL, which separates the parts.
\<close>

definition plain_scope :: "string \<Rightarrow> bool" where
  "plain_scope s = (normalize_scope s = s \<and> CHR 0x00 \<notin> set s)"

definition plain_key :: "fact_env \<Rightarrow> string \<Rightarrow> bool" where
  "plain_key env k = (\<exists>content owner category scope. k = canonical_key_for_fact (fe_hash env) content owner category scope \<and>
     owner \<in> set VALID_OWNERS \<and> category \<in> set CATEGORY_ORDER \<and> plain_scope scope)"

definition plain_keys :: "fact_env \<Rightarrow> FactRecord list \<Rightarrow> bool" where
  "plain_keys env rs = (\<forall>r \<in> set rs. fr_status r = ''active'' \<longrightarrow> plain_key env (fr_key r))"

lemma ascii_lower_space [simp]: "py_space (ascii_lower c) = py_space c"
  by (simp add: py_space_def ascii_lower_def of_char_of)

lemma ascii_lower_nul [simp]: "ascii_lower c = CHR 0x00 \<longleftrightarrow> c = CHR 0x00"
proof
  assume "ascii_lower c = CHR 0x00"
  then have "of_char (ascii_lower c) = (0 :: nat)" by simp
  then have "of_char c = (0 :: nat)" by (simp add: ascii_lower_def of_char_of split: if_splits)
  then have "char_of (of_char c :: nat) = (char_of (0 :: nat) :: char)" by simp
  moreover have "(char_of (0 :: nat) :: char) = CHR 0x00" by code_simp
  ultimately show "c = CHR 0x00" by simp
qed (simp add: ascii_lower_def)

lemma dropWhile_none: "\<forall>c \<in> set s. \<not> P c \<Longrightarrow> dropWhile P s = s"
  by (cases s) auto

lemma no_space_strip: "list_all (\<lambda>c. \<not> py_space c) s \<Longrightarrow> py_strip s = s"
proof -
  assume "list_all (\<lambda>c. \<not> py_space c) s"
  then have "\<forall>c \<in> set s. \<not> py_space c" by (simp add: list_all_iff)
  then have "dropWhile py_space s = s" "dropWhile py_space (rev s) = rev s"
    by (simp_all add: dropWhile_none)
  then show "py_strip s = s" by (simp add: py_strip_def)
qed

lemma sub_no_space: "list_all (\<lambda>c. \<not> py_space c) s \<Longrightarrow> sub_spaces r s = s"
  by (induction s) auto

lemma sub_spaces_plain: "list_all (\<lambda>c. \<not> py_space c) r \<Longrightarrow> list_all (\<lambda>c. \<not> py_space c) (sub_spaces r s)"
  by (induction r s rule: sub_spaces.induct) auto

lemma plain_scopeD:
  assumes "plain_scope s"
  shows "s \<noteq> []" "list_all (\<lambda>c. \<not> py_space c) s" "py_lower (py_strip s) = s" "sub_spaces ''.'' s = s"
proof -
  have dot: "list_all (\<lambda>c. \<not> py_space c) ''.''" by code_simp
  have n: "normalize_scope s = s" using assms by (simp add: plain_scope_def)
  then show s: "list_all (\<lambda>c. \<not> py_space c) s"
    using sub_spaces_plain [OF dot] unfolding normalize_scope_def by metis
  show ne: "s \<noteq> []"
  proof
    assume "s = []"
    moreover have "normalize_scope [] \<noteq> []" by code_simp
    ultimately show False using n by simp
  qed
  have l: "list_all (\<lambda>c. \<not> py_space c) (py_lower s)" using s by (simp add: py_lower_def list_all_iff)
  have "py_lower s \<noteq> []" using ne by (simp add: py_lower_def)
  then have "normalize_scope s = sub_spaces ''.'' (py_lower s)"
    using ne by (simp add: normalize_scope_def str_or_def no_space_strip [OF s])
  then show "py_lower (py_strip s) = s" using n sub_no_space [OF l] no_space_strip [OF s] by simp
  show "sub_spaces ''.'' s = s" by (rule sub_no_space [OF s])
qed

lemma set_strip_lower: "CHR 0x00 \<notin> set s \<Longrightarrow> CHR 0x00 \<notin> set (py_lower (py_strip s))"
proof -
  have "set (py_strip s) \<subseteq> set s" unfolding py_strip_def set_rev by (metis set_dropWhileD set_rev subsetI)
  moreover assume "CHR 0x00 \<notin> set s"
  ultimately have "CHR 0x00 \<notin> set (py_strip s)" by blast
  then show ?thesis by (metis (no_types, lifting) ascii_lower_nul imageE list.set_map py_lower_def)
qed

lemma last_part: "xs @ c # ys = us @ c # vs \<Longrightarrow> c \<notin> set ys \<Longrightarrow> c \<notin> set vs \<Longrightarrow> xs = us \<and> ys = vs"
proof -
  assume e: "xs @ c # ys = us @ c # vs" and "c \<notin> set ys" "c \<notin> set vs"
  moreover have "takeWhile (\<lambda>x. x \<noteq> c) (rev zs @ c # rev ws) = rev zs" if "c \<notin> set zs" for zs ws
    using that by (subst takeWhile_append2) auto
  ultimately have "takeWhile (\<lambda>x. x \<noteq> c) (rev ys @ c # rev xs) = rev ys" "takeWhile (\<lambda>x. x \<noteq> c) (rev vs @ c # rev us) = rev vs"
    by blast+
  moreover have "rev ys @ c # rev xs = rev vs @ c # rev us" using arg_cong [OF e, of rev] by simp
  ultimately have "ys = vs" by simp
  with e show ?thesis by simp
qed

lemma canonical_text_parts:
  assumes e: "canonical_text c w k s = canonical_text c' w' k' s'"
    and n: "CHR 0x00 \<notin> set (py_lower (py_strip w))" "CHR 0x00 \<notin> set (py_lower (py_strip w'))"
      "CHR 0x00 \<notin> set (py_lower (py_strip k))" "CHR 0x00 \<notin> set (py_lower (py_strip k'))"
      "CHR 0x00 \<notin> set (py_lower (py_strip s))" "CHR 0x00 \<notin> set (py_lower (py_strip s'))"
  shows "normalize_fact_content c = normalize_fact_content c' \<and> py_lower (py_strip w) = py_lower (py_strip w') \<and>
    py_lower (py_strip k) = py_lower (py_strip k') \<and> py_lower (py_strip s) = py_lower (py_strip s')"
proof -
  let ?C = "normalize_fact_content c" and ?C' = "normalize_fact_content c'"
  let ?W = "py_lower (py_strip w)" and ?W' = "py_lower (py_strip w')"
  let ?K = "py_lower (py_strip k)" and ?K' = "py_lower (py_strip k')"
  let ?S = "py_lower (py_strip s)" and ?S' = "py_lower (py_strip s')"
  have "(?C @ CHR 0x00 # ?W @ CHR 0x00 # ?K) @ CHR 0x00 # ?S = (?C' @ CHR 0x00 # ?W' @ CHR 0x00 # ?K') @ CHR 0x00 # ?S'"
    using e by (simp add: canonical_text_def)
  from last_part [OF this n(5,6)] have 1: "(?C @ CHR 0x00 # ?W) @ CHR 0x00 # ?K = (?C' @ CHR 0x00 # ?W') @ CHR 0x00 # ?K'" "?S = ?S'" by simp_all
  from last_part [OF 1(1) n(3,4)] have 2: "?C @ CHR 0x00 # ?W = ?C' @ CHR 0x00 # ?W'" "?K = ?K'" by simp_all
  from last_part [OF 2(1) n(1,2)] 1(2) 2(2) show ?thesis by simp
qed

lemma valid_names:
  "w \<in> set VALID_OWNERS \<Longrightarrow> py_lower (py_strip w) = w \<and> CHR 0x00 \<notin> set w \<and> w \<noteq> []"
  "k \<in> set CATEGORY_ORDER \<Longrightarrow> py_lower (py_strip k) = k \<and> CHR 0x00 \<notin> set k \<and> k \<noteq> []"
proof -
  have "list_all (\<lambda>w. py_lower (py_strip w) = w \<and> CHR 0x00 \<notin> set w \<and> w \<noteq> []) VALID_OWNERS" by code_simp
  then show "w \<in> set VALID_OWNERS \<Longrightarrow> py_lower (py_strip w) = w \<and> CHR 0x00 \<notin> set w \<and> w \<noteq> []" unfolding list_all_iff by blast
  have "list_all (\<lambda>k. py_lower (py_strip k) = k \<and> CHR 0x00 \<notin> set k \<and> k \<noteq> []) CATEGORY_ORDER" by code_simp
  then show "k \<in> set CATEGORY_ORDER \<Longrightarrow> py_lower (py_strip k) = k \<and> CHR 0x00 \<notin> set k \<and> k \<noteq> []" unfolding list_all_iff by blast
qed

lemma written_owner: "normalize_owner w = Some v \<Longrightarrow> CHR 0x00 \<notin> set (py_lower (py_strip w)) \<and> (w \<noteq> [] \<longrightarrow> py_lower (py_strip w) = v)"
  using valid_names(1) [of v] by (auto simp: normalize_owner_def Let_def str_or_def split: if_splits)

lemma written_category: "normalize_category k = Some c \<Longrightarrow> CHR 0x00 \<notin> set (py_lower (py_strip k)) \<and> (k \<noteq> [] \<longrightarrow> py_lower (py_strip k) = c)"
  using valid_names(2) [of c] by (auto simp: normalize_category_def Let_def str_or_def split: if_splits)

lemma lower_fixed: "py_lower x = x \<longleftrightarrow> (\<forall>c \<in> set x. ascii_lower c = c)"
  by (induction x) (auto simp: py_lower_def)

lemma sub_spaces_set: "set (sub_spaces ''.'' x) \<subseteq> insert CHR ''.'' (set x)"
  by (induction "''.''" x rule: sub_spaces.induct) (auto dest: set_dropWhileD)

lemma normal_scope_plain:
  assumes "CHR 0x00 \<notin> set s"
  shows "plain_scope (normalize_scope s)"
proof -
  have dot: "list_all (\<lambda>c. \<not> py_space c) ''.''" by code_simp
  let ?t = "py_lower (py_strip (str_or s ''general''))"
  let ?u = "str_or ?t ''general''"
  have u: "normalize_scope s = sub_spaces ''.'' ?u" by (simp add: normalize_scope_def)
  have lower_idem: "py_lower (py_lower x) = py_lower x" for x
    by (auto simp: py_lower_def ascii_lower_def of_char_of)
  have low: "py_lower ?u = ?u"
    by (cases "?t = []") (simp_all add: str_or_def lower_idem, code_simp)
  have "\<forall>c \<in> set (sub_spaces ''.'' ?u). ascii_lower c = c"
  proof
    fix c assume "c \<in> set (sub_spaces ''.'' ?u)"
    then have "c = CHR ''.'' \<or> c \<in> set ?u" using sub_spaces_set [of ?u] by blast
    moreover have "ascii_lower CHR ''.'' = CHR ''.''" by code_simp
    ultimately show "ascii_lower c = c" using low unfolding lower_fixed by blast
  qed
  then have l: "py_lower (normalize_scope s) = normalize_scope s" unfolding u lower_fixed .
  have n: "list_all (\<lambda>c. \<not> py_space c) (normalize_scope s)" unfolding u by (rule sub_spaces_plain [OF dot])
  have ne: "normalize_scope s \<noteq> []"
  proof -
    have "?u \<noteq> []" by (simp add: str_or_def)
    then show ?thesis unfolding u by (cases ?u) auto
  qed
  have "normalize_scope (normalize_scope s) = normalize_scope s"
    unfolding normalize_scope_def [of "normalize_scope s"] using ne l no_space_strip [OF n] sub_no_space [OF n] by (simp add: str_or_def)
  moreover have "CHR 0x00 \<notin> set (normalize_scope s)"
  proof -
    have "CHR 0x00 \<notin> set (py_lower (py_strip ''general''))" by code_simp
    then have "CHR 0x00 \<notin> set ?u" using set_strip_lower [OF assms] by (auto simp: str_or_def)
    then show ?thesis using sub_spaces_set [of ?u] unfolding u by auto
  qed
  ultimately show ?thesis by (simp add: plain_scope_def)
qed

lemma filed_plain:
  assumes "normalize_owner (fp_owner p) = Some w" "normalize_category (fp_category p) = Some c" "CHR 0x00 \<notin> set (fp_scope p)"
  shows "plain_key env (filed_key env p)"
proof -
  have "w \<in> set VALID_OWNERS" "c \<in> set CATEGORY_ORDER"
    using assms(1,2) by (auto simp: normalize_owner_def normalize_category_def Let_def split: if_splits)
  with assms normal_scope_plain [OF assms(3)] show ?thesis unfolding plain_key_def filed_key_def by auto
qed

lemma twin_key:
  assumes inj: "inj (fe_hash env)" and k: "plain_key env k"
    and p: "normalize_owner (fp_owner p) = Some w" "normalize_category (fp_category p) = Some c" "CHR 0x00 \<notin> set (fp_scope p)"
    and e: "k = canonical_key_for_fact (fe_hash env) (fp_content p) (fp_owner p) (fp_category p) (fp_scope p)"
  shows "k = filed_key env p"
proof -
  from k obtain c1 w1 k1 s1 where k1: "k = canonical_key_for_fact (fe_hash env) c1 w1 k1 s1"
    and v: "w1 \<in> set VALID_OWNERS" "k1 \<in> set CATEGORY_ORDER" "plain_scope s1" unfolding plain_key_def by blast
  note w1 = valid_names(1) [OF v(1)] and k1' = valid_names(2) [OF v(2)] and s1 = plain_scopeD [OF v(3)]
  have t: "canonical_text c1 w1 k1 s1 = canonical_text (fp_content p) (fp_owner p) (fp_category p) (fp_scope p)"
    using e k1 inj by (simp add: canonical_key_for_fact_def inj_eq)
  have "CHR 0x00 \<notin> set s1" using v(3) by (simp add: plain_scope_def)
  with canonical_text_parts [OF t] w1 k1' s1(3) written_owner [OF p(1)] written_category [OF p(2)] set_strip_lower [OF p(3)]
  have parts: "normalize_fact_content c1 = normalize_fact_content (fp_content p)" "w1 = py_lower (py_strip (fp_owner p))"
    "k1 = py_lower (py_strip (fp_category p))" "s1 = py_lower (py_strip (fp_scope p))" by simp_all
  have ne: "fp_owner p \<noteq> []" "fp_category p \<noteq> []" "fp_scope p \<noteq> []" using parts w1 k1' s1(1) by auto
  have "w = w1" "c = k1" using parts ne written_owner [OF p(1)] written_category [OF p(2)] by simp_all
  moreover have "normalize_scope (fp_scope p) = s1"
    using ne(3) parts(4) s1(1,4) by (simp add: normalize_scope_def str_or_def)
  moreover have "normalize_fact_content (py_strip (fp_content p)) = normalize_fact_content (fp_content p)"
    by (simp add: normalize_fact_content_def)
  ultimately show ?thesis using parts(1) p w1 k1' s1(3)
    by (simp add: k1 filed_key_def canonical_key_for_fact_def canonical_text_def)
qed

end
