(* ===== verification/FactSafety.thy ===== *)
theory FactSafety
  imports FactKeys
begin

text \<open>
  The long-term memory over time: the steps of the store, its invariant, and what the dream task can
  activate.
\<close>

section \<open>The other operations\<close>

lemma fold_update_quiet:
  "(\<And>r. becomes env r (f r)) \<Longrightarrow> quiet env rs (fold (\<lambda>i rs. rs[i := f (rs ! i)]) is rs)"
proof (induction "is" arbitrary: rs)
  case (Cons i js)
  have "quiet env rs (rs[i := f (rs ! i)])"
    by (cases "i < length rs") (simp_all add: quiet_update Cons.prems list_update_beyond)
  then show ?case using Cons.IH [OF Cons.prems] by (simp add: quiet_trans)
qed simp

lemma retrieve_quiet:
  assumes "retrieve_context_bundle env now clock category prefx pending top_k st = Some (hits, st')"
  shows "quiet env (fs_records st) (fs_records st')"
  using assms fold_update_quiet [of env "retrieved env now clock", OF retrieved_becomes]
  by (auto simp: retrieve_context_bundle_def Let_def split: option.splits if_splits)

lemma scale_confidence_quiet:
  "quiet env (fs_records st) (fs_records (snd (scale_confidence now k m status st)))"
  by (auto simp: scale_confidence_def Let_def update_confidence_quiet split: option.split)

section \<open>Steps\<close>

text \<open>One call of the store, or of one of its clients. A call that raises before it writes changes nothing.\<close>

inductive fact_step :: "fact_env \<Rightarrow> fact_store \<Rightarrow> fact_store \<Rightarrow> bool" for env where
  upsert: "upsert_fact env now clock x st = Some (i, st') \<Longrightarrow> fact_step env st st'"
| deprecate: "fact_step env st (snd (deprecate_record now fact_id st))"
| confidence: "fact_step env st (snd (update_confidence now fact_id c st))"
| scaled: "fact_step env st (snd (scale_confidence now k m status st))"
| decay: "fact_step env st (snd (decay_confidence env clock now st))"
| retrieve: "retrieve_context_bundle env now clock category prefx pending top_k st = Some (hits, st') \<Longrightarrow> fact_step env st st'"
| dream: "apply_fact_proposals env now clock batch table b hs st = BatchApplied d \<Longrightarrow> fact_step env st (dm_store d)"
| relate: "persist_relation_candidates env now ds dt org content dc new_id items st = Some st' \<Longrightarrow> fact_step env st st'"

definition no_facts :: fact_store where
  "no_facts = \<lparr>fs_records = [], fs_relations = [], fs_events = [], fs_pending = []\<rparr>"

lemma fact_step_good:
  assumes "fresh_ids env" and "decaying_powers env" and "fact_step env st st'"
  shows "good_facts env (fs_records st) (fs_records st')"
  using assms(3)
proof cases
  case (upsert now clock x i)
  then show ?thesis using upsert_fact_safe [OF assms(1)] by (auto simp: safe_change_def)
next
  case (retrieve now clock category prefx pending top_k hits)
  then show ?thesis by (intro quiet_good retrieve_quiet)
next
  case (dream now clock batch table b hs d)
  then show ?thesis using apply_batch_safe [OF assms(1)] by (auto simp: safe_change_def)
next
  case (relate now ds dt org content dc new_id items)
  then show ?thesis by (auto simp: persist_relation_candidates_def split: if_splits dest: relations_records)
qed (simp_all add: quiet_good deprecate_quiet update_confidence_quiet scale_confidence_quiet decay_quiet assms(2))

text \<open>The invariant: the hypotheses on the parameters are part of it.\<close>

definition memory_inv :: "fact_env \<Rightarrow> fact_store \<Rightarrow> bool" where
  "memory_inv env st = (fresh_ids env \<and> decaying_powers env \<and> facts_ok env (fs_records st))"

interpretation memory: safe_system "\<lambda>st. fresh_ids env \<and> decaying_powers env \<and> st = no_facts" "fact_step env" "memory_inv env"
  for env
proof unfold_locales
  show "memory_inv env st" if "fresh_ids env \<and> decaying_powers env \<and> st = no_facts" for st
    using that by (simp add: memory_inv_def facts_ok_def no_facts_def)
  show "memory_inv env st'" if "memory_inv env st" and "fact_step env st st'" for st st'
    using that fact_step_good [of env st st'] by (simp add: memory_inv_def good_facts_def)
qed

lemma steps_extend:
  "(fact_step env)\<^sup>*\<^sup>* st st' \<Longrightarrow> memory_inv env st \<Longrightarrow> memory_inv env st' \<and> extends (fs_records st) (fs_records st')"
proof (induction rule: rtranclp_induct)
  case (step st1 st2)
  then have i: "memory_inv env st1" "extends (fs_records st) (fs_records st1)" by simp_all
  then have "good_facts env (fs_records st1) (fs_records st2)"
    using fact_step_good [OF _ _ step(2)] by (simp add: memory_inv_def)
  then have "extends (fs_records st1) (fs_records st2)"
    using i(1) by (simp add: memory_inv_def good_facts_def)
  moreover have "memory_inv env st2" by (rule memory.step_inv [OF i(1) step(2)])
  ultimately show ?case using i(2) extends_trans by blast
qed simp

section \<open>How many facts a batch activates\<close>

definition active_ids :: "FactRecord list \<Rightarrow> string set" where
  "active_ids rs = fr_id ` {r \<in> set rs. fr_status r = ''active''}"

lemma active_ids_finite [simp]: "finite (active_ids rs)" by (simp add: active_ids_def)

lemma no_new_active: "activates (\<lambda>_. False) rs ss \<Longrightarrow> active_ids ss \<subseteq> active_ids rs"
  unfolding activates_def active_ids_def same_fact_def by force

lemma one_new_active:
  assumes "activates (\<lambda>k. k = K) rs ss" and ok: "facts_ok env ss"
  shows "card (active_ids ss - active_ids rs) \<le> 1"
proof (rule card_le_Suc0_iff_eq [THEN iffD2, folded One_nat_def])
  have new: "\<exists>r \<in> set (filter live ss). fr_key r = K \<and> fr_id r = a" if "a \<in> active_ids ss - active_ids rs" for a
  proof -
    from that obtain s where s: "s \<in> set ss" "fr_status s = ''active''" "fr_id s = a" "a \<notin> active_ids rs"
      by (auto simp: active_ids_def)
    have "\<not> (\<exists>r \<in> set rs. same_fact r s \<and> fr_status r = ''active'')"
      using s(3,4) by (auto simp: active_ids_def same_fact_def)
    then have "fr_key s = K" using assms(1) s(1,2) unfolding activates_def by blast
    then show ?thesis using s by (auto simp: live_def)
  qed
  show "\<forall>a \<in> active_ids ss - active_ids rs. \<forall>b \<in> active_ids ss - active_ids rs. a = b"
  proof (intro ballI)
    fix a b assume "a \<in> active_ids ss - active_ids rs" "b \<in> active_ids ss - active_ids rs"
    then obtain r s where rs: "r \<in> set (filter live ss)" "fr_key r = K" "fr_id r = a"
        "s \<in> set (filter live ss)" "fr_key s = K" "fr_id s = b" using new by meson
    have "inj_on fr_key (set (filter live ss))" using ok by (simp add: facts_ok_def distinct_map)
    then have "r = s" using rs inj_onD by metis
    then show "a = b" using rs by simp
  qed
qed simp

lemma twin_not_new:
  assumes ok: "facts_ok env (fs_records st)"
    and t: "r \<in> set (fs_records st)" "fr_status r = ''active''" "fr_key r = input_key env x"
    and n: "normalized_input env x0 = Some (x, status, confirm)"
    and u: "upsert_fact env now clock x0 st = Some (i, st')"
  shows "activates (\<lambda>_. False) (fs_records st) (fs_records st')"
proof -
  let ?rs = "fs_records st"
  have rl: "r \<in> set (filter live ?rs)" using t by (simp add: live_def)
  then have "\<not> unknown_key (input_key env x) ?rs" using t(3) by (auto simp: unknown_key_def)
  then obtain l where k: "known_position (input_key env x) ?rs = Some l" by (metis known_position_none not_Some_eq)
  note kd = known_positionD [OF k]
  have "?rs ! l \<in> set (filter live ?rs)" using kd by simp
  moreover have "inj_on fr_key (set (filter live ?rs))" using ok by (simp add: facts_ok_def distinct_map)
  ultimately have e: "?rs ! l = r" using rl kd(2) t(3) inj_onD by metis
  define ws where "ws = (if fi_status x = None then None else Some status)"
  define wc where "wc = (if fi_confirm x = None then None else Some confirm)"
  have st': "st' = reinforce_known env now clock x ws wc l st"
    using u unfolding upsert_fact_def n k option.case prod.case option.inject prod.inject
      ws_def [symmetric] wc_def [symmetric] by (elim conjE) (rule sym)
  have ws: "\<forall>s. ws = Some s \<longrightarrow> s = status" by (simp add: ws_def)
  let ?s = "reinforced env now clock x (fi_expires x) ws wc r"
  have "may_become env r ?s"
    using normalized_ok [OF n] ws kd(3) e by (intro reinforced_may) auto
  then have "same_fact r ?s" by (simp add: may_become_def)
  then have "activates (\<lambda>_. False) ?rs (?rs[l := ?s])"
    using t(1,2) set_update_subset_insert [of ?rs l ?s] unfolding activates_def by (blast intro: same_fact_refl)
  then show ?thesis by (simp add: st' reinforce_known_def Let_def e)
qed

lemma input_of_upsert:
  "upsert_fact env now clock x0 st = Some y \<Longrightarrow> \<exists>x status confirm. normalized_input env x0 = Some (x, status, confirm)"
  by (auto simp: upsert_fact_def split: option.splits)

text \<open>What one proposal costs: every new active fact is paid for with its confidence.\<close>

lemma apply_proposal_cost:
  assumes f: "fresh_ids env" and ok: "facts_ok env (fs_records (dm_store d))" and w: "CHR 0x00 \<notin> set (fp_scope p)"
    and inj: "inj (fe_hash env)" and pk: "plain_keys env (fs_records (dm_store d))"
    and a: "apply_proposal env now clock batch hs lo hi p d = Some d1" and b: "0 \<le> dm_budget d"
  shows "0 \<le> dm_budget d1 \<and> plain_keys env (fs_records (dm_store d1)) \<and>
    4 / 5 * of_nat (card (active_ids (fs_records (dm_store d1)) - active_ids (fs_records (dm_store d)))) \<le> dm_budget d - dm_budget d1"
proof -
  let ?rs = "fs_records (dm_store d)" and ?ss = "fs_records (dm_store d1)"
  let ?v = "validate_fact_proposal (fe_domains env) p ?rs hs lo hi"
  let ?new = "card (active_ids ?ss - active_ids ?rs)"
  obtain decision issues where dd: "dream_decision env p ?v (dm_budget d) ?rs = (decision, issues)"
    by (rule prod.exhaust)
  show ?thesis
  proof (cases "decision = ''reject''")
    case True
    then show ?thesis using a b pk by (auto simp: apply_proposal_def Let_def dd)
  next
    case False
    let ?x0 = "dream_input batch p (vr_confidence ?v) decision"
    from False obtain i where u: "upsert_fact env now clock ?x0 (dm_store d) = Some (i, dm_store d1)"
      and e: "dm_budget d1 = (if decision = ''active'' \<and> \<not> active_twin env p ?rs then dm_budget d - vr_confidence ?v else dm_budget d)"
      using a by (auto simp: apply_proposal_def Let_def dd split: option.splits if_splits)
    obtain x status confirm where n: "normalized_input env ?x0 = Some (x, status, confirm)" using input_of_upsert [OF u] by blast
    then obtain v c where names: "normalize_owner (fp_owner p) = Some v" "normalize_category (fp_category p) = Some c"
      by (auto simp: normalized_input_def dream_input_def split: if_splits option.splits)
    note safe = upsert_fact_safe [OF f u, unfolded safe_change_def]
    have filed: "activates (\<lambda>k. k = filed_key env p) ?rs ?ss"
      using safe dream_activated_key [OF _ dd] by (blast intro: activates_mono)
    then have keys: "plain_keys env ?ss"
      using pk filed_plain [OF names w, of env] unfolding plain_keys_def activates_def same_fact_def by metis
    show ?thesis
    proof (cases "decision = ''active'' \<and> \<not> active_twin env p ?rs")
      case True
      then have c: "4 / 5 \<le> vr_confidence ?v" "vr_confidence ?v \<le> dm_budget d"
        using dd by (auto simp: dream_decision_def AUTO_ACTIVE_THRESHOLD_def split: if_splits)
      have "facts_ok env ?ss" using safe ok by (simp add: good_facts_def)
      with filed have "?new \<le> 1" by (rule one_new_active)
      then have "4 / 5 * of_nat ?new \<le> (4 / 5 :: rat)" by simp
      then show ?thesis using c e True keys by simp
    next
      case False
      have "activates (\<lambda>_. False) ?rs ?ss"
      proof (cases "decision = ''active''")
        case True
        with False obtain r where r: "r \<in> set ?rs" "fr_status r = ''active''"
          "fr_key r = canonical_key_for_fact (fe_hash env) (fp_content p) (fp_owner p) (fp_category p) (fp_scope p)"
          by (auto simp: active_twin_def list_ex_iff)
        have "plain_key env (fr_key r)" using pk r(1,2) by (simp add: plain_keys_def)
        from twin_key [OF inj this names w r(3)] r(1,2)
        have r: "r \<in> set ?rs" "fr_status r = ''active''" "fr_key r = input_key env x"
          using dream_input_key(1) [OF n] by simp_all
        show ?thesis by (rule twin_not_new [OF ok r n u])
      next
        case n: False
        then have "\<not> activated_key env ?x0 k" for k using dream_activated_key [OF _ dd] by blast
        then show ?thesis using safe by (blast intro: activates_mono)
      qed
      from no_new_active [OF this] have "?new = 0" by (simp add: Diff_eq_empty_iff [THEN iffD2])
      then show ?thesis using b e False keys by auto
    qed
  qed
qed

lemma new_active_trans:
  "card (active_ids ts - active_ids rs) \<le> card (active_ids ts - active_ids ss) + card (active_ids ss - active_ids rs)"
proof -
  have "card (active_ids ts - active_ids rs) \<le> card ((active_ids ts - active_ids ss) \<union> (active_ids ss - active_ids rs))"
    by (rule card_mono) auto
  then show ?thesis using card_Un_le [of "active_ids ts - active_ids ss" "active_ids ss - active_ids rs"] by linarith
qed

lemma apply_proposals_cost:
  assumes f: "fresh_ids env" and inj: "inj (fe_hash env)"
  shows "facts_ok env (fs_records (dm_store d)) \<Longrightarrow> plain_keys env (fs_records (dm_store d)) \<Longrightarrow>
    list_all (\<lambda>p. CHR 0x00 \<notin> set (fp_scope p)) ps \<Longrightarrow> 0 \<le> dm_budget d \<Longrightarrow>
    apply_proposals env now clock batch hs lo hi ps d = Some d1 \<Longrightarrow> 0 \<le> dm_budget d1 \<and>
    4 / 5 * of_nat (card (active_ids (fs_records (dm_store d1)) - active_ids (fs_records (dm_store d)))) \<le> dm_budget d - dm_budget d1"
proof (induction ps arbitrary: d)
  case Nil
  then show ?case by simp
next
  case (Cons p ps)
  then obtain d2 where 1: "apply_proposal env now clock batch hs lo hi p d = Some d2"
    and 2: "apply_proposals env now clock batch hs lo hi ps d2 = Some d1" by (auto split: option.splits)
  have ok: "facts_ok env (fs_records (dm_store d2))"
    using apply_proposal_safe [OF f 1] Cons.prems(1) by (simp add: safe_change_def good_facts_def)
  have w: "CHR 0x00 \<notin> set (fp_scope p)" "list_all (\<lambda>p. CHR 0x00 \<notin> set (fp_scope p)) ps" using Cons.prems(3) by simp_all
  note c = apply_proposal_cost [OF f Cons.prems(1) w(1) inj Cons.prems(2) 1 Cons.prems(4)]
  note cs = Cons.IH [OF ok conjunct1 [OF conjunct2 [OF c]] w(2) conjunct1 [OF c] 2]
  let ?A = "\<lambda>d. active_ids (fs_records (dm_store d))"
  have "of_nat (card (?A d1 - ?A d)) \<le> (of_nat (card (?A d1 - ?A d2)) + of_nat (card (?A d2 - ?A d)) :: rat)"
    using new_active_trans by (metis of_nat_add of_nat_le_iff)
  then show ?case using conjunct2 [OF conjunct2 [OF c]] conjunct2 [OF cs] conjunct1 [OF cs] by (intro conjI; linarith)
qed

section \<open>Properties\<close>

text \<open>An environment and inputs for the examples.\<close>

definition demo_flags :: fact_flags where
  "demo_flags = \<lparr>ff_merge = False, ff_graph = False, ff_confidence = False, ff_flip = False, ff_audit = False, ff_retrieval = False\<rparr>"

definition demo_env :: fact_env where
  "demo_env = \<lparr>fe_flags = demo_flags, fe_hash = id, fe_when = (\<lambda>_. Some 0), fe_redact = id,
     fe_fresh = (\<lambda>xs. concat xs @ ''x''), fe_num = (\<lambda>j. case j of JInt i \<Rightarrow> Some (of_int i) | _ \<Rightarrow> None),
     fe_int = (\<lambda>j. case j of JInt i \<Rightarrow> Some i | _ \<Rightarrow> None), fe_pow = (\<lambda>_ _. 1), fe_domains = [''lock'']\<rparr>"

lemma demo_env_ok: "fresh_ids demo_env" "decaying_powers demo_env"
proof -
  have "length x \<le> length (concat xs)" if "x \<in> set xs" for x and xs :: "string list"
    using that by (induction xs) auto
  then have "concat xs @ ''x'' \<notin> set xs" for xs :: "string list" by fastforce
  then show "fresh_ids demo_env" by (simp add: fresh_ids_def demo_env_def)
  show "decaying_powers demo_env" by (simp add: decaying_powers_def demo_env_def unit_range_def)
qed

definition demo_input :: "string \<Rightarrow> string \<Rightarrow> fact_input" where
  "demo_input content category = plain_input content category ''den'' ''user'' ''said so'' (9 / 10) ''active'' runtime_source"

definition demo_store :: "fact_store" where
  "demo_store = (case upsert_fact demo_env ''t0'' 0 (demo_input ''likes tea'' ''preference'') no_facts of
     Some (i, st) \<Rightarrow> st | None \<Rightarrow> no_facts)"

lemma demo_store_written:
  "upsert_fact demo_env ''t0'' 0 (demo_input ''likes tea'' ''preference'') no_facts = Some (0, demo_store)"
  by code_simp

text \<open>
  C13. From the empty memory, through every sequence of writes, deprecations, decays, retrievals and dream
  batches, the facts have distinct identifiers, no two facts that are active or wait for confirmation
  have one canonical key, and every record is well formed: a known category, owner and status, confidences
  between 0 and 1, at least one support, positive cursors, some text, and the key of that text.
\<close>

theorem facts_stay_consistent:
  assumes "fresh_ids env" and "decaying_powers env" and "(fact_step env)\<^sup>*\<^sup>* no_facts st"
  shows "facts_ok env (fs_records st)"
  using memory.reachable_inv [of env no_facts st] assms by (simp add: memory_inv_def)

lemma demo_steps: "(fact_step demo_env)\<^sup>*\<^sup>* no_facts demo_store"
  by (rule r_into_rtranclp) (rule fact_step.upsert [OF demo_store_written])

theorem facts_stay_consistent_witness: "facts_ok demo_env (fs_records demo_store)"
  by (rule facts_stay_consistent [OF demo_env_ok demo_steps])

text \<open>
  C39. No step removes a fact or rewrites what it says: along every run the fact at a position keeps its
  identifier, text, key, category, scope, owner and creation time.
\<close>

theorem facts_are_never_rewritten:
  assumes "fresh_ids env" and "decaying_powers env" and "facts_ok env (fs_records st)"
    and "(fact_step env)\<^sup>*\<^sup>* st st'" and "i < length (fs_records st)"
  shows "i < length (fs_records st') \<and> same_fact (fs_records st ! i) (fs_records st' ! i)"
proof -
  have "extends (fs_records st) (fs_records st')"
    using steps_extend [OF assms(4)] assms(1-3) by (simp add: memory_inv_def)
  then show ?thesis using assms(5)
    by (auto simp: extends_def list_all2_conv_all_nth nth_append)
qed

lemma demo_store_ok: "facts_ok demo_env (fs_records demo_store)"
  using memory.reachable_inv [of demo_env no_facts demo_store] demo_env_ok demo_steps by (simp add: memory_inv_def)

lemma demo_decay: "fact_step demo_env demo_store (snd (decay_confidence demo_env 0 ''t1'' demo_store))"
  by (rule fact_step.decay)

theorem facts_are_never_rewritten_witness:
  "same_fact (fs_records demo_store ! 0) (fs_records (snd (decay_confidence demo_env 0 ''t1'' demo_store)) ! 0)"
proof -
  have "0 < length (fs_records demo_store)" by code_simp
  from facts_are_never_rewritten [OF demo_env_ok demo_store_ok r_into_rtranclp [of "fact_step demo_env", OF demo_decay] this]
  show ?thesis by simp
qed

text \<open>
  C11. What the dream task may make active by itself. A fact that is active after a batch of proposals
  was active before, or is filed under the key of a proposal of the batch that cites cursors of the
  history batch, whose excerpt stands in a cited entry, and which is not of high risk: neither its
  category, nor its words, nor its device domain.
\<close>

theorem dream_activates_only_cleared:
  assumes "fresh_ids env" and "apply_fact_proposals env now clock batch table b hs st = BatchApplied d"
    and "s \<in> set (fs_records (dm_store d))" and "fr_status s = ''active''"
  shows "(\<exists>r \<in> set (fs_records st). same_fact r s \<and> fr_status r = ''active'') \<or>
    (\<exists>p \<in> set (db_upserts b). fr_key s = filed_key env p \<and>
       cleared_proposal env hs (Min (set (history_cursors hs))) (Max (set (history_cursors hs))) p)"
  using apply_batch_safe [OF assms(1,2)] assms(3,4)
  unfolding safe_change_def activates_def cleared_key_def list_ex_iff by blast

definition demo_proposal :: "string \<Rightarrow> string \<Rightarrow> FactProposal" where
  "demo_proposal content category = \<lparr>fp_content = content, fp_category = category, fp_scope = ''den'', fp_owner = ''user'',
     fp_cursors = [1], fp_excerpt = ''tea'', fp_confidence = 9 / 10, fp_expires = None, fp_supersedes = None,
     fp_confirm = None, fp_status = None, fp_reason = [], fp_change = None, fp_target = None, fp_relations = [], fp_hint = None\<rparr>"

definition demo_history :: "json_obj list" where
  "demo_history = [[(''cursor'', JInt 1), (''content'', JStr ''Tea'')]]"

definition demo_batch :: DreamFactProposalBatch where
  "demo_batch = \<lparr>db_upserts = [demo_proposal ''tea'' ''preference'', demo_proposal ''gate'' ''safety''],
     db_deprecations = [], db_rejected = []\<rparr>"

definition demo_dream :: dream_state where
  "demo_dream = (case apply_fact_proposals demo_env ''t1'' 0 ''batch'' [] demo_batch demo_history no_facts of
     BatchApplied d \<Rightarrow> d | _ \<Rightarrow> start_dream no_facts)"

lemma demo_dream_applied:
  "apply_fact_proposals demo_env ''t1'' 0 ''batch'' [] demo_batch demo_history no_facts = BatchApplied demo_dream"
proof -
  have "case apply_fact_proposals demo_env ''t1'' 0 ''batch'' [] demo_batch demo_history no_facts of
    BatchApplied d \<Rightarrow> True | _ \<Rightarrow> False" by code_simp
  then show ?thesis unfolding demo_dream_def by (simp split: batch_result.splits)
qed

lemma demo_dream_statuses: "map fr_status (fs_records (dm_store demo_dream)) = [''active'', ''pending_confirmation'']"
  by code_simp

text \<open>The witness: the preference is active, the safety fact waits.\<close>

theorem dream_activates_only_cleared_witness:
  "\<exists>p \<in> set (db_upserts demo_batch). fr_key (hd (fs_records (dm_store demo_dream))) = filed_key demo_env p \<and>
     cleared_proposal demo_env demo_history 1 1 p"
proof -
  from demo_dream_statuses obtain r rs where r: "fs_records (dm_store demo_dream) = r # rs" "fr_status r = ''active''"
    by auto
  have h: "history_cursors demo_history = [1]" by code_simp
  from dream_activates_only_cleared [OF demo_env_ok(1) demo_dream_applied, of r] r h
  show ?thesis by (simp add: no_facts_def)
qed

text \<open>
  C12. A batch of the dream task makes at most six facts active that were not, however many proposals
  the model writes and however it spells their category, owner and scope: each costs its confidence, which is
  at least 0.8, of a budget of 5. The store is consistent and its active facts are filed under normalised
  scopes, the hash of the keys has no collisions, and no proposed scope contains the character NUL, which
  separates the parts of a key.
\<close>

theorem dream_batch_bound:
  assumes "fresh_ids env" and "inj (fe_hash env)" and "facts_ok env (fs_records st)"
    and "\<forall>r \<in> set (fs_records st). fr_status r = ''active'' \<longrightarrow> plain_scope (fr_scope r)"
    and "list_all (\<lambda>p. CHR 0x00 \<notin> set (fp_scope p)) (db_upserts b)"
    and "apply_fact_proposals env now clock batch table b hs st = BatchApplied d"
  shows "card (active_ids (fs_records (dm_store d)) - active_ids (fs_records st)) \<le> 6"
proof -
  let ?lo = "Min (set (history_cursors hs))" and ?hi = "Max (set (history_cursors hs))"
  from assms(6) obtain ps d1 where c: "calibrated env table (db_upserts b) = Some ps"
    and a: "apply_proposals env now clock batch hs ?lo ?hi (sort_key (\<lambda>p. - fp_confidence p) ps) (start_dream st) = Some d1"
    and e: "d = foldl (apply_deprecation env now batch hs ?lo ?hi) d1 (db_deprecations b)"
    by (auto simp: apply_fact_proposals_def Let_def split: if_splits option.splits)
  have w: "list_all (\<lambda>p. CHR 0x00 \<notin> set (fp_scope p)) (sort_key (\<lambda>p. - fp_confidence p) ps)"
    using assms(5) calibrated_proposals [OF c] by (fastforce simp: list_all_iff)
  have "plain_key env (fr_key r)" if "r \<in> set (fs_records st)" "fr_status r = ''active''" for r
    using that assms(3,4) unfolding plain_key_def facts_ok_def list_all_iff record_ok_def by blast
  then have "plain_keys env (fs_records st)" by (simp add: plain_keys_def)
  from apply_proposals_cost [OF assms(1,2) _ _ w _ a] this assms(3)
  have "0 \<le> dm_budget d1" "4 / 5 * of_nat (card (active_ids (fs_records (dm_store d1)) - active_ids (fs_records st))) \<le> 5 - dm_budget d1"
    by (simp_all add: start_dream_def AUTO_ACTIVE_BUDGET_def)
  then have n: "of_nat (card (active_ids (fs_records (dm_store d1)) - active_ids (fs_records st))) < (7 :: rat)" by linarith
  have "active_ids (fs_records (dm_store d)) \<subseteq> active_ids (fs_records (dm_store d1))"
    unfolding e by (rule no_new_active [OF quiet_activates [OF apply_deprecations_quiet]])
  then have "card (active_ids (fs_records (dm_store d)) - active_ids (fs_records st))
      \<le> card (active_ids (fs_records (dm_store d1)) - active_ids (fs_records st))"
    by (intro card_mono) auto
  moreover have "card (active_ids (fs_records (dm_store d1)) - active_ids (fs_records st)) < 7"
    using n of_nat_less_iff [where 'a = rat, of _ 7] by simp
  ultimately show ?thesis by linarith
qed

theorem dream_batch_bound_witness:
  "card (active_ids (fs_records (dm_store demo_dream)) - active_ids (fs_records no_facts)) \<le> 6"
proof (rule dream_batch_bound [OF demo_env_ok(1) _ _ _ _ demo_dream_applied])
  show "inj (fe_hash demo_env)" by (simp add: demo_env_def)
  show "facts_ok demo_env (fs_records no_facts)" by (simp add: facts_ok_def no_facts_def)
  show "\<forall>r \<in> set (fs_records no_facts). fr_status r = ''active'' \<longrightarrow> plain_scope (fr_scope r)" by (simp add: no_facts_def)
  show "list_all (\<lambda>p. CHR 0x00 \<notin> set (fp_scope p)) (db_upserts demo_batch)" by code_simp
qed

end
