(* ===== verification/FactGraph.thy ===== *)
theory FactGraph
  imports FactStore
begin

text \<open>
  The relation graph: the search \<^verbatim>\<open>FactRelationStore.related_fact_ids\<close> finds the facts that some chain of
  relations reaches within the depth, each once.
\<close>

section \<open>The reference\<close>

definition related_edge :: "string list \<Rightarrow> bool \<Rightarrow> FactRelation list \<Rightarrow> (string \<times> string) set" where
  "related_edge allowed bidirectional rels = {(x, y). \<exists>r \<in> set rels. rl_status r = ''active'' \<and> rl_type r \<in> set allowed \<and>
     (rl_source r = x \<and> rl_target r = y \<or> bidirectional \<and> rl_target r = x \<and> rl_source r = y)}"

lemma picked_iff:
  "y \<in> set (if a then (if p then [t] else []) @ (if q then [s] else []) else []) \<longleftrightarrow> a \<and> (p \<and> t = y \<or> q \<and> s = y)"
  by auto

lemma neighbours_edge: "y \<in> set (neighbours allowed bi rels x) \<longleftrightarrow> (x, y) \<in> related_edge allowed bi rels"
  unfolding neighbours_def related_edge_def set_concat set_map UN_iff bex_simps(7) picked_iff mem_Collect_eq prod.case
  by (simp only: conj_assoc)

section \<open>The search\<close>

fun reach :: "(string \<Rightarrow> string list) \<Rightarrow> nat \<Rightarrow> string \<Rightarrow> string set" where
  "reach adj 0 x = {x}"
| "reach adj (Suc n) x = reach adj n x \<union> (\<Union>y \<in> reach adj n x. set (adj y))"

lemma reach_relpow: "y \<in> reach adj n x \<longleftrightarrow> (\<exists>k \<le> n. (x, y) \<in> {(a, b). b \<in> set (adj a)} ^^ k)"
proof (induction n arbitrary: y)
  case 0
  then show ?case by auto
next
  case (Suc n)
  let ?R = "{(a, b). b \<in> set (adj a)}"
  have "(\<exists>k \<le> Suc n. (x, y) \<in> ?R ^^ k) \<longleftrightarrow> (\<exists>k \<le> n. (x, y) \<in> ?R ^^ k) \<or> (\<exists>k \<le> n. (x, y) \<in> ?R ^^ Suc k)"
  proof
    assume "\<exists>k \<le> Suc n. (x, y) \<in> ?R ^^ k"
    then obtain k where k: "k \<le> Suc n" "(x, y) \<in> ?R ^^ k" by blast
    then show "(\<exists>k \<le> n. (x, y) \<in> ?R ^^ k) \<or> (\<exists>k \<le> n. (x, y) \<in> ?R ^^ Suc k)"
      by (cases k) auto
  next
    assume "(\<exists>k \<le> n. (x, y) \<in> ?R ^^ k) \<or> (\<exists>k \<le> n. (x, y) \<in> ?R ^^ Suc k)"
    then show "\<exists>k \<le> Suc n. (x, y) \<in> ?R ^^ k" by (meson Suc_le_mono le_Suc_eq)
  qed
  then show ?case using Suc.IH by (fastforce simp del: split_paired_Ex)
qed

lemma visit_sets:
  "set (fst (visit ts visited fresh)) = set visited \<union> set ts"
  "set (snd (visit ts visited fresh)) = set fresh \<union> (set ts - set visited)"
  by (induction ts visited fresh rule: visit.induct) auto

lemma visit_distinct: "distinct visited \<Longrightarrow> distinct (fst (visit ts visited fresh))"
  by (induction ts visited fresh rule: visit.induct) auto

lemma reach_closed: "(\<Union>y \<in> reach adj n x. set (adj y)) \<subseteq> reach adj n x \<Longrightarrow> reach adj (n + k) x = reach adj n x"
  by (induction k) auto

lemma related_loop_reach:
  assumes "set visited = reach adj k x" and "set frontier \<subseteq> set visited"
    and "\<forall>y \<in> set visited - set frontier. set (adj y) \<subseteq> set visited"
  shows "set (related_loop adj n frontier visited) = reach adj (k + n) x"
  using assms
proof (induction n arbitrary: k frontier visited)
  case 0
  then show ?case by simp
next
  case (Suc n)
  obtain visited1 fresh where v: "visit (concat (map adj frontier)) visited [] = (visited1, fresh)" by (rule prod.exhaust)
  have 1: "set visited1 = set visited \<union> (\<Union>y \<in> set frontier. set (adj y))"
    using visit_sets(1) [of "concat (map adj frontier)" visited "[]"] v by simp
  have 2: "set fresh = set visited1 - set visited"
    using visit_sets(2) [of "concat (map adj frontier)" visited "[]"] v 1 by auto
  have 3: "set visited1 = reach adj (Suc k) x"
    using Suc.prems 1 by auto
  show ?case
  proof (cases "fresh = []")
    case True
    then have "set visited1 = set visited" using 1 2 by auto
    then have "(\<Union>y \<in> reach adj k x. set (adj y)) \<subseteq> reach adj k x" using 3 Suc.prems(1) by auto
    from reach_closed [OF this, of "Suc n"] have "reach adj (k + Suc n) x = set visited1"
      using \<open>set visited1 = set visited\<close> Suc.prems(1) by simp
    then show ?thesis using True v by simp
  next
    case False
    have "\<forall>y \<in> set visited1 - set fresh. set (adj y) \<subseteq> set visited1"
    proof
      fix y assume "y \<in> set visited1 - set fresh"
      then have "y \<in> reach adj k x" using 2 Suc.prems(1) by auto
      then show "set (adj y) \<subseteq> set visited1" unfolding 3 by auto
    qed
    from Suc.IH [OF 3 _ this] 2 have "set (related_loop adj n fresh visited1) = reach adj (Suc k + n) x" by blast
    then show ?thesis using False v by simp
  qed
qed

lemma related_loop_distinct: "distinct visited \<Longrightarrow> distinct (related_loop adj n frontier visited)"
proof (induction adj n frontier visited rule: related_loop.induct)
  case (2 adj n frontier visited)
  obtain visited1 fresh where v: "visit (concat (map adj frontier)) visited [] = (visited1, fresh)" by (rule prod.exhaust)
  then have "distinct visited1" using visit_distinct [OF 2(2), of "concat (map adj frontier)" "[]"] by simp
  then show ?case using 2(1) [OF v [symmetric] refl] v by simp
qed simp

text \<open>
  C40. The breadth-first search over the relations of a fact returns exactly the other facts that a chain
  of at most \<open>max 1 depth\<close> active relations of the allowed types reaches, in the given direction or in
  both, each of them once.
\<close>

theorem related_facts_are_reachable:
  "distinct (related_fact_ids allowed depth bidirectional x rels) \<and>
   (y \<in> set (related_fact_ids allowed depth bidirectional x rels) \<longleftrightarrow>
      y \<noteq> x \<and> (\<exists>k. k \<le> nat (max 1 depth) \<and> (x, y) \<in> related_edge allowed bidirectional rels ^^ k))"
proof -
  let ?adj = "neighbours allowed bidirectional rels" and ?n = "nat (max 1 depth)"
  have "set (related_loop ?adj ?n [x] [x]) = reach ?adj (0 + ?n) x" by (rule related_loop_reach) simp_all
  moreover have "{(a, b). b \<in> set (?adj a)} = related_edge allowed bidirectional rels" by (auto simp: neighbours_edge)
  ultimately have "y \<in> set (related_loop ?adj ?n [x] [x]) \<longleftrightarrow>
      (\<exists>k \<le> ?n. (x, y) \<in> related_edge allowed bidirectional rels ^^ k)"
    by (simp only: reach_relpow add_0)
  moreover have "distinct (related_loop ?adj ?n [x] [x])" by (rule related_loop_distinct) simp
  ultimately show ?thesis by (auto simp: related_fact_ids_def distinct_removeAll)
qed

end
