(* ===== verification/FactCases.thy ===== *)
theory FactCases
  imports FactSafety FactGraph
begin

text \<open>
  Single cases of the long-term memory that a reader should know: where a whole batch or queue fails, where
  two guards disagree, and where decay raises a confidence.
\<close>

section \<open>Calls that fail as a whole\<close>

lemma unknown_category_calibrated:
  "p \<in> set ps \<Longrightarrow> normalize_category (fp_category p) = None \<Longrightarrow> calibrated env table ps = None"
  by (induction ps) (auto simp: calibrate_confidence_def split: option.split)

text \<open>One proposal with an unknown category makes the whole batch raise, although the check rejects it alone.\<close>

lemma unknown_category_fails_batch:
  assumes "p \<in> set (db_upserts b)" and "normalize_category (fp_category p) = None" and "history_cursors hs \<noteq> []"
  shows "apply_fact_proposals env now clock batch table b hs st = BatchRaised"
    and "vr_decision (validate_fact_proposal domains p rs hs lo hi) = ''reject''"
  using assms by (simp_all add: apply_fact_proposals_def Let_def unknown_category_calibrated
      validate_fact_proposal_def proposal_category_def)

text \<open>A governed candidate whose category is constraint or fact always raises: the queue does not advance.\<close>

lemma governed_constraint_blocks:
  assumes "governed_category c \<in> {''constraint'', ''fact''}" and "governed_key env c \<notin> set known"
  shows "consume_candidates env now clock (c # cs) known (applied, duplicates, st) = None"
proof -
  have "normalize_category ''constraint'' = None" "normalize_category ''fact'' = None" by code_simp+
  then have "normalize_category (governed_category c) = None" using assms(1) by auto
  then have "normalized_input env (governed_input c) = None"
    by (simp add: normalized_input_def governed_input_def plain_input_def)
  then show ?thesis using assms(2) by (simp add: upsert_fact_def)
qed

section \<open>Guards that disagree\<close>

text \<open>
  A proposal that supersedes an active safety fact deprecates it; a proposal that only deprecates the same
  fact is refused.
\<close>

definition guarded_store :: fact_store where
  "guarded_store = (case upsert_fact demo_env ''t0'' 0 ((demo_input ''gate'' ''safety'')\<lparr>fi_confirm := Some False\<rparr>) no_facts of
     Some (i, st) \<Rightarrow> st | None \<Rightarrow> no_facts)"

definition superseding :: DreamFactProposalBatch where
  "superseding = \<lparr>db_upserts = [(demo_proposal ''tea'' ''note'')\<lparr>fp_supersedes := Some ''x''\<rparr>],
     db_deprecations = [], db_rejected = []\<rparr>"

definition deprecating :: FactDeprecationProposal where
  "deprecating = \<lparr>dp_id = ''x'', dp_reason = ''gone'', dp_cursors = [1]\<rparr>"

lemma superseding_deprecates_safety:
  "map (\<lambda>r. (fr_category r, fr_status r)) (fs_records guarded_store) = [(''safety'', ''active'')]"
  "vr_decision (validate_deprecation_proposal deprecating (fs_records guarded_store) demo_history 1 1) = ''reject''"
  "(case apply_fact_proposals demo_env ''t1'' 0 ''batch'' [] superseding demo_history guarded_store of
      BatchApplied d \<Rightarrow> map (\<lambda>r. (fr_category r, fr_status r)) (fs_records (dm_store d)) | _ \<Rightarrow> [])
    = [(''safety'', ''deprecated''), (''note'', ''active'')]"
  by code_simp+

text \<open>Two unrelated notes of one scope are marked as contested.\<close>

lemma unrelated_notes_contested:
  "(case upsert_fact demo_env ''t0'' 0 (demo_input ''tea'' ''note'') no_facts of
      Some (i, st) \<Rightarrow> (case upsert_fact demo_env ''t1'' 0 (demo_input ''cat'' ''note'') st of
          Some (j, st1) \<Rightarrow> map (\<lambda>r. (fr_content r, fr_consistency r)) (fs_records st1) | None \<Rightarrow> [])
    | None \<Rightarrow> []) = [(''tea'', ''contested''), (''cat'', ''contested'')]"
  "''note'' \<notin> set CONFLICT_CATEGORIES"
  by code_simp+

section \<open>Decay\<close>

text \<open>A confidence below the minimum rises to it when a fact has been idle for long enough.\<close>

lemma decay_raises_low_confidence:
  assumes "\<not> ff_confidence (fe_flags env)" and "fe_when env (fr_seen r) = Some seen"
    and "DECAY_START_DAYS < days_between seen now" and "fr_confidence r < MIN_FACT_CONFIDENCE"
  shows "fr_confidence r < decayed_confidence env now r"
proof -
  have "normalize_confidence MIN_FACT_CONFIDENCE = MIN_FACT_CONFIDENCE" by (simp add: normalize_confidence_def MIN_FACT_CONFIDENCE_def)
  moreover have "MIN_FACT_CONFIDENCE \<le> max MIN_FACT_CONFIDENCE x" for x by simp
  ultimately show ?thesis using assms by (simp add: decayed_confidence_def Let_def less_max_iff_disj)
qed

text \<open>
  The decay does not record that it ran: at one time and with one idle period, a second call takes the same
  factor off again, as long as the result stays above the minimum.
\<close>

lemma decay_compounds:
  assumes "\<not> ff_confidence (fe_flags env)" and "fe_when env (fr_seen r) = Some seen"
    and "DECAY_START_DAYS < days_between seen now" and "fr_status r = ''active''"
    and k: "k = fe_pow env CONFIDENCE_DECAY_FACTOR (of_int (days_between seen now - DECAY_START_DAYS) * usage_decay_multiplier env now r)"
    and "k < 1" and "MIN_FACT_CONFIDENCE \<le> fr_confidence r * k * k" and "0 < k"
  shows "fr_confidence (decay_record env now stamp (decay_record env now stamp r)) = fr_confidence r * k * k"
proof -
  have m: "normalize_confidence MIN_FACT_CONFIDENCE = MIN_FACT_CONFIDENCE" by (simp add: normalize_confidence_def MIN_FACT_CONFIDENCE_def)
  have u: "usage_decay_multiplier env now (r\<lparr>fr_confidence := c, fr_updated := t\<rparr>) = usage_decay_multiplier env now r" for c t
    by (simp add: usage_decay_multiplier_def)
  have one: "decayed_confidence env now (r\<lparr>fr_confidence := c, fr_updated := t\<rparr>) = max MIN_FACT_CONFIDENCE (c * k)" for c t
    using assms(1-3) by (simp add: decayed_confidence_def Let_def m u k)
  have first: "decayed_confidence env now r = max MIN_FACT_CONFIDENCE (fr_confidence r * k)"
    using assms(1-3) by (simp add: decayed_confidence_def Let_def m k)
  have p: "0 < fr_confidence r"
  proof (rule ccontr)
    assume "\<not> 0 < fr_confidence r"
    then have "fr_confidence r * k * k \<le> 0" using assms(8) by (simp add: mult_nonneg_nonneg mult_le_0_iff)
    with assms(7) show False by (simp add: MIN_FACT_CONFIDENCE_def)
  qed
  have l: "fr_confidence r * k * k < fr_confidence r * k" "fr_confidence r * k < fr_confidence r"
    using p assms(6,8) by (simp_all add: mult_less_cancel_left1)
  then have a: "max MIN_FACT_CONFIDENCE (fr_confidence r * k) = fr_confidence r * k" "fr_confidence r * k \<noteq> fr_confidence r"
      "max MIN_FACT_CONFIDENCE (fr_confidence r * k * k) = fr_confidence r * k * k" "fr_confidence r * k * k \<noteq> fr_confidence r * k"
    using assms(7) by linarith+
  have d: "decay_record env now stamp r = r\<lparr>fr_confidence := fr_confidence r * k, fr_updated := stamp\<rparr>"
    unfolding decay_record_def first a(1) using assms(4) a(2) by (simp only: simp_thms if_True not_False_eq_True)
  show ?thesis unfolding d unfolding decay_record_def one a(3) by (simp add: assms(4))
qed

end
