(* ===== verification/Spec2Isabelle.thy ===== *)
theory Spec2Isabelle
  imports Bus Safety Reply Payload Confirmation Grants ActionRuntime Motor Cron Pairing ContextBudget
    Canonical Ledger SkillLifecycle Fallback ModuleLife BdiCycle BdiChoice TurnPipeline TaskState FactCases
begin

text \<open>
  A verification library for OriginAgent, a Python assistant that acts on the world on behalf of its users: it
  answers on chat channels, runs tools and devices, schedules jobs, keeps desires of its own and installs
  modules that extend it. The library models the parts that decide what may happen, when, and how often; all
  paths below are under \<^verbatim>\<open>src/OriginAgent/\<close>.

  \<^bold>\<open>How the parts interact.\<close> Messages come in and go out through the bus. An action that a turn, a scheduled job
  or the deliberation engine wants is submitted to the action runtime, which asks the safety gates, the
  permission resolver and, where they say so, the user: a confirmation is stored, the reply to it is
  classified, and the action resumes once. A cleared action runs at once or goes through the motor queue.
  Delegated and scheduled work carries a capability snapshot, bounded by grants. Pairing decides whose messages
  count and to which tenant they belong. Prompts are cut to the context budget, and a failing language model is
  replaced by a fallback. A turn restores what an earlier one left unfinished, shows the model a window of the
  session's history, and saves what was said; older messages move to the warm buffer and to the archives, and
  the session lives in one file. What is worth keeping becomes a fact of the long-term memory, which a nightly
  task updates from proposals of a language model. Modules are staged, verified, activated and rolled back with every step on a
  tamper-evident ledger; skills move through a reviewed life cycle. Desires come from conversations, foresights
  and scheduled jobs, and a cycle of the engine deliberates them.

  \<^bold>\<open>The theories\<close>, each with its code, its state, and what its lemmas show.

  \<^item> \<open>Prelude\<close>: dictionaries, JSON values, Python's string idioms, the contracts shared by the components
    (locales \<open>keyed_store\<close>, \<open>one_shot\<close>, \<open>safe_system\<close>) and the collections \<open>dict_simps\<close> and \<open>inv_intros\<close>.
  \<^item> \<open>Bus\<close> (\<^verbatim>\<open>bus/queue.py\<close>, \<^verbatim>\<open>bus/events.py\<close>): a record of both queues, the counters and the persistence sink; publishing
    with its overflow ladder, the race of the two getters and its cancellation are steps. Every message is
    accounted for, queues are FIFO and bounded.
  \<^item> \<open>Safety\<close> (\<^verbatim>\<open>agent/action_safety.py\<close>, \<^verbatim>\<open>agent/permissions.py\<close>): gates, decisions, the default resolver.
  \<^item> \<open>Reply\<close>, \<open>Payload\<close>, \<open>Confirmation\<close> (\<^verbatim>\<open>agent/confirmation.py\<close>, \<^verbatim>\<open>agent/action_privacy.py\<close>): reading a reply,
    sanitising what is stored (\<open>read_back\<close> is what \<^verbatim>\<open>from_dict\<close> makes of it), and the confirmation store with
    every operation of its manager. A reply is settled by a decision table, a confirmation is consumed at most once.
  \<^item> \<open>Grants\<close> (\<^verbatim>\<open>security/capabilities.py\<close>, \<^verbatim>\<open>security/grants.py\<close>): snapshots as a meet semilattice, grants with
    their expiry and revocation; delegation never adds a power.
  \<^item> \<open>ActionRuntime\<close>, \<open>Motor\<close> (\<^verbatim>\<open>agent/action_runtime.py\<close>, \<^verbatim>\<open>agent/epic_motor.py\<close>): \<^verbatim>\<open>submit\<close>, \<^verbatim>\<open>resume_confirmed\<close>, the
    idempotency keys, the queue and its beats; a restart empties the queue, which is in memory only. The backend is called exactly when everything cleared the
    action, once per confirmation and once per executed key, and the queue drains.
  \<^item> \<open>Cron\<close> (\<^verbatim>\<open>cron/service.py\<close>, \<^verbatim>\<open>cron/types.py\<close>): the job file in its JSON form, the action log of other processes, the
    timer, whose beat is cut short when a running job re-arms it. Exactly the due jobs run; the job list is what every process sees.
  \<^item> \<open>Pairing\<close> (\<^verbatim>\<open>pairing/store.py\<close>, \<^verbatim>\<open>identity/tenant.py\<close>): codes, approved senders, the tenant registry.
  \<^item> \<open>ContextBudget\<close> (\<^verbatim>\<open>agent/context_budget.py\<close>): token estimates and what trimming may drop.
  \<^item> \<open>Canonical\<close>, \<open>Ledger\<close>, \<open>LedgerSqlite\<close> (\<^verbatim>\<open>evolution/events.py\<close>, \<^verbatim>\<open>ledger.py\<close>, \<^verbatim>\<open>ledger_sqlite.py\<close>, \<^verbatim>\<open>ledger_factory.py\<close>):
    canonical text, hash chain, appending, verification, on the file and on the table (the default), and the
    search for a verified event, which differs between the two; two chains of the file with the same last hash have the same records or a collision.
  \<^item> \<open>SkillLifecycle\<close> (\<^verbatim>\<open>agent/skill_lifecycle.py\<close>): transitions of skills, in their files and in the event log.
  \<^item> \<open>Package\<close>, \<open>Verifier\<close> (\<^verbatim>\<open>evolution/package.py\<close>, \<^verbatim>\<open>manifest.py\<close>, \<^verbatim>\<open>code_scanner.py\<close>, \<^verbatim>\<open>verifier.py\<close>): directory trees, their
    digest and copy, the manifest, the scan of syntax trees, every check of the verifier.
  \<^item> \<open>Evolution\<close>, \<open>Activation\<close>, \<open>ModuleLife\<close> (\<^verbatim>\<open>evolution/manager.py\<close>, \<^verbatim>\<open>capability_gate.py\<close>, \<^verbatim>\<open>activation.py\<close>,
    \<^verbatim>\<open>recovery.py\<close>): the record \<open>Evolution\<close> joins ledger, staging, activation records, skills and packs;
    \<open>ModuleLife\<close> proves what holds across them: what an activation needs, what a module may do, what a
    rollback takes away, and the life cycle of the records along every run, on either ledger.
  \<^item> \<open>Fallback\<close> (\<^verbatim>\<open>providers/fallback_provider.py\<close>): the retry rules, the circuit breaker, the order of the models.
  \<^item> \<open>Bdi\<close>, \<open>CronBridge\<close>, \<open>Deliberation\<close>, \<open>BdiLife\<close>, \<open>BdiCycle\<close>, \<open>BdiChoice\<close> (\<^verbatim>\<open>bdi/\<close>): desires and their store
    on either back end, the links of scheduled jobs, the engine's cycle with its intention stack, plan
    library and choice of desires. A cycle is decomposed into small steps (\<open>micro_step\<close>), over which the
    invariants are proved once, on either back end of the store; a cycle that raises has no result.
  \<^item> \<open>Session\<close>, \<open>History\<close>, \<open>SessionStore\<close> (\<^verbatim>\<open>session/manager.py\<close>): messages with their episodes, what a trim keeps, the
    histories that are shown to a model, and the session files with saving, loading and repair. A tool
    answer is never shown without its call, a save that succeeds loads back, and a file with lines that no
    longer parse keeps its intact messages, while other damage loses the session.
  \<^item> \<open>TurnPersist\<close>, \<open>SessionLife\<close> (\<^verbatim>\<open>agent/agent_turn_persist.py\<close>): what is kept of a turn, checkpoints and interrupted
    turns; over all these operations the episodes divide the conversation.
  \<^item> \<open>Compact\<close>, \<open>WarmBuffer\<close> (\<^verbatim>\<open>agent/autocompact.py\<close>, \<^verbatim>\<open>agent/memory.py\<close>, \<^verbatim>\<open>agent/warm_store.py\<close>): how messages leave a session.
    The locale \<open>history_split\<close> is the contract that the trims share; what left and what stayed is everything but
    the messages that arrive while a compaction waits for its summary, an argument of the definitions.
  \<^item> \<open>TurnPipeline\<close> (\<^verbatim>\<open>agent/agent_turn_pipeline.py\<close>, \<^verbatim>\<open>agent/turn_orchestrator.py\<close>): the state machine of a turn over the
    handlers; every turn ends, and what it left unfinished is restored once.
  \<^item> \<open>Facts\<close>, \<open>FactStore\<close>, \<open>FactUpsert\<close>, \<open>FactMemory\<close> (\<^verbatim>\<open>agent/facts.py\<close>, \<^verbatim>\<open>agent/memory.py\<close>): the records of the
    long-term memory, the checks on proposals, relations, confidence, writing, retrieval and the batches of
    the dream task. \<open>FactLife\<close>, \<open>FactRun\<close>, \<open>FactBatch\<close>, \<open>FactKeys\<close> and \<open>FactSafety\<close> decompose every operation into changes in
    place and appended records: the facts stay consistent, and the dream task activates at most six facts,
    all cleared by its checks. \<open>FactGraph\<close> compares the search over relations with reachability, \<open>FactCases\<close>
    holds single cases where calls fail or guards disagree.
  \<^item> \<open>TaskState\<close> (\<^verbatim>\<open>agent/tools/task_state.py\<close>): the state machine that the agent keeps for its task.

  \<^bold>\<open>Reading the models.\<close> A class is a \<open>record\<close> with the operations as functions that return the new state; an
  exception or refusal is the left side of a sum or the answer that the code gives. Times are integers or the
  text that the code compares, passed in by the caller. Concurrency is a step relation, and an invariant is an
  interpretation of \<open>safe_system\<close> on it. Files are lists of lines as their reader sees them. Code outside the
  sources, and what cannot be computed from them, is a parameter: hash functions, YAML and Python
  parsers, tokenizers, Unicode tables, language models, devices, the governance of domain packs; what is assumed
  of one is a named hypothesis (\<open>proper_hash\<close>, \<open>env_ok\<close>, \<open>packs_say_why\<close>, \<open>draws_in_range\<close>, \<open>fresh_ids\<close>, \<open>decaying_powers\<close>,
  an injective hash) with an instance in
  a witness.

  \<^bold>\<open>Bounds and fuel.\<close> No definition runs on fuel: recursions are structural or have a measure (the walk over syntax
  trees by the size of the queue, the trimming loops by the number of blocks, the loop of a turn by the distance
  of its state to the end, the widening of the hot window by its start, the search over relations by its depth). The one loop that draws at
  random is a \<open>while_option\<close>, and that it ends is a theorem. \<open>run_beats\<close> of the motor repeats its beat as often
  as told, and as many beats as commands are enough to drain the queue.

  \<^bold>\<open>Not modelled.\<close> The runner of the agent loop, most tools, channels, gateways and providers are orchestration over
  network and processes; the world state is a text store around heuristics, and the summaries of the memory
  are written by a language model; state branches, telemetry and proof bundles of the evolution subsystem
  (which append to the ledger: any events that other parts append are steps of the model) and the scheduler
  of cognitive tasks are left out. Of a turn, the building of the prompt, the
  commands and the run of the language model are parameters. Inside the modelled parts, locks, fsync, log
  lines and the text of files are left out, and floating-point numbers are rational numbers.
\<close>

end
